(* ===== verification/Js_Prelude.thy ===== *)
theory Js_Prelude
  imports Main
begin

section \<open>The JavaScript string, array and object operations the console uses\<close>

text \<open>
  The prelude of the development. It models the operations of the language that the
  TypeScript sources under \<^verbatim>\<open>src/web/default/src\<close> call on strings
  (\<open>trim\<close>, \<open>split\<close>, \<open>join\<close>, \<open>includes\<close>, \<open>indexOf\<close>, \<open>slice\<close>,
  \<open>toLowerCase\<close>), on arrays (\<open>Array.from(new Set(xs))\<close>, a stable \<open>sort\<close>) and on
  plain objects (property lookup, assignment, deletion and the enumeration order of
  \<open>Object.keys\<close>), together with the generic lemmas and the generic interfaces
  (locales) that the component theories share.

  A string is a list of \<^typ>\<open>char\<close>, one \<^typ>\<open>char\<close> per UTF-16 code unit; the model
  covers the code units up to 0xFF. An \<open>undefined\<close> or \<open>null\<close> is \<^const>\<open>None\<close>.
\<close>

named_theorems js_str \<open>facts about the string operations\<close>
named_theorems js_list \<open>facts about the array operations\<close>

type_synonym jsstr = string

subsection \<open>Characters\<close>

definition js_ws :: "char \<Rightarrow> bool" where
  "js_ws c \<longleftrightarrow> c \<in> {CHR 0x09, CHR 0x0A, CHR 0x0B, CHR 0x0C, CHR 0x0D, CHR 0x20, CHR 0xA0}"

definition is_digit :: "char \<Rightarrow> bool" where
  "is_digit c \<longleftrightarrow> c \<in> set ''0123456789''"

definition digit_val :: "char \<Rightarrow> int" where
  "digit_val c = of_char c - 48"

definition digit_char :: "int \<Rightarrow> char" where
  "digit_char n = ''0123456789'' ! nat n"

definition js_lower_char :: "char \<Rightarrow> char" where
  "js_lower_char c =
     (let n = (of_char c :: nat) in
      if (65 \<le> n \<and> n \<le> 90) \<or> (192 \<le> n \<and> n \<le> 222 \<and> n \<noteq> 215)
      then char_of (n + 32) else c)"

definition js_toLowerCase :: "jsstr \<Rightarrow> jsstr" where
  "js_toLowerCase s = map js_lower_char s"

subsection \<open>Trimming\<close>

definition js_trim :: "jsstr \<Rightarrow> jsstr" where
  "js_trim s = rev (dropWhile js_ws (rev (dropWhile js_ws s)))"

definition trimmed :: "jsstr \<Rightarrow> bool" where
  "trimmed s \<longleftrightarrow> s = [] \<or> (\<not> js_ws (hd s) \<and> \<not> js_ws (last s))"

lemma dropWhile_rev_hd:
  assumes "xs \<noteq> []" and "\<not> P (hd xs)"
  shows "rev (dropWhile P (rev xs)) \<noteq> [] \<and> hd (rev (dropWhile P (rev xs))) = hd xs"
proof -
  from assms obtain y ys where xs: "xs = y # ys" and y: "\<not> P y"
    by (cases xs) auto
  have "dropWhile P (rev xs) = dropWhile P (rev ys) @ [y]"
    using y unfolding xs by (auto simp: dropWhile_append)
  then show ?thesis by (simp add: xs)
qed

lemma hd_dropWhile_not: "dropWhile P xs \<noteq> [] \<Longrightarrow> \<not> P (hd (dropWhile P xs))"
  by (rule hd_dropWhile)

lemma js_trim_trimmed [js_str]: "trimmed (js_trim s)"
proof (cases "dropWhile js_ws s = []")
  case True
  show ?thesis unfolding js_trim_def trimmed_def True by simp
next
  case False
  let ?d = "dropWhile js_ws s"
  have h: "\<not> js_ws (hd ?d)" using False by (rule hd_dropWhile)
  have 1: "js_trim s \<noteq> []" "hd (js_trim s) = hd ?d"
    using dropWhile_rev_hd [of ?d js_ws, OF False h] by (auto simp: js_trim_def)
  have "last (js_trim s) = hd (dropWhile js_ws (rev ?d))"
    using 1(1) by (simp add: js_trim_def last_rev)
  moreover have "dropWhile js_ws (rev ?d) \<noteq> []" using 1(1) by (simp add: js_trim_def)
  ultimately have "\<not> js_ws (last (js_trim s))" by (simp add: hd_dropWhile)
  with 1 h show ?thesis by (simp add: trimmed_def)
qed

lemma js_trim_id [js_str]: "trimmed s \<Longrightarrow> js_trim s = s"
proof (cases s)
  case (Cons a l)
  assume "trimmed s"
  with Cons have a: "\<not> js_ws a" and l: "\<not> js_ws (last s)" by (auto simp: trimmed_def)
  have d: "dropWhile js_ws s = s" using a Cons by simp
  have "hd (rev s) = last s" using Cons by (simp add: hd_rev)
  then have "dropWhile js_ws (rev s) = rev s"
    using l Cons by (cases "rev s") auto
  then show ?thesis by (simp add: js_trim_def d)
qed (simp add: js_trim_def)

lemma js_trim_idem [simp, js_str]: "js_trim (js_trim s) = js_trim s"
  by (simp add: js_trim_id js_trim_trimmed)

lemma js_trim_Nil [simp]: "js_trim [] = []"
  by (simp add: js_trim_def)

lemma set_js_trim [js_str]: "set (js_trim s) \<subseteq> set s"
  by (auto simp: js_trim_def dest!: set_dropWhileD)

lemma js_trim_eq_Nil_iff [js_str]: "js_trim s = [] \<longleftrightarrow> (\<forall>c \<in> set s. js_ws c)"
proof
  assume "js_trim s = []"
  then have "\<forall>c \<in> set (dropWhile js_ws s). js_ws c"
    by (simp add: js_trim_def)
  then have "dropWhile js_ws s = []"
    using hd_dropWhile [of js_ws s] hd_in_set [of "dropWhile js_ws s"] by blast
  then show "\<forall>c \<in> set s. js_ws c" by (simp add: dropWhile_eq_Nil_conv)
next
  assume "\<forall>c \<in> set s. js_ws c"
  then have d: "dropWhile js_ws s = []" by (simp add: dropWhile_eq_Nil_conv)
  show "js_trim s = []" unfolding js_trim_def d by simp
qed

lemma trimmed_no_ws: "\<forall>c \<in> set s. \<not> js_ws c \<Longrightarrow> trimmed s"
  by (cases s) (auto simp: trimmed_def)

lemma js_trim_no_ws [js_str]: "\<forall>c \<in> set s. \<not> js_ws c \<Longrightarrow> js_trim s = s"
  by (simp add: js_trim_id trimmed_no_ws)

subsection \<open>Splitting and joining\<close>

fun split_on :: "char \<Rightarrow> jsstr \<Rightarrow> jsstr list" where
  "split_on c [] = [[]]"
| "split_on c (x # xs) =
     (if x = c then [] # split_on c xs
      else (case split_on c xs of [] \<Rightarrow> [[x]] | p # ps \<Rightarrow> (x # p) # ps))"

fun js_join :: "jsstr \<Rightarrow> jsstr list \<Rightarrow> jsstr" where
  "js_join sep [] = []"
| "js_join sep [x] = x"
| "js_join sep (x # y # ys) = x @ sep @ js_join sep (y # ys)"

lemma split_on_neq_Nil [simp]: "split_on c s \<noteq> []"
  by (cases s) (auto split: list.splits)

lemma split_on_no_sep [simp]: "c \<notin> set s \<Longrightarrow> split_on c s = [s]"
  by (induction s) auto

lemma split_on_append_sep:
  "c \<notin> set s \<Longrightarrow> split_on c (s @ c # t) = s # split_on c t"
  by (induction s) auto

lemma split_on_parts [js_str]: "p \<in> set (split_on c s) \<Longrightarrow> c \<notin> set p"
proof (induction s arbitrary: p)
  case (Cons x xs)
  then show ?case by (cases "split_on c xs") (auto split: if_splits)
qed simp

lemma split_on_parts_subset: "p \<in> set (split_on c s) \<Longrightarrow> set p \<subseteq> set s"
proof (induction s arbitrary: p)
  case (Cons x xs)
  obtain q qs where q: "split_on c xs = q # qs" by (cases "split_on c xs") auto
  have "set q \<subseteq> set xs" "\<And>p. p \<in> set qs \<Longrightarrow> set p \<subseteq> set xs"
    using Cons.IH q by auto
  with Cons.prems q show ?case by (auto split: if_splits)
qed simp

lemma js_join_Cons: "xs \<noteq> [] \<Longrightarrow> js_join sep (x # xs) = x @ sep @ js_join sep xs"
  by (cases xs) auto

lemma join_split_on [simp, js_str]: "js_join [c] (split_on c s) = s"
proof (induction s)
  case (Cons x xs)
  show ?case
  proof (cases "x = c")
    case True
    then show ?thesis using Cons.IH by (simp add: js_join_Cons)
  next
    case False
    obtain p ps where sp: "split_on c xs = p # ps" by (cases "split_on c xs") auto
    then show ?thesis using Cons.IH False by (cases ps) auto
  qed
qed simp

lemma split_on_join [js_str]:
  "xs \<noteq> [] \<Longrightarrow> \<forall>x \<in> set xs. c \<notin> set x \<Longrightarrow> split_on c (js_join [c] xs) = xs"
proof (induction xs rule: induct_list012)
  case (3 x y zs)
  then show ?case by (simp add: split_on_append_sep)
qed auto

lemma set_js_join: "c \<in> set (js_join sep xs) \<Longrightarrow> c \<in> set sep \<or> (\<exists>x \<in> set xs. c \<in> set x)"
  by (induction sep xs rule: js_join.induct) auto

subsection \<open>Searching and slicing\<close>

fun js_startsWith :: "jsstr \<Rightarrow> jsstr \<Rightarrow> bool" where
  "js_startsWith s [] = True"
| "js_startsWith [] (p # ps) = False"
| "js_startsWith (x # xs) (p # ps) = (x = p \<and> js_startsWith xs ps)"

fun js_find :: "jsstr \<Rightarrow> jsstr \<Rightarrow> nat option" where
  "js_find sub [] = (if sub = [] then Some 0 else None)"
| "js_find sub (x # xs) =
     (if js_startsWith (x # xs) sub then Some 0 else map_option Suc (js_find sub xs))"

definition js_indexOf :: "jsstr \<Rightarrow> jsstr \<Rightarrow> nat \<Rightarrow> nat option" where
  "js_indexOf s sub from = map_option (\<lambda>i. from + i) (js_find sub (drop from s))"

definition js_includes :: "jsstr \<Rightarrow> jsstr \<Rightarrow> bool" where
  "js_includes s sub \<longleftrightarrow> js_find sub s \<noteq> None"

definition js_substring :: "jsstr \<Rightarrow> nat \<Rightarrow> nat \<Rightarrow> jsstr" where
  "js_substring s i j = take (j - i) (drop i s)"

definition js_slice_last :: "jsstr \<Rightarrow> nat \<Rightarrow> jsstr" where
  \<comment> \<open>\<open>s.slice(-n)\<close>\<close>
  "js_slice_last s n = drop (length s - n) s"

lemma js_startsWith_iff: "js_startsWith s p \<longleftrightarrow> (\<exists>t. s = p @ t)"
  by (induction s p rule: js_startsWith.induct) auto

lemma js_startsWith_append [simp]: "js_startsWith (p @ t) p"
  by (auto simp: js_startsWith_iff)

lemma js_find_SomeD:
  "js_find sub s = Some i \<Longrightarrow> i + length sub \<le> length s \<and> (\<exists>t. s = take i s @ sub @ t)"
proof (induction sub s arbitrary: i rule: js_find.induct)
  case (1 sub)
  then show ?case by (auto split: if_splits)
next
  case (2 sub x xs)
  show ?case
  proof (cases "js_startsWith (x # xs) sub")
    case True
    then obtain t where "x # xs = sub @ t" by (auto simp: js_startsWith_iff)
    moreover have "i = 0" using True 2(2) by simp
    moreover have "length (x # xs) = length sub + length t"
      using \<open>x # xs = sub @ t\<close> by (metis length_append)
    ultimately show ?thesis by simp
  next
    case False
    then obtain j where "js_find sub xs = Some j" "i = Suc j" using 2(2) by auto
    with 2(1) False show ?thesis by auto
  qed
qed

lemma js_find_None_iff: "js_find sub s = None \<longleftrightarrow> (\<nexists>a b. s = a @ sub @ b)"
proof (induction sub s rule: js_find.induct)
  case (1 sub)
  then show ?case by auto
next
  case (2 sub x xs)
  show ?case
  proof (cases "js_startsWith (x # xs) sub")
    case True
    then show ?thesis by (auto simp: js_startsWith_iff intro: exI [of _ "[]"])
  next
    case False
    have "(\<nexists>a b. x # xs = a @ sub @ b) \<longleftrightarrow> (\<nexists>a b. xs = a @ sub @ b)"
    proof -
      have "(\<exists>a b. x # xs = a @ sub @ b) \<longleftrightarrow> (\<exists>a b. xs = a @ sub @ b)"
      proof
        assume "\<exists>a b. x # xs = a @ sub @ b"
        then obtain a b where e: "x # xs = a @ sub @ b" by blast
        with False have "a \<noteq> []" by (auto simp: js_startsWith_iff)
        then obtain a' where "a = x # a'" using e by (cases a) auto
        with e show "\<exists>a b. xs = a @ sub @ b" by auto
      next
        assume "\<exists>a b. xs = a @ sub @ b"
        then obtain a b where "xs = a @ sub @ b" by blast
        then have "x # xs = (x # a) @ sub @ b" by simp
        then show "\<exists>a b. x # xs = a @ sub @ b" by blast
      qed
      then show ?thesis by blast
    qed
    with 2 False show ?thesis by simp
  qed
qed

lemma js_includes_iff: "js_includes s sub \<longleftrightarrow> (\<exists>a b. s = a @ sub @ b)"
  using js_find_None_iff [of sub s] by (auto simp: js_includes_def)

subsection \<open>Arrays\<close>

text \<open>\<open>Array.from(new Set(xs))\<close>: the first occurrence of every element, in order.\<close>

fun uniq :: "'a list \<Rightarrow> 'a list" where
  "uniq [] = []"
| "uniq (x # xs) = x # filter (\<lambda>y. y \<noteq> x) (uniq xs)"

lemma set_uniq [simp, js_list]: "set (uniq xs) = set xs"
  by (induction xs) auto

lemma distinct_uniq [simp, js_list]: "distinct (uniq xs)"
  by (induction xs) auto

lemma uniq_id [js_list]: "distinct xs \<Longrightarrow> uniq xs = xs"
proof (induction xs)
  case (Cons x xs)
  then have "uniq xs = xs" by simp
  moreover have "filter (\<lambda>y. y \<noteq> x) xs = xs"
    using Cons.prems by (auto simp: filter_id_conv)
  ultimately show ?case by simp
qed simp

lemma uniq_idem [simp, js_list]: "uniq (uniq xs) = uniq xs"
  by (simp add: uniq_id)

lemma length_uniq_le: "length (uniq xs) \<le> length xs"
proof (induction xs)
  case (Cons x xs)
  have "length (filter (\<lambda>y. y \<noteq> x) (uniq xs)) \<le> length (uniq xs)"
    by (rule length_filter_le)
  with Cons show ?case by (simp del: length_filter_le)
qed simp

lemma uniq_Nil_iff [simp]: "uniq xs = [] \<longleftrightarrow> xs = []"
  by (cases xs) auto

text \<open>
  \<open>Array.prototype.sort\<close> with a comparator is a stable sort; \<open>cmp a b\<close> is True when the
  comparator of the source is at most 0 (\<open>a\<close> may stay lt \<open>b\<close>). For a comparator
  that is a total preorder the result is the unique stable ordering.
\<close>

fun ins_by :: "('a \<Rightarrow> 'a \<Rightarrow> bool) \<Rightarrow> 'a \<Rightarrow> 'a list \<Rightarrow> 'a list" where
  "ins_by le x [] = [x]"
| "ins_by le x (y # ys) = (if le x y then x # y # ys else y # ins_by le x ys)"

fun sort_by :: "('a \<Rightarrow> 'a \<Rightarrow> bool) \<Rightarrow> 'a list \<Rightarrow> 'a list" where
  "sort_by le [] = []"
| "sort_by le (x # xs) = ins_by le x (sort_by le xs)"

lemma set_ins_by [simp]: "set (ins_by le x xs) = insert x (set xs)"
  by (induction xs) auto

lemma set_sort_by [simp, js_list]: "set (sort_by le xs) = set xs"
  by (induction xs) auto

lemma length_ins_by [simp]: "length (ins_by le x xs) = Suc (length xs)"
  by (induction xs) auto

lemma length_sort_by [simp]: "length (sort_by le xs) = length xs"
  by (induction xs) auto

lemma count_ins_by: "count_list (ins_by le x xs) z = count_list (x # xs) z"
  by (induction xs) auto

lemma count_sort_by [js_list]: "count_list (sort_by le xs) z = count_list xs z"
  by (induction xs) (auto simp: count_ins_by)

lemma distinct_ins_by [simp]: "distinct (ins_by le x xs) = distinct (x # xs)"
  by (induction xs) auto

lemma distinct_sort_by [simp, js_list]: "distinct (sort_by le xs) = distinct xs"
  by (induction xs) auto

text \<open>The order contract a comparator has to meet for its sort to be an ordering.\<close>

locale total_comparator =
  fixes le :: "'a \<Rightarrow> 'a \<Rightarrow> bool"
  assumes le_total: "le x y \<or> le y x"
    and le_trans: "le x y \<Longrightarrow> le y z \<Longrightarrow> le x z"
begin

lemma sorted_ins_by: "sorted_wrt le xs \<Longrightarrow> sorted_wrt le (ins_by le x xs)"
proof (induction xs)
  case (Cons y ys)
  then show ?case using le_total le_trans by (auto 4 4)
qed simp

lemma sorted_sort_by: "sorted_wrt le (sort_by le xs)"
  by (induction xs) (auto intro: sorted_ins_by)

lemma le_refl: "le x x"
  using le_total by blast

lemma ins_by_id: "\<forall>y \<in> set xs. le x y \<Longrightarrow> ins_by le x xs = x # xs"
  by (cases xs) auto

lemma sort_by_id: "sorted_wrt le xs \<Longrightarrow> sort_by le xs = xs"
  by (induction xs) (auto simp: ins_by_id)

end

text \<open>The default order of \<open>sort()\<close> on strings: lexicographic by code unit.\<close>

fun js_str_le :: "jsstr \<Rightarrow> jsstr \<Rightarrow> bool" where
  "js_str_le [] t = True"
| "js_str_le (x # xs) [] = False"
| "js_str_le (x # xs) (y # ys) =
     ((of_char x :: nat) < of_char y \<or> (x = y \<and> js_str_le xs ys))"

lemma js_str_le_total: "js_str_le s t \<or> js_str_le t s"
proof (induction s t rule: js_str_le.induct)
  case (3 x xs y ys)
  have "(of_char x :: nat) < of_char y \<or> (of_char y :: nat) < of_char x \<or> x = y"
    by (metis char_of_char nat_neq_iff)
  with 3 show ?case by auto
qed auto

lemma js_str_le_trans: "js_str_le s t \<Longrightarrow> js_str_le t u \<Longrightarrow> js_str_le s u"
proof (induction s t arbitrary: u rule: js_str_le.induct)
  case (3 x xs y ys)
  then show ?case by (cases u) auto
qed auto

lemma js_str_le_antisym: "js_str_le s t \<Longrightarrow> js_str_le t s \<Longrightarrow> s = t"
proof (induction s t rule: js_str_le.induct)
  case (1 t)
  then show ?case by (cases t) auto
qed auto

interpretation str_order: total_comparator js_str_le
  by unfold_locales (rule js_str_le_total, rule js_str_le_trans)

subsection \<open>Numbers as decimal digits\<close>

text \<open>
  Decimal printing and reading of the naturals (as non-negative integers), as template literals
  and \<open>parseInt\<close> do.
\<close>

function dec_str :: "int \<Rightarrow> jsstr" where
  "dec_str n = (if n < 10 then [digit_char n] else dec_str (n div 10) @ [digit_char (n mod 10)])"
  by pat_completeness auto
termination
  by (relation "measure nat") auto

declare dec_str.simps [simp del]

definition digits_val :: "jsstr \<Rightarrow> int" where
  "digits_val s = foldl (\<lambda>a c. 10 * a + digit_val c) 0 s"

lemma digit_char_simps:
  "0 \<le> n \<Longrightarrow> n < 10 \<Longrightarrow> is_digit (digit_char n) \<and> digit_val (digit_char n) = n"
proof -
  assume "0 \<le> n" "n < 10"
  then have "n = 0 \<or> n = 1 \<or> n = 2 \<or> n = 3 \<or> n = 4 \<or> n = 5 \<or> n = 6 \<or> n = 7 \<or> n = 8 \<or> n = 9"
    by presburger
  then show ?thesis
    by (auto simp: digit_char_def digit_val_def is_digit_def)
qed

lemma digits_val_snoc: "digits_val (s @ [c]) = 10 * digits_val s + digit_val c"
  by (simp add: digits_val_def)

lemma is_digit_val: "is_digit c \<Longrightarrow> 0 \<le> digit_val c \<and> digit_val c < 10"
  by (auto simp: is_digit_def digit_val_def)

lemma digits_val_nonneg: "\<forall>c \<in> set s. is_digit c \<Longrightarrow> 0 \<le> digits_val s"
  by (induction s rule: rev_induct) (auto simp: digits_val_snoc is_digit_val, simp add: digits_val_def)

lemma dec_str_digits: "0 \<le> n \<Longrightarrow> c \<in> set (dec_str n) \<Longrightarrow> is_digit c"
proof (induction n arbitrary: c rule: dec_str.induct)
  case (1 n)
  show ?case
  proof (cases "n < 10")
    case True
    then show ?thesis using 1 by (simp add: dec_str.simps [of n] digit_char_simps)
  next
    case False
    then show ?thesis
      using 1 by (auto simp: dec_str.simps [of n] digit_char_simps)
  qed
qed

lemma dec_str_neq_Nil [simp]: "dec_str n \<noteq> []"
  by (subst dec_str.simps) simp

lemma digits_val_dec_str [simp]: "0 \<le> n \<Longrightarrow> digits_val (dec_str n) = n"
proof (induction n rule: dec_str.induct)
  case (1 n)
  show ?case
  proof (cases "n < 10")
    case True
    then show ?thesis
      using 1 by (simp add: dec_str.simps [of n] digits_val_def digit_char_simps)
  next
    case False
    then show ?thesis
      using 1 by (simp add: dec_str.simps [of n] digits_val_snoc digit_char_simps)
  qed
qed

lemma dec_str_inj: "0 \<le> m \<Longrightarrow> 0 \<le> n \<Longrightarrow> dec_str m = dec_str n \<Longrightarrow> m = n"
  by (metis digits_val_dec_str)

lemma digit_not_ws: "is_digit c \<Longrightarrow> \<not> js_ws c"
  by (auto simp: is_digit_def js_ws_def)

definition int_to_str :: "int \<Rightarrow> jsstr" where
  "int_to_str i = (if i < 0 then CHR ''-'' # dec_str (- i) else dec_str i)"

subsection \<open>Plain objects\<close>

text \<open>
  An object is the list of its own properties in enumeration order: array-index keys first,
  in ascending numeric order, then the other keys in the order of their creation.
\<close>

type_synonym 'v obj = "(jsstr \<times> 'v) list"

definition is_array_index :: "jsstr \<Rightarrow> bool" where
  "is_array_index s \<longleftrightarrow> s \<noteq> [] \<and> (\<forall>c \<in> set s. is_digit c) \<and>
     (s = ''0'' \<or> hd s \<noteq> CHR ''0'') \<and> digits_val s < 4294967295"

definition obj_get :: "jsstr \<Rightarrow> 'v obj \<Rightarrow> 'v option" where
  "obj_get k ob = map_of ob k"

definition obj_has :: "jsstr \<Rightarrow> 'v obj \<Rightarrow> bool" where
  "obj_has k ob \<longleftrightarrow> k \<in> set (map fst ob)"

definition obj_set :: "jsstr \<Rightarrow> 'v \<Rightarrow> 'v obj \<Rightarrow> 'v obj" where
  "obj_set k v ob =
     (if obj_has k ob then map (\<lambda>(k', v'). if k' = k then (k, v) else (k', v')) ob
      else if is_array_index k then
        (let lt = (\<lambda>p. is_array_index (fst p) \<and> digits_val (fst p) < digits_val k)
         in takeWhile lt ob @ (k, v) # dropWhile lt ob)
      else ob @ [(k, v)])"

definition obj_del :: "jsstr \<Rightarrow> 'v obj \<Rightarrow> 'v obj" where
  "obj_del k ob = filter (\<lambda>p. fst p \<noteq> k) ob"

definition obj_wf :: "'v obj \<Rightarrow> bool" where
  "obj_wf ob \<longleftrightarrow> distinct (map fst ob)"

lemma map_of_replace:
  "map_of (map (\<lambda>(k', v'). if k' = k then (k, v) else (k', v')) ob) j =
     (if j = k then (if k \<in> fst ` set ob then Some v else None) else map_of ob j)"
  by (induction ob) (auto split: if_splits)

lemma fst_replace:
  "map fst (map (\<lambda>(k', v'). if k' = k then (k, v) else (k', v')) ob) = map fst ob"
  by (induction ob) auto

lemma map_of_insert_mid:
  assumes "k \<notin> fst ` set ob"
  shows "map_of (takeWhile P ob @ (k, v) # dropWhile P ob) j = (if j = k then Some v else map_of ob j)"
proof -
  have "map_of ob j = (map_of (dropWhile P ob) ++ map_of (takeWhile P ob)) j"
    by (metis map_of_append takeWhile_dropWhile_id)
  moreover have "map_of (takeWhile P ob) k = None"
    using assms by (auto simp: map_of_eq_None_iff dest!: set_takeWhileD intro: rev_image_eqI)
  ultimately show ?thesis by (auto simp: map_add_def split: option.splits)
qed

lemma obj_get_set: "obj_get j (obj_set k v ob) = (if j = k then Some v else obj_get j ob)"
proof (cases "obj_has k ob")
  case True
  then show ?thesis
    by (simp add: obj_get_def obj_set_def obj_has_def map_of_replace)
next
  case False
  then have k: "k \<notin> fst ` set ob" by (simp add: obj_has_def)
  show ?thesis
  proof (cases "is_array_index k")
    case True
    with False show ?thesis
      using map_of_insert_mid [OF k, of _ v j] by (simp add: obj_get_def obj_set_def Let_def)
  next
    case False
    have "map_of ob k = None" using k by (simp add: map_of_eq_None_iff)
    with False \<open>\<not> obj_has k ob\<close> show ?thesis
      by (auto simp: obj_get_def obj_set_def map_add_def split: option.splits)
  qed
qed

lemma obj_get_del: "obj_get j (obj_del k ob) = (if j = k then None else obj_get j ob)"
  by (induction ob) (auto simp: obj_get_def obj_del_def)

lemma obj_has_get: "obj_has k ob \<longleftrightarrow> obj_get k ob \<noteq> None"
  by (simp add: obj_has_def obj_get_def map_of_eq_None_iff)

lemma obj_wf_set: "obj_wf ob \<Longrightarrow> obj_wf (obj_set k v ob)"
proof (cases "obj_has k ob")
  case True
  assume "obj_wf ob"
  with True show ?thesis by (simp add: obj_wf_def obj_set_def fst_replace del: map_map)
next
  case False
  assume wf: "obj_wf ob"
  have ins: "distinct (map fst (takeWhile P ob @ (k, v) # dropWhile P ob))" for P
  proof -
    have "map fst (takeWhile P ob) @ map fst (dropWhile P ob) = map fst ob"
      by (metis map_append takeWhile_dropWhile_id)
    moreover have "distinct (map fst ob)" "k \<notin> set (map fst ob)"
      using wf False by (auto simp: obj_wf_def obj_has_def)
    ultimately have "distinct (map fst (takeWhile P ob) @ map fst (dropWhile P ob))"
      "k \<notin> set (map fst (takeWhile P ob) @ map fst (dropWhile P ob))" by metis+
    then show ?thesis by auto
  qed
  with wf False show ?thesis by (auto simp: obj_wf_def obj_set_def Let_def obj_has_def)
qed

lemma obj_wf_del: "obj_wf ob \<Longrightarrow> obj_wf (obj_del k ob)"
  by (simp add: obj_wf_def obj_del_def distinct_map_filter)

lemma obj_wf_Nil: "obj_wf []"
  by (simp add: obj_wf_def)

text \<open>Assignments in a loop, and the entries of an object that is built again.\<close>

lemma fold_set_in:
  "x \<in> set xs \<Longrightarrow> (\<And>y. y \<in> set xs \<Longrightarrow> f y = f x \<Longrightarrow> g y = g x) \<Longrightarrow> obj_get (f x) (fold (\<lambda>y. obj_set (f y) (g y)) xs r) = Some (g x)"
proof (induction xs rule: rev_induct)
  case (snoc y ys)
  show ?case
  proof (cases "f y = f x")
    case True
    then have "g y = g x" using snoc.prems(2) by simp
    then show ?thesis using True by (simp add: obj_get_set)
  next
    case False
    then have "x \<in> set ys" using snoc.prems(1) by auto
    then have "obj_get (f x) (fold (\<lambda>y. obj_set (f y) (g y)) ys r) = Some (g x)"
      by (rule snoc.IH) (rule snoc.prems(2), simp_all)
    then show ?thesis using False by (simp add: obj_get_set)
  qed
qed simp

lemma fold_set_mem:
  "obj_get k (fold (\<lambda>y. obj_set (f y) (g y)) xs r) = Some z \<Longrightarrow> obj_get k r = Some z \<or> (\<exists>x \<in> set xs. f x = k \<and> g x = z)"
  by (induction xs rule: rev_induct) (auto simp: obj_get_set split: if_splits)

lemma fold_set_wf: "obj_wf r \<Longrightarrow> obj_wf (fold (\<lambda>y. obj_set (f y) (g y)) xs r)"
  by (induction xs rule: rev_induct) (auto simp: obj_wf_set)

lemma wf_entry: "obj_wf ob \<Longrightarrow> (k, v) \<in> set ob \<longleftrightarrow> obj_get k ob = Some v"
  by (simp add: obj_wf_def obj_get_def)

lemma obj_get_rebuild: "obj_wf xs \<Longrightarrow> obj_get k (fold (\<lambda>(k, v). obj_set k v) xs []) = Some v \<longleftrightarrow> (k, v) \<in> set xs"
proof -
  assume wf: "obj_wf xs"
  have "snd y = snd x" if "x \<in> set xs" "y \<in> set xs" "fst y = fst x" for x y
    using wf that by (auto simp: obj_wf_def distinct_map inj_on_def)
  then show ?thesis
    using fold_set_in [of "(k, v)" xs fst snd "[]"] fold_set_mem [of k fst snd xs "[]" v]
    by (force simp: split_def obj_get_def)
qed

text \<open>
  The contract of a dictionary, as the form and settings code relies on it: what a lookup
  returns after an assignment or a deletion, and that both keep the keys unique.
\<close>

locale dictionary =
  fixes get :: "'k \<Rightarrow> 'd \<Rightarrow> 'v option"
    and put :: "'k \<Rightarrow> 'v \<Rightarrow> 'd \<Rightarrow> 'd"
    and del :: "'k \<Rightarrow> 'd \<Rightarrow> 'd"
    and empty :: 'd
    and wf :: "'d \<Rightarrow> bool"
  assumes get_put: "get j (put k v d) = (if j = k then Some v else get j d)"
    and get_del: "get j (del k d) = (if j = k then None else get j d)"
    and get_empty: "get k empty = None"
    and wf_empty: "wf empty"
    and wf_put: "wf d \<Longrightarrow> wf (put k v d)"
    and wf_del: "wf d \<Longrightarrow> wf (del k d)"
begin

lemma get_put_same: "get k (put k v d) = Some v"
  by (simp add: get_put)

lemma get_put_other: "j \<noteq> k \<Longrightarrow> get j (put k v d) = get j d"
  by (simp add: get_put)

lemma wf_fold_put: "wf d \<Longrightarrow> wf (fold (\<lambda>(k, v). put k v) kvs d)"
  by (induction kvs arbitrary: d) (auto intro: wf_put)

lemma get_fold_put:
  "get j (fold (\<lambda>(k, v). put k v) kvs d) =
     (case map_of (rev kvs) j of Some v \<Rightarrow> Some v | None \<Rightarrow> get j d)"
proof (induction kvs arbitrary: d)
  case (Cons kv kvs)
  obtain k v where [simp]: "kv = (k, v)" by (cases kv)
  show ?case
    using Cons.IH [of "put k v d"] by (auto simp: get_put map_add_def split: option.splits)
qed simp

end

interpretation js_obj: dictionary obj_get obj_set obj_del "[]" obj_wf
  by unfold_locales
    (simp_all add: obj_get_set obj_get_del obj_wf_set obj_wf_del obj_wf_Nil, simp add: obj_get_def)

subsection \<open>Generic interfaces\<close>

text \<open>
  A normaliser brings every value into a canonical form and leaves canonical values alone;
  that is the contract of every \<open>normalize\<close>/\<open>sanitize\<close> function of the sources.
\<close>

locale normaliser =
  fixes norm :: "'a \<Rightarrow> 'a" and canonical :: "'a \<Rightarrow> bool"
  assumes norm_canonical: "canonical (norm x)"
    and canonical_fix: "canonical x \<Longrightarrow> norm x = x"
begin

lemma norm_idem: "norm (norm x) = norm x"
  by (simp add: canonical_fix norm_canonical)

lemma canonical_iff_fix: "canonical x \<longleftrightarrow> norm x = x"
  using norm_canonical canonical_fix by metis

lemma canonical_image: "range norm = Collect canonical"
  using norm_canonical canonical_fix by (auto simp: image_iff) metis

end

interpretation trim_nf: normaliser js_trim trimmed
  by unfold_locales (auto intro: js_trim_trimmed js_trim_id)

interpretation uniq_nf: normaliser uniq distinct
  by unfold_locales (auto intro: uniq_id)

text \<open>
  A state machine driven by a list of events: an invariant kept by every step holds after
  every run, and a step that is ignored in a frozen state leaves the run where it is.
\<close>

locale event_machine =
  fixes step :: "'e \<Rightarrow> 's \<Rightarrow> 's" and inv :: "'s \<Rightarrow> bool"
  assumes step_inv: "inv s \<Longrightarrow> inv (step e s)"
begin

lemma run_inv: "inv s \<Longrightarrow> inv (fold step es s)"
  by (induction es arbitrary: s) (auto intro: step_inv)

lemma run_frame:
  assumes "\<And>e s. inv s \<Longrightarrow> f (step e s) = f s" and "inv s"
  shows "f (fold step es s) = f s"
  using assms(2)
proof (induction es arbitrary: s)
  case (Cons e es)
  then show ?case using assms(1) step_inv by simp
qed simp

end

text \<open>A machine whose invariant is kept by the events that meet a guard; without a guard it is the one above.\<close>

locale guarded_machine =
  fixes step :: "'e \<Rightarrow> 's \<Rightarrow> 's" and guard :: "'e \<Rightarrow> bool" and inv :: "'s \<Rightarrow> bool"
  assumes guarded_step: "inv s \<Longrightarrow> guard e \<Longrightarrow> inv (step e s)"
begin

lemma guarded_run: "inv s \<Longrightarrow> list_all guard es \<Longrightarrow> inv (fold step es s)"
  by (induction es arbitrary: s) (auto intro: guarded_step)

end

sublocale event_machine \<subseteq> unguarded: guarded_machine step "\<lambda>_. True" inv
  by unfold_locales (rule step_inv)

end
