(* ===== verification/Http_Status_Rules.thy ===== *)
theory Http_Status_Rules
  imports Js_Prelude
begin

section \<open>HTTP status-code rules\<close>

text \<open>
  Model of \<^verbatim>\<open>src/web/default/src/lib/http-status-code-rules.ts\<close>: the parser of
  the comma-separated status-code rules (\<open>400,500-503\<close>) of the automatic disable and retry
  settings, and the merge of the parsed ranges into the canonical list that is stored.

  The parser's \<open>input\<close> is the string that \<open>(input ?? '').toString()\<close> yields. The
  full-width comma that the source replaces is not a code unit of the model, so the replacement
  is the identity here. Codes are integers: \<open>parseInt\<close> of a digit string is exact below
  2 to the power 53, and every larger value is rejected by the range check as well.
\<close>

subsection \<open>Data and operations\<close>

record status_range =
  rstart :: int
  rend :: int

record parsed_rules =
  ok :: bool
  ranges :: "status_range list"
  tokens :: "jsstr list"
  normalized :: jsstr
  invalidTokens :: "jsstr list"

definition isNumber :: "jsstr \<Rightarrow> bool" where
  "isNumber s \<longleftrightarrow> s \<noteq> [] \<and> (\<forall>c \<in> set s. is_digit c)"

definition isValidCode :: "int \<Rightarrow> bool" where
  "isValidCode code \<longleftrightarrow> 100 \<le> code \<and> code \<le> 599"

definition parseToken :: "jsstr \<Rightarrow> status_range option" where
  "parseToken token =
     (let cleaned = filter (\<lambda>c. \<not> js_ws c) (js_trim token) in
      if cleaned = [] then None
      else if js_includes cleaned ''-'' then
        (let parts = split_on CHR ''-'' cleaned; a = parts ! 0; b = parts ! 1 in
         if \<not> isNumber a \<or> \<not> isNumber b then None
         else (let start = digits_val a; end' = digits_val b in
               if \<not> isValidCode start \<or> \<not> isValidCode end' \<or> start > end' then None
               else Some \<lparr>rstart = start, rend = end'\<rparr>))
      else if \<not> isNumber cleaned then None
      else (let code = digits_val cleaned in
            if \<not> isValidCode code then None else Some \<lparr>rstart = code, rend = code\<rparr>))"

definition range_le :: "status_range \<Rightarrow> status_range \<Rightarrow> bool" where
  "range_le a b \<longleftrightarrow> (if rstart a \<noteq> rstart b then rstart a \<le> rstart b else rend a \<le> rend b)"

definition merge_step :: "status_range list \<Rightarrow> status_range \<Rightarrow> status_range list" where
  "merge_step merged current =
     (if merged = [] \<or> rstart current > rend (last merged) + 1 then merged @ [current]
      else butlast merged @ [(last merged)\<lparr>rend := max (rend (last merged)) (rend current)\<rparr>])"

definition mergeRanges :: "status_range list \<Rightarrow> status_range list" where
  "mergeRanges rs = (if rs = [] then [] else foldl merge_step [] (sort_by range_le rs))"

definition show_range :: "status_range \<Rightarrow> jsstr" where
  "show_range r = (if rstart r = rend r then dec_str (rstart r)
     else dec_str (rstart r) @ ''-'' @ dec_str (rend r))"

definition rule_segments :: "jsstr \<Rightarrow> jsstr list" where
  "rule_segments raw = filter (\<lambda>s. s \<noteq> []) (map js_trim (split_on CHR '','' raw))"

definition parseHttpStatusCodeRules :: "jsstr option \<Rightarrow> parsed_rules" where
  "parseHttpStatusCodeRules input =
     (let raw = js_trim (case input of None \<Rightarrow> [] | Some s \<Rightarrow> s) in
      if raw = [] then
        \<lparr>ok = True, ranges = [], tokens = [], normalized = [], invalidTokens = []\<rparr>
      else
        (let segments = rule_segments raw;
             parsed = List.map_filter parseToken segments;
             invalid = filter (\<lambda>s. parseToken s = None) segments in
         if invalid \<noteq> [] then
           \<lparr>ok = False, ranges = [], tokens = [], normalized = raw, invalidTokens = invalid\<rparr>
         else
           (let merged = mergeRanges parsed; toks = map show_range merged in
            \<lparr>ok = True, ranges = merged, tokens = toks, normalized = js_join '','' toks,
             invalidTokens = []\<rparr>)))"

subsection \<open>The set of codes a list of ranges covers\<close>

definition covers :: "status_range list \<Rightarrow> int \<Rightarrow> bool" where
  "covers rs c \<longleftrightarrow> (\<exists>r \<in> set rs. rstart r \<le> c \<and> c \<le> rend r)"

definition separated :: "status_range list \<Rightarrow> bool" where
  "separated rs \<longleftrightarrow> sorted_wrt (\<lambda>a b. rend a + 1 < rstart b) rs \<and> (\<forall>r \<in> set rs. rstart r \<le> rend r)"

definition valid_range :: "status_range \<Rightarrow> bool" where
  "valid_range r \<longleftrightarrow> isValidCode (rstart r) \<and> isValidCode (rend r) \<and> rstart r \<le> rend r"

definition canonical_ranges :: "status_range list \<Rightarrow> bool" where
  "canonical_ranges rs \<longleftrightarrow> separated rs \<and> (\<forall>r \<in> set rs. valid_range r)"

interpretation range_order: total_comparator range_le
  by unfold_locales (auto simp: range_le_def split: if_splits)

lemma range_le_start: "range_le a b \<Longrightarrow> rstart a \<le> rstart b"
  by (auto simp: range_le_def split: if_splits)

lemma covers_append: "covers (xs @ ys) c \<longleftrightarrow> covers xs c \<or> covers ys c"
  by (auto simp: covers_def)

lemma covers_single: "covers [r] c \<longleftrightarrow> rstart r \<le> c \<and> c \<le> rend r"
  by (auto simp: covers_def)

lemma covers_snoc_butlast:
  "xs \<noteq> [] \<Longrightarrow> covers xs c \<longleftrightarrow> covers (butlast xs) c \<or> covers [last xs] c"
  by (metis append_butlast_last_id covers_append)

lemma separated_snoc:
  "separated (xs @ [r]) \<longleftrightarrow>
     separated xs \<and> rstart r \<le> rend r \<and> (\<forall>x \<in> set xs. rend x + 1 < rstart r)"
  by (auto simp: separated_def sorted_wrt_append)

lemma separated_last_max:
  assumes "separated xs" "x \<in> set xs" "xs \<noteq> []"
  shows "rend x \<le> rend (last xs)"
proof -
  have "separated (butlast xs @ [last xs])" using assms by simp
  then have "x \<in> set (butlast xs) \<Longrightarrow> rend x < rstart (last xs)" "rstart (last xs) \<le> rend (last xs)"
    by (auto simp: separated_snoc)
  moreover have "x = last xs \<or> x \<in> set (butlast xs)"
    using assms by (metis append_butlast_last_id in_set_conv_decomp set_ConsD rotate1.simps(2) set_rotate1)
  ultimately show ?thesis by fastforce
qed

lemma merge_step_separated:
  assumes "separated acc" "rstart r \<le> rend r"
  shows "separated (merge_step acc r)"
proof (cases "acc = [] \<or> rstart r > rend (last acc) + 1")
  case True
  then have "\<forall>x \<in> set acc. rend x + 1 < rstart r"
    using separated_last_max [OF assms(1)] by fastforce
  with True assms show ?thesis by (simp add: merge_step_def separated_snoc)
next
  case False
  then have "separated (butlast acc @ [last acc])" using assms by simp
  then have "separated (butlast acc)" "rstart (last acc) \<le> rend (last acc)"
    "\<forall>x \<in> set (butlast acc). rend x + 1 < rstart (last acc)"
    unfolding separated_snoc by blast+
  then have "separated (butlast acc @ [(last acc)\<lparr>rend := max (rend (last acc)) (rend r)\<rparr>])"
    by (simp add: separated_snoc le_max_iff_disj)
  with False show ?thesis by (simp add: merge_step_def)
qed

lemma merge_step_covers:
  assumes "acc = [] \<or> rstart (last acc) \<le> rstart r" "separated acc" "rstart r \<le> rend r"
  shows "covers (merge_step acc r) c \<longleftrightarrow> covers acc c \<or> covers [r] c"
proof (cases "acc = [] \<or> rstart r > rend (last acc) + 1")
  case True
  then show ?thesis by (simp add: merge_step_def covers_append)
next
  case False
  have "rstart (last acc) \<le> rend (last acc)" using False assms(2) by (simp add: separated_def)
  with False assms show ?thesis
    by (auto simp: merge_step_def covers_append covers_snoc_butlast [of acc] covers_single)
qed

lemma merge_step_last_start:
  "rstart (last (merge_step acc r)) \<le> rstart r \<longleftrightarrow>
     (acc = [] \<or> rstart r > rend (last acc) + 1 \<or> rstart (last acc) \<le> rstart r)"
  by (auto simp: merge_step_def)

lemma merge_step_neq_Nil [simp]: "merge_step acc r \<noteq> []"
  by (simp add: merge_step_def)

lemma foldl_merge:
  assumes "sorted_wrt (\<lambda>a b. rstart a \<le> rstart b) rs" "\<forall>r \<in> set rs. rstart r \<le> rend r"
    "separated acc" "acc = [] \<or> (\<forall>r \<in> set rs. rstart (last acc) \<le> rstart r)"
  shows "separated (foldl merge_step acc rs) \<and>
     (\<forall>c. covers (foldl merge_step acc rs) c \<longleftrightarrow> covers acc c \<or> covers rs c)"
  using assms
proof (induction rs arbitrary: acc)
  case Nil
  then show ?case by (simp add: covers_def)
next
  case (Cons r rs)
  let ?acc = "merge_step acc r"
  have r: "acc = [] \<or> rstart (last acc) \<le> rstart r" "rstart r \<le> rend r"
    using Cons.prems by auto
  have "rstart (last ?acc) \<le> rstart r" using r by (auto simp: merge_step_last_start)
  then have "\<forall>r' \<in> set rs. rstart (last ?acc) \<le> rstart r'"
    using Cons.prems(1) by fastforce
  then have "separated (foldl merge_step ?acc rs)"
    "\<forall>c. covers (foldl merge_step ?acc rs) c \<longleftrightarrow> covers ?acc c \<or> covers rs c"
    using Cons.IH [of ?acc] Cons.prems merge_step_separated r(2) by auto
  moreover have "covers (r # rs) c \<longleftrightarrow> covers [r] c \<or> covers rs c" for c
    by (auto simp: covers_def)
  ultimately show ?case using merge_step_covers [OF r(1) Cons.prems(3) r(2)] by auto
qed

lemma mergeRanges_core:
  assumes "\<forall>r \<in> set rs. rstart r \<le> rend r"
  shows "separated (mergeRanges rs) \<and> (\<forall>c. covers (mergeRanges rs) c \<longleftrightarrow> covers rs c)"
proof -
  have "sorted_wrt (\<lambda>a b. rstart a \<le> rstart b) (sort_by range_le rs)"
    by (rule sorted_wrt_mono_rel [OF _ range_order.sorted_sort_by]) (rule range_le_start)
  then have "separated (foldl merge_step [] (sort_by range_le rs)) \<and>
    (\<forall>c. covers (foldl merge_step [] (sort_by range_le rs)) c \<longleftrightarrow> covers [] c \<or> covers (sort_by range_le rs) c)"
    by (rule foldl_merge) (use assms in \<open>auto simp: separated_def\<close>)
  then show ?thesis by (auto simp: mergeRanges_def separated_def covers_def)
qed

text \<open>Merging keeps every bound between the bounds of the input ranges.\<close>

lemma merge_step_valid:
  assumes "\<forall>r \<in> set acc. valid_range r" "valid_range r"
  shows "\<forall>r \<in> set (merge_step acc r). valid_range r"
proof (cases "acc = []")
  case False
  then have "valid_range (last acc)" "\<forall>r \<in> set (butlast acc). valid_range r"
    using assms by (auto dest: in_set_butlastD)
  moreover from this assms(2)
  have "valid_range ((last acc)\<lparr>rend := max (rend (last acc)) (rend r)\<rparr>)"
    by (auto simp: valid_range_def isValidCode_def)
  ultimately show ?thesis using assms by (auto simp: merge_step_def)
qed (use assms in \<open>simp add: merge_step_def\<close>)

lemma foldl_merge_valid:
  "\<forall>r \<in> set acc. valid_range r \<Longrightarrow> \<forall>r \<in> set rs. valid_range r \<Longrightarrow>
     \<forall>r \<in> set (foldl merge_step acc rs). valid_range r"
proof (induction rs arbitrary: acc)
  case (Cons r rs)
  have "\<forall>r \<in> set (merge_step acc r). valid_range r"
    by (rule merge_step_valid) (use Cons.prems in auto)
  then have "\<forall>r \<in> set (foldl merge_step (merge_step acc r) rs). valid_range r"
    by (rule Cons.IH) (use Cons.prems in auto)
  then show ?case by simp
qed simp

lemma mergeRanges_canonical:
  "\<forall>r \<in> set rs. valid_range r \<Longrightarrow> canonical_ranges (mergeRanges rs)"
  using mergeRanges_core [of rs] foldl_merge_valid [of "[]" "sort_by range_le rs"]
  by (auto simp: canonical_ranges_def mergeRanges_def valid_range_def separated_def)

lemma foldl_merge_separated_id:
  "separated (acc @ rs) \<Longrightarrow> foldl merge_step acc rs = acc @ rs"
proof (induction rs arbitrary: acc)
  case (Cons r rs)
  have "separated (acc @ [r])" using Cons.prems by (auto simp: separated_def sorted_wrt_append)
  then have "acc \<noteq> [] \<Longrightarrow> rend (last acc) + 1 < rstart r" by (auto simp: separated_snoc)
  then have "merge_step acc r = acc @ [r]" by (auto simp: merge_step_def)
  with Cons show ?case by simp
qed simp

lemma separated_range_le:
  assumes "separated rs" shows "sorted_wrt range_le rs"
proof -
  have "sorted_wrt (\<lambda>a b. rend a + 1 < rstart b) rs" "\<forall>r \<in> set rs. rstart r \<le> rend r"
    using assms by (auto simp: separated_def)
  then show ?thesis by (induction rs) (auto simp: range_le_def dest!: bspec)
qed

lemma mergeRanges_id: "canonical_ranges rs \<Longrightarrow> mergeRanges rs = rs"
  using foldl_merge_separated_id [of "[]" rs]
  by (auto simp: mergeRanges_def canonical_ranges_def range_order.sort_by_id separated_range_le)

subsection \<open>Tokens\<close>

lemma js_includes_char: "js_includes s [c] \<longleftrightarrow> c \<in> set s"
  by (auto simp: js_includes_iff in_set_conv_decomp)

lemma dec_str_isNumber [simp]: "0 \<le> n \<Longrightarrow> isNumber (dec_str n)"
  by (auto simp: isNumber_def dec_str_digits)

lemma dec_str_no_char: "0 \<le> n \<Longrightarrow> \<not> is_digit c \<Longrightarrow> c \<notin> set (dec_str n)"
  by (auto dest: dec_str_digits)

lemma valid_range_nonneg: "valid_range r \<Longrightarrow> 0 \<le> rstart r \<and> 0 \<le> rend r"
  by (simp add: valid_range_def isValidCode_def)

lemma minus_not_digit [simp]: "\<not> is_digit CHR ''-''"
  and comma_not_digit [simp]: "\<not> is_digit CHR '',''"
  by (simp_all add: is_digit_def)

lemma show_range_chars:
  "valid_range r \<Longrightarrow> c \<in> set (show_range r) \<Longrightarrow> is_digit c \<or> c = CHR ''-''"
  by (auto simp: show_range_def dest: valid_range_nonneg dec_str_digits split: if_splits)

lemma show_range_no_ws: "valid_range r \<Longrightarrow> \<forall>c \<in> set (show_range r). \<not> js_ws c"
  using show_range_chars by (auto dest: digit_not_ws) (fastforce simp: js_ws_def dest: digit_not_ws)

lemma show_range_no_comma: "valid_range r \<Longrightarrow> CHR '','' \<notin> set (show_range r)"
  using show_range_chars by fastforce

lemma show_range_neq_Nil [simp]: "show_range r \<noteq> []"
  by (simp add: show_range_def)

lemma filter_not_ws_id: "\<forall>c \<in> set s. \<not> js_ws c \<Longrightarrow> filter (\<lambda>c. \<not> js_ws c) s = s"
  by simp

lemma parseToken_show_range: "valid_range r \<Longrightarrow> parseToken (show_range r) = Some r"
proof -
  assume v: "valid_range r"
  let ?a = "dec_str (rstart r)" and ?b = "dec_str (rend r)"
  have clean: "filter (\<lambda>c. \<not> js_ws c) (js_trim (show_range r)) = show_range r"
    using show_range_no_ws [OF v] by (simp add: js_trim_no_ws)
  have nn: "0 \<le> rstart r" "0 \<le> rend r" using valid_range_nonneg [OF v] by auto
  show ?thesis
  proof (cases "rstart r = rend r")
    case True
    have "\<not> js_includes (show_range r) ''-''"
      using True by (simp add: js_includes_char show_range_def dec_str_no_char nn)
    with v True show ?thesis
      unfolding parseToken_def Let_def clean by (simp add: show_range_def valid_range_def nn)
  next
    case False
    have sr: "show_range r = ?a @ CHR ''-'' # ?b" using False by (simp add: show_range_def)
    have inc: "js_includes (show_range r) ''-''" by (simp add: js_includes_char sr)
    have "split_on CHR ''-'' (show_range r) = [?a, ?b]"
      by (simp add: sr split_on_append_sep dec_str_no_char nn)
    with v inc show ?thesis
      unfolding parseToken_def Let_def clean by (simp add: valid_range_def nn)
  qed
qed

lemma parseToken_valid: "parseToken t = Some r \<Longrightarrow> valid_range r"
  by (auto simp: parseToken_def Let_def valid_range_def split: if_splits)

lemma rule_segments_tokens:
  assumes "rs \<noteq> []" "\<forall>r \<in> set rs. valid_range r"
  shows "rule_segments (js_join '','' (map show_range rs)) = map show_range rs"
proof -
  have sp: "split_on CHR '','' (js_join '','' (map show_range rs)) = map show_range rs"
    by (rule split_on_join) (use assms in \<open>auto dest: show_range_no_comma\<close>)
  have "map js_trim (map show_range rs) = map show_range rs"
    using assms(2) by (induction rs) (auto intro: js_trim_no_ws [OF show_range_no_ws])
  then show ?thesis unfolding rule_segments_def sp by (auto simp: filter_id_conv)
qed

lemma join_tokens_no_ws:
  assumes "\<forall>r \<in> set rs. valid_range r"
  shows "\<forall>c \<in> set (js_join '','' (map show_range rs)). \<not> js_ws c"
proof
  fix c assume "c \<in> set (js_join '','' (map show_range rs))"
  then have "c = CHR '','' \<or> (\<exists>r \<in> set rs. c \<in> set (show_range r))"
    using set_js_join [of c "'',''" "map show_range rs"] by auto
  then show "\<not> js_ws c"
  proof
    assume "c = CHR '',''"
    then show ?thesis by (simp add: js_ws_def)
  next
    assume "\<exists>r \<in> set rs. c \<in> set (show_range r)"
    then show ?thesis using assms show_range_no_ws by blast
  qed
qed

lemma join_eq_Nil_iff: "js_join sep (map show_range rs) = [] \<longleftrightarrow> rs = []"
  by (cases rs; cases "tl rs") auto

definition canonical_result :: "status_range list \<Rightarrow> parsed_rules" where
  "canonical_result rs = \<lparr>ok = True, ranges = rs, tokens = map show_range rs,
     normalized = js_join '','' (map show_range rs), invalidTokens = []\<rparr>"

lemma parse_print_canonical:
  assumes "canonical_ranges rs"
  shows "parseHttpStatusCodeRules (Some (js_join '','' (map show_range rs))) = canonical_result rs"
proof (cases "rs = []")
  case True
  then show ?thesis by (simp add: parseHttpStatusCodeRules_def canonical_result_def)
next
  case False
  let ?raw = "js_join '','' (map show_range rs)"
  have v: "\<forall>r \<in> set rs. valid_range r" using assms by (simp add: canonical_ranges_def)
  have raw: "js_trim ?raw = ?raw" by (rule js_trim_no_ws [OF join_tokens_no_ws [OF v]])
  have seg: "rule_segments ?raw = map show_range rs" by (rule rule_segments_tokens [OF False v])
  have pt: "\<forall>r \<in> set rs. parseToken (show_range r) = Some r"
    using assms by (simp add: canonical_ranges_def parseToken_show_range)
  then have "List.map_filter parseToken (map show_range rs) = rs"
    by (induction rs) (auto simp: List.map_filter_simps)
  moreover have "filter (\<lambda>s. parseToken s = None) (map show_range rs) = []"
    using pt by (auto simp: filter_empty_conv)
  ultimately show ?thesis
    using False assms
    by (simp add: parseHttpStatusCodeRules_def raw seg join_eq_Nil_iff canonical_result_def
        mergeRanges_id Let_def)
qed

lemma parsed_valid:
  "r \<in> set (List.map_filter parseToken segs) \<Longrightarrow> valid_range r"
  by (auto simp: List.map_filter_def intro: parseToken_valid)

lemma parse_ok_cases:
  assumes "ok (parseHttpStatusCodeRules input)"
  obtains rs where "canonical_ranges rs" "parseHttpStatusCodeRules input = canonical_result rs"
proof (cases "js_trim (case input of None \<Rightarrow> [] | Some s \<Rightarrow> s) = []")
  case True
  have "canonical_ranges []" by (simp add: canonical_ranges_def separated_def)
  moreover have "parseHttpStatusCodeRules input = canonical_result []"
    using True by (simp add: parseHttpStatusCodeRules_def canonical_result_def)
  ultimately show ?thesis by (rule that)
next
  case False
  let ?segs = "rule_segments (js_trim (case input of None \<Rightarrow> [] | Some s \<Rightarrow> s))"
  have "canonical_ranges (mergeRanges (List.map_filter parseToken ?segs))"
    by (rule mergeRanges_canonical) (auto dest: parsed_valid)
  moreover have "parseHttpStatusCodeRules input =
      canonical_result (mergeRanges (List.map_filter parseToken ?segs))"
    using False assms
    by (auto simp: parseHttpStatusCodeRules_def canonical_result_def Let_def split: if_splits)
  ultimately show ?thesis by (rule that)
qed

subsection \<open>Normalising the stored rule string\<close>

definition normalize_rules :: "jsstr \<Rightarrow> jsstr" where
  "normalize_rules s = normalized (parseHttpStatusCodeRules (Some s))"

definition canonical_rules :: "jsstr \<Rightarrow> bool" where
  "canonical_rules s \<longleftrightarrow>
     (if ok (parseHttpStatusCodeRules (Some s))
      then s = js_join '','' (map show_range (ranges (parseHttpStatusCodeRules (Some s))))
      else trimmed s)"

lemma parse_not_ok_normalized:
  "\<not> ok (parseHttpStatusCodeRules (Some s)) \<Longrightarrow> normalized (parseHttpStatusCodeRules (Some s)) = js_trim s"
  by (auto simp: parseHttpStatusCodeRules_def Let_def split: if_splits)

lemma parse_trim: "parseHttpStatusCodeRules (Some (js_trim s)) = parseHttpStatusCodeRules (Some s)"
  by (simp add: parseHttpStatusCodeRules_def)

interpretation rules_nf: normaliser normalize_rules canonical_rules
proof
  fix s
  show "canonical_rules (normalize_rules s)"
  proof (cases "ok (parseHttpStatusCodeRules (Some s))")
    case True
    then obtain rs where "canonical_ranges rs" "parseHttpStatusCodeRules (Some s) = canonical_result rs"
      by (rule parse_ok_cases)
    then show ?thesis
      by (simp add: canonical_rules_def normalize_rules_def canonical_result_def parse_print_canonical)
  next
    case False
    then show ?thesis
      by (simp add: canonical_rules_def normalize_rules_def parse_not_ok_normalized parse_trim
          js_trim_trimmed)
  qed
next
  fix s assume c: "canonical_rules s"
  show "normalize_rules s = s"
  proof (cases "ok (parseHttpStatusCodeRules (Some s))")
    case True
    then obtain rs where "parseHttpStatusCodeRules (Some s) = canonical_result rs"
      by (rule parse_ok_cases)
    with c True show ?thesis
      by (simp add: canonical_rules_def normalize_rules_def canonical_result_def)
  next
    case False
    with c show ?thesis
      by (simp add: canonical_rules_def normalize_rules_def parse_not_ok_normalized js_trim_id)
  qed
qed

subsection \<open>Properties\<close>

text \<open>Merging the ranges of a rule list changes none of the codes it covers: a status code
  lies in one of the merged ranges exactly when it lies in one of the ranges given.\<close>

theorem mergeRanges_covers:
  assumes "\<forall>r \<in> set rs. rstart r \<le> rend r"
  shows "covers (mergeRanges rs) c \<longleftrightarrow> covers rs c"
  using mergeRanges_core [OF assms] by blast

theorem mergeRanges_covers_witness:
  "covers (mergeRanges [\<lparr>rstart = 502, rend = 504\<rparr>, \<lparr>rstart = 400, rend = 400\<rparr>, \<lparr>rstart = 500, rend = 502\<rparr>]) 503"
  by (subst mergeRanges_covers) (auto simp: covers_def)

lemma parse_ok_covers:
  assumes "ok (parseHttpStatusCodeRules input)"
  shows "covers (ranges (parseHttpStatusCodeRules input)) c \<longleftrightarrow>
    (\<exists>seg r. seg \<in> set (rule_segments (js_trim (case input of None \<Rightarrow> [] | Some s \<Rightarrow> s))) \<and> parseToken seg = Some r \<and> rstart r \<le> c \<and> c \<le> rend r)"
proof -
  let ?raw = "js_trim (case input of None \<Rightarrow> [] | Some s \<Rightarrow> s)"
  let ?parsed = "List.map_filter parseToken (rule_segments ?raw)"
  have mem: "r \<in> set ?parsed \<longleftrightarrow> (\<exists>seg. seg \<in> set (rule_segments ?raw) \<and> parseToken seg = Some r)" for r
    by (auto simp: List.map_filter_def) force
  have "parseToken seg = Some r \<Longrightarrow> rstart r \<le> rend r" for seg r
    by (auto simp: parseToken_def Let_def split: if_splits)
  then have "\<forall>r \<in> set ?parsed. rstart r \<le> rend r" using mem by blast
  then have m: "covers (mergeRanges ?parsed) c \<longleftrightarrow> covers ?parsed c" using mergeRanges_core by blast
  have "ranges (parseHttpStatusCodeRules input) = mergeRanges ?parsed"
    using assms by (auto simp: parseHttpStatusCodeRules_def Let_def rule_segments_def mergeRanges_def List.map_filter_simps split: if_splits)
  then have "covers (ranges (parseHttpStatusCodeRules input)) c \<longleftrightarrow> covers ?parsed c" using m by simp
  then show ?thesis unfolding covers_def [of ?parsed] using mem by blast
qed

text \<open>C39. Whatever rule string is given, an accepted parse covers exactly the codes that one of its segments covers;
  it holds only codes between 100 and 599, its ranges are in ascending order and no two of them overlap or touch, and the
  tokens and the normalised string are the printed ranges.\<close>

theorem parse_ok_canonical:
  assumes "ok (parseHttpStatusCodeRules input)"
  shows "canonical_ranges (ranges (parseHttpStatusCodeRules input)) \<and>
    tokens (parseHttpStatusCodeRules input) = map show_range (ranges (parseHttpStatusCodeRules input)) \<and>
    normalized (parseHttpStatusCodeRules input) =
      js_join '','' (map show_range (ranges (parseHttpStatusCodeRules input))) \<and>
    invalidTokens (parseHttpStatusCodeRules input) = [] \<and>
    (covers (ranges (parseHttpStatusCodeRules input)) c \<longleftrightarrow>
       (\<exists>seg r. seg \<in> set (rule_segments (js_trim (case input of None \<Rightarrow> [] | Some s \<Rightarrow> s))) \<and> parseToken seg = Some r \<and>
          rstart r \<le> c \<and> c \<le> rend r))"
proof -
  have "canonical_ranges (ranges (parseHttpStatusCodeRules input)) \<and>
      tokens (parseHttpStatusCodeRules input) = map show_range (ranges (parseHttpStatusCodeRules input)) \<and>
      normalized (parseHttpStatusCodeRules input) = js_join '','' (map show_range (ranges (parseHttpStatusCodeRules input))) \<and>
      invalidTokens (parseHttpStatusCodeRules input) = []"
    using assms by (rule parse_ok_cases) (simp add: canonical_result_def)
  then show ?thesis using parse_ok_covers [OF assms, of c] by blast
qed

theorem parse_ok_canonical_witness:
  "canonical_ranges (ranges (parseHttpStatusCodeRules (Some ''502-504, 400 ,500-501''))) \<and>
   covers (ranges (parseHttpStatusCodeRules (Some ''502-504, 400 ,500-501''))) 503"
proof -
  have "ok (parseHttpStatusCodeRules (Some ''502-504, 400 ,500-501''))" by code_simp
  moreover have "''502-504'' \<in> set (rule_segments (js_trim ''502-504, 400 ,500-501''))" "parseToken ''502-504'' = Some \<lparr>rstart = 502, rend = 504\<rparr>"
    by code_simp+
  ultimately show ?thesis using parse_ok_canonical [of "Some ''502-504, 400 ,500-501''" 503]
    by (fastforce)
qed

text \<open>Storing the normalised string and reading it again gives the same ranges: every canonical
  list of ranges survives printing and parsing.\<close>

theorem parse_print_roundtrip:
  assumes "canonical_ranges rs"
  shows "parseHttpStatusCodeRules (Some (js_join '','' (map show_range rs))) =
    \<lparr>ok = True, ranges = rs, tokens = map show_range rs,
     normalized = js_join '','' (map show_range rs), invalidTokens = []\<rparr>"
  using parse_print_canonical [OF assms] by (simp add: canonical_result_def)

theorem parse_print_roundtrip_witness:
  "ranges (parseHttpStatusCodeRules (Some (js_join '','' (map show_range
     [\<lparr>rstart = 400, rend = 400\<rparr>, \<lparr>rstart = 500, rend = 504\<rparr>])))) =
   [\<lparr>rstart = 400, rend = 400\<rparr>, \<lparr>rstart = 500, rend = 504\<rparr>]"
proof -
  have "canonical_ranges [\<lparr>rstart = 400, rend = 400\<rparr>, \<lparr>rstart = 500, rend = 504\<rparr>]"
    by (simp add: canonical_ranges_def separated_def valid_range_def isValidCode_def)
  from parse_print_roundtrip [OF this] show ?thesis by simp
qed

text \<open>Normalising a rule string is idempotent, for accepted and for rejected strings alike.\<close>

theorem normalize_rules_idem: "normalize_rules (normalize_rules s) = normalize_rules s"
  by (rule rules_nf.norm_idem)

text \<open>A non-blank rule string is rejected exactly when one of its non-empty segments is no status
  code or range; the rejection lists precisely those segments and keeps no range.\<close>

theorem parse_rejects_iff:
  "(ok (parseHttpStatusCodeRules (Some s)) \<longleftrightarrow>
     (\<nexists>seg. seg \<in> set (rule_segments (js_trim s)) \<and> parseToken seg = None)) \<and>
   set (invalidTokens (parseHttpStatusCodeRules (Some s))) =
     {seg \<in> set (rule_segments (js_trim s)). parseToken seg = None} \<and>
   (ok (parseHttpStatusCodeRules (Some s)) \<or> ranges (parseHttpStatusCodeRules (Some s)) = [])"
  by (auto simp: parseHttpStatusCodeRules_def Let_def filter_empty_conv rule_segments_def)

end
