(* ===== verification/Js_Number.thy ===== *)
theory Js_Number
  imports Js_Prelude Complex_Main "HOL-Library.Log_Nat"
begin

section \<open>JavaScript numbers\<close>

text \<open>
  A JavaScript \<open>number\<close> is an IEEE 754 binary64 value. A finite value is represented by the
  rational it denotes; every arithmetic operation computes exactly and then rounds to the
  nearest binary64 value, ties to even (\<open>fl\<close>), with overflow to an infinity and gradual
  underflow. The two zeros are identified.
\<close>

datatype jsnum = NaN | PInf | NInf | Fin rat

subsection \<open>Rounding\<close>

definition ilog2 :: "rat \<Rightarrow> int" where
  \<comment> \<open>the exponent \<open>k\<close> with \<open>2 powi k \<le> x < 2 powi (k + 1)\<close>, for positive \<open>x\<close>\<close>
  "ilog2 x = (let (a, b) = quotient_of x; k = bitlen a - bitlen b
              in if 2 powi k \<le> x then k else k - 1)"

definition round_even :: "rat \<Rightarrow> int" where
  "round_even y = (let f = \<lfloor>y\<rfloor>; d = y - of_int f in
     if d < 1/2 then f else if d > 1/2 then f + 1 else if even f then f else f + 1)"

definition round64 :: "rat \<Rightarrow> rat" where
  \<comment> \<open>rounding of a positive rational to 53 significant bits, at least \<open>2 powi (-1074)\<close> apart\<close>
  "round64 x = (let e = max (ilog2 x - 52) (-1074) in of_int (round_even (x / 2 powi e)) * 2 powi e)"

definition fl :: "rat \<Rightarrow> jsnum" where
  "fl x = (if x = 0 then Fin 0
     else (let r = round64 \<bar>x\<bar> in
           if ilog2 r \<ge> 1024 then (if x > 0 then PInf else NInf)
           else Fin (if x > 0 then r else - r)))"

subsection \<open>Arithmetic and comparison\<close>

fun js_neg :: "jsnum \<Rightarrow> jsnum" where
  "js_neg NaN = NaN" | "js_neg PInf = NInf" | "js_neg NInf = PInf" | "js_neg (Fin x) = Fin (- x)"

fun js_add :: "jsnum \<Rightarrow> jsnum \<Rightarrow> jsnum" where
  "js_add (Fin x) (Fin y) = fl (x + y)"
| "js_add NaN y = NaN" | "js_add x NaN = NaN"
| "js_add PInf NInf = NaN" | "js_add NInf PInf = NaN"
| "js_add PInf y = PInf" | "js_add NInf y = NInf"
| "js_add x PInf = PInf" | "js_add x NInf = NInf"

definition js_sub :: "jsnum \<Rightarrow> jsnum \<Rightarrow> jsnum" where
  "js_sub x y = js_add x (js_neg y)"

definition js_inf :: "bool \<Rightarrow> jsnum" where
  "js_inf pos = (if pos then PInf else NInf)"

fun js_sgn :: "jsnum \<Rightarrow> rat" where
  "js_sgn NaN = 0" | "js_sgn PInf = 1" | "js_sgn NInf = -1" | "js_sgn (Fin x) = sgn x"

fun js_mul :: "jsnum \<Rightarrow> jsnum \<Rightarrow> jsnum" where
  "js_mul (Fin x) (Fin y) = fl (x * y)"
| "js_mul NaN y = NaN" | "js_mul x NaN = NaN"
| "js_mul x y = (if js_sgn x = 0 \<or> js_sgn y = 0 then NaN else js_inf (js_sgn x * js_sgn y > 0))"

text \<open>Division by zero takes the sign of the dividend: the model has one zero, the positive one.\<close>

fun js_div :: "jsnum \<Rightarrow> jsnum \<Rightarrow> jsnum" where
  "js_div (Fin x) (Fin y) =
     (if y = 0 then (if x = 0 then NaN else js_inf (x > 0)) else fl (x / y))"
| "js_div NaN y = NaN" | "js_div x NaN = NaN"
| "js_div (Fin x) y = Fin 0"
| "js_div x (Fin y) = js_inf (js_sgn x * (if y = 0 then 1 else sgn y) > 0)"
| "js_div x y = NaN"

fun js_lt :: "jsnum \<Rightarrow> jsnum \<Rightarrow> bool" where
  "js_lt (Fin x) (Fin y) = (x < y)"
| "js_lt NaN y = False" | "js_lt x NaN = False"
| "js_lt PInf y = False" | "js_lt x NInf = False"
| "js_lt NInf y = True" | "js_lt x PInf = True"

text \<open>\<open>===\<close> on numbers: like equality, except that \<open>NaN\<close> differs from itself.\<close>

definition js_eq :: "jsnum \<Rightarrow> jsnum \<Rightarrow> bool" where
  "js_eq x y \<longleftrightarrow> x = y \<and> x \<noteq> NaN"

definition js_le :: "jsnum \<Rightarrow> jsnum \<Rightarrow> bool" where
  "js_le x y \<longleftrightarrow> js_lt x y \<or> js_eq x y"

abbreviation js_gt :: "jsnum \<Rightarrow> jsnum \<Rightarrow> bool" where
  "js_gt x y \<equiv> js_lt y x"

abbreviation js_ge :: "jsnum \<Rightarrow> jsnum \<Rightarrow> bool" where
  "js_ge x y \<equiv> js_le y x"

definition js_abs :: "jsnum \<Rightarrow> jsnum" where
  "js_abs x = (case x of NaN \<Rightarrow> NaN | PInf \<Rightarrow> PInf | NInf \<Rightarrow> PInf | Fin r \<Rightarrow> Fin \<bar>r\<bar>)"

definition js_isNaN :: "jsnum \<Rightarrow> bool" where
  "js_isNaN x \<longleftrightarrow> x = NaN"

definition js_isFinite :: "jsnum \<Rightarrow> bool" where
  "js_isFinite x \<longleftrightarrow> (case x of Fin _ \<Rightarrow> True | _ \<Rightarrow> False)"

definition js_truthy_num :: "jsnum \<Rightarrow> bool" where
  "js_truthy_num x \<longleftrightarrow> x \<noteq> NaN \<and> x \<noteq> Fin 0"

definition num_or :: "jsnum \<Rightarrow> jsnum \<Rightarrow> jsnum" where
  \<comment> \<open>\<open>x || d\<close> on a number\<close>
  "num_or x d = (if js_truthy_num x then x else d)"

definition js_round :: "jsnum \<Rightarrow> jsnum" where
  \<comment> \<open>\<open>Math.round\<close>: the nearest integer, ties upwards\<close>
  "js_round x = (case x of Fin r \<Rightarrow> Fin (of_int \<lfloor>r + 1/2\<rfloor>) | _ \<Rightarrow> x)"

definition js_floor :: "jsnum \<Rightarrow> jsnum" where
  "js_floor x = (case x of Fin r \<Rightarrow> Fin (of_int \<lfloor>r\<rfloor>) | _ \<Rightarrow> x)"

text \<open>\<open>%\<close>: the exact remainder with the sign of the dividend.\<close>

definition js_mod :: "jsnum \<Rightarrow> jsnum \<Rightarrow> jsnum" where
  "js_mod x y = (case (x, y) of
       (Fin a, Fin b) \<Rightarrow> if b = 0 then NaN
          else Fin (sgn a * (\<bar>a\<bar> - \<bar>b\<bar> * of_int \<lfloor>\<bar>a\<bar> / \<bar>b\<bar>\<rfloor>))
     | (Fin a, PInf) \<Rightarrow> x | (Fin a, NInf) \<Rightarrow> x | _ \<Rightarrow> NaN)"

definition js_min :: "jsnum \<Rightarrow> jsnum \<Rightarrow> jsnum" where
  "js_min x y = (if x = NaN \<or> y = NaN then NaN else if js_lt y x then y else x)"

definition js_max :: "jsnum \<Rightarrow> jsnum \<Rightarrow> jsnum" where
  "js_max x y = (if x = NaN \<or> y = NaN then NaN else if js_lt x y then y else x)"

abbreviation num :: "int \<Rightarrow> jsnum" where
  "num n \<equiv> Fin (of_int n)"

subsection \<open>Printing\<close>

text \<open>
  \<open>toFixed(d)\<close> prints the integer \<open>n\<close> for which \<open>n / 10^d - x\<close> is closest to zero,
  the larger one of two, with the decimal point put in; from 10 to the power 21 on it prints
  as \<open>toString\<close> does.
\<close>

definition pad_left :: "nat \<Rightarrow> jsstr \<Rightarrow> jsstr" where
  "pad_left n s = replicate (n - length s) CHR ''0'' @ s"

definition fixed_digits :: "nat \<Rightarrow> int \<Rightarrow> jsstr" where
  "fixed_digits d n =
     (if d = 0 then dec_str n
      else (let s = pad_left (d + 1) (dec_str n)
            in take (length s - d) s @ ''.'' @ drop (length s - d) s))"

definition fixed_nonneg :: "nat \<Rightarrow> rat \<Rightarrow> jsstr" where
  "fixed_nonneg d x = fixed_digits d \<lfloor>x * 10 ^ d + 1/2\<rfloor>"

text \<open>
  \<open>Number::toString\<close>: the shortest digit string that reads back as the same number; the
  digits \<open>s\<close> and the exponent \<open>n\<close> satisfy \<open>x = s * 10 powi (n - k)\<close> up to rounding,
  with \<open>k\<close> digits. At most 17 digits are ever needed. An integer up to 2 to the power 53 is its own
  shortest decimal.
\<close>

definition ilog10 :: "rat \<Rightarrow> int" where
  "ilog10 x = (let k = \<lfloor>(of_int (ilog2 x) * 30103 :: rat) / 100000\<rfloor>
     in if 10 powi (k + 1) \<le> x then k + 1 else if 10 powi k \<le> x then k else k - 1)"

fun shortest :: "nat \<Rightarrow> nat \<Rightarrow> rat \<Rightarrow> int \<times> nat" where
  \<comment> \<open>\<open>shortest fuel k x\<close>: the digits and their number, trying \<open>k\<close> digits first\<close>
  "shortest 0 k x = (round_even (x / 10 powi (ilog10 x + 1 - int k)), k)"
| "shortest (Suc fuel) k x =
     (let s = round_even (x / 10 powi (ilog10 x + 1 - int k)) in
      if fl (of_int s * 10 powi (ilog10 x + 1 - int k)) = Fin x then (s, k) else shortest fuel (Suc k) x)"

definition show_pos :: "rat \<Rightarrow> jsstr" where
  "show_pos x =
     (let n0 = ilog10 x + 1; (s0, k0) = shortest 16 1 x;
          (s, n) = (if s0 = 10 ^ k0 then (10 ^ (k0 - 1), n0 + 1) else (s0, n0));
          ds = dec_str s; k = int k0 in
      if k \<le> n \<and> n \<le> 21 then ds @ replicate (nat (n - k)) CHR ''0''
      else if 0 < n \<and> n \<le> 21 then take (nat n) ds @ ''.'' @ drop (nat n) ds
      else if -6 < n \<and> n \<le> 0 then ''0.'' @ replicate (nat (- n)) CHR ''0'' @ ds
      else (let e = n - 1; sg = (if e < 0 then ''-'' else ''+''); es = dec_str \<bar>e\<bar> in
            if k = 1 then ds @ ''e'' @ sg @ es
            else take 1 ds @ ''.'' @ drop 1 ds @ ''e'' @ sg @ es))"

definition js_num_str :: "jsnum \<Rightarrow> jsstr" where
  "js_num_str x = (case x of NaN \<Rightarrow> ''NaN'' | PInf \<Rightarrow> ''Infinity'' | NInf \<Rightarrow> ''-Infinity''
     | Fin r \<Rightarrow> if r = of_int \<lfloor>r\<rfloor> \<and> \<bar>r\<bar> \<le> 2 ^ 53 then int_to_str \<lfloor>r\<rfloor>
         else if r < 0 then ''-'' @ show_pos (- r) else show_pos r)"

lemma js_num_str_int: "\<bar>n\<bar> \<le> 2 ^ 53 \<Longrightarrow> js_num_str (num n) = int_to_str n"
proof -
  assume "\<bar>n\<bar> \<le> 2 ^ 53"
  then have "\<bar>of_int n :: rat\<bar> \<le> 2 ^ 53"
    by (metis of_int_abs of_int_le_iff of_int_numeral of_int_power)
  then show ?thesis by (simp add: js_num_str_def)
qed

definition js_toFixed :: "jsnum \<Rightarrow> nat \<Rightarrow> jsstr" where
  "js_toFixed x d = (case x of
       Fin r \<Rightarrow> if \<bar>r\<bar> \<ge> 10 ^ 21 then js_num_str x
                else if r < 0 then ''-'' @ fixed_nonneg d (- r) else fixed_nonneg d r
     | _ \<Rightarrow> js_num_str x)"

subsection \<open>Reading decimal literals\<close>

text \<open>The value of a decimal literal: digits, optional fraction, optional exponent.\<close>

definition decimal_val :: "jsstr \<Rightarrow> jsstr \<Rightarrow> int \<Rightarrow> rat" where
  "decimal_val ip fp e = of_int (digits_val (ip @ fp)) * 10 powi (e - int (length fp))"

subsection \<open>How far rounding is from the exact value\<close>

named_theorems js_num \<open>facts about numbers\<close>

lemma two_powi_pos [simp]: "0 < (2::rat) powi k"
  by (simp add: zero_less_power_int)

lemma powi_mono: "j \<le> k \<Longrightarrow> (2::rat) powi j \<le> 2 powi k"
  by (rule power_int_increasing) auto

lemma powi_less_cancel: "(2::rat) powi j < 2 powi k \<Longrightarrow> j < k"
  using powi_mono [of k j] by fastforce

lemma bitlen_powi:
  assumes "0 < a"
  shows "2 powi (bitlen a - 1) \<le> (of_int a :: rat) \<and> (of_int a :: rat) < 2 powi bitlen a"
proof -
  have b: "1 \<le> bitlen a" using assms 
    by (metis bitlen_eq_zero_iff bitlen_nonneg int_one_le_iff_zero_less leD order_le_less)
  have "2 ^ nat (bitlen a - 1) \<le> a" "a < 2 ^ nat (bitlen a)" using bitlen_bounds [OF assms] by auto
  then have "(of_int (2 ^ nat (bitlen a - 1)) :: rat) \<le> of_int a" "(of_int a :: rat) < of_int (2 ^ nat (bitlen a))"
    by (simp_all only: of_int_le_iff of_int_less_iff)
  with b show ?thesis by (simp add: power_int_nonneg_exp)
qed

lemma ilog2_bounds:
  assumes "0 < x"
  shows "2 powi ilog2 x \<le> x \<and> x < 2 powi (ilog2 x + 1)"
proof -
  obtain a b where q: "quotient_of x = (a, b)" by (cases "quotient_of x")
  have b: "0 < b" using q by (rule quotient_of_denom_pos)
  have x: "x = of_int a / of_int b" using q by (rule quotient_of_div)
  with assms b have a: "0 < a" by (simp add: zero_less_divide_iff)
  let ?k = "bitlen a - bitlen b"
  note A = bitlen_powi [OF a] and B = bitlen_powi [OF b]
  have "x < 2 powi bitlen a / 2 powi (bitlen b - 1)"
    unfolding x by (rule frac_less) (use A B a in auto)
  then have hi: "x < 2 powi (?k + 1)" by (simp add: power_int_diff power_int_add)
  have "2 powi (bitlen a - 1) / 2 powi bitlen b \<le> x"
    unfolding x by (rule frac_le) (use A B a b in auto)
  then have lo: "2 powi (?k - 1) \<le> x" by (simp add: power_int_diff)
  show ?thesis
    using hi lo by (auto simp: ilog2_def q Let_def)
qed

lemma ilog2_unique: "2 powi k \<le> x \<Longrightarrow> x < 2 powi (k + 1) \<Longrightarrow> ilog2 x = k"
proof -
  assume k: "2 powi k \<le> x" "x < 2 powi (k + 1)"
  have "0 < x" using k(1) two_powi_pos [of k] by linarith
  then have "2 powi ilog2 x \<le> x" "x < 2 powi (ilog2 x + 1)" using ilog2_bounds by auto
  with k have "(2::rat) powi k < 2 powi (ilog2 x + 1)" "(2::rat) powi ilog2 x < 2 powi (k + 1)"
    by linarith+
  then show ?thesis by (auto dest!: powi_less_cancel)
qed

lemma round_even_error: "\<bar>of_int (round_even y) - y\<bar> \<le> 1/2"
proof -
  have "of_int \<lfloor>y\<rfloor> \<le> y" "y < of_int \<lfloor>y\<rfloor> + 1" by linarith+
  then show ?thesis by (auto simp: round_even_def Let_def abs_le_iff)
qed

lemma round_even_int [simp]: "round_even (of_int n) = n"
  by (simp add: round_even_def)

lemma round_even_nonneg: "0 \<le> y \<Longrightarrow> 0 \<le> round_even y"
  by (auto simp: round_even_def Let_def)

lemma round64_rel:
  assumes "2 powi (-1022) \<le> x"
  shows "\<bar>round64 x - x\<bar> \<le> x * 2 powi (-53)"
proof -
  have pos: "0 < x" using assms two_powi_pos [of "-1022"] by linarith
  let ?k = "ilog2 x" let ?e = "?k - 52"
  have "(2::rat) powi (-1022) < 2 powi (?k + 1)" using assms ilog2_bounds [OF pos] by linarith
  then have "-1022 < ?k + 1" by (rule powi_less_cancel)
  then have e: "max ?e (-1074) = ?e" by simp
  let ?p = "(2::rat) powi ?e"
  let ?r = "of_int (round_even (x / ?p)) :: rat"
  have "\<bar>?r * ?p - x\<bar> = \<bar>?r - x / ?p\<bar> * ?p"
  proof -
    have "?r * ?p - x = (?r - x / ?p) * ?p" by (simp add: field_simps)
    then show ?thesis by (simp add: abs_mult)
  qed
  also have "\<dots> \<le> 1/2 * ?p" by (rule mult_right_mono [OF round_even_error]) simp
  also have "1/2 * ?p = 2 powi ?k * 2 powi (-53)"
    by (simp add: power_int_diff power_int_minus field_simps)
  also have "\<dots> \<le> x * 2 powi (-53)"
    by (rule mult_right_mono) (use ilog2_bounds [OF pos] in auto)
  finally show ?thesis by (simp add: round64_def e Let_def)
qed

definition normal_range :: "rat \<Rightarrow> bool" where
  "normal_range x \<longleftrightarrow> 2 powi (-1022) \<le> \<bar>x\<bar> \<and> \<bar>x\<bar> \<le> 2 powi 1000"

lemma fl_rel_error:
  assumes "normal_range x"
  obtains r where "fl x = Fin r" "\<bar>r - x\<bar> \<le> \<bar>x\<bar> * 2 powi (-53)"
proof -
  have lo: "2 powi (-1022) \<le> \<bar>x\<bar>" and hi: "\<bar>x\<bar> \<le> 2 powi 1000"
    using assms unfolding normal_range_def by blast+
  have x0: "0 < \<bar>x\<bar>" using lo two_powi_pos [of "-1022"] by linarith
  let ?r = "round64 \<bar>x\<bar>"
  have rel: "\<bar>?r - \<bar>x\<bar>\<bar> \<le> \<bar>x\<bar> * 2 powi (-53)" by (rule round64_rel [OF lo])
  have small: "\<bar>x\<bar> * 2 powi (-53) \<le> \<bar>x\<bar> * (1/2)"
    by (rule mult_left_mono) (auto simp: power_int_minus)
  have r_pos: "0 < ?r" using rel small x0 by linarith
  have "?r \<le> 2 * \<bar>x\<bar>" using rel small x0 by linarith
  also have "\<dots> \<le> 2 * 2 powi 1000" by (rule mult_left_mono [OF hi]) (rule zero_le_numeral)
  also have "2 * 2 powi 1000 = (2 powi (1000 + 1) :: rat)"
    by (rule power_int_add_1' [symmetric]) (rule disjI1, rule numeral_neq_zero)
  also have "(1000 + 1 :: int) = 1001" by simp
  finally have "2 powi ilog2 ?r \<le> (2 powi 1001 :: rat)"
    using ilog2_bounds [OF r_pos] by (meson order_trans)
  also have "\<dots> < 2 powi 1024" by (rule power_int_strict_increasing) auto
  finally have "ilog2 ?r < 1024" by (rule powi_less_cancel)
  then have "fl x = Fin (if x > 0 then ?r else - ?r)" using x0 by (simp add: fl_def Let_def)
  moreover have "\<bar>(if x > 0 then ?r else - ?r) - x\<bar> \<le> \<bar>x\<bar> * 2 powi (-53)"
    using rel by (auto simp: abs_if split: if_splits)
  ultimately show ?thesis by (rule that)
qed

lemma round64_int:
  assumes "0 < n" "n \<le> 2 ^ 53"
  shows "round64 (of_int n) = of_int n"
proof -
  let ?x = "of_int n :: rat" let ?k = "ilog2 ?x"
  have B: "2 powi ?k \<le> ?x" "?x < 2 powi (?k + 1)" using ilog2_bounds [of ?x] assms by auto
  have "(1::rat) \<le> ?x" using assms(1) by simp
  then have "(2::rat) powi 0 < 2 powi (?k + 1)" using B by simp
  then have "0 < ?k + 1" by (rule powi_less_cancel)
  then have k0: "0 \<le> ?k" by simp
  have nle: "?x \<le> 2 ^ 53"
    using assms(2) by (metis of_int_le_iff of_int_numeral of_int_power)
  have k53: "?k \<le> 53"
  proof (rule ccontr)
    assume "\<not> ?k \<le> 53"
    then have "(2::rat) powi 54 \<le> 2 powi ?k" by (intro powi_mono) simp
    then show False using B nle by simp
  qed
  have m: "max (?k - 52) (-1074) = ?k - 52" using k0 by simp
  have "\<exists>j. ?x / 2 powi (?k - 52) = of_int j"
  proof (cases "?k = 53")
    case True
    then have "?x = 2 ^ 53" using B(1) nle by simp
    moreover have "?k - 52 = 1" using True by simp
    ultimately have "?x / 2 powi (?k - 52) = of_int (2 ^ 52)" by (simp only:) simp
    then show ?thesis by blast
  next
    case False
    then have "?x / 2 powi (?k - 52) = ?x * 2 powi (52 - ?k)"
      by (simp add: power_int_diff field_simps)
    also have "\<dots> = of_int (n * 2 ^ nat (52 - ?k))"
      using False k53 by (simp add: power_int_nonneg_exp)
    finally show ?thesis by blast
  qed
  then obtain j where j: "?x / 2 powi (?k - 52) = of_int j" ..
  then have "?x = of_int j * 2 powi (?k - 52)" by (simp add: field_simps)
  then show ?thesis by (simp add: round64_def m Let_def j)
qed

text \<open>Integers up to 2 to the power 53 are represented exactly.\<close>

lemma fl_int [js_num]:
  assumes "\<bar>n\<bar> \<le> 2 ^ 53"
  shows "fl (of_int n) = num n"
proof (cases "n = 0")
  case False
  have "round64 (of_int \<bar>n\<bar>) = of_int \<bar>n\<bar>" by (rule round64_int) (use False assms in auto)
  then have r: "round64 \<bar>of_int n\<bar> = \<bar>of_int n\<bar>" by simp
  have pos: "0 < \<bar>of_int n :: rat\<bar>" using False by simp
  have le: "\<bar>of_int n :: rat\<bar> \<le> 2 ^ 53"
    using assms by (metis of_int_abs of_int_le_iff of_int_numeral of_int_power)
  have "ilog2 \<bar>of_int n\<bar> < 1024"
  proof (rule powi_less_cancel)
    have "2 powi ilog2 \<bar>of_int n\<bar> \<le> \<bar>of_int n :: rat\<bar>" using ilog2_bounds [OF pos] by simp
    also have "\<dots> \<le> 2 powi 53" using le by simp
    also have "\<dots> < (2::rat) powi 1024" by (rule power_int_strict_increasing) auto
    finally show "(2::rat) powi ilog2 \<bar>of_int n\<bar> < 2 powi 1024" .
  qed
  with False r show ?thesis by (auto simp: fl_def Let_def)
qed (simp add: fl_def)

lemma js_add_int: "\<bar>a + b\<bar> \<le> 2 ^ 53 \<Longrightarrow> js_add (num a) (num b) = num (a + b)"
  using fl_int [of "a + b"] by simp

lemma js_mul_int: "\<bar>a * b\<bar> \<le> 2 ^ 53 \<Longrightarrow> js_mul (num a) (num b) = num (a * b)"
  using fl_int [of "a * b"] by simp

subsection \<open>Chains of rounded operations\<close>

text \<open>
  \<open>rel x y E\<close>: \<open>y\<close> approximates \<open>x\<close> with a relative error of at most \<open>E\<close>;
  \<open>bnd k x\<close>: the magnitude of \<open>x\<close> lies between \<open>2 powi (-k)\<close> and \<open>2 powi k\<close>.
\<close>

definition rel :: "rat \<Rightarrow> rat \<Rightarrow> rat \<Rightarrow> bool" where
  "rel x y E \<longleftrightarrow> (\<exists>e. y = x * (1 + e) \<and> \<bar>e\<bar> \<le> E)"

definition bnd :: "int \<Rightarrow> rat \<Rightarrow> bool" where
  "bnd k x \<longleftrightarrow> 2 powi (- k) \<le> \<bar>x\<bar> \<and> \<bar>x\<bar> \<le> 2 powi k"

lemma rel_refl: "rel x x 0"
  by (simp add: rel_def exI [of _ 0])

lemma rel_mult: "rel x y E \<Longrightarrow> rel (x * q) (y * q) E"
  by (auto simp: rel_def algebra_simps)

lemma rel_divide: "rel x y E \<Longrightarrow> rel (x / q) (y / q) E"
  using rel_mult [of x y E "1 / q"] by simp

lemma bnd_mono: "bnd j x \<Longrightarrow> j \<le> k \<Longrightarrow> bnd k x"
  unfolding bnd_def by (meson order_trans powi_mono neg_le_iff_le)

lemma bnd_mult: "bnd j x \<Longrightarrow> bnd k y \<Longrightarrow> bnd (j + k) (x * y)"
proof -
  assume a: "bnd j x" "bnd k y"
  have "2 powi (- (j + k)) = (2 powi (- j) * 2 powi (- k) :: rat)"
    by (simp add: power_int_diff power_int_minus field_simps)
  also have "\<dots> \<le> \<bar>x\<bar> * \<bar>y\<bar>" using a by (intro mult_mono) (auto simp: bnd_def)
  finally have lo: "2 powi (- (j + k)) \<le> \<bar>x * y\<bar>" by (simp add: abs_mult)
  have "\<bar>x\<bar> * \<bar>y\<bar> \<le> 2 powi j * 2 powi k" using a by (intro mult_mono) (auto simp: bnd_def)
  then have "\<bar>x * y\<bar> \<le> 2 powi (j + k)" by (simp add: abs_mult power_int_add)
  with lo show ?thesis by (simp add: bnd_def)
qed

lemma bnd_inverse: "bnd k x \<Longrightarrow> bnd k (1 / x)"
proof -
  assume a: "bnd k x"
  have "0 < \<bar>x\<bar>" using a two_powi_pos [of "- k"] unfolding bnd_def by linarith
  with a show ?thesis
    by (auto simp: bnd_def abs_divide power_int_minus divide_simps mult.commute)
qed

lemma bnd_divide: "bnd j x \<Longrightarrow> bnd k y \<Longrightarrow> bnd (j + k) (x / y)"
  using bnd_mult [of j x k "1 / y"] bnd_inverse by simp

lemma bnd_nonzero: "bnd k x \<Longrightarrow> x \<noteq> 0"
  using two_powi_pos [of "- k"] unfolding bnd_def by linarith

lemma rel_normal:
  assumes "rel x y E" "E \<le> 1/2" "bnd 900 x"
  shows "normal_range y"
proof -
  from assms(1) obtain e where y: "y = x * (1 + e)" and e: "\<bar>e\<bar> \<le> E" by (auto simp: rel_def)
  have "1/2 \<le> \<bar>1 + e\<bar>" "\<bar>1 + e\<bar> \<le> 2" using e assms(2) by linarith+
  moreover have "\<bar>y\<bar> = \<bar>x\<bar> * \<bar>1 + e\<bar>" by (simp add: y abs_mult)
  ultimately have "bnd 1 (1 + e)" by (simp add: bnd_def power_int_minus)
  then have "bnd (900 + 1) y" unfolding y using assms(3) by (rule bnd_mult [rotated])
  then have lo: "2 powi (- 901) \<le> \<bar>y\<bar>" and hi: "\<bar>y\<bar> \<le> 2 powi 901"
    unfolding bnd_def by (simp_all only: add_num_simps numeral_plus_one)
  have "(2::rat) powi (-1022) \<le> 2 powi (- 901)" "(2::rat) powi 901 \<le> 2 powi 1000"
    by (rule powi_mono, simp only: neg_le_iff_le, simp)+
  with lo hi show ?thesis unfolding normal_range_def by (meson order_trans)
qed

lemma fl_rel:
  assumes "rel x y E" "0 \<le> E" "E \<le> 1/2" "bnd 900 x"
  obtains r where "fl y = Fin r" "rel x r (E + 2 powi (-52))"
proof -
  from assms(1) obtain e where y: "y = x * (1 + e)" and e: "\<bar>e\<bar> \<le> E" by (auto simp: rel_def)
  have nr: "normal_range y" by (rule rel_normal [OF assms(1,3,4)])
  obtain r where r: "fl y = Fin r" "\<bar>r - y\<bar> \<le> \<bar>y\<bar> * 2 powi (-53)" by (rule fl_rel_error [OF nr])
  have x0: "x \<noteq> 0" using assms(4) by (rule bnd_nonzero)
  have "0 < \<bar>y\<bar>" using nr two_powi_pos [of "-1022"] unfolding normal_range_def by linarith
  then have y0: "y \<noteq> 0" by simp
  obtain d where d_eq: "d = (r - y) / y" by blast
  have d: "\<bar>d\<bar> \<le> 2 powi (-53)"
    using r(2) y0 unfolding d_eq by (simp add: abs_divide divide_le_eq mult.commute)
  have "r = y * (1 + d)" using y0 unfolding d_eq by (simp add: field_simps)
  then have rr: "r = x * (1 + (e + d + e * d))" unfolding y by (simp add: algebra_simps)
  have "\<bar>e * d\<bar> \<le> 1 * 2 powi (-53)"
    unfolding abs_mult by (rule mult_mono) (use e assms(3) d in auto)
  then have "\<bar>e + d + e * d\<bar> \<le> E + (2 powi (-53) + 2 powi (-53))" using e d by linarith
  also have "(2 powi (-53) + 2 powi (-53) :: rat) = 2 powi (-52)" by (simp add: power_int_minus)
  finally have "rel x r (E + 2 powi (-52))" using rr by (auto simp: rel_def)
  with r(1) show ?thesis by (rule that)
qed

lemma round_rel_int:
  assumes "rel (of_int u) r E" "E \<le> 2 powi (-50)" "\<bar>u\<bar> \<le> 2 ^ 48"
  shows "js_round (Fin r) = num u"
proof -
  from assms(1) obtain e where r: "r = of_int u * (1 + e)" and e: "\<bar>e\<bar> \<le> E" by (auto simp: rel_def)
  have "\<bar>of_int u :: rat\<bar> \<le> 2 ^ 48"
    using assms(3) by (metis of_int_abs of_int_le_iff of_int_numeral of_int_power)
  then have "\<bar>of_int u * e\<bar> \<le> 2 ^ 48 * 2 powi (-50)"
    unfolding abs_mult by (rule mult_mono) (use e assms(2) in auto)
  then have "\<bar>r - of_int u\<bar> \<le> 1/4" unfolding r by (simp add: power_int_minus algebra_simps)
  then have "\<lfloor>r + 1/2\<rfloor> = u" by (intro floor_unique) linarith+
  then show ?thesis by (simp add: js_round_def)
qed

lemma bnd_int: "u \<noteq> 0 \<Longrightarrow> \<bar>u\<bar> \<le> 2 ^ 48 \<Longrightarrow> bnd 48 (of_int u)"
proof -
  assume u: "u \<noteq> 0" "\<bar>u\<bar> \<le> 2 ^ 48"
  have "\<bar>of_int u :: rat\<bar> \<le> 2 ^ 48" using u(2) by (metis of_int_abs of_int_le_iff of_int_numeral of_int_power)
  moreover have "(1::rat) \<le> \<bar>of_int u\<bar>"
    using u(1) by (metis of_int_abs of_int_1_le_iff zero_less_abs_iff int_one_le_iff_zero_less)
  ultimately show ?thesis by (simp add: bnd_def power_int_minus)
qed

end
