(* ===== verification/Js_Json.thy ===== *)
theory Js_Json
  imports Js_Number
begin

section \<open>JSON values, \<open>JSON.parse\<close> and \<open>JSON.stringify\<close>\<close>

text \<open>
  The settings of the console travel as JSON text. A value is a \<open>json\<close>; an object is its list
  of properties in enumeration order. \<open>json_parse\<close> is \<open>JSON.parse\<close> with \<open>None\<close> for a
  thrown \<open>SyntaxError\<close>; a repeated key keeps its first position and its last value. The model
  has the code units up to 0xFF, so an escape of a larger one is outside of it.

  The parser is written with fuel; \<open>json_fuel\<close> shows that the fuel \<open>json_parse\<close> supplies
  never runs out, so every \<open>None\<close> is a syntax error. \<open>json_roundtrip\<close> shows that parsing
  undoes printing.
\<close>

datatype json = JNull | JBool bool | JNum jsnum | JStr jsstr | JArr "json list"
  | JObj "(jsstr \<times> json) list"

subsection \<open>Lexical parts\<close>

definition json_ws :: "char \<Rightarrow> bool" where
  "json_ws c \<longleftrightarrow> c \<in> {CHR 0x20, CHR 0x09, CHR 0x0A, CHR 0x0D}"

abbreviation skip_ws :: "jsstr \<Rightarrow> jsstr" where
  "skip_ws s \<equiv> dropWhile json_ws s"

definition hex_val :: "char \<Rightarrow> nat option" where
  "hex_val c = (let n = (of_char c :: nat) in
     if 48 \<le> n \<and> n \<le> 57 then Some (n - 48)
     else if 97 \<le> n \<and> n \<le> 102 then Some (n - 87)
     else if 65 \<le> n \<and> n \<le> 70 then Some (n - 55) else None)"

definition hex2 :: "char \<Rightarrow> char \<Rightarrow> char option" where
  "hex2 a b = (case (hex_val a, hex_val b) of
     (Some x, Some y) \<Rightarrow> Some (char_of (16 * x + y)) | _ \<Rightarrow> None)"

definition json_unescape :: "char \<Rightarrow> char option" where
  "json_unescape e =
     (if e = CHR 0x22 \<or> e = CHR 0x5C \<or> e = CHR ''/'' then Some e
      else if e = CHR ''b'' then Some (CHR 0x08) else if e = CHR ''f'' then Some (CHR 0x0C)
      else if e = CHR ''n'' then Some (CHR 0x0A) else if e = CHR ''r'' then Some (CHR 0x0D)
      else if e = CHR ''t'' then Some (CHR 0x09) else None)"

definition is_ctrl :: "char \<Rightarrow> bool" where
  "is_ctrl c \<longleftrightarrow> (of_char c :: nat) < 32"

definition cons_fst :: "char \<Rightarrow> (jsstr \<times> jsstr) option \<Rightarrow> (jsstr \<times> jsstr) option" where
  "cons_fst c = map_option (\<lambda>(s, r). (c # s, r))"

text \<open>The rest of a string literal, after its opening quote.\<close>

fun json_str :: "jsstr \<Rightarrow> (jsstr \<times> jsstr) option" where
  "json_str [] = None"
| "json_str (c # cs) =
     (if c = CHR 0x22 then Some ([], cs)
      else if c = CHR 0x5C then
        (case cs of
           [] \<Rightarrow> None
         | e # ds \<Rightarrow>
             if e = CHR ''u'' then
               (case ds of
                  z1 # z2 # a # b # r \<Rightarrow>
                    if z1 = CHR ''0'' \<and> z2 = CHR ''0'' then
                      (case hex2 a b of None \<Rightarrow> None | Some k \<Rightarrow> cons_fst k (json_str r))
                    else None
                | _ \<Rightarrow> None)
             else (case json_unescape e of None \<Rightarrow> None | Some k \<Rightarrow> cons_fst k (json_str ds)))
      else if is_ctrl c then None
      else cons_fst c (json_str cs))"

definition digits_pre :: "jsstr \<Rightarrow> jsstr \<times> jsstr" where
  "digits_pre s = (takeWhile is_digit s, dropWhile is_digit s)"

definition json_exp :: "jsstr \<Rightarrow> (int \<times> jsstr) option" where
  "json_exp s = (case s of
       c # t \<Rightarrow> if c = CHR ''e'' \<or> c = CHR ''E'' then
           (let (neg, u) = (case t of d # u \<Rightarrow> if d = CHR ''-'' then (True, u)
                              else if d = CHR ''+'' then (False, u) else (False, t) | [] \<Rightarrow> (False, t));
                (ds, r) = digits_pre u in
            if ds = [] then None else Some (if neg then - digits_val ds else digits_val ds, r))
         else Some (0, s)
     | [] \<Rightarrow> Some (0, s))"

definition json_frac :: "jsstr \<Rightarrow> (jsstr \<times> jsstr) option" where
  "json_frac s = (case s of
       c # t \<Rightarrow> if c = CHR ''.'' then (let (ds, r) = digits_pre t in if ds = [] then None else Some (ds, r))
         else Some ([], s)
     | [] \<Rightarrow> Some ([], s))"

definition json_num :: "jsstr \<Rightarrow> (jsnum \<times> jsstr) option" where
  "json_num s =
     (let (neg, s1) = (case s of c # t \<Rightarrow> if c = CHR ''-'' then (True, t) else (False, s) | [] \<Rightarrow> (False, s));
          (ip, s2) = digits_pre s1 in
      if ip = [] \<or> (length ip > 1 \<and> hd ip = CHR ''0'') then None
      else (case json_frac s2 of None \<Rightarrow> None
        | Some (fp, s3) \<Rightarrow> (case json_exp s3 of None \<Rightarrow> None
            | Some (e, r) \<Rightarrow> Some (fl ((if neg then -1 else 1) * decimal_val ip fp e), r))))"

definition build_obj :: "(jsstr \<times> json) list \<Rightarrow> (jsstr \<times> json) list" where
  "build_obj kvs = fold (\<lambda>(k, v). obj_set k v) kvs []"

subsection \<open>The parser\<close>

definition json_lit :: "jsstr \<Rightarrow> (json \<times> jsstr) option" where
  "json_lit s =
     (if js_startsWith s ''true'' then Some (JBool True, drop 4 s)
      else if js_startsWith s ''false'' then Some (JBool False, drop 5 s)
      else if js_startsWith s ''null'' then Some (JNull, drop 4 s)
      else map_option (\<lambda>(n, r). (JNum n, r)) (json_num s))"

fun json_val :: "nat \<Rightarrow> jsstr \<Rightarrow> (json \<times> jsstr) option"
  and json_elems :: "nat \<Rightarrow> jsstr \<Rightarrow> (json list \<times> jsstr) option"
  and json_members :: "nat \<Rightarrow> jsstr \<Rightarrow> ((jsstr \<times> json) list \<times> jsstr) option" where
  "json_val 0 s = None"
| "json_val (Suc f) s = (case skip_ws s of
       [] \<Rightarrow> None
     | c # cs \<Rightarrow>
         if c = CHR 0x22 then map_option (\<lambda>(v, r). (JStr v, r)) (json_str cs)
         else if c = CHR ''['' then
           (case skip_ws cs of
              [] \<Rightarrow> None
            | d # ds \<Rightarrow> if d = CHR '']'' then Some (JArr [], ds)
                else map_option (\<lambda>(vs, r). (JArr vs, r)) (json_elems f (d # ds)))
         else if c = CHR ''{'' then
           (case skip_ws cs of
              [] \<Rightarrow> None
            | d # ds \<Rightarrow> if d = CHR ''}'' then Some (JObj [], ds)
                else map_option (\<lambda>(kvs, r). (JObj (build_obj kvs), r)) (json_members f (d # ds)))
         else json_lit (c # cs))"
| "json_elems 0 s = None"
| "json_elems (Suc f) s = (case json_val f s of
       None \<Rightarrow> None
     | Some (v, r) \<Rightarrow> (case skip_ws r of
           [] \<Rightarrow> None
         | c # cs \<Rightarrow> if c = CHR '','' then map_option (\<lambda>(vs, q). (v # vs, q)) (json_elems f cs)
             else if c = CHR '']'' then Some ([v], cs) else None))"
| "json_members 0 s = None"
| "json_members (Suc f) s = (case skip_ws s of
       [] \<Rightarrow> None
     | q # t \<Rightarrow> if q \<noteq> CHR 0x22 then None else (case json_str t of
           None \<Rightarrow> None
         | Some (k, r) \<Rightarrow> (case skip_ws r of
               [] \<Rightarrow> None
             | c # cs \<Rightarrow> if c \<noteq> CHR '':'' then None else (case json_val f cs of
                   None \<Rightarrow> None
                 | Some (v, u) \<Rightarrow> (case skip_ws u of
                       [] \<Rightarrow> None
                     | d # ds \<Rightarrow> if d = CHR '','' then map_option (\<lambda>(kvs, w). ((k, v) # kvs, w)) (json_members f ds)
                         else if d = CHR ''}'' then Some ([(k, v)], ds) else None)))))"

definition json_parse :: "jsstr \<Rightarrow> json option" where
  "json_parse s = (case json_val (2 * length s + 2) s of
       Some (v, r) \<Rightarrow> if skip_ws r = [] then Some v else None
     | None \<Rightarrow> None)"

subsection \<open>The printer\<close>

definition hex_char :: "nat \<Rightarrow> char" where
  "hex_char n = ''0123456789abcdef'' ! n"

definition json_esc :: "char \<Rightarrow> jsstr" where
  "json_esc c =
     (if c = CHR 0x22 then [CHR 0x5C, CHR 0x22] else if c = CHR 0x5C then [CHR 0x5C, CHR 0x5C]
      else if c = CHR 0x08 then [CHR 0x5C, CHR ''b''] else if c = CHR 0x0C then [CHR 0x5C, CHR ''f'']
      else if c = CHR 0x0A then [CHR 0x5C, CHR ''n''] else if c = CHR 0x0D then [CHR 0x5C, CHR ''r'']
      else if c = CHR 0x09 then [CHR 0x5C, CHR ''t'']
      else if is_ctrl c then
        CHR 0x5C # ''u00'' @ [hex_char (of_char c div 16), hex_char (of_char c mod 16)]
      else [c])"

definition json_quote :: "jsstr \<Rightarrow> jsstr" where
  "json_quote s = CHR 0x22 # concat (map json_esc s) @ [CHR 0x22]"

fun json_stringify :: "json \<Rightarrow> jsstr" where
  "json_stringify JNull = ''null''"
| "json_stringify (JBool b) = (if b then ''true'' else ''false'')"
| "json_stringify (JNum x) = (if js_isFinite x then js_num_str x else ''null'')"
| "json_stringify (JStr s) = json_quote s"
| "json_stringify (JArr vs) = ''['' @ js_join '','' (map json_stringify vs) @ '']''"
| "json_stringify (JObj kvs) =
     ''{'' @ js_join '','' (map (\<lambda>(k, v). json_quote k @ '':'' @ json_stringify v) kvs) @ ''}''"

subsection \<open>Truthiness and string conversion\<close>

text \<open>A value that may be \<open>undefined\<close> is a \<^typ>\<open>json option\<close>.\<close>

fun js_truthy :: "json option \<Rightarrow> bool" where
  "js_truthy None = False"
| "js_truthy (Some JNull) = False"
| "js_truthy (Some (JBool b)) = b"
| "js_truthy (Some (JNum x)) = js_truthy_num x"
| "js_truthy (Some (JStr s)) = (s \<noteq> [])"
| "js_truthy (Some (JArr vs)) = True"
| "js_truthy (Some (JObj kvs)) = True"

text \<open>\<open>String(v)\<close>; in an array, \<open>null\<close> prints as the empty string. \<open>js_String\<close> is the text when there is one: the conversion
  throws a \<open>TypeError\<close> on an object with an own property \<open>toString\<close> (a JSON value is never callable) and on an array that
  holds such an object. \<open>string_throws\<close> is that case (the conversion to a number then throws too); the definitions that convert what a
  user typed as JSON check it.\<close>

fun js_String :: "json \<Rightarrow> jsstr" where
  "js_String JNull = ''null''"
| "js_String (JBool b) = (if b then ''true'' else ''false'')"
| "js_String (JNum x) = js_num_str x"
| "js_String (JStr s) = s"
| "js_String (JArr vs) = js_join '','' (map (\<lambda>v. case v of JNull \<Rightarrow> [] | _ \<Rightarrow> js_String v) vs)"
| "js_String (JObj kvs) = ''[object Object]''"

fun string_throws :: "json \<Rightarrow> bool" where
  "string_throws (JArr vs) \<longleftrightarrow> (\<exists>v \<in> set vs. string_throws v)"
| "string_throws (JObj kvs) \<longleftrightarrow> obj_has ''toString'' kvs"
| "string_throws _ \<longleftrightarrow> False"

text \<open>
  The test \<open>!x || typeof x !== 'object' || Array.isArray(x)\<close> that the parsers of settings
  share: the properties of a plain object, and nothing otherwise.
\<close>

definition as_object :: "json option \<Rightarrow> (jsstr \<times> json) list option" where
  "as_object v = (case v of Some (JObj kvs) \<Rightarrow> Some kvs | _ \<Rightarrow> None)"

text \<open>The properties a JSON text describes, with parse errors and other values as \<open>None\<close>.\<close>

definition json_object :: "jsstr \<Rightarrow> (jsstr \<times> json) list option" where
  "json_object s = as_object (json_parse s)"

text \<open>
  Property access \<open>v?.k\<close>: a missing property, and a property of a value that is no object, is
  \<open>undefined\<close>. (The names the sources read are none that strings, arrays or
  \<open>Object.prototype\<close> have.)
\<close>

fun js_prop :: "json option \<Rightarrow> jsstr \<Rightarrow> json option" where
  "js_prop (Some (JObj kvs)) k = obj_get k kvs"
| "js_prop _ k = None"

text \<open>\<open>v || d\<close>.\<close>

definition js_or :: "json option \<Rightarrow> json \<Rightarrow> json" where
  "js_or v d = (case v of Some w \<Rightarrow> if js_truthy (Some w) then w else d | None \<Rightarrow> d)"

text \<open>An object literal; a property whose value is \<open>undefined\<close> is left out.\<close>

definition defined :: "(jsstr \<times> json option) list \<Rightarrow> json obj" where
  "defined ps = List.map_filter (\<lambda>(k, v). map_option (Pair k) v) ps"

lemma defined_simps [simp]:
  "defined [] = []"
  "defined ((k, Some v) # ps) = (k, v) # defined ps"
  "defined ((k, None) # ps) = defined ps"
  by (simp_all add: defined_def List.map_filter_simps)

subsection \<open>The fuel suffices\<close>

lemma dropWhile_shorter: "length (dropWhile P s) \<le> length s"
  by (induction s) auto

lemma skip_ws_shorter: "skip_ws s = c # cs \<Longrightarrow> length cs < length s"
  using dropWhile_shorter [of json_ws s] by simp

lemma cons_fst_Some: "cons_fst c x = Some (v, r) \<longleftrightarrow> (\<exists>w. x = Some (w, r) \<and> v = c # w)"
  by (cases x) (auto simp: cons_fst_def)

lemma json_str_shorter: "json_str s = Some (v, r) \<Longrightarrow> length r < length s"
proof (induction s arbitrary: v r rule: length_induct)
  case (1 s)
  then have IH: "\<And>t w. length t < length s \<Longrightarrow> json_str t = Some (w, r) \<Longrightarrow> length r < length t"
    by blast
  show ?case
  proof (cases s)
    case (Cons c cs)
    show ?thesis
    proof (cases "\<exists>t w. json_str t = Some (w, r) \<and> length t < length s")
      case True
      then show ?thesis using IH less_trans by blast
    next
      case False
      then have no: "\<And>t w. length t < length s \<Longrightarrow> json_str t \<noteq> Some (w, r)" by blast
      from 1(2) no show ?thesis
        by (auto simp: Cons cons_fst_Some split: if_split_asm list.split_asm option.split_asm)
    qed
  qed (use 1(2) in simp)
qed

lemma digits_pre_shorter: "digits_pre s = (a, b) \<Longrightarrow> length b + length a = length s"
  using takeWhile_dropWhile_id [of is_digit s]
  unfolding digits_pre_def by (metis add.commute length_append prod.inject)

lemma json_frac_shorter: "json_frac s = Some (v, r) \<Longrightarrow> length r \<le> length s"
  by (auto simp: json_frac_def split: list.splits if_splits prod.splits dest: digits_pre_shorter)

lemma json_exp_shorter: "json_exp s = Some (v, r) \<Longrightarrow> length r \<le> length s"
  by (auto simp: json_exp_def split: list.splits if_splits prod.splits dest!: digits_pre_shorter)

lemma json_num_shorter:
  assumes "json_num s = Some (v, r)"
  shows "length r < length s"
proof -
  obtain neg s1 where 1: "(case s of c # t \<Rightarrow> if c = CHR ''-'' then (True, t) else (False, s)
      | [] \<Rightarrow> (False, s)) = (neg, s1)" by fastforce
  then have l1: "length s1 \<le> length s" by (auto split: list.splits if_splits)
  obtain ip s2 where 2: "digits_pre s1 = (ip, s2)" by fastforce
  from assms 1 2 obtain fp s3 e where 3: "ip \<noteq> []" "json_frac s2 = Some (fp, s3)" "json_exp s3 = Some (e, r)"
    by (auto simp: json_num_def split: if_splits option.splits prod.splits)
  have "length ip > 0" using 3 by simp
  with l1 digits_pre_shorter [OF 2] json_frac_shorter [OF 3(2)] json_exp_shorter [OF 3(3)]
  show ?thesis by linarith
qed

lemma json_lit_shorter: "json_lit s = Some (v, r) \<Longrightarrow> length r < length s"
  by (auto simp: json_lit_def js_startsWith_iff split: if_splits dest: json_num_shorter)

lemma json_shorter_all:
  "(\<forall>s v r. json_val f s = Some (v, r) \<longrightarrow> length r < length s) \<and>
   (\<forall>s vs r. json_elems f s = Some (vs, r) \<longrightarrow> length r < length s) \<and>
   (\<forall>s kvs r. json_members f s = Some (kvs, r) \<longrightarrow> length r < length s)"
proof (induction f)
  case (Suc f)
  then have V: "\<And>s v r. json_val f s = Some (v, r) \<Longrightarrow> length r < length s"
    and E: "\<And>s v r. json_elems f s = Some (v, r) \<Longrightarrow> length r < length s"
    and M: "\<And>s v r. json_members f s = Some (v, r) \<Longrightarrow> length r < length s" by blast+
  have "length r < length s" if "json_val (Suc f) s = Some (v, r)" for s v r
    using that
    by (auto split: list.split_asm if_split_asm dest!: skip_ws_shorter
        dest!: json_str_shorter json_lit_shorter E M)
  moreover have "length r < length s" if "json_elems (Suc f) s = Some (v, r)" for s v r
    using that
    by (auto split: option.split_asm prod.split_asm list.split_asm if_split_asm
        dest!: V E skip_ws_shorter)
  moreover have "length r < length s" if "json_members (Suc f) s = Some (v, r)" for s v r
    using that
    by (auto split: option.split_asm prod.split_asm list.split_asm if_split_asm
        dest!: V M skip_ws_shorter json_str_shorter)
  ultimately show ?case by blast
qed simp

lemmas json_shorter = json_shorter_all [THEN conjunct1, rule_format]

declare json_val.simps(2) [simp del] json_elems.simps(2) [simp del] json_members.simps(2) [simp del]

lemma json_members_Some:
  "json_members (Suc g) s = Some x \<Longrightarrow>
     \<exists>q t k r c cs w u d ds. skip_ws s = q # t \<and> json_str t = Some (k, r) \<and> skip_ws r = c # cs \<and>
       json_val g cs = Some (w, u) \<and> skip_ws u = d # ds"
  unfolding json_members.simps(2)
  by (auto split: list.split_asm option.split_asm if_split_asm)

lemma json_more_fuel:
  "(\<forall>s. 2 * length s + 1 \<le> f \<longrightarrow> json_val (Suc f) s = json_val f s) \<and>
   (\<forall>s. 2 * length s + 2 \<le> f \<longrightarrow> json_elems (Suc f) s = json_elems f s) \<and>
   (\<forall>s. 2 * length s + 2 \<le> f \<longrightarrow> json_members (Suc f) s = json_members f s)"
proof (induction f)
  case (Suc f)
  then have V: "\<And>s. 2 * length s + 1 \<le> f \<Longrightarrow> json_val (Suc f) s = json_val f s"
    and E: "\<And>s. 2 * length s + 2 \<le> f \<Longrightarrow> json_elems (Suc f) s = json_elems f s"
    and M: "\<And>s. 2 * length s + 2 \<le> f \<Longrightarrow> json_members (Suc f) s = json_members f s" by blast+
  have "json_val (Suc (Suc f)) s = json_val (Suc f) s" if f: "2 * length s + 1 \<le> Suc f" for s
  proof (cases "skip_ws s")
    case (Cons c cs)
    note l = skip_ws_shorter [OF Cons]
    have EM: "json_elems (Suc f) (d # ds) = json_elems f (d # ds)"
      "json_members (Suc f) (d # ds) = json_members f (d # ds)" if "skip_ws cs = d # ds" for d ds
      using E M f l skip_ws_shorter [OF that] by simp_all
    show ?thesis
    proof (cases "skip_ws cs")
      case Nil
      show ?thesis
        unfolding json_val.simps(2) [of "Suc f"] json_val.simps(2) [of f] \<open>skip_ws s = c # cs\<close> list.case
        unfolding Nil by simp
    next
      case (Cons d ds)
      show ?thesis
        unfolding json_val.simps(2) [of "Suc f"] json_val.simps(2) [of f] \<open>skip_ws s = c # cs\<close> list.case
        unfolding Cons
        by (simp add: EM [OF Cons])
    qed
  next
    case Nil
    show ?thesis unfolding json_val.simps(2) [of "Suc f"] json_val.simps(2) [of f] Nil by simp
  qed
  moreover have "json_elems (Suc (Suc f)) s = json_elems (Suc f) s" if f: "2 * length s + 2 \<le> Suc f" for s
  proof -
    have v: "json_val (Suc f) s = json_val f s" using V f by simp
    have e: "json_elems (Suc f) cs = json_elems f cs"
      if "json_val f s = Some (w, r)" "skip_ws r = c # cs" for w r c cs
      using E f json_shorter [OF that(1)] skip_ws_shorter [OF that(2)] by simp
    note steps = json_elems.simps(2) [of "Suc f" s] json_elems.simps(2) [of f s] v
    show ?thesis
    proof (cases "json_val f s")
      case (Some p)
      then obtain w r where p: "json_val f s = Some (w, r)" by (cases p) simp
      show ?thesis
      proof (cases "skip_ws r")
        case (Cons c cs)
        show ?thesis unfolding steps p option.case prod.case Cons list.case e [OF p Cons] by (rule refl)
      qed (unfold steps p option.case prod.case, simp only: list.case)
    qed (unfold steps, simp only: option.case)
  qed
  moreover have "json_members (Suc (Suc f)) s = json_members (Suc f) s" if f: "2 * length s + 2 \<le> Suc f" for s
  proof -
    have v: "json_val (Suc f) cs = json_val f cs"
      if "skip_ws s = q # t" "json_str t = Some (k, r)" "skip_ws r = c # cs" for q t k r c cs
      using V f skip_ws_shorter [OF that(1)] json_str_shorter [OF that(2)] skip_ws_shorter [OF that(3)] by simp
    have m: "json_members (Suc f) ds = json_members f ds"
      if "skip_ws s = q # t" "json_str t = Some (k, r)" "skip_ws r = c # cs"
        "json_val f cs = Some (w, u)" "skip_ws u = d # ds" for q t k r c cs w u d ds
      using M f skip_ws_shorter [OF that(1)] json_str_shorter [OF that(2)] skip_ws_shorter [OF that(3)]
        json_shorter [OF that(4)] skip_ws_shorter [OF that(5)] by simp
    note steps = json_members.simps(2) [of "Suc f" s] json_members.simps(2) [of f s]
    show ?thesis
    proof (cases "json_members (Suc (Suc f)) s = None \<and> json_members (Suc f) s = None")
      case False
      then obtain g x where g: "g = f \<or> g = Suc f" "json_members (Suc g) s = Some x" by auto
      from json_members_Some [OF g(2)] obtain q t k r c cs w u d ds where
        1: "skip_ws s = q # t" "json_str t = Some (k, r)" "skip_ws r = c # cs"
        and 2: "json_val g cs = Some (w, u)" "skip_ws u = d # ds" by blast
      have 3: "json_val f cs = Some (w, u)" using g(1) 2(1) v [OF 1] by auto
      show ?thesis unfolding steps 1(1) list.case 1(2) option.case prod.case 1(3) v [OF 1]
        unfolding 3 option.case prod.case 2(2) list.case m [OF 1 3 2(2)] by (rule refl)
    qed simp
  qed
  ultimately show ?case by blast
qed simp

lemma json_fuel:
  assumes "2 * length s + 1 \<le> f"
  shows "json_val f s = json_val (2 * length s + 1) s"
  using assms
proof (induction f rule: dec_induct)
  case (step n)
  then show ?case using json_more_fuel [of n] by simp
qed simp

subsection \<open>Parsing undoes printing\<close>

text \<open>
  The values the console writes: finite numbers whose decimal text is read as the number (all
  integers of at most 53 bits, \<open>json_plain_int\<close>), and objects whose property list is in enumeration
  order with distinct keys.
\<close>

fun json_plain :: "json \<Rightarrow> bool" where
  "json_plain (JNum x) \<longleftrightarrow> js_isFinite x \<and> json_num (js_num_str x) = Some (x, [])"
| "json_plain (JArr vs) \<longleftrightarrow> (\<forall>v \<in> set vs. json_plain v)"
| "json_plain (JObj kvs) \<longleftrightarrow> build_obj kvs = kvs \<and> (\<forall>p \<in> set kvs. json_plain (snd p))"
| "json_plain _ \<longleftrightarrow> True"

definition num_end :: "jsstr \<Rightarrow> bool" where
  \<comment> \<open>the text does not continue a number\<close>
  "num_end r \<longleftrightarrow> r = [] \<or> hd r \<in> set '',]}'' \<or> json_ws (hd r)"

lemma hex_val_char: "x < 16 \<Longrightarrow> hex_val (hex_char x) = Some x"
proof -
  assume "x < 16"
  then have "x \<in> {0, 1, 2, 3, 4, 5, 6, 7, 8, 9, 10, 11, 12, 13, 14, 15}" by (simp, presburger)
  then show ?thesis by (elim insertE emptyE) (simp_all add: hex_val_def hex_char_def)
qed

lemma hex2_esc:
  "is_ctrl c \<Longrightarrow> hex2 (hex_char (of_char c div 16)) (hex_char (of_char c mod 16)) = Some c"
  by (simp add: hex2_def hex_val_char is_ctrl_def)

lemma json_esc_cases:
  "(\<exists>e. json_esc c = [CHR 0x5C, e] \<and> e \<noteq> CHR ''u'' \<and> json_unescape e = Some c) \<or>
   (json_esc c = CHR 0x5C # ''u00'' @ [hex_char (of_char c div 16), hex_char (of_char c mod 16)] \<and>
    is_ctrl c) \<or>
   (json_esc c = [c] \<and> c \<noteq> CHR 0x22 \<and> c \<noteq> CHR 0x5C \<and> \<not> is_ctrl c)"
proof (cases "c \<in> {CHR 0x22, CHR 0x5C, CHR 0x08, CHR 0x0C, CHR 0x0A, CHR 0x0D, CHR 0x09}")
  case True
  then have "\<exists>e. json_esc c = [CHR 0x5C, e] \<and> e \<noteq> CHR ''u'' \<and> json_unescape e = Some c"
    by (elim insertE emptyE) (simp_all add: json_esc_def json_unescape_def)
  then show ?thesis by blast
next
  case False
  then show ?thesis by (simp add: json_esc_def)
qed

lemma json_str_esc: "json_str (json_esc c @ s) = cons_fst c (json_str s)"
  using json_esc_cases [of c] by (elim disjE exE conjE) (simp_all add: hex2_esc)

lemma json_str_quote: "json_str (concat (map json_esc v) @ CHR 0x22 # r) = Some (v, r)"
  by (induction v) (simp_all add: json_str_esc cons_fst_def del: json_str.simps(2), simp)

lemma json_quote_read: "\<exists>t. json_quote v @ r = CHR 0x22 # t \<and> json_str t = Some (v, r)"
  by (simp add: json_quote_def json_str_quote)

lemma dec_str_hd:
  assumes "0 \<le> n"
  shows "n = 0 \<and> dec_str n = ''0'' \<or> hd (dec_str n) \<noteq> CHR ''0''"
  using assms
proof (induction n rule: dec_str.induct)
  case (1 n)
  show ?case
  proof (cases "n < 10")
    case True
    have d: "dec_str n = [digit_char n]" using True by (subst dec_str.simps) simp
    show ?thesis
    proof (cases "n = 0")
      case False
      have "digit_val (digit_char n) = n" using digit_char_simps True 1(2) by blast
      then have "digit_char n \<noteq> CHR ''0''" using False by (auto simp: digit_val_def)
      then show ?thesis using d by simp
    qed (use d in \<open>simp add: digit_char_def\<close>)
  next
    case False
    have d: "dec_str n = dec_str (n div 10) @ [digit_char (n mod 10)]"
      using False by (subst dec_str.simps) simp
    moreover have "0 \<le> n div 10" "n div 10 \<noteq> 0" using False by simp_all
    ultimately show ?thesis using 1(1) [OF False] by simp
  qed
qed

lemma digits_pre_end: "num_end r \<Longrightarrow> digits_pre (s @ r) = apsnd (\<lambda>u. u @ r) (digits_pre s)"
proof -
  assume "num_end r"
  then have "takeWhile is_digit r = [] \<and> dropWhile is_digit r = r"
    by (cases r) (auto simp: num_end_def is_digit_def json_ws_def)
  then show ?thesis by (induction s) (auto simp: digits_pre_def)
qed

lemma json_frac_end: "num_end r \<Longrightarrow> json_frac (s @ r) = map_option (apsnd (\<lambda>u. u @ r)) (json_frac s)"
proof (cases s)
  case Nil
  assume "num_end r"
  then show ?thesis using Nil by (cases r) (auto simp: json_frac_def num_end_def json_ws_def)
next
  case (Cons c t)
  assume "num_end r"
  then show ?thesis using Cons digits_pre_end [of r t] by (auto simp: json_frac_def split: prod.splits)
qed

lemma json_exp_end: "num_end r \<Longrightarrow> json_exp (s @ r) = map_option (apsnd (\<lambda>u. u @ r)) (json_exp s)"
proof -
  assume e: "num_end r"
  have hd: "r = [] \<or> hd r \<notin> set ''eE+-.''" using e by (auto simp: num_end_def json_ws_def)
  show ?thesis
  proof (cases s)
    case Nil
    then show ?thesis using hd by (cases r) (auto simp: json_exp_def)
  next
    case (Cons c t)
    show ?thesis
    proof (cases t)
      case Nil
      then show ?thesis using Cons hd digits_pre_end [OF e, of "[]"]
        by (cases r) (auto simp: json_exp_def digits_pre_def split: prod.splits)
    next
      case (Cons d u)
      then show ?thesis using \<open>s = c # t\<close> digits_pre_end [OF e, of u] digits_pre_end [OF e, of t]
        by (auto simp: json_exp_def split: prod.splits)
    qed
  qed
qed

text \<open>A number is read the same whatever follows it.\<close>

lemma json_num_end:
  assumes "num_end r"
  shows "json_num (s @ r) = map_option (apsnd (\<lambda>u. u @ r)) (json_num s)"
proof -
  let ?sign = "\<lambda>s. case s of c # t \<Rightarrow> if c = CHR ''-'' then (True, t) else (False, s) | [] \<Rightarrow> (False, s)"
  have sg: "?sign (s @ r) = apsnd (\<lambda>u. u @ r) (?sign s)"
    using assms by (cases s; cases r) (auto simp: num_end_def json_ws_def)
  obtain neg s1 where 1: "?sign s = (neg, s1)" by fastforce
  obtain ip s2 where 2: "digits_pre s1 = (ip, s2)" by fastforce
  have 3: "?sign (s @ r) = (neg, s1 @ r)" "digits_pre (s1 @ r) = (ip, s2 @ r)"
    using sg 1 digits_pre_end [OF assms, of s1] 2 by simp_all
  show ?thesis unfolding json_num_def 1 3(1) Let_def prod.case 2 3(2) json_frac_end [OF assms]
    by (cases "json_frac s2") (auto simp: json_exp_end [OF assms] split: option.splits)
qed

lemma digits_pre_num:
  assumes "\<And>c. c \<in> set ds \<Longrightarrow> is_digit c" "num_end r"
  shows "digits_pre (ds @ r) = (ds, r)"
proof -
  have "takeWhile is_digit r = [] \<and> dropWhile is_digit r = r"
    using assms(2) by (cases r) (auto simp: num_end_def is_digit_def json_ws_def)
  then show ?thesis using assms(1) by (simp add: digits_pre_def takeWhile_append2 dropWhile_append2)
qed

lemma num_end_frac: "num_end r \<Longrightarrow> json_frac r = Some ([], r) \<and> json_exp r = Some (0, r)"
  by (auto simp: num_end_def json_frac_def json_exp_def json_ws_def split: list.splits)

lemma decimal_val_int: "decimal_val ds [] 0 = of_int (digits_val ds)"
  by (simp add: decimal_val_def)

lemma json_num_int:
  assumes "\<bar>n\<bar> \<le> 2 ^ 53" "num_end r"
  shows "json_num (int_to_str n @ r) = Some (num n, r)"
proof -
  have hd0: "length (dec_str m) \<le> 1 \<or> hd (dec_str m) \<noteq> CHR ''0''" if "0 \<le> m" for m
    using dec_str_hd [OF that] by auto
  have pre: "digits_pre (dec_str m @ r) = (dec_str m, r)" if "0 \<le> m" for m
    using digits_pre_num assms(2) dec_str_digits [OF that] by blast
  show ?thesis
  proof (cases "n < 0")
    case True
    then show ?thesis
      using hd0 [of "- n"] num_end_frac [OF assms(2)] fl_int [of n] assms(1)
      by (auto simp: json_num_def int_to_str_def pre decimal_val_int)
  next
    case False
    have "is_digit (hd (dec_str n))" using False dec_str_digits [of n] by simp
    then have m: "dec_str n @ r \<noteq> [] \<and> hd (dec_str n @ r) \<noteq> CHR ''-''"
      by (auto simp: is_digit_def)
    then have "(case dec_str n @ r of [] \<Rightarrow> (False, dec_str n @ r)
        | c # t \<Rightarrow> if c = CHR ''-'' then (True, t) else (False, dec_str n @ r)) = (False, dec_str n @ r)"
      by (cases "dec_str n @ r") auto
    with False show ?thesis
      using hd0 [of n] num_end_frac [OF assms(2)] fl_int [of n] assms(1) pre [of n]
      by (auto simp: json_num_def int_to_str_def decimal_val_int)
  qed
qed

lemma json_plain_int: "\<bar>n\<bar> \<le> 2 ^ 53 \<Longrightarrow> json_plain (JNum (num n))"
  using json_num_int [of n "[]"] by (simp add: js_isFinite_def js_num_str_int num_end_def)

lemma json_num_hd: "json_num s = Some x \<Longrightarrow> \<exists>c cs. s = c # cs \<and> (c = CHR ''-'' \<or> is_digit c)"
proof (cases s)
  case (Cons c cs)
  assume "json_num s = Some x"
  moreover have "takeWhile is_digit (c # cs) = []" if "\<not> is_digit c" using that by simp
  ultimately show ?thesis using Cons by (auto simp: json_num_def digits_pre_def Let_def split: if_splits)
qed (simp add: json_num_def digits_pre_def)

lemma int_str_hd:
  "int_to_str n \<noteq> [] \<and> (hd (int_to_str n) = CHR ''-'' \<or> is_digit (hd (int_to_str n)))"
  using dec_str_digits [of n "hd (dec_str n)"] by (auto simp: int_to_str_def)

lemma json_val_num:
  assumes "json_num t = Some (x, [])" "num_end r"
  shows "json_val (Suc f) (t @ r) = Some (JNum x, r)"
proof -
  obtain c cs where c: "t = c # cs" "c = CHR ''-'' \<or> is_digit c" using json_num_hd [OF assms(1)] by blast
  then have o: "\<not> json_ws c" "c \<noteq> CHR 0x22" "c \<noteq> CHR ''[''" "c \<noteq> CHR ''{''" "c \<noteq> CHR ''t''" "c \<noteq> CHR ''f''" "c \<noteq> CHR ''n''"
    by (auto simp: is_digit_def json_ws_def)
  have "json_num (c # cs @ r) = Some (x, r)" using json_num_end [OF assms(2), of t] assms(1) c(1) by simp
  then show ?thesis using o by (simp add: c(1) json_val.simps(2) json_lit_def)
qed

text \<open>The first character of a printed value ends no array and is no space.\<close>

lemma stringify_hd:
  "json_plain v \<Longrightarrow> \<exists>c cs. json_stringify v = c # cs \<and> \<not> json_ws c \<and> c \<noteq> CHR '']''"
proof (cases v)
  case (JNum x)
  assume "json_plain v"
  then have n: "json_num (js_num_str x) = Some (x, [])" "js_isFinite x" using JNum by simp_all
  obtain c cs where c: "js_num_str x = c # cs" "c = CHR ''-'' \<or> is_digit c" using json_num_hd [OF n(1)] by blast
  then have "\<not> json_ws c \<and> c \<noteq> CHR '']''" by (auto simp: is_digit_def json_ws_def)
  then show ?thesis using JNum n c by simp
qed (auto simp: json_ws_def json_quote_def)

definition reads :: "json \<Rightarrow> bool" where
  "reads v \<longleftrightarrow> (\<exists>f0. \<forall>f \<ge> f0. \<forall>r. num_end r \<longrightarrow> json_val f (json_stringify v @ r) = Some (v, r))"

lemma json_elems_print:
  assumes "vs \<noteq> []" "\<forall>v \<in> set vs. reads v"
  shows "\<exists>f0. \<forall>f \<ge> f0. \<forall>r. json_elems f (js_join '','' (map json_stringify vs) @ CHR '']'' # r) = Some (vs, r)"
  using assms
proof (induction vs rule: list_nonempty_induct)
  case (single v)
  then obtain f0 where f0: "\<forall>f \<ge> f0. \<forall>r. num_end r \<longrightarrow> json_val f (json_stringify v @ r) = Some (v, r)"
    by (auto simp: reads_def)
  have "json_elems f (json_stringify v @ CHR '']'' # r) = Some ([v], r)" if "f \<ge> Suc f0" for f r
    using f0 that by (cases f) (auto simp: json_elems.simps(2) num_end_def json_ws_def)
  then show ?case by auto
next
  case (cons v vs)
  then obtain f0 where f0: "\<forall>f \<ge> f0. \<forall>r. num_end r \<longrightarrow> json_val f (json_stringify v @ r) = Some (v, r)"
    by (auto simp: reads_def)
  from cons obtain f1 where f1: "\<forall>f \<ge> f1. \<forall>r.
      json_elems f (js_join '','' (map json_stringify vs) @ CHR '']'' # r) = Some (vs, r)" by auto
  have "json_elems f (js_join '','' (map json_stringify (v # vs)) @ CHR '']'' # r) = Some (v # vs, r)"
    if "f \<ge> Suc (max f0 f1)" for f r
    using f0 f1 that cons(1)
    by (cases f) (auto simp: json_elems.simps(2) num_end_def json_ws_def js_join_Cons)
  then show ?case by blast
qed

abbreviation print_member :: "jsstr \<times> json \<Rightarrow> jsstr" where
  "print_member p \<equiv> (case p of (k, v) \<Rightarrow> json_quote k @ '':'' @ json_stringify v)"

lemma json_members_print_one:
  assumes "\<forall>g \<ge> f0. \<forall>r. num_end r \<longrightarrow> json_val g (json_stringify v @ r) = Some (v, r)"
    and "f0 \<le> f" "d = CHR '','' \<or> d = CHR ''}''"
  shows "json_members (Suc f) (print_member (k, v) @ d # r) =
    (if d = CHR '','' then map_option (\<lambda>(kvs, w). ((k, v) # kvs, w)) (json_members f r)
     else Some ([(k, v)], r))"
proof -
  have n: "num_end (d # r)" using assms(3) by (auto simp: num_end_def)
  have "json_val f (json_stringify v @ d # r) = Some (v, d # r)" using assms(1,2) n by blast
  then show ?thesis
    using assms(3) by (auto simp: json_members.simps(2) json_quote_def json_str_quote json_ws_def)
qed

lemma json_members_print:
  assumes "kvs \<noteq> []" "\<forall>p \<in> set kvs. reads (snd p)"
  shows "\<exists>f0. \<forall>f \<ge> f0. \<forall>r. json_members f (js_join '','' (map print_member kvs) @ CHR ''}'' # r) = Some (kvs, r)"
  using assms
proof (induction kvs rule: list_nonempty_induct)
  case (single p)
  obtain k v where p: "p = (k, v)" by (cases p)
  then obtain f0 where f0: "\<forall>f \<ge> f0. \<forall>r. num_end r \<longrightarrow> json_val f (json_stringify v @ r) = Some (v, r)"
    using single by (auto simp: reads_def)
  have "json_members f (print_member p @ CHR ''}'' # r) = Some ([p], r)" if "f \<ge> Suc f0" for f r
    using json_members_print_one [OF f0, of "f - 1" "CHR ''}''" k r] that p by (cases f) auto
  then show ?case by auto
next
  case (cons p kvs)
  obtain k v where p: "p = (k, v)" by (cases p)
  then obtain f0 where f0: "\<forall>f \<ge> f0. \<forall>r. num_end r \<longrightarrow> json_val f (json_stringify v @ r) = Some (v, r)"
    using cons by (auto simp: reads_def)
  from cons obtain f1 where f1: "\<forall>f \<ge> f1. \<forall>r.
      json_members f (js_join '','' (map print_member kvs) @ CHR ''}'' # r) = Some (kvs, r)" by auto
  have "json_members f (js_join '','' (map print_member (p # kvs)) @ CHR ''}'' # r) = Some (p # kvs, r)"
    if f: "f \<ge> Suc (max f0 f1)" for f r
  proof -
    obtain g where g: "f = Suc g" "f0 \<le> g" "f1 \<le> g"
      using f by (cases f) simp_all
    show ?thesis
      using json_members_print_one [OF f0 g(2), of "CHR '',''" k
          "js_join '','' (map print_member kvs) @ CHR ''}'' # r"] f1 g p cons(1)
      by (simp add: js_join_Cons)
  qed
  then show ?case by blast
qed

lemma js_join_hd: "x \<noteq> [] \<Longrightarrow> js_join sep (x # xs) \<noteq> [] \<and> hd (js_join sep (x # xs)) = hd x"
  by (cases xs) auto

lemma reads_plain: "json_plain v \<Longrightarrow> reads v"
proof (induction v)
  case JNull
  have "json_val f (json_stringify JNull @ r) = Some (JNull, r)" if "f \<ge> 1" for f r
    using that by (cases f) (auto simp: json_val.simps(2) json_ws_def json_lit_def)
  then show ?case unfolding reads_def by blast
next
  case (JBool b)
  have "json_val f (json_stringify (JBool b) @ r) = Some (JBool b, r)" if "f \<ge> 1" for f r
    using that by (cases f) (auto simp: json_val.simps(2) json_ws_def json_lit_def)
  then show ?case unfolding reads_def by blast
next
  case (JNum x)
  then have n: "json_num (js_num_str x) = Some (x, [])" "js_isFinite x" by simp_all
  then have "json_val f (json_stringify (JNum x) @ r) = Some (JNum x, r)" if "f \<ge> 1" "num_end r" for f r
    using that json_val_num [OF n(1) that(2), of "f - 1"] by (cases f) auto
  then show ?case unfolding reads_def by blast
next
  case (JStr s)
  have "json_val f (json_stringify (JStr s) @ r) = Some (JStr s, r)" if "f \<ge> 1" for f r
    using that by (cases f) (auto simp: json_val.simps(2) json_ws_def json_quote_def json_str_quote)
  then show ?case by (auto simp: reads_def)
next
  case (JArr vs)
  show ?case
  proof (cases "vs = []")
    case True
    have "json_val f (json_stringify (JArr vs) @ r) = Some (JArr vs, r)" if "f \<ge> 1" for f r
      using that True by (cases f) (auto simp: json_val.simps(2) json_ws_def)
    then show ?thesis by (auto simp: reads_def)
  next
    case False
    have "\<forall>v \<in> set vs. reads v" using JArr by simp
    from json_elems_print [OF False this] obtain f0 where f0: "\<forall>f \<ge> f0. \<forall>r.
      json_elems f (js_join '','' (map json_stringify vs) @ CHR '']'' # r) = Some (vs, r)" by blast
    obtain w ws where w: "vs = w # ws" using False by (cases vs) auto
    have "json_plain w" using JArr(2) w by simp
    from stringify_hd [OF this] obtain c cs where
      c: "js_join '','' (map json_stringify vs) = c # cs" "\<not> json_ws c" "c \<noteq> CHR '']''"
      using w by (cases ws) auto
    have "json_val f (json_stringify (JArr vs) @ r) = Some (JArr vs, r)" if "f \<ge> Suc f0" for f r
      using that f0 c by (cases f) (auto simp: json_val.simps(2) json_ws_def)
    then show ?thesis unfolding reads_def by blast
  qed
next
  case (JObj kvs)
  show ?case
  proof (cases "kvs = []")
    case True
    have "json_val f (json_stringify (JObj kvs) @ r) = Some (JObj kvs, r)" if "f \<ge> 1" for f r
      using that True by (cases f) (auto simp: json_val.simps(2) json_ws_def)
    then show ?thesis by (auto simp: reads_def)
  next
    case False
    have "\<forall>p \<in> set kvs. reads (snd p)" using JObj by (auto simp: snds.simps)
    from json_members_print [OF False this] obtain f0 where f0: "\<forall>f \<ge> f0. \<forall>r.
      json_members f (js_join '','' (map print_member kvs) @ CHR ''}'' # r) = Some (kvs, r)" by blast
    obtain c cs where
      c: "js_join '','' (map print_member kvs) = c # cs" "\<not> json_ws c" "c \<noteq> CHR ''}''"
      using js_join_hd [of "print_member (hd kvs)" "'',''" "map print_member (tl kvs)"] False
      by (cases kvs; cases "js_join '','' (map print_member kvs)") (auto simp: json_quote_def json_ws_def)
    have b: "build_obj kvs = kvs" using JObj by simp
    have "json_val f (json_stringify (JObj kvs) @ r) = Some (JObj kvs, r)" if "f \<ge> Suc f0" for f r
      using that f0 c b by (cases f) (auto simp: json_val.simps(2) json_ws_def)
    then show ?thesis unfolding reads_def by blast
  qed
qed

theorem json_roundtrip:
  assumes "json_plain v"
  shows "json_parse (json_stringify v) = Some v"
proof -
  let ?s = "json_stringify v"
  obtain f0 where "\<forall>f \<ge> f0. \<forall>r. num_end r \<longrightarrow> json_val f (?s @ r) = Some (v, r)"
    using reads_plain [OF assms] by (auto simp: reads_def)
  then have "json_val (max f0 (2 * length ?s + 1)) (?s @ []) = Some (v, [])"
    by (simp add: num_end_def)
  then have "json_val (2 * length ?s + 1) ?s = Some (v, [])"
    using json_fuel [of ?s "max f0 (2 * length ?s + 1)"] by simp
  then have "json_val (2 * length ?s + 2) ?s = Some (v, [])"
    using json_fuel [of ?s "2 * length ?s + 2"] by simp
  then show ?thesis by (simp add: json_parse_def)
qed

subsection \<open>\<open>Number\<close> of a text\<close>

text \<open>
  The numeric value of a string: blanks around it are dropped, the empty text is 0, a decimal
  literal may lack the digits on one side of its point, and the other radices are written with a
  prefix. Everything else is \<open>NaN\<close>.
\<close>

definition decimal_num :: "jsstr \<Rightarrow> jsnum" where
  "decimal_num s =
     (let (neg, s1) = (case s of c # t \<Rightarrow> if c = CHR ''-'' then (True, t) else if c = CHR ''+'' then (False, t) else (False, s)
                       | [] \<Rightarrow> (False, s));
          (ip, s2) = digits_pre s1;
          (fp, s3) = (case s2 of c # t \<Rightarrow> if c = CHR ''.'' then digits_pre t else ([], s2) | [] \<Rightarrow> ([], s2)) in
      if s1 = ''Infinity'' then js_inf (\<not> neg)
      else if ip = [] \<and> fp = [] then NaN
      else (case json_exp s3 of
          Some (e, []) \<Rightarrow> fl ((if neg then -1 else 1) * decimal_val ip fp e)
        | _ \<Rightarrow> NaN))"

definition radix_num :: "nat \<Rightarrow> jsstr \<Rightarrow> jsnum" where
  "radix_num r ds =
     (if ds \<noteq> [] \<and> list_all (\<lambda>c. case hex_val c of Some d \<Rightarrow> d < r | None \<Rightarrow> False) ds
      then fl (of_nat (foldl (\<lambda>a c. a * r + the (hex_val c)) 0 ds)) else NaN)"

definition js_Number_str :: "jsstr \<Rightarrow> jsnum" where
  "js_Number_str s =
     (let t = js_trim s in
      if t = [] then num 0
      else if js_startsWith t ''0x'' \<or> js_startsWith t ''0X'' then radix_num 16 (drop 2 t)
      else if js_startsWith t ''0o'' \<or> js_startsWith t ''0O'' then radix_num 8 (drop 2 t)
      else if js_startsWith t ''0b'' \<or> js_startsWith t ''0B'' then radix_num 2 (drop 2 t)
      else decimal_num t)"

end
