(* ===== verification/Status_Risk_Guard.thy ===== *)
theory Status_Risk_Guard
  imports Js_Json
begin

section \<open>The guard on status-code redirects\<close>

text \<open>
  Model of \<^verbatim>\<open>features/channels/lib/status-code-risk-guard.ts\<close>: a channel may map upstream status
  codes to others; redirecting the codes in \<open>NON_REDIRECTABLE_STATUS_CODES\<close> needs a
  confirmation. The arrow of the message about an invalid entry is a code unit beyond the model
  (U+2192), so \<open>collectInvalidStatusCodeEntries\<close> takes the separator as an argument.
\<close>

definition NON_REDIRECTABLE_STATUS_CODES :: "int list" where
  "NON_REDIRECTABLE_STATUS_CODES = [504, 524]"

definition is_status_text :: "jsstr \<Rightarrow> bool" where
  \<comment> \<open>the test of \<open>/^[1-5]\d{2}$/\<close>\<close>
  "is_status_text s \<longleftrightarrow>
     (case s of [a, b, c] \<Rightarrow> a \<in> set ''12345'' \<and> is_digit b \<and> is_digit c | _ \<Rightarrow> False)"

definition parseStatusCodeKey :: "jsstr \<Rightarrow> int option" where
  "parseStatusCodeKey rawKey =
     (let normalized = js_trim rawKey in
      if \<not> is_status_text normalized then None else Some (digits_val normalized))"

definition parseStatusCodeMappingTarget :: "json \<Rightarrow> int option" where
  "parseStatusCodeMappingTarget rawValue = (case rawValue of
       JNum (Fin q) \<Rightarrow>
         if q = of_int \<lfloor>q\<rfloor> then (if 100 \<le> q \<and> q \<le> 599 then Some \<lfloor>q\<rfloor> else None) else None
     | JStr s \<Rightarrow>
         (let normalized = js_trim s in
          if \<not> is_status_text normalized then None
          else (let code = digits_val normalized in if 100 \<le> code \<and> code \<le> 599 then Some code else None))
     | _ \<Rightarrow> None)"

text \<open>The entries both collectors walk over: none for a blank text, a parse error or a value that
  is not a plain object.\<close>

definition mapping_entries :: "jsstr \<Rightarrow> (jsstr \<times> json) list" where
  "mapping_entries str =
     (if js_trim str = [] then []
      else case json_object str of None \<Rightarrow> [] | Some kvs \<Rightarrow> kvs)"

fun invalid_entries :: "jsstr \<Rightarrow> (jsstr \<times> json) list \<Rightarrow> jsstr list option" where
  \<comment> \<open>\<open>None\<close>: the template text of an entry throws\<close>
  "invalid_entries arrow [] = Some []"
| "invalid_entries arrow ((rawKey, rawValue) # rest) =
     (if parseStatusCodeKey rawKey = None \<or> parseStatusCodeMappingTarget rawValue = None
      then (if string_throws rawValue then None
        else map_option (\<lambda>l. (rawKey @ arrow @ js_String rawValue) # l) (invalid_entries arrow rest))
      else invalid_entries arrow rest)"

definition collectInvalidStatusCodeEntries :: "jsstr \<Rightarrow> jsstr \<Rightarrow> jsstr list option" where
  "collectInvalidStatusCodeEntries arrow str = invalid_entries arrow (mapping_entries str)"

definition show_redirect :: "int \<Rightarrow> int \<Rightarrow> jsstr" where
  "show_redirect fromCode toCode = int_to_str fromCode @ '' -> '' @ int_to_str toCode"

fun risky_mappings :: "(jsstr \<times> json) list \<Rightarrow> jsstr list" where
  "risky_mappings [] = []"
| "risky_mappings ((rawFrom, rawTo) # rest) =
     (case (parseStatusCodeKey rawFrom, parseStatusCodeMappingTarget rawTo) of
        (Some fromCode, Some toCode) \<Rightarrow>
          if fromCode \<notin> set NON_REDIRECTABLE_STATUS_CODES then risky_mappings rest
          else if fromCode = toCode then risky_mappings rest
          else show_redirect fromCode toCode # risky_mappings rest
      | _ \<Rightarrow> risky_mappings rest)"

definition collectDisallowedStatusCodeRedirects :: "jsstr \<Rightarrow> jsstr list" where
  "collectDisallowedStatusCodeRedirects str =
     sort_by js_str_le (uniq (risky_mappings (mapping_entries str)))"

definition collectNewDisallowedStatusCodeRedirects :: "jsstr \<Rightarrow> jsstr \<Rightarrow> jsstr list" where
  "collectNewDisallowedStatusCodeRedirects originalStr currentStr =
     (let currentRisky = collectDisallowedStatusCodeRedirects currentStr in
      if length currentRisky = 0 then []
      else (let originalRiskySet = set (collectDisallowedStatusCodeRedirects originalStr) in
            filter (\<lambda>mapping. mapping \<notin> originalRiskySet) currentRisky))"

subsection \<open>Lemmas\<close>

text \<open>The redirects a mapping text describes, as pairs of codes.\<close>

definition redirects :: "jsstr \<Rightarrow> (int \<times> int) set" where
  "redirects str = {(f, t). \<exists>k v. (k, v) \<in> set (mapping_entries str) \<and>
     parseStatusCodeKey k = Some f \<and> parseStatusCodeMappingTarget v = Some t}"

lemma set_risky_mappings:
  "set (risky_mappings kvs) = {show_redirect f t | f t.
     (\<exists>k v. (k, v) \<in> set kvs \<and> parseStatusCodeKey k = Some f \<and> parseStatusCodeMappingTarget v = Some t) \<and>
     f \<in> set NON_REDIRECTABLE_STATUS_CODES \<and> f \<noteq> t}"
proof (induction kvs rule: risky_mappings.induct)
  case (2 k v rest)
  then show ?case
    by (cases "parseStatusCodeKey k"; cases "parseStatusCodeMappingTarget v") auto
qed simp

lemma status_text_val:
  assumes "is_status_text s" shows "100 \<le> digits_val s \<and> digits_val s \<le> 599"
proof -
  obtain a b c where s: "s = [a, b, c]" "a \<in> set ''12345''" "is_digit b" "is_digit c"
    using assms by (auto simp: is_status_text_def split: list.splits)
  have "1 \<le> digit_val a \<and> digit_val a \<le> 5" using s(2) by (auto simp: digit_val_def)
  moreover have "0 \<le> digit_val b \<and> digit_val b < 10" "0 \<le> digit_val c \<and> digit_val c < 10"
    using is_digit_val [OF s(3)] is_digit_val [OF s(4)] by blast+
  ultimately show ?thesis by (simp add: s(1) digits_val_def)
qed

lemma key_range: "parseStatusCodeKey k = Some f \<Longrightarrow> 100 \<le> f \<and> f \<le> 599"
  using status_text_val [of "js_trim k"] by (auto simp: parseStatusCodeKey_def Let_def split: if_splits)

lemma target_range: "parseStatusCodeMappingTarget v = Some t \<Longrightarrow> 100 \<le> t \<and> t \<le> 599"
proof -
  assume a: "parseStatusCodeMappingTarget v = Some t"
  show ?thesis
    using a
    by (auto simp: parseStatusCodeMappingTarget_def Let_def split: json.split_asm jsnum.split_asm if_split_asm)
qed

lemma dec_str_three:
  assumes "100 \<le> n" "n \<le> 999"
  shows "length (dec_str n) = 3"
proof -
  have "dec_str n = dec_str (n div 10) @ [digit_char (n mod 10)]"
    using assms by (subst dec_str.simps) simp
  moreover have "dec_str (n div 10) = dec_str (n div 10 div 10) @ [digit_char (n div 10 mod 10)]"
    using assms by (subst dec_str.simps) simp
  moreover have "dec_str (n div 10 div 10) = [digit_char (n div 10 div 10)]"
    using assms by (subst dec_str.simps) simp
  ultimately show ?thesis by simp
qed

lemma show_redirect_inj:
  assumes "show_redirect f t = show_redirect f' t'"
    and "100 \<le> f" "f \<le> 599" "100 \<le> t" "t \<le> 599" "100 \<le> f'" "f' \<le> 599" "100 \<le> t'" "t' \<le> 599"
  shows "f = f' \<and> t = t'"
proof -
  have "length (dec_str f) = length (dec_str f')" using assms dec_str_three by simp
  then have "dec_str f = dec_str f'" "dec_str t = dec_str t'"
    using assms by (simp_all add: show_redirect_def int_to_str_def)
  then show ?thesis using assms dec_str_inj by simp
qed

lemma risky_iff:
  assumes "100 \<le> f" "f \<le> 599" "100 \<le> t" "t \<le> 599"
  shows "show_redirect f t \<in> set (collectDisallowedStatusCodeRedirects str) \<longleftrightarrow>
    (f, t) \<in> redirects str \<and> (f = 504 \<or> f = 524) \<and> f \<noteq> t"
proof -
  have "show_redirect f t \<in> set (collectDisallowedStatusCodeRedirects str) \<longleftrightarrow>
    (\<exists>f' t'. show_redirect f t = show_redirect f' t' \<and> (f', t') \<in> redirects str \<and>
      f' \<in> set NON_REDIRECTABLE_STATUS_CODES \<and> f' \<noteq> t')"
    by (simp add: collectDisallowedStatusCodeRedirects_def set_risky_mappings redirects_def)
  moreover have "f = f' \<and> t = t'" if "show_redirect f t = show_redirect f' t'" "(f', t') \<in> redirects str" for f' t'
  proof -
    have "100 \<le> f' \<and> f' \<le> 599 \<and> 100 \<le> t' \<and> t' \<le> 599"
      using that(2) key_range target_range by (auto simp: redirects_def)
    with show_redirect_inj [OF that(1)] assms show ?thesis by blast
  qed
  ultimately show ?thesis by (auto simp: NON_REDIRECTABLE_STATUS_CODES_def)
qed

subsection \<open>Properties\<close>

text \<open>The guard reports a redirect of one status code to another exactly when the edited
  mapping has it, the original mapping did not, and the redirected code is 504 or 524: no new
  risky redirect escapes the confirmation and none is asked for twice.\<close>

theorem new_redirects_exact:
  assumes "100 \<le> f" "f \<le> 599" "100 \<le> t" "t \<le> 599"
  shows "show_redirect f t \<in> set (collectNewDisallowedStatusCodeRedirects orig cur) \<longleftrightarrow>
    (f, t) \<in> redirects cur \<and> (f, t) \<notin> redirects orig \<and> (f = 504 \<or> f = 524) \<and> f \<noteq> t"
  using risky_iff [OF assms, of cur] risky_iff [OF assms, of orig]
  by (auto simp: collectNewDisallowedStatusCodeRedirects_def Let_def)

theorem new_redirects_exact_witness:
  "show_redirect 504 200 \<in> set (collectNewDisallowedStatusCodeRedirects '''' (CHR ''{'' # json_quote ''504'' @ '':200}''))"
proof -
  have "mapping_entries (CHR ''{'' # json_quote ''504'' @ '':200}'') = [(''504'', JNum (Fin 200))]"
    "mapping_entries '''' = []"
    "parseStatusCodeKey ''504'' = Some 504"
    "parseStatusCodeMappingTarget (JNum (Fin 200)) = Some 200" by code_simp+
  then have "(504, 200) \<in> redirects (CHR ''{'' # json_quote ''504'' @ '':200}'')"
    "(504, 200) \<notin> redirects ''''"
    unfolding redirects_def by auto
  then show ?thesis
    using new_redirects_exact [of 504 200 "''''" "CHR ''{'' # json_quote ''504'' @ '':200}''"] by simp
qed

text \<open>The list of risky redirects is sorted and free of repetitions, and so is the list of the
  new ones.\<close>

theorem redirects_sorted_distinct:
  "sorted_wrt js_str_le (collectNewDisallowedStatusCodeRedirects orig cur) \<and>
   distinct (collectNewDisallowedStatusCodeRedirects orig cur)"
  using str_order.sorted_sort_by [of "uniq (risky_mappings (mapping_entries cur))"]
  by (simp add: collectNewDisallowedStatusCodeRedirects_def Let_def
      collectDisallowedStatusCodeRedirects_def sorted_wrt_filter)

text \<open>An entry is either a redirect the guard can judge or is listed as invalid.\<close>

lemma invalid_entries_iff:
  "invalid_entries arrow kvs = Some l \<Longrightarrow> x \<in> set l \<longleftrightarrow>
     (\<exists>k v. (k, v) \<in> set kvs \<and> (parseStatusCodeKey k = None \<or> parseStatusCodeMappingTarget v = None) \<and>
        x = k @ arrow @ js_String v)"
proof (induction kvs arbitrary: l rule: invalid_entries.induct)
  case (2 arrow k v rest)
  then show ?case
    by (cases "parseStatusCodeKey k = None \<or> parseStatusCodeMappingTarget v = None") (fastforce split: if_splits)+
qed simp

lemma invalid_entries_none:
  "invalid_entries arrow kvs = Some [] \<longleftrightarrow>
     (\<forall>p \<in> set kvs. parseStatusCodeKey (fst p) \<noteq> None \<and> parseStatusCodeMappingTarget (snd p) \<noteq> None)"
  by (induction kvs rule: invalid_entries.induct) auto

theorem no_invalid_entries_all_redirects:
  "collectInvalidStatusCodeEntries arrow str = Some [] \<longleftrightarrow>
     (\<forall>p \<in> set (mapping_entries str). parseStatusCodeKey (fst p) \<noteq> None \<and> parseStatusCodeMappingTarget (snd p) \<noteq> None)"
  unfolding collectInvalidStatusCodeEntries_def by (rule invalid_entries_none)

end
