(* ===== verification/System_Config.thy ===== *)
theory System_Config
  imports Js_Number
begin

section \<open>The system configuration store\<close>

text \<open>
  Model of \<^verbatim>\<open>src/web/default/src/stores/system-config-store.ts\<close>: the persisted
  configuration of the console (name, logo, currency display) and the store's three setters.

  A configuration that was persisted by an older version may miss any property, so the stored
  currency is a record of optional properties (\<open>None\<close>: the property is absent); an object
  spread \<open>{...a, ...b}\<close> is the property-wise override \<open>over\<close>. The setters are the only
  writers of the store.
\<close>

datatype CurrencyDisplayType = USD | CNY | TOKENS | CUSTOM

record CreditDisplayConfig =
  enabled :: "bool option"
  label :: "jsstr option"
  quotaPerCredit :: "jsnum option"
  precision :: "jsnum option"

record CurrencyConfig =
  displayInCurrency :: "bool option"
  quotaDisplayType :: "CurrencyDisplayType option"
  quotaPerUnit :: "jsnum option"
  usdExchangeRate :: "jsnum option"
  customCurrencySymbol :: "jsstr option"
  customCurrencyExchangeRate :: "jsnum option"
  creditDisplay :: "CreditDisplayConfig option"

record SystemConfig =
  systemName :: "jsstr option"
  logo :: "jsstr option"
  footerHtml :: "jsstr option"
  demoSiteEnabled :: "bool option"
  displayTokenStatEnabled :: "bool option"
  currency :: "CurrencyConfig option"

definition DEFAULT_CREDIT_DISPLAY :: CreditDisplayConfig where
  "DEFAULT_CREDIT_DISPLAY = \<lparr>enabled = Some True, label = Some ''Credits'',
     quotaPerCredit = Some (num 5000), precision = Some (num 2)\<rparr>"

definition DEFAULT_CURRENCY_CONFIG :: CurrencyConfig where
  "DEFAULT_CURRENCY_CONFIG = \<lparr>displayInCurrency = Some True, quotaDisplayType = Some USD,
     quotaPerUnit = Some (num 500000), usdExchangeRate = Some (num 1),
     customCurrencySymbol = Some [CHR 0xA4], customCurrencyExchangeRate = Some (num 1),
     creditDisplay = Some DEFAULT_CREDIT_DISPLAY\<rparr>"

subsection \<open>Object spread\<close>

definition over :: "'a option \<Rightarrow> 'a option \<Rightarrow> 'a option" where
  "over old new = (case new of None \<Rightarrow> old | Some v \<Rightarrow> Some v)"

definition empty_credit :: CreditDisplayConfig where
  "empty_credit = \<lparr>enabled = None, label = None, quotaPerCredit = None, precision = None\<rparr>"

definition empty_currency :: CurrencyConfig where
  "empty_currency = \<lparr>displayInCurrency = None, quotaDisplayType = None, quotaPerUnit = None,
     usdExchangeRate = None, customCurrencySymbol = None, customCurrencyExchangeRate = None,
     creditDisplay = None\<rparr>"

definition spread_credit :: "CreditDisplayConfig \<Rightarrow> CreditDisplayConfig \<Rightarrow> CreditDisplayConfig" where
  "spread_credit a b = \<lparr>enabled = over (enabled a) (enabled b), label = over (label a) (label b),
     quotaPerCredit = over (quotaPerCredit a) (quotaPerCredit b),
     precision = over (precision a) (precision b)\<rparr>"

definition spread_currency :: "CurrencyConfig \<Rightarrow> CurrencyConfig \<Rightarrow> CurrencyConfig" where
  "spread_currency a b = \<lparr>
     displayInCurrency = over (displayInCurrency a) (displayInCurrency b),
     quotaDisplayType = over (quotaDisplayType a) (quotaDisplayType b),
     quotaPerUnit = over (quotaPerUnit a) (quotaPerUnit b),
     usdExchangeRate = over (usdExchangeRate a) (usdExchangeRate b),
     customCurrencySymbol = over (customCurrencySymbol a) (customCurrencySymbol b),
     customCurrencyExchangeRate = over (customCurrencyExchangeRate a) (customCurrencyExchangeRate b),
     creditDisplay = over (creditDisplay a) (creditDisplay b)\<rparr>"

definition credit_of :: "CurrencyConfig option \<Rightarrow> CreditDisplayConfig" where
  \<comment> \<open>\<open>c?.creditDisplay ?? {}\<close>\<close>
  "credit_of c = (case c of None \<Rightarrow> empty_credit
     | Some c \<Rightarrow> (case creditDisplay c of None \<Rightarrow> empty_credit | Some d \<Rightarrow> d))"

definition opt_currency :: "CurrencyConfig option \<Rightarrow> CurrencyConfig" where
  "opt_currency c = (case c of None \<Rightarrow> empty_currency | Some c \<Rightarrow> c)"

subsection \<open>The store\<close>

record SystemConfigState =
  config :: SystemConfig
  loading :: bool
  loadedLogoUrl :: jsstr

definition DEFAULT_SYSTEM_NAME :: jsstr where "DEFAULT_SYSTEM_NAME = ''KittyVibe''"
definition DEFAULT_LOGO :: jsstr where "DEFAULT_LOGO = ''/logo.png''"

definition initSystemConfig :: SystemConfigState where
  "initSystemConfig = \<lparr>config = \<lparr>systemName = Some DEFAULT_SYSTEM_NAME, logo = Some DEFAULT_LOGO,
       footerHtml = None, demoSiteEnabled = None, displayTokenStatEnabled = None,
       currency = Some DEFAULT_CURRENCY_CONFIG\<rparr>,
     loading = True, loadedLogoUrl = DEFAULT_LOGO\<rparr>"

definition merge_config :: "SystemConfig \<Rightarrow> SystemConfig \<Rightarrow> SystemConfig" where
  "merge_config old new = \<lparr>
     systemName = over (systemName old) (systemName new),
     logo = over (logo old) (logo new),
     footerHtml = over (footerHtml old) (footerHtml new),
     demoSiteEnabled = over (demoSiteEnabled old) (demoSiteEnabled new),
     displayTokenStatEnabled = over (displayTokenStatEnabled old) (displayTokenStatEnabled new),
     currency = Some ((spread_currency (opt_currency (currency old)) (opt_currency (currency new)))
       \<lparr>creditDisplay := Some (spread_credit (credit_of (currency old)) (credit_of (currency new)))\<rparr>)\<rparr>"

definition setConfig :: "SystemConfig \<Rightarrow> SystemConfigState \<Rightarrow> SystemConfigState" where
  "setConfig newConfig st = st\<lparr>config := merge_config (config st) newConfig\<rparr>"

definition setLoadedLogoUrl :: "jsstr \<Rightarrow> SystemConfigState \<Rightarrow> SystemConfigState" where
  "setLoadedLogoUrl url st = st\<lparr>loadedLogoUrl := url\<rparr>"

definition setLoading :: "bool \<Rightarrow> SystemConfigState \<Rightarrow> SystemConfigState" where
  "setLoading b st = st\<lparr>loading := b\<rparr>"

definition getSystemName :: "SystemConfigState \<Rightarrow> jsstr option" where
  "getSystemName st = systemName (config st)"

definition getLogo :: "SystemConfigState \<Rightarrow> jsstr option" where
  "getLogo st = logo (config st)"

definition getFooterHtml :: "SystemConfigState \<Rightarrow> jsstr option" where
  "getFooterHtml st = footerHtml (config st)"

datatype config_event = SetConfig SystemConfig | SetLoadedLogoUrl jsstr | SetLoading bool

fun config_step :: "config_event \<Rightarrow> SystemConfigState \<Rightarrow> SystemConfigState" where
  "config_step (SetConfig c) st = setConfig c st"
| "config_step (SetLoadedLogoUrl u) st = setLoadedLogoUrl u st"
| "config_step (SetLoading b) st = setLoading b st"

lemma over_simps [simp]: "over a None = a" "over a (Some v) = Some v" "over None b = b"
  by (auto simp: over_def split: option.splits)

lemma over_Some_iff: "over a b \<noteq> None \<longleftrightarrow> a \<noteq> None \<or> b \<noteq> None"
  by (auto simp: over_def split: option.splits)

lemma over_Some_ex [simp]: "\<exists>v. over (Some y) b = Some v"
  by (cases b) auto

lemma over_assoc: "over (over a b) c = over a (over b c)"
  by (auto simp: over_def split: option.splits)

lemma spread_credit_assoc: "spread_credit (spread_credit a b) c = spread_credit a (spread_credit b c)"
  by (simp add: spread_credit_def over_assoc)

lemma spread_credit_empty [simp]: "spread_credit a empty_credit = a" "spread_credit empty_credit a = a"
  by (simp_all add: spread_credit_def empty_credit_def)

lemma spread_currency_empty [simp]: "spread_currency a empty_currency = a"
  by (simp add: spread_currency_def empty_currency_def)

text \<open>Every property of the stored currency that a fresh store has is present.\<close>

definition complete_credit :: "CreditDisplayConfig \<Rightarrow> bool" where
  "complete_credit d \<longleftrightarrow> enabled d \<noteq> None \<and> label d \<noteq> None \<and> quotaPerCredit d \<noteq> None \<and> precision d \<noteq> None"

definition complete_currency :: "CurrencyConfig \<Rightarrow> bool" where
  "complete_currency c \<longleftrightarrow> displayInCurrency c \<noteq> None \<and> quotaDisplayType c \<noteq> None \<and>
     quotaPerUnit c \<noteq> None \<and> usdExchangeRate c \<noteq> None \<and> customCurrencySymbol c \<noteq> None \<and>
     customCurrencyExchangeRate c \<noteq> None \<and>
     (case creditDisplay c of None \<Rightarrow> False | Some d \<Rightarrow> complete_credit d)"

definition complete_state :: "SystemConfigState \<Rightarrow> bool" where
  "complete_state st \<longleftrightarrow> systemName (config st) \<noteq> None \<and> logo (config st) \<noteq> None \<and>
     (case currency (config st) of None \<Rightarrow> False | Some c \<Rightarrow> complete_currency c)"

lemma complete_spread_credit: "complete_credit a \<Longrightarrow> complete_credit (spread_credit a b)"
  by (auto simp: complete_credit_def spread_credit_def over_def split: option.splits)

lemma complete_spread_currency:
  "complete_currency a \<Longrightarrow> complete_credit d \<Longrightarrow>
     complete_currency ((spread_currency a b)\<lparr>creditDisplay := Some d\<rparr>)"
  by (auto simp: complete_currency_def spread_currency_def over_def split: option.splits)

lemma setConfig_complete:
  assumes "complete_state st" shows "complete_state (setConfig c st)"
proof -
  obtain cur where cur: "currency (config st) = Some cur" and c1: "complete_currency cur"
    using assms by (auto simp: complete_state_def split: option.splits)
  have "complete_credit (credit_of (Some cur))"
    using c1 by (auto simp: complete_currency_def credit_of_def split: option.splits)
  then have "complete_credit (spread_credit (credit_of (Some cur)) (credit_of (currency c)))"
    by (rule complete_spread_credit)
  with complete_spread_currency [OF c1 this, of "opt_currency (currency c)"] assms cur
  show ?thesis
    by (auto simp: complete_state_def setConfig_def merge_config_def opt_currency_def)
qed

interpretation config_store: event_machine config_step complete_state
proof
  fix s e assume "complete_state s"
  then show "complete_state (config_step e s)"
    by (cases e; simp add: setConfig_complete)
      (simp_all add: setLoadedLogoUrl_def setLoading_def complete_state_def)
qed

text \<open>Starting from the initial store, every property of the name, the logo and the currency
  configuration (the credit display included) is still present after any sequence of the
  store's setters, however partial the configurations passed to \<open>setConfig\<close> are.\<close>

theorem config_store_complete: "complete_state (fold config_step es initSystemConfig)"
  by (rule config_store.run_inv)
    (simp add: complete_state_def initSystemConfig_def DEFAULT_CURRENCY_CONFIG_def
      complete_currency_def DEFAULT_CREDIT_DISPLAY_def complete_credit_def)

text \<open>\<open>setConfig\<close> overrides exactly the properties the partial configuration carries: two
  updates in a row leave the credit display as one update with both overrides would, and a
  property the update does not mention keeps its value.\<close>

theorem setConfig_merge:
  "credit_of (currency (config (setConfig b (setConfig a st)))) =
     spread_credit (credit_of (currency (config st)))
       (spread_credit (credit_of (currency a)) (credit_of (currency b))) \<and>
   systemName (config (setConfig b (setConfig a st))) =
     over (systemName (config st)) (over (systemName a) (systemName b)) \<and>
   loading (setConfig a st) = loading st \<and> loadedLogoUrl (setConfig a st) = loadedLogoUrl st"
  by (simp add: setConfig_def merge_config_def credit_of_def spread_credit_assoc over_assoc
      split: option.splits)

end
