(* ===== verification/Currency.thy ===== *)
theory Currency
  imports System_Config
begin

section \<open>Currency, quota and credit display\<close>

text \<open>
  Model of \<^verbatim>\<open>src/web/default/src/lib/currency.ts\<close> and of the quota conversions of
  \<^verbatim>\<open>src/web/default/src/lib/format.ts\<close>: resolving the stored configuration, choosing
  the display (currency, custom currency, tokens or credits), and formatting and parsing
  amounts, with binary64 arithmetic.

  \<open>Intl.NumberFormat\<close> with the host's locale is a parameter: \<open>icurrency intl code d x\<close>
  is the output of the currency formatter with at most \<open>d\<close> fraction digits and
  \<open>idecimal intl d x\<close> that of the plain one. \<open>Math.pow(10, -d)\<close> is the correctly rounded
  power. A fraction-digit option is a natural number.
\<close>

record Intl =
  icurrency :: "jsstr \<Rightarrow> nat \<Rightarrow> jsnum \<Rightarrow> jsstr"
  idecimal :: "nat \<Rightarrow> jsnum \<Rightarrow> jsstr"

record CurrencyFormatOptions =
  o_digitsLarge :: "nat option"
  o_digitsSmall :: "nat option"
  o_abbreviate :: "bool option"
  o_minimumNonZero :: "jsnum option"
  o_useCreditDisplay :: "bool option"

record FormatOptions =
  digitsLarge :: nat
  digitsSmall :: nat
  abbreviate :: bool
  minimumNonZero :: jsnum
  useCreditDisplay :: bool

datatype DisplayMeta =
    CurrencyMeta (meta_symbol: jsstr) jsstr (meta_rate: jsnum)
  | CustomMeta (meta_symbol: jsstr) (meta_rate: jsnum)
  | TokensMeta jsnum

definition DEFAULT_FORMAT_OPTIONS :: FormatOptions where
  "DEFAULT_FORMAT_OPTIONS = \<lparr>digitsLarge = 2, digitsSmall = 4, abbreviate = True,
     minimumNonZero = num 0, useCreditDisplay = True\<rparr>"

definition isCurrencyDisplayType :: "jsstr \<Rightarrow> bool" where
  "isCurrencyDisplayType v \<longleftrightarrow> v \<in> {''USD'', ''CNY'', ''TOKENS'', ''CUSTOM''}"

definition display_type_of :: "jsstr \<Rightarrow> CurrencyDisplayType" where
  "display_type_of v = (if v = ''USD'' then USD else if v = ''CNY'' then CNY
     else if v = ''TOKENS'' then TOKENS else CUSTOM)"

definition parseCurrencyDisplayType :: "jsstr option \<Rightarrow> CurrencyDisplayType \<Rightarrow> CurrencyDisplayType" where
  "parseCurrencyDisplayType v fallback = (case v of None \<Rightarrow> fallback
     | Some s \<Rightarrow> if isCurrencyDisplayType s then display_type_of s else fallback)"

subsection \<open>Resolving the stored configuration\<close>

record ResolvedCurrency =
  r_displayInCurrency :: bool
  r_quotaDisplayType :: CurrencyDisplayType
  r_quotaPerUnit :: jsnum
  r_usdExchangeRate :: jsnum
  r_customCurrencySymbol :: jsstr
  r_customCurrencyExchangeRate :: jsnum
  r_creditEnabled :: bool
  r_creditLabel :: jsstr
  r_quotaPerCredit :: jsnum
  r_creditPrecision :: nat

definition pos_or :: "jsnum option \<Rightarrow> jsnum \<Rightarrow> jsnum" where
  \<comment> \<open>\<open>x && x > 0 ? x : d\<close>\<close>
  "pos_or x d = (case x of None \<Rightarrow> d | Some v \<Rightarrow> if js_truthy_num v \<and> js_gt v (num 0) then v else d)"

definition trim_or :: "jsstr option \<Rightarrow> jsstr \<Rightarrow> jsstr" where
  \<comment> \<open>\<open>s?.trim() || d\<close>\<close>
  "trim_or s d = (case s of None \<Rightarrow> d | Some v \<Rightarrow> if js_trim v = [] then d else js_trim v)"

definition clamp_precision :: "jsnum option \<Rightarrow> nat" where
  "clamp_precision p = (case p of
       Some (Fin r) \<Rightarrow> if r \<ge> 0 then nat (min \<lfloor>r\<rfloor> 6) else 2
     | _ \<Rightarrow> 2)"

definition getConfig :: "SystemConfigState \<Rightarrow> ResolvedCurrency" where
  "getConfig st =
     (let cur = (case currency (config st) of None \<Rightarrow> DEFAULT_CURRENCY_CONFIG | Some c \<Rightarrow> c);
          cd = spread_credit DEFAULT_CREDIT_DISPLAY (credit_of (Some cur)) in
      \<lparr>r_displayInCurrency = (case displayInCurrency cur of None \<Rightarrow> True | Some b \<Rightarrow> b),
       r_quotaDisplayType = (case quotaDisplayType cur of None \<Rightarrow> USD | Some d \<Rightarrow> d),
       r_quotaPerUnit = pos_or (quotaPerUnit cur) (num 500000),
       r_usdExchangeRate = pos_or (usdExchangeRate cur) (num 1),
       r_customCurrencySymbol = trim_or (customCurrencySymbol cur) [CHR 0xA4],
       r_customCurrencyExchangeRate = pos_or (customCurrencyExchangeRate cur) (num 1),
       r_creditEnabled = (case enabled cd of None \<Rightarrow> False | Some b \<Rightarrow> b),
       r_creditLabel = trim_or (label cd) ''Credits'',
       r_quotaPerCredit = pos_or (quotaPerCredit cd) (num 5000),
       r_creditPrecision = clamp_precision (precision cd)\<rparr>)"

subsection \<open>Choosing the display\<close>

definition usd_meta :: DisplayMeta where
  "usd_meta = CurrencyMeta ''$'' ''USD'' (num 1)"

definition getDisplayMeta :: "ResolvedCurrency \<Rightarrow> DisplayMeta" where
  "getDisplayMeta cfg = (case r_quotaDisplayType cfg of
       CNY \<Rightarrow> CurrencyMeta [CHR 0xA5] ''CNY'' (r_usdExchangeRate cfg)
     | CUSTOM \<Rightarrow> CustomMeta (r_customCurrencySymbol cfg) (r_customCurrencyExchangeRate cfg)
     | TOKENS \<Rightarrow> TokensMeta (r_quotaPerUnit cfg)
     | USD \<Rightarrow> usd_meta)"

definition getBillingDisplayMeta :: "ResolvedCurrency \<Rightarrow> DisplayMeta" where
  "getBillingDisplayMeta cfg = (case getDisplayMeta cfg of TokensMeta _ \<Rightarrow> usd_meta | m \<Rightarrow> m)"

definition orElse :: "'a option \<Rightarrow> 'a \<Rightarrow> 'a" where
  "orElse x d = (case x of None \<Rightarrow> d | Some v \<Rightarrow> v)"

definition mergeOptions :: "CurrencyFormatOptions option \<Rightarrow> FormatOptions" where
  "mergeOptions opts = (case opts of None \<Rightarrow> DEFAULT_FORMAT_OPTIONS
     | Some o' \<Rightarrow> \<lparr>digitsLarge = orElse (o_digitsLarge o') 2, digitsSmall = orElse (o_digitsSmall o') 4,
         abbreviate = orElse (o_abbreviate o') True,
         minimumNonZero = orElse (o_minimumNonZero o') (num 0),
         useCreditDisplay = orElse (o_useCreditDisplay o') True\<rparr>)"

definition shouldUseCreditDisplay :: "ResolvedCurrency \<Rightarrow> CurrencyFormatOptions option \<Rightarrow> bool" where
  "shouldUseCreditDisplay cfg opts \<longleftrightarrow>
     (case opts of None \<Rightarrow> True | Some o' \<Rightarrow> o_useCreditDisplay o' \<noteq> Some False) \<and>
     r_creditEnabled cfg \<and> js_gt (r_quotaPerCredit cfg) (num 0)"

definition getCurrencyDisplay :: "SystemConfigState \<Rightarrow> ResolvedCurrency \<times> DisplayMeta" where
  "getCurrencyDisplay st = (let cfg = getConfig st in (cfg, getDisplayMeta cfg))"

subsection \<open>Formatting\<close>

text \<open>\<open>str.replace(/(\.[0-9]*?)0+$/, '$1')\<close>: at the leftmost point that only digits follow,
  the last of them a zero, the trailing zeros go.\<close>

fun strip_frac_zeros :: "jsstr \<Rightarrow> jsstr" where
  "strip_frac_zeros [] = []"
| "strip_frac_zeros (c # cs) =
     (if c = CHR ''.'' \<and> cs \<noteq> [] \<and> (\<forall>d \<in> set cs. is_digit d) \<and> last cs = CHR ''0''
      then c # rev (dropWhile (\<lambda>d. d = CHR ''0'') (rev cs))
      else c # strip_frac_zeros cs)"

definition strip_dot :: "jsstr \<Rightarrow> jsstr" where
  \<comment> \<open>\<open>str.replace(/\.$/, '')\<close>\<close>
  "strip_dot s = (if s \<noteq> [] \<and> last s = CHR ''.'' then butlast s else s)"

definition removeTrailingZeros :: "jsstr \<Rightarrow> jsstr" where
  "removeTrailingZeros s = (if \<not> js_includes s ''.'' then s else strip_dot (strip_frac_zeros s))"

definition formatNumberWithSuffix :: "jsnum \<Rightarrow> nat \<Rightarrow> nat \<Rightarrow> bool \<Rightarrow> jsstr" where
  "formatNumberWithSuffix v dLarge dSmall abbr =
     (let a = js_abs v in
      if abbr \<and> js_ge a (num 1000)
      then removeTrailingZeros (js_toFixed (js_div v (num 1000)) 1) @ ''k''
      else removeTrailingZeros (js_toFixed v (if js_ge a (num 1) then dLarge else dSmall)))"

definition adjustForMinimum :: "jsnum \<Rightarrow> nat \<Rightarrow> jsnum \<Rightarrow> jsnum" where
  "adjustForMinimum v digits minNonZero =
     (if js_eq v (num 0) then v
      else (let threshold = (if js_gt minNonZero (num 0) then minNonZero else fl (1 / 10 ^ digits));
                a = js_abs v in
            if js_gt a (num 0) \<and> js_lt a threshold
            then (if js_gt v (num 0) then threshold else js_neg threshold)
            else v))"

definition formatCurrencyValue :: "Intl \<Rightarrow> jsnum \<Rightarrow> FormatOptions \<Rightarrow> DisplayMeta \<Rightarrow> jsstr" where
  "formatCurrencyValue intl v opts meta =
     (let digits = (if js_ge (js_abs v) (num 1) then digitsLarge opts else digitsSmall opts);
          adjusted = adjustForMinimum v digits (minimumNonZero opts) in
      case meta of
        TokensMeta _ \<Rightarrow> formatNumberWithSuffix v (digitsLarge opts) (digitsSmall opts) (abbreviate opts)
      | CurrencyMeta _ code _ \<Rightarrow> icurrency intl code digits adjusted
      | CustomMeta symbol _ \<Rightarrow> symbol @ idecimal intl digits adjusted)"

definition formatQuotaAsCredits ::
  "SystemConfigState \<Rightarrow> jsnum option \<Rightarrow> CurrencyFormatOptions option \<Rightarrow> jsstr" where
  "formatQuotaAsCredits st quota opts = (case quota of
       None \<Rightarrow> ''-''
     | Some q \<Rightarrow> if js_isNaN q then ''-''
         else (let cfg = getConfig st; credits = js_div q (r_quotaPerCredit cfg);
                   prec = (case opts of None \<Rightarrow> r_creditPrecision cfg
                     | Some o' \<Rightarrow> orElse (o_digitsLarge o') (r_creditPrecision cfg)) in
               removeTrailingZeros (js_toFixed credits prec) @ '' '' @ r_creditLabel cfg))"

definition formatCurrencyFromUSD ::
  "Intl \<Rightarrow> SystemConfigState \<Rightarrow> jsnum option \<Rightarrow> CurrencyFormatOptions option \<Rightarrow> jsstr" where
  "formatCurrencyFromUSD intl st amount opts = (case amount of
       None \<Rightarrow> ''-''
     | Some a \<Rightarrow> if js_isNaN a then ''-''
         else (let (cfg, meta) = getCurrencyDisplay st; merged = mergeOptions opts in
               case meta of
                 TokensMeta _ \<Rightarrow> formatNumberWithSuffix (js_mul a (r_quotaPerUnit cfg)) 0
                     (digitsSmall merged) (abbreviate merged)
               | CurrencyMeta _ _ rate \<Rightarrow> formatCurrencyValue intl (js_mul a rate) merged meta
               | CustomMeta _ rate \<Rightarrow> formatCurrencyValue intl (js_mul a rate) merged meta))"

definition formatBillingCurrencyFromUSD ::
  "Intl \<Rightarrow> SystemConfigState \<Rightarrow> jsnum option \<Rightarrow> CurrencyFormatOptions option \<Rightarrow> jsstr" where
  "formatBillingCurrencyFromUSD intl st amount opts = (case amount of
       None \<Rightarrow> ''-''
     | Some a \<Rightarrow> if js_isNaN a then ''-''
         else (let (cfg, _) = getCurrencyDisplay st; meta = getBillingDisplayMeta cfg;
                   merged = mergeOptions opts;
                   v = (case meta of CurrencyMeta _ _ rate \<Rightarrow> js_mul a rate
                          | CustomMeta _ rate \<Rightarrow> js_mul a rate | TokensMeta _ \<Rightarrow> a) in
               formatCurrencyValue intl v merged meta))"

definition formatQuotaWithCurrency ::
  "Intl \<Rightarrow> SystemConfigState \<Rightarrow> jsnum option \<Rightarrow> CurrencyFormatOptions option \<Rightarrow> jsstr" where
  "formatQuotaWithCurrency intl st quota opts = (case quota of
       None \<Rightarrow> ''-''
     | Some q \<Rightarrow> if js_isNaN q then ''-''
         else (let (cfg, _) = getCurrencyDisplay st in
               if shouldUseCreditDisplay cfg opts then formatQuotaAsCredits st quota opts
               else formatCurrencyFromUSD intl st (Some (js_div q (r_quotaPerUnit cfg))) opts))"

definition getCurrencyLabel :: "SystemConfigState \<Rightarrow> jsstr" where
  "getCurrencyLabel st = (let (cfg, meta) = getCurrencyDisplay st in
     if shouldUseCreditDisplay cfg None then r_creditLabel cfg
     else (case meta of TokensMeta _ \<Rightarrow> ''Tokens''
       | _ \<Rightarrow> (case r_quotaDisplayType cfg of
             CNY \<Rightarrow> ''CNY''
           | CUSTOM \<Rightarrow> (case meta of CustomMeta symbol _ \<Rightarrow> symbol | _ \<Rightarrow> ''Custom'')
           | _ \<Rightarrow> ''USD'')))"

definition isCurrencyDisplayEnabled :: "SystemConfigState \<Rightarrow> bool" where
  "isCurrencyDisplayEnabled st = (let (cfg, meta) = getCurrencyDisplay st in
     if shouldUseCreditDisplay cfg None then True
     else (case meta of TokensMeta _ \<Rightarrow> False | _ \<Rightarrow> True))"

definition formatPaymentGatewayAmount ::
  "Intl \<Rightarrow> SystemConfigState \<Rightarrow> jsnum option \<Rightarrow> CurrencyFormatOptions option \<Rightarrow> jsstr" where
  "formatPaymentGatewayAmount intl st amount opts = (case amount of
       None \<Rightarrow> ''-''
     | Some a \<Rightarrow> if js_isNaN a then ''-''
         else (let (cfg, _) = getCurrencyDisplay st; merged = mergeOptions opts;
                   meta = (if r_quotaDisplayType cfg = USD \<and> js_truthy_num (r_usdExchangeRate cfg) \<and>
                              \<not> js_eq (r_usdExchangeRate cfg) (num 1)
                           then CurrencyMeta [CHR 0xA5] ''CNY'' (num 1)
                           else getBillingDisplayMeta cfg) in
               formatCurrencyValue intl a merged meta))"

definition formatLocalCurrencyAmount ::
  "Intl \<Rightarrow> SystemConfigState \<Rightarrow> jsnum option \<Rightarrow> CurrencyFormatOptions option \<Rightarrow> jsstr" where
  "formatLocalCurrencyAmount intl st amount opts = (case amount of
       None \<Rightarrow> ''-''
     | Some a \<Rightarrow> if js_isNaN a then ''-''
         else (let (cfg, _) = getCurrencyDisplay st in
               formatCurrencyValue intl a (mergeOptions opts) (getBillingDisplayMeta cfg)))"

subsection \<open>Quota units and display amounts\<close>

definition meta_exchange :: "DisplayMeta \<Rightarrow> jsnum" where
  "meta_exchange meta = (case meta of CurrencyMeta _ _ r \<Rightarrow> r | CustomMeta _ r \<Rightarrow> r | TokensMeta _ \<Rightarrow> num 1)"

definition parseQuotaFromDollars :: "SystemConfigState \<Rightarrow> jsnum \<Rightarrow> jsnum" where
  "parseQuotaFromDollars st amount =
     (if \<not> js_isFinite amount then num 0
      else (let (cfg, meta) = getCurrencyDisplay st in
        if r_creditEnabled cfg \<and> js_gt (r_quotaPerCredit cfg) (num 0)
        then js_round (js_mul amount (r_quotaPerCredit cfg))
        else (case meta of TokensMeta _ \<Rightarrow> js_round amount
          | _ \<Rightarrow> (let rate = meta_exchange meta;
                      usd = (if js_gt rate (num 0) then js_div amount rate else amount) in
                  js_round (js_mul usd (r_quotaPerUnit cfg))))))"

definition quotaUnitsToDollars :: "SystemConfigState \<Rightarrow> jsnum \<Rightarrow> jsnum" where
  "quotaUnitsToDollars st units =
     (let (cfg, meta) = getCurrencyDisplay st in
      if r_creditEnabled cfg \<and> js_gt (r_quotaPerCredit cfg) (num 0)
      then js_div units (r_quotaPerCredit cfg)
      else (case meta of TokensMeta _ \<Rightarrow> units
        | _ \<Rightarrow> js_mul (js_div units (r_quotaPerUnit cfg)) (meta_exchange meta)))"

definition opts3 :: "nat \<Rightarrow> nat \<Rightarrow> bool \<Rightarrow> CurrencyFormatOptions" where
  "opts3 dl ds ab = \<lparr>o_digitsLarge = Some dl, o_digitsSmall = Some ds, o_abbreviate = Some ab,
     o_minimumNonZero = None, o_useCreditDisplay = None\<rparr>"

definition formatQuota :: "Intl \<Rightarrow> SystemConfigState \<Rightarrow> jsnum \<Rightarrow> jsstr" where
  "formatQuota intl st q = formatQuotaWithCurrency intl st (Some q) (Some (opts3 2 4 True))"

definition formatQuotaInternal :: "Intl \<Rightarrow> SystemConfigState \<Rightarrow> jsnum \<Rightarrow> jsstr" where
  "formatQuotaInternal intl st q = formatQuotaWithCurrency intl st (Some q)
     (Some ((opts3 2 4 True)\<lparr>o_useCreditDisplay := Some False\<rparr>))"

definition formatLogQuota :: "Intl \<Rightarrow> SystemConfigState \<Rightarrow> jsnum \<Rightarrow> jsstr" where
  "formatLogQuota intl st q = formatQuotaWithCurrency intl st (Some q) (Some (opts3 4 6 False))"

definition formatCurrencyUSD :: "Intl \<Rightarrow> SystemConfigState \<Rightarrow> jsnum option \<Rightarrow> jsstr" where
  "formatCurrencyUSD intl st v = formatCurrencyFromUSD intl st v None"

subsection \<open>What a resolved configuration satisfies\<close>

definition valid_resolved :: "ResolvedCurrency \<Rightarrow> bool" where
  "valid_resolved cfg \<longleftrightarrow> js_gt (r_quotaPerUnit cfg) (num 0) \<and> js_gt (r_usdExchangeRate cfg) (num 0) \<and>
     js_gt (r_customCurrencyExchangeRate cfg) (num 0) \<and> js_gt (r_quotaPerCredit cfg) (num 0) \<and>
     r_customCurrencySymbol cfg \<noteq> [] \<and> r_creditLabel cfg \<noteq> [] \<and> r_creditPrecision cfg \<le> 6"

lemma pos_or_pos: "js_gt d (Fin 0) \<Longrightarrow> js_gt (pos_or x d) (Fin 0)"
  by (auto simp: pos_or_def split: option.splits)

lemma trim_or_neq_Nil: "d \<noteq> [] \<Longrightarrow> trim_or s d \<noteq> []"
  by (auto simp: trim_or_def split: option.splits)

lemma clamp_precision_le: "clamp_precision p \<le> 6"
  by (auto simp: clamp_precision_def split: option.splits jsnum.splits)

lemma getConfig_valid: "valid_resolved (getConfig st)"
  by (simp add: valid_resolved_def getConfig_def Let_def pos_or_pos trim_or_neq_Nil clamp_precision_le)

text \<open>Whatever the store holds, also a partial or corrupt persisted configuration (a zero, negative,
  infinite or missing rate, a blank symbol, a fractional or negative precision), the resolved
  configuration has positive rates and units, a non-empty symbol and label, and at most six
  fraction digits for credits.\<close>

theorem getConfig_sane:
  "js_gt (r_quotaPerUnit (getConfig st)) (num 0) \<and> js_gt (r_usdExchangeRate (getConfig st)) (num 0) \<and>
   js_gt (r_customCurrencyExchangeRate (getConfig st)) (num 0) \<and>
   js_gt (r_quotaPerCredit (getConfig st)) (num 0) \<and>
   r_customCurrencySymbol (getConfig st) \<noteq> [] \<and> r_creditLabel (getConfig st) \<noteq> [] \<and>
   r_creditPrecision (getConfig st) \<le> 6"
  using getConfig_valid [of st] by (simp add: valid_resolved_def)

subsection \<open>Quota units survive the display conversion\<close>

lemma js_round_num [simp]: "js_round (num u) = num u"
proof -
  have "\<lfloor>(of_int u + 1/2 :: rat)\<rfloor> = u" by (rule floor_unique) auto
  then show ?thesis by (simp add: js_round_def)
qed

lemma js_round_zero [simp]: "js_round (Fin 0) = Fin 0"
  using js_round_num [of 0] by simp

text \<open>The conversion of an integer through one division and one multiplication, or through two of
  each, both rounded, comes back exactly.\<close>

lemma div_mul_round:
  assumes "\<bar>u\<bar> \<le> 2 ^ 48" "bnd 200 q"
  shows "\<exists>a. js_div (num u) (Fin q) = Fin a \<and> js_round (js_mul (Fin a) (Fin q)) = num u"
proof (cases "u = 0")
  case True
  then show ?thesis using bnd_nonzero [OF assms(2)] by (simp add: fl_def)
next
  case False
  have q0: "q \<noteq> 0" using assms(2) by (rule bnd_nonzero)
  have bu: "bnd 48 (of_int u)" by (rule bnd_int [OF False assms(1)])
  have "bnd (48 + 200) (of_int u / q)" by (rule bnd_divide [OF bu assms(2)])
  then have b1: "bnd 900 (of_int u / q)" by (rule bnd_mono) simp
  have b2: "bnd 900 (of_int u)" using bu by (rule bnd_mono) simp
  obtain a where a: "fl (of_int u / q) = Fin a" "rel (of_int u / q) a (0 + 2 powi (-52))"
    by (rule fl_rel [OF rel_refl _ _ b1]) auto
  have "rel (of_int u) (a * q) (2 powi (-52))" using rel_mult [OF a(2), of q] q0 by simp
  then obtain r where r: "fl (a * q) = Fin r" "rel (of_int u) r (2 powi (-52) + 2 powi (-52))"
    by (rule fl_rel [OF _ _ _ b2]) (auto simp: power_int_minus)
  have "js_round (Fin r) = num u"
    by (rule round_rel_int [OF r(2) _ assms(1)]) (simp add: power_int_minus)
  with a(1) r(1) q0 show ?thesis by simp
qed

lemma div_mul_div_mul_round:
  assumes "\<bar>u\<bar> \<le> 2 ^ 48" "bnd 200 q" "bnd 200 x"
  shows "\<exists>a b. js_mul (js_div (num u) (Fin q)) (Fin x) = Fin a \<and> js_div (Fin a) (Fin x) = Fin b \<and>
    js_round (js_mul (Fin b) (Fin q)) = num u"
proof (cases "u = 0")
  case True
  then show ?thesis using bnd_nonzero [OF assms(2)] bnd_nonzero [OF assms(3)]
    by (simp add: fl_def)
next
  case False
  have q0: "q \<noteq> 0" "x \<noteq> 0" using assms(2,3) by (auto dest: bnd_nonzero)
  have bu: "bnd 48 (of_int u)" by (rule bnd_int [OF False assms(1)])
  have c1: "bnd (48 + 200) (of_int u / q)" by (rule bnd_divide [OF bu assms(2)])
  then have b1: "bnd 900 (of_int u / q)" by (rule bnd_mono) simp
  have "bnd (48 + 200 + 200) (of_int u / q * x)" by (rule bnd_mult [OF c1 assms(3)])
  then have b2: "bnd 900 (of_int u / q * x)" by (rule bnd_mono) simp
  have b3: "bnd 900 (of_int u)" using bu by (rule bnd_mono) simp
  obtain d where d: "fl (of_int u / q) = Fin d" "rel (of_int u / q) d (0 + 2 powi (-52))"
    by (rule fl_rel [OF rel_refl _ _ b1]) auto
  obtain a where a: "fl (d * x) = Fin a" "rel (of_int u / q * x) a (2 powi (-52) + 2 powi (-52))"
    by (rule fl_rel [OF rel_mult [OF d(2)] _ _ b2]) (auto simp: power_int_minus)
  have "rel (of_int u / q) (a / x) (2 powi (-52) + 2 powi (-52))"
    using rel_divide [OF a(2), of x] q0 by simp
  then obtain b where b: "fl (a / x) = Fin b" "rel (of_int u / q) b (2 powi (-52) + 2 powi (-52) + 2 powi (-52))"
    by (rule fl_rel [OF _ _ _ b1]) (auto simp: power_int_minus)
  have "rel (of_int u) (b * q) (2 powi (-52) + 2 powi (-52) + 2 powi (-52))"
    using rel_mult [OF b(2), of q] q0 by simp
  then obtain r where r: "fl (b * q) = Fin r"
    "rel (of_int u) r (2 powi (-52) + 2 powi (-52) + 2 powi (-52) + 2 powi (-52))"
    by (rule fl_rel [OF _ _ _ b3]) (auto simp: power_int_minus)
  have "js_round (Fin r) = num u"
    by (rule round_rel_int [OF r(2) _ assms(1)]) (simp add: power_int_minus)
  with d(1) a(1) b(1) r(1) q0 show ?thesis by simp
qed

definition moderate :: "jsnum \<Rightarrow> bool" where
  "moderate x \<longleftrightarrow> (case x of Fin q \<Rightarrow> bnd 200 q | _ \<Rightarrow> False)"

lemma moderate_one: "moderate (num 1)"
  by (simp add: moderate_def bnd_def power_int_minus)

lemma moderateE: "moderate x \<Longrightarrow> (\<And>q. x = Fin q \<Longrightarrow> bnd 200 q \<Longrightarrow> P) \<Longrightarrow> P"
  by (cases x) (auto simp: moderate_def)

lemma meta_exchange_pos: "js_gt (meta_exchange (getDisplayMeta (getConfig st))) (num 0)"
  using getConfig_valid [of st]
  by (auto simp: meta_exchange_def getDisplayMeta_def usd_meta_def valid_resolved_def
      split: CurrencyDisplayType.splits)

definition sane_rates :: "SystemConfigState \<Rightarrow> bool" where
  "sane_rates st \<longleftrightarrow> moderate (r_quotaPerCredit (getConfig st)) \<and> moderate (r_quotaPerUnit (getConfig st)) \<and>
     moderate (r_usdExchangeRate (getConfig st)) \<and> moderate (r_customCurrencyExchangeRate (getConfig st))"

lemma sane_rates_meta: "sane_rates st \<Longrightarrow> moderate (meta_exchange (getDisplayMeta (getConfig st)))"
  by (auto simp: sane_rates_def meta_exchange_def getDisplayMeta_def usd_meta_def
      split: CurrencyDisplayType.splits) (use moderate_one in auto)

lemma quota_roundtrip:
  assumes "\<bar>u\<bar> \<le> 2 ^ 48" and "sane_rates st"
  shows "parseQuotaFromDollars st (quotaUnitsToDollars st (num u)) = num u"
proof -
  let ?cfg = "getConfig st" let ?meta = "getDisplayMeta ?cfg"
  obtain qc where qc: "r_quotaPerCredit ?cfg = Fin qc" "bnd 200 qc"
    using assms(2) by (auto simp: sane_rates_def elim: moderateE)
  obtain qu where qu: "r_quotaPerUnit ?cfg = Fin qu" "bnd 200 qu"
    using assms(2) by (auto simp: sane_rates_def elim: moderateE)
  obtain x where x: "meta_exchange ?meta = Fin x" "bnd 200 x"
    using sane_rates_meta [OF assms(2)] by (rule moderateE)
  have xpos: "js_gt (Fin x) (num 0)" using meta_exchange_pos [of st] x by simp
  obtain a where a: "js_div (num u) (Fin qc) = Fin a" "js_round (js_mul (Fin a) (Fin qc)) = num u"
    using div_mul_round [OF assms(1) qc(2)] by blast
  obtain b c where b: "js_mul (js_div (num u) (Fin qu)) (Fin x) = Fin b" "js_div (Fin b) (Fin x) = Fin c"
    "js_round (js_mul (Fin c) (Fin qu)) = num u"
    using div_mul_div_mul_round [OF assms(1) qu(2) x(2)] by blast
  show ?thesis
  proof (cases "r_creditEnabled ?cfg \<and> js_gt (r_quotaPerCredit ?cfg) (num 0)")
    case True
    then show ?thesis
      using a by (simp only: parseQuotaFromDollars_def quotaUnitsToDollars_def getCurrencyDisplay_def
          Let_def prod.case qc if_True js_isFinite_def jsnum.case not_True_eq_False if_False simp_thms)
  next
    case False
    note defs = parseQuotaFromDollars_def quotaUnitsToDollars_def getCurrencyDisplay_def
          Let_def prod.case if_False js_isFinite_def jsnum.case DisplayMeta.case
    show ?thesis
    proof (cases ?meta)
      case (CurrencyMeta s k r)
      with x have r: "r = Fin x" by (simp add: meta_exchange_def)
      show ?thesis
        using False b xpos qu(1) by (simp only: defs CurrencyMeta meta_exchange_def r if_True simp_thms)
    next
      case (CustomMeta s r)
      with x have r: "r = Fin x" by (simp add: meta_exchange_def)
      show ?thesis
        using False b xpos qu(1) by (simp only: defs CustomMeta meta_exchange_def r if_True simp_thms)
    next
      case (TokensMeta q)
      show ?thesis using False by (simp only: defs TokensMeta js_round_num simp_thms)
    qed
  qed
qed

text \<open>C1. Converting quota units to the displayed amount and parsing the amount back gives the same
  units, in every display mode (credits, tokens, USD, CNY, custom currency) and with the rounding
  of binary64 arithmetic taken into account, for every integer quota up to 2 to the power 48 in
  magnitude and every rate between 2 to the power -200 and 2 to the power 200.\<close>

theorem quota_display_roundtrip:
  assumes "\<bar>u\<bar> \<le> 2 ^ 48" and "sane_rates st"
  shows "parseQuotaFromDollars st (quotaUnitsToDollars st (num u)) = num u"
  by (rule quota_roundtrip [OF assms])

theorem quota_display_roundtrip_witness:
  "parseQuotaFromDollars initSystemConfig (quotaUnitsToDollars initSystemConfig (num 1234567)) = num 1234567"
proof (rule quota_display_roundtrip)
  have "bnd 200 5000" "bnd 200 500000" "bnd 200 1" by (simp_all add: bnd_def power_int_minus)
  then show "sane_rates initSystemConfig"
    by (simp add: sane_rates_def getConfig_def initSystemConfig_def DEFAULT_CURRENCY_CONFIG_def
        DEFAULT_CREDIT_DISPLAY_def credit_of_def spread_credit_def pos_or_def js_truthy_num_def moderate_def)
qed simp

subsection \<open>What the formatters show\<close>

lemma getBillingDisplayMeta_not_tokens: "getBillingDisplayMeta cfg \<noteq> TokensMeta q"
  by (auto simp: getBillingDisplayMeta_def usd_meta_def split: DisplayMeta.splits)

text \<open>The billing formatter never shows tokens: with the token display configured it formats the
  unconverted USD amount with the USD currency formatter, and in no configuration does it reach
  the token branch.\<close>

theorem billing_never_tokens:
  "(r_quotaDisplayType (getConfig st) = TOKENS \<longrightarrow>
      formatBillingCurrencyFromUSD intl st (Some (Fin a)) opts =
        formatCurrencyValue intl (fl a) (mergeOptions opts) (CurrencyMeta ''$'' ''USD'' (num 1))) \<and>
   getBillingDisplayMeta (getConfig st) \<noteq> TokensMeta q"
  by (auto simp: formatBillingCurrencyFromUSD_def getCurrencyDisplay_def getBillingDisplayMeta_def
      getDisplayMeta_def usd_meta_def js_isNaN_def Let_def split: CurrencyDisplayType.splits)

definition tokens_state :: SystemConfigState where
  "tokens_state = setConfig \<lparr>systemName = None, logo = None, footerHtml = None, demoSiteEnabled = None,
     displayTokenStatEnabled = None,
     currency = Some (empty_currency\<lparr>quotaDisplayType := Some TOKENS,
       creditDisplay := Some (empty_credit\<lparr>enabled := Some False\<rparr>)\<rparr>)\<rparr> initSystemConfig"

lemma getConfig_tokens_state:
  "getConfig tokens_state = \<lparr>r_displayInCurrency = True, r_quotaDisplayType = TOKENS,
     r_quotaPerUnit = Fin 500000, r_usdExchangeRate = Fin 1, r_customCurrencySymbol = [CHR 0xA4],
     r_customCurrencyExchangeRate = Fin 1, r_creditEnabled = False, r_creditLabel = ''Credits'',
     r_quotaPerCredit = Fin 5000, r_creditPrecision = 2\<rparr>"
  by code_simp

definition en_intl :: Intl where
  \<comment> \<open>a formatter without grouping, for concrete instances\<close>
  "en_intl = \<lparr>icurrency = (\<lambda>code d x. (if code = ''CNY'' then [CHR 0xA5] else ''$'') @
       removeTrailingZeros (js_toFixed x d)), idecimal = (\<lambda>d x. removeTrailingZeros (js_toFixed x d))\<rparr>"

theorem billing_never_tokens_witness:
  "formatBillingCurrencyFromUSD en_intl tokens_state (Some (Fin 10)) None =
     formatCurrencyValue en_intl (fl 10) DEFAULT_FORMAT_OPTIONS (CurrencyMeta ''$'' ''USD'' (num 1))"
  using billing_never_tokens [of tokens_state en_intl 10 None]
  by (simp add: getConfig_tokens_state mergeOptions_def)

text \<open>With the token display and 500000 units per USD, ten dollars are shown as \<open>5000k\<close>: the
  default options abbreviate thousands.\<close>

theorem tokens_display_abbreviates:
  "formatCurrencyFromUSD intl tokens_state (Some (num 10)) None = ''5000k''"
proof -
  have "formatNumberWithSuffix (js_mul (num 10) (Fin 500000)) 0 4 True = ''5000k''"
    by code_simp
  then show ?thesis
    by (simp add: formatCurrencyFromUSD_def getCurrencyDisplay_def getConfig_tokens_state js_isNaN_def
        getDisplayMeta_def mergeOptions_def DEFAULT_FORMAT_OPTIONS_def)
qed

lemma strip_frac_zeros_prefix:
  "CHR ''.'' \<notin> set ip \<Longrightarrow> strip_frac_zeros (ip @ s) = ip @ strip_frac_zeros s"
  by (induction ip) auto

lemma split_trailing_zeros:
  "\<exists>k. fp = rev (dropWhile (\<lambda>d. d = z) (rev fp)) @ replicate k z"
proof -
  have "rev fp = takeWhile (\<lambda>d. d = z) (rev fp) @ dropWhile (\<lambda>d. d = z) (rev fp)" by simp
  moreover have "takeWhile (\<lambda>d. d = z) (rev fp) = replicate (length (takeWhile (\<lambda>d. d = z) (rev fp))) z"
    by (rule replicate_eqI [symmetric, THEN sym]) (auto dest: set_takeWhileD)
  ultimately have "fp = rev (dropWhile (\<lambda>d. d = z) (rev fp)) @
      replicate (length (takeWhile (\<lambda>d. d = z) (rev fp))) z"
    by (metis rev_append rev_replicate rev_rev_ident)
  then show ?thesis by blast
qed

lemma dot_not_digit [simp]: "\<not> is_digit CHR ''.''"
  by (simp add: is_digit_def)

lemma strip_frac_zeros_digits:
  assumes "\<forall>d \<in> set fp. is_digit d"
  shows "strip_frac_zeros (CHR ''.'' # fp) = CHR ''.'' # rev (dropWhile (\<lambda>d. d = CHR ''0'') (rev fp))"
proof -
  have no_dot: "CHR ''.'' \<notin> set fp" using assms dot_not_digit by blast
  then have id: "strip_frac_zeros fp = fp" by (induction fp) auto
  show ?thesis
  proof (cases "fp \<noteq> [] \<and> last fp = CHR ''0''")
    case True
    then show ?thesis using assms by simp
  next
    case False
    then have "dropWhile (\<lambda>d. d = CHR ''0'') (rev fp) = rev fp"
      by (cases fp rule: rev_cases) auto
    with False id show ?thesis by auto
  qed
qed

text \<open>Removing the trailing zeros of a printed decimal drops exactly the zeros at the end of the
  fraction, and the point when no digit is left after it; the rest is kept.\<close>

theorem removeTrailingZeros_exact:
  assumes "\<forall>d \<in> set fp. is_digit d" and "CHR ''.'' \<notin> set ip"
  shows "\<exists>fp' k. fp = fp' @ replicate k CHR ''0'' \<and> (fp' = [] \<or> last fp' \<noteq> CHR ''0'') \<and>
    removeTrailingZeros (ip @ ''.'' @ fp) = (if fp' = [] then ip else ip @ ''.'' @ fp')"
proof -
  let ?fp = "rev (dropWhile (\<lambda>d. d = CHR ''0'') (rev fp))"
  from split_trailing_zeros [of fp "CHR ''0''"]
  obtain k where k: "fp = ?fp @ replicate k CHR ''0''" ..
  have z: "?fp = [] \<or> last ?fp \<noteq> CHR ''0''"
    using hd_dropWhile [of "\<lambda>d. d = CHR ''0''" "rev fp"] by (auto simp: last_rev)
  have "last ?fp \<noteq> CHR ''.''" if "?fp \<noteq> []"
  proof -
    have "last ?fp \<in> set ?fp" using that by (rule last_in_set)
    then have "last ?fp \<in> set fp" by (auto dest: set_dropWhileD)
    then show ?thesis using assms(1) dot_not_digit by metis
  qed
  moreover have inc: "js_includes (ip @ ''.'' @ fp) ''.''" unfolding js_includes_iff by blast
  have st: "strip_frac_zeros (ip @ ''.'' @ fp) = ip @ ''.'' @ ?fp"
    using assms(2) strip_frac_zeros_digits [OF assms(1)] by (simp add: strip_frac_zeros_prefix)
  have "removeTrailingZeros (ip @ ''.'' @ fp) = strip_dot (ip @ ''.'' @ ?fp)"
    unfolding removeTrailingZeros_def st using inc by simp
  ultimately have "removeTrailingZeros (ip @ ''.'' @ fp) = (if ?fp = [] then ip else ip @ ''.'' @ ?fp)"
    by (simp add: strip_dot_def butlast_append)
  with k z show ?thesis by blast
qed

theorem removeTrailingZeros_exact_witness:
  "\<exists>fp' k. ''3400'' = fp' @ replicate k CHR ''0'' \<and> (fp' = [] \<or> last fp' \<noteq> CHR ''0'') \<and>
    removeTrailingZeros (''12'' @ ''.'' @ ''3400'') = (if fp' = [] then ''12'' else ''12'' @ ''.'' @ fp')"
  by (rule removeTrailingZeros_exact [of "''3400''" "''12''"]) (simp_all add: is_digit_def)

text \<open>With a positive minimum, a non-zero amount is shown with its sign and with at least the
  minimum as its magnitude, and an amount that reaches the minimum is shown as it is.\<close>

theorem adjustForMinimum_floor:
  assumes "r \<noteq> 0" and "0 < m"
  shows "\<exists>r'. adjustForMinimum (Fin r) d (Fin m) = Fin r' \<and> sgn r' = sgn r \<and> m \<le> \<bar>r'\<bar> \<and>
    (\<bar>r\<bar> < m \<or> r' = r)"
proof -
  have "adjustForMinimum (Fin r) d (Fin m) =
      (if \<bar>r\<bar> < m then (if 0 < r then Fin m else Fin (- m)) else Fin r)"
    using assms by (simp add: adjustForMinimum_def js_eq_def js_abs_def Let_def)
  with assms show ?thesis by (cases "\<bar>r\<bar> < m"; cases "0 < r") auto
qed

theorem adjustForMinimum_floor_witness:
  "\<exists>r'. adjustForMinimum (Fin (-1/1000)) 4 (Fin (1/100)) = Fin r' \<and> sgn r' = sgn (-1/1000) \<and>
    1/100 \<le> \<bar>r'\<bar> \<and> (\<bar>-1/1000\<bar> < (1/100 :: rat) \<or> r' = -1/1000)"
  by (rule adjustForMinimum_floor [of "-1/1000" "1/100" 4]) simp_all

end
