(* ===== verification/Format_Utils.thy ===== *)
theory Format_Utils
  imports Currency "HOL-Library.Word"
begin

section \<open>Number, time and colour formatting\<close>

text \<open>
  Model of the remaining functions of \<^verbatim>\<open>src/web/default/src/lib/format.ts\<close>: token
  counts, durations, timestamps and the colour derived from a string. \<open>dayjs(ms).format(f)\<close> is
  the parameter \<open>dayjs ms f\<close>, \<open>Intl.NumberFormat\<close> with the options of a call the
  parameter \<open>nf\<close>, and \<open>new Date(value).getTime()\<close> the parameter \<open>getTime\<close>.
\<close>

type_synonym dayjs = "jsnum \<Rightarrow> jsstr \<Rightarrow> jsstr"

definition formatNumber :: "(jsnum \<Rightarrow> jsstr) \<Rightarrow> jsnum option \<Rightarrow> jsstr" where
  "formatNumber nf v = (case v of None \<Rightarrow> ''-'' | Some x \<Rightarrow> if js_isNaN x then ''-'' else nf x)"

definition formatCompactNumber :: "(jsnum \<Rightarrow> jsstr) \<Rightarrow> jsnum option \<Rightarrow> jsstr" where
  "formatCompactNumber nf v = (case v of None \<Rightarrow> ''-'' | Some x \<Rightarrow> if js_isNaN x then ''-'' else nf x)"

definition formatPercent :: "(jsnum \<Rightarrow> jsstr) \<Rightarrow> jsnum option \<Rightarrow> jsstr" where
  "formatPercent nf v = (case v of None \<Rightarrow> ''-''
     | Some x \<Rightarrow> if js_isNaN x then ''-'' else nf (js_div x (num 100)))"

definition formatTimestampToDate :: "dayjs \<Rightarrow> jsnum option \<Rightarrow> bool \<Rightarrow> jsstr" where
  \<comment> \<open>\<open>seconds\<close>: whether the unit is seconds (the default) or milliseconds\<close>
  "formatTimestampToDate dayjs ts seconds = (case ts of None \<Rightarrow> ''-''
     | Some t \<Rightarrow> if \<not> js_truthy_num t \<or> js_eq t (num (-1)) \<or> js_eq t (num 0) then ''-''
         else dayjs (if seconds then js_mul t (num 1000) else t) ''YYYY-MM-DD HH:mm:ss'')"

definition formatTimestamp :: "dayjs \<Rightarrow> jsnum \<Rightarrow> jsstr" where
  "formatTimestamp dayjs t =
     (if js_eq t (num (-1)) then ''Never'' else formatTimestampToDate dayjs (Some t) True)"

definition formatDateTimeStr :: "dayjs \<Rightarrow> jsnum \<Rightarrow> jsstr" where
  "formatDateTimeStr dayjs date = dayjs date ''YYYY-MM-DD HH:mm:ss''"

definition formatDateStr :: "dayjs \<Rightarrow> jsnum \<Rightarrow> jsstr" where
  "formatDateStr dayjs date = dayjs date ''YYYY-MM-DD''"

definition formatTimeStr :: "dayjs \<Rightarrow> jsnum \<Rightarrow> jsstr" where
  "formatTimeStr dayjs date = dayjs date ''HH:mm:ss''"

definition formatTokens :: "jsnum \<Rightarrow> jsstr" where
  "formatTokens tokens =
     (if js_eq tokens (num 0) then ''-''
      else if js_lt tokens (num 1000) then js_num_str tokens
      else if js_lt tokens (num 1000000) then js_toFixed (js_div tokens (num 1000)) 1 @ ''K''
      else js_toFixed (js_div tokens (num 1000000)) 2 @ ''M'')"

definition formatUseTime :: "jsnum \<Rightarrow> jsstr" where
  "formatUseTime seconds =
     (if js_lt seconds (num 60) then js_toFixed seconds 1 @ ''s''
      else (let minutes = js_floor (js_div seconds (num 60));
                remainingSeconds = js_mod seconds (num 60) in
            js_num_str minutes @ ''m '' @ js_toFixed remainingSeconds 0 @ ''s''))"

definition formatTimestampForInput :: "dayjs \<Rightarrow> jsnum \<Rightarrow> jsstr" where
  "formatTimestampForInput dayjs t =
     (if js_eq t (num (-1)) then [] else dayjs (js_mul t (num 1000)) ''YYYY-MM-DDTHH:mm'')"

definition parseTimestampFromInput :: "(jsstr \<Rightarrow> jsnum) \<Rightarrow> jsstr \<Rightarrow> jsnum" where
  "parseTimestampFromInput getTime v =
     (if v = [] then num (-1) else js_floor (js_div (getTime v) (num 1000)))"

subsection \<open>The colour of a string\<close>

text \<open>
  The hash works on numbers that the bitwise operators convert to 32-bit two's complement:
  \<open>hash << 5\<close> and \<open>hash & hash\<close> wrap, the sum in between is exact.
\<close>

definition to_int32 :: "int \<Rightarrow> int" where
  "to_int32 n = (n + 2 ^ 31) mod 2 ^ 32 - 2 ^ 31"

definition hash_step :: "int \<Rightarrow> char \<Rightarrow> int" where
  "hash_step hash c = to_int32 (of_char c + (to_int32 (hash * 2 ^ 5) - hash))"

definition string_hash :: "jsstr \<Rightarrow> int" where
  "string_hash str = foldl hash_step 0 str"

definition js_rem :: "int \<Rightarrow> int \<Rightarrow> int" where
  "js_rem a b = sgn a * (\<bar>a\<bar> mod \<bar>b\<bar>)"

definition color_hue :: "int \<Rightarrow> int" where
  "color_hue h = \<bar>js_rem h 360\<bar>"

definition color_saturation :: "int \<Rightarrow> int" where
  "color_saturation h = 65 + js_rem \<bar>h\<bar> 10"

definition color_lightness :: "int \<Rightarrow> int" where
  "color_lightness h = 55 + js_rem \<bar>h div 2 ^ 8\<bar> 10"

definition stringToColor :: "jsstr \<Rightarrow> jsstr" where
  "stringToColor str =
     (if str = [] then ''gray''
      else (let h = string_hash str in
            ''hsl('' @ int_to_str (color_hue h) @ '', '' @ int_to_str (color_saturation h) @ ''%, '' @
            int_to_str (color_lightness h) @ ''%)''))"

subsection \<open>Properties\<close>

lemma to_int32_range: "- (2 ^ 31) \<le> to_int32 n \<and> to_int32 n < 2 ^ 31"
  using pos_mod_bound [of "2 ^ 32" "n + 2 ^ 31"] pos_mod_sign [of "2 ^ 32" "n + 2 ^ 31"]
  by (simp add: to_int32_def)

lemma to_int32_sint: "to_int32 n = sint (word_of_int n :: 32 word)"
  by (simp add: to_int32_def sint_sbintrunc' signed_take_bit_eq_take_bit_shift take_bit_eq_mod)

text \<open>The hash is the polynomial hash with base 31 in 32-bit words.\<close>

definition word_hash :: "jsstr \<Rightarrow> 32 word" where
  "word_hash str = foldl (\<lambda>h c. 31 * h + of_char c) 0 str"

lemma hash_step_word: "hash_step (sint (w :: 32 word)) c = sint (31 * w + of_char c)"
proof -
  have "(word_of_int (of_char c + (sint (word_of_int (sint w * 2 ^ 5) :: 32 word) - sint w)) :: 32 word) =
      31 * w + of_char c"
    by (simp add: wi_hom_syms of_int_of_char)
  then show ?thesis by (simp only: hash_step_def to_int32_sint)
qed

lemma string_hash_word: "string_hash str = sint (word_hash str)"
proof -
  have "foldl hash_step (sint (w :: 32 word)) str = sint (foldl (\<lambda>h c. 31 * h + of_char c) w str)" for w
    by (induction str arbitrary: w) (auto simp: hash_step_word)
  from this [of 0] show ?thesis by (simp add: string_hash_def word_hash_def)
qed

text \<open>The colour of a string is computed from the 32-bit polynomial hash with base 31, wrap-around
  included, and always lies in the intended part of the colour space: a hue from 0 to 359, a
  saturation from 65 to 74 and a lightness from 55 to 64 percent.\<close>

theorem stringToColor_range:
  "string_hash str = sint (word_hash str) \<and>
   0 \<le> color_hue (string_hash str) \<and> color_hue (string_hash str) < 360 \<and>
   65 \<le> color_saturation (string_hash str) \<and> color_saturation (string_hash str) \<le> 74 \<and>
   55 \<le> color_lightness (string_hash str) \<and> color_lightness (string_hash str) \<le> 64"
proof -
  have m: "0 \<le> \<bar>js_rem a b\<bar> \<and> \<bar>js_rem a b\<bar> < b" if "0 < b" for a b :: int
    using that by (auto simp: js_rem_def abs_mult sgn_if)
  have p: "0 \<le> js_rem \<bar>a\<bar> 10 \<and> js_rem \<bar>a\<bar> 10 \<le> 9" for a :: int
    by (auto simp: js_rem_def sgn_if)
  show ?thesis
    using string_hash_word m [of 360 "string_hash str"] p [of "string_hash str"]
      p [of "string_hash str div 2 ^ 8"]
    by (simp add: color_hue_def color_saturation_def color_lightness_def)
qed

lemma floor_fl_div60:
  assumes "60 \<le> n" "n \<le> 2 ^ 40"
  shows "\<exists>r. fl (of_int n / 60) = Fin r \<and> \<lfloor>r\<rfloor> = n div 60"
proof (cases "n mod 60 = 0")
  case True
  then have "of_int n / (60::rat) = of_int (n div 60)"
    by (metis dvd_eq_mod_eq_0 of_int_div of_int_numeral)
  moreover have "fl (of_int (n div 60)) = num (n div 60)"
    by (rule fl_int) (use assms in auto)
  ultimately show ?thesis by simp
next
  case False
  let ?x = "of_int n / 60 :: rat"
  have n_le: "(of_int n :: rat) \<le> 2 ^ 40"
    using assms by (metis of_int_le_iff of_int_numeral of_int_power)
  have n_ge: "(60 :: rat) \<le> of_int n" using assms by (metis of_int_le_iff of_int_numeral)
  have x: "1 \<le> ?x" "?x \<le> 2 ^ 40" using n_le n_ge by (auto simp: field_simps)
  have "bnd 40 ?x" using x by (simp add: bnd_def power_int_minus)
  then have "bnd 900 ?x" by (rule bnd_mono) simp
  then have "normal_range ?x" by (rule rel_normal [OF rel_refl, rotated]) simp
  then obtain r where r: "fl ?x = Fin r" "\<bar>r - ?x\<bar> \<le> \<bar>?x\<bar> * 2 powi (-53)" by (rule fl_rel_error)
  have "\<bar>?x\<bar> * 2 powi (-53) \<le> 2 ^ 40 * 2 powi (-53)" by (rule mult_right_mono) (use x in auto)
  then have err: "\<bar>r - ?x\<bar> \<le> 1 / 8192" using r(2) by (simp add: power_int_minus)
  have "(of_int n :: rat) = 60 * of_int (n div 60) + of_int (n mod 60)"
    by (metis mult_div_mod_eq of_int_add of_int_mult of_int_numeral)
  then have xe: "?x = of_int (n div 60) + of_int (n mod 60) / 60" by (simp add: field_simps)
  have "1 \<le> n mod 60" "n mod 60 \<le> 59" using False pos_mod_bound [of 60 n] pos_mod_sign [of 60 n] by linarith+
  then have "(1 :: rat) \<le> of_int (n mod 60)" "(of_int (n mod 60) :: rat) \<le> 59"
    by (metis of_int_1 of_int_le_iff, metis of_int_le_iff of_int_numeral)
  then have "of_int (n div 60) \<le> r" "r < of_int (n div 60) + 1" using err xe by linarith+
  then have "\<lfloor>r\<rfloor> = n div 60" by (rule floor_unique)
  with r(1) show ?thesis by blast
qed

text \<open>A duration of a whole number of seconds, from one minute on, is shown as its minutes and the
  seconds that remain: \<open>n div 60\<close> and \<open>n mod 60\<close>, in spite of the rounded division.\<close>

theorem formatUseTime_minutes:
  assumes "60 \<le> n" and "n \<le> 2 ^ 40"
  shows "formatUseTime (num n) = dec_str (n div 60) @ ''m '' @ dec_str (n mod 60) @ ''s''"
proof -
  obtain r where r: "fl (of_int n / 60) = Fin r" "\<lfloor>r\<rfloor> = n div 60" using floor_fl_div60 [OF assms] by blast
  have n60: "\<not> (of_int n :: rat) < 60" using assms(1) by (metis not_less of_int_le_iff of_int_numeral)
  have m: "js_num_str (num (n div 60)) = int_to_str (n div 60)"
    by (rule js_num_str_int) (use assms in auto)
  have "\<lfloor>\<bar>of_int n\<bar> / \<bar>60 :: rat\<bar>\<rfloor> = n div 60"
    using assms floor_divide_of_int_eq [of n 60, where ?'a = rat] by simp
  then have rem: "js_mod (num n) (num 60) = num (n mod 60)"
    using assms by (simp add: js_mod_def minus_mult_div_eq_mod [symmetric])
  have "\<bar>of_int (n mod 60) :: rat\<bar> < 10 ^ 21"
  proof -
    have "n mod 60 < 60" "0 \<le> n mod 60" by simp_all
    then have "(of_int (n mod 60) :: rat) < of_int 60" "(0::rat) \<le> of_int (n mod 60)"
      by (simp_all only: of_int_less_iff of_int_0_le_iff)
    then show ?thesis by simp
  qed
  moreover have "\<lfloor>(of_int (n mod 60) + 1 / 2 :: rat)\<rfloor> = n mod 60" by (rule floor_unique) auto
  ultimately have "js_toFixed (num (n mod 60)) 0 = dec_str (n mod 60)"
    by (simp add: js_toFixed_def fixed_nonneg_def fixed_digits_def)
  then show ?thesis
    using assms n60 r m rem by (simp add: formatUseTime_def js_floor_def Let_def int_to_str_def)
qed

theorem formatUseTime_minutes_witness: "formatUseTime (num 3725) = dec_str 62 @ ''m '' @ dec_str 5 @ ''s''"
  using formatUseTime_minutes [of 3725] by simp

text \<open>For a fractional duration the seconds are rounded after the minutes are taken: 119.6 seconds
  are shown as one minute and sixty seconds.\<close>

theorem formatUseTime_sixty_seconds: "formatUseTime (fl (1196 / 10)) = ''1m 60s''"
  by code_simp

end
