(* ===== verification/Billing_Visibility.thy ===== *)
theory Billing_Visibility
  imports Js_Json
begin

section \<open>Who sees which billing detail\<close>

text \<open>
  Model of \<^verbatim>\<open>lib/billing-visibility.ts\<close> (and the role table of \<^verbatim>\<open>lib/roles.ts\<close>): the
  visibility modes, the parsing of the two option rows that configure them, and the resolution
  of the mode a viewer gets. A value of type \<open>unknown\<close> is a \<^typ>\<open>json option\<close>; the four
  string modes are a datatype with their spelling in \<open>mode_str\<close>.

  Reading a name that the object does not own, such as \<open>constructor\<close>, gives a function of
  \<open>Object.prototype\<close>, which the normalisation treats like \<open>undefined\<close>; assigning a string to
  the name \<open>__proto__\<close> has no effect, and \<open>put_mode\<close> has that branch.
\<close>

subsection \<open>Roles\<close>

definition ROLE_GUEST :: jsnum where "ROLE_GUEST = num 0"
definition ROLE_USER :: jsnum where "ROLE_USER = num 1"
definition ROLE_ADMIN :: jsnum where "ROLE_ADMIN = num 10"
definition ROLE_SUPER_ADMIN :: jsnum where "ROLE_SUPER_ADMIN = num 100"

definition getRoleLabelKey :: "jsnum option \<Rightarrow> jsstr" where
  "getRoleLabelKey role = (case role of
       None \<Rightarrow> ''Guest''
     | Some r \<Rightarrow>
         if r = ROLE_SUPER_ADMIN then ''Super Admin'' else if r = ROLE_ADMIN then ''Admin''
         else if r = ROLE_USER then ''User'' else if r = ROLE_GUEST then ''Guest'' else ''Guest'')"

subsection \<open>Modes\<close>

datatype BillingVisibilityMode = Credits | Summary | Detailed | Internal

fun mode_str :: "BillingVisibilityMode \<Rightarrow> jsstr" where
  "mode_str Credits = ''credits''"
| "mode_str Summary = ''summary''"
| "mode_str Detailed = ''detailed''"
| "mode_str Internal = ''internal''"

definition BILLING_VISIBILITY_MODES :: "BillingVisibilityMode list" where
  "BILLING_VISIBILITY_MODES = [Credits, Summary, Detailed, Internal]"

definition DEFAULT_BILLING_VISIBILITY_MODE :: BillingVisibilityMode where
  "DEFAULT_BILLING_VISIBILITY_MODE = Credits"

definition DEFAULT_BILLING_GROUP_MODES :: "BillingVisibilityMode obj" where
  "DEFAULT_BILLING_GROUP_MODES =
     [(''default'', Credits), (''trial'', Credits), (''beta'', Summary),
      (''invited'', Detailed), (''b2b'', Detailed), (''enterprise'', Detailed)]"

record BillingVisibilitySettings =
  defaultMode :: BillingVisibilityMode
  groupModes :: "BillingVisibilityMode obj"

definition normalizeBillingVisibilityMode ::
    "json option \<Rightarrow> BillingVisibilityMode \<Rightarrow> BillingVisibilityMode" where
  "normalizeBillingVisibilityMode mode fallback = (case mode of
       Some (JStr s) \<Rightarrow>
         (case find (\<lambda>m. mode_str m = s) BILLING_VISIBILITY_MODES of Some m \<Rightarrow> m | None \<Rightarrow> fallback)
     | _ \<Rightarrow> fallback)"

subsection \<open>Parsing the option rows\<close>

definition group_key :: "jsstr \<Rightarrow> jsstr" where
  "group_key grp = js_toLowerCase (js_trim grp)"

definition put_mode :: "jsstr \<Rightarrow> BillingVisibilityMode \<Rightarrow> BillingVisibilityMode obj \<Rightarrow> BillingVisibilityMode obj" where
  "put_mode k m parsed = (if k = ''__proto__'' then parsed else obj_set k m parsed)"

fun parse_group_entries :: "(jsstr \<times> json) list \<Rightarrow> BillingVisibilityMode obj \<Rightarrow> BillingVisibilityMode obj" where
  "parse_group_entries [] parsed = parsed"
| "parse_group_entries ((grp, mode) # rest) parsed =
     (let key = group_key grp in
      if key = [] then parse_group_entries rest parsed
      else parse_group_entries rest
        (put_mode key (normalizeBillingVisibilityMode (Some mode) DEFAULT_BILLING_VISIBILITY_MODE) parsed))"

definition parseBillingVisibilityGroupModes ::
    "json option \<Rightarrow> BillingVisibilityMode obj \<Rightarrow> BillingVisibilityMode obj" where
  "parseBillingVisibilityGroupModes value fallback =
     (let raw = (case value of Some (JStr s) \<Rightarrow> json_parse s | v \<Rightarrow> v) in
      case as_object raw of
        None \<Rightarrow> fallback
      | Some entries \<Rightarrow>
          (let parsed = parse_group_entries entries []
           in if length (map fst parsed) > 0 then parsed else fallback))"

definition parseBillingVisibilitySettings :: "json option \<Rightarrow> json option \<Rightarrow> BillingVisibilitySettings" where
  "parseBillingVisibilitySettings dm gm =
     \<lparr>defaultMode = normalizeBillingVisibilityMode dm DEFAULT_BILLING_VISIBILITY_MODE,
      groupModes = parseBillingVisibilityGroupModes gm DEFAULT_BILLING_GROUP_MODES\<rparr>"

text \<open>\<open>new Map(rows)\<close>: a later row of the same key wins.\<close>

definition billingVisibilitySettingsFromOptionRows ::
    "(jsstr \<times> jsstr) list option \<Rightarrow> BillingVisibilitySettings" where
  "billingVisibilitySettingsFromOptionRows options =
     (let byKey = map_of (rev (case options of None \<Rightarrow> [] | Some rows \<Rightarrow> rows)) in
      parseBillingVisibilitySettings
        (map_option JStr (byKey ''billing_visibility_setting.default_mode''))
        (map_option JStr (byKey ''billing_visibility_setting.group_modes'')))"

subsection \<open>Resolution\<close>

definition userBillingVisibilityMode :: "BillingVisibilityMode \<Rightarrow> BillingVisibilityMode" where
  "userBillingVisibilityMode mode = (if mode = Internal then Detailed else mode)"

record ResolveParams =
  rp_role :: "jsnum option"
  rp_group :: "jsstr option"
  rp_defaultMode :: "BillingVisibilityMode option"
  rp_groupModes :: "BillingVisibilityMode obj option"
  rp_explicitMode :: "json option"

definition resolveBillingVisibilityMode :: "ResolveParams \<Rightarrow> BillingVisibilityMode" where
  "resolveBillingVisibilityMode params =
     (if js_le ROLE_ADMIN (case rp_role params of None \<Rightarrow> num 0 | Some r \<Rightarrow> r) then Internal
      else if js_truthy (rp_explicitMode params) then
        userBillingVisibilityMode
          (normalizeBillingVisibilityMode (rp_explicitMode params) DEFAULT_BILLING_VISIBILITY_MODE)
      else
        (let dm = (case rp_defaultMode params of None \<Rightarrow> DEFAULT_BILLING_VISIBILITY_MODE | Some m \<Rightarrow> m);
             gm = (case rp_groupModes params of None \<Rightarrow> DEFAULT_BILLING_GROUP_MODES | Some g \<Rightarrow> g);
             g0 = (case rp_group params of None \<Rightarrow> [] | Some g \<Rightarrow> group_key g);
             grp = (if g0 = [] then ''default'' else g0)
         in userBillingVisibilityMode
              (normalizeBillingVisibilityMode (map_option (\<lambda>m. JStr (mode_str m)) (obj_get grp gm)) dm)))"

subsection \<open>Labels\<close>

fun getBillingVisibilityLabelKey :: "BillingVisibilityMode \<Rightarrow> jsstr" where
  "getBillingVisibilityLabelKey Summary = ''Summary billing''"
| "getBillingVisibilityLabelKey Detailed = ''Detailed billing''"
| "getBillingVisibilityLabelKey Internal = ''Internal billing''"
| "getBillingVisibilityLabelKey Credits = ''Credits-only billing''"

fun getBillingVisibilityShortLabelKey :: "BillingVisibilityMode \<Rightarrow> jsstr" where
  "getBillingVisibilityShortLabelKey Summary = ''Summary''"
| "getBillingVisibilityShortLabelKey Detailed = ''Detailed''"
| "getBillingVisibilityShortLabelKey Internal = ''Internal''"
| "getBillingVisibilityShortLabelKey Credits = ''Credits''"

fun getBillingVisibilityDescriptionKey :: "BillingVisibilityMode \<Rightarrow> jsstr" where
  "getBillingVisibilityDescriptionKey Summary = ''Shows credits plus high-level billing factors.''"
| "getBillingVisibilityDescriptionKey Detailed = ''Shows auditable formula inputs without upstream margin.''"
| "getBillingVisibilityDescriptionKey Internal = ''Admin-only view with upstream cost, retail charge, and margin.''"
| "getBillingVisibilityDescriptionKey Credits = ''Shows packaged credits without formula internals.''"

subsection \<open>Lemmas\<close>

lemma normalize_mode_str [simp]:
  "normalizeBillingVisibilityMode (Some (JStr (mode_str m))) d = m"
  by (cases m) (simp_all add: normalizeBillingVisibilityMode_def BILLING_VISIBILITY_MODES_def)

lemma js_lower_char_idem [simp]: "js_lower_char (js_lower_char c) = js_lower_char c"
proof -
  have "js_lower_char (char_of n) = char_of n" if "97 \<le> n \<and> n \<le> 122 \<or> 224 \<le> n \<and> n \<le> 254" for n :: nat
    using that by (auto simp: js_lower_char_def Let_def)
  then show ?thesis
    by (auto simp: js_lower_char_def [of c] Let_def)
qed

lemma js_ws_code: "js_ws c \<Longrightarrow> (of_char c :: nat) \<le> 32 \<or> (of_char c :: nat) = 160"
  by (auto simp: js_ws_def)

lemma js_ws_lower [simp]: "js_ws (js_lower_char c) = js_ws c"
proof -
  have "\<not> js_ws (char_of n)" if "97 \<le> n \<and> n \<le> 122 \<or> 224 \<le> n \<and> n \<le> 254" for n :: nat
  proof -
    have "(of_char (char_of n :: char) :: nat) = n" using that by auto
    then show ?thesis using that js_ws_code [of "char_of n"] by auto
  qed
  moreover have "\<not> js_ws c" if "65 \<le> (of_char c :: nat) \<and> (of_char c :: nat) \<le> 90 \<or>
      192 \<le> (of_char c :: nat) \<and> (of_char c :: nat) \<le> 222"
    using that js_ws_code [of c] by auto
  ultimately show ?thesis by (auto simp: js_lower_char_def Let_def)
qed

lemma trimmed_lower: "trimmed s \<Longrightarrow> trimmed (js_toLowerCase s)"
  by (auto simp: trimmed_def js_toLowerCase_def hd_map last_map)

text \<open>A group name is canonical when trimming and lower-casing leave it alone.\<close>

definition canonical_group :: "jsstr \<Rightarrow> bool" where
  "canonical_group k \<longleftrightarrow> trimmed k \<and> js_toLowerCase k = k"

interpretation group_nf: normaliser group_key canonical_group
proof
  fix k
  show "canonical_group (group_key k)"
    using trimmed_lower [OF js_trim_trimmed [of k]]
    by (simp add: canonical_group_def group_key_def) (simp add: js_toLowerCase_def)
qed (simp add: canonical_group_def group_key_def js_trim_id)

text \<open>The mode that the entries of the JSON object give to a canonical group: its last entry.\<close>

definition entry_mode :: "(jsstr \<times> json) list \<Rightarrow> jsstr \<Rightarrow> BillingVisibilityMode option" where
  "entry_mode entries k =
     (if k = [] \<or> k = ''__proto__'' then None
      else map_option (\<lambda>v. normalizeBillingVisibilityMode (Some v) DEFAULT_BILLING_VISIBILITY_MODE)
        (map_of (rev (map (\<lambda>(g, v). (group_key g, v)) entries)) k))"

lemma parse_group_entries_get:
  "obj_get k (parse_group_entries entries parsed) =
     (case entry_mode entries k of Some m \<Rightarrow> Some m | None \<Rightarrow> obj_get k parsed)"
proof (induction entries parsed rule: parse_group_entries.induct)
  case (2 grp mode rest parsed)
  show ?case
  proof (cases "group_key grp = []")
    case True
    with 2(1) [OF refl True] show ?thesis
      by (auto simp: entry_mode_def map_add_def split: option.splits)
  next
    case False
    with 2(2) [OF refl False] show ?thesis
      by (auto simp: Let_def entry_mode_def put_mode_def map_add_def js_obj.get_put split: option.splits)
  qed
qed (simp add: entry_mode_def)

lemma parse_group_entries_nonempty:
  "parse_group_entries entries [] \<noteq> [] \<longleftrightarrow> (\<exists>k. entry_mode entries k \<noteq> None)"
proof -
  have "ob \<noteq> [] \<longleftrightarrow> (\<exists>k. obj_get k ob \<noteq> None)" for ob :: "BillingVisibilityMode obj"
    by (cases ob) (auto simp: obj_get_def)
  then show ?thesis
    by (auto simp: parse_group_entries_get js_obj.get_empty split: option.splits)
qed

subsection \<open>Properties\<close>

text \<open>C2. The internal view, with the upstream cost and the margin, is shown to a viewer exactly
  when the role is at least the administrator role: no option row, no group and no explicit mode
  gives it to anybody else, and no option takes it from an administrator.\<close>

theorem internal_iff_admin:
  "resolveBillingVisibilityMode params = Internal \<longleftrightarrow>
     (\<exists>r. rp_role params = Some r \<and> js_le ROLE_ADMIN r)"
proof -
  have u: "userBillingVisibilityMode m \<noteq> Internal" for m
    by (simp add: userBillingVisibilityMode_def)
  have "\<not> js_le ROLE_ADMIN (num 0)" by (simp add: ROLE_ADMIN_def js_le_def js_eq_def)
  then show ?thesis
    by (cases "rp_role params") (auto simp: resolveBillingVisibilityMode_def Let_def u)
qed

text \<open>What the parsed group table holds: when the JSON text is an object with at least one
  usable entry, a group has the mode of the last entry whose name normalises to it, with the
  credits mode for a value that is no mode; otherwise the table is the fallback.\<close>

theorem parse_group_modes_lookup:
  "obj_get k (parseBillingVisibilityGroupModes (Some (JStr s)) fallback) =
     (case json_object s of
        None \<Rightarrow> obj_get k fallback
      | Some entries \<Rightarrow> if \<exists>k'. entry_mode entries k' \<noteq> None then entry_mode entries k
                       else obj_get k fallback)"
proof (cases "json_object s")
  case None
  then show ?thesis by (simp add: parseBillingVisibilityGroupModes_def json_object_def)
next
  case (Some entries)
  then show ?thesis
    using parse_group_entries_nonempty [of entries] parse_group_entries_get [of k entries "[]"]
    by (auto simp: parseBillingVisibilityGroupModes_def json_object_def Let_def js_obj.get_empty
        split: option.splits)
qed

text \<open>The mode of an ordinary viewer without an explicit mode depends only on the canonical
  form of the group name: spelling it with other spaces or capitals gives the same mode.\<close>

theorem resolve_group_canonical:
  "resolveBillingVisibilityMode (params\<lparr>rp_group := Some (group_key g)\<rparr>) =
   resolveBillingVisibilityMode (params\<lparr>rp_group := Some g\<rparr>)"
  by (simp add: resolveBillingVisibilityMode_def group_nf.norm_idem)

end
