(* ===== verification/Model_Mapping.thy ===== *)
theory Model_Mapping
  imports Js_Json
begin

section \<open>Model lists and model mappings of a channel\<close>

text \<open>
  Model of \<^verbatim>\<open>features/channels/lib/model-mapping-validation.ts\<close> and
  \<^verbatim>\<open>features/channels/lib/upstream-update-utils.ts\<close>. A channel has a comma-separated list of models
  and a JSON object that maps a requested model to the model sent upstream. A \<open>Set\<close> that is only
  asked for membership is a HOL set of the list it is built from, one that is returned is the list
  of its elements in insertion order.
\<close>

subsection \<open>Model lists\<close>

definition parseModelsString :: "jsstr \<Rightarrow> jsstr list" where
  "parseModelsString modelsStr =
     (if modelsStr \<noteq> [] then filter (\<lambda>m. m \<noteq> []) (map js_trim (split_on (CHR '','') modelsStr)) else [])"

definition formatModelsArray :: "jsstr list \<Rightarrow> jsstr" where
  "formatModelsArray models = js_join '','' (uniq models)"

definition normalizeModelName :: "jsstr \<Rightarrow> jsstr" where
  "normalizeModelName model = js_trim model"

subsection \<open>Model mappings\<close>

definition extractMappingSourceModels :: "jsstr \<Rightarrow> jsstr list" where
  "extractMappingSourceModels modelMapping =
     (let trimmed = js_trim modelMapping in
      if trimmed = [] then []
      else case json_object trimmed of
          None \<Rightarrow> []
        | Some parsed \<Rightarrow> uniq (filter (\<lambda>k. k \<noteq> []) (map (\<lambda>(k, v). js_trim k) parsed)))"

fun trimmed_string :: "json \<Rightarrow> jsstr option" where
  "trimmed_string (JStr s) = Some (js_trim s)"
| "trimmed_string _ = None"

definition extractRedirectModels :: "jsstr \<Rightarrow> jsstr list" where
  "extractRedirectModels modelMapping =
     (let trimmed = js_trim modelMapping in
      if trimmed = [] then []
      else case json_object trimmed of
          None \<Rightarrow> []
        | Some parsed \<Rightarrow>
            uniq (filter (\<lambda>s. s \<noteq> []) (List.map_filter (\<lambda>(k, v). trimmed_string v) parsed)))"

fun lists_differ :: "jsstr list \<Rightarrow> jsstr list \<Rightarrow> bool" where
  "lists_differ (x # xs) (y # ys) = (if x \<noteq> y then True else lists_differ xs ys)"
| "lists_differ _ _ = False"

definition hasModelConfigChanged :: "jsstr list \<Rightarrow> jsstr \<Rightarrow> jsstr list \<Rightarrow> jsstr \<Rightarrow> bool" where
  "hasModelConfigChanged currentModels currentModelMapping initialModels initialModelMapping =
     (if length initialModels = 0 \<and> initialModelMapping = [] then True
      else if length currentModels \<noteq> length initialModels then True
      else if lists_differ currentModels initialModels then True
      else js_trim currentModelMapping \<noteq> js_trim initialModelMapping)"

definition findMissingModelsInMapping :: "jsstr \<Rightarrow> jsstr list \<Rightarrow> jsstr list" where
  "findMissingModelsInMapping modelMapping currentModels =
     (if modelMapping = [] \<or> js_trim modelMapping = [] then []
      else case json_object modelMapping of
          None \<Rightarrow> []
        | Some parsed \<Rightarrow>
            (let modelSet = set (map normalizeModelName currentModels) in
             uniq (filter (\<lambda>key. key \<noteq> [] \<and> key \<notin> modelSet)
               (map (\<lambda>(k, v). normalizeModelName k) parsed))))"

datatype MappingCheck = MappingValid | MappingError jsstr

definition validateModelMappingJson :: "jsstr \<Rightarrow> MappingCheck" where
  "validateModelMappingJson modelMapping =
     (if modelMapping = [] \<or> js_trim modelMapping = [] then MappingValid
      else case json_parse modelMapping of
          None \<Rightarrow> MappingError ''Model mapping must be valid JSON format''
        | Some parsed \<Rightarrow>
            (case as_object (Some parsed) of
               None \<Rightarrow> MappingError ''Model mapping must be a valid JSON object''
             | Some kvs \<Rightarrow> MappingValid))"

definition findExposedTargetModels :: "jsstr \<Rightarrow> jsstr list \<Rightarrow> jsstr list" where
  "findExposedTargetModels modelMapping currentModels =
     (let redirectModels = extractRedirectModels modelMapping in
      if length redirectModels = 0 then []
      else (let modelSet = set (map normalizeModelName currentModels) in
            filter (\<lambda>model. normalizeModelName model \<in> modelSet) redirectModels))"

record ModelCategories =
  normalizedCurrentModels :: "jsstr list"
  normalizedRedirectModels :: "jsstr list"
  classificationSet :: "jsstr list"
  redirectOnlySet :: "jsstr list"

definition categorizeModelsWithRedirect :: "jsstr list \<Rightarrow> jsstr list \<Rightarrow> ModelCategories" where
  "categorizeModelsWithRedirect currentModels redirectModels =
     (let cur = uniq (filter (\<lambda>m. m \<noteq> []) (map normalizeModelName currentModels));
          red = uniq (filter (\<lambda>m. m \<noteq> []) (map normalizeModelName redirectModels))
      in \<lparr>normalizedCurrentModels = cur, normalizedRedirectModels = red,
          classificationSet = uniq (cur @ red),
          redirectOnlySet = uniq (filter (\<lambda>m. m \<notin> set cur) red)\<rparr>)"

subsection \<open>Detected upstream models\<close>

text \<open>
  \<open>normalizeModelList\<close> calls \<open>map\<close> on its argument: \<open>None\<close> is the \<open>TypeError\<close> thrown
  for a truthy value that is no array, or of \<open>String\<close> on one of its items.
\<close>

definition model_text :: "json \<Rightarrow> jsstr" where
  "model_text model = js_trim (if js_truthy (Some model) then js_String model else [])"

definition normalizeModelList :: "json option \<Rightarrow> jsstr list option" where
  "normalizeModelList models =
     (if \<not> js_truthy models then Some []
      else case models of
          Some (JArr vs) \<Rightarrow>
            if list_ex string_throws vs then None else Some (uniq (filter (\<lambda>s. s \<noteq> []) (map model_text vs)))
        | _ \<Rightarrow> None)"

record UpstreamUpdateMeta =
  um_enabled :: bool
  um_pendingAddModels :: "jsstr list"
  um_pendingRemoveModels :: "jsstr list"

definition parseUpstreamUpdateMeta :: "json option \<Rightarrow> UpstreamUpdateMeta option" where
  "parseUpstreamUpdateMeta settings =
     (let parsed = (case settings of
            Some (JObj kvs) \<Rightarrow> Some (JObj kvs)
          | Some (JStr s) \<Rightarrow> json_parse s
          | _ \<Rightarrow> None);
          field = (\<lambda>k. case parsed of Some (JObj kvs) \<Rightarrow> obj_get k kvs | _ \<Rightarrow> None);
          is_obj = (case parsed of Some (JObj _) \<Rightarrow> True | Some (JArr _) \<Rightarrow> True | _ \<Rightarrow> False)
      in if \<not> is_obj then Some \<lparr>um_enabled = False, um_pendingAddModels = [], um_pendingRemoveModels = []\<rparr>
         else (case normalizeModelList (field ''upstream_model_update_last_detected_models'') of
             None \<Rightarrow> None
           | Some adds \<Rightarrow>
               (case normalizeModelList (field ''upstream_model_update_last_removed_models'') of
                  None \<Rightarrow> None
                | Some rems \<Rightarrow>
                    Some \<lparr>um_enabled = (field ''upstream_model_update_check_enabled'' = Some (JBool True)),
                          um_pendingAddModels = adds, um_pendingRemoveModels = rems\<rparr>)))"

subsection \<open>Lemmas\<close>

definition model_name :: "jsstr \<Rightarrow> bool" where
  \<comment> \<open>what survives in a comma-separated list\<close>
  "model_name m \<longleftrightarrow> m \<noteq> [] \<and> trimmed m \<and> CHR '','' \<notin> set m"

lemma js_join_eq_Nil: "js_join [c] xs = [] \<Longrightarrow> xs = [] \<or> xs = [[]]"
  by (cases xs rule: remdups_adj.cases) auto

lemma trim_names_id: "\<forall>m \<in> set ms. model_name m \<Longrightarrow> filter (\<lambda>m. m \<noteq> []) (map js_trim ms) = ms"
  by (induction ms) (auto simp: model_name_def js_trim_id)

lemma parse_join_models:
  assumes "\<forall>m \<in> set ms. model_name m"
  shows "parseModelsString (js_join '','' ms) = ms"
proof (cases "ms = []")
  case False
  then have "js_join '','' ms \<noteq> []"
    using assms js_join_eq_Nil [of "CHR '',''" ms] by (auto simp: model_name_def)
  moreover have "split_on (CHR '','') (js_join '','' ms) = ms"
    using False assms by (intro split_on_join) (auto simp: model_name_def)
  ultimately show ?thesis using trim_names_id [OF assms] by (simp add: parseModelsString_def)
qed (simp add: parseModelsString_def)

lemma parse_models_names: "m \<in> set (parseModelsString s) \<Longrightarrow> model_name m"
  using set_js_trim split_on_parts [of _ "CHR '',''" s]
  by (auto simp: parseModelsString_def model_name_def js_trim_trimmed split: if_splits)

lemma missing_iff:
  "m \<in> set (findMissingModelsInMapping mapping models) \<longleftrightarrow>
     (\<exists>kvs k v. json_object mapping = Some kvs \<and> (k, v) \<in> set kvs \<and> m = js_trim k) \<and>
     js_trim mapping \<noteq> [] \<and> m \<noteq> [] \<and> m \<notin> js_trim ` set models"
  by (cases "json_object mapping")
    (auto simp: findMissingModelsInMapping_def normalizeModelName_def Let_def image_iff, force)

lemma set_trimmed_strings:
  "set (List.map_filter (\<lambda>(k, v). trimmed_string v) kvs) = {js_trim s | k s. (k, JStr s) \<in> set kvs}"
proof (induction kvs)
  case (Cons p kvs)
  obtain k v where p: "p = (k, v)" by (cases p)
  show ?case using Cons by (cases v) (auto simp: p List.map_filter_simps)
qed (simp add: List.map_filter_simps)

lemma redirect_iff:
  "m \<in> set (extractRedirectModels mapping) \<longleftrightarrow>
     (\<exists>kvs k s. json_object (js_trim mapping) = Some kvs \<and> (k, JStr s) \<in> set kvs \<and> m = js_trim s) \<and>
     js_trim mapping \<noteq> [] \<and> m \<noteq> []"
  by (cases "json_object (js_trim mapping)")
    (auto simp: extractRedirectModels_def Let_def set_trimmed_strings)

lemma lists_differ_iff: "length xs = length ys \<Longrightarrow> lists_differ xs ys \<longleftrightarrow> xs \<noteq> ys"
  by (induction xs ys rule: list_induct2) auto

subsection \<open>Properties\<close>

text \<open>Writing a list of models and reading it back gives the list without its repetitions, for
  model names without commas and outer spaces; and reading any text yields such names, so the
  next write and read change nothing.\<close>

theorem models_roundtrip:
  assumes "\<forall>m \<in> set ms. model_name m"
  shows "parseModelsString (formatModelsArray ms) = uniq ms"
  using parse_join_models [of "uniq ms"] assms by (simp add: formatModelsArray_def)

theorem models_roundtrip_witness:
  "parseModelsString (formatModelsArray [''gpt-4o'', ''o1'', ''gpt-4o'']) = [''gpt-4o'', ''o1'']"
proof -
  have "\<forall>m \<in> set [''gpt-4o'', ''o1'', ''gpt-4o'']. model_name m"
    by (simp add: model_name_def trimmed_def js_ws_def)
  from models_roundtrip [OF this] show ?thesis by simp
qed

text \<open>The text that \<open>formatModelsArray\<close> writes for a parsed list is a fixed point of parsing and
  formatting, whatever the original text was.\<close>

theorem models_text_normal_form:
  "formatModelsArray (parseModelsString (formatModelsArray (parseModelsString s))) =
   formatModelsArray (parseModelsString s)"
proof -
  have "\<forall>m \<in> set (uniq (parseModelsString s)). model_name m" using parse_models_names by simp
  then show ?thesis using parse_join_models by (simp add: formatModelsArray_def)
qed

text \<open>The models reported missing are exactly the trimmed, non-empty source names of the mapping
  that the model list lacks, each once; and a list extended by them has nothing missing.\<close>

theorem missing_models_exact:
  "(\<forall>m. m \<in> set (findMissingModelsInMapping mapping models) \<longleftrightarrow>
     (\<exists>kvs k v. json_object mapping = Some kvs \<and> (k, v) \<in> set kvs \<and> m = js_trim k) \<and>
     js_trim mapping \<noteq> [] \<and> m \<noteq> [] \<and> m \<notin> js_trim ` set models) \<and>
   distinct (findMissingModelsInMapping mapping models) \<and>
   findMissingModelsInMapping mapping (models @ findMissingModelsInMapping mapping models) = []"
proof (intro conjI allI)
  let ?miss = "findMissingModelsInMapping mapping models"
  show "distinct ?miss"
    by (auto simp: findMissingModelsInMapping_def Let_def split: option.splits)
  have "m \<notin> set (findMissingModelsInMapping mapping (models @ ?miss))" for m
  proof
    assume "m \<in> set (findMissingModelsInMapping mapping (models @ ?miss))"
    then have m: "m \<in> set ?miss" "m \<notin> js_trim ` set ?miss" unfolding missing_iff by auto
    then have "js_trim m = m" unfolding missing_iff by auto
    with m show False by (metis imageI)
  qed
  then show "findMissingModelsInMapping mapping (models @ ?miss) = []"
    by (metis hd_in_set)
qed (rule missing_iff)

text \<open>The exposed target models are exactly the redirect targets of the mapping that are also in
  the model list, and filtering them out of the list leaves none exposed.\<close>

theorem exposed_targets_exact:
  "(\<forall>m. m \<in> set (findExposedTargetModels mapping models) \<longleftrightarrow>
      m \<in> set (extractRedirectModels mapping) \<and> m \<in> js_trim ` set models) \<and>
   findExposedTargetModels mapping
     (filter (\<lambda>x. js_trim x \<notin> set (findExposedTargetModels mapping models)) models) = []"
proof -
  have t: "js_trim m = m" if "m \<in> set (extractRedirectModels mapping)" for m
    using that unfolding redirect_iff by auto
  have iff: "m \<in> set (findExposedTargetModels mapping ms) \<longleftrightarrow>
      m \<in> set (extractRedirectModels mapping) \<and> m \<in> js_trim ` set ms" for m ms
    using t by (auto simp: findExposedTargetModels_def Let_def normalizeModelName_def)
  have "m \<notin> set (findExposedTargetModels mapping
     (filter (\<lambda>x. js_trim x \<notin> set (findExposedTargetModels mapping models)) models))" for m
    unfolding iff by auto
  then show ?thesis using iff by (metis hd_in_set)
qed

text \<open>For a channel that already has models or a mapping, a change of configuration is reported
  exactly when the model list differs or the mapping text differs by more than outer spaces.\<close>

theorem config_changed_exact:
  assumes "initialModels \<noteq> [] \<or> initialMapping \<noteq> []"
  shows "hasModelConfigChanged models mapping initialModels initialMapping \<longleftrightarrow>
     models \<noteq> initialModels \<or> js_trim mapping \<noteq> js_trim initialMapping"
  using assms lists_differ_iff [of models initialModels]
  by (auto simp: hasModelConfigChanged_def)

theorem config_changed_exact_witness:
  "\<not> hasModelConfigChanged [''a''] '' {}'' [''a''] ''{} ''"
  using config_changed_exact [of "[''a'']" "''{} ''" "[''a'']" "'' {}''"]
  by (simp add: js_trim_def js_ws_def)

text \<open>The classification set is the union of the two lists, the redirect-only set their difference.\<close>

theorem categories_partition:
  fixes cur red :: "jsstr list"
  defines "c \<equiv> categorizeModelsWithRedirect cur red"
  shows "set (classificationSet c) = set (normalizedCurrentModels c) \<union> set (redirectOnlySet c) \<and>
    set (normalizedCurrentModels c) \<inter> set (redirectOnlySet c) = {} \<and>
    distinct (classificationSet c) \<and> [] \<notin> set (classificationSet c)"
  unfolding c_def by (auto simp: categorizeModelsWithRedirect_def Let_def)

text \<open>Reading the upstream-update settings of a channel fails only when one of the two detected
  lists is present, truthy and no array of values that have a text; the pending lists are then normalised names.\<close>

theorem upstream_meta_total:
  assumes "\<And>k v. obj_get k kvs = Some v \<Longrightarrow>
      k \<in> {''upstream_model_update_last_detected_models'', ''upstream_model_update_last_removed_models''} \<Longrightarrow>
      js_truthy (Some v) \<Longrightarrow> \<exists>vs. v = JArr vs \<and> \<not> list_ex string_throws vs"
  shows "\<exists>m. parseUpstreamUpdateMeta (Some (JObj kvs)) = Some m \<and>
     (\<forall>x \<in> set (um_pendingAddModels m) \<union> set (um_pendingRemoveModels m). x \<noteq> [] \<and> trimmed x) \<and>
     distinct (um_pendingAddModels m) \<and> distinct (um_pendingRemoveModels m)"
proof -
  have n: "\<exists>xs. normalizeModelList (obj_get k kvs) = Some xs \<and> distinct xs \<and> (\<forall>x \<in> set xs. x \<noteq> [] \<and> trimmed x)"
    if k: "k \<in> {''upstream_model_update_last_detected_models'', ''upstream_model_update_last_removed_models''}" for k
  proof (cases "js_truthy (obj_get k kvs)")
    case True
    then obtain v where "obj_get k kvs = Some v" by (cases "obj_get k kvs") auto
    then obtain vs where "obj_get k kvs = Some (JArr vs)" "\<not> list_ex string_throws vs" using assms k True by metis
    then show ?thesis by (auto simp: normalizeModelList_def model_text_def js_trim_trimmed)
  qed (simp add: normalizeModelList_def)
  from n [of "''upstream_model_update_last_detected_models''"]
    n [of "''upstream_model_update_last_removed_models''"]
  show ?thesis by (auto simp: parseUpstreamUpdateMeta_def)
qed

theorem upstream_meta_total_witness:
  "\<exists>m. parseUpstreamUpdateMeta (Some (JObj
      [(''upstream_model_update_last_detected_models'', JArr [JStr '' o1 '', JNull, JStr ''o1''])])) = Some m \<and>
     (\<forall>x \<in> set (um_pendingAddModels m) \<union> set (um_pendingRemoveModels m). x \<noteq> [] \<and> trimmed x) \<and>
     distinct (um_pendingAddModels m) \<and> distinct (um_pendingRemoveModels m)"
  by (rule upstream_meta_total) (auto simp: obj_get_def split: if_splits)

end
