(* ===== verification/Playground_Messages.thy ===== *)
theory Playground_Messages
  imports Js_Json
begin

section \<open>The messages of the playground\<close>

text \<open>
  Model of \<^verbatim>\<open>features/playground/lib/message-utils.ts\<close>, of the message types of
  \<^verbatim>\<open>features/playground/types.ts\<close> and of \<^verbatim>\<open>features/playground/lib/payload-builder.ts\<close>. An
  optional field is an option; \<open>errorCode\<close> keeps its three states (\<open>None\<close> for \<open>undefined\<close>,
  \<open>JNull\<close> for \<open>null\<close>). The identifiers that \<open>nanoid\<close> draws are arguments.

  The loop of \<open>parseThinkTags\<close> is \<open>think_loop\<close>, on positions as in the source, with its
  termination proof; \<open>think_ref\<close> is the same function on the remaining text.
\<close>

subsection \<open>Data\<close>

datatype MessageRole = User | Assistant | System
datatype MessageStatus = Loading | Streaming | Complete | Error

record MessageVersion =
  v_id :: "jsstr option"
  v_content :: jsstr

record Reasoning =
  r_content :: jsstr
  r_duration :: jsnum

record Message =
  m_key :: jsstr
  m_from :: MessageRole
  m_versions :: "MessageVersion list"
  m_sources :: "(jsstr \<times> jsstr) list option"
  m_reasoning :: "Reasoning option"
  m_isReasoningStreaming :: "bool option"
  m_isReasoningComplete :: "bool option"
  m_isContentComplete :: "bool option"
  m_status :: "MessageStatus option"
  m_errorCode :: "json option"

datatype ContentPart = TextPart jsstr | ImagePart jsstr
datatype MessageContent = PlainText jsstr | Parts "ContentPart list"

definition API_REQUEST_ERROR :: jsstr where "API_REQUEST_ERROR = ''Request error occurred''"
definition PARSE_ERROR :: jsstr where "PARSE_ERROR = ''Error parsing response data''"
definition STREAM_START_ERROR :: jsstr where "STREAM_START_ERROR = ''Error establishing connection''"
definition CONNECTION_CLOSED :: jsstr where "CONNECTION_CLOSED = ''Connection closed''"
definition INTERRUPTED :: jsstr where "INTERRUPTED = ''Generation was interrupted''"

subsection \<open>Creating and reading messages\<close>

definition createMessageVersion :: "jsstr \<Rightarrow> jsstr \<Rightarrow> MessageVersion" where
  "createMessageVersion nanoid content = \<lparr>v_id = Some nanoid, v_content = content\<rparr>"

definition getCurrentVersion :: "Message \<Rightarrow> MessageVersion" where
  "getCurrentVersion message = (case m_versions message of
       v # _ \<Rightarrow> v | [] \<Rightarrow> \<lparr>v_id = Some ''default'', v_content = ''''\<rparr>)"

definition updateCurrentVersionContent :: "Message \<Rightarrow> jsstr \<Rightarrow> Message" where
  "updateCurrentVersionContent message content =
     message\<lparr>m_versions := [(getCurrentVersion message)\<lparr>v_content := content\<rparr>]\<rparr>"

definition createUserMessage :: "jsstr \<Rightarrow> jsstr \<Rightarrow> jsstr \<Rightarrow> Message" where
  "createUserMessage id1 id2 content =
     \<lparr>m_key = id1, m_from = User, m_versions = [createMessageVersion id2 content],
      m_sources = None, m_reasoning = None, m_isReasoningStreaming = None,
      m_isReasoningComplete = None, m_isContentComplete = None, m_status = None, m_errorCode = None\<rparr>"

definition createLoadingAssistantMessage :: "jsstr \<Rightarrow> jsstr \<Rightarrow> Message" where
  "createLoadingAssistantMessage id1 id2 =
     \<lparr>m_key = id1, m_from = Assistant, m_versions = [createMessageVersion id2 ''''],
      m_sources = None, m_reasoning = None, m_isReasoningStreaming = Some False,
      m_isReasoningComplete = Some False, m_isContentComplete = Some False,
      m_status = Some Loading, m_errorCode = None\<rparr>"

definition buildMessageContent :: "jsstr \<Rightarrow> jsstr list \<Rightarrow> MessageContent" where
  "buildMessageContent txt imageUrls =
     (let validImages = filter (\<lambda>url. js_trim url \<noteq> []) imageUrls in
      if length validImages = 0 then PlainText txt
      else Parts (TextPart txt # map (\<lambda>url. ImagePart (js_trim url)) validImages))"

fun getTextContent :: "MessageContent \<Rightarrow> jsstr" where
  "getTextContent (PlainText content) = content"
| "getTextContent (Parts content) =
     (case find (\<lambda>p. case p of TextPart _ \<Rightarrow> True | ImagePart _ \<Rightarrow> False) content of
        Some (TextPart t) \<Rightarrow> t | _ \<Rightarrow> [])"

definition formatMessageForAPI :: "Message \<Rightarrow> MessageRole \<times> MessageContent" where
  "formatMessageForAPI message = (m_from message, PlainText (v_content (getCurrentVersion message)))"

definition isValidMessage :: "Message \<Rightarrow> bool" where
  "isValidMessage message = (case m_versions message of
       [] \<Rightarrow> False
     | v # _ \<Rightarrow> if m_from message = Assistant \<and> js_trim (v_content v) = [] then False else True)"

subsection \<open>Think tags\<close>

record ThinkParts =
  visibleContent :: jsstr
  reasoning :: jsstr
  hasUnclosedTag :: bool

abbreviation open_tag :: jsstr where "open_tag \<equiv> ''<think>''"
abbreviation close_tag :: jsstr where "close_tag \<equiv> ''</think>''"

lemma js_indexOf_bounds:
  assumes "js_indexOf s sub i = Some p" "sub \<noteq> []"
  shows "i \<le> p \<and> p + length sub \<le> length s"
proof -
  obtain q where q: "js_find sub (drop i s) = Some q" "p = i + q"
    using assms by (auto simp: js_indexOf_def)
  have "0 < length sub" using assms(2) by simp
  moreover have "q + length sub \<le> length s - i" using js_find_SomeD [OF q(1)] by simp
  ultimately show ?thesis using q(2) by linarith
qed

function think_loop :: "jsstr \<Rightarrow> nat \<Rightarrow> jsstr list \<Rightarrow> jsstr list \<Rightarrow> jsstr list \<times> jsstr list \<times> bool" where
  "think_loop content currentPos visibleParts reasoningParts =
     (case js_indexOf content open_tag currentPos of
        None \<Rightarrow>
          (if currentPos < length content then visibleParts @ [drop currentPos content] else visibleParts,
           reasoningParts, False)
      | Some openPos \<Rightarrow>
          (let vis = (if openPos > currentPos
                      then visibleParts @ [js_substring content currentPos openPos] else visibleParts) in
           case js_indexOf content close_tag (openPos + 7) of
             None \<Rightarrow> (vis, reasoningParts @ [drop (openPos + 7) content], True)
           | Some closePos \<Rightarrow>
               think_loop content (closePos + 8) vis
                 (reasoningParts @ [js_substring content (openPos + 7) closePos])))"
  by pat_completeness auto
termination
proof (relation "measure (\<lambda>(content, pos, _, _). Suc (length content) - pos)")
  fix content :: jsstr and pos openPos closePos and vp rp vis :: "jsstr list"
  assume 1: "js_indexOf content open_tag pos = Some openPos"
    and 2: "js_indexOf content close_tag (openPos + 7) = Some closePos"
  have "pos \<le> openPos" using js_indexOf_bounds [OF 1] by simp
  moreover have "openPos + 7 \<le> closePos" "closePos + 8 \<le> length content"
    using js_indexOf_bounds [OF 2] by auto
  ultimately show "((content, closePos + 8, vis, rp @ [js_substring content (openPos + 7) closePos]),
        (content, pos, vp, rp)) \<in> measure (\<lambda>(content, pos, _, _). Suc (length content) - pos)"
    by simp
qed simp

declare think_loop.simps [simp del]

definition parseThinkTags :: "jsstr \<Rightarrow> ThinkParts" where
  "parseThinkTags content =
     (if \<not> js_includes content open_tag
      then \<lparr>visibleContent = content, reasoning = [], hasUnclosedTag = False\<rparr>
      else (let (visibleParts, reasoningParts, hasUnclosed) = think_loop content 0 [] [] in
        \<lparr>visibleContent = js_trim (js_join [] visibleParts),
         reasoning = js_trim (js_join [CHR 0x0A, CHR 0x0A] reasoningParts),
         hasUnclosedTag = hasUnclosed\<rparr>))"

subsection \<open>Updating the conversation\<close>

definition updateLastAssistantMessage :: "Message list \<Rightarrow> (Message \<Rightarrow> Message) \<Rightarrow> Message list" where
  "updateLastAssistantMessage messages updater =
     (if length messages = 0 then messages
      else (let l = messages ! (length messages - 1) in
        if m_from l \<noteq> Assistant then messages
        else messages[length messages - 1 := updater l]))"

definition updateAssistantMessageWithError ::
    "Message list \<Rightarrow> jsstr \<Rightarrow> json option \<Rightarrow> Message list" where
  "updateAssistantMessageWithError messages errorMessage code =
     updateLastAssistantMessage messages (\<lambda>message.
       (updateCurrentVersionContent message (API_REQUEST_ERROR @ '': '' @ errorMessage))
         \<lparr>m_status := Some Error, m_isReasoningStreaming := Some False,
          m_errorCode := (if js_truthy code then code else Some JNull)\<rparr>)"

definition processStreamingContent :: "Message \<Rightarrow> jsstr option \<Rightarrow> Message" where
  "processStreamingContent message contentChunk =
     (let fullContent = (case contentChunk of
            Some ch \<Rightarrow> if ch \<noteq> [] then v_content (getCurrentVersion message) @ ch
                       else v_content (getCurrentVersion message)
          | None \<Rightarrow> v_content (getCurrentVersion message));
          parts = parseThinkTags fullContent;
          finalReasoning = (if reasoning parts \<noteq> []
            then Some \<lparr>r_content = reasoning parts, r_duration = num 0\<rparr> else m_reasoning message)
      in (updateCurrentVersionContent message fullContent)
           \<lparr>m_reasoning := finalReasoning, m_isReasoningStreaming := Some (hasUnclosedTag parts)\<rparr>)"

definition str_or :: "jsstr \<Rightarrow> jsstr \<Rightarrow> jsstr" where
  "str_or a b = (if a \<noteq> [] then a else b)"

definition finalizeMessage :: "Message \<Rightarrow> jsstr option \<Rightarrow> Message" where
  "finalizeMessage message apiReasoningContent =
     (let parts = parseThinkTags (v_content (getCurrentVersion message));
          finalReasoning =
            str_or (case apiReasoningContent of Some r \<Rightarrow> r | None \<Rightarrow> [])
              (str_or (case m_reasoning message of Some r \<Rightarrow> r_content r | None \<Rightarrow> []) (reasoning parts))
      in (updateCurrentVersionContent message (visibleContent parts))
           \<lparr>m_reasoning := (if finalReasoning \<noteq> []
               then Some \<lparr>r_content = finalReasoning,
                          r_duration = (case m_reasoning message of
                             Some r \<Rightarrow> num_or (r_duration r) (num 0) | None \<Rightarrow> num 0)\<rparr>
               else None),
            m_isReasoningStreaming := Some False\<rparr>)"

definition is_stuck :: "Message \<Rightarrow> bool" where
  "is_stuck m \<longleftrightarrow> m_from m = Assistant \<and> (m_status m = Some Loading \<or> m_status m = Some Streaming)"

fun last_stuck :: "Message list \<Rightarrow> nat \<Rightarrow> nat option" where
  \<comment> \<open>the loop from index \<open>i - 1\<close> down to 0\<close>
  "last_stuck messages 0 = None"
| "last_stuck messages (Suc i) = (if is_stuck (messages ! i) then Some i else last_stuck messages i)"

definition sanitize_message :: "Message \<Rightarrow> Message" where
  "sanitize_message m =
     (let finalized = finalizeMessage m None;
          hasContent = (case m_versions finalized of v # _ \<Rightarrow> js_trim (v_content v) \<noteq> [] | [] \<Rightarrow> False);
          hasReasoning = (case m_reasoning finalized of Some r \<Rightarrow> js_trim (r_content r) \<noteq> [] | None \<Rightarrow> False)
      in if hasContent \<or> hasReasoning
         then finalized\<lparr>m_status := Some Complete, m_isReasoningStreaming := Some False\<rparr>
         else (updateCurrentVersionContent finalized (API_REQUEST_ERROR @ '': '' @ INTERRUPTED))
                \<lparr>m_status := Some Error, m_isReasoningStreaming := Some False\<rparr>)"

definition sanitizeMessagesOnLoad :: "Message list \<Rightarrow> Message list" where
  "sanitizeMessagesOnLoad messages = (case last_stuck messages (length messages) of
       None \<Rightarrow> messages
     | Some targetIndex \<Rightarrow> messages[targetIndex := sanitize_message (messages ! targetIndex)])"

subsection \<open>The request payload\<close>

record PlaygroundConfig =
  c_model :: jsstr
  c_group :: jsstr
  c_temperature :: jsnum
  c_top_p :: jsnum
  c_max_tokens :: jsnum
  c_frequency_penalty :: jsnum
  c_presence_penalty :: jsnum
  c_seed :: "jsnum option"
  c_stream :: bool

record ParameterEnabled =
  e_temperature :: bool
  e_top_p :: bool
  e_max_tokens :: bool
  e_frequency_penalty :: bool
  e_presence_penalty :: bool
  e_seed :: bool

record ChatCompletionRequest =
  q_model :: jsstr
  q_group :: "jsstr option"
  q_messages :: "(MessageRole \<times> MessageContent) list"
  q_stream :: bool
  q_temperature :: "jsnum option"
  q_top_p :: "jsnum option"
  q_max_tokens :: "jsnum option"
  q_frequency_penalty :: "jsnum option"
  q_presence_penalty :: "jsnum option"
  q_seed :: "jsnum option"

definition buildChatCompletionPayload ::
    "Message list \<Rightarrow> PlaygroundConfig \<Rightarrow> ParameterEnabled \<Rightarrow> ChatCompletionRequest" where
  "buildChatCompletionPayload messages config enabled =
     \<lparr>q_model = c_model config, q_group = Some (c_group config),
      q_messages = map formatMessageForAPI (filter isValidMessage messages),
      q_stream = c_stream config,
      q_temperature = (if e_temperature enabled then Some (c_temperature config) else None),
      q_top_p = (if e_top_p enabled then Some (c_top_p config) else None),
      q_max_tokens = (if e_max_tokens enabled then Some (c_max_tokens config) else None),
      q_frequency_penalty = (if e_frequency_penalty enabled then Some (c_frequency_penalty config) else None),
      q_presence_penalty = (if e_presence_penalty enabled then Some (c_presence_penalty config) else None),
      q_seed = (if e_seed enabled then c_seed config else None)\<rparr>"

subsection \<open>Think tags: the loop on positions and the text it reads\<close>

function think_ref :: "jsstr \<Rightarrow> jsstr list \<times> jsstr list \<times> bool" where
  "think_ref s = (case js_find open_tag s of
       None \<Rightarrow> (if s \<noteq> [] then [s] else [], [], False)
     | Some i \<Rightarrow>
         (let vis = (if i > 0 then [take i s] else []); rest = drop (i + 7) s in
          case js_find close_tag rest of
            None \<Rightarrow> (vis, [rest], True)
          | Some j \<Rightarrow> (let (v, r, u) = think_ref (drop (j + 8) rest) in (vis @ v, take j rest # r, u))))"
  by pat_completeness auto
termination
proof (relation "measure length")
  fix s i vis rest j
  assume "js_find open_tag s = Some i" and r: "rest = drop (i + 7) s" and j: "js_find close_tag rest = Some j"
  then have "j + 8 \<le> length rest" using js_find_SomeD [OF j] by simp
  then show "(drop (j + 8) rest, s) \<in> measure length" using r by simp
qed simp

declare think_ref.simps [simp del]

lemma think_loop_ref:
  "think_loop content pos vp rp =
     (let (v, r, u) = think_ref (drop pos content) in (vp @ v, rp @ r, u))"
proof (induction content pos vp rp rule: think_loop.induct)
  case (1 content pos vp rp)
  show ?case
  proof (cases "js_find open_tag (drop pos content)")
    case None
    then show ?thesis
      by (subst think_loop.simps, subst think_ref.simps) (auto simp: js_indexOf_def)
  next
    case (Some i)
    define rest where "rest = drop (i + 7) (drop pos content)"
    have rest: "drop (pos + i + 7) content = rest" unfolding rest_def drop_drop by (simp add: ac_simps)
    have sub: "js_substring content pos (pos + i) = take i (drop pos content)"
      by (simp add: js_substring_def)
    let ?vis = "if 0 < i then vp @ [take i (drop pos content)] else vp"
    have o: "js_indexOf content open_tag pos = Some (pos + i)" using Some by (simp add: js_indexOf_def)
    show ?thesis
    proof (cases "js_find close_tag rest")
      case None
      then have "js_indexOf content close_tag (pos + i + 7) = None" by (simp add: js_indexOf_def rest)
      then show ?thesis
        using None Some o sub rest
        by (subst think_loop.simps, subst think_ref.simps) (simp add: Let_def rest_def)
    next
      case (Some j)
      then have c: "js_indexOf content close_tag (pos + i + 7) = Some (pos + i + 7 + j)"
        by (simp add: js_indexOf_def rest)
      have r: "js_substring content (pos + i + 7) (pos + i + 7 + j) = take j rest"
        by (simp add: js_substring_def rest)
      have d: "drop (pos + i + 7 + j + 8) content = drop (j + 8) rest"
        unfolding rest_def drop_drop by (simp add: ac_simps)
      have "think_loop content pos vp rp =
          think_loop content (pos + i + 7 + j + 8) ?vis (rp @ [take j rest])"
        using o c r sub by (subst think_loop.simps) (simp add: Let_def)
      also have "\<dots> = (let (v, r, u) = think_ref (drop (j + 8) rest) in (?vis @ v, (rp @ [take j rest]) @ r, u))"
        using 1 [OF o refl c] r sub d by (simp add: Let_def cong: if_cong)
      also have "\<dots> = (let (v, r, u) = think_ref (drop pos content) in (vp @ v, rp @ r, u))"
        using \<open>js_find open_tag (drop pos content) = Some i\<close> Some
        by (subst (2) think_ref.simps) (auto simp: Let_def rest_def split: prod.splits)
      finally show ?thesis .
    qed
  qed
qed

text \<open>A tag whose first character occurs only once in it is found at the end of a text without it.\<close>

lemma js_find_first:
  assumes "js_find (x # xs) v = None" "x \<notin> set xs"
  shows "js_find (x # xs) (v @ (x # xs) @ t) = Some (length v)"
  using assms(1)
proof (induction v)
  case Nil
  then show ?case by simp
next
  case (Cons c v)
  have n: "\<not> js_startsWith (c # v @ (x # xs) @ t) (x # xs)"
  proof
    assume "js_startsWith (c # v @ (x # xs) @ t) (x # xs)"
    then obtain w where "(c # v) @ ((x # xs) @ t) = (x # xs) @ w"
      by (auto simp: js_startsWith_iff)
    then obtain us where "(c # v = (x # xs) @ us \<and> us @ ((x # xs) @ t) = w) \<or>
        ((c # v) @ us = x # xs \<and> (x # xs) @ t = us @ w)"
      unfolding append_eq_append_conv2 by blast
    moreover have "c # v \<noteq> (x # xs) @ us"
      using Cons.prems js_find_None_iff [of "x # xs" "c # v"] by (metis append_Nil)
    ultimately have us: "(c # v) @ us = x # xs" "(x # xs) @ t = us @ w" by blast+
    then have "xs = v @ us" by simp
    moreover have "us \<noteq> []"
      using us(1) Cons.prems js_find_None_iff [of "x # xs" "c # v"] by (metis append_Nil append_Nil2)
    moreover from this have "hd us = x" using us(2) by (cases us) auto
    ultimately show False using assms(2) by (metis Un_iff hd_in_set set_append)
  qed
  moreover have "js_find (x # xs) v = None" using Cons.prems by (auto split: if_splits)
  ultimately show ?case using Cons.IH by simp
qed

fun render_think :: "(jsstr \<times> jsstr) list \<Rightarrow> jsstr \<Rightarrow> jsstr option \<Rightarrow> jsstr" where
  "render_think [] tail None = tail"
| "render_think [] tail (Some buffer) = tail @ open_tag @ buffer"
| "render_think ((v, r) # segs) tail pending = v @ open_tag @ r @ close_tag @ render_think segs tail pending"

definition plain_segs :: "(jsstr \<times> jsstr) list \<Rightarrow> jsstr \<Rightarrow> jsstr option \<Rightarrow> bool" where
  "plain_segs segs tail pending \<longleftrightarrow>
     (\<forall>(v, r) \<in> set segs. \<not> js_includes v open_tag \<and> \<not> js_includes r close_tag) \<and>
     \<not> js_includes tail open_tag \<and> (case pending of None \<Rightarrow> True | Some b \<Rightarrow> \<not> js_includes b close_tag)"

lemma think_ref_Some:
  assumes "\<not> js_includes v open_tag"
  shows "think_ref (v @ open_tag @ rest) =
    (case js_find close_tag rest of
       None \<Rightarrow> (if v \<noteq> [] then [v] else [], [rest], True)
     | Some j \<Rightarrow> (let (vs, r, u) = think_ref (drop (j + 8) rest)
         in ((if v \<noteq> [] then [v] else []) @ vs, take j rest # r, u)))"
proof -
  have f: "js_find open_tag (v @ open_tag @ rest) = Some (length v)"
    using js_find_first [of "CHR ''<''" "''think>''" v rest] assms by (simp add: js_includes_def)
  have d: "drop (length v + 7) (v @ open_tag @ rest) = rest"
    "take (length v) (v @ open_tag @ rest) = v" by simp_all
  show ?thesis by (subst think_ref.simps, unfold f option.case Let_def d) simp
qed

lemma think_ref_render:
  assumes "plain_segs segs tail pending"
  shows "\<exists>vs. think_ref (render_think segs tail pending) =
      (vs, map snd segs @ (case pending of None \<Rightarrow> [] | Some b \<Rightarrow> [b]), pending \<noteq> None) \<and>
    js_join [] vs = concat (map fst segs) @ tail"
  using assms
proof (induction segs tail pending rule: render_think.induct)
  case (1 tail)
  then have "js_find open_tag tail = None" by (simp add: plain_segs_def js_includes_def)
  then show ?case by (subst render_think.simps, subst think_ref.simps) simp
next
  case (2 tail b)
  then have "js_find close_tag b = None" "\<not> js_includes tail open_tag"
    by (simp_all add: plain_segs_def js_includes_def)
  then show ?case using think_ref_Some [of tail b] by simp
next
  case (3 v r segs tail pending)
  then have v: "\<not> js_includes v open_tag" and r: "\<not> js_includes r close_tag"
    and p: "plain_segs segs tail pending" by (auto simp: plain_segs_def)
  let ?rest = "r @ close_tag @ render_think segs tail pending"
  have "js_find close_tag ?rest = Some (length r)"
    using js_find_first [of "CHR ''<''" "''/think>''" r "render_think segs tail pending"] r
    by (simp add: js_includes_def)
  moreover obtain vs where vs: "think_ref (render_think segs tail pending) =
      (vs, map snd segs @ (case pending of None \<Rightarrow> [] | Some b \<Rightarrow> [b]), pending \<noteq> None)"
    "js_join [] vs = concat (map fst segs) @ tail" using 3(1) [OF p] by blast
  ultimately have "think_ref (render_think ((v, r) # segs) tail pending) =
      ((if v \<noteq> [] then [v] else []) @ vs,
       map snd ((v, r) # segs) @ (case pending of None \<Rightarrow> [] | Some b \<Rightarrow> [b]), pending \<noteq> None)"
    using think_ref_Some [OF v, of ?rest] by simp
  moreover have "js_join [] ((if v \<noteq> [] then [v] else []) @ vs) = concat (map fst ((v, r) # segs)) @ tail"
    using vs(2) by (cases vs) auto
  ultimately show ?case by blast
qed

subsection \<open>Facts about the updates\<close>

lemma updateLast_snoc:
  "updateLastAssistantMessage (ms @ [m]) f = ms @ [if m_from m = Assistant then f m else m]"
  by (simp add: updateLastAssistantMessage_def Let_def)

lemma updateLast_cases:
  "updateLastAssistantMessage ms f =
     (if ms = [] then [] else butlast ms @ [if m_from (last ms) = Assistant then f (last ms) else last ms])"
  by (cases ms rule: rev_cases) (simp_all add: updateLast_snoc, simp add: updateLastAssistantMessage_def)

lemma update_content_simps [simp]:
  "m_key (updateCurrentVersionContent m c) = m_key m"
  "m_from (updateCurrentVersionContent m c) = m_from m"
  "m_status (updateCurrentVersionContent m c) = m_status m"
  "m_reasoning (updateCurrentVersionContent m c) = m_reasoning m"
  "v_content (getCurrentVersion (updateCurrentVersionContent m c)) = c"
  by (simp_all add: updateCurrentVersionContent_def getCurrentVersion_def)

lemma finalize_simps [simp]:
  "m_key (finalizeMessage m a) = m_key m"
  "m_from (finalizeMessage m a) = m_from m"
  "m_status (finalizeMessage m a) = m_status m"
  by (simp_all add: finalizeMessage_def Let_def)

lemma current_content_update [simp]:
  "v_content (getCurrentVersion (m\<lparr>m_status := s\<rparr>)) = v_content (getCurrentVersion m)"
  "v_content (getCurrentVersion (m\<lparr>m_reasoning := r\<rparr>)) = v_content (getCurrentVersion m)"
  "v_content (getCurrentVersion (m\<lparr>m_isReasoningStreaming := b\<rparr>)) = v_content (getCurrentVersion m)"
  by (simp_all add: getCurrentVersion_def)

lemma finalize_content [simp]:
  "v_content (getCurrentVersion (finalizeMessage m a)) =
     visibleContent (parseThinkTags (v_content (getCurrentVersion m)))"
  by (simp add: finalizeMessage_def Let_def)

lemma streaming_simps [simp]:
  "m_key (processStreamingContent m oc) = m_key m"
  "m_from (processStreamingContent m oc) = m_from m"
  "v_content (getCurrentVersion (processStreamingContent m (Some c))) = v_content (getCurrentVersion m) @ c"
  by (simp_all add: processStreamingContent_def Let_def)

lemma sanitize_not_stuck: "\<not> is_stuck (sanitize_message m)"
  by (simp add: sanitize_message_def Let_def is_stuck_def)

lemma last_stuck_None: "last_stuck ms n = None \<longleftrightarrow> (\<forall>i < n. \<not> is_stuck (ms ! i))"
  by (induction n) (auto simp: less_Suc_eq)

lemma last_stuck_Some:
  "last_stuck ms n = Some i \<Longrightarrow> i < n \<and> is_stuck (ms ! i) \<and> (\<forall>j. i < j \<and> j < n \<longrightarrow> \<not> is_stuck (ms ! j))"
  by (induction n) (auto simp: less_Suc_eq split: if_splits)

lemma filter_update_length:
  "i < length xs \<Longrightarrow> P (xs ! i) \<Longrightarrow> \<not> P y \<Longrightarrow> Suc (length (filter P (xs[i := y]))) = length (filter P xs)"
proof (induction xs arbitrary: i)
  case (Cons x xs)
  then show ?case by (cases i) auto
qed simp

subsection \<open>Properties\<close>

text \<open>C34. Reading a text made of visible pieces, closed think blocks and at most one open block at
  its end gives back the pieces: the visible content is their trimmed concatenation, the
  reasoning joins the blocks by blank lines, and the flag says whether a block is open. The
  pieces are free, except that a visible piece has no opening tag and a block no closing tag.\<close>

theorem think_tags_roundtrip:
  assumes "plain_segs segs tail pending" and "segs \<noteq> [] \<or> pending \<noteq> None"
  shows "parseThinkTags (render_think segs tail pending) =
    \<lparr>visibleContent = js_trim (concat (map fst segs) @ tail),
     reasoning = js_trim (js_join [CHR 0x0A, CHR 0x0A]
        (map snd segs @ (case pending of None \<Rightarrow> [] | Some b \<Rightarrow> [b]))),
     hasUnclosedTag = (pending \<noteq> None)\<rparr>"
proof -
  have "\<exists>a b. render_think segs tail pending = a @ open_tag @ b"
    using assms(2) by (cases "(segs, tail, pending)" rule: render_think.cases) auto
  then have "js_includes (render_think segs tail pending) open_tag" by (simp only: js_includes_iff)
  moreover obtain vs where "think_ref (render_think segs tail pending) =
      (vs, map snd segs @ (case pending of None \<Rightarrow> [] | Some b \<Rightarrow> [b]), pending \<noteq> None)"
    "js_join [] vs = concat (map fst segs) @ tail"
    using think_ref_render [OF assms(1)] by blast
  ultimately show ?thesis by (simp add: parseThinkTags_def think_loop_ref)
qed

theorem think_tags_roundtrip_witness:
  "parseThinkTags ''hi <think>plan</think>there'' =
     \<lparr>visibleContent = ''hi there'', reasoning = ''plan'', hasUnclosedTag = False\<rparr>"
proof -
  have "plain_segs [(''hi '', ''plan'')] ''there'' None" by (simp add: plain_segs_def js_includes_def)
  from think_tags_roundtrip [OF this] show ?thesis by (simp add: js_trim_def js_ws_def)
qed

text \<open>Loading the stored conversation settles exactly one stuck assistant message, the last one:
  afterwards there is one stuck message less, and every other message is untouched.\<close>

theorem sanitize_settles_last:
  "case last_stuck ms (length ms) of
     None \<Rightarrow> filter is_stuck ms = [] \<and> sanitizeMessagesOnLoad ms = ms
   | Some i \<Rightarrow>
      sanitizeMessagesOnLoad ms = take i ms @ sanitize_message (ms ! i) # drop (Suc i) ms \<and>
      Suc (length (filter is_stuck (sanitizeMessagesOnLoad ms))) = length (filter is_stuck ms) \<and>
      filter is_stuck (drop i (sanitizeMessagesOnLoad ms)) = []"
proof (cases "last_stuck ms (length ms)")
  case None
  then have "\<not> is_stuck x" if "x \<in> set ms" for x
    using that last_stuck_None [of ms "length ms"] by (metis in_set_conv_nth)
  then show ?thesis using None by (simp add: sanitizeMessagesOnLoad_def filter_empty_conv)
next
  case (Some i)
  note s = last_stuck_Some [OF Some]
  have e: "sanitizeMessagesOnLoad ms = ms[i := sanitize_message (ms ! i)]"
    by (simp add: sanitizeMessagesOnLoad_def Some)
  have split: "ms[i := sanitize_message (ms ! i)] = take i ms @ sanitize_message (ms ! i) # drop (Suc i) ms"
    using s by (simp add: upd_conv_take_nth_drop)
  have "\<not> is_stuck x" if "x \<in> set (drop (Suc i) ms)" for x
    using that s by (auto simp: in_set_conv_nth)
  then have "filter is_stuck (drop (Suc i) ms) = []" by (simp add: filter_empty_conv)
  moreover have "drop i (ms[i := sanitize_message (ms ! i)]) = sanitize_message (ms ! i) # drop (Suc i) ms"
    using s by (simp add: split)
  moreover have "Suc (length (filter is_stuck (ms[i := sanitize_message (ms ! i)]))) = length (filter is_stuck ms)"
    using s sanitize_not_stuck filter_update_length [of i ms is_stuck] by blast
  ultimately show ?thesis using Some e split sanitize_not_stuck by simp
qed

text \<open>A request carries the valid messages in their order, and no blank assistant message.\<close>

theorem payload_no_blank_assistant:
  "(role, content) \<in> set (q_messages (buildChatCompletionPayload ms cfg en)) \<Longrightarrow> role = Assistant \<Longrightarrow>
     js_trim (getTextContent content) \<noteq> []"
  by (auto simp: buildChatCompletionPayload_def formatMessageForAPI_def isValidMessage_def
      getCurrentVersion_def split: list.splits if_splits)

end
