(* ===== verification/Playground_Stream.thy ===== *)
theory Playground_Stream
  imports Playground_Messages
begin

section \<open>The streaming chat of the playground\<close>

text \<open>
  Model of \<^verbatim>\<open>features/playground/hooks/use-stream-request.ts\<close> and
  \<^verbatim>\<open>features/playground/hooks/use-chat-handler.ts\<close>: the reaction of the conversation to the events of a
  server-sent event source. The source is a third-party object; the model has its identity and
  whether \<open>close\<close> was called, and lets its events arrive in any order, also after it was closed.
  What an event reads of the source (\<open>readyState\<close>, \<open>status\<close>) is part of the event. Toasts and
  console output are left out.
\<close>

subsection \<open>Callbacks of the chat handler\<close>

datatype UpdateType = ReasoningChunk | ContentChunk

definition stream_update_message :: "UpdateType \<Rightarrow> jsstr \<Rightarrow> Message \<Rightarrow> Message" where
  "stream_update_message ty chunk message =
     (if m_status message = Some Error then message
      else if ty = ReasoningChunk then
        message\<lparr>m_reasoning := Some \<lparr>r_content =
            (case m_reasoning message of Some r \<Rightarrow> r_content r | None \<Rightarrow> []) @ chunk, r_duration = num 0\<rparr>,
          m_isReasoningStreaming := Some True, m_status := Some Streaming\<rparr>
      else (processStreamingContent message (Some chunk))\<lparr>m_status := Some Streaming\<rparr>)"

definition handleStreamUpdate :: "UpdateType \<Rightarrow> jsstr \<Rightarrow> Message list \<Rightarrow> Message list" where
  "handleStreamUpdate ty chunk prev = updateLastAssistantMessage prev (stream_update_message ty chunk)"

definition complete_message :: "Message \<Rightarrow> Message" where
  "complete_message message =
     (if m_status message = Some Complete \<or> m_status message = Some Error then message
      else (finalizeMessage message None)\<lparr>m_status := Some Complete\<rparr>)"

definition handleStreamComplete :: "Message list \<Rightarrow> Message list" where
  "handleStreamComplete prev = updateLastAssistantMessage prev complete_message"

definition handleStreamError :: "jsstr \<Rightarrow> json option \<Rightarrow> Message list \<Rightarrow> Message list" where
  "handleStreamError err errorCode prev = updateAssistantMessageWithError prev err errorCode"

definition stop_message :: "Message \<Rightarrow> Message" where
  "stop_message message =
     (if m_status message = Some Loading \<or> m_status message = Some Streaming
      then (finalizeMessage message None)\<lparr>m_status := Some Complete\<rparr> else message)"

subsection \<open>The non-streaming request\<close>

record ResponseMessage =
  rm_content :: "jsstr option"
  rm_reasoning_content :: "jsstr option"

datatype ChatOutcome =
    Response "ResponseMessage option option"
    \<comment> \<open>\<open>choices?.[0]\<close>, and its optional \<open>message\<close>\<close>
  | Failure "jsstr option" "jsstr option" "json option"
    \<comment> \<open>\<open>response.data.message\<close>, \<open>message\<close> and \<open>response.data.error.code\<close> of the error\<close>

definition opt_str :: "jsstr option \<Rightarrow> jsstr" where
  "opt_str s = (case s of Some x \<Rightarrow> x | None \<Rightarrow> [])"

definition answer_message :: "ResponseMessage option \<Rightarrow> Message \<Rightarrow> Message" where
  "answer_message rm message =
     (let content = opt_str (case rm of Some r \<Rightarrow> rm_content r | None \<Rightarrow> None);
          ver = (case m_versions message of
             v # _ \<Rightarrow> v\<lparr>v_content := content\<rparr> | [] \<Rightarrow> \<lparr>v_id = None, v_content = content\<rparr>)
      in (finalizeMessage (message\<lparr>m_versions := [ver]\<rparr>)
            (case rm of Some r \<Rightarrow> rm_reasoning_content r | None \<Rightarrow> None))\<lparr>m_status := Some Complete\<rparr>)"

fun sendNonStreamingChat :: "ChatOutcome \<Rightarrow> Message list \<Rightarrow> Message list" where
  "sendNonStreamingChat (Response None) prev = prev"
| "sendNonStreamingChat (Response (Some rm)) prev = updateLastAssistantMessage prev (answer_message rm)"
| "sendNonStreamingChat (Failure dataMessage message code) prev =
     handleStreamError
       (str_or (opt_str dataMessage) (str_or (opt_str message) API_REQUEST_ERROR))
       (if js_truthy code then code else None) prev"

subsection \<open>The stream request\<close>

record StreamState =
  sseSourceRef :: "nat option"
  isStreamComplete :: bool
  closedSources :: "nat list"
  msgs :: "Message list"

definition closeSource :: "nat \<Rightarrow> StreamState \<Rightarrow> StreamState" where
  "closeSource source st = st\<lparr>closedSources := source # closedSources st, sseSourceRef := None\<rparr>"

definition onError :: "jsstr \<Rightarrow> json option \<Rightarrow> StreamState \<Rightarrow> StreamState" where
  "onError err code st = st\<lparr>msgs := handleStreamError err code (msgs st)\<rparr>"

definition onUpdate :: "UpdateType \<Rightarrow> jsstr \<Rightarrow> StreamState \<Rightarrow> StreamState" where
  "onUpdate ty chunk st = st\<lparr>msgs := handleStreamUpdate ty chunk (msgs st)\<rparr>"

definition onComplete :: "StreamState \<Rightarrow> StreamState" where
  "onComplete st = st\<lparr>msgs := handleStreamComplete (msgs st)\<rparr>"

definition handleError :: "nat \<Rightarrow> jsstr \<Rightarrow> json option \<Rightarrow> StreamState \<Rightarrow> StreamState" where
  "handleError source errorMessage errorCode st =
     (if \<not> isStreamComplete st then closeSource source (onError errorMessage errorCode st) else st)"

text \<open>\<open>choices?.[0]\<close>; of the accesses of a chunk only \<open>chunk.choices\<close>, with \<open>chunk\<close> null, can throw.\<close>

fun elem0 :: "json option \<Rightarrow> json option" where
  "elem0 (Some (JArr (v # _))) = Some v"
| "elem0 (Some (JObj kvs)) = obj_get ''0'' kvs"
| "elem0 (Some (JStr (c # _))) = Some (JStr [c])"
| "elem0 _ = None"

definition feed :: "UpdateType \<Rightarrow> json option \<Rightarrow> StreamState \<Rightarrow> StreamState" where
  "feed ty chunk st = (case chunk of
       Some v \<Rightarrow> if js_truthy (Some v) then onUpdate ty (js_String v) st else st
     | None \<Rightarrow> st)"

definition on_message :: "nat \<Rightarrow> jsstr \<Rightarrow> StreamState \<Rightarrow> StreamState" where
  "on_message source data st =
     (if data = ''[DONE]'' then onComplete (closeSource source (st\<lparr>isStreamComplete := True\<rparr>))
      else (case json_parse data of
          None \<Rightarrow> handleError source PARSE_ERROR None st
        | Some JNull \<Rightarrow> handleError source PARSE_ERROR None st
        | Some chunk \<Rightarrow>
            (let delta = js_prop (elem0 (js_prop (Some chunk) ''choices'')) ''delta'' in
             if js_truthy delta
             then feed ContentChunk (js_prop delta ''content'') (feed ReasoningChunk (js_prop delta ''reasoning_content'') st)
             else st)))"

definition error_details :: "jsstr option \<Rightarrow> jsstr \<times> json option" where
  "error_details data =
     (let raw = str_or (opt_str data) API_REQUEST_ERROR in
      if opt_str data = [] then (raw, None)
      else (let err = js_prop (json_parse (opt_str data)) ''error'' in
            if js_truthy err
            then ((if js_truthy (js_prop err ''message'') then js_String (the (js_prop err ''message'')) else raw),
                  (if js_truthy (js_prop err ''code'') then js_prop err ''code'' else None))
            else (raw, None)))"

definition on_error :: "nat \<Rightarrow> jsnum \<Rightarrow> jsstr option \<Rightarrow> StreamState \<Rightarrow> StreamState" where
  "on_error source readyState data st =
     (if readyState \<noteq> num 2
      then (case error_details data of (message, code) \<Rightarrow> handleError source message code st)
      else st)"

definition on_readystatechange :: "nat \<Rightarrow> jsnum option \<Rightarrow> jsnum option \<Rightarrow> StreamState \<Rightarrow> StreamState" where
  "on_readystatechange source readyState status st = (case (readyState, status) of
       (Some rs, Some code) \<Rightarrow>
         if js_le (num 2) rs \<and> code \<noteq> num 200
         then handleError source (''HTTP '' @ js_num_str code @ '': '' @ CONNECTION_CLOSED) None st else st
     | _ \<Rightarrow> st)"

definition sendStreamRequest :: "nat \<Rightarrow> bool \<Rightarrow> StreamState \<Rightarrow> StreamState" where
  \<comment> \<open>\<open>started\<close> is False when \<open>source.stream()\<close> throws\<close>
  "sendStreamRequest source started st =
     (let st1 = st\<lparr>sseSourceRef := Some source, isStreamComplete := False\<rparr> in
      if started then st1 else (onError STREAM_START_ERROR None st1)\<lparr>sseSourceRef := None\<rparr>)"

definition stopStream :: "StreamState \<Rightarrow> StreamState" where
  "stopStream st = (case sseSourceRef st of
       Some s \<Rightarrow> st\<lparr>closedSources := s # closedSources st, sseSourceRef := None\<rparr>
     | None \<Rightarrow> st)"

definition isStreaming :: "StreamState \<Rightarrow> bool" where
  "isStreaming st \<longleftrightarrow> sseSourceRef st \<noteq> None"

definition stopGeneration :: "StreamState \<Rightarrow> StreamState" where
  "stopGeneration st = (let st1 = stopStream st in
     st1\<lparr>msgs := updateLastAssistantMessage (msgs st1) stop_message\<rparr>)"

text \<open>The events the conversation reacts to between two requests of the user.\<close>

datatype StreamEvent =
    EvMessage nat jsstr
  | EvError nat jsnum "jsstr option"
  | EvReadyState nat "jsnum option" "jsnum option"
  | EvStop

fun step_event :: "StreamEvent \<Rightarrow> StreamState \<Rightarrow> StreamState" where
  "step_event (EvMessage s d) st = on_message s d st"
| "step_event (EvError s r d) st = on_error s r d st"
| "step_event (EvReadyState s r c) st = on_readystatechange s r c st"
| "step_event EvStop st = stopGeneration st"

subsection \<open>Every event updates at most the last message\<close>

text \<open>What an event does to the conversation: one update of the last assistant message, or two (a
  chunk with reasoning and content), each by a function that keeps the key and the role.\<close>

inductive updates :: "(Message \<Rightarrow> Message) set \<Rightarrow> Message list \<Rightarrow> Message list \<Rightarrow> bool" for F where
  updates_refl: "updates F ms ms"
| updates_step: "updates F ms ms' \<Longrightarrow> f \<in> F \<Longrightarrow> updates F ms (updateLastAssistantMessage ms' f)"

definition error_message :: "jsstr \<Rightarrow> json option \<Rightarrow> Message \<Rightarrow> Message" where
  "error_message err code message =
     (updateCurrentVersionContent message (API_REQUEST_ERROR @ '': '' @ err))
       \<lparr>m_status := Some Error, m_isReasoningStreaming := Some False,
        m_errorCode := (if js_truthy code then code else Some JNull)\<rparr>"

definition event_updates :: "(Message \<Rightarrow> Message) set" where
  "event_updates = {stream_update_message ty c | ty c. True} \<union> {complete_message, stop_message} \<union>
     {error_message e c | e c. True}"

lemma updates_one: "f \<in> F \<Longrightarrow> updates F ms (updateLastAssistantMessage ms f)"
  by (rule updates_step [OF updates_refl])

lemma handleError_updates: "updates event_updates (msgs st) (msgs (handleError s e c st))"
proof (cases "isStreamComplete st")
  case False
  have "msgs (handleError s e c st) = updateLastAssistantMessage (msgs st) (error_message e c)"
    using False by (simp add: handleError_def closeSource_def onError_def handleStreamError_def
        updateAssistantMessageWithError_def error_message_def [abs_def])
  then show ?thesis by (auto intro!: updates_one simp: event_updates_def)
qed (simp add: handleError_def updates_refl)

lemma feed_updates: "updates event_updates ms (msgs st) \<Longrightarrow> updates event_updates ms (msgs (feed ty c st))"
  by (auto simp: feed_def onUpdate_def handleStreamUpdate_def event_updates_def
      intro!: updates_step split: option.splits)

lemma step_event_updates: "updates event_updates (msgs st) (msgs (step_event e st))"
proof (cases e)
  case (EvMessage s d)
  show ?thesis
  proof (cases "d = ''[DONE]''")
    case True
    then show ?thesis using EvMessage
      by (auto simp: on_message_def onComplete_def closeSource_def handleStreamComplete_def event_updates_def
          intro!: updates_one)
  next
    case False
    then show ?thesis using EvMessage handleError_updates
      by (auto simp: on_message_def Let_def intro!: feed_updates updates_refl split: option.splits json.splits)
  qed
next
  case (EvError s r d)
  then show ?thesis using handleError_updates
    by (auto simp: on_error_def intro: updates_refl split: prod.splits)
next
  case (EvReadyState s r c)
  then show ?thesis using handleError_updates
    by (auto simp: on_readystatechange_def intro: updates_refl split: option.splits)
next
  case EvStop
  have "msgs (stopStream st) = msgs st" by (simp add: stopStream_def split: option.splits)
  then show ?thesis using EvStop
    by (auto simp: stopGeneration_def Let_def event_updates_def intro!: updates_one)
qed

text \<open>An invariant of the last assistant message that every update function keeps is kept by
  every event.\<close>

definition last_assistant :: "(Message \<Rightarrow> bool) \<Rightarrow> Message list \<Rightarrow> bool" where
  "last_assistant P ms \<longleftrightarrow> ms \<noteq> [] \<and> m_from (last ms) = Assistant \<and> P (last ms)"

lemma update_identity: "f \<in> event_updates \<Longrightarrow> m_key (f m) = m_key m \<and> m_from (f m) = m_from m"
  by (auto simp: event_updates_def stream_update_message_def complete_message_def stop_message_def error_message_def)

lemma updates_last:
  assumes "updates event_updates ms ms'" "last_assistant P ms"
    and "\<And>f m. f \<in> event_updates \<Longrightarrow> P m \<Longrightarrow> P (f m)"
  shows "last_assistant P ms'"
  using assms(1,2)
proof (induction rule: updates.induct)
  case (updates_step ms ms' f)
  then have "last_assistant P ms'" by simp
  then show ?case using update_identity [OF updates_step(2)] assms(3) [OF updates_step(2)]
    by (auto simp: last_assistant_def updateLast_cases)
qed simp

lemma updates_frame:
  "updates event_updates ms ms' \<Longrightarrow>
     butlast ms' = butlast ms \<and> map m_key ms' = map m_key ms \<and> map m_from ms' = map m_from ms"
proof (induction rule: updates.induct)
  case (updates_step ms ms' f)
  then show ?case using update_identity [OF updates_step(2)]
    by (cases ms' rule: rev_cases) (auto simp: updateLast_cases)
qed simp

text \<open>The two invariants of the event loop: an error is final, and a settled message shows no
  running reasoning.\<close>

definition is_failed :: "Message \<Rightarrow> bool" where
  "is_failed m \<longleftrightarrow> m_status m = Some Error"

definition settled_ok :: "Message \<Rightarrow> bool" where
  "settled_ok m \<longleftrightarrow> (m_status m \<in> {Some Complete, Some Error} \<longrightarrow> m_isReasoningStreaming m = Some False)"

lemma failed_kept: "f \<in> event_updates \<Longrightarrow> is_failed m \<Longrightarrow> is_failed (f m)"
  by (auto simp: event_updates_def is_failed_def stream_update_message_def complete_message_def
      stop_message_def error_message_def)

lemma settled_kept: "f \<in> event_updates \<Longrightarrow> settled_ok m \<Longrightarrow> settled_ok (f m)"
  by (auto simp: event_updates_def settled_ok_def stream_update_message_def complete_message_def
      stop_message_def error_message_def finalizeMessage_def Let_def split: if_splits)

interpretation any_run: event_machine step_event "\<lambda>_. True"
  by unfold_locales simp

interpretation failed_run: event_machine step_event "\<lambda>st. last_assistant is_failed (msgs st)"
  by unfold_locales (rule updates_last [OF step_event_updates _ failed_kept])

interpretation settled_run: event_machine step_event "\<lambda>st. last_assistant settled_ok (msgs st)"
  by unfold_locales (rule updates_last [OF step_event_updates _ settled_kept])

subsection \<open>A stream of content chunks\<close>

text \<open>The text of a chunk with the given content, as the server sends it.\<close>

definition content_chunk :: "jsstr \<Rightarrow> jsstr" where
  "content_chunk s = json_stringify (JObj [(''choices'', JArr [JObj [(''delta'', JObj [(''content'', JStr s)])]])])"

lemma build_obj_single [simp]: "build_obj [(k, v)] = [(k, v)]"
  by (simp add: build_obj_def obj_set_def obj_has_def Let_def)

lemma content_chunk_parse:
  "json_parse (content_chunk s) =
     Some (JObj [(''choices'', JArr [JObj [(''delta'', JObj [(''content'', JStr s)])]])])"
  unfolding content_chunk_def by (rule json_roundtrip) simp

lemma content_chunk_not_done: "content_chunk s \<noteq> ''[DONE]''"
  by (simp add: content_chunk_def)

lemma on_content_chunk:
  "on_message src (content_chunk s) st = (if s = [] then st else onUpdate ContentChunk s st)"
  by (simp add: on_message_def content_chunk_not_done content_chunk_parse Let_def obj_get_def feed_def)

definition stream_content :: "Message \<Rightarrow> jsstr" where
  "stream_content m = v_content (getCurrentVersion m)"

lemma content_run:
  assumes "msgs st = ms @ [m]" "m_from m = Assistant" "m_status m = Some Loading \<or> m_status m = Some Streaming"
  shows "\<exists>m'. msgs (fold step_event (map (\<lambda>c. EvMessage src (content_chunk c)) cs) st) = ms @ [m'] \<and>
    m_from m' = Assistant \<and> (m_status m' = Some Loading \<or> m_status m' = Some Streaming) \<and>
    m_key m' = m_key m \<and> stream_content m' = stream_content m @ concat cs"
  using assms
proof (induction cs arbitrary: st m)
  case (Cons c cs)
  show ?case
  proof (cases "c = []")
    case True
    then show ?thesis using Cons.IH [OF Cons.prems] by (simp add: on_content_chunk)
  next
    case False
    let ?m = "(processStreamingContent m (Some c))\<lparr>m_status := Some Streaming\<rparr>"
    have 1: "msgs (onUpdate ContentChunk c st) = ms @ [?m]"
      using Cons.prems by (auto simp: onUpdate_def handleStreamUpdate_def updateLast_snoc stream_update_message_def)
    have "stream_content ?m = stream_content m @ c" by (simp add: stream_content_def)
    moreover have "m_from ?m = Assistant" "m_status ?m = Some Streaming" using Cons.prems(2) by simp_all
    ultimately show ?thesis
      using Cons.IH [OF 1] False by (simp add: on_content_chunk)
  qed
qed simp

lemma done_event:
  assumes "msgs st = ms @ [m]" "m_from m = Assistant" "m_status m = Some Loading \<or> m_status m = Some Streaming"
  shows "step_event (EvMessage src ''[DONE]'') st =
    st\<lparr>isStreamComplete := True, closedSources := src # closedSources st, sseSourceRef := None,
       msgs := ms @ [(finalizeMessage m None)\<lparr>m_status := Some Complete\<rparr>]\<rparr>"
  using assms by (auto simp: on_message_def onComplete_def closeSource_def handleStreamComplete_def
      updateLast_snoc complete_message_def)

subsection \<open>Properties\<close>

text \<open>No sequence of stream events touches any message but the last one, and none adds or
  removes a message, or changes the key or the role of one.\<close>

theorem stream_frame:
  "butlast (msgs (fold step_event es st)) = butlast (msgs st) \<and>
   map m_key (msgs (fold step_event es st)) = map m_key (msgs st) \<and>
   map m_from (msgs (fold step_event es st)) = map m_from (msgs st)"
proof -
  let ?f = "\<lambda>st. (butlast (msgs st), map m_key (msgs st), map m_from (msgs st))"
  have "?f (fold step_event es st) = ?f st"
    using updates_frame [OF step_event_updates] by (intro any_run.run_frame) auto
  then show ?thesis by simp
qed

text \<open>C37. An error is final: once the answer of the assistant has failed, it stays failed whatever
  events of the stream follow (late chunks, the end marker, a stop of the user).\<close>

theorem stream_error_final:
  assumes "last_assistant is_failed (msgs st)"
  shows "last_assistant is_failed (msgs (fold step_event es st))"
  by (rule failed_run.run_inv [OF assms])

text \<open>A settled answer (complete or failed) never shows a running reasoning, after any events.\<close>

theorem stream_settled_reasoning:
  assumes "last_assistant settled_ok (msgs st)"
  shows "last_assistant settled_ok (msgs (fold step_event es st))"
  by (rule settled_run.run_inv [OF assms])

text \<open>C3. Splitting the answer into chunks does not matter: streaming the content chunk by chunk and
  then the end marker leaves a complete message whose text is the visible part of the whole
  content, closes the source, and ends the streaming.\<close>

theorem stream_chunks_content:
  assumes "msgs st = ms @ [createLoadingAssistantMessage k i]"
  shows "\<exists>st' m. st' = fold step_event (map (\<lambda>c. EvMessage src (content_chunk c)) cs @ [EvMessage src ''[DONE]'']) st \<and>
    msgs st' = ms @ [m] \<and> m_key m = k \<and> m_status m = Some Complete \<and>
    stream_content m = visibleContent (parseThinkTags (concat cs)) \<and>
    \<not> isStreaming st' \<and> src \<in> set (closedSources st') \<and> isStreamComplete st'"
proof -
  let ?m = "createLoadingAssistantMessage k i"
  have m: "m_from ?m = Assistant" "m_status ?m = Some Loading" "m_key ?m = k" "stream_content ?m = []"
    by (simp_all add: createLoadingAssistantMessage_def stream_content_def getCurrentVersion_def createMessageVersion_def)
  let ?st = "fold step_event (map (\<lambda>c. EvMessage src (content_chunk c)) cs) st"
  obtain m' where m': "msgs ?st = ms @ [m']" "m_from m' = Assistant"
    "m_status m' = Some Loading \<or> m_status m' = Some Streaming" "m_key m' = k" "stream_content m' = concat cs"
    using content_run [OF assms, of src cs] m by auto
  have "stream_content ((finalizeMessage m' None)\<lparr>m_status := Some Complete\<rparr>) =
      visibleContent (parseThinkTags (concat cs))"
    using m'(5) by (simp add: stream_content_def)
  then show ?thesis using done_event [OF m'(1-3), of src] m'(4) by (simp add: isStreaming_def)
qed

theorem stream_chunks_content_witness:
  "\<exists>st' m. st' = fold step_event (map (\<lambda>c. EvMessage 7 (content_chunk c)) [''<thi'', ''nk>x</think>ok''] @ [EvMessage 7 ''[DONE]''])
      \<lparr>sseSourceRef = Some 7, isStreamComplete = False, closedSources = [], msgs = [createLoadingAssistantMessage ''k'' ''i'']\<rparr> \<and>
    msgs st' = [] @ [m] \<and> m_key m = ''k'' \<and> m_status m = Some Complete \<and>
    stream_content m = visibleContent (parseThinkTags (concat [''<thi'', ''nk>x</think>ok''])) \<and>
    \<not> isStreaming st' \<and> 7 \<in> set (closedSources st') \<and> isStreamComplete st'"
  by (rule stream_chunks_content) simp

text \<open>After the end marker the stream is immune to late failures: error events and status changes
  of any source leave the whole state as it is.\<close>

theorem done_ignores_errors:
  fixes es :: "StreamEvent list"
  assumes "\<forall>e \<in> set es. (\<exists>s r d. e = EvError s r d) \<or> (\<exists>s r c. e = EvReadyState s r c)"
  shows "fold step_event (EvMessage src ''[DONE]'' # es) st = step_event (EvMessage src ''[DONE]'') st"
proof -
  have h: "handleError s e c st = st" if "isStreamComplete st" for s e c st
    using that by (simp add: handleError_def)
  have "fold step_event es st = st" if "isStreamComplete st" for st
    using assms that
  proof (induction es)
    case (Cons e es)
    then have "step_event e st = st"
      using h [OF Cons.prems(2)] by (auto simp: on_error_def on_readystatechange_def split: option.splits prod.splits)
    then show ?case using Cons by simp
  qed simp
  moreover have "isStreamComplete (step_event (EvMessage src ''[DONE]'') st)"
    by (simp add: on_message_def onComplete_def closeSource_def)
  ultimately show ?thesis by simp
qed

theorem done_ignores_errors_witness:
  "fold step_event (EvMessage 1 ''[DONE]'' # [EvError 1 (num 1) None, EvReadyState 1 (Some (num 2)) (Some (num 500))])
      \<lparr>sseSourceRef = Some 1, isStreamComplete = False, closedSources = [], msgs = []\<rparr> =
   step_event (EvMessage 1 ''[DONE]'')
      \<lparr>sseSourceRef = Some 1, isStreamComplete = False, closedSources = [], msgs = []\<rparr>"
  by (rule done_ignores_errors) simp

text \<open>Stopping the generation settles the answer and ends the streaming, in every state.\<close>

theorem stop_settles:
  "\<not> isStreaming (stopGeneration st) \<and> \<not> last_assistant is_stuck (msgs (stopGeneration st))"
proof -
  have "\<not> isStreaming (stopStream st)" by (simp add: stopStream_def isStreaming_def split: option.splits)
  moreover have "\<not> is_stuck (stop_message m)" for m
    by (auto simp: stop_message_def is_stuck_def)
  ultimately show ?thesis
    by (auto simp: stopGeneration_def Let_def updateLast_cases isStreaming_def last_assistant_def)
qed

text \<open>A closing tag split between two chunks leaves its first half behind as the reasoning of the
  answer: while the block is open the buffer counts as reasoning, and the empty block that the
  whole content turns out to have does not replace it.\<close>

theorem split_close_tag_residue:
  "m_reasoning (last (msgs (fold step_event
      (map (\<lambda>c. EvMessage 1 (content_chunk c)) [''<think></thi'', ''nk>ok''] @ [EvMessage 1 ''[DONE]''])
      \<lparr>sseSourceRef = Some 1, isStreamComplete = False, closedSources = [], msgs = [createLoadingAssistantMessage ''k'' ''i'']\<rparr>))) =
     Some \<lparr>r_content = ''</thi'', r_duration = num 0\<rparr> \<and>
   reasoning (parseThinkTags ''<think></think>ok'') = []"
proof
  let ?st = "\<lparr>sseSourceRef = Some 1, isStreamComplete = False, closedSources = [], msgs = [createLoadingAssistantMessage ''k'' ''i'']\<rparr>"
  have "fold step_event (map (\<lambda>c. EvMessage 1 (content_chunk c)) [''<think></thi'', ''nk>ok''] @ [EvMessage 1 ''[DONE]'']) ?st =
      step_event (EvMessage 1 ''[DONE]'') (onUpdate ContentChunk ''nk>ok'' (onUpdate ContentChunk ''<think></thi'' ?st))"
    by (simp add: on_content_chunk)
  moreover have "m_reasoning (last (msgs (step_event (EvMessage 1 ''[DONE]'')
      (onUpdate ContentChunk ''nk>ok'' (onUpdate ContentChunk ''<think></thi'' ?st))))) =
     Some \<lparr>r_content = ''</thi'', r_duration = num 0\<rparr>"
    by code_simp
  ultimately show "m_reasoning (last (msgs (fold step_event
      (map (\<lambda>c. EvMessage 1 (content_chunk c)) [''<think></thi'', ''nk>ok''] @ [EvMessage 1 ''[DONE]'']) ?st))) =
     Some \<lparr>r_content = ''</thi'', r_duration = num 0\<rparr>" by simp
  show "reasoning (parseThinkTags ''<think></think>ok'') = []" by code_simp
qed

theorem stream_error_final_witness:
  "last_assistant is_failed (msgs (fold step_event [EvMessage 1 (content_chunk ''x''), EvMessage 1 ''[DONE]'', EvStop]
     \<lparr>sseSourceRef = None, isStreamComplete = False, closedSources = [],
      msgs = [(createLoadingAssistantMessage ''k'' ''i'')\<lparr>m_status := Some Error\<rparr>]\<rparr>))"
  by (rule stream_error_final) (simp add: last_assistant_def is_failed_def createLoadingAssistantMessage_def)

theorem stream_settled_reasoning_witness:
  "last_assistant settled_ok (msgs (fold step_event [EvMessage 1 (content_chunk ''<think>x''), EvStop]
     \<lparr>sseSourceRef = Some 1, isStreamComplete = False, closedSources = [], msgs = [createLoadingAssistantMessage ''k'' ''i'']\<rparr>))"
  by (rule stream_settled_reasoning) (simp add: last_assistant_def settled_ok_def createLoadingAssistantMessage_def)

end
