(* ===== verification/Channel_Types.thy ===== *)
theory Channel_Types
  imports Js_Json
begin

section \<open>Channel types and their tables\<close>

text \<open>
  Model of the tables of \<^verbatim>\<open>features/channels/constants.ts\<close>, of the lookups of
  \<^verbatim>\<open>features/channels/lib/channel-utils.ts\<close> and \<^verbatim>\<open>features/channels/lib/multi-key-utils.ts\<close> that read them and
  of \<^verbatim>\<open>features/channels/lib/channel-type-config.ts\<close>. A channel type and a status are integers, an object
  with numeric keys is the list of its properties in ascending order of the keys.
\<close>

definition CHANNEL_TYPES :: "(int \<times> jsstr) list" where
  "CHANNEL_TYPES =
     [(0, ''Unknown''), (1, ''OpenAI''), (2, ''Midjourney''),
      (3, ''Azure''), (4, ''Ollama''), (5, ''MidjourneyPlus''),
      (6, ''OpenAIMax''), (7, ''OhMyGPT''), (8, ''Custom''),
      (9, ''AILS''), (10, ''AI Proxy''), (11, ''PaLM''),
      (12, ''API2GPT''), (13, ''AIGC2D''), (14, ''Anthropic''),
      (15, ''Baidu''), (16, ''Zhipu''), (17, ''Ali''),
      (18, ''Xunfei''), (19, ''360''), (20, ''OpenRouter''),
      (21, ''AI Proxy Library''), (22, ''FastGPT''), (23, ''Tencent''),
      (24, ''Gemini''), (25, ''Moonshot''), (26, ''Zhipu V4''),
      (27, ''Perplexity''), (31, ''LingYiWanWu''), (33, ''AWS''),
      (34, ''Cohere''), (35, ''MiniMax''), (36, ''SunoAPI''),
      (37, ''Dify''), (38, ''Jina''), (39, ''Cloudflare''),
      (40, ''SiliconFlow''), (41, ''Vertex AI''), (42, ''Mistral''),
      (43, ''DeepSeek''), (44, ''MokaAI''), (45, ''VolcEngine''),
      (46, ''Baidu V2''), (47, ''Xinference''), (48, ''xAI''),
      (49, ''Coze''), (50, ''Kling''), (51, ''Jimeng''),
      (52, ''Vidu''), (53, ''Submodel''), (54, ''DoubaoVideo''),
      (55, ''Sora''), (56, ''Replicate''), (57, ''Codex''),
      (58, ''Pixverse''), (59, ''BytePlusVideo'')]"

definition CHANNEL_TYPE_DISPLAY_ORDER :: "int list" where
  "CHANNEL_TYPE_DISPLAY_ORDER =
     [1, 14, 33, 24, 43, 3, 41, 48, 42, 34, 20, 4, 40, 27, 25, 17, 26, 15, 46, 23, 18, 45, 31, 35,
      49, 19, 47, 37, 38, 39, 11, 8, 57, 22, 21, 44, 2, 5, 36, 50, 51, 52, 53, 54, 55, 56, 58, 59]"

fun ordered_types :: "int list \<Rightarrow> (int \<times> jsstr) list \<times> int list \<Rightarrow> (int \<times> jsstr) list \<times> int list" where
  "ordered_types [] acc = acc"
| "ordered_types (tid # ids) (ordered, seen) =
     (case map_of CHANNEL_TYPES tid of
        Some label \<Rightarrow> if label \<noteq> [] then ordered_types ids (ordered @ [(tid, label)], tid # seen)
                      else ordered_types ids (ordered, seen)
      | None \<Rightarrow> ordered_types ids (ordered, seen))"

definition CHANNEL_TYPE_OPTIONS :: "(int \<times> jsstr) list" where
  "CHANNEL_TYPE_OPTIONS =
     (case ordered_types CHANNEL_TYPE_DISPLAY_ORDER ([], []) of
        (ordered, seen) \<Rightarrow> ordered @ filter (\<lambda>(tid, label). tid \<noteq> 0 \<and> tid \<notin> set seen) CHANNEL_TYPES)"

definition getChannelTypeLabel :: "int \<Rightarrow> jsstr" where
  "getChannelTypeLabel ty = (case map_of CHANNEL_TYPES ty of Some l \<Rightarrow> l | None \<Rightarrow> ''Unknown'')"

definition TYPE_TO_ICON :: "(int \<times> jsstr) list" where
  "TYPE_TO_ICON =
     [(1, ''OpenAI''), (2, ''Midjourney''), (3, ''Azure''),
      (4, ''Ollama''), (5, ''Midjourney''), (6, ''OpenAI''),
      (7, ''OpenAI''), (8, ''OpenAI''), (9, ''OpenAI''),
      (10, ''OpenAI''), (11, ''Google''), (12, ''OpenAI''),
      (13, ''OpenAI''), (14, ''Claude''), (15, ''Baidu''),
      (16, ''Zhipu''), (17, ''Qwen''), (18, ''Spark''),
      (19, ''Ai360''), (20, ''OpenRouter''), (21, ''OpenAI''),
      (22, ''FastGPT''), (23, ''Hunyuan''), (24, ''Gemini''),
      (25, ''Moonshot''), (26, ''Zhipu''), (27, ''Perplexity''),
      (31, ''Yi''), (33, ''Aws''), (34, ''Cohere''),
      (35, ''Minimax''), (36, ''Suno''), (37, ''Dify''),
      (38, ''Jina''), (39, ''Cloudflare''), (40, ''SiliconCloud''),
      (41, ''Gemini''), (42, ''Mistral''), (43, ''DeepSeek''),
      (44, ''OpenAI''), (45, ''Volcengine''), (46, ''Baidu''),
      (47, ''Xinference''), (48, ''XAI''), (49, ''Coze''),
      (50, ''Kling''), (51, ''Jimeng''), (52, ''Vidu''),
      (53, ''OpenAI''), (54, ''Doubao''), (55, ''OpenAI''),
      (56, ''Replicate''), (58, ''PixVerse''), (59, ''Doubao'')]"

definition getChannelTypeIcon :: "int \<Rightarrow> jsstr" where
  "getChannelTypeIcon ty = (case map_of TYPE_TO_ICON ty of Some l \<Rightarrow> l | None \<Rightarrow> ''OpenAI'')"

definition MODEL_FETCHABLE_TYPES :: "int list" where
  "MODEL_FETCHABLE_TYPES = [1, 4, 14, 17, 20, 23, 24, 25, 26, 27, 31, 34, 35, 40, 42, 43, 47, 48]"

definition TYPE_TO_KEY_PROMPT :: "(int \<times> jsstr) list" where
  "TYPE_TO_KEY_PROMPT =
     [(15, ''Format: APIKey|SecretKey''),
      (18, ''Format: APPID|APISecret|APIKey''),
      (22, ''Format: APIKey-AppId, e.g., fastgpt-0sp2gtvfdgyi4k30jwlgwf1i-64f335d84283f05518e9e041''),
      (23, ''Format: AppId|SecretId|SecretKey''),
      (33, ''Format: Ak|Sk|Region''),
      (50, ''Format: AccessKey|SecretKey (or just ApiKey if upstream is New API)''),
      (51, ''Format: Access Key ID|Secret Access Key''),
      (57, ''Paste Codex OAuth JSON credential (access_token / refresh_token / account_id)'')]"

definition getKeyPromptForType :: "int \<Rightarrow> jsstr" where
  "getKeyPromptForType ty = (case map_of TYPE_TO_KEY_PROMPT ty of Some l \<Rightarrow> l
     | None \<Rightarrow> ''Enter API key for this channel'')"

definition CHANNEL_TYPE_WARNINGS :: "(int \<times> jsstr) list" where
  "CHANNEL_TYPE_WARNINGS =
     [(3, (''For channels added after May 10, 2025, no need to remove '' @ [CHR 0x22] @ ''.'' @ [CHR 0x22] @ '' from model names during deployment'')),
      (8, ''If connecting to upstream One API or New API relay projects, use OpenAI type instead unless you know what you are doing''),
      (37, ''Dify channels only support chatflow and agent, and agent does not support images'')]"

subsection \<open>Status badges\<close>

datatype BadgeVariant = Neutral | Success | Danger | Warning | Info

record StatusConfig =
  sc_variant :: BadgeVariant
  sc_label :: jsstr
  sc_showDot :: bool

definition CHANNEL_STATUS_CONFIG :: "(int \<times> StatusConfig) list" where
  "CHANNEL_STATUS_CONFIG =
     [(0, \<lparr>sc_variant = Neutral, sc_label = ''Unknown'', sc_showDot = True\<rparr>),
      (1, \<lparr>sc_variant = Success, sc_label = ''Enabled'', sc_showDot = True\<rparr>),
      (2, \<lparr>sc_variant = Neutral, sc_label = ''Disabled'', sc_showDot = True\<rparr>),
      (3, \<lparr>sc_variant = Danger, sc_label = ''Auto Disabled'', sc_showDot = True\<rparr>)]"

definition getChannelStatusBadge :: "int \<Rightarrow> StatusConfig" where
  "getChannelStatusBadge status = (case map_of CHANNEL_STATUS_CONFIG status of
     Some c \<Rightarrow> c | None \<Rightarrow> \<lparr>sc_variant = Neutral, sc_label = ''Unknown'', sc_showDot = True\<rparr>)"

definition MULTI_KEY_STATUS_CONFIG :: "(int \<times> BadgeVariant \<times> jsstr) list" where
  "MULTI_KEY_STATUS_CONFIG =
     [(1, Success, ''Enabled''), (2, Neutral, ''Manual Disabled''), (3, Danger, ''Auto Disabled'')]"

definition getMultiKeyStatusBadge :: "int \<Rightarrow> BadgeVariant \<times> jsstr" where
  "getMultiKeyStatusBadge status = (case map_of MULTI_KEY_STATUS_CONFIG status of
     Some c \<Rightarrow> c | None \<Rightarrow> (Success, ''Enabled''))"

definition getMultiKeyStatusConfig :: "int \<Rightarrow> BadgeVariant \<times> jsstr" where
  "getMultiKeyStatusConfig status = (case map_of MULTI_KEY_STATUS_CONFIG status of
     Some c \<Rightarrow> c | None \<Rightarrow> (Neutral, ''Unknown''))"

subsection \<open>Multi-key actions\<close>

datatype MultiKeyAction = Delete | Enable | Disable | EnableAll | DisableAll | DeleteDisabled

definition MULTI_KEY_CONFIRM_MESSAGES :: "MultiKeyAction \<Rightarrow> jsstr" where
  "MULTI_KEY_CONFIRM_MESSAGES a = (case a of
       Delete \<Rightarrow> ''Are you sure you want to delete this key? This action cannot be undone.''
     | Enable \<Rightarrow> ''Enable this key?''
     | Disable \<Rightarrow> ''Disable this key?''
     | EnableAll \<Rightarrow> ''Are you sure you want to enable all keys?''
     | DisableAll \<Rightarrow> ''Are you sure you want to disable all enabled keys?''
     | DeleteDisabled \<Rightarrow> ''Are you sure you want to delete all auto-disabled keys? This action cannot be undone.'')"

definition getMultiKeyConfirmMessage :: "MultiKeyAction option \<Rightarrow> jsstr" where
  "getMultiKeyConfirmMessage action = (case action of None \<Rightarrow> [] | Some a \<Rightarrow> MULTI_KEY_CONFIRM_MESSAGES a)"

definition isDestructiveAction :: "MultiKeyAction option \<Rightarrow> bool" where
  "isDestructiveAction action = (case action of None \<Rightarrow> False
     | Some a \<Rightarrow> a = Delete \<or> a = DeleteDisabled \<or> a = DisableAll)"

subsection \<open>Type configurations\<close>

record ChannelTypeConfig =
  tc_id :: int
  tc_name :: jsstr
  tc_icon :: jsstr
  tc_defaultBaseUrl :: "jsstr option"
  tc_requiresOrganization :: "bool option"
  tc_requiresRegion :: "bool option"
  tc_hints :: "jsstr obj option"
  tc_keyPrefix :: "jsstr option"
    \<comment> \<open>\<open>validation.keyFormat\<close>, which is \<open>/^sk-/\<close> where present\<close>
  tc_keyMinLength :: "nat option"

definition plain_config :: "int \<Rightarrow> jsstr \<Rightarrow> jsstr \<Rightarrow> ChannelTypeConfig" where
  "plain_config i name icon = \<lparr>tc_id = i, tc_name = name, tc_icon = icon, tc_defaultBaseUrl = None,
     tc_requiresOrganization = None, tc_requiresRegion = None, tc_hints = None,
     tc_keyPrefix = None, tc_keyMinLength = None\<rparr>"

definition CHANNEL_TYPE_CONFIGS :: "(int \<times> ChannelTypeConfig) list" where
  "CHANNEL_TYPE_CONFIGS =
     [(1, (plain_config 1 ''OpenAI'' ''openai'')
        \<lparr>tc_defaultBaseUrl := Some ''https://api.openai.com'', tc_requiresOrganization := Some True,
         tc_hints := Some [(''baseUrl'', ''Default: https://api.openai.com''), (''key'', ''Format: sk-...''),
                           (''models'', ''gpt-4,gpt-4-turbo,gpt-3.5-turbo'')],
         tc_keyPrefix := Some ''sk-'', tc_keyMinLength := Some 20\<rparr>),
      (3, (plain_config 3 ''Azure'' ''azure'')
        \<lparr>tc_requiresRegion := Some True,
         tc_hints := Some [(''baseUrl'', ''Azure OpenAI Endpoint''), (''key'', ''Azure API Key''),
                           (''models'', ''Deployment names'')]\<rparr>),
      (14, (plain_config 14 ''Anthropic'' ''anthropic'')
        \<lparr>tc_defaultBaseUrl := Some ''https://api.anthropic.com'',
         tc_hints := Some [(''key'', ''Format: sk-ant-...''),
                           (''models'', ''claude-3-opus,claude-3-sonnet,claude-3-haiku'')]\<rparr>),
      (20, (plain_config 20 ''OpenRouter'' ''openrouter'')
        \<lparr>tc_defaultBaseUrl := Some ''https://openrouter.ai/api'',
         tc_hints := Some [(''key'', ''OpenRouter API Key''), (''models'', ''Use model IDs from OpenRouter'')]\<rparr>),
      (24, (plain_config 24 ''Gemini'' ''google'')
        \<lparr>tc_hints := Some [(''key'', ''Google API Key''), (''models'', ''gemini-pro,gemini-pro-vision'')]\<rparr>),
      (41, (plain_config 41 ''Vertex AI'' ''google'')
        \<lparr>tc_requiresRegion := Some True,
         tc_hints := Some [(''key'', ''Service account JSON or API key''), (''models'', ''gemini-pro,gemini-1.5-pro''),
                           (''other'', ''Region config: {'' @ json_quote ''default'' @ '': '' @ json_quote ''us-central1'' @ ''}'')]\<rparr>),
      (43, (plain_config 43 ''DeepSeek'' ''deepseek'')
        \<lparr>tc_defaultBaseUrl := Some ''https://api.deepseek.com'',
         tc_hints := Some [(''key'', ''DeepSeek API Key''), (''models'', ''deepseek-chat,deepseek-coder'')]\<rparr>),
      (56, (plain_config 56 ''Replicate'' ''replicate'')
        \<lparr>tc_defaultBaseUrl := Some ''https://api.replicate.com'',
         tc_hints := Some [(''key'', ''Replicate API Token''), (''models'', ''Replicate model IDs''),
                           (''baseUrl'', ''Default: https://api.replicate.com'')]\<rparr>)]"

definition getChannelTypeConfig :: "int \<Rightarrow> ChannelTypeConfig" where
  "getChannelTypeConfig ty = (case map_of CHANNEL_TYPE_CONFIGS ty of
     Some c \<Rightarrow> c | None \<Rightarrow> plain_config ty (getChannelTypeLabel ty) ''openai'')"

definition requiresOrganization :: "int \<Rightarrow> bool" where
  "requiresOrganization ty = (case map_of CHANNEL_TYPE_CONFIGS ty of
     Some c \<Rightarrow> tc_requiresOrganization c = Some True | None \<Rightarrow> False)"

definition requiresRegion :: "int \<Rightarrow> bool" where
  "requiresRegion ty = (case map_of CHANNEL_TYPE_CONFIGS ty of
     Some c \<Rightarrow> tc_requiresRegion c = Some True | None \<Rightarrow> False)"

definition getDefaultBaseUrl :: "int \<Rightarrow> jsstr" where
  "getDefaultBaseUrl ty = (case map_of CHANNEL_TYPE_CONFIGS ty of
     Some c \<Rightarrow> (case tc_defaultBaseUrl c of Some u \<Rightarrow> u | None \<Rightarrow> []) | None \<Rightarrow> [])"

definition getChannelTypeHints :: "int \<Rightarrow> jsstr obj" where
  "getChannelTypeHints ty = (case map_of CHANNEL_TYPE_CONFIGS ty of
     Some c \<Rightarrow> (case tc_hints c of Some h \<Rightarrow> h | None \<Rightarrow> []) | None \<Rightarrow> [])"

definition validateKeyFormat :: "int \<Rightarrow> jsstr \<Rightarrow> bool" where
  "validateKeyFormat ty key = (case map_of CHANNEL_TYPE_CONFIGS ty of
       None \<Rightarrow> True
     | Some c \<Rightarrow>
         (if (case tc_keyMinLength c of Some n \<Rightarrow> n \<noteq> 0 \<and> length key < n | None \<Rightarrow> False) then False
          else if (case tc_keyPrefix c of Some p \<Rightarrow> \<not> js_startsWith key p | None \<Rightarrow> False) then False
          else True))"

subsection \<open>Properties\<close>

definition known_type :: "int \<Rightarrow> bool" where
  "known_type i \<longleftrightarrow> (\<exists>l. map_of CHANNEL_TYPES i = Some l \<and> l \<noteq> [])"

lemma ordered_types_spec:
  "ordered_types ids (ordered, seen) =
     (ordered @ map (\<lambda>i. (i, the (map_of CHANNEL_TYPES i))) (filter known_type ids),
      rev (filter known_type ids) @ seen)"
  by (induction ids arbitrary: ordered seen) (auto simp: known_type_def split: option.split)

lemma type_tables:
  "distinct (map fst CHANNEL_TYPES)" "distinct CHANNEL_TYPE_DISPLAY_ORDER" "0 \<notin> set CHANNEL_TYPE_DISPLAY_ORDER"
  "(0, ''Unknown'') \<in> set CHANNEL_TYPES"
  by (simp_all add: CHANNEL_TYPES_def CHANNEL_TYPE_DISPLAY_ORDER_def)

lemma type_options_eq:
  fixes known :: "int list"
  defines "known \<equiv> filter known_type CHANNEL_TYPE_DISPLAY_ORDER"
  shows "CHANNEL_TYPE_OPTIONS = map (\<lambda>i. (i, the (map_of CHANNEL_TYPES i))) known @
    filter (\<lambda>p. fst p \<noteq> 0 \<and> fst p \<notin> set known) CHANNEL_TYPES"
  by (auto simp: CHANNEL_TYPE_OPTIONS_def ordered_types_spec known_def intro!: filter_cong)

text \<open>The type selector offers every channel type but the unknown one, each exactly once, and
  with its label.\<close>

theorem type_options_complete:
  "distinct (map fst CHANNEL_TYPE_OPTIONS) \<and>
   set CHANNEL_TYPE_OPTIONS = set CHANNEL_TYPES - {(0, ''Unknown'')}"
proof
  define known where "known = filter known_type CHANNEL_TYPE_DISPLAY_ORDER"
  define rest where "rest = filter (\<lambda>p. fst p \<noteq> 0 \<and> fst p \<notin> set known) CHANNEL_TYPES"
  have opts: "CHANNEL_TYPE_OPTIONS = map (\<lambda>i. (i, the (map_of CHANNEL_TYPES i))) known @ rest"
    by (simp add: type_options_eq known_def rest_def)
  have "distinct known" using type_tables(2) by (simp add: known_def)
  moreover have "distinct (map fst rest)" using type_tables(1) by (simp add: rest_def distinct_map_filter)
  ultimately show "distinct (map fst CHANNEL_TYPE_OPTIONS)" by (auto simp: opts comp_def rest_def)
  have mem: "(i, l) \<in> set CHANNEL_TYPES \<longleftrightarrow> map_of CHANNEL_TYPES i = Some l" for i l
    using type_tables(1) by simp
  have zero: "map_of CHANNEL_TYPES 0 = Some ''Unknown''" using type_tables(4) mem by blast
  have "0 \<notin> set known" using type_tables(3) by (simp add: known_def)
  moreover have "map_of CHANNEL_TYPES i \<noteq> None" if "i \<in> set known" for i
    using that by (auto simp: known_def known_type_def)
  ultimately show "set CHANNEL_TYPE_OPTIONS = set CHANNEL_TYPES - {(0, ''Unknown'')}"
    using zero by (auto simp: opts rest_def mem image_iff)
qed

text \<open>The names of the type configurations are the labels of the type table.\<close>

lemma type_configs_consistent:
  "\<forall>(i, c) \<in> set CHANNEL_TYPE_CONFIGS. tc_id c = i \<and> tc_name c = getChannelTypeLabel i"
  by code_simp

end
