(* ===== verification/Js_Map.thy ===== *)
theory Js_Map
  imports Js_Number "HOL-Library.AList"
begin

section \<open>Maps and grouping\<close>

text \<open>
  A JavaScript \<open>Map\<close>: its entries in the order in which the keys were first set. The aggregations of the
  sources walk over a list and update the entry of the key of each item; \<open>group_fold\<close> shows that this is the
  grouping of the list by key, and \<open>sum_groups\<close> that no item is lost or counted twice.
\<close>

type_synonym ('k, 'v) js_map = "('k \<times> 'v) list"

definition map_get :: "'k \<Rightarrow> ('k, 'v) js_map \<Rightarrow> 'v option" where
  "map_get k m = map_of m k"

definition map_set :: "'k \<Rightarrow> 'v \<Rightarrow> ('k, 'v) js_map \<Rightarrow> ('k, 'v) js_map" where
  "map_set k v m = AList.update k v m"

definition map_keys :: "('k, 'v) js_map \<Rightarrow> 'k list" where
  "map_keys m = map fst m"

definition map_get_or :: "'v \<Rightarrow> 'k \<Rightarrow> ('k, 'v) js_map \<Rightarrow> 'v" where
  "map_get_or d k m = (case map_get k m of Some v \<Rightarrow> v | None \<Rightarrow> d)"

lemma map_get_set: "map_get j (map_set k v m) = (if j = k then Some v else map_get j m)"
  by (simp add: map_get_def map_set_def update_conv')

interpretation js_map: dictionary map_get map_set "\<lambda>k m. AList.delete k m" "[]" "\<lambda>m. distinct (map fst m)"
  by unfold_locales (auto simp: map_get_def map_set_def update_conv' delete_conv' distinct_update distinct_delete)

definition group_step :: "('a \<Rightarrow> 'k) \<Rightarrow> ('v \<Rightarrow> 'a \<Rightarrow> 'v) \<Rightarrow> 'v \<Rightarrow> 'a \<Rightarrow> ('k, 'v) js_map \<Rightarrow> ('k, 'v) js_map" where
  "group_step k f z x m = map_set (k x) (f (map_get_or z (k x) m) x) m"

lemma update_image:
  "distinct ks \<Longrightarrow> AList.update j v (map (\<lambda>k. (k, g k)) ks) = map (\<lambda>k. (k, if k = j then v else g k)) (if j \<in> set ks then ks else ks @ [j])"
  by (induction ks) auto

lemma map_of_image: "map_of (map (\<lambda>k. (k, g k)) ks) j = (if j \<in> set ks then Some (g j) else None)"
  by (induction ks) auto

lemma uniq_snoc: "uniq (xs @ [x]) = (if x \<in> set xs then uniq xs else uniq xs @ [x])"
  by (induction xs) auto

lemma group_fold: "fold (group_step k f z) xs [] = map (\<lambda>j. (j, foldl f z (filter (\<lambda>x. k x = j) xs))) (uniq (map k xs))"
proof (induction xs rule: rev_induct)
  case (snoc x xs)
  let ?g = "\<lambda>j. foldl f z (filter (\<lambda>y. k y = j) xs)"
  have old: "map_get_or z (k x) (map (\<lambda>j. (j, ?g j)) (uniq (map k xs))) = ?g (k x)"
  proof (cases "k x \<in> k ` set xs")
    case True
    then show ?thesis by (simp add: map_get_or_def map_get_def map_of_image)
  next
    case False
    then have "filter (\<lambda>y. k y = k x) xs = []" by (auto simp: filter_empty_conv image_iff)
    then show ?thesis using False by (simp add: map_get_or_def map_get_def map_of_image)
  qed
  have "fold (group_step k f z) (xs @ [x]) [] = map (\<lambda>j. (j, if j = k x then f (?g (k x)) x else ?g j)) (uniq (map k (xs @ [x])))"
    using update_image [of "uniq (map k xs)" "k x" "f (?g (k x)) x" ?g] by (simp add: snoc.IH group_step_def old map_set_def uniq_snoc)
  then show ?case by simp
qed simp

lemma sum_indicator: "distinct ks \<Longrightarrow> j \<in> set ks \<Longrightarrow> sum_list (map (\<lambda>i. if i = j then v else (0 :: 'n :: comm_monoid_add)) ks) = v"
proof (induction ks)
  case (Cons i ks)
  then have "j \<notin> set ks \<Longrightarrow> sum_list (map (\<lambda>i. if i = j then v else 0) ks) = 0"
    by (induction ks) auto
  then show ?case using Cons by auto
qed simp

lemma sum_groups:
  assumes "distinct ks" "\<forall>x \<in> set xs. k x \<in> set ks"
  shows "sum_list (map (\<lambda>j. sum_list (map w (filter (\<lambda>x. k x = j) xs))) ks) = (sum_list (map w xs) :: 'n :: comm_monoid_add)"
  using assms(2)
proof (induction xs)
  case (Cons x xs)
  have "map (\<lambda>j. sum_list (map w (filter (\<lambda>y. k y = j) (x # xs)))) ks =
      map (\<lambda>j. (if j = k x then w x else 0) + sum_list (map w (filter (\<lambda>y. k y = j) xs))) ks" by auto
  then have "sum_list (map (\<lambda>j. sum_list (map w (filter (\<lambda>y. k y = j) (x # xs)))) ks) =
      sum_list (map (\<lambda>j. if j = k x then w x else 0) ks) + sum_list (map (\<lambda>j. sum_list (map w (filter (\<lambda>y. k y = j) xs))) ks)"
    unfolding sum_list_addf [symmetric] by (rule arg_cong)
  then show ?case using Cons sum_indicator [OF assms(1), of "k x" "w x"] by simp
qed (simp add: sum_list_0)

subsection \<open>Exact sums\<close>

lemma sum_quota_int:
  assumes "0 \<le> a" "\<forall>q \<in> set qs. 0 \<le> q" "a + sum_list qs \<le> 2 ^ 53"
  shows "foldl js_add (num a) (map num qs) = num (a + sum_list qs)"
  using assms
proof (induction qs arbitrary: a)
  case (Cons q qs)
  have "0 \<le> sum_list qs" using Cons.prems(2) by (simp add: sum_list_nonneg)
  then have "js_add (num a) (num q) = num (a + q)" using Cons.prems by (intro js_add_int) simp
  then show ?case using Cons.IH [of "a + q"] Cons.prems by (simp add: add.assoc)
qed simp

lemma js_sub_int: "\<bar>a - b\<bar> \<le> 2 ^ 53 \<Longrightarrow> js_sub (num a) (num b) = num (a - b)"
  using js_add_int [of a "- b"] by (simp add: js_sub_def)

end
