(* ===== verification/Channel_Utils.thy ===== *)
theory Channel_Utils
  imports Channel_Types Model_Mapping Currency Js_Map
begin

section \<open>Channels: keys, groups, attention and tag rows\<close>

text \<open>
  Model of \<^verbatim>\<open>features/channels/lib/channel-utils.ts\<close> (the table lookups are in \<open>Channel_Types\<close>) with the
  channel type of \<^verbatim>\<open>features/channels/types.ts\<close>. A field that may be \<open>null\<close> or \<open>undefined\<close> is a
  \<open>nullish\<close>. The locale collation that \<open>localeCompare\<close> uses is an argument: \<open>collate a b\<close> is
  True when \<open>a.localeCompare(b)\<close> is at most 0. \<open>formatRelativeTime\<close> and \<open>formatTimestamp\<close> only
  wrap the date library and are left out.
\<close>

subsection \<open>Data\<close>

datatype 'a nullish = Undef | Null | Val 'a

definition nullish_eq :: "jsnum nullish \<Rightarrow> jsnum nullish \<Rightarrow> bool" where
  "nullish_eq a b = (case (a, b) of
     (Val x, Val y) \<Rightarrow> js_eq x y | (Null, Null) \<Rightarrow> True | (Undef, Undef) \<Rightarrow> True | _ \<Rightarrow> False)"

datatype MultiKeyMode = Random | Polling

record ChannelInfo =
  is_multi_key :: bool
  multi_key_size :: jsnum
  multi_key_status_list :: "jsnum obj option"
  multi_key_disabled_reason :: "jsstr obj option"
  multi_key_disabled_time :: "jsnum obj option"
  multi_key_polling_index :: jsnum
  multi_key_mode :: MultiKeyMode

record Channel =
  ch_id :: jsnum
  ch_type :: int
  ch_key :: jsstr
  ch_openai_organization :: "jsstr nullish"
  ch_test_model :: "jsstr nullish"
  ch_status :: int
  ch_name :: jsstr
  ch_weight :: "jsnum nullish"
  ch_created_time :: jsnum
  ch_test_time :: jsnum
  ch_response_time :: jsnum
  ch_base_url :: "jsstr nullish"
  ch_other :: jsstr
  ch_balance :: jsnum
  ch_balance_updated_time :: jsnum
  ch_models :: jsstr
  ch_group :: jsstr
  ch_used_quota :: jsnum
  ch_model_mapping :: "jsstr nullish"
  ch_status_code_mapping :: "jsstr nullish"
  ch_priority :: "jsnum nullish"
  ch_auto_ban :: "jsnum nullish"
  ch_other_info :: jsstr
  ch_tag :: "jsstr nullish"
  ch_setting :: "jsstr nullish"
  ch_param_override :: "jsstr nullish"
  ch_header_override :: "jsstr nullish"
  ch_remark :: jsstr
  ch_max_input_tokens :: jsnum
  ch_channel_info :: ChannelInfo
  ch_settings :: jsstr

definition nstr :: "jsstr nullish \<Rightarrow> jsstr" where
  \<comment> \<open>\<open>x || ''\<close>\<close>
  "nstr x = (case x of Val s \<Rightarrow> s | _ \<Rightarrow> [])"

subsection \<open>Status\<close>

definition isChannelEnabled :: "Channel \<Rightarrow> bool" where
  "isChannelEnabled channel \<longleftrightarrow> ch_status channel = 1"

definition isMultiKeyChannel :: "Channel \<Rightarrow> bool" where
  "isMultiKeyChannel channel \<longleftrightarrow> is_multi_key (ch_channel_info channel)"

subsection \<open>Keys\<close>

definition key_lines :: "jsstr \<Rightarrow> jsstr list" where
  "key_lines key = filter (\<lambda>k. js_trim k \<noteq> []) (split_on (CHR 0x0A) key)"

definition formatChannelKey :: "jsstr \<Rightarrow> bool \<Rightarrow> jsstr" where
  "formatChannelKey key isMultiKey =
     (if key = [] then []
      else if isMultiKey then int_to_str (int (length (key_lines key))) @ '' keys''
      else if length key \<le> 16 then take 4 key @ ''...'' @ js_slice_last key 4
      else take 8 key @ ''...'' @ js_slice_last key 8)"

definition formatKeyPreview :: "jsstr \<Rightarrow> nat \<Rightarrow> jsstr" where
  "formatKeyPreview key maxLength =
     (if key = [] then [] else if length key \<le> maxLength then key else take maxLength key @ ''...'')"

definition countKeys :: "jsstr \<Rightarrow> nat" where
  "countKeys key = (if key = [] then 0 else length (key_lines key))"

subsection \<open>Models and groups\<close>

definition parseModelsList :: "jsstr \<Rightarrow> jsstr list" where
  "parseModelsList models =
     (if models = [] then [] else filter (\<lambda>m. length m > 0) (map js_trim (split_on (CHR '','') models)))"

definition group_le :: "(jsstr \<Rightarrow> jsstr \<Rightarrow> bool) \<Rightarrow> jsstr \<Rightarrow> jsstr \<Rightarrow> bool" where
  "group_le collate a b =
     (if a = ''default'' then True else if b = ''default'' then False else collate a b)"

definition parseGroupsList :: "(jsstr \<Rightarrow> jsstr \<Rightarrow> bool) \<Rightarrow> jsstr \<Rightarrow> jsstr list" where
  "parseGroupsList collate groups =
     (if groups = [] then []
      else sort_by (group_le collate)
        (filter (\<lambda>g. length g > 0) (map js_trim (split_on (CHR '','') groups))))"

definition formatModelsString :: "jsstr list \<Rightarrow> jsstr" where
  "formatModelsString models = js_join '','' models"

definition formatGroupsString :: "jsstr list \<Rightarrow> jsstr" where
  "formatGroupsString groups = js_join '','' groups"

subsection \<open>Settings\<close>

definition parseChannelSettings :: "jsstr nullish \<Rightarrow> json" where
  "parseChannelSettings settingStr =
     (if nstr settingStr = [] then JObj []
      else case json_parse (nstr settingStr) of Some v \<Rightarrow> v | None \<Rightarrow> JObj [])"

definition parseChannelOtherSettings :: "jsstr nullish \<Rightarrow> json" where
  "parseChannelOtherSettings settingsStr =
     (if nstr settingsStr = [] \<or> nstr settingsStr = ''{}'' then JObj []
      else case json_parse (nstr settingsStr) of Some v \<Rightarrow> v | None \<Rightarrow> JObj [])"

definition validateChannelSettings :: "jsstr \<Rightarrow> bool" where
  "validateChannelSettings settings =
     (if settings = [] \<or> js_trim settings = [] then True else json_parse settings \<noteq> None)"

subsection \<open>Balance and response time\<close>

definition formatBalance :: "Intl \<Rightarrow> SystemConfigState \<Rightarrow> jsnum option \<Rightarrow> jsstr" where
  "formatBalance intl st balance = (case balance of
       None \<Rightarrow> ''-''
     | Some b \<Rightarrow> if js_isNaN b then ''-'' else formatCurrencyFromUSD intl st (Some b) (Some (opts3 2 4 False)))"

definition getBalanceVariant :: "jsnum \<Rightarrow> BadgeVariant" where
  "getBalanceVariant balance =
     (if js_eq balance (num 0) then Neutral else if js_lt balance (num 1) then Danger
      else if js_lt balance (num 10) then Warning else Success)"

definition formatResponseTime :: "jsnum \<Rightarrow> (jsstr \<Rightarrow> jsstr option \<Rightarrow> jsstr) option \<Rightarrow> jsstr" where
  \<comment> \<open>\<open>t key value\<close> is the optional translation function\<close>
  "formatResponseTime timeMs t =
     (if js_eq timeMs (num 0) then (case t of Some f \<Rightarrow> f ''Not tested'' None | None \<Rightarrow> ''Not tested'')
      else if js_lt timeMs (num 1000) then
        (case t of Some f \<Rightarrow> f ''{{value}}ms'' (Some (js_num_str timeMs)) | None \<Rightarrow> js_num_str timeMs @ ''ms'')
      else (case t of Some f \<Rightarrow> f ''{{value}}s'' (Some (js_toFixed (js_div timeMs (num 1000)) 2))
            | None \<Rightarrow> js_toFixed (js_div timeMs (num 1000)) 2 @ ''s''))"

definition getResponseTimeConfig :: "jsnum \<Rightarrow> BadgeVariant \<times> jsstr" where
  "getResponseTimeConfig timeMs =
     (if js_eq timeMs (num 0) then (Neutral, ''Not tested'')
      else if js_le timeMs (num 500) then (Success, ''Excellent'')
      else if js_le timeMs (num 1000) then (Info, ''Good'')
      else if js_le timeMs (num 2000) then (Warning, ''Fair'')
      else if js_le timeMs (num 5000) then (Danger, ''Poor'')
      else (Danger, ''Poor''))"

definition formatQuota_channel :: "Intl \<Rightarrow> SystemConfigState \<Rightarrow> jsnum \<Rightarrow> jsstr" where
  "formatQuota_channel intl st quota = formatQuotaWithCurrency intl st (Some quota) (Some (opts3 2 4 True))"

definition getPriorityDisplay :: "jsnum nullish \<Rightarrow> jsstr" where
  "getPriorityDisplay priority = (case priority of Val p \<Rightarrow> js_num_str p | _ \<Rightarrow> ''0'')"

definition getWeightDisplay :: "jsnum nullish \<Rightarrow> jsstr" where
  "getWeightDisplay weight = (case weight of Val w \<Rightarrow> js_num_str w | _ \<Rightarrow> ''0'')"

subsection \<open>Validation and attention\<close>

definition validateChannelName :: "jsstr \<Rightarrow> bool" where
  "validateChannelName name \<longleftrightarrow> length (js_trim name) > 0"

definition validateApiKey :: "jsstr \<Rightarrow> bool" where
  "validateApiKey key \<longleftrightarrow> length (js_trim key) > 0"

definition validateModels :: "jsstr \<Rightarrow> bool" where
  "validateModels models \<longleftrightarrow> length (parseModelsList models) > 0"

definition validateGroups :: "(jsstr \<Rightarrow> jsstr \<Rightarrow> bool) \<Rightarrow> jsstr \<Rightarrow> bool" where
  "validateGroups collate groups \<longleftrightarrow> length (parseGroupsList collate groups) > 0"

definition all_keys_disabled :: "Channel \<Rightarrow> bool" where
  "all_keys_disabled channel \<longleftrightarrow> is_multi_key (ch_channel_info channel) \<and>
     (case multi_key_status_list (ch_channel_info channel) of
        None \<Rightarrow> False
      | Some l \<Rightarrow> js_le (multi_key_size (ch_channel_info channel)) (num (int (length l))))"

definition channelNeedsAttention :: "Channel \<Rightarrow> bool" where
  "channelNeedsAttention channel =
     (if ch_status channel = 3 then True
      else if js_lt (num 0) (ch_balance channel) \<and> js_lt (ch_balance channel) (num 1) then True
      else if all_keys_disabled channel then True else False)"

definition getAttentionReason :: "Channel \<Rightarrow> jsstr option" where
  "getAttentionReason channel =
     (if ch_status channel = 3 then Some ''Auto-disabled''
      else if js_lt (num 0) (ch_balance channel) \<and> js_lt (ch_balance channel) (num 1) then Some ''Low balance''
      else if all_keys_disabled channel then Some ''All keys disabled'' else None)"

subsection \<open>Tag rows\<close>

text \<open>
  A tag row overwrites most fields of the first channel of its tag; \<open>tr_first\<close> is that channel,
  for the fields it keeps. The status starts \<open>undefined\<close>.
\<close>

record TagRow =
  tr_first :: Channel
  tr_tag :: jsstr
  tr_status :: "int option"
  tr_group :: jsstr
  tr_used_quota :: jsnum
  tr_response_time :: jsnum
  tr_priority :: "jsnum nullish"
  tr_weight :: "jsnum nullish"
  children :: "Channel list"

definition channel_tag :: "Channel \<Rightarrow> jsstr" where
  "channel_tag channel = nstr (ch_tag channel)"

definition new_tag_row :: "Channel \<Rightarrow> TagRow" where
  "new_tag_row channel = \<lparr>tr_first = channel, tr_tag = channel_tag channel, tr_status = None, tr_group = [],
     tr_used_quota = num 0, tr_response_time = num 0, tr_priority = Val (num (-1)), tr_weight = Val (num (-1)),
     children = []\<rparr>"

definition same_or_null :: "jsnum nullish \<Rightarrow> jsnum nullish \<Rightarrow> jsnum nullish" where
  "same_or_null row channel =
     (if nullish_eq row (Val (num (-1))) then channel
      else if \<not> nullish_eq row channel then Null else row)"

definition merge_groups :: "jsstr \<Rightarrow> jsstr \<Rightarrow> jsstr" where
  "merge_groups row channel =
     (if row = [] then channel
      else (let existingGroups = filter (\<lambda>g. g \<noteq> []) (split_on (CHR '','') row);
                newGroups = filter (\<lambda>g. g \<noteq> []) (split_on (CHR '','') channel)
            in foldl (\<lambda>acc g. if g \<notin> set existingGroups then acc @ '','' @ g else acc) row newGroups))"

definition add_child :: "Channel \<Rightarrow> TagRow \<Rightarrow> TagRow" where
  "add_child channel row =
     (let kids = children row @ [channel]; n = num (int (length kids)) in
      row\<lparr>children := kids,
          tr_used_quota := js_add (tr_used_quota row) (ch_used_quota channel),
          tr_response_time := js_div (js_add (js_mul (tr_response_time row) (js_sub n (num 1))) (ch_response_time channel)) n,
          tr_priority := same_or_null (tr_priority row) (ch_priority channel),
          tr_weight := same_or_null (tr_weight row) (ch_weight channel),
          tr_group := merge_groups (tr_group row) (ch_group channel),
          tr_status := (if ch_status channel = 1 then Some 1
                        else if tr_status row = None then Some (ch_status channel) else tr_status row)\<rparr>)"

definition aggregate_step :: "TagRow list \<Rightarrow> Channel \<Rightarrow> TagRow list" where
  "aggregate_step rows channel =
     (let tag = channel_tag channel;
          rows1 = (if tag \<notin> set (map tr_tag rows) then rows @ [new_tag_row channel] else rows)
      in map (\<lambda>row. if tr_tag row = tag then add_child channel row else row) rows1)"

definition aggregateChannelsByTag :: "Channel list \<Rightarrow> TagRow list" where
  "aggregateChannelsByTag channels = foldl aggregate_step [] channels"

subsection \<open>Deduplicating keys\<close>

record DedupResult =
  deduplicatedText :: jsstr
  beforeCount :: nat
  afterCount :: nat
  removedCount :: nat

fun dedup_lines :: "jsstr list \<Rightarrow> jsstr list \<Rightarrow> jsstr list" where
  "dedup_lines [] keys = keys"
| "dedup_lines (line # rest) keys =
     (let trimmedLine = js_trim line in
      if trimmedLine \<noteq> [] \<and> trimmedLine \<notin> set keys then dedup_lines rest (keys @ [trimmedLine])
      else dedup_lines rest keys)"

definition deduplicateKeys :: "jsstr \<Rightarrow> DedupResult" where
  "deduplicateKeys keysText =
     (if keysText = [] \<or> js_trim keysText = []
      then \<lparr>deduplicatedText = [], beforeCount = 0, afterCount = 0, removedCount = 0\<rparr>
      else (let keyLines = split_on (CHR 0x0A) keysText; keys = dedup_lines keyLines [] in
            \<lparr>deduplicatedText = js_join [CHR 0x0A] keys, beforeCount = length keyLines,
             afterCount = length keys, removedCount = length keyLines - length keys\<rparr>))"

subsection \<open>Lemmas on keys\<close>

lemma dedup_lines_eq:
  "dedup_lines ls keys = keys @ filter (\<lambda>k. k \<notin> set keys) (uniq (filter (\<lambda>k. k \<noteq> []) (map js_trim ls)))"
proof (induction ls arbitrary: keys)
  case (Cons l ls)
  show ?case
  proof (cases "js_trim l = [] \<or> js_trim l \<in> set keys")
    case True
    then show ?thesis using Cons [of keys]
      by (auto simp: Let_def intro!: filter_cong)
  next
    case False
    then show ?thesis using Cons [of "keys @ [js_trim l]"]
      by (auto simp: Let_def intro!: filter_cong)
  qed
qed simp

lemma dedup_lines_uniq: "dedup_lines ls [] = uniq (filter (\<lambda>k. k \<noteq> []) (map js_trim ls))"
  by (simp add: dedup_lines_eq)

lemma filter_map_trim: "filter (\<lambda>k. k \<noteq> []) (map js_trim ls) = map js_trim (filter (\<lambda>k. js_trim k \<noteq> []) ls)"
  by (induction ls) auto

lemma blank_key_lines: "js_trim t = [] \<Longrightarrow> key_lines t = []"
  using split_on_parts_subset [of _ "CHR 0x0A" t]
  by (auto simp: key_lines_def filter_empty_conv js_trim_eq_Nil_iff)

lemma dedup_text: "deduplicatedText (deduplicateKeys t) = js_join [CHR 0x0A] (uniq (map js_trim (key_lines t)))"
proof (cases "js_trim t = []")
  case True
  then show ?thesis using blank_key_lines [OF True] by (simp add: deduplicateKeys_def)
next
  case False
  then have "t \<noteq> []" by auto
  with False show ?thesis
    by (simp add: deduplicateKeys_def Let_def dedup_lines_uniq filter_map_trim key_lines_def)
qed

lemma key_lines_join:
  assumes "\<And>k. k \<in> set ks \<Longrightarrow> k \<noteq> [] \<and> trimmed k \<and> CHR 0x0A \<notin> set k"
  shows "key_lines (js_join [CHR 0x0A] ks) = ks"
proof (cases "ks = []")
  case True
  then show ?thesis by (simp add: key_lines_def)
next
  case False
  have "split_on (CHR 0x0A) (js_join [CHR 0x0A] ks) = ks"
    by (rule split_on_join [OF False]) (use assms in blast)
  moreover have "js_trim k \<noteq> []" if "k \<in> set ks" for k
    using assms [OF that] by (simp add: js_trim_id)
  ultimately show ?thesis by (simp add: key_lines_def)
qed

lemma key_line_trimmed:
  "k \<in> set (uniq (map js_trim (key_lines t))) \<Longrightarrow> k \<noteq> [] \<and> trimmed k \<and> CHR 0x0A \<notin> set k"
  using split_on_parts [of _ "CHR 0x0A" t] set_js_trim
  by (auto simp: key_lines_def js_trim_trimmed)

lemma length_dedup: "length (uniq (map js_trim (key_lines t))) \<le> length (split_on (CHR 0x0A) t)"
  using length_uniq_le [of "map js_trim (key_lines t)"]
    length_filter_le [of "\<lambda>k. js_trim k \<noteq> []" "split_on (CHR 0x0A) t"]
  unfolding key_lines_def length_map by (rule order_trans)

lemma mask_same_length:
  assumes "length a = length b" "length a \<le> 8" "a \<noteq> []" "formatChannelKey a False = formatChannelKey b False"
  shows "a = b"
proof (rule nth_equalityI)
  show "length a = length b" by (rule assms(1))
  have b: "b \<noteq> []" using assms(1,3) by auto
  have "length (take 4 a) = length (take 4 b)" using assms(1) by simp
  moreover have "take 4 a @ ''...'' @ js_slice_last a 4 = take 4 b @ ''...'' @ js_slice_last b 4"
    using assms b by (simp add: formatChannelKey_def)
  ultimately have t: "take 4 a = take 4 b" "drop (length a - 4) a = drop (length a - 4) b"
    using assms(1) by (auto simp: js_slice_last_def)
  fix i assume i: "i < length a"
  show "a ! i = b ! i"
  proof (cases "i < 4")
    case True
    then show ?thesis using t(1) i assms(1) by (metis nth_take)
  next
    case False
    then have "drop (length a - 4) a ! (i - (length a - 4)) = a ! i"
      "drop (length a - 4) b ! (i - (length a - 4)) = b ! i"
      using i assms(1,2) by simp_all
    then show ?thesis using t(2) by simp
  qed
qed

subsection \<open>Lemmas on tag rows\<close>

definition tag_summary :: "Channel list \<Rightarrow> TagRow" where
  \<comment> \<open>the row of a non-empty list of channels with one tag\<close>
  "tag_summary cs = foldl (\<lambda>row c. add_child c row) (new_tag_row (hd cs)) cs"

lemma tag_summary_snoc: "cs \<noteq> [] \<Longrightarrow> tag_summary (cs @ [c]) = add_child c (tag_summary cs)"
  by (simp add: tag_summary_def)

lemma add_child_simps [simp]:
  "tr_tag (add_child c row) = tr_tag row"
  "children (add_child c row) = children row @ [c]"
  "tr_used_quota (add_child c row) = js_add (tr_used_quota row) (ch_used_quota c)"
  "tr_status (add_child c row) = (if ch_status c = 1 then Some 1
     else if tr_status row = None then Some (ch_status c) else tr_status row)"
  by (simp_all add: add_child_def Let_def)

lemma fold_children:
  "tr_tag (foldl (\<lambda>row c. add_child c row) r cs) = tr_tag r"
  "children (foldl (\<lambda>row c. add_child c row) r cs) = children r @ cs"
  "tr_used_quota (foldl (\<lambda>row c. add_child c row) r cs) = foldl js_add (tr_used_quota r) (map ch_used_quota cs)"
  by (induction cs arbitrary: r) auto

lemma summary_tag [simp]: "tr_tag (tag_summary cs) = channel_tag (hd cs)"
  by (simp add: tag_summary_def fold_children new_tag_row_def)

lemma summary_children [simp]: "children (tag_summary cs) = cs"
  by (simp add: tag_summary_def fold_children new_tag_row_def)

lemma summary_status:
  "cs \<noteq> [] \<Longrightarrow> tr_status (tag_summary cs) =
     Some (if \<exists>c \<in> set cs. isChannelEnabled c then 1 else ch_status (hd cs))"
proof (induction cs rule: rev_nonempty_induct)
  case (single c)
  then show ?case by (simp add: tag_summary_def isChannelEnabled_def new_tag_row_def)
next
  case (snoc c cs)
  then show ?case by (auto simp: tag_summary_snoc isChannelEnabled_def)
qed

lemma summary_enabled:
  assumes "cs \<noteq> []"
  shows "tr_status (tag_summary cs) = Some 1 \<longleftrightarrow> (\<exists>c \<in> set cs. isChannelEnabled c)"
proof (cases "\<exists>c \<in> set cs. isChannelEnabled c")
  case False
  then have "ch_status (hd cs) \<noteq> 1" using hd_in_set [OF assms] by (auto simp: isChannelEnabled_def)
  with False show ?thesis using summary_status [OF assms] by simp
qed (use summary_status [OF assms] in simp)

abbreviation of_tag :: "jsstr \<Rightarrow> Channel list \<Rightarrow> Channel list" where
  "of_tag t chs \<equiv> filter (\<lambda>c. channel_tag c = t) chs"

lemma of_tag_hd: "t \<in> set (map channel_tag chs) \<Longrightarrow> of_tag t chs \<noteq> [] \<and> channel_tag (hd (of_tag t chs)) = t"
proof -
  assume "t \<in> set (map channel_tag chs)"
  then have ne: "of_tag t chs \<noteq> []" by (auto simp: filter_empty_conv)
  then have "hd (of_tag t chs) \<in> set (of_tag t chs)" by (rule hd_in_set)
  with ne show ?thesis by simp
qed

lemma summary_tags:
  "map tr_tag (map (\<lambda>t. tag_summary (of_tag t chs)) (uniq (map channel_tag chs))) = uniq (map channel_tag chs)"
  unfolding map_map by (rule map_idI) (use of_tag_hd [of _ chs] in simp)

lemma aggregate_refines:
  "aggregateChannelsByTag chs = map (\<lambda>t. tag_summary (of_tag t chs)) (uniq (map channel_tag chs))"
proof (induction chs rule: rev_induct)
  case (snoc c chs)
  let ?t = "channel_tag c" and ?tags = "uniq (map channel_tag chs)"
  let ?rows = "map (\<lambda>t. tag_summary (of_tag t chs)) ?tags"
  have step: "aggregateChannelsByTag (chs @ [c]) = aggregate_step ?rows c"
    using snoc by (simp add: aggregateChannelsByTag_def)
  have hd: "channel_tag (hd (of_tag t chs)) = t" "of_tag t chs \<noteq> []" if "t \<in> set (map channel_tag chs)" for t
    using of_tag_hd [OF that] by auto
  have tags: "map tr_tag ?rows = ?tags" by (rule summary_tags)
  have upd: "map (\<lambda>row. if tr_tag row = ?t then add_child c row else row) ?rows =
      map (\<lambda>t. tag_summary (of_tag t (chs @ [c]))) ?tags"
    unfolding map_map
  proof (rule map_cong [OF refl])
    fix t assume "t \<in> set ?tags"
    then have t: "t \<in> set (map channel_tag chs)" by simp
    note h = hd [OF t]
    show "((\<lambda>row. if tr_tag row = ?t then add_child c row else row) \<circ> (\<lambda>t. tag_summary (of_tag t chs))) t =
        tag_summary (of_tag t (chs @ [c]))"
      using h by (cases "t = ?t") (simp_all add: tag_summary_snoc)
  qed
  show ?case
  proof (cases "?t \<in> set (map channel_tag chs)")
    case True
    then have "?t \<in> set (map tr_tag ?rows)" using tags by simp
    then have "aggregate_step ?rows c = map (\<lambda>row. if tr_tag row = ?t then add_child c row else row) ?rows"
      unfolding aggregate_step_def Let_def by (simp only: not_True_eq_False if_False)
    then show ?thesis unfolding step upd using True uniq_snoc [of "map channel_tag chs" ?t] by simp
  next
    case False
    then have "?t \<notin> set (map tr_tag ?rows)" using tags by simp
    then have "aggregate_step ?rows c =
        map (\<lambda>row. if tr_tag row = ?t then add_child c row else row) (?rows @ [new_tag_row c])"
      unfolding aggregate_step_def Let_def by (simp only: not_False_eq_True if_True)
    also have "\<dots> = map (\<lambda>t. tag_summary (of_tag t (chs @ [c]))) ?tags @ [add_child c (new_tag_row c)]"
      unfolding map_append upd by (simp add: new_tag_row_def)
    also have "add_child c (new_tag_row c) = tag_summary (of_tag ?t (chs @ [c]))"
    proof -
      have "of_tag ?t chs = []" using False unfolding filter_empty_conv set_map by (metis imageI)
      then show ?thesis by (simp add: tag_summary_def)
    qed
    finally show ?thesis unfolding step using False uniq_snoc [of "map channel_tag chs" ?t] by simp
  qed
qed (simp add: aggregateChannelsByTag_def)

interpretation dedup_nf: normaliser "\<lambda>t. deduplicatedText (deduplicateKeys t)"
  "\<lambda>t. \<exists>ks. distinct ks \<and> (\<forall>k \<in> set ks. k \<noteq> [] \<and> trimmed k \<and> CHR 0x0A \<notin> set k) \<and> t = js_join [CHR 0x0A] ks"
proof
  fix t
  show "\<exists>ks. distinct ks \<and> (\<forall>k \<in> set ks. k \<noteq> [] \<and> trimmed k \<and> CHR 0x0A \<notin> set k) \<and>
      deduplicatedText (deduplicateKeys t) = js_join [CHR 0x0A] ks"
    using key_line_trimmed [of _ t] dedup_text [of t] by (intro exI [of _ "uniq (map js_trim (key_lines t))"]) auto
next
  fix t
  assume "\<exists>ks. distinct ks \<and> (\<forall>k \<in> set ks. k \<noteq> [] \<and> trimmed k \<and> CHR 0x0A \<notin> set k) \<and> t = js_join [CHR 0x0A] ks"
  then obtain ks where ks: "distinct ks" "\<And>k. k \<in> set ks \<Longrightarrow> k \<noteq> [] \<and> trimmed k \<and> CHR 0x0A \<notin> set k"
    "t = js_join [CHR 0x0A] ks" by blast
  have "key_lines t = ks" using key_lines_join [of ks] ks(2,3) by simp
  moreover have "map js_trim ks = ks" using ks(2) by (simp add: map_idI js_trim_id)
  ultimately show "deduplicatedText (deduplicateKeys t) = t"
    using dedup_text [of t] ks(1,3) by (simp add: uniq_id)
qed

subsection \<open>Properties\<close>

text \<open>C36. Grouping the channels by tag in one pass over a mutable map gives, for each tag in the order
  of its first channel, the summary of exactly the channels with this tag in their order.\<close>

theorem aggregate_by_tag_refines:
  "aggregateChannelsByTag chs = map (\<lambda>t. tag_summary (filter (\<lambda>c. channel_tag c = t) chs)) (uniq (map channel_tag chs)) \<and>
   map tr_tag (aggregateChannelsByTag chs) = uniq (map channel_tag chs) \<and>
   map children (aggregateChannelsByTag chs) = map (\<lambda>t. filter (\<lambda>c. channel_tag c = t) chs) (uniq (map channel_tag chs))"
proof (intro conjI)
  show "map tr_tag (aggregateChannelsByTag chs) = uniq (map channel_tag chs)"
    unfolding aggregate_refines by (rule summary_tags)
  show "map children (aggregateChannelsByTag chs) = map (\<lambda>t. filter (\<lambda>c. channel_tag c = t) chs) (uniq (map channel_tag chs))"
    by (simp add: aggregate_refines)
qed (rule aggregate_refines)

text \<open>A tag row is enabled exactly when one of its channels is, and its used quota is the sum of
  theirs, exactly as long as it stays below two to the power 53.\<close>

theorem tag_row_totals:
  assumes "row \<in> set (aggregateChannelsByTag chs)"
    and "map ch_used_quota (children row) = map num qs" "\<forall>q \<in> set qs. 0 \<le> q" "sum_list qs \<le> 2 ^ 53"
  shows "tr_used_quota row = num (sum_list qs) \<and>
    (tr_status row = Some 1 \<longleftrightarrow> (\<exists>c \<in> set (children row). isChannelEnabled c))"
proof -
  obtain t where t: "t \<in> set (map channel_tag chs)" "row = tag_summary (of_tag t chs)"
    using assms(1) by (auto simp: aggregate_refines)
  have ne: "of_tag t chs \<noteq> []" using of_tag_hd [OF t(1)] by simp
  have k: "children row = of_tag t chs" by (simp add: t(2))
  have "tr_used_quota row = foldl js_add (num 0) (map ch_used_quota (children row))"
    unfolding k by (simp add: t(2) tag_summary_def fold_children new_tag_row_def)
  also have "\<dots> = num (sum_list qs)" using sum_quota_int [of 0 qs] assms(2-4) by simp
  finally have "tr_used_quota row = num (sum_list qs)" .
  moreover have "tr_status row = Some 1 \<longleftrightarrow> (\<exists>c \<in> set (children row). isChannelEnabled c)"
    unfolding k unfolding t(2) by (rule summary_enabled [OF ne])
  ultimately show ?thesis by blast
qed

text \<open>Deduplicating the keys of a text keeps one line per key, trimmed and in the order of its first
  occurrence, drops the blank lines, counts what it did, and changes nothing the second time.\<close>

theorem dedup_keys_exact:
  "key_lines (deduplicatedText (deduplicateKeys t)) = uniq (map js_trim (key_lines t)) \<and>
   afterCount (deduplicateKeys t) = length (key_lines (deduplicatedText (deduplicateKeys t))) \<and>
   afterCount (deduplicateKeys t) + removedCount (deduplicateKeys t) = beforeCount (deduplicateKeys t) \<and>
   deduplicatedText (deduplicateKeys (deduplicatedText (deduplicateKeys t))) = deduplicatedText (deduplicateKeys t)"
proof (intro conjI)
  show kl: "key_lines (deduplicatedText (deduplicateKeys t)) = uniq (map js_trim (key_lines t))"
    unfolding dedup_text by (rule key_lines_join) (rule key_line_trimmed)
  have ac: "afterCount (deduplicateKeys t) = length (uniq (map js_trim (key_lines t)))"
    using blank_key_lines [of t]
    by (auto simp: deduplicateKeys_def Let_def dedup_lines_uniq filter_map_trim key_lines_def)
  then show "afterCount (deduplicateKeys t) = length (key_lines (deduplicatedText (deduplicateKeys t)))"
    by (simp add: kl)
  show "afterCount (deduplicateKeys t) + removedCount (deduplicateKeys t) = beforeCount (deduplicateKeys t)"
    using length_dedup [of t]
    by (auto simp: deduplicateKeys_def Let_def dedup_lines_uniq filter_map_trim key_lines_def)
  show "deduplicatedText (deduplicateKeys (deduplicatedText (deduplicateKeys t))) = deduplicatedText (deduplicateKeys t)"
    by (rule dedup_nf.norm_idem)
qed

text \<open>The mask of a long key depends only on its first and last eight characters.\<close>

theorem long_key_masked:
  assumes "length a > 16" "length b > 16" "take 8 a = take 8 b" "drop (length a - 8) a = drop (length b - 8) b"
  shows "formatChannelKey a False = formatChannelKey b False \<and> length (formatChannelKey a False) = 19"
proof -
  have "a \<noteq> []" "b \<noteq> []" using assms by auto
  with assms show ?thesis by (simp add: formatChannelKey_def js_slice_last_def)
qed

text \<open>The mask of a key of at most eight characters hides nothing: the key is determined by it and
  its length.\<close>

theorem short_key_revealed:
  assumes "length a = length b" "length a \<le> 8" "a \<noteq> []"
  shows "formatChannelKey a False = formatChannelKey b False \<longleftrightarrow> a = b"
  using mask_same_length [OF assms] by blast

theorem short_key_revealed_witness:
  "formatChannelKey ''secret12'' False = ''secr...et12'' \<and>
   (formatChannelKey ''secret12'' False = formatChannelKey ''secret13'' False \<longleftrightarrow> ''secret12'' = ''secret13'')"
  using short_key_revealed [of "''secret12''" "''secret13''"] by (simp add: formatChannelKey_def js_slice_last_def)

lemma group_le_total_comparator:
  assumes "total_comparator collate"
  shows "total_comparator (group_le collate)"
proof -
  have t: "collate x y \<or> collate y x" "collate x y \<Longrightarrow> collate y z \<Longrightarrow> collate x z" for x y z
    using assms by (auto simp: total_comparator_def)
  show ?thesis by unfold_locales (use t in \<open>auto simp: group_le_def split: if_splits\<close>)
qed

text \<open>A group list starts with the default group where it has one, is ordered by the collation
  after it, and holds the trimmed, non-empty names of the text as often as it has them.\<close>

theorem groups_list_ordered:
  assumes "total_comparator collate"
  shows "sorted_wrt (group_le collate) (parseGroupsList collate s) \<and>
    (''default'' \<in> set (parseGroupsList collate s) \<longrightarrow> hd (parseGroupsList collate s) = ''default'') \<and>
    (\<forall>g. count_list (parseGroupsList collate s) g = count_list (parseModelsList s) g)"
proof (intro conjI impI allI)
  show sorted: "sorted_wrt (group_le collate) (parseGroupsList collate s)"
    using total_comparator.sorted_sort_by [OF group_le_total_comparator [OF assms]]
    by (simp add: parseGroupsList_def)
  show "count_list (parseGroupsList collate s) g = count_list (parseModelsList s) g" for g
    by (simp add: parseGroupsList_def parseModelsList_def count_sort_by)
  show "hd (parseGroupsList collate s) = ''default''" if "''default'' \<in> set (parseGroupsList collate s)"
  proof (rule ccontr)
    assume n: "hd (parseGroupsList collate s) \<noteq> ''default''"
    with that sorted have "group_le collate (hd (parseGroupsList collate s)) ''default''"
      by (cases "parseGroupsList collate s") auto
    with n show False by (simp add: group_le_def)
  qed
qed

theorem attention_reason_iff: "channelNeedsAttention c \<longleftrightarrow> getAttentionReason c \<noteq> None"
  by (simp add: channelNeedsAttention_def getAttentionReason_def)

theorem groups_list_ordered_witness:
  "sorted_wrt (group_le js_str_le) (parseGroupsList js_str_le ''vip,default,a'') \<and>
   hd (parseGroupsList js_str_le ''vip,default,a'') = ''default'' \<and>
   count_list (parseGroupsList js_str_le ''vip,default,a'') ''vip'' = 1"
proof -
  have "''default'' \<in> set (parseGroupsList js_str_le ''vip,default,a'')"
    "count_list (parseModelsList ''vip,default,a'') ''vip'' = 1" by code_simp+
  then show ?thesis
    using groups_list_ordered [OF str_order.total_comparator_axioms, of "''vip,default,a''"] by simp
qed

definition sample_channel :: Channel where
  "sample_channel = \<lparr>ch_id = num 1, ch_type = 1, ch_key = [], ch_openai_organization = Null, ch_test_model = Null,
     ch_status = 1, ch_name = ''a'', ch_weight = Null, ch_created_time = num 0, ch_test_time = num 0,
     ch_response_time = num 0, ch_base_url = Null, ch_other = [], ch_balance = num 0, ch_balance_updated_time = num 0,
     ch_models = ''m'', ch_group = ''default'', ch_used_quota = num 7, ch_model_mapping = Null,
     ch_status_code_mapping = Null, ch_priority = Null, ch_auto_ban = Null, ch_other_info = [], ch_tag = Val ''t'',
     ch_setting = Null, ch_param_override = Null, ch_header_override = Null, ch_remark = [],
     ch_max_input_tokens = num 0,
     ch_channel_info = \<lparr>is_multi_key = False, multi_key_size = num 0, multi_key_status_list = None,
       multi_key_disabled_reason = None, multi_key_disabled_time = None, multi_key_polling_index = num 0,
       multi_key_mode = Random\<rparr>, ch_settings = ''{}''\<rparr>"

theorem tag_row_totals_witness:
  "tr_used_quota (tag_summary [sample_channel, sample_channel\<lparr>ch_status := 2, ch_used_quota := num 5\<rparr>]) = num (sum_list [7, 5]) \<and>
   (tr_status (tag_summary [sample_channel, sample_channel\<lparr>ch_status := 2, ch_used_quota := num 5\<rparr>]) = Some 1 \<longleftrightarrow>
    (\<exists>c \<in> set (children (tag_summary [sample_channel, sample_channel\<lparr>ch_status := 2, ch_used_quota := num 5\<rparr>])). isChannelEnabled c))"
proof -
  let ?chs = "[sample_channel, sample_channel\<lparr>ch_status := 2, ch_used_quota := num 5\<rparr>]"
  have "aggregateChannelsByTag ?chs = [tag_summary ?chs]"
    unfolding aggregate_refines by (simp add: channel_tag_def nstr_def sample_channel_def)
  then have "tag_summary ?chs \<in> set (aggregateChannelsByTag ?chs)" by simp
  then show ?thesis
    by (rule tag_row_totals) (simp_all add: sample_channel_def)
qed

end
