(* ===== verification/Channel_Form.thy ===== *)
theory Channel_Form
  imports Channel_Utils
begin

section \<open>The channel form and its payloads\<close>

text \<open>
  Model of \<^verbatim>\<open>features/channels/lib/channel-form.ts\<close>. The form values and the payloads are plain objects
  that the code builds, reads and edits by name, so they are \<^typ>\<open>json obj\<close>: a property list in
  enumeration order, without the properties that are \<open>undefined\<close>. \<open>None\<close> as the result of
  \<open>buildSettingsJSON\<close> and of the payload functions is the \<open>TypeError\<close> that a \<open>settings\<close> text
  throws when it is JSON but no object or array.
\<close>

subsection \<open>Schema\<close>

text \<open>The schema is checked by the validation library zod (version 4), whose rules for strings,
  finite numbers, arrays and optional fields \<open>rule_ok\<close> states.\<close>

datatype FieldRule = ReqString nat | ReqNumber "jsnum option" | ReqStrings nat
  | OptString "nat option" | OptNumber | OptBool | OptEnum "jsstr list"

fun rule_ok :: "FieldRule \<Rightarrow> json option \<Rightarrow> bool" where
  "rule_ok (ReqString n) v = (case v of Some (JStr s) \<Rightarrow> n \<le> length s | _ \<Rightarrow> False)"
| "rule_ok (ReqNumber lo) v = (case v of Some (JNum x) \<Rightarrow>
     js_isFinite x \<and> (case lo of None \<Rightarrow> True | Some l \<Rightarrow> js_le l x) | _ \<Rightarrow> False)"
| "rule_ok (ReqStrings n) v = (case v of Some (JArr vs) \<Rightarrow>
     n \<le> length vs \<and> list_all (\<lambda>w. case w of JStr _ \<Rightarrow> True | _ \<Rightarrow> False) vs | _ \<Rightarrow> False)"
| "rule_ok (OptString m) v = (case v of None \<Rightarrow> True
     | Some (JStr s) \<Rightarrow> (case m of None \<Rightarrow> True | Some k \<Rightarrow> length s \<le> k) | _ \<Rightarrow> False)"
| "rule_ok OptNumber v = (case v of None \<Rightarrow> True | Some (JNum x) \<Rightarrow> js_isFinite x | _ \<Rightarrow> False)"
| "rule_ok OptBool v = (case v of None \<Rightarrow> True | Some (JBool b) \<Rightarrow> True | _ \<Rightarrow> False)"
| "rule_ok (OptEnum ks) v = (case v of None \<Rightarrow> True | Some (JStr s) \<Rightarrow> s \<in> set ks | _ \<Rightarrow> False)"

definition channelFormSchema :: "(jsstr \<times> FieldRule) list" where
  "channelFormSchema =
     [(''name'', ReqString 1), (''type'', ReqNumber (Some (num 0))), (''base_url'', OptString None),
      (''key'', ReqString 0), (''openai_organization'', OptString None), (''models'', ReqString 1),
      (''group'', ReqStrings 1), (''model_mapping'', OptString None), (''priority'', OptNumber),
      (''weight'', OptNumber), (''test_model'', OptString None), (''auto_ban'', OptNumber),
      (''status'', ReqNumber None), (''status_code_mapping'', OptString None), (''tag'', OptString None),
      (''remark'', OptString (Some 255)), (''setting'', OptString None), (''param_override'', OptString None),
      (''header_override'', OptString None), (''settings'', OptString None), (''other'', OptString None),
      (''multi_key_mode'', OptEnum [''single'', ''batch'', ''multi_to_single'']),
      (''multi_key_type'', OptEnum [''random'', ''polling'']),
      (''batch_add_set_key_prefix_2_name'', OptBool), (''key_mode'', OptEnum [''append'', ''replace'']),
      (''force_format'', OptBool), (''thinking_to_content'', OptBool), (''proxy'', OptString None),
      (''pass_through_body_enabled'', OptBool), (''system_prompt'', OptString None),
      (''system_prompt_override'', OptBool), (''is_enterprise_account'', OptBool),
      (''vertex_key_type'', OptEnum [''json'', ''api_key'']), (''aws_key_type'', OptEnum [''ak_sk'', ''api_key'']),
      (''azure_responses_version'', OptString None), (''allow_service_tier'', OptBool),
      (''disable_store'', OptBool), (''allow_safety_identifier'', OptBool),
      (''allow_include_obfuscation'', OptBool), (''allow_inference_geo'', OptBool), (''allow_speed'', OptBool),
      (''claude_beta_query'', OptBool), (''upstream_model_update_check_enabled'', OptBool),
      (''upstream_model_update_auto_sync_enabled'', OptBool),
      (''upstream_model_update_ignored_models'', OptString None)]"

definition schema_ok :: "json obj \<Rightarrow> bool" where
  "schema_ok form \<longleftrightarrow> list_all (\<lambda>(k, r). rule_ok r (obj_get k form)) channelFormSchema"

definition CHANNEL_FORM_DEFAULT_VALUES :: "json obj" where
  "CHANNEL_FORM_DEFAULT_VALUES =
     [(''name'', JStr []), (''type'', JNum (num 1)), (''base_url'', JStr []), (''key'', JStr []),
      (''openai_organization'', JStr []), (''models'', JStr []), (''group'', JArr [JStr ''default'']),
      (''model_mapping'', JStr []), (''priority'', JNum (num 0)), (''weight'', JNum (num 0)),
      (''test_model'', JStr []), (''auto_ban'', JNum (num 1)), (''status'', JNum (num 1)),
      (''status_code_mapping'', JStr []), (''tag'', JStr []), (''remark'', JStr []), (''setting'', JStr []),
      (''param_override'', JStr []), (''header_override'', JStr []), (''settings'', JStr ''{}''),
      (''other'', JStr []), (''multi_key_mode'', JStr ''single''), (''multi_key_type'', JStr ''random''),
      (''batch_add_set_key_prefix_2_name'', JBool False), (''key_mode'', JStr ''append''),
      (''force_format'', JBool False), (''thinking_to_content'', JBool False), (''proxy'', JStr []),
      (''pass_through_body_enabled'', JBool False), (''system_prompt'', JStr []),
      (''system_prompt_override'', JBool False), (''is_enterprise_account'', JBool False),
      (''vertex_key_type'', JStr ''json''), (''aws_key_type'', JStr ''ak_sk''),
      (''azure_responses_version'', JStr []), (''allow_service_tier'', JBool False),
      (''disable_store'', JBool False), (''allow_safety_identifier'', JBool False),
      (''allow_include_obfuscation'', JBool False), (''allow_inference_geo'', JBool False),
      (''allow_speed'', JBool False), (''claude_beta_query'', JBool False),
      (''upstream_model_update_check_enabled'', JBool False),
      (''upstream_model_update_auto_sync_enabled'', JBool False),
      (''upstream_model_update_ignored_models'', JStr [])]"

subsection \<open>Lists\<close>

definition parseModels :: "jsstr \<Rightarrow> jsstr list" where
  "parseModels models =
     (if models = [] then [] else filter (\<lambda>m. length m > 0) (map js_trim (split_on (CHR '','') models)))"

definition parseGroups :: "jsstr \<Rightarrow> jsstr list" where
  "parseGroups groups =
     (if groups = [] then [] else filter (\<lambda>g. length g > 0) (map js_trim (split_on (CHR '','') groups)))"

definition formatModels :: "jsstr list \<Rightarrow> jsstr" where
  "formatModels models = js_join '','' models"

definition formatGroups :: "jsstr list \<Rightarrow> jsstr" where
  "formatGroups groups = js_join '','' groups"

definition validateJSON :: "jsstr \<Rightarrow> bool" where
  "validateJSON value = (if value = [] \<or> js_trim value = [] then True else json_parse value \<noteq> None)"

definition validateModelMapping :: "jsstr \<Rightarrow> bool" where
  "validateModelMapping value = (if value = [] \<or> js_trim value = [] then True else validateJSON value)"

subsection \<open>From a channel to the form\<close>

text \<open>A text that is no JSON, or is \<open>null\<close>, throws before anything is read; then the defaults stay.\<close>

definition readable :: "jsstr \<Rightarrow> json option" where
  "readable s = (if s = [] then None
     else case json_parse s of Some JNull \<Rightarrow> None | v \<Rightarrow> v)"

definition extra_settings :: "jsstr \<Rightarrow> json obj" where
  "extra_settings setting =
     (let parsed = readable setting in
      [(''force_format'', js_or (js_prop parsed ''force_format'') (JBool False)),
       (''thinking_to_content'', js_or (js_prop parsed ''thinking_to_content'') (JBool False)),
       (''proxy'', js_or (js_prop parsed ''proxy'') (JStr [])),
       (''pass_through_body_enabled'', js_or (js_prop parsed ''pass_through_body_enabled'') (JBool False)),
       (''system_prompt'', js_or (js_prop parsed ''system_prompt'') (JStr [])),
       (''system_prompt_override'', js_or (js_prop parsed ''system_prompt_override'') (JBool False))])"

definition is_true :: "json option \<Rightarrow> json" where
  "is_true v = JBool (v = Some (JBool True))"

definition type_settings :: "jsstr \<Rightarrow> json obj" where
  "type_settings settings =
     (let parsed = readable settings in
      [(''is_enterprise_account'', is_true (js_prop parsed ''openrouter_enterprise'')),
       (''vertex_key_type'', js_or (js_prop parsed ''vertex_key_type'') (JStr ''json'')),
       (''azure_responses_version'', js_or (js_prop parsed ''azure_responses_version'') (JStr [])),
       (''aws_key_type'', js_or (js_prop parsed ''aws_key_type'') (JStr ''ak_sk'')),
       (''allow_service_tier'', is_true (js_prop parsed ''allow_service_tier'')),
       (''disable_store'', is_true (js_prop parsed ''disable_store'')),
       (''allow_include_obfuscation'', is_true (js_prop parsed ''allow_include_obfuscation'')),
       (''allow_inference_geo'', is_true (js_prop parsed ''allow_inference_geo'')),
       (''allow_speed'', is_true (js_prop parsed ''allow_speed'')),
       (''claude_beta_query'', is_true (js_prop parsed ''claude_beta_query'')),
       (''allow_safety_identifier'', is_true (js_prop parsed ''allow_safety_identifier'')),
       (''upstream_model_update_check_enabled'', is_true (js_prop parsed ''upstream_model_update_check_enabled'')),
       (''upstream_model_update_auto_sync_enabled'', is_true (js_prop parsed ''upstream_model_update_auto_sync_enabled'')),
       (''upstream_model_update_ignored_models'',
          (case js_prop parsed ''upstream_model_update_ignored_models'' of
             Some (JArr vs) \<Rightarrow> JStr (js_String (JArr vs)) | _ \<Rightarrow> JStr []))])"

definition nnum :: "jsnum nullish \<Rightarrow> jsnum" where
  \<comment> \<open>\<open>x || 0\<close>\<close>
  "nnum x = (case x of Val v \<Rightarrow> num_or v (num 0) | _ \<Rightarrow> num 0)"

definition nonempty_or :: "jsstr \<Rightarrow> jsstr \<Rightarrow> jsstr" where
  "nonempty_or s d = (if s \<noteq> [] then s else d)"

definition transformChannelToFormDefaults :: "Channel \<Rightarrow> json obj" where
  "transformChannelToFormDefaults channel =
     [(''name'', JStr (ch_name channel)), (''type'', JNum (num (ch_type channel))),
      (''base_url'', JStr (nstr (ch_base_url channel))), (''key'', JStr []),
      (''openai_organization'', JStr (nstr (ch_openai_organization channel))),
      (''models'', JStr (ch_models channel)),
      (''group'', JArr (map JStr (parseGroups (nonempty_or (ch_group channel) ''default'')))),
      (''model_mapping'', JStr (nstr (ch_model_mapping channel))),
      (''priority'', JNum (nnum (ch_priority channel))), (''weight'', JNum (nnum (ch_weight channel))),
      (''test_model'', JStr (nstr (ch_test_model channel))),
      (''auto_ban'', JNum (case ch_auto_ban channel of Val a \<Rightarrow> a | _ \<Rightarrow> num 1)),
      (''status'', JNum (num (ch_status channel))),
      (''status_code_mapping'', JStr (nstr (ch_status_code_mapping channel))),
      (''tag'', JStr (nstr (ch_tag channel))), (''remark'', JStr (ch_remark channel)),
      (''setting'', JStr (nstr (ch_setting channel))),
      (''param_override'', JStr (nstr (ch_param_override channel))),
      (''header_override'', JStr (nstr (ch_header_override channel))),
      (''settings'', JStr (nonempty_or (ch_settings channel) ''{}'')), (''other'', JStr (ch_other channel)),
      (''multi_key_mode'', JStr ''single''),
      (''multi_key_type'', JStr (case multi_key_mode (ch_channel_info channel) of
          Random \<Rightarrow> ''random'' | Polling \<Rightarrow> ''polling'')),
      (''batch_add_set_key_prefix_2_name'', JBool False), (''key_mode'', JStr ''append'')]
     @ extra_settings (nstr (ch_setting channel)) @ type_settings (ch_settings channel)"

subsection \<open>From the form to the settings texts\<close>

definition fstr :: "jsstr \<Rightarrow> json obj \<Rightarrow> jsstr" where
  \<comment> \<open>a string field, with the empty string for \<open>undefined\<close>\<close>
  "fstr k form = (case obj_get k form of Some (JStr s) \<Rightarrow> s | _ \<Rightarrow> [])"

definition form_type_is :: "json obj \<Rightarrow> int \<Rightarrow> bool" where
  "form_type_is form n \<longleftrightarrow> obj_get ''type'' form = Some (JNum (num n))"

definition buildSettingJSON :: "json obj \<Rightarrow> jsstr" where
  "buildSettingJSON form = json_stringify (JObj
     [(''force_format'', js_or (obj_get ''force_format'' form) (JBool False)),
      (''thinking_to_content'', js_or (obj_get ''thinking_to_content'' form) (JBool False)),
      (''proxy'', js_or (obj_get ''proxy'' form) (JStr [])),
      (''pass_through_body_enabled'', js_or (obj_get ''pass_through_body_enabled'' form) (JBool False)),
      (''system_prompt'', js_or (obj_get ''system_prompt'' form) (JStr [])),
      (''system_prompt_override'', js_or (obj_get ''system_prompt_override'' form) (JBool False))])"

definition put_if :: "bool \<Rightarrow> jsstr \<Rightarrow> json \<Rightarrow> json obj \<Rightarrow> json obj" where
  \<comment> \<open>set the property, or delete it where it is present\<close>
  "put_if b k v ob = (if b then obj_set k v ob else if obj_has k ob then obj_del k ob else ob)"

definition del_if :: "bool \<Rightarrow> jsstr \<Rightarrow> json obj \<Rightarrow> json obj" where
  "del_if b k ob = (if b \<and> obj_has k ob then obj_del k ob else ob)"

definition type_fields :: "json obj \<Rightarrow> json obj \<Rightarrow> json obj" where
  "type_fields form s0 =
     (let s1 = put_if (form_type_is form 41) ''vertex_key_type'' (js_or (obj_get ''vertex_key_type'' form) (JStr ''json'')) s0;
          s2 = put_if (form_type_is form 3 \<and> fstr ''azure_responses_version'' form \<noteq> [])
                 ''azure_responses_version'' (JStr (fstr ''azure_responses_version'' form)) s1;
          s3 = put_if (form_type_is form 20) ''openrouter_enterprise'' (is_true (obj_get ''is_enterprise_account'' form)) s2;
          s4 = put_if (form_type_is form 33) ''aws_key_type'' (js_or (obj_get ''aws_key_type'' form) (JStr ''ak_sk'')) s3
      in put_if (form_type_is form 1 \<or> form_type_is form 14) ''allow_service_tier''
           (is_true (obj_get ''allow_service_tier'' form)) s4)"

definition openai_fields :: "json obj \<Rightarrow> json obj \<Rightarrow> json obj" where
  "openai_fields form s0 =
     (if form_type_is form 1 then
        obj_set ''allow_inference_geo'' (is_true (obj_get ''allow_inference_geo'' form))
          (obj_set ''allow_include_obfuscation'' (is_true (obj_get ''allow_include_obfuscation'' form))
            (obj_set ''allow_safety_identifier'' (is_true (obj_get ''allow_safety_identifier'' form))
              (obj_set ''disable_store'' (is_true (obj_get ''disable_store'' form)) s0)))
      else
        del_if (\<not> form_type_is form 14) ''allow_inference_geo''
          (del_if True ''allow_include_obfuscation''
            (del_if True ''allow_safety_identifier'' (del_if True ''disable_store'' s0))))"

definition anthropic_fields :: "json obj \<Rightarrow> json obj \<Rightarrow> json obj" where
  "anthropic_fields form s0 =
     (if form_type_is form 14 then
        obj_set ''claude_beta_query'' (is_true (obj_get ''claude_beta_query'' form))
          (obj_set ''allow_speed'' (is_true (obj_get ''allow_speed'' form))
            (obj_set ''allow_inference_geo'' (is_true (obj_get ''allow_inference_geo'' form)) s0))
      else del_if True ''claude_beta_query'' (del_if True ''allow_speed'' s0))"

definition ignored_models :: "json obj \<Rightarrow> json" where
  "ignored_models form = JArr (map JStr (uniq (filter (\<lambda>m. m \<noteq> [])
     (map js_trim (split_on (CHR '','')
       (js_String (js_or (obj_get ''upstream_model_update_ignored_models'' form) (JStr []))))))))"

definition upstream_fields :: "json obj \<Rightarrow> json obj \<Rightarrow> json obj" where
  "upstream_fields form s0 =
     (if list_ex (form_type_is form) MODEL_FETCHABLE_TYPES then
        (let check = (obj_get ''upstream_model_update_check_enabled'' form = Some (JBool True));
             s1 = obj_set ''upstream_model_update_check_enabled'' (JBool check) s0;
             s2 = obj_set ''upstream_model_update_auto_sync_enabled''
                    (JBool (check \<and> obj_get ''upstream_model_update_auto_sync_enabled'' form = Some (JBool True))) s1;
             s3 = obj_set ''upstream_model_update_ignored_models'' (ignored_models form) s2;
             s4 = (if (case obj_get ''upstream_model_update_last_detected_models'' s3 of Some (JArr _) \<Rightarrow> False | _ \<Rightarrow> True) \<or> \<not> check
                   then obj_set ''upstream_model_update_last_detected_models'' (JArr []) s3 else s3)
         in (case obj_get ''upstream_model_update_last_check_time'' s4 of
               Some (JNum _) \<Rightarrow> s4
             | _ \<Rightarrow> obj_set ''upstream_model_update_last_check_time'' (JNum (num 0)) s4))
      else s0)"

definition settings_object :: "json obj \<Rightarrow> json obj \<Rightarrow> json obj" where
  "settings_object form s0 =
     upstream_fields form (anthropic_fields form (openai_fields form (type_fields form s0)))"

definition buildSettingsJSON :: "json obj \<Rightarrow> jsstr option" where
  "buildSettingsJSON form =
     (let settings = fstr ''settings'' form;
          base = (if settings \<noteq> [] \<and> settings \<noteq> ''{}''
                  then (case json_parse settings of Some v \<Rightarrow> v | None \<Rightarrow> JObj []) else JObj [])
      in case base of
           JObj s0 \<Rightarrow> Some (json_stringify (JObj (settings_object form s0)))
         | JArr vs \<Rightarrow> Some (json_stringify (JArr vs))
         | _ \<Rightarrow> None)"

subsection \<open>Payloads\<close>

definition or_null :: "jsstr \<Rightarrow> json obj \<Rightarrow> json option" where
  "or_null k form = Some (js_or (obj_get k form) JNull)"

definition form_groups :: "json obj \<Rightarrow> jsstr" where
  "form_groups form = (case obj_get ''group'' form of Some (JArr gs) \<Rightarrow> js_String (JArr gs) | _ \<Rightarrow> [])"

definition nullify :: "json obj \<Rightarrow> json obj" where
  "nullify payload = map (\<lambda>(k, v). if v = JStr [] then (k, JNull) else (k, v)) payload"

record CreatePayload =
  cp_mode :: json
  cp_multi_key_mode :: "json option"
  cp_batch_prefix :: "json option"
  cp_channel :: "json obj"

definition transformFormDataToCreatePayload :: "json obj \<Rightarrow> CreatePayload option" where
  "transformFormDataToCreatePayload form = (case buildSettingsJSON form of
       None \<Rightarrow> None
     | Some settingsText \<Rightarrow>
         (let mode = js_or (obj_get ''multi_key_mode'' form) (JStr ''single'');
              channel = defined
                [(''name'', obj_get ''name'' form), (''type'', obj_get ''type'' form),
                 (''base_url'', or_null ''base_url'' form), (''key'', obj_get ''key'' form),
                 (''openai_organization'', or_null ''openai_organization'' form),
                 (''models'', obj_get ''models'' form), (''group'', Some (JStr (form_groups form))),
                 (''model_mapping'', or_null ''model_mapping'' form), (''priority'', or_null ''priority'' form),
                 (''weight'', or_null ''weight'' form), (''test_model'', or_null ''test_model'' form),
                 (''auto_ban'', Some (case obj_get ''auto_ban'' form of None \<Rightarrow> JNum (num 1) | Some JNull \<Rightarrow> JNum (num 1) | Some a \<Rightarrow> a)),
                 (''status'', obj_get ''status'' form),
                 (''status_code_mapping'', or_null ''status_code_mapping'' form), (''tag'', or_null ''tag'' form),
                 (''remark'', Some (js_or (obj_get ''remark'' form) (JStr []))),
                 (''setting'', Some (JStr (buildSettingJSON form))),
                 (''param_override'', or_null ''param_override'' form),
                 (''header_override'', or_null ''header_override'' form),
                 (''settings'', Some (JStr settingsText)),
                 (''other'', Some (js_or (obj_get ''other'' form) (JStr [])))]
          in Some \<lparr>cp_mode = mode,
                   cp_multi_key_mode = (if mode = JStr ''multi_to_single'' then obj_get ''multi_key_type'' form else None),
                   cp_batch_prefix = (if mode = JStr ''batch'' then obj_get ''batch_add_set_key_prefix_2_name'' form else None),
                   cp_channel = nullify channel\<rparr>))"

definition transformFormDataToUpdatePayload :: "json obj \<Rightarrow> jsnum \<Rightarrow> json obj option" where
  "transformFormDataToUpdatePayload form channelId = (case buildSettingsJSON form of
       None \<Rightarrow> None
     | Some settingsText \<Rightarrow>
         (let payload = defined
                [(''id'', Some (JNum channelId)), (''name'', obj_get ''name'' form), (''type'', obj_get ''type'' form),
                 (''base_url'', or_null ''base_url'' form),
                 (''openai_organization'', or_null ''openai_organization'' form),
                 (''models'', obj_get ''models'' form), (''group'', Some (JStr (form_groups form))),
                 (''model_mapping'', or_null ''model_mapping'' form), (''priority'', or_null ''priority'' form),
                 (''weight'', or_null ''weight'' form), (''test_model'', or_null ''test_model'' form),
                 (''auto_ban'', Some (case obj_get ''auto_ban'' form of None \<Rightarrow> JNum (num 1) | Some JNull \<Rightarrow> JNum (num 1) | Some a \<Rightarrow> a)),
                 (''status'', obj_get ''status'' form),
                 (''status_code_mapping'', or_null ''status_code_mapping'' form), (''tag'', or_null ''tag'' form),
                 (''remark'', Some (js_or (obj_get ''remark'' form) (JStr []))),
                 (''setting'', Some (JStr (buildSettingJSON form))),
                 (''param_override'', or_null ''param_override'' form),
                 (''header_override'', or_null ''header_override'' form),
                 (''settings'', Some (JStr settingsText)),
                 (''other'', Some (js_or (obj_get ''other'' form) (JStr [])))];
              withKey = (if fstr ''key'' form \<noteq> [] \<and> js_trim (fstr ''key'' form) \<noteq> []
                         then obj_set ''key'' (JStr (fstr ''key'' form)) payload else payload)
          in Some (nullify withKey)))"

subsection \<open>Lemmas\<close>








lemma form_type_unique: "form_type_is form a \<Longrightarrow> form_type_is form b \<longleftrightarrow> a = b"
  by (simp add: form_type_is_def)





lemma get_nullify:
  "obj_get k (nullify p) = map_option (\<lambda>v. if v = JStr [] then JNull else v) (obj_get k p)"
proof (induction p)
  case (Cons q p)
  obtain j w where q: "q = (j, w)" by (cases q)
  have "nullify (q # p) = (j, if w = JStr [] then JNull else w) # nullify p" by (simp add: nullify_def q)
  then show ?case using Cons q by (simp add: obj_get_def)
qed (simp add: nullify_def obj_get_def)

lemma nullify_no_empty [simp]: "JStr [] \<notin> snd ` set (nullify p)"
  by (auto simp: nullify_def split: if_splits)

lemma obj_get_defined_other: "k \<notin> fst ` set ps \<Longrightarrow> obj_get k (defined ps) = None"
proof (induction ps)
  case (Cons p ps)
  obtain j v where "p = (j, v)" by (cases p)
  with Cons show ?case by (cases v) (auto simp: obj_get_def)
qed (simp add: obj_get_def)







lemma schema_extra:
  "(''force_format'', OptBool) \<in> set channelFormSchema" "(''thinking_to_content'', OptBool) \<in> set channelFormSchema"
  "(''pass_through_body_enabled'', OptBool) \<in> set channelFormSchema"
  "(''system_prompt_override'', OptBool) \<in> set channelFormSchema"
  "(''proxy'', OptString None) \<in> set channelFormSchema" "(''system_prompt'', OptString None) \<in> set channelFormSchema"
  unfolding channelFormSchema_def by simp_all

subsection \<open>Properties\<close>


text \<open>The extra settings survive saving and loading: the form of a channel whose \<open>setting\<close> text was
  built from a form with typed values has the same six values, with the defaults for missing ones.\<close>

theorem setting_roundtrip:
  assumes "schema_ok form" and "ch_setting channel = Val (buildSettingJSON form)"
    and "k \<in> {''force_format'', ''thinking_to_content'', ''pass_through_body_enabled'', ''system_prompt_override'', ''proxy'', ''system_prompt''}"
  shows "obj_get k (transformChannelToFormDefaults channel) =
     Some (js_or (obj_get k form) (if k = ''proxy'' \<or> k = ''system_prompt'' then JStr [] else JBool False))"
proof -
  let ?b = "\<lambda>k. js_or (obj_get k form) (JBool False)" and ?s = "\<lambda>k. js_or (obj_get k form) (JStr [])"
  let ?ob = "[(''force_format'', ?b ''force_format''), (''thinking_to_content'', ?b ''thinking_to_content''),
     (''proxy'', ?s ''proxy''), (''pass_through_body_enabled'', ?b ''pass_through_body_enabled''),
     (''system_prompt'', ?s ''system_prompt''), (''system_prompt_override'', ?b ''system_prompt_override'')]"
  have typed: "rule_ok r (obj_get f form)" if "(f, r) \<in> set channelFormSchema" for f r
    using assms(1) that by (auto simp: schema_ok_def list_all_iff)
  have bool: "json_plain (?b f)" if "(f, OptBool) \<in> set channelFormSchema" for f
    using typed [OF that] by (auto simp: js_or_def split: option.splits json.splits)
  have str: "json_plain (?s f)" if "(f, OptString None) \<in> set channelFormSchema" for f
    using typed [OF that] by (auto simp: js_or_def split: option.splits json.splits)
  have "build_obj ?ob = ?ob"
    by (simp add: build_obj_def obj_set_def obj_has_def is_array_index_def is_digit_def)
  moreover have "json_plain (snd p)" if "p \<in> set ?ob" for p
    using that bool [OF schema_extra(1)] bool [OF schema_extra(2)] bool [OF schema_extra(3)]
      bool [OF schema_extra(4)] str [OF schema_extra(5)] str [OF schema_extra(6)] by auto
  ultimately have "json_plain (JObj ?ob)" by simp
  then have p: "json_parse (buildSettingJSON form) = Some (JObj ?ob)"
    unfolding buildSettingJSON_def by (rule json_roundtrip)
  have ne: "buildSettingJSON form \<noteq> []" by (simp add: buildSettingJSON_def)
  have "readable (nstr (ch_setting channel)) = Some (JObj ?ob)"
    using p ne assms(2) by (simp add: readable_def nstr_def)
  then have e: "extra_settings (nstr (ch_setting channel)) =
      [(f, js_or (obj_get f ?ob) (if f = ''proxy'' \<or> f = ''system_prompt'' then JStr [] else JBool False)).
       f \<leftarrow> map fst ?ob]"
    by (simp add: extra_settings_def)
  have or: "js_or (Some (js_or v d)) d = js_or v d" for v d by (simp add: js_or_def split: option.splits)
  show ?thesis
    using assms(3) unfolding transformChannelToFormDefaults_def e
    by (elim insertE emptyE) (simp_all add: obj_get_def or)
qed

text \<open>C40. The key of a channel never reaches the form, and an update carries a key exactly when a
  non-blank one was typed; neither payload sends an empty string.\<close>

theorem key_never_leaks:
  "obj_get ''key'' (transformChannelToFormDefaults channel) = Some (JStr []) \<and>
   (case transformFormDataToUpdatePayload form cid of None \<Rightarrow> True
    | Some payload \<Rightarrow>
       obj_get ''key'' payload = (if js_trim (fstr ''key'' form) \<noteq> [] then Some (JStr (fstr ''key'' form)) else None) \<and>
       JStr [] \<notin> snd ` set payload) \<and>
   (case transformFormDataToCreatePayload form of None \<Rightarrow> True | Some cp \<Rightarrow> JStr [] \<notin> snd ` set (cp_channel cp))"
proof (intro conjI)
  show "obj_get ''key'' (transformChannelToFormDefaults channel) = Some (JStr [])"
    by (simp add: transformChannelToFormDefaults_def obj_get_def)
  show "case transformFormDataToCreatePayload form of None \<Rightarrow> True | Some cp \<Rightarrow> JStr [] \<notin> snd ` set (cp_channel cp)"
    by (simp add: transformFormDataToCreatePayload_def Let_def split: option.split)
  have ne: "fstr ''key'' form \<noteq> []" if "js_trim (fstr ''key'' form) \<noteq> []" using that by auto
  show "case transformFormDataToUpdatePayload form cid of None \<Rightarrow> True
    | Some payload \<Rightarrow>
       obj_get ''key'' payload = (if js_trim (fstr ''key'' form) \<noteq> [] then Some (JStr (fstr ''key'' form)) else None) \<and>
       JStr [] \<notin> snd ` set payload"
  proof (cases "buildSettingsJSON form")
    case (Some settingsText)
    show ?thesis
      using ne unfolding transformFormDataToUpdatePayload_def Some option.case Let_def
      by (simp add: get_nullify js_obj.get_put obj_get_defined_other del: defined_simps)
  qed (simp add: transformFormDataToUpdatePayload_def)
qed

definition sample_form :: "json obj" where
  "sample_form = obj_set ''name'' (JStr ''n'') (obj_set ''models'' (JStr ''m'')
     (obj_set ''proxy'' (JStr ''http://p'') CHANNEL_FORM_DEFAULT_VALUES))"

theorem setting_roundtrip_witness:
  "obj_get ''proxy'' (transformChannelToFormDefaults (sample_channel\<lparr>ch_setting := Val (buildSettingJSON sample_form)\<rparr>)) =
     Some (js_or (obj_get ''proxy'' sample_form) (if ''proxy'' = ''proxy'' \<or> ''proxy'' = ''system_prompt'' then JStr [] else JBool False))"
proof (rule setting_roundtrip)
  show "schema_ok sample_form" by code_simp
qed simp_all

end
