(* ===== verification/Ollama_Utils.thy ===== *)
theory Ollama_Utils
  imports Channel_Utils
begin

section \<open>Ollama channels\<close>

text \<open>
  Model of \<^verbatim>\<open>features/channels/lib/ollama-utils.ts\<close>: the base URL of an Ollama channel, and the model lists
  of its server, which come in several shapes. The legacy field \<open>ollama_base_url\<close>, which the
  channel type does not have, is an argument.
\<close>

definition getString :: "json option \<Rightarrow> jsstr option" where
  "getString value = (case value of Some (JStr s) \<Rightarrow> Some s | _ \<Rightarrow> None)"

definition getNumber :: "json option \<Rightarrow> jsnum option" where
  "getNumber value = (case value of Some (JNum x) \<Rightarrow> Some x | _ \<Rightarrow> None)"

definition isRecord :: "json option \<Rightarrow> bool" where
  "isRecord value = (case value of Some (JObj _) \<Rightarrow> True | Some (JArr _) \<Rightarrow> True | _ \<Rightarrow> False)"

definition parseMaybeJSON :: "json option \<Rightarrow> json" where
  "parseMaybeJSON value =
     (if \<not> js_truthy value then JNull
      else case value of
          Some (JObj kvs) \<Rightarrow> JObj kvs
        | Some (JArr vs) \<Rightarrow> JArr vs
        | Some (JStr s) \<Rightarrow> (case json_parse s of Some v \<Rightarrow> v | None \<Rightarrow> JNull)
        | _ \<Rightarrow> JNull)"

definition trimmed_prop :: "json \<Rightarrow> jsstr \<Rightarrow> jsstr" where
  "trimmed_prop v k = (case getString (js_prop (Some v) k) of Some s \<Rightarrow> js_trim s | None \<Rightarrow> [])"

definition resolveOllamaBaseUrl :: "Channel option \<Rightarrow> json option \<Rightarrow> jsstr" where
  "resolveOllamaBaseUrl channel ollama_base_url = (case channel of
       None \<Rightarrow> []
     | Some c \<Rightarrow>
         (let direct = (case ch_base_url c of Val u \<Rightarrow> js_trim u | _ \<Rightarrow> []);
              alt = (case ollama_base_url of Some (JStr u) \<Rightarrow> js_trim u | _ \<Rightarrow> []);
              parsed = parseMaybeJSON (Some (JStr (ch_other_info c)))
          in if direct \<noteq> [] then direct
             else if alt \<noteq> [] then alt
             else if isRecord (Some parsed) then
               (if trimmed_prop parsed ''base_url'' \<noteq> [] then trimmed_prop parsed ''base_url''
                else if trimmed_prop parsed ''public_url'' \<noteq> [] then trimmed_prop parsed ''public_url''
                else if trimmed_prop parsed ''api_url'' \<noteq> [] then trimmed_prop parsed ''api_url''
                else [])
             else []))"

definition first_string :: "json obj \<Rightarrow> jsstr list \<Rightarrow> jsstr" where
  \<comment> \<open>\<open>getString(item.k1) || getString(item.k2) || ...\<close>, with the empty string for none\<close>
  "first_string item ks = foldr (\<lambda>k r. case getString (obj_get k item) of
     Some s \<Rightarrow> if s \<noteq> [] then s else r | None \<Rightarrow> r) ks []"

definition set_missing :: "jsstr \<Rightarrow> json option \<Rightarrow> json obj \<Rightarrow> json obj" where
  \<comment> \<open>set a property when the new value is present and the current one is falsy\<close>
  "set_missing k v ob = (case v of Some w \<Rightarrow> if \<not> js_truthy (obj_get k ob) then obj_set k w ob else ob | None \<Rightarrow> ob)"

definition nonempty_string :: "json option \<Rightarrow> json option" where
  "nonempty_string v = (case getString v of Some s \<Rightarrow> if s \<noteq> [] then Some (JStr s) else None | None \<Rightarrow> None)"

definition truthy_value :: "json option \<Rightarrow> json option" where
  "truthy_value v = (if js_truthy v then v else None)"

definition coalesce :: "json option \<Rightarrow> json option \<Rightarrow> json option" where
  \<comment> \<open>\<open>a ?? b\<close>\<close>
  "coalesce a b = (case a of None \<Rightarrow> b | Some JNull \<Rightarrow> b | Some v \<Rightarrow> Some v)"

definition fill_from_metadata :: "json option \<Rightarrow> json obj \<Rightarrow> json obj" where
  "fill_from_metadata metadata n =
     (if isRecord metadata then
        set_missing ''details'' (truthy_value (js_prop metadata ''details''))
          (set_missing ''modified_at'' (nonempty_string (js_prop metadata ''modified_at''))
            (set_missing ''digest'' (nonempty_string (js_prop metadata ''digest''))
              (set_missing ''size'' (map_option JNum (getNumber (js_prop metadata ''size''))) n)))
      else n)"

definition normalize_item :: "json obj \<Rightarrow> json obj option" where
  "normalize_item item =
     (let candidateId = first_string item [''id'', ''ID'', ''name'', ''model'', ''Model''] in
      if candidateId = [] then None
      else (let metadata = coalesce (obj_get ''metadata'' item) (obj_get ''Metadata'' item);
                owner = first_string item [''owned_by'', ''ownedBy''];
                n0 = obj_set ''owned_by'' (JStr (if owner \<noteq> [] then owner else ''ollama''))
                       (obj_set ''id'' (JStr candidateId) item);
                n1 = set_missing ''size'' (map_option JNum (getNumber (obj_get ''size'' item))) n0
            in Some (fill_from_metadata metadata n1)))"

definition normalizeOllamaModels :: "json option \<Rightarrow> json obj list" where
  "normalizeOllamaModels items = (case items of
       Some (JArr vs) \<Rightarrow> List.map_filter (\<lambda>item. case item of
            JStr s \<Rightarrow> if s \<noteq> [] then Some [(''id'', JStr s), (''owned_by'', JStr ''ollama'')] else None
          | JObj kvs \<Rightarrow> normalize_item kvs
          | _ \<Rightarrow> None) vs
     | _ \<Rightarrow> [])"

definition formatBytes :: "jsnum option \<Rightarrow> jsstr" where
  "formatBytes bytes = (case bytes of
       None \<Rightarrow> ''-''
     | Some b \<Rightarrow>
         if js_isNaN b then ''-''
         else if js_lt b (num 1024) then js_num_str b @ '' B''
         else (let kb = js_div b (num 1024) in
           if js_lt kb (num 1024) then js_toFixed kb 1 @ '' KB''
           else (let mb = js_div kb (num 1024) in
             if js_lt mb (num 1024) then js_toFixed mb 1 @ '' MB''
             else js_toFixed (js_div mb (num 1024)) 2 @ '' GB'')))"

subsection \<open>Properties\<close>

lemma get_set_missing: "k \<noteq> j \<Longrightarrow> obj_get k (set_missing j v ob) = obj_get k ob"
  by (simp add: set_missing_def js_obj.get_put split: option.splits)

lemma get_fill:
  "k \<noteq> ''size'' \<Longrightarrow> k \<noteq> ''digest'' \<Longrightarrow> k \<noteq> ''modified_at'' \<Longrightarrow> k \<noteq> ''details'' \<Longrightarrow>
     obj_get k (fill_from_metadata md n) = obj_get k n"
  by (simp add: fill_from_metadata_def get_set_missing)

definition identified :: "json obj \<Rightarrow> bool" where
  "identified m \<longleftrightarrow> nonempty_string (obj_get ''id'' m) \<noteq> None \<and> nonempty_string (obj_get ''owned_by'' m) \<noteq> None"

lemma normalize_item_id: "normalize_item item = Some m \<Longrightarrow> identified m"
  unfolding normalize_item_def Let_def
  by (split if_split_asm)
    (auto simp: identified_def get_fill get_set_missing js_obj.get_put nonempty_string_def getString_def)

text \<open>Every model of the normalised list has a non-empty string as its identifier and as its owner,
  whatever the server sent.\<close>

theorem ollama_models_identified: "list_all identified (normalizeOllamaModels items)"
proof (cases "\<exists>vs. items = Some (JArr vs)")
  case True
  then obtain vs where "items = Some (JArr vs)" by blast
  moreover have "list_all identified (normalizeOllamaModels (Some (JArr vs)))"
  proof (induction vs)
    case (Cons v vs)
    then show ?case
      by (cases v) (auto simp: normalizeOllamaModels_def List.map_filter_simps identified_def
          nonempty_string_def getString_def obj_get_def dest: normalize_item_id split: option.splits)
  qed (simp add: normalizeOllamaModels_def List.map_filter_simps)
  ultimately show ?thesis by simp
qed (auto simp: normalizeOllamaModels_def split: option.splits json.splits)

end
