(* ===== verification/Pricing.thy ===== *)
theory Pricing
  imports Currency
begin

section \<open>The model price list\<close>

text \<open>
  Model of \<^verbatim>\<open>features/pricing/lib/price.ts\<close>, \<^verbatim>\<open>features/pricing/lib/filters.ts\<close>,
  \<^verbatim>\<open>features/pricing/lib/model-helpers.ts\<close> and of the types and constants of \<^verbatim>\<open>features/pricing\<close>. Prices are binary64
  numbers; a missing or \<open>null\<close> ratio is \<open>None\<close> (\<open>hasRatio\<close> treats both alike). The collation
  of \<open>localeCompare\<close> is an argument, as in \<open>Channel_Utils\<close>.
\<close>

subsection \<open>Data\<close>

record VideoBillingPricingPoint =
  vp_resolution :: "jsstr option"
  vp_width :: jsnum
  vp_height :: jsnum
  vp_duration_seconds :: jsnum
  vp_has_video_input :: bool
  vp_has_audio_input :: "bool option"
  vp_tokens :: jsnum
  vp_unit_price_per_million :: jsnum
  vp_price_per_second_usd :: "jsnum option"
  vp_price_usd :: jsnum
  vp_quota :: jsnum
  vp_scenario :: "jsstr option"

record VideoBillingPricing =
  vb_headline :: VideoBillingPricingPoint
  vb_matrix :: "VideoBillingPricingPoint list"
  vb_rules :: "jsstr list option"

record PricingModel =
  pm_id :: jsnum
  model_name :: jsstr
  pm_description :: "jsstr option"
  vendor_id :: "jsnum option"
  vendor_name :: "jsstr option"
  vendor_icon :: "jsstr option"
  vendor_description :: "jsstr option"
  quota_type :: int
  model_ratio :: jsnum
  completion_ratio :: jsnum
  model_price :: "jsnum option"
  cache_ratio :: "jsnum option"
  create_cache_ratio :: "jsnum option"
  image_ratio :: "jsnum option"
  audio_ratio :: "jsnum option"
  audio_completion_ratio :: "jsnum option"
  enable_groups :: "jsstr list"
  pm_tags :: "jsstr option"
  supported_endpoint_types :: "jsstr list option"
  pm_key :: "jsstr option"
  group_ratio :: "jsnum obj option"
  billing_mode :: "jsstr option"
  billing_expr :: "jsstr option"
  video_billing :: "VideoBillingPricing option"
  pricing_version :: "jsstr option"

datatype TokenUnit = UnitM | UnitK
datatype PriceType = Input | Output | Cache | CreateCache | Image | AudioInput | AudioOutput

definition QUOTA_TOKEN :: int where "QUOTA_TOKEN = 0"
definition QUOTA_REQUEST :: int where "QUOTA_REQUEST = 1"
definition QUOTA_VIDEO_FORMULA :: int where "QUOTA_VIDEO_FORMULA = 2"

fun TOKEN_UNIT_DIVISORS :: "TokenUnit \<Rightarrow> jsnum" where
  "TOKEN_UNIT_DIVISORS UnitM = num 1"
| "TOKEN_UNIT_DIVISORS UnitK = num 1000"

definition FILTER_ALL :: jsstr where "FILTER_ALL = ''all''"
definition EXCLUDED_GROUPS :: "jsstr list" where "EXCLUDED_GROUPS = [[], ''auto'']"

subsection \<open>Prices\<close>

text \<open>
  \<open>stripTrailingZeros\<close> matches its argument against \<open>/^([^\d-]*)([-\d,]+\.?\d*)(k?)$/\<close>. The
  symbol is the longest prefix without digits and dashes; a shorter one could only end before
  commas, which leaves the same text to the number, or a number of commas alone, for which the
  function returns its argument as it does without a match.
\<close>

definition price_sym :: "char \<Rightarrow> bool" where
  "price_sym c \<longleftrightarrow> \<not> is_digit c \<and> c \<noteq> CHR ''-''"

definition price_num :: "char \<Rightarrow> bool" where
  "price_num c \<longleftrightarrow> is_digit c \<or> c = CHR ''-'' \<or> c = CHR '',''"

definition split_price :: "jsstr \<Rightarrow> (jsstr \<times> jsstr \<times> jsstr) option" where
  \<comment> \<open>the three groups of the match\<close>
  "split_price s =
     (let symbol = takeWhile price_sym s; r = dropWhile price_sym s;
          a = takeWhile price_num r; r1 = dropWhile price_num r;
          d = (case r1 of c # _ \<Rightarrow> if c = CHR ''.'' then ''.'' else [] | [] \<Rightarrow> []); r2 = drop (length d) r1;
          b = takeWhile is_digit r2; r3 = dropWhile is_digit r2
      in if a \<noteq> [] \<and> (r3 = [] \<or> r3 = ''k'') then Some (symbol, a @ d @ b, r3) else None)"

text \<open>\<open>parseFloat\<close> on a text of digits, dashes and a dot: the longest prefix that is a number.\<close>

definition parse_float_prefix :: "jsstr \<Rightarrow> jsnum" where
  "parse_float_prefix s =
     (let (neg, s1) = (case s of c # t \<Rightarrow> if c = CHR ''-'' then (True, t) else (False, s) | [] \<Rightarrow> (False, s));
          ip = takeWhile is_digit s1; s2 = dropWhile is_digit s1;
          fp = (case s2 of c # t \<Rightarrow> if c = CHR ''.'' then takeWhile is_digit t else [] | [] \<Rightarrow> [])
      in if ip = [] \<and> fp = [] then NaN
         else fl ((if neg then -1 else 1) * decimal_val ip fp 0))"

definition strip_zero_run :: "jsstr \<Rightarrow> jsstr" where
  \<comment> \<open>\<open>replace(/\.?0+$/, '')\<close>\<close>
  "strip_zero_run s =
     (let r = rev s; t = dropWhile (\<lambda>c. c = CHR ''0'') r in
      if t = r then s
      else rev (case t of c # u \<Rightarrow> if c = CHR ''.'' then u else t | [] \<Rightarrow> []))"

definition stripTrailingZeros :: "jsstr \<Rightarrow> jsstr" where
  "stripTrailingZeros formatted = (case split_price formatted of
       None \<Rightarrow> formatted
     | Some (symbol, number, suffix) \<Rightarrow>
         (let parsed = parse_float_prefix (filter (\<lambda>c. c \<noteq> CHR '','') number) in
          if js_isNaN parsed then formatted
          else (let r0 = js_num_str parsed;
                    result = (if js_includes r0 ''e'' then strip_zero_run (js_toFixed parsed 20) else r0)
                in symbol @ result @ suffix)))"

fun min_ratio_loop :: "jsstr list \<Rightarrow> jsnum obj \<Rightarrow> jsnum \<Rightarrow> jsnum" where
  "min_ratio_loop [] groupRatio minRatio = minRatio"
| "min_ratio_loop (grp # rest) groupRatio minRatio =
     (case obj_get grp groupRatio of
        Some ratio \<Rightarrow> min_ratio_loop rest groupRatio (if js_lt ratio minRatio then ratio else minRatio)
      | None \<Rightarrow> min_ratio_loop rest groupRatio minRatio)"

definition getMinGroupRatio :: "jsstr list \<Rightarrow> jsnum obj \<Rightarrow> jsnum" where
  "getMinGroupRatio enableGroups groupRatio =
     (if length enableGroups = 0 then num 1
      else (let minRatio = min_ratio_loop enableGroups groupRatio PInf in
            if minRatio = PInf then num 1 else minRatio))"

definition hasRatio :: "jsnum option \<Rightarrow> bool" where
  "hasRatio value = (case value of Some v \<Rightarrow> js_isFinite v | None \<Rightarrow> False)"

definition times_ratio :: "jsnum \<Rightarrow> jsnum option \<Rightarrow> jsnum" where
  "times_ratio base r = (if hasRatio r then js_mul base (the r) else NaN)"

definition calculateTokenPrice :: "PricingModel \<Rightarrow> PriceType \<Rightarrow> jsnum \<Rightarrow> jsnum" where
  "calculateTokenPrice model ty ratio =
     (let base = js_mul (js_mul (model_ratio model) (num 2)) ratio in
      case ty of
        Input \<Rightarrow> base
      | Output \<Rightarrow> js_mul base (completion_ratio model)
      | Cache \<Rightarrow> times_ratio base (cache_ratio model)
      | CreateCache \<Rightarrow> times_ratio base (create_cache_ratio model)
      | Image \<Rightarrow> times_ratio base (image_ratio model)
      | AudioInput \<Rightarrow> times_ratio base (audio_ratio model)
      | AudioOutput \<Rightarrow>
          (if hasRatio (audio_ratio model) \<and> hasRatio (audio_completion_ratio model)
           then js_mul (js_mul base (the (audio_ratio model))) (the (audio_completion_ratio model)) else NaN))"

definition applyRechargeRate :: "jsnum \<Rightarrow> bool \<Rightarrow> jsnum \<Rightarrow> jsnum \<Rightarrow> jsnum" where
  "applyRechargeRate price showWithRecharge priceRate exchangeRate =
     (if \<not> showWithRecharge then price else js_div (js_mul price priceRate) exchangeRate)"

definition ratios_of :: "PricingModel \<Rightarrow> jsnum obj" where
  "ratios_of model = (case group_ratio model of Some r \<Rightarrow> r | None \<Rightarrow> [])"

definition formatPrice ::
    "Intl \<Rightarrow> SystemConfigState \<Rightarrow> PricingModel \<Rightarrow> PriceType \<Rightarrow> TokenUnit \<Rightarrow> bool \<Rightarrow> jsnum \<Rightarrow> jsnum \<Rightarrow> jsstr" where
  "formatPrice intl st model ty tokenUnit showWithRecharge priceRate exchangeRate =
     (if quota_type model = QUOTA_REQUEST then ''-''
      else (let minRatio = getMinGroupRatio (enable_groups model) (ratios_of model);
                priceInUSD = applyRechargeRate (calculateTokenPrice model ty minRatio) showWithRecharge priceRate exchangeRate
            in formatCurrencyFromUSD intl st (Some (js_div priceInUSD (TOKEN_UNIT_DIVISORS tokenUnit))) (Some (opts3 4 6 False))))"

definition ratio_or_one :: "jsstr \<Rightarrow> jsnum obj \<Rightarrow> jsnum" where
  \<comment> \<open>\<open>groupRatio[grp] || 1\<close>\<close>
  "ratio_or_one grp groupRatio = (case obj_get grp groupRatio of Some r \<Rightarrow> num_or r (num 1) | None \<Rightarrow> num 1)"

definition formatGroupPrice ::
    "Intl \<Rightarrow> SystemConfigState \<Rightarrow> PricingModel \<Rightarrow> jsstr \<Rightarrow> PriceType \<Rightarrow> TokenUnit \<Rightarrow> bool \<Rightarrow> jsnum \<Rightarrow> jsnum \<Rightarrow> jsnum obj \<Rightarrow> jsstr" where
  "formatGroupPrice intl st model grp ty tokenUnit showWithRecharge priceRate exchangeRate groupRatio =
     (if quota_type model = QUOTA_REQUEST then ''-''
      else (let priceInUSD = applyRechargeRate (calculateTokenPrice model ty (ratio_or_one grp groupRatio))
                  showWithRecharge priceRate exchangeRate
            in formatCurrencyFromUSD intl st (Some (js_div priceInUSD (TOKEN_UNIT_DIVISORS tokenUnit))) (Some (opts3 4 6 False))))"

definition fixed_price :: "PricingModel \<Rightarrow> jsnum" where
  \<comment> \<open>\<open>model.model_price || 0\<close>\<close>
  "fixed_price model = (case model_price model of Some p \<Rightarrow> num_or p (num 0) | None \<Rightarrow> num 0)"

definition formatFixedPrice ::
    "Intl \<Rightarrow> SystemConfigState \<Rightarrow> PricingModel \<Rightarrow> jsstr \<Rightarrow> bool \<Rightarrow> jsnum \<Rightarrow> jsnum \<Rightarrow> jsnum obj \<Rightarrow> jsstr" where
  "formatFixedPrice intl st model grp showWithRecharge priceRate exchangeRate groupRatio =
     (if quota_type model \<noteq> QUOTA_REQUEST then ''-''
      else formatCurrencyFromUSD intl st
        (Some (applyRechargeRate (js_mul (fixed_price model) (ratio_or_one grp groupRatio))
          showWithRecharge priceRate exchangeRate)) (Some (opts3 4 4 False)))"

definition formatRequestPrice ::
    "Intl \<Rightarrow> SystemConfigState \<Rightarrow> PricingModel \<Rightarrow> bool \<Rightarrow> jsnum \<Rightarrow> jsnum \<Rightarrow> jsstr" where
  "formatRequestPrice intl st model showWithRecharge priceRate exchangeRate =
     (if quota_type model \<noteq> QUOTA_REQUEST then ''-''
      else formatCurrencyFromUSD intl st
        (Some (applyRechargeRate (js_mul (fixed_price model) (getMinGroupRatio (enable_groups model) (ratios_of model)))
          showWithRecharge priceRate exchangeRate)) (Some (opts3 4 4 False)))"

subsection \<open>Filters\<close>

definition lower_includes :: "jsstr option \<Rightarrow> jsstr \<Rightarrow> bool" where
  "lower_includes field q = (case field of Some s \<Rightarrow> js_includes (js_toLowerCase s) q | None \<Rightarrow> False)"

definition matches_search :: "jsstr \<Rightarrow> PricingModel \<Rightarrow> bool" where
  "matches_search lowerQuery m \<longleftrightarrow> lower_includes (Some (model_name m)) lowerQuery \<or>
     lower_includes (pm_description m) lowerQuery \<or> lower_includes (pm_tags m) lowerQuery \<or>
     lower_includes (vendor_name m) lowerQuery"

definition filterBySearch :: "PricingModel list \<Rightarrow> jsstr \<Rightarrow> PricingModel list" where
  "filterBySearch models query =
     (if query = [] then models else filter (matches_search (js_toLowerCase query)) models)"

definition filterByVendor :: "PricingModel list \<Rightarrow> jsstr \<Rightarrow> PricingModel list" where
  "filterByVendor models vendor =
     (if vendor = FILTER_ALL then models else filter (\<lambda>m. vendor_name m = Some vendor) models)"

definition filterByGroup :: "PricingModel list \<Rightarrow> jsstr \<Rightarrow> PricingModel list" where
  "filterByGroup models grp =
     (if grp = FILTER_ALL then models else filter (\<lambda>m. grp \<in> set (enable_groups m)) models)"

definition quota_target :: "jsstr \<Rightarrow> int" where
  "quota_target quotaType =
     (if quotaType = ''token'' then QUOTA_TOKEN else if quotaType = ''video'' then QUOTA_VIDEO_FORMULA
      else QUOTA_REQUEST)"

definition filterByQuotaType :: "PricingModel list \<Rightarrow> jsstr \<Rightarrow> PricingModel list" where
  "filterByQuotaType models quotaType =
     (if quotaType = ''all'' then models else filter (\<lambda>m. quota_type m = quota_target quotaType) models)"

definition filterByEndpointType :: "PricingModel list \<Rightarrow> jsstr \<Rightarrow> PricingModel list" where
  "filterByEndpointType models endpointType =
     (if endpointType = ''all'' then models
      else filter (\<lambda>m. case supported_endpoint_types m of Some ts \<Rightarrow> endpointType \<in> set ts | None \<Rightarrow> False) models)"

definition getModelPrice :: "PricingModel \<Rightarrow> jsnum" where
  "getModelPrice model = (if quota_type model = 0 then model_ratio model else fixed_price model)"

definition price_le :: "PricingModel \<Rightarrow> PricingModel \<Rightarrow> bool" where
  \<comment> \<open>the comparator \<open>getModelPrice(a) - getModelPrice(b)\<close> is not positive\<close>
  "price_le a b \<longleftrightarrow> \<not> js_lt (num 0) (js_sub (getModelPrice a) (getModelPrice b))"

definition name_le :: "(jsstr \<Rightarrow> jsstr \<Rightarrow> bool) \<Rightarrow> PricingModel \<Rightarrow> PricingModel \<Rightarrow> bool" where
  "name_le collate a b = collate (model_name a) (model_name b)"

definition sortModels :: "(jsstr \<Rightarrow> jsstr \<Rightarrow> bool) \<Rightarrow> PricingModel list \<Rightarrow> jsstr \<Rightarrow> PricingModel list" where
  "sortModels collate models sortBy =
     (if sortBy = ''name'' then sort_by (name_le collate) models
      else if sortBy = ''price-low'' then sort_by price_le models
      else if sortBy = ''price-high'' then sort_by (\<lambda>a b. price_le b a) models
      else models)"

definition tag_sep :: "char \<Rightarrow> bool" where
  "tag_sep c \<longleftrightarrow> c \<in> set '',;|'' \<or> js_ws c"

text \<open>\<open>split(/[,;|\s]+/)\<close>: the pieces between maximal runs of separators.\<close>

function split_runs :: "jsstr \<Rightarrow> jsstr list" where
  "split_runs s = takeWhile (\<lambda>c. \<not> tag_sep c) s #
     (let r = dropWhile (\<lambda>c. \<not> tag_sep c) s in if r = [] then [] else split_runs (dropWhile tag_sep r))"
  by pat_completeness auto
termination
proof (relation "measure length")
  fix s r :: jsstr
  assume r: "r = dropWhile (\<lambda>c. \<not> tag_sep c) s" and "r \<noteq> []"
  then have "tag_sep (hd r)" using hd_dropWhile [of "\<lambda>c. \<not> tag_sep c" s] by simp
  with \<open>r \<noteq> []\<close> obtain c t where c: "r = c # t" "tag_sep c" by (cases r) auto
  have "length (dropWhile tag_sep r) \<le> length t" using c by (simp add: length_dropWhile_le)
  moreover have "length r \<le> length s" unfolding r by (rule length_dropWhile_le)
  ultimately show "(dropWhile tag_sep r, s) \<in> measure length" using c by simp
qed simp

declare split_runs.simps [simp del]

definition parseTags :: "jsstr option \<Rightarrow> jsstr list" where
  "parseTags tagsString = (case tagsString of
       None \<Rightarrow> []
     | Some s \<Rightarrow> if s = [] then [] else filter (\<lambda>t. t \<noteq> []) (map js_trim (split_runs s)))"

definition extractAllTags :: "(jsstr \<Rightarrow> jsstr \<Rightarrow> bool) \<Rightarrow> PricingModel list \<Rightarrow> jsstr list" where
  "extractAllTags collate models =
     sort_by collate (uniq (concat (map (\<lambda>m. map js_toLowerCase (parseTags (pm_tags m))) models)))"

definition has_tag :: "jsstr \<Rightarrow> PricingModel \<Rightarrow> bool" where
  "has_tag tagLower m \<longleftrightarrow> tagLower \<in> set (map js_toLowerCase (parseTags (pm_tags m)))"

definition filterByTag :: "PricingModel list \<Rightarrow> jsstr \<Rightarrow> PricingModel list" where
  "filterByTag models tag =
     (if tag = FILTER_ALL then models else filter (has_tag (js_toLowerCase tag)) models)"

record ModelFilters =
  f_search :: jsstr
  f_vendor :: jsstr
  f_group :: jsstr
  f_quotaType :: jsstr
  f_endpointType :: jsstr
  f_tag :: jsstr
  f_sortBy :: jsstr

definition filterAndSortModels :: "(jsstr \<Rightarrow> jsstr \<Rightarrow> bool) \<Rightarrow> PricingModel list \<Rightarrow> ModelFilters \<Rightarrow> PricingModel list" where
  "filterAndSortModels collate models filters =
     (let r1 = filterBySearch models (f_search filters);
          r2 = filterByVendor r1 (f_vendor filters);
          r3 = filterByGroup r2 (f_group filters);
          r4 = filterByQuotaType r3 (f_quotaType filters);
          r5 = filterByEndpointType r4 (f_endpointType filters);
          r6 = filterByTag r5 (f_tag filters)
      in sortModels collate r6 (f_sortBy filters))"

subsection \<open>Model helpers\<close>

definition getAvailableGroups :: "PricingModel \<Rightarrow> (jsstr \<times> jsnum) obj \<Rightarrow> jsstr list" where
  "getAvailableGroups model usableGroup =
     filter (\<lambda>g. g \<in> set (enable_groups model)) (filter (\<lambda>g. g \<notin> set EXCLUDED_GROUPS) (map fst usableGroup))"

definition isTokenBasedModel :: "PricingModel \<Rightarrow> bool" where
  "isTokenBasedModel model \<longleftrightarrow> quota_type model = QUOTA_TOKEN"

subsection \<open>Lemmas\<close>

lemma min_loop_le: "\<not> js_isNaN acc \<Longrightarrow> js_le (min_ratio_loop gs rs acc) acc"
proof (induction gs arbitrary: acc)
  case Nil
  then show ?case by (cases acc) (auto simp: js_le_def js_eq_def js_isNaN_def)
next
  case (Cons g gs)
  show ?case
  proof (cases "obj_get g rs")
    case None
    then show ?thesis using Cons by simp
  next
    case (Some r)
    show ?thesis
    proof (cases "js_lt r acc")
      case True
      then have "\<not> js_isNaN r" by (cases r) (auto simp: js_isNaN_def)
      with Cons.IH have "js_le (min_ratio_loop gs rs r) r" by blast
      with True show ?thesis using Some
        by (cases "min_ratio_loop gs rs r"; cases r; cases acc) (auto simp: js_le_def js_eq_def)
    next
      case False
      then show ?thesis using Some Cons by simp
    qed
  qed
qed

lemma min_loop_lower:
  assumes "\<not> js_isNaN acc" "g \<in> set gs" "obj_get g rs = Some r" "\<not> js_isNaN r"
  shows "js_le (min_ratio_loop gs rs acc) r"
  using assms
proof (induction gs arbitrary: acc)
  case (Cons h gs)
  show ?case
  proof (cases "h = g")
    case True
    let ?acc = "if js_lt r acc then r else acc"
    have "\<not> js_isNaN ?acc" using Cons.prems by simp
    then have "js_le (min_ratio_loop gs rs ?acc) ?acc" by (rule min_loop_le)
    moreover have "js_le ?acc r"
      using Cons.prems by (cases r; cases acc) (auto simp: js_le_def js_eq_def js_isNaN_def)
    ultimately have "js_le (min_ratio_loop gs rs ?acc) r"
      by (cases "min_ratio_loop gs rs ?acc"; cases ?acc; cases r) (auto simp: js_le_def js_eq_def split: if_splits)
    then show ?thesis using True Cons.prems by simp
  next
    case False
    then have g: "g \<in> set gs" using Cons.prems by simp
    have "\<not> js_isNaN (if js_lt x acc then x else acc)" for x
      using Cons.prems by (cases x) (auto simp: js_isNaN_def)
    then show ?thesis using Cons.IH g Cons.prems by (auto split: option.split)
  qed
qed simp

lemma min_loop_member:
  "min_ratio_loop gs rs acc = acc \<or> (\<exists>g \<in> set gs. obj_get g rs = Some (min_ratio_loop gs rs acc))"
proof (induction gs arbitrary: acc)
  case (Cons g gs)
  show ?case
  proof (cases "obj_get g rs")
    case (Some r)
    then show ?thesis using Cons [of "if js_lt r acc then r else acc"] by (auto split: if_splits)
  qed (use Cons [of acc] in simp)
qed simp

lemma filter_sort_chain:
  "filterAndSortModels collate models fs = sortModels collate (filter (\<lambda>m.
     (f_search fs = [] \<or> matches_search (js_toLowerCase (f_search fs)) m) \<and>
     (f_vendor fs = FILTER_ALL \<or> vendor_name m = Some (f_vendor fs)) \<and>
     (f_group fs = FILTER_ALL \<or> f_group fs \<in> set (enable_groups m)) \<and>
     (f_quotaType fs = ''all'' \<or> quota_type m = quota_target (f_quotaType fs)) \<and>
     (f_endpointType fs = ''all'' \<or> (\<exists>ts. supported_endpoint_types m = Some ts \<and> f_endpointType fs \<in> set ts)) \<and>
     (f_tag fs = FILTER_ALL \<or> has_tag (js_toLowerCase (f_tag fs)) m)) models) (f_sortBy fs)"
proof -
  have f: "(if b then xs else filter P xs) = filter (\<lambda>x. b \<or> P x) xs" for b xs and P :: "PricingModel \<Rightarrow> bool"
    by simp
  have e: "(case supported_endpoint_types m of Some ts \<Rightarrow> t \<in> set ts | None \<Rightarrow> False) \<longleftrightarrow>
      (\<exists>ts. supported_endpoint_types m = Some ts \<and> t \<in> set ts)" for m t
    by (auto split: option.splits)
  show ?thesis
    unfolding filterAndSortModels_def Let_def filterBySearch_def filterByVendor_def filterByGroup_def
      filterByQuotaType_def filterByEndpointType_def filterByTag_def f filter_filter e
    by (simp add: conj_ac)
qed

lemma count_sortModels [simp]: "count_list (sortModels c ms s) m = count_list ms m"
  by (simp add: sortModels_def count_sort_by)

subsection \<open>Properties\<close>

text \<open>The ratio a price is shown with is the smallest ratio of the groups the model is enabled for:
  as soon as one of them has a ratio (a number below infinity), it is at most that ratio, and it is
  the ratio of one of them.\<close>

theorem min_group_ratio_is_minimum:
  assumes "g \<in> set gs" "obj_get g rs = Some r" "\<not> js_isNaN r" "r \<noteq> PInf"
  shows "js_le (getMinGroupRatio gs rs) r \<and> (\<exists>h \<in> set gs. obj_get h rs = Some (getMinGroupRatio gs rs))"
proof -
  have "js_le (min_ratio_loop gs rs PInf) r" using assms min_loop_lower [of PInf] by (simp add: js_isNaN_def)
  moreover from this have "min_ratio_loop gs rs PInf \<noteq> PInf"
    using assms(3,4) by (cases r) (auto simp: js_le_def js_eq_def js_isNaN_def)
  ultimately show ?thesis
    using assms(1) min_loop_member [of gs rs PInf] by (auto simp: getMinGroupRatio_def Let_def)
qed

theorem min_group_ratio_is_minimum_witness:
  "js_le (getMinGroupRatio [''a'', ''b''] [(''a'', num 3), (''b'', num 2)]) (num 3) \<and>
   (\<exists>h \<in> set [''a'', ''b'']. obj_get h [(''a'', num 3), (''b'', num 2)]
      = Some (getMinGroupRatio [''a'', ''b''] [(''a'', num 3), (''b'', num 2)]))"
  by (rule min_group_ratio_is_minimum [of "''a''"]) (simp_all add: obj_get_def js_isNaN_def)

text \<open>The list shown after filtering holds exactly the models that meet all six conditions, each as
  often as the input has it, and sorting changes the order only.\<close>

theorem filter_and_sort_exact:
  "count_list (filterAndSortModels collate models fs) m =
     (if (f_search fs = [] \<or> matches_search (js_toLowerCase (f_search fs)) m) \<and>
         (f_vendor fs = FILTER_ALL \<or> vendor_name m = Some (f_vendor fs)) \<and>
         (f_group fs = FILTER_ALL \<or> f_group fs \<in> set (enable_groups m)) \<and>
         (f_quotaType fs = ''all'' \<or> quota_type m = quota_target (f_quotaType fs)) \<and>
         (f_endpointType fs = ''all'' \<or> (\<exists>ts. supported_endpoint_types m = Some ts \<and> f_endpointType fs \<in> set ts)) \<and>
         (f_tag fs = FILTER_ALL \<or> has_tag (js_toLowerCase (f_tag fs)) m)
      then count_list models m else 0)"
proof -
  have "count_list (filter P xs) m = (if P m then count_list xs m else 0)" for P xs
    by (induction xs) auto
  then show ?thesis unfolding filter_sort_chain count_sortModels .
qed

text \<open>A group with the ratio 0 is shown at the full price: the price for the group is that of a
  group with the ratio 1, although the smallest ratio of the model is 0.\<close>

theorem zero_ratio_shown_as_one:
  "formatGroupPrice intl st model g ty unit showR pr ex [(g, num 0)] =
   formatGroupPrice intl st model g ty unit showR pr ex [(g, num 1)] \<and>
   getMinGroupRatio [g] [(g, num 0)] = num 0"
  by (simp add: formatGroupPrice_def ratio_or_one_def obj_get_def num_or_def js_truthy_num_def getMinGroupRatio_def)

text \<open>A missing ratio hides its price: the price is not a number and is shown as a dash.\<close>

theorem missing_ratio_hidden:
  "cache_ratio model = None \<Longrightarrow> formatPrice intl st model Cache unit showR pr ex = ''-''"
proof -
  assume "cache_ratio model = None"
  then have n: "calculateTokenPrice model Cache r = NaN" for r
    by (simp add: calculateTokenPrice_def Let_def times_ratio_def hasRatio_def)
  have "js_div (applyRechargeRate NaN showR pr ex) d = NaN" for d
    by (cases pr; cases ex; cases d) (auto simp: applyRechargeRate_def)
  then show ?thesis by (simp add: formatPrice_def n Let_def formatCurrencyFromUSD_def js_isNaN_def)
qed

end
