(* ===== verification/Js_Regex.thy ===== *)
theory Js_Regex
  imports Js_Json
begin

section \<open>Regular expressions\<close>

text \<open>
  The regular expressions of the sources as values of a datatype, and a matcher with the
  backtracking order of the language: \<open>rx_match r st\<close> lists every way \<open>r\<close> can match from the
  state \<open>st\<close>, the preferred one first, so the head of the list for a whole pattern is the match the
  language reports. A state is the preceding code unit, the rest of the subject and the captures,
  the latest one of a number in front.

  An iteration of a star must consume something, as the language requires; hence as many
  iterations as the rest has code units are enough, and \<open>star_loop\<close> counts them.

  The lemmas turn the matcher into rewriting: a literal matches in at most one way, and a greedy
  run of a class, followed by something that cannot begin within the run, matches in exactly one.
\<close>

datatype rx = RCls "char \<Rightarrow> bool" | RSeq rx rx | RAlt rx rx | ROpt rx | RStar rx
  | RGrp nat rx | RBack nat | RBol | REol | RWordB | REps

type_synonym rx_state = "char option \<times> jsstr \<times> (nat \<times> jsstr) list"

definition is_word :: "char \<Rightarrow> bool" where
  "is_word c = (let n = (of_char c :: nat) in
     (48 \<le> n \<and> n \<le> 57) \<or> (65 \<le> n \<and> n \<le> 90) \<or> (97 \<le> n \<and> n \<le> 122) \<or> n = 95)"

text \<open>The code unit in front of the rest, after a text was consumed.\<close>

definition prev_of :: "char option \<Rightarrow> jsstr \<Rightarrow> char option" where
  "prev_of p u = (if u = [] then p else Some (last u))"

fun star_loop :: "(rx_state \<Rightarrow> rx_state list) \<Rightarrow> nat \<Rightarrow> rx_state \<Rightarrow> rx_state list" where
  "star_loop m 0 st = [st]"
| "star_loop m (Suc k) st =
     concat (map (star_loop m k) (filter (\<lambda>st'. length (fst (snd st')) < length (fst (snd st))) (m st))) @ [st]"

primrec rx_match :: "rx \<Rightarrow> rx_state \<Rightarrow> rx_state list" where
  "rx_match (RCls P) = (\<lambda>(p, s, cs). case s of c # t \<Rightarrow> if P c then [(Some c, t, cs)] else [] | [] \<Rightarrow> [])"
| "rx_match (RSeq a b) = (\<lambda>st. concat (map (rx_match b) (rx_match a st)))"
| "rx_match (RAlt a b) = (\<lambda>st. rx_match a st @ rx_match b st)"
| "rx_match (ROpt a) = (\<lambda>st. filter (\<lambda>st'. length (fst (snd st')) < length (fst (snd st))) (rx_match a st) @ [st])"
| "rx_match (RStar a) = (\<lambda>st. star_loop (rx_match a) (length (fst (snd st))) st)"
| "rx_match (RGrp n a) = (\<lambda>(p, s, cs).
     map (\<lambda>(p', s', cs'). (p', s', (n, take (length s - length s') s) # cs')) (rx_match a (p, s, cs)))"
| "rx_match (RBack n) = (\<lambda>(p, s, cs). case map_of cs n of
       None \<Rightarrow> [(p, s, cs)]
     | Some t \<Rightarrow> if js_startsWith s t then [(prev_of p t, drop (length t) s, cs)] else [])"
| "rx_match RBol = (\<lambda>(p, s, cs). if p = None then [(p, s, cs)] else [])"
| "rx_match REol = (\<lambda>(p, s, cs). if s = [] then [(p, s, cs)] else [])"
| "rx_match RWordB = (\<lambda>(p, s, cs).
     if (case p of Some c \<Rightarrow> is_word c | None \<Rightarrow> False) \<noteq> (s \<noteq> [] \<and> is_word (hd s)) then [(p, s, cs)] else [])"
| "rx_match REps = (\<lambda>st. [st])"

subsection \<open>Derived patterns\<close>

primrec rx_lit :: "jsstr \<Rightarrow> rx" where
  "rx_lit [] = REps"
| "rx_lit (c # cs) = RSeq (RCls ((=) c)) (rx_lit cs)"

fun rx_seq :: "rx list \<Rightarrow> rx" where
  "rx_seq [] = REps"
| "rx_seq [r] = r"
| "rx_seq (r # q # rs) = RSeq r (rx_seq (q # rs))"

fun rx_alt :: "rx list \<Rightarrow> rx" where
  "rx_alt [] = RCls (\<lambda>_. False)"
| "rx_alt [r] = r"
| "rx_alt (r # q # rs) = RAlt r (rx_alt (q # rs))"

definition rx_plus :: "rx \<Rightarrow> rx" where
  "rx_plus r = RSeq r (RStar r)"

definition rx_spaces :: rx where
  \<comment> \<open>\<open>\s*\<close>\<close>
  "rx_spaces = RStar (RCls js_ws)"

definition line_end :: "char \<Rightarrow> bool" where
  "line_end c \<longleftrightarrow> c = CHR 0x0A \<or> c = CHR 0x0D"

subsection \<open>The operations that use a pattern\<close>

text \<open>
  The leftmost match from a position on: the text before it, the text it consumed, the state
  behind it.
\<close>

fun rx_search :: "rx \<Rightarrow> char option \<Rightarrow> jsstr \<Rightarrow> rx_state option" where
  "rx_search r p s =
     (case rx_match r (p, s, []) of
        st # _ \<Rightarrow> Some st
      | [] \<Rightarrow> (case s of [] \<Rightarrow> None | c # t \<Rightarrow> rx_search r (Some c) t))"

declare rx_search.simps [simp del]

definition caps_of :: "rx_state \<Rightarrow> nat \<Rightarrow> jsstr option" where
  "caps_of st n = map_of (snd (snd st)) n"

definition js_match :: "rx \<Rightarrow> jsstr \<Rightarrow> (nat \<Rightarrow> jsstr option) option" where
  "js_match r s = map_option caps_of (rx_search r None s)"

definition js_test :: "rx \<Rightarrow> jsstr \<Rightarrow> bool" where
  "js_test r s = (rx_search r None s \<noteq> None)"

text \<open>The group of a match that took part in it.\<close>

definition grp :: "(nat \<Rightarrow> jsstr option) \<Rightarrow> nat \<Rightarrow> jsstr" where
  "grp m n = (case m n of Some t \<Rightarrow> t | None \<Rightarrow> [])"

text \<open>
  The matches of repeated \<open>exec\<close> calls with a global pattern that does not match the empty text:
  each search starts where the previous match ended.
\<close>

fun rx_all :: "nat \<Rightarrow> rx \<Rightarrow> char option \<Rightarrow> jsstr \<Rightarrow> (nat \<Rightarrow> jsstr option) list" where
  "rx_all 0 r p s = []"
| "rx_all (Suc k) r p s =
     (case rx_search r p s of
        None \<Rightarrow> []
      | Some st \<Rightarrow> caps_of st # rx_all k r (fst st) (fst (snd st)))"

definition js_exec_all :: "rx \<Rightarrow> jsstr \<Rightarrow> (nat \<Rightarrow> jsstr option) list" where
  "js_exec_all r s = rx_all (Suc (length s)) r None s"

subsection \<open>Rewriting with the matcher\<close>

named_theorems rx \<open>equations of the matcher\<close>

lemma prev_of_simps [simp]: "prev_of p [] = p" "prev_of p (u @ [c]) = Some c"
  "prev_of (prev_of p u) v = prev_of p (u @ v)"
  by (simp_all add: prev_of_def)

lemma prev_of_Cons: "prev_of (Some c) u = prev_of p (c # u)"
  by (simp add: prev_of_def)

lemma match_seq [rx]: "rx_match (RSeq a b) st = concat (map (rx_match b) (rx_match a st))"
  by simp

lemma match_lit [rx]:
  "rx_match (rx_lit w) (p, s, cs) = (if js_startsWith s w then [(prev_of p w, drop (length w) s, cs)] else [])"
proof (induction w arbitrary: p s)
  case (Cons c w)
  show ?case
  proof (cases s)
    case (Cons d t)
    then show ?thesis using Cons.IH [of "Some c" t] by (auto simp: prev_of_Cons [of c w p])
  qed simp
qed simp

lemma match_lit_append [simp]:
  "rx_match (rx_lit w) (p, w @ s, cs) = [(prev_of p w, s, cs)]"
  by (simp add: match_lit)

text \<open>Every way a star of a class matches: from the longest run to the empty one.\<close>

lemma star_class:
  assumes "list_all P u" "v = [] \<or> \<not> P (hd v)" "length u \<le> k"
  shows "star_loop (rx_match (RCls P)) k (p, u @ v, cs) =
    map (\<lambda>i. (prev_of p (take i u), drop i u @ v, cs)) (rev [0..<Suc (length u)])"
  using assms
proof (induction u arbitrary: p k)
  case Nil
  then show ?case by (cases k; cases v) auto
next
  case (Cons c u)
  then obtain j where k: "k = Suc j" by (cases k) auto
  have "[0..<Suc (length (c # u))] = 0 # map Suc [0..<Suc (length u)]"
    by (simp only: map_Suc_upt length_Cons) (simp add: upt_conv_Cons del: upt_Suc)
  then have "map (\<lambda>i. (prev_of p (take i (c # u)), drop i (c # u) @ v, cs)) (rev [0..<Suc (length (c # u))])
    = map (\<lambda>i. (prev_of (Some c) (take i u), drop i u @ v, cs)) (rev [0..<Suc (length u)]) @ [(p, c # u @ v, cs)]"
    by (simp add: rev_map [symmetric] comp_def prev_of_Cons [of c _ p] del: upt_Suc)
  then show ?case using Cons k by simp
qed

lemma match_star_class:
  assumes "list_all P u" "v = [] \<or> \<not> P (hd v)"
  shows "rx_match (RStar (RCls P)) (p, u @ v, cs) =
    map (\<lambda>i. (prev_of p (take i u), drop i u @ v, cs)) (rev [0..<Suc (length u)])"
  using star_class [OF assms] by simp

lemma match_plus_class:
  assumes "list_all P u" "u \<noteq> []" "v = [] \<or> \<not> P (hd v)"
  shows "rx_match (rx_plus (RCls P)) (p, u @ v, cs) =
    map (\<lambda>i. (prev_of p (take (Suc i) u), drop (Suc i) u @ v, cs)) (rev [0..<length u])"
proof -
  obtain c t where u: "u = c # t" using assms(2) by (cases u) auto
  then have "list_all P t" "P c" using assms(1) by auto
  moreover have "Suc (length t) = length u" using u by simp
  ultimately show ?thesis
    using match_star_class [of P t v "Some c" cs] assms(3)
    by (simp add: rx_plus_def u prev_of_Cons [of c _ p] del: upt_Suc)
qed

text \<open>
  What a pattern that follows a run of a class must meet for the run to be matched in one way: it
  does not match where the rest begins with a member of the class.
\<close>

definition stops :: "(char \<Rightarrow> bool) \<Rightarrow> rx \<Rightarrow> bool" where
  "stops P b \<longleftrightarrow> (\<forall>p c s cs. P c \<longrightarrow> rx_match b (p, c # s, cs) = [])"

lemma stops_eol [rx]: "stops P REol"
  by (simp add: stops_def)

lemma stops_lit [rx]: "\<not> P c \<Longrightarrow> stops P (rx_lit (c # w))"
  by (auto simp: stops_def match_lit)

lemma stops_seq [rx]: "stops P a \<Longrightarrow> stops P (RSeq a b)"
  by (simp add: stops_def)

lemma stops_alt [rx]: "stops P a \<Longrightarrow> stops P b \<Longrightarrow> stops P (RAlt a b)"
  by (simp add: stops_def)

lemma stops_grp [rx]: "stops P a \<Longrightarrow> stops P (RGrp n a)"
  by (simp add: stops_def)

lemma stops_class [rx]: "(\<And>c. P c \<Longrightarrow> \<not> Q c) \<Longrightarrow> stops P (RCls Q)"
  by (simp add: stops_def)

lemma concat_rev_upt_last:
  assumes "\<And>i. i < n \<Longrightarrow> f i = []"
  shows "concat (map f (rev [0..<Suc n])) = f n"
proof -
  have "concat (map f (rev [0..<n])) = []" using assms by auto
  then show ?thesis by simp
qed

lemma run_fails:
  assumes "stops P b" "list_all P u" "i < length u"
  shows "rx_match b (q, drop i u @ v, cs) = []"
  using assms by (auto simp: stops_def Cons_nth_drop_Suc [symmetric] list_all_length)

lemma match_plus_then [rx]:
  assumes "stops P b" "list_all P u" "u \<noteq> []" "v = [] \<or> \<not> P (hd v)"
  shows "rx_match (RSeq (rx_plus (RCls P)) b) (p, u @ v, cs) = rx_match b (prev_of p u, v, cs)"
proof -
  obtain n where n: "length u = Suc n" using assms(3) by (cases u) auto
  have "concat (map (\<lambda>i. rx_match b (prev_of p (take (Suc i) u), drop (Suc i) u @ v, cs)) (rev [0..<Suc n]))
    = rx_match b (prev_of p (take (Suc n) u), drop (Suc n) u @ v, cs)"
    by (rule concat_rev_upt_last) (simp add: run_fails [OF assms(1,2)] n)
  then show ?thesis using n
    by (simp only: match_seq match_plus_class [OF assms(2,3,4)] map_map comp_def n) (simp add: n)
qed

lemma match_star_then [rx]:
  assumes "stops P b" "list_all P u" "v = [] \<or> \<not> P (hd v)"
  shows "rx_match (RSeq (RStar (RCls P)) b) (p, u @ v, cs) = rx_match b (prev_of p u, v, cs)"
proof -
  have "concat (map (\<lambda>i. rx_match b (prev_of p (take i u), drop i u @ v, cs)) (rev [0..<Suc (length u)]))
    = rx_match b (prev_of p (take (length u) u), drop (length u) u @ v, cs)"
    by (rule concat_rev_upt_last) (simp add: run_fails [OF assms(1,2)])
  then show ?thesis
    by (simp only: match_seq match_star_class [OF assms(2,3)] map_map comp_def) simp
qed

lemma match_grp: "rx_match (RGrp n a) (p, s, cs) =
    map (\<lambda>(p', s', cs'). (p', s', (n, take (length s - length s') s) # cs')) (rx_match a (p, s, cs))"
  by simp

lemma match_grp_plus:
  assumes "list_all P u" "u \<noteq> []" "v = [] \<or> \<not> P (hd v)"
  shows "rx_match (RGrp n (rx_plus (RCls P))) (p, u @ v, cs) =
    map (\<lambda>i. (prev_of p (take (Suc i) u), drop (Suc i) u @ v, (n, take (Suc i) u) # cs)) (rev [0..<length u])"
  by (simp add: match_grp match_plus_class [OF assms] del: rx_match.simps)

lemma match_grp_plus_then [rx]:
  assumes "stops P b" "list_all P u" "u \<noteq> []" "v = [] \<or> \<not> P (hd v)"
  shows "rx_match (RSeq (RGrp n (rx_plus (RCls P))) b) (p, u @ v, cs) = rx_match b (prev_of p u, v, (n, u) # cs)"
proof -
  obtain m where m: "length u = Suc m" using assms(3) by (cases u) auto
  have "concat (map (\<lambda>i. rx_match b (prev_of p (take (Suc i) u), drop (Suc i) u @ v, (n, take (Suc i) u) # cs)) (rev [0..<Suc m]))
    = rx_match b (prev_of p (take (Suc m) u), drop (Suc m) u @ v, (n, take (Suc m) u) # cs)"
    by (rule concat_rev_upt_last) (simp add: run_fails [OF assms(1,2)] m)
  then show ?thesis using m
    by (simp only: match_seq match_grp_plus [OF assms(2,3,4)] map_map comp_def m) (simp add: m)
qed

subsection \<open>Anchored patterns\<close>

lemma search_anchored: "rx_search (RSeq RBol r) p s = (if p = None then (case rx_match r (None, s, []) of st # _ \<Rightarrow> Some st | [] \<Rightarrow> None) else None)"
proof (induction s arbitrary: p)
  case Nil
  then show ?case by (subst rx_search.simps) (auto split: list.splits)
next
  case (Cons c s)
  then show ?case by (subst rx_search.simps) (auto split: list.splits)
qed

lemma match_anchored [rx]:
  "js_match (RSeq RBol r) s = (case rx_match r (None, s, []) of st # _ \<Rightarrow> Some (caps_of st) | [] \<Rightarrow> None)"
  by (simp add: js_match_def search_anchored split: list.splits)

lemma test_anchored [rx]: "js_test (RSeq RBol r) s = (rx_match r (None, s, []) \<noteq> [])"
  by (simp add: js_test_def search_anchored split: list.splits)

subsection \<open>What a pattern can consume\<close>

primrec rx_within :: "(char \<Rightarrow> bool) \<Rightarrow> rx \<Rightarrow> bool" where
  "rx_within Q (RCls P) \<longleftrightarrow> (\<forall>c. P c \<longrightarrow> Q c)"
| "rx_within Q (RSeq a b) \<longleftrightarrow> rx_within Q a \<and> rx_within Q b"
| "rx_within Q (RAlt a b) \<longleftrightarrow> rx_within Q a \<and> rx_within Q b"
| "rx_within Q (ROpt a) \<longleftrightarrow> rx_within Q a"
| "rx_within Q (RStar a) \<longleftrightarrow> rx_within Q a"
| "rx_within Q (RGrp n a) \<longleftrightarrow> rx_within Q a"
| "rx_within Q (RBack n) \<longleftrightarrow> False"
| "rx_within Q RBol \<longleftrightarrow> True"
| "rx_within Q REol \<longleftrightarrow> True"
| "rx_within Q RWordB \<longleftrightarrow> True"
| "rx_within Q REps \<longleftrightarrow> True"

definition consumes :: "(char \<Rightarrow> bool) \<Rightarrow> rx_state \<Rightarrow> rx_state \<Rightarrow> bool" where
  "consumes Q st st' \<longleftrightarrow> (\<exists>u. fst (snd st) = u @ fst (snd st') \<and> list_all Q u)"

lemma consumes_refl: "consumes Q st st"
  by (simp add: consumes_def)

lemma consumes_trans: "consumes Q a b \<Longrightarrow> consumes Q b c \<Longrightarrow> consumes Q a c"
  by (auto simp: consumes_def)

lemma star_loop_consumes:
  assumes "\<And>st st'. st' \<in> set (m st) \<Longrightarrow> consumes Q st st'"
  shows "st' \<in> set (star_loop m k st) \<Longrightarrow> consumes Q st st'"
proof (induction k arbitrary: st)
  case (Suc k)
  then show ?case by (auto simp: consumes_refl intro: consumes_trans assms)
qed (simp add: consumes_refl)

lemma match_within: "rx_within Q r \<Longrightarrow> st' \<in> set (rx_match r st) \<Longrightarrow> consumes Q st st'"
proof (induction r arbitrary: st st')
  case (RCls P)
  then show ?case by (cases st) (auto simp: consumes_def split: list.splits if_splits)
next
  case (RSeq a b)
  then obtain st1 where "st1 \<in> set (rx_match a st)" "st' \<in> set (rx_match b st1)" by auto
  with RSeq show ?case using consumes_trans [of Q st st1 st'] by simp
next
  case (RStar a)
  then show ?case using star_loop_consumes [of "rx_match a" Q] by auto
next
  case (RGrp n a)
  then show ?case by (cases st) (fastforce simp: consumes_def)
next
  case RBol
  then show ?case by (cases st) (auto simp: consumes_refl split: if_splits)
next
  case REol
  then show ?case by (cases st) (auto simp: consumes_refl split: if_splits)
next
  case RWordB
  then show ?case by (cases st) (auto simp: consumes_refl split: if_splits)
qed (auto simp: consumes_refl)

lemma match_seqE:
  assumes "st' \<in> set (rx_match (RSeq a b) st)"
  obtains st1 where "st1 \<in> set (rx_match a st)" "st' \<in> set (rx_match b st1)"
  using assms by auto

lemma match_eol: "st' \<in> set (rx_match REol st) \<Longrightarrow> fst (snd st') = []"
  by (cases st) (auto split: if_splits)

text \<open>The preferred match of a sequence, when each part's preferred match leads on.\<close>

lemma first_seq:
  "rx_match a st = x # xs \<Longrightarrow> rx_match b x = y # ys \<Longrightarrow> \<exists>zs. rx_match (RSeq a b) st = y # zs"
  by simp

lemma concat_rev_first:
  assumes "m < n" "\<And>i. m < i \<Longrightarrow> i < n \<Longrightarrow> f i = []"
  shows "concat (map f (rev [0..<n])) = f m @ concat (map f (rev [0..<m]))"
proof -
  have "[0..<n] = [0..<m] @ m # [Suc m..<n]"
    using assms(1) by (metis upt_conv_Cons upt_add_eq_append le_add_diff_inverse less_imp_le_nat zero_le)
  moreover have "concat (map f (rev [Suc m..<n])) = []" using assms(2) by auto
  ultimately show ?thesis by simp
qed

end
