(* ===== verification/Billing_Expr.thy ===== *)
theory Billing_Expr
  imports Js_Regex
begin

section \<open>Request rules of billing expressions\<close>

text \<open>
  The request rules of \<^verbatim>\<open>features/pricing/lib/billing-expr.ts\<close>. A billing expression is a
  base price times factors of the form \<open>(condition && condition ? multiplier : 1)\<close>. The module
  splits an expression into base and rules, parses the rules into groups of conditions for the
  editor, and builds the expression from the groups again.

  The regular expressions are those of the source. \<open>JSON.parse\<close> may throw in the parser of
  conditions and nothing catches it there, so the parsers return a sum: \<open>Inl\<close> for the exception,
  \<open>Inr None\<close> for the \<open>null\<close> of an expression they do not recognise.

  Shown: splitting at the top level undoes joining; unwrapping parentheses ends and leaves none; a
  rule text built from groups the parser covers is parsed into these groups; combining a base with
  rules and splitting again gives both; the conditions on parameters that carry a guard
  (\<open>contains\<close> and the comparisons) are never parsed back; a bad escape in a header text makes the
  parser throw.
\<close>

subsection \<open>The variables\<close>

record BillingVar =
  v_key :: jsstr
  v_field :: "jsstr option"
  v_tierField :: "jsstr option"
  v_label :: jsstr
  v_shortLabel :: jsstr
  v_side :: jsstr
  v_isBase :: bool
  v_isConditionOnly :: bool
  v_group :: "jsstr option"

definition BILLING_VARS :: "BillingVar list" where
  "BILLING_VARS = [
     \<lparr>v_key = ''p'', v_field = Some ''inputPrice'', v_tierField = Some ''input_unit_cost'', v_label = ''Input price'',
      v_shortLabel = ''Input'', v_side = ''input'', v_isBase = True, v_isConditionOnly = False, v_group = None\<rparr>,
     \<lparr>v_key = ''c'', v_field = Some ''outputPrice'', v_tierField = Some ''output_unit_cost'', v_label = ''Completion price'',
      v_shortLabel = ''Output'', v_side = ''output'', v_isBase = True, v_isConditionOnly = False, v_group = None\<rparr>,
     \<lparr>v_key = ''len'', v_field = None, v_tierField = None, v_label = ''Input length'',
      v_shortLabel = ''Length'', v_side = ''condition'', v_isBase = False, v_isConditionOnly = True, v_group = None\<rparr>,
     \<lparr>v_key = ''cr'', v_field = Some ''cacheReadPrice'', v_tierField = Some ''cache_read_unit_cost'', v_label = ''Cache read price'',
      v_shortLabel = ''Cache Read'', v_side = ''input'', v_isBase = False, v_isConditionOnly = False, v_group = Some ''cache''\<rparr>,
     \<lparr>v_key = ''cc'', v_field = Some ''cacheCreatePrice'', v_tierField = Some ''cache_create_unit_cost'', v_label = ''Cache create price'',
      v_shortLabel = ''Cache Write'', v_side = ''input'', v_isBase = False, v_isConditionOnly = False, v_group = Some ''cache''\<rparr>,
     \<lparr>v_key = ''cc1h'', v_field = Some ''cacheCreate1hPrice'', v_tierField = Some ''cache_create_1h_unit_cost'', v_label = ''Cache create (1h) price'',
      v_shortLabel = ''Cache Write (1h)'', v_side = ''input'', v_isBase = False, v_isConditionOnly = False, v_group = Some ''cache''\<rparr>,
     \<lparr>v_key = ''img'', v_field = Some ''imagePrice'', v_tierField = Some ''image_unit_cost'', v_label = ''Image input price'',
      v_shortLabel = ''Image In'', v_side = ''input'', v_isBase = False, v_isConditionOnly = False, v_group = Some ''media''\<rparr>,
     \<lparr>v_key = ''img_o'', v_field = Some ''imageOutputPrice'', v_tierField = Some ''image_output_unit_cost'', v_label = ''Image output price'',
      v_shortLabel = ''Image Out'', v_side = ''output'', v_isBase = False, v_isConditionOnly = False, v_group = Some ''media''\<rparr>,
     \<lparr>v_key = ''ai'', v_field = Some ''audioInputPrice'', v_tierField = Some ''audio_input_unit_cost'', v_label = ''Audio input price'',
      v_shortLabel = ''Audio In'', v_side = ''input'', v_isBase = False, v_isConditionOnly = False, v_group = Some ''media''\<rparr>,
     \<lparr>v_key = ''ao'', v_field = Some ''audioOutputPrice'', v_tierField = Some ''audio_output_unit_cost'', v_label = ''Audio output price'',
      v_shortLabel = ''Audio Out'', v_side = ''output'', v_isBase = False, v_isConditionOnly = False, v_group = Some ''media''\<rparr>]"

definition BILLING_PRICING_VARS :: "BillingVar list" where
  "BILLING_PRICING_VARS = filter (\<lambda>v. \<not> v_isConditionOnly v) BILLING_VARS"

definition BILLING_CONDITION_VARS :: "jsstr list" where
  "BILLING_CONDITION_VARS = map v_key (filter (\<lambda>v. v_isBase v \<or> v_isConditionOnly v) BILLING_VARS)"

definition BILLING_VAR_KEY_TO_FIELD :: "(jsstr \<times> jsstr) list" where
  "BILLING_VAR_KEY_TO_FIELD = map (\<lambda>v. (v_key v, the (v_field v))) BILLING_PRICING_VARS"

definition BILLING_EXTRA_VARS :: "BillingVar list" where
  "BILLING_EXTRA_VARS = filter (\<lambda>v. \<not> v_isBase v \<and> \<not> v_isConditionOnly v) BILLING_VARS"

definition BILLING_CACHE_VAR_MAP :: "(jsstr \<times> jsstr) list" where
  \<comment> \<open>pairs of \<open>field\<close> and \<open>exprVar\<close>\<close>
  "BILLING_CACHE_VAR_MAP = map (\<lambda>v. (the (v_tierField v), v_key v)) BILLING_EXTRA_VARS"

subsection \<open>Constants and data of the request rules\<close>

definition SOURCE_PARAM :: jsstr where "SOURCE_PARAM = ''param''"
definition SOURCE_HEADER :: jsstr where "SOURCE_HEADER = ''header''"
definition SOURCE_TIME :: jsstr where "SOURCE_TIME = ''time''"
definition MATCH_EQ :: jsstr where "MATCH_EQ = ''eq''"
definition MATCH_CONTAINS :: jsstr where "MATCH_CONTAINS = ''contains''"
definition MATCH_GT :: jsstr where "MATCH_GT = ''gt''"
definition MATCH_GTE :: jsstr where "MATCH_GTE = ''gte''"
definition MATCH_LT :: jsstr where "MATCH_LT = ''lt''"
definition MATCH_LTE :: jsstr where "MATCH_LTE = ''lte''"
definition MATCH_EXISTS :: jsstr where "MATCH_EXISTS = ''exists''"
definition MATCH_RANGE :: jsstr where "MATCH_RANGE = ''range''"

lemmas match_consts = SOURCE_PARAM_def SOURCE_HEADER_def SOURCE_TIME_def MATCH_EQ_def MATCH_CONTAINS_def
  MATCH_GT_def MATCH_GTE_def MATCH_LT_def MATCH_LTE_def MATCH_EXISTS_def MATCH_RANGE_def

definition TIME_FUNCS :: "jsstr list" where
  "TIME_FUNCS = [''hour'', ''minute'', ''weekday'', ''month'', ''day'']"

datatype RequestCondition =
    ParamHeaderCondition (c_source: jsstr) (c_path: jsstr) (c_mode: jsstr) (c_value: jsstr)
  | TimeCondition (c_timeFunc: jsstr) (c_timezone: jsstr) (c_mode: jsstr) (c_value: jsstr)
      (c_rangeStart: jsstr) (c_rangeEnd: jsstr)

record RequestRuleGroup =
  g_conditions :: "RequestCondition list"
  g_multiplier :: jsstr

definition digit_run :: rx where "digit_run = rx_plus (RCls is_digit)"

definition is_num_char :: "char \<Rightarrow> bool" where
  \<comment> \<open>\<open>[\d.eE+-]\<close>\<close>
  "is_num_char c \<longleftrightarrow> is_digit c \<or> c \<in> set ''.eE+-''"

definition NUMERIC_LITERAL_REGEX :: rx where
  "NUMERIC_LITERAL_REGEX = RSeq RBol (rx_seq [ROpt (rx_lit ''-''),
     RAlt (rx_seq [digit_run, ROpt (rx_lit ''.''), RStar (RCls is_digit)]) (RSeq (rx_lit ''.'') digit_run),
     ROpt (rx_seq [RCls (\<lambda>c. c \<in> set ''eE''), ROpt (RCls (\<lambda>c. c \<in> set ''+-'')), digit_run]),
     REol])"

subsection \<open>Splitting at the top level\<close>

definition depth_step :: "int \<Rightarrow> char \<Rightarrow> int" where
  "depth_step depth c = (if c = CHR ''('' then depth + 1 else if c = CHR '')'' then depth - 1 else depth)"

text \<open>
  The loop that both splitters share, with the current part in place of its start index: a part
  ends where the separator stands outside of all parentheses.
\<close>

function split_top :: "jsstr \<Rightarrow> int \<Rightarrow> jsstr \<Rightarrow> jsstr \<Rightarrow> jsstr list" where
  "split_top sep depth part [] = [js_trim part]"
| "split_top sep depth part (c # cs) =
     (let d = depth_step depth c in
      if d = 0 \<and> js_startsWith (c # cs) sep
      then js_trim part # split_top sep d [] (drop (length sep - 1) cs)
      else split_top sep d (part @ [c]) cs)"
  by pat_completeness auto
termination by (relation "measure (\<lambda>(_, _, _, s). length s)") auto

definition splitTopLevelMultiply :: "jsstr \<Rightarrow> jsstr list" where
  "splitTopLevelMultiply expr = filter (\<lambda>p. p \<noteq> []) (split_top '' * '' 0 [] expr)"

definition splitTopLevelAnd :: "jsstr \<Rightarrow> jsstr list" where
  "splitTopLevelAnd expr = filter (\<lambda>p. p \<noteq> []) (split_top '' && '' 0 [] expr)"

subsection \<open>Parsing conditions and rules\<close>

datatype js_error = SyntaxError

text \<open>The literal on the right of an equality; \<open>None\<close> is \<open>null\<close>, also when the text is \<open>null\<close>.\<close>

definition parseExprLiteral :: "jsstr \<Rightarrow> json option" where
  "parseExprLiteral raw =
     (let text = js_trim raw in
      if text = ''true'' \<or> text = ''false'' then Some (JStr text)
      else if js_test NUMERIC_LITERAL_REGEX text then Some (JStr text)
      else (case json_parse text of Some JNull \<Rightarrow> None | r \<Rightarrow> r))"

definition time_func_rx :: rx where
  "time_func_rx = RGrp 1 (rx_alt (map rx_lit TIME_FUNCS))"

definition not_quote :: "char \<Rightarrow> bool" where "not_quote c \<longleftrightarrow> c \<noteq> CHR 0x22"

definition quoted_rx :: "nat \<Rightarrow> rx list \<Rightarrow> rx" where
  \<comment> \<open>\<open>("([^"]+)")\<close> in parentheses, followed by the rest\<close>
  "quoted_rx n rest = RSeq (rx_lit (''('' @ [CHR 0x22]))
     (RSeq (RGrp n (rx_plus (RCls not_quote))) (RSeq (rx_lit (CHR 0x22 # '')'')) (rx_seq rest)))"

definition num_rx :: "nat \<Rightarrow> rx" where
  "num_rx n = RGrp n (rx_plus (RCls is_num_char))"

definition range_body_rx :: "rx list \<Rightarrow> rx" where
  "range_body_rx rest = RSeq time_func_rx (quoted_rx 2
     ([rx_lit '' >= '', num_rx 3, rx_lit '' || '', RBack 1, rx_lit (''('' @ [CHR 0x22]), RBack 2,
       rx_lit (CHR 0x22 # '')''), rx_lit '' < '', num_rx 4] @ rest))"

definition time_range_rx :: rx where
  "time_range_rx = RSeq RBol (range_body_rx [REol])"

definition time_paren_range_rx :: rx where
  "time_paren_range_rx = RSeq RBol (RSeq (rx_lit ''('') (range_body_rx [rx_lit '')'', REol]))"

definition time_compare_rx :: rx where
  "time_compare_rx = RSeq RBol (RSeq time_func_rx (quoted_rx 2
     [rx_lit '' '', RGrp 3 (rx_alt [rx_lit ''=='', rx_lit ''>='', rx_lit ''<'']), rx_lit '' '', num_rx 4, REol]))"

definition time_mode_of_op :: "jsstr \<Rightarrow> jsstr" where
  "time_mode_of_op op = (if op = ''=='' then MATCH_EQ else if op = ''>='' then MATCH_GTE
     else if op = ''<'' then MATCH_LT else MATCH_EQ)"

definition tryParseTimeCondition :: "jsstr \<Rightarrow> RequestCondition option" where
  "tryParseTimeCondition expr =
     (case js_match time_range_rx expr of
        Some m \<Rightarrow> Some (TimeCondition (grp m 1) (grp m 2) MATCH_RANGE [] (grp m 3) (grp m 4))
      | None \<Rightarrow>
     (case js_match time_paren_range_rx expr of
        Some m \<Rightarrow> Some (TimeCondition (grp m 1) (grp m 2) MATCH_RANGE [] (grp m 3) (grp m 4))
      | None \<Rightarrow>
     (case js_match time_compare_rx expr of
        Some m \<Rightarrow> Some (TimeCondition (grp m 1) (grp m 2) (time_mode_of_op (grp m 3)) (grp m 4) [] [])
      | None \<Rightarrow> None)))"

definition header_exists_rx :: rx where
  "header_exists_rx = RSeq RBol (RSeq (rx_lit ''header'') (quoted_rx 1 [rx_lit ('' != '' @ [CHR 0x22, CHR 0x22]), REol]))"

definition param_exists_rx :: rx where
  "param_exists_rx = RSeq RBol (RSeq (rx_lit ''param'') (quoted_rx 1 [rx_lit '' != nil'', REol]))"

definition str_item_rx :: rx where
  \<comment> \<open>one step inside a string: anything but a quote and a backslash, or an escape\<close>
  "str_item_rx = RAlt (RCls (\<lambda>c. c \<noteq> CHR 0x22 \<and> c \<noteq> CHR 0x5C))
     (RSeq (RCls (\<lambda>c. c = CHR 0x5C)) (RCls (\<lambda>c. \<not> line_end c)))"

definition str_lit_rx :: "nat \<Rightarrow> rx" where
  "str_lit_rx n = RGrp n (RSeq (rx_lit [CHR 0x22]) (RSeq (RStar str_item_rx) (rx_lit [CHR 0x22])))"

definition header_has_rx :: rx where
  "header_has_rx = RSeq RBol (RSeq (rx_lit ''has(header'') (quoted_rx 1 [rx_lit '', '', str_lit_rx 2, rx_lit '')'', REol]))"

definition param_has_rx :: rx where
  "param_has_rx = RSeq RBol (RSeq (rx_lit ''param'') (quoted_rx 1
     [rx_lit '' != nil && has(param'', quoted_rx 2 [rx_lit '', '', str_lit_rx 3, rx_lit '')'', REol]]))"

definition param_compare_rx :: rx where
  "param_compare_rx = RSeq RBol (RSeq (rx_lit ''param'') (quoted_rx 1
     [rx_lit '' != nil && param'', quoted_rx 2
       [rx_lit '' '', RGrp 3 (rx_alt [rx_lit ''>'', rx_lit ''>='', rx_lit ''<'', rx_lit ''<='']), rx_lit '' '', num_rx 4, REol]]))"

definition equals_rx :: rx where
  "equals_rx = RSeq RBol (RSeq (RGrp 1 (RAlt (rx_lit ''param'') (rx_lit ''header''))) (quoted_rx 2
     [rx_lit '' == '', RGrp 3 (rx_plus (RCls (\<lambda>c. \<not> line_end c))), REol]))"

definition param_mode_of_op :: "jsstr \<Rightarrow> jsstr" where
  "param_mode_of_op op = (if op = ''>'' then MATCH_GT else if op = ''>='' then MATCH_GTE
     else if op = ''<'' then MATCH_LT else MATCH_LTE)"

text \<open>\<open>JSON.parse\<close> of a string literal: the string, or the exception.\<close>

definition parse_string_literal :: "jsstr \<Rightarrow> js_error + jsstr" where
  "parse_string_literal t = (case json_parse t of Some v \<Rightarrow> Inr (js_String v) | None \<Rightarrow> Inl SyntaxError)"

definition found :: "RequestCondition \<Rightarrow> js_error + RequestCondition option" where
  "found c = Inr (Some c)"

definition tryParseRequestCondition :: "jsstr \<Rightarrow> js_error + RequestCondition option" where
  "tryParseRequestCondition expr =
     (case tryParseTimeCondition expr of Some tc \<Rightarrow> found tc | None \<Rightarrow>
     (case js_match header_exists_rx expr of
        Some m \<Rightarrow> found (ParamHeaderCondition ''header'' (grp m 1) MATCH_EXISTS []) | None \<Rightarrow>
     (case js_match param_exists_rx expr of
        Some m \<Rightarrow> found (ParamHeaderCondition ''param'' (grp m 1) MATCH_EXISTS []) | None \<Rightarrow>
     (case js_match header_has_rx expr of
        Some m \<Rightarrow> (case parse_string_literal (grp m 2) of Inl e \<Rightarrow> Inl e
           | Inr v \<Rightarrow> found (ParamHeaderCondition ''header'' (grp m 1) MATCH_CONTAINS v)) | None \<Rightarrow>
     (case (case js_match param_has_rx expr of Some m \<Rightarrow> if grp m 1 = grp m 2 then Some m else None | None \<Rightarrow> None) of
        Some m \<Rightarrow> (case parse_string_literal (grp m 3) of Inl e \<Rightarrow> Inl e
           | Inr v \<Rightarrow> found (ParamHeaderCondition ''param'' (grp m 1) MATCH_CONTAINS v)) | None \<Rightarrow>
     (case (case js_match param_compare_rx expr of Some m \<Rightarrow> if grp m 1 = grp m 2 then Some m else None | None \<Rightarrow> None) of
        Some m \<Rightarrow> found (ParamHeaderCondition ''param'' (grp m 1) (param_mode_of_op (grp m 3)) (grp m 4)) | None \<Rightarrow>
     (case js_match equals_rx expr of
        Some m \<Rightarrow> (case parseExprLiteral (grp m 3) of
             None \<Rightarrow> Inr None
           | Some v \<Rightarrow> found (ParamHeaderCondition (grp m 1) (grp m 2) MATCH_EQ (js_String v)))
      | None \<Rightarrow> Inr None)))))))"

text \<open>The loops over the parts stop at the first part that is not recognised or throws.\<close>

fun parse_conditions :: "jsstr list \<Rightarrow> js_error + RequestCondition list option" where
  "parse_conditions [] = Inr (Some [])"
| "parse_conditions (ap # aps) =
     (case tryParseRequestCondition (js_trim ap) of
        Inl e \<Rightarrow> Inl e
      | Inr None \<Rightarrow> Inr None
      | Inr (Some cond) \<Rightarrow>
          (case parse_conditions aps of
             Inl e \<Rightarrow> Inl e
           | Inr r \<Rightarrow> Inr (map_option (\<lambda>cs. cond # cs) r)))"

definition rule_factor_rx :: rx where
  "rule_factor_rx = RSeq RBol (RSeq (rx_lit ''('') (RSeq (RGrp 1 (rx_plus (RCls (\<lambda>c. True))))
     (RSeq (rx_lit '' ? '') (RSeq (num_rx 2) (RSeq (rx_lit '' : 1)'') REol)))))"

definition tryParseRuleGroupFactor :: "jsstr \<Rightarrow> js_error + RequestRuleGroup option" where
  "tryParseRuleGroupFactor part =
     (case js_match rule_factor_rx part of
        None \<Rightarrow> Inr None
      | Some m \<Rightarrow>
          (case parse_conditions (splitTopLevelAnd (grp m 1)) of
             Inl e \<Rightarrow> Inl e
           | Inr None \<Rightarrow> Inr None
           | Inr (Some conditions) \<Rightarrow>
               if length conditions = 0 then Inr None
               else Inr (Some \<lparr>g_conditions = conditions, g_multiplier = grp m 2\<rparr>)))"

fun parse_factors :: "jsstr list \<Rightarrow> js_error + RequestRuleGroup list option" where
  "parse_factors [] = Inr (Some [])"
| "parse_factors (part # parts) =
     (case tryParseRuleGroupFactor part of
        Inl e \<Rightarrow> Inl e
      | Inr None \<Rightarrow> Inr None
      | Inr (Some g) \<Rightarrow>
          (case parse_factors parts of
             Inl e \<Rightarrow> Inl e
           | Inr r \<Rightarrow> Inr (map_option (\<lambda>gs. g # gs) r)))"

definition tryParseRequestRuleExpr :: "jsstr \<Rightarrow> js_error + RequestRuleGroup list option" where
  "tryParseRequestRuleExpr expr =
     (let trimmed_expr = js_trim expr in
      if trimmed_expr = [] then Inr (Some []) else parse_factors (splitTopLevelMultiply trimmed_expr))"

subsection \<open>Base expression and rules\<close>

fun outer_scan :: "int \<Rightarrow> jsstr \<Rightarrow> bool" where
  "outer_scan depth [] = (depth = 0)"
| "outer_scan depth (c # cs) =
     (let d = depth_step depth c in if d = 0 \<and> cs \<noteq> [] then False else outer_scan d cs)"

definition hasFullOuterParens :: "jsstr \<Rightarrow> bool" where
  "hasFullOuterParens expr =
     (if expr = [] \<or> hd expr \<noteq> CHR ''('' \<or> last expr \<noteq> CHR '')'' then False else outer_scan 0 expr)"

definition slice_inner :: "jsstr \<Rightarrow> jsstr" where
  \<comment> \<open>\<open>slice(1, -1)\<close>\<close>
  "slice_inner s = butlast (drop 1 s)"

lemma length_js_trim: "length (js_trim s) \<le> length s"
  unfolding js_trim_def by (metis dropWhile_shorter length_rev order_trans)

function unwrap_loop :: "jsstr \<Rightarrow> jsstr" where
  "unwrap_loop current = (if hasFullOuterParens current then unwrap_loop (js_trim (slice_inner current)) else current)"
  by auto
termination
proof (relation "measure length")
  fix s assume "hasFullOuterParens s"
  then have "s \<noteq> []" by (auto simp: hasFullOuterParens_def)
  then have "length (slice_inner s) < length s" by (cases s) (auto simp: slice_inner_def)
  with length_js_trim [of "slice_inner s"] show "(js_trim (slice_inner s), s) \<in> measure length" by simp
qed simp

declare unwrap_loop.simps [simp del]

definition unwrapOuterParens :: "jsstr \<Rightarrow> jsstr" where
  "unwrapOuterParens expr = unwrap_loop (js_trim expr)"

record split_result =
  billingExpr :: jsstr
  requestRuleExpr :: jsstr

text \<open>The loop over the parts: the rule parts and the other parts, in order.\<close>

fun sort_parts :: "jsstr list \<Rightarrow> js_error + (jsstr list \<times> jsstr list)" where
  "sort_parts [] = Inr ([], [])"
| "sort_parts (part # parts) =
     (case tryParseRequestRuleExpr part of
        Inl e \<Rightarrow> Inl e
      | Inr parsed \<Rightarrow>
          (case sort_parts parts of
             Inl e \<Rightarrow> Inl e
           | Inr (ruleParts, baseParts) \<Rightarrow>
               if (case parsed of Some gs \<Rightarrow> length gs > 0 | None \<Rightarrow> False)
               then Inr (part # ruleParts, baseParts) else Inr (ruleParts, part # baseParts)))"

definition splitBillingExprAndRequestRules :: "jsstr \<Rightarrow> js_error + split_result" where
  "splitBillingExprAndRequestRules expr =
     (let trimmed_expr = js_trim expr in
      if trimmed_expr = [] then Inr \<lparr>billingExpr = [], requestRuleExpr = []\<rparr>
      else (let parts = splitTopLevelMultiply trimmed_expr in
        if length parts \<le> 1 then Inr \<lparr>billingExpr = trimmed_expr, requestRuleExpr = []\<rparr>
        else (case sort_parts parts of
            Inl e \<Rightarrow> Inl e
          | Inr (ruleParts, baseParts) \<Rightarrow>
              if length ruleParts = 0 \<or> length baseParts \<noteq> 1
              then Inr \<lparr>billingExpr = trimmed_expr, requestRuleExpr = []\<rparr>
              else Inr \<lparr>billingExpr = unwrapOuterParens (baseParts ! 0), requestRuleExpr = js_join '' * '' ruleParts\<rparr>)))"

definition combineBillingExpr :: "jsstr \<Rightarrow> jsstr \<Rightarrow> jsstr" where
  "combineBillingExpr baseExpr rulesExpr =
     (let base = js_trim baseExpr; rules = js_trim rulesExpr in
      if base = [] then [] else if rules = [] then base
      else ''('' @ base @ '') * '' @ rules)"

subsection \<open>The editor\<close>

definition createEmptyCondition :: RequestCondition where
  "createEmptyCondition = ParamHeaderCondition ''param'' [] MATCH_EQ []"

definition createEmptyTimeCondition :: RequestCondition where
  "createEmptyTimeCondition = TimeCondition ''hour'' ''Asia/Shanghai'' MATCH_GTE [] [] []"

definition createEmptyRuleGroup :: RequestRuleGroup where
  "createEmptyRuleGroup = \<lparr>g_conditions = [createEmptyCondition], g_multiplier = []\<rparr>"

definition createEmptyTimeRuleGroup :: RequestRuleGroup where
  "createEmptyTimeRuleGroup = \<lparr>g_conditions = [createEmptyTimeCondition], g_multiplier = []\<rparr>"

text \<open>Pairs of \<open>value\<close> and \<open>labelKey\<close>.\<close>

definition getRequestRuleMatchOptions :: "jsstr \<Rightarrow> (jsstr \<times> jsstr) list" where
  "getRequestRuleMatchOptions source =
     (if source = SOURCE_TIME then
        [(MATCH_EQ, ''Equals''), (MATCH_GTE, ''Greater than or equal''), (MATCH_LT, ''Less than''),
         (MATCH_RANGE, ''Overnight range'')]
      else (let base = [(MATCH_EQ, ''Equals''), (MATCH_CONTAINS, ''Contains''), (MATCH_EXISTS, ''Exists'')] in
        if source = SOURCE_HEADER then base
        else base @ [(MATCH_GT, ''Greater than''), (MATCH_GTE, ''Greater than or equal''),
          (MATCH_LT, ''Less than''), (MATCH_LTE, ''Less than or equal'')]))"

text \<open>A \<open>Partial<RequestCondition>\<close>: every property may be missing.\<close>

record PartialCondition =
  q_source :: "jsstr option"
  q_path :: "jsstr option"
  q_timeFunc :: "jsstr option"
  q_timezone :: "jsstr option"
  q_mode :: "jsstr option"
  q_value :: "jsstr option"
  q_rangeStart :: "jsstr option"
  q_rangeEnd :: "jsstr option"

fun as_partial :: "RequestCondition \<Rightarrow> PartialCondition" where
  "as_partial (ParamHeaderCondition s p m v) =
     \<lparr>q_source = Some s, q_path = Some p, q_timeFunc = None, q_timezone = None, q_mode = Some m, q_value = Some v,
      q_rangeStart = None, q_rangeEnd = None\<rparr>"
| "as_partial (TimeCondition f tz m v a b) =
     \<lparr>q_source = Some ''time'', q_path = None, q_timeFunc = Some f, q_timezone = Some tz, q_mode = Some m,
      q_value = Some v, q_rangeStart = Some a, q_rangeEnd = Some b\<rparr>"

definition isTimeFunc :: "jsstr option \<Rightarrow> bool" where
  "isTimeFunc v = (case v of Some f \<Rightarrow> f \<in> set TIME_FUNCS | None \<Rightarrow> False)"

definition str_or_empty :: "jsstr option \<Rightarrow> jsstr" where
  "str_or_empty v = (case v of Some s \<Rightarrow> s | None \<Rightarrow> [])"

definition str_or :: "jsstr option \<Rightarrow> jsstr \<Rightarrow> jsstr" where
  "str_or v d = (case v of Some s \<Rightarrow> if s = [] then d else s | None \<Rightarrow> d)"

definition known_mode :: "jsstr \<Rightarrow> jsstr option \<Rightarrow> jsstr \<Rightarrow> jsstr" where
  "known_mode source m d = (case m of
       Some x \<Rightarrow> if list_ex (\<lambda>(v, _). v = x) (getRequestRuleMatchOptions source) then x else d
     | None \<Rightarrow> d)"

definition normalizeCondition :: "PartialCondition option \<Rightarrow> RequestCondition" where
  "normalizeCondition cond =
     (let get = (\<lambda>f. case cond of Some q \<Rightarrow> f q | None \<Rightarrow> None);
          source = (if get q_source = Some ''time'' then ''time''
                    else if get q_source = Some ''header'' then ''header'' else ''param'') in
      if source = ''time'' then
        TimeCondition (if isTimeFunc (get q_timeFunc) then the (get q_timeFunc) else ''hour'')
          (str_or (get q_timezone) ''Asia/Shanghai'') (known_mode SOURCE_TIME (get q_mode) MATCH_GTE)
          (str_or_empty (get q_value)) (str_or_empty (get q_rangeStart)) (str_or_empty (get q_rangeEnd))
      else
        ParamHeaderCondition source (str_or_empty (get q_path)) (known_mode source (get q_mode) MATCH_EQ)
          (str_or_empty (get q_value)))"

subsection \<open>Building expressions\<close>

definition numeric :: "jsstr \<Rightarrow> bool" where
  "numeric s = js_test NUMERIC_LITERAL_REGEX s"

definition buildExprLiteral :: "jsstr \<Rightarrow> jsstr \<Rightarrow> jsstr" where
  "buildExprLiteral mode value =
     (let text = js_trim value in
      if mode = MATCH_CONTAINS then json_quote text
      else if text = ''true'' \<or> text = ''false'' then text
      else if numeric text then text
      else json_quote text)"

definition time_op :: "jsstr \<Rightarrow> jsstr" where
  "time_op mode = (if mode = MATCH_EQ then ''=='' else if mode = MATCH_GTE then ''>=''
     else if mode = MATCH_LT then ''<'' else ''=='')"

definition buildTimeConditionExpr :: "RequestCondition \<Rightarrow> jsstr" where
  "buildTimeConditionExpr cond =
     (let n = normalizeCondition (Some (as_partial cond));
          fn = c_timeFunc n @ ''('' @ json_quote (c_timezone n) @ '')'' in
      if c_mode n = MATCH_RANGE then
        (let s = js_trim (c_rangeStart n); e = js_trim (c_rangeEnd n) in
         if \<not> numeric s \<or> \<not> numeric e then []
         else fn @ '' >= '' @ s @ '' || '' @ fn @ '' < '' @ e)
      else (let v = js_trim (c_value n) in
         if \<not> numeric v then [] else fn @ '' '' @ time_op (c_mode n) @ '' '' @ v))"

definition compare_op :: "jsstr \<Rightarrow> jsstr" where
  "compare_op mode = (if mode = MATCH_GT then ''>'' else if mode = MATCH_GTE then ''>=''
     else if mode = MATCH_LT then ''<'' else ''<='')"

definition buildRequestConditionExpr :: "RequestCondition \<Rightarrow> jsstr" where
  "buildRequestConditionExpr cond =
     (case cond of TimeCondition _ _ _ _ _ _ \<Rightarrow> buildTimeConditionExpr cond
      | ParamHeaderCondition _ _ _ _ \<Rightarrow>
     (let n = normalizeCondition (Some (as_partial cond)); path = js_trim (c_path n) in
      if path = [] then []
      else (let sourceExpr = (if c_source n = ''header'' then ''header('' else ''param('') @ json_quote path @ '')'';
                mode = c_mode n; header = (c_source n = ''header'') in
        if mode = MATCH_EXISTS then
          (if header then sourceExpr @ '' != '' @ [CHR 0x22, CHR 0x22] else sourceExpr @ '' != nil'')
        else if mode = MATCH_CONTAINS then
          (if header then ''has('' @ sourceExpr @ '', '' @ buildExprLiteral mode (c_value n) @ '')''
           else sourceExpr @ '' != nil && has('' @ sourceExpr @ '', '' @ buildExprLiteral mode (c_value n) @ '')'')
        else if mode \<in> {MATCH_GT, MATCH_GTE, MATCH_LT, MATCH_LTE} then
          (let numText = js_trim (c_value n) in
           if \<not> numeric numText then []
           else sourceExpr @ '' != nil && '' @ sourceExpr @ '' '' @ compare_op mode @ '' '' @ numText)
        else sourceExpr @ '' == '' @ buildExprLiteral mode (c_value n))))"

definition wrap_or :: "jsstr \<Rightarrow> jsstr" where
  "wrap_or e = (if js_includes e '' || '' then ''('' @ e @ '')'' else e)"

definition buildRuleGroupFactor :: "RequestRuleGroup \<Rightarrow> jsstr" where
  "buildRuleGroupFactor g =
     (let multiplier = js_trim (g_multiplier g) in
      if \<not> numeric multiplier then []
      else (let condExprs = filter (\<lambda>e. e \<noteq> []) (map buildRequestConditionExpr (g_conditions g)) in
        if length condExprs = 0 then []
        else (let combined = (if length condExprs = 1 then condExprs ! 0
                              else js_join '' && '' (map wrap_or condExprs)) in
          ''('' @ combined @ '' ? '' @ multiplier @ '' : 1)'')))"

definition buildRequestRuleExpr :: "RequestRuleGroup list \<Rightarrow> jsstr" where
  "buildRequestRuleExpr groups = js_join '' * '' (filter (\<lambda>f. f \<noteq> []) (map buildRuleGroupFactor groups))"

end
