(* ===== verification/Billing_Rules.thy ===== *)
theory Billing_Rules
  imports Billing_Expr
begin

section \<open>The round trips of request rules\<close>

text \<open>
  What \<^verbatim>\<open>Billing_Expr\<close> promises the editor of billing expressions. First the splitter: a text is
  quiet for a separator when no separator stands outside of its parentheses, and joining quiet parts
  and splitting again gives the parts. Then the conditions, one lemma per form: the expression built
  from a condition is parsed into the condition. The rule groups and the whole rule text follow from
  the two, and combining a base price with rules and splitting follows from the rule text.
\<close>

subsection \<open>Splitting at the top level undoes joining\<close>

definition depth :: "int \<Rightarrow> jsstr \<Rightarrow> int" where
  "depth d u = foldl depth_step d u"

lemma depth_simps [simp]:
  "depth d [] = d" "depth d (c # u) = depth (depth_step d c) u" "depth d (u @ v) = depth (depth d u) v"
  by (simp_all add: depth_def)

fun quiet :: "char \<Rightarrow> int \<Rightarrow> jsstr \<Rightarrow> jsstr \<Rightarrow> bool" where
  \<comment> \<open>\<open>quiet q d u w\<close>: reading \<open>u\<close> from depth \<open>d\<close>, with \<open>w\<close> behind it, meets no blank followed by
    \<open>q\<close> at depth 0\<close>
  "quiet q d [] w = True"
| "quiet q d (c # u) w =
     ((depth_step d c = 0 \<and> c = CHR '' '' \<longrightarrow> u @ w = [] \<or> hd (u @ w) \<noteq> q) \<and> quiet q (depth_step d c) u w)"

definition no_paren :: "jsstr \<Rightarrow> bool" where
  "no_paren u \<longleftrightarrow> CHR ''('' \<notin> set u \<and> CHR '')'' \<notin> set u"

lemma quiet_append [simp]: "quiet q d (u @ v) w \<longleftrightarrow> quiet q d u (v @ w) \<and> quiet q (depth d u) v w"
  by (induction u arbitrary: d) auto

lemma depth_no_paren [simp]: "no_paren u \<Longrightarrow> depth d u = d"
  by (induction u arbitrary: d) (auto simp: no_paren_def depth_step_def)

lemma quiet_deep: "no_paren u \<Longrightarrow> d \<noteq> 0 \<Longrightarrow> quiet q d u w"
  by (induction u arbitrary: d) (auto simp: no_paren_def depth_step_def)

lemma quiet_no_sep: "q \<notin> set u \<Longrightarrow> w = [] \<or> hd w \<noteq> q \<Longrightarrow> quiet q d u w"
proof (induction u arbitrary: d)
  case (Cons c u)
  then show ?case by (cases u) auto
qed simp

lemma quiet_ext: "u \<noteq> [] \<Longrightarrow> last u \<noteq> CHR '' '' \<Longrightarrow> quiet q d u [] \<Longrightarrow> quiet q d u w"
proof (induction u arbitrary: d)
  case (Cons c u)
  then show ?case by (cases u) auto
qed simp

lemma split_top_quiet:
  "quiet q d u w \<Longrightarrow>
    split_top (CHR '' '' # q # r) d part (u @ w) = split_top (CHR '' '' # q # r) (depth d u) (part @ u) w"
proof (induction u arbitrary: d part)
  case (Cons c u)
  have "\<not> (depth_step d c = 0 \<and> js_startsWith (c # u @ w) (CHR '' '' # q # r))"
    using Cons.prems by (cases "u @ w") auto
  then show ?case using Cons by (auto simp: Let_def)
qed simp

text \<open>Texts with matching parentheses: the depth returns to where it was and is never below.\<close>

fun above :: "int \<Rightarrow> int \<Rightarrow> jsstr \<Rightarrow> bool" where
  "above b d [] = True"
| "above b d (c # u) = (b \<le> depth_step d c \<and> above b (depth_step d c) u)"

definition balanced :: "jsstr \<Rightarrow> bool" where
  "balanced u \<longleftrightarrow> depth 0 u = 0 \<and> above 0 0 u"

lemma depth_shift: "depth (d + k) u = depth d u + k"
proof (induction u arbitrary: d)
  case (Cons c u)
  have "depth_step (d + k) c = depth_step d c + k" by (simp add: depth_step_def)
  with Cons show ?case by simp
qed simp

lemma above_shift: "above (b + k) (d + k) u = above b d u"
proof (induction u arbitrary: d)
  case (Cons c u)
  have "depth_step (d + k) c = depth_step d c + k" by (simp add: depth_step_def)
  with Cons show ?case by simp
qed simp

lemma above_mono: "above b d u \<Longrightarrow> b' \<le> b \<Longrightarrow> above b' d u"
  by (induction u arbitrary: d) auto

lemma above_append [simp]: "above b d (u @ v) \<longleftrightarrow> above b d u \<and> above b (depth d u) v"
  by (induction u arbitrary: d) auto

lemma above_quiet: "above b d u \<Longrightarrow> 0 < b \<Longrightarrow> quiet q d u w"
  by (induction u arbitrary: d) auto

lemma balanced_iff: "balanced u \<longleftrightarrow> (\<forall>d. depth d u = d \<and> above d d u)"
proof -
  have "depth d u = d \<longleftrightarrow> depth 0 u = 0" "above d d u \<longleftrightarrow> above 0 0 u" for d
    using depth_shift [of 0 d u] above_shift [of 0 d 0 u] by auto
  then show ?thesis unfolding balanced_def by blast
qed

lemma balanced_append [intro]: "balanced u \<Longrightarrow> balanced v \<Longrightarrow> balanced (u @ v)"
  by (simp add: balanced_iff)

lemma balanced_no_paren [intro]: "no_paren u \<Longrightarrow> balanced u"
  unfolding balanced_def
proof
  show "no_paren u \<Longrightarrow> above 0 0 u" by (induction u) (auto simp: no_paren_def depth_step_def)
qed simp

lemma balanced_paren [intro]: "balanced u \<Longrightarrow> balanced (''('' @ u @ '')'')"
  using above_mono [of "d + 1" "d + 1" u d for d] by (simp add: balanced_iff depth_step_def)

lemma balanced_join: "no_paren sep \<Longrightarrow> \<forall>p \<in> set ps. balanced p \<Longrightarrow> balanced (js_join sep ps)"
proof (induction sep ps rule: js_join.induct)
  case (1 sep)
  then show ?case by (simp add: balanced_def)
next
  case (3 sep x y ys)
  then show ?case by (simp add: balanced_append balanced_no_paren)
qed simp

definition top_part :: "char \<Rightarrow> jsstr \<Rightarrow> bool" where
  "top_part q p \<longleftrightarrow> p \<noteq> [] \<and> trimmed p \<and> depth 0 p = 0 \<and> quiet q 0 p []"

lemma top_part_quiet: "top_part q p \<Longrightarrow> quiet q 0 p w"
  by (rule quiet_ext) (auto simp: top_part_def trimmed_def js_ws_def)

lemma top_part_paren: "balanced u \<Longrightarrow> top_part q (''('' @ u @ '')'')"
  using above_quiet [of 1 1 u q "'')''"]
  by (auto simp: top_part_def trimmed_def js_ws_def depth_step_def balanced_iff)

lemma split_top_join:
  assumes "ps \<noteq> []" "\<forall>p \<in> set ps. top_part q p"
  shows "split_top (CHR '' '' # q # r) 0 [] (js_join (CHR '' '' # q # r) ps) = ps"
  using assms
proof (induction ps rule: induct_list012)
  case (2 p)
  then have "split_top (CHR '' '' # q # r) 0 [] (p @ []) = [js_trim p]"
    by (subst split_top_quiet) (auto simp: top_part_quiet top_part_def)
  then show ?case using 2 by (simp add: top_part_def js_trim_id)
next
  case (3 p p' ps)
  have "split_top (CHR '' '' # q # r) 0 [] (p @ (CHR '' '' # q # r) @ js_join (CHR '' '' # q # r) (p' # ps))
      = p # split_top (CHR '' '' # q # r) 0 [] (js_join (CHR '' '' # q # r) (p' # ps))"
    using 3(4) by (subst split_top_quiet)
      (auto simp: top_part_quiet top_part_def Let_def depth_step_def js_trim_id js_startsWith_iff)
  then show ?case using 3 by simp
qed simp

lemma split_multiply_join:
  "ps \<noteq> [] \<Longrightarrow> \<forall>p \<in> set ps. top_part CHR ''*'' p \<Longrightarrow> splitTopLevelMultiply (js_join '' * '' ps) = ps"
  using split_top_join [of ps "CHR ''*''" "'' ''"] by (simp add: splitTopLevelMultiply_def top_part_def)

lemma split_and_join:
  "ps \<noteq> [] \<Longrightarrow> \<forall>p \<in> set ps. top_part CHR ''&'' p \<Longrightarrow> splitTopLevelAnd (js_join '' && '' ps) = ps"
  using split_top_join [of ps "CHR ''&''" "''& ''"] by (simp add: splitTopLevelAnd_def top_part_def)

subsection \<open>Numbers and quoted texts\<close>

lemma numeric_chars: "numeric s \<Longrightarrow> s \<noteq> [] \<and> list_all is_num_char s"
proof -
  assume n: "numeric s"
  then obtain st where st: "st \<in> set (rx_match (rx_seq [ROpt (rx_lit ''-''),
     RAlt (rx_seq [digit_run, ROpt (rx_lit ''.''), RStar (RCls is_digit)]) (RSeq (rx_lit ''.'') digit_run),
     ROpt (rx_seq [RCls (\<lambda>c. c \<in> set ''eE''), ROpt (RCls (\<lambda>c. c \<in> set ''+-'')), digit_run]), REol]) (None, s, []))"
    (is "st \<in> set (rx_match ?r _)")
    unfolding numeric_def NUMERIC_LITERAL_REGEX_def test_anchored by (metis last_in_set)
  have "rx_within is_num_char ?r"
    by (simp add: digit_run_def rx_plus_def is_num_char_def)
  from match_within [OF this st] have c: "consumes is_num_char (None, s, []) st" .
  moreover have "fst (snd st) = []" using st unfolding rx_seq.simps by (elim match_seqE) (rule match_eol)
  moreover have "s \<noteq> []"
  proof
    assume "s = []"
    then show False using n by (simp add: numeric_def NUMERIC_LITERAL_REGEX_def test_anchored digit_run_def rx_plus_def)
  qed
  ultimately show ?thesis by (simp add: consumes_def)
qed

definition clean_char :: "char \<Rightarrow> bool" where
  "clean_char c \<longleftrightarrow> c \<notin> {CHR ''('', CHR '')'', CHR ''&'', CHR ''|''}"

abbreviation clean :: "jsstr \<Rightarrow> bool" where
  "clean u \<equiv> list_all clean_char u"

lemma clean_no_paren: "clean u \<Longrightarrow> no_paren u"
  by (auto simp: clean_char_def no_paren_def list_all_iff)

definition safe_char :: "char \<Rightarrow> bool" where
  "safe_char c \<longleftrightarrow> c \<noteq> CHR 0x22 \<and> c \<noteq> CHR 0x5C \<and> clean_char c \<and> \<not> is_ctrl c"

definition safe_text :: "jsstr \<Rightarrow> bool" where
  "safe_text s \<longleftrightarrow> s \<noteq> [] \<and> list_all safe_char s"

lemma json_esc_plain: "c \<noteq> CHR 0x22 \<Longrightarrow> c \<noteq> CHR 0x5C \<Longrightarrow> \<not> is_ctrl c \<Longrightarrow> json_esc c = [c]"
  by (auto simp: json_esc_def is_ctrl_def)

lemma safe_quote: "safe_text s \<Longrightarrow> json_quote s = CHR 0x22 # s @ [CHR 0x22]"
proof -
  assume "safe_text s"
  then have "list_all (\<lambda>c. json_esc c = [c]) s"
    unfolding safe_text_def safe_char_def list_all_iff by (simp add: json_esc_plain)
  then have "concat (map json_esc s) = s" by (induction s) auto
  then show ?thesis by (simp add: json_quote_def)
qed

lemma safe_no_paren: "safe_text s \<Longrightarrow> no_paren s"
  by (intro clean_no_paren) (auto simp: safe_text_def safe_char_def list_all_iff)

lemma match_quoted:
  assumes "safe_text t"
  shows "rx_match (quoted_rx n rest) (p, ''('' @ json_quote t @ '')'' @ v, cs) =
    rx_match (rx_seq rest) (Some CHR '')'', v, (n, t) # cs)"
proof -
  have t: "t \<noteq> []" "list_all not_quote t" using assms by (auto simp: safe_text_def safe_char_def not_quote_def list_all_iff)
  have s: "stops not_quote (RSeq (rx_lit (CHR 0x22 # '')'')) (rx_seq rest))"
    by (intro stops_seq stops_lit) (simp add: not_quote_def)
  have "rx_match (quoted_rx n rest) (p, ''('' @ json_quote t @ '')'' @ v, cs) =
      rx_match (RSeq (RGrp n (rx_plus (RCls not_quote))) (RSeq (rx_lit (CHR 0x22 # '')'')) (rx_seq rest)))
        (Some CHR 0x22, t @ CHR 0x22 # '')'' @ v, cs)"
    unfolding quoted_rx_def safe_quote [OF assms] match_seq [of "rx_lit _"]
    by (simp only: match_lit) (simp add: prev_of_def del: rx_match.simps)
  also have "\<dots> = rx_match (RSeq (rx_lit (CHR 0x22 # '')'')) (rx_seq rest)) (prev_of (Some CHR 0x22) t, CHR 0x22 # '')'' @ v, (n, t) # cs)"
    by (rule match_grp_plus_then [OF s t(2,1)]) (simp add: not_quote_def)
  also have "\<dots> = rx_match (rx_seq rest) (Some CHR '')'', v, (n, t) # cs)"
    unfolding match_seq [of "rx_lit _"] by (simp only: match_lit) (simp add: prev_of_def del: rx_match.simps)
  finally show ?thesis .
qed

lemma match_num_then:
  assumes "numeric s" "stops is_num_char b" "v = [] \<or> \<not> is_num_char (hd v)"
  shows "rx_match (RSeq (num_rx n) b) (p, s @ v, cs) = rx_match b (prev_of p s, v, (n, s) # cs)"
  unfolding num_rx_def using numeric_chars [OF assms(1)] assms by (intro match_grp_plus_then) auto

subsection \<open>Time conditions\<close>

lemma match_lit_then: "rx_match (RSeq (rx_lit w) b) (p, w @ v, cs) = rx_match b (prev_of p w, v, cs)"
  by (simp add: match_lit)

lemma match_lit_fails: "\<not> js_startsWith s w \<Longrightarrow> rx_match (RSeq (rx_lit w) b) (p, s, cs) = []"
  by (simp add: match_lit)

lemma match_back_then:
  "map_of cs n = Some t \<Longrightarrow> rx_match (RSeq (RBack n) b) (p, t @ v, cs) = rx_match b (prev_of p t, v, cs)"
  by simp

lemma not_num_char: "\<not> is_num_char CHR '' ''" "\<not> is_num_char CHR '')''"
  by (simp_all add: is_num_char_def is_digit_def)

lemma match_num_lit:
  assumes "numeric s" "\<not> is_num_char c"
  shows "rx_match (RSeq (num_rx n) (RSeq (rx_lit (c # w)) b)) (p, s @ (c # w) @ v, cs) =
    rx_match b (prev_of (prev_of p s) (c # w), v, (n, s) # cs)"
proof -
  have "stops is_num_char (RSeq (rx_lit (c # w)) b)" by (intro stops_seq stops_lit assms)
  then have "rx_match (RSeq (num_rx n) (RSeq (rx_lit (c # w)) b)) (p, s @ ((c # w) @ v), cs) =
      rx_match (RSeq (rx_lit (c # w)) b) (prev_of p s, (c # w) @ v, (n, s) # cs)"
    using assms by (intro match_num_then) auto
  then show ?thesis by (simp only: match_lit_then)
qed

lemma match_num_eol: "numeric s \<Longrightarrow> rx_match (RSeq (num_rx n) REol) (p, s, cs) = [(prev_of p s, [], (n, s) # cs)]"
  using match_num_then [of s REol "[]" n p cs] by (simp add: stops_eol)

lemma match_num_lit_eol:
  assumes "numeric s" "\<not> is_num_char c"
  shows "rx_match (RSeq (num_rx n) (RSeq (rx_lit (c # w)) b)) (p, s, cs) = []"
proof -
  have "stops is_num_char (RSeq (rx_lit (c # w)) b)" by (intro stops_seq stops_lit assms)
  then show ?thesis using match_num_then [OF assms(1), of "RSeq (rx_lit (c # w)) b" "[]" n p cs]
    by (simp add: match_lit)
qed

definition time_fn :: "jsstr \<Rightarrow> jsstr \<Rightarrow> jsstr" where
  "time_fn f tz = f @ ''('' @ json_quote tz @ '')''"

lemma match_alt_lits:
  "rx_match (rx_alt (map rx_lit ws)) (p, s, cs) =
    map (\<lambda>w. (prev_of p w, drop (length w) s, cs)) (filter (js_startsWith s) ws)"
proof (induction ws rule: induct_list012)
  case 1
  then show ?case by (simp split: list.splits)
qed (simp_all add: match_lit)

lemma match_grp_lits:
  assumes "filter (js_startsWith (w @ v)) ws = [w]"
  shows "rx_match (RSeq (RGrp n (rx_alt (map rx_lit ws))) b) (p, w @ v, cs) = rx_match b (prev_of p w, v, (n, w) # cs)"
  by (simp add: match_alt_lits assms)

lemma match_grp_lits_fails:
  assumes "filter (js_startsWith s) ws = []"
  shows "rx_match (RSeq (RGrp n (rx_alt (map rx_lit ws))) b) (p, s, cs) = []"
  by (simp add: match_alt_lits assms)

lemma match_time_func:
  assumes "f \<in> set TIME_FUNCS"
  shows "rx_match (RSeq time_func_rx b) (p, f @ v, cs) = rx_match b (prev_of p f, v, (1, f) # cs)"
  unfolding time_func_rx_def
proof (rule match_grp_lits)
  from assms consider "f = ''hour''" | "f = ''minute''" | "f = ''weekday''" | "f = ''month''" | "f = ''day''"
    unfolding TIME_FUNCS_def by auto
  then show "filter (js_startsWith (f @ v)) TIME_FUNCS = [f]"
    unfolding TIME_FUNCS_def by cases simp_all
qed

definition range_text :: "jsstr \<Rightarrow> jsstr \<Rightarrow> jsstr \<Rightarrow> jsstr \<Rightarrow> jsstr" where
  "range_text f tz a b = time_fn f tz @ '' >= '' @ a @ '' || '' @ time_fn f tz @ '' < '' @ b"

lemmas rx_steps = rx_seq.simps append.simps(1) match_lit_then match_quoted match_num_lit match_num_eol
  match_time_func not_num_char

text \<open>The body of both range patterns, with any text behind the second number.\<close>

lemma match_range_body:
  assumes "f \<in> set TIME_FUNCS" "safe_text tz" "numeric a" "numeric b"
    "stops is_num_char (rx_seq (r # rest))" "v = [] \<or> \<not> is_num_char (hd v)"
  shows "\<exists>q. rx_match (range_body_rx (r # rest)) (p, range_text f tz a b @ v, []) =
    rx_match (rx_seq (r # rest)) (q, v, [(4, b), (3, a), (2, tz), (1, f)])"
proof -
  have quoted: "''('' @ json_quote tz @ '')'' @ x = (''('' @ [CHR 0x22]) @ tz @ (CHR 0x22 # '')'') @ x" for x
    by (simp add: safe_quote [OF assms(2)])
  have 1: "rx_match (range_body_rx (r # rest)) (p, range_text f tz a b @ v, []) =
    rx_match (rx_seq ([rx_lit '' >= '', num_rx 3, rx_lit '' || '', RBack 1, rx_lit (''('' @ [CHR 0x22]), RBack 2,
       rx_lit (CHR 0x22 # '')''), rx_lit '' < '', num_rx 4] @ r # rest))
      (Some CHR '')'', '' >= '' @ a @ '' || '' @ f @ ''('' @ json_quote tz @ '')'' @ '' < '' @ b @ v, [(2, tz), (1, f)])"
    unfolding range_body_rx_def range_text_def time_fn_def append_assoc
    by (simp only: match_time_func [OF assms(1)] match_quoted [OF assms(2)])
  have 2: "\<dots> = rx_match (rx_seq ([RBack 1, rx_lit (''('' @ [CHR 0x22]), RBack 2,
       rx_lit (CHR 0x22 # '')''), rx_lit '' < '', num_rx 4] @ r # rest))
      (prev_of (prev_of (prev_of (Some CHR '')'') '' >= '') a) '' || '', f @ (''('' @ [CHR 0x22]) @ tz @ (CHR 0x22 # '')'') @ '' < '' @ b @ v,
       [(3, a), (2, tz), (1, f)])"
    unfolding append.simps(2) [of _ _ "r # rest"] append.simps(1) rx_seq.simps
    by (simp only: match_lit_then match_num_lit [OF assms(3) not_num_char(1)] quoted)
  have "\<exists>q. \<dots> = rx_match (rx_seq (num_rx 4 # r # rest)) (q, b @ v, [(3, a), (2, tz), (1, f)])"
    unfolding append.simps(2) [of _ _ "r # rest"] append.simps(1) rx_seq.simps
    by (subst match_back_then, simp, subst match_lit_then, subst match_back_then, simp, subst match_lit_then,
        subst match_lit_then) blast
  moreover have "rx_match (rx_seq (num_rx 4 # r # rest)) (q, b @ v, cs) = rx_match (rx_seq (r # rest)) (prev_of q b, v, (4, b) # cs)" for q cs
    unfolding rx_seq.simps by (rule match_num_then [OF assms(4,5,6)])
  ultimately show ?thesis unfolding 1 2 by metis
qed

lemma caps_grp: "caps_of (p, s, cs) = map_of cs"
  by (simp add: caps_of_def fun_eq_iff)

lemma parse_time_range:
  assumes "f \<in> set TIME_FUNCS" "safe_text tz" "numeric a" "numeric b"
  shows "tryParseTimeCondition (range_text f tz a b) = Some (TimeCondition f tz MATCH_RANGE [] a b)"
proof -
  obtain q where "rx_match (range_body_rx [REol]) (None, range_text f tz a b @ [], []) =
    rx_match (rx_seq [REol]) (q, [], [(4, b), (3, a), (2, tz), (1, f)])"
    using match_range_body [OF assms, of REol "[]" "[]"] stops_eol by auto
  then have "js_match time_range_rx (range_text f tz a b) = Some (map_of [(4, b), (3, a), (2, tz), (1, f)])"
    by (simp add: time_range_rx_def match_anchored caps_grp)
  then show ?thesis by (simp add: tryParseTimeCondition_def grp_def)
qed

lemma time_range_fails:
  assumes "filter (js_startsWith s) TIME_FUNCS = []"
  shows "js_match time_range_rx s = None" "js_match time_compare_rx s = None"
  unfolding time_range_rx_def time_compare_rx_def match_anchored range_body_rx_def time_func_rx_def
    match_grp_lits_fails [OF assms] by simp_all

lemma parse_paren_time_range:
  assumes "f \<in> set TIME_FUNCS" "safe_text tz" "numeric a" "numeric b"
  shows "tryParseTimeCondition (''('' @ range_text f tz a b @ '')'') = Some (TimeCondition f tz MATCH_RANGE [] a b)"
proof -
  have "stops is_num_char (rx_seq [rx_lit '')'', REol])" unfolding rx_seq.simps by (intro stops_seq stops_lit not_num_char)
  then obtain q where "rx_match (range_body_rx [rx_lit '')'', REol]) (Some CHR ''('', range_text f tz a b @ '')'', []) =
    rx_match (rx_seq [rx_lit '')'', REol]) (q, '')'', [(4, b), (3, a), (2, tz), (1, f)])"
    using match_range_body [OF assms, of "rx_lit '')''" "[REol]" "'')''"] not_num_char(2) by auto
  then have "js_match time_paren_range_rx (''('' @ range_text f tz a b @ '')'') = Some (map_of [(4, b), (3, a), (2, tz), (1, f)])"
    unfolding time_paren_range_rx_def match_anchored match_lit_then by (simp add: prev_of_def caps_grp)
  moreover have "js_match time_range_rx (''('' @ range_text f tz a b @ '')'') = None"
    by (rule time_range_fails) (simp add: TIME_FUNCS_def)
  ultimately show ?thesis by (simp add: tryParseTimeCondition_def grp_def)
qed

definition compare_text :: "jsstr \<Rightarrow> jsstr \<Rightarrow> jsstr \<Rightarrow> jsstr \<Rightarrow> jsstr" where
  "compare_text f tz op v = time_fn f tz @ '' '' @ op @ '' '' @ v"


lemma range_body_list:
  "range_body_rx [REol] = RSeq time_func_rx (quoted_rx 2 [rx_lit '' >= '', num_rx 3, rx_lit '' || '', RBack 1,
     rx_lit [CHR ''('', CHR 0x22], RBack 2, rx_lit [CHR 0x22, CHR '')''], rx_lit '' < '', num_rx 4, REol])"
  by (simp add: range_body_rx_def)

lemma range_fails_compare:
  assumes "f \<in> set TIME_FUNCS" "safe_text tz" "op \<in> set [''=='', ''>='', ''<'']" "numeric v"
  shows "js_match time_range_rx (compare_text f tz op v) = None"
proof -
  let ?rest = "RSeq (num_rx 3) (RSeq (rx_lit '' || '') (rx_seq [RBack 1, rx_lit [CHR ''('', CHR 0x22], RBack 2,
       rx_lit [CHR 0x22, CHR '')''], rx_lit '' < '', num_rx 4, REol]))"
  have fails: "rx_match (RSeq (rx_lit '' >= '') ?rest) (p, '' '' @ op @ '' '' @ v, cs) = []" for p cs
  proof (cases "op = ''>=''")
    case True
    have "rx_match (RSeq (rx_lit '' >= '') ?rest) (p, '' >= '' @ v, cs) = []"
      by (simp only: match_lit_then match_num_lit_eol [OF assms(4) not_num_char(1)])
    then show ?thesis using True by simp
  next
    case False
    then show ?thesis using assms(3) by (intro match_lit_fails) auto
  qed
  then show ?thesis
    unfolding time_range_rx_def match_anchored range_body_list compare_text_def time_fn_def append_assoc
    using fails unfolding rx_seq.simps
    by (simp only: match_time_func [OF assms(1)] match_quoted [OF assms(2)] rx_seq.simps list.case)
qed

lemma parse_time_compare:
  assumes "f \<in> set TIME_FUNCS" "safe_text tz" "op \<in> set [''=='', ''>='', ''<'']" "numeric v"
  shows "tryParseTimeCondition (compare_text f tz op v) = Some (TimeCondition f tz (time_mode_of_op op) v [] [])"
proof -
  have ops: "[rx_lit ''=='', rx_lit ''>='', rx_lit ''<''] = map rx_lit [''=='', ''>='', ''<'']" by simp
  have o: "filter (js_startsWith (op @ '' '' @ v)) [''=='', ''>='', ''<''] = [op]" using assms(3) by auto
  have E: "rx_match (RSeq (rx_lit '' '') (RSeq (RGrp 3 (rx_alt (map rx_lit [''=='', ''>='', ''<'']))) (RSeq (rx_lit '' '') (RSeq (num_rx 4) REol))))
      (p, '' '' @ op @ '' '' @ v, cs) = [(prev_of (prev_of (prev_of (prev_of p '' '') op) '' '') v, [], (4, v) # (3, op) # cs)]" for p cs
    by (simp only: match_lit_then match_grp_lits [OF o] match_num_eol [OF assms(4)])
  have "js_match time_compare_rx (compare_text f tz op v) = Some (map_of [(4, v), (3, op), (2, tz), (1, f)])"
    unfolding time_compare_rx_def match_anchored compare_text_def time_fn_def append_assoc ops
    by (simp only: match_time_func [OF assms(1)] match_quoted [OF assms(2)] rx_seq.simps E list.case caps_grp)
  moreover have "js_match time_paren_range_rx (compare_text f tz op v) = None"
  proof -
    have "\<not> js_startsWith (compare_text f tz op v) ''(''"
      using assms(1) unfolding compare_text_def time_fn_def TIME_FUNCS_def by auto
    then show ?thesis unfolding time_paren_range_rx_def match_anchored by (subst match_lit_fails) simp_all
  qed
  ultimately show ?thesis using range_fails_compare [OF assms] by (simp add: tryParseTimeCondition_def grp_def)
qed

lemma time_fails:
  assumes "filter (js_startsWith s) TIME_FUNCS = []" "\<not> js_startsWith s ''(''"
  shows "tryParseTimeCondition s = None"
proof -
  have "js_match time_paren_range_rx s = None"
    unfolding time_paren_range_rx_def match_anchored match_lit_fails [OF assms(2)] by simp
  then show ?thesis by (simp add: tryParseTimeCondition_def time_range_fails [OF assms(1)])
qed

subsection \<open>Conditions on parameters and headers\<close>

definition source_text :: "jsstr \<Rightarrow> jsstr \<Rightarrow> jsstr" where
  "source_text s t = s @ ''('' @ json_quote t @ '')''"

lemma match_source:
  assumes "safe_text t"
  shows "rx_match (RSeq (rx_lit s) (quoted_rx n rest)) (p, source_text s t @ v, cs) =
    rx_match (rx_seq rest) (Some CHR '')'', v, (n, t) # cs)"
  unfolding source_text_def append_assoc match_lit_then match_quoted [OF assms] ..

lemma match_source_fails:
  assumes "safe_text t" "\<not> js_startsWith v w"
  shows "rx_match (RSeq (rx_lit s) (quoted_rx n (rx_lit w # r # rs))) (p, source_text s t @ v, cs) = []"
  unfolding match_source [OF assms(1)] rx_seq.simps match_lit_fails [OF assms(2)] ..

lemma match_none: "rx_match r (None, s, []) = [] \<Longrightarrow> js_match (RSeq RBol r) s = None"
  by (simp add: match_anchored)

lemma match_some: "rx_match r (None, s, []) = (p, s', cs) # xs \<Longrightarrow> js_match (RSeq RBol r) s = Some (map_of cs)"
  by (simp add: match_anchored caps_grp)

text \<open>A pattern that begins with another word does not match.\<close>

lemma header_fails: "\<not> js_startsWith s ''header'' \<Longrightarrow> js_match header_exists_rx s = None"
  unfolding header_exists_rx_def by (rule match_none) (rule match_lit_fails)

lemma has_fails: "\<not> js_startsWith s ''has(header'' \<Longrightarrow> js_match header_has_rx s = None"
  unfolding header_has_rx_def by (rule match_none) (rule match_lit_fails)

lemma param_fails:
  assumes "\<not> js_startsWith s ''param''"
  shows "js_match param_exists_rx s = None" "js_match param_has_rx s = None" "js_match param_compare_rx s = None"
  unfolding param_exists_rx_def param_has_rx_def param_compare_rx_def
  by (rule match_none, rule match_lit_fails [OF assms])+

lemma param_source_fails:
  assumes "safe_text t" "\<not> js_startsWith v '' != nil''"
  shows "js_match param_exists_rx (source_text ''param'' t @ v) = None"
    "js_match param_has_rx (source_text ''param'' t @ v) = None"
    "js_match param_compare_rx (source_text ''param'' t @ v) = None"
proof -
  have "\<not> js_startsWith v ('' != nil'' @ w)" for w
    using assms(2) by (auto simp: js_startsWith_iff)
  from this [of "'' && has(param''"] this [of "'' && param''"]
  show "js_match param_exists_rx (source_text ''param'' t @ v) = None"
    "js_match param_has_rx (source_text ''param'' t @ v) = None"
    "js_match param_compare_rx (source_text ''param'' t @ v) = None"
    unfolding param_exists_rx_def param_has_rx_def param_compare_rx_def
    by (intro match_none match_source_fails assms; simp)+
qed

lemma time_fails_source: "s \<in> {''header'', ''param''} \<Longrightarrow> tryParseTimeCondition (source_text s t @ v) = None"
  by (intro time_fails) (auto simp: source_text_def TIME_FUNCS_def)

lemma starts_source:
  "\<not> js_startsWith (source_text ''header'' t @ v) ''param''"
  "\<not> js_startsWith (source_text ''param'' t @ v) ''header''"
  "\<not> js_startsWith (source_text ''header'' t @ v) ''has(header''"
  "\<not> js_startsWith (source_text ''param'' t @ v) ''has(header''"
  by (simp_all add: source_text_def)

lemma parse_header_exists:
  assumes "safe_text t"
  shows "tryParseRequestCondition (source_text ''header'' t @ '' != '' @ [CHR 0x22, CHR 0x22]) =
    found (ParamHeaderCondition ''header'' t MATCH_EXISTS [])"
proof -
  have "rx_match (RSeq (rx_lit ''header'') (quoted_rx 1 [rx_lit ('' != '' @ [CHR 0x22, CHR 0x22]), REol]))
      (None, source_text ''header'' t @ ('' != '' @ [CHR 0x22, CHR 0x22]) @ [], [])
    = (prev_of (Some CHR '')'') ('' != '' @ [CHR 0x22, CHR 0x22]), [], [(1, t)]) # []"
    unfolding match_source [OF assms] rx_seq.simps match_lit_then by simp
  then have "js_match header_exists_rx (source_text ''header'' t @ '' != '' @ [CHR 0x22, CHR 0x22]) = Some (map_of [(1, t)])"
    unfolding header_exists_rx_def append_Nil2 by (rule match_some)
  then show ?thesis by (simp only: tryParseRequestCondition_def time_fails_source insertI1 option.case)
      (simp add: grp_def)
qed

lemma parse_param_exists:
  assumes "safe_text t"
  shows "tryParseRequestCondition (source_text ''param'' t @ '' != nil'') =
    found (ParamHeaderCondition ''param'' t MATCH_EXISTS [])"
proof -
  have "rx_match (RSeq (rx_lit ''param'') (quoted_rx 1 [rx_lit '' != nil'', REol]))
      (None, source_text ''param'' t @ '' != nil'' @ [], [])
    = (prev_of (Some CHR '')'') '' != nil'', [], [(1, t)]) # []"
    unfolding match_source [OF assms] rx_seq.simps match_lit_then by simp
  then have "js_match param_exists_rx (source_text ''param'' t @ '' != nil'') = Some (map_of [(1, t)])"
    unfolding param_exists_rx_def append_Nil2 by (rule match_some)
  then show ?thesis by (simp add: tryParseRequestCondition_def time_fails_source header_fails starts_source grp_def)
qed

text \<open>The inside of a string literal, read item by item.\<close>

inductive str_body :: "jsstr \<Rightarrow> bool" where
  body_Nil: "str_body []"
| body_plain: "c \<noteq> CHR 0x22 \<Longrightarrow> c \<noteq> CHR 0x5C \<Longrightarrow> str_body s \<Longrightarrow> str_body (c # s)"
| body_escape: "\<not> line_end c \<Longrightarrow> str_body s \<Longrightarrow> str_body (CHR 0x5C # c # s)"

lemma star_body:
  "str_body s \<Longrightarrow> length s \<le> k \<Longrightarrow>
    \<exists>p' xs. star_loop (rx_match str_item_rx) k (p, s @ CHR 0x22 # w, cs) = (p', CHR 0x22 # w, cs) # xs"
proof (induction arbitrary: p k rule: str_body.induct)
  case body_Nil
  then show ?case by (cases k) (simp_all add: str_item_rx_def)
next
  case (body_plain c s)
  then obtain j where "k = Suc j" "length s \<le> j" by (cases k) auto
  with body_plain.IH [of j "Some c"] body_plain.hyps show ?case by (auto simp: str_item_rx_def)
next
  case (body_escape c s)
  then obtain j where "k = Suc j" "length s \<le> j" by (cases k) auto
  with body_escape.IH [of j "Some c"] body_escape.hyps show ?case by (auto simp: str_item_rx_def)
qed

lemma hex_char_plain: "x < 16 \<Longrightarrow> hex_char x \<noteq> CHR 0x22 \<and> hex_char x \<noteq> CHR 0x5C \<and> \<not> line_end (hex_char x)
    \<and> clean_char (hex_char x)"
proof -
  assume "x < 16"
  then have "x \<in> {0, 1, 2, 3, 4, 5, 6, 7, 8, 9, 10, 11, 12, 13, 14, 15}" by (simp, presburger)
  then show ?thesis by (elim insertE emptyE) (simp_all add: line_end_def hex_char_def clean_char_def)
qed

lemma ctrl_hex: "is_ctrl c \<Longrightarrow> of_char c div 16 < (16::nat) \<and> of_char c mod 16 < (16::nat)"
  by (auto simp: is_ctrl_def)

lemma unescape_line: "json_unescape e = Some c \<Longrightarrow> \<not> line_end e"
  by (auto simp: json_unescape_def line_end_def split: if_splits)

lemma body_esc: "str_body s \<Longrightarrow> str_body (json_esc c @ s)"
  using json_esc_cases [of c] hex_char_plain ctrl_hex [of c]
  by (elim disjE exE conjE) (auto simp: line_end_def dest: unescape_line intro!: str_body.intros)

lemma body_escaped: "str_body (concat (map json_esc v))"
  by (induction v) (simp_all add: body_Nil body_esc)

lemma match_string_body:
  assumes "str_body e"
  shows "\<exists>p' xs. rx_match (str_lit_rx n) (p, (CHR 0x22 # e @ [CHR 0x22]) @ w, cs) = (p', w, (n, CHR 0x22 # e @ [CHR 0x22]) # cs) # xs"
proof -
  obtain p1 xs where "rx_match (RStar str_item_rx) (Some CHR 0x22, e @ CHR 0x22 # w, cs) = (p1, CHR 0x22 # w, cs) # xs"
    using star_body [OF assms, of "length (e @ CHR 0x22 # w)" "Some CHR 0x22" w cs] by auto
  moreover have "rx_match (rx_lit [CHR 0x22]) (p1, CHR 0x22 # w, cs) = [(Some CHR 0x22, w, cs)]" by simp
  ultimately obtain zs where "rx_match (RSeq (RStar str_item_rx) (rx_lit [CHR 0x22])) (Some CHR 0x22, e @ CHR 0x22 # w, cs) =
      (Some CHR 0x22, w, cs) # zs" using first_seq by blast
  moreover have "rx_match (RSeq (rx_lit [CHR 0x22]) r) (p, (CHR 0x22 # e @ [CHR 0x22]) @ w, cs) = rx_match r (Some CHR 0x22, e @ CHR 0x22 # w, cs)" for r
    by simp
  ultimately show ?thesis unfolding str_lit_rx_def match_grp by simp
qed

lemma parse_quoted: "parse_string_literal (json_quote v) = Inr v"
  using json_roundtrip [of "JStr v"] by (simp add: parse_string_literal_def)

text \<open>A header condition with any string the pattern accepts; \<open>JSON.parse\<close> decides what follows.\<close>

lemma parse_header_has:
  assumes "safe_text t" "str_body e"
  shows "tryParseRequestCondition (''has('' @ source_text ''header'' t @ '', '' @ (CHR 0x22 # e @ [CHR 0x22]) @ '')'') =
    (case parse_string_literal (CHR 0x22 # e @ [CHR 0x22]) of Inl x \<Rightarrow> Inl x
     | Inr v \<Rightarrow> found (ParamHeaderCondition ''header'' t MATCH_CONTAINS v))"
proof -
  let ?q = "CHR 0x22 # e @ [CHR 0x22]"
  let ?s = "''has('' @ source_text ''header'' t @ '', '' @ ?q @ '')''"
  have eq: "?s = source_text ''has(header'' t @ '', '' @ ?q @ '')''" by (simp add: source_text_def)
  obtain p xs where lit: "rx_match (str_lit_rx 2) (prev_of (Some CHR '')'') '', '', ?q @ '')'', [(1, t)]) =
      (p, '')'', [(2, ?q), (1, t)]) # xs" using match_string_body [OF assms(2)] by blast
  have last: "rx_match (RSeq (rx_lit '')'') REol) (p, '')'', cs) = [(Some CHR '')'', [], cs)]" for cs by simp
  obtain zs where "rx_match (RSeq (str_lit_rx 2) (RSeq (rx_lit '')'') REol)) (prev_of (Some CHR '')'') '', '', ?q @ '')'', [(1, t)]) =
      (Some CHR '')'', [], [(2, ?q), (1, t)]) # zs"
    using first_seq [OF lit last] by blast
  then have "js_match header_has_rx ?s = Some (map_of [(2, ?q), (1, t)])"
    unfolding header_has_rx_def eq by (intro match_some) (simp only: match_source [OF assms(1)] rx_seq.simps match_lit_then)
  moreover have "tryParseTimeCondition ?s = None" by (rule time_fails) (simp_all add: TIME_FUNCS_def)
  ultimately show ?thesis
    by (simp add: tryParseRequestCondition_def header_fails param_fails grp_def split: sum.split)
qed

lemma parse_header_contains:
  assumes "safe_text t"
  shows "tryParseRequestCondition (''has('' @ source_text ''header'' t @ '', '' @ json_quote v @ '')'') =
    found (ParamHeaderCondition ''header'' t MATCH_CONTAINS v)"
  using parse_header_has [OF assms body_escaped, of v] parse_quoted [of v]
  unfolding json_quote_def [symmetric] by simp

text \<open>The literal of an equality: the characters it may have and what it is read as.\<close>

lemma esc_chars: "list_all (\<lambda>x. \<not> line_end x) (json_esc c)" "clean_char c \<Longrightarrow> clean (json_esc c)"
proof -
  have u: "clean_char e" if "json_unescape e = Some c" for e
    using that by (auto simp: json_unescape_def clean_char_def split: if_splits)
  show "list_all (\<lambda>x. \<not> line_end x) (json_esc c)"
    using json_esc_cases [of c] hex_char_plain ctrl_hex [of c] unescape_line
    by (elim disjE exE conjE) (auto simp: line_end_def is_ctrl_def)
  show "clean_char c \<Longrightarrow> clean (json_esc c)"
    using json_esc_cases [of c] hex_char_plain ctrl_hex [of c] u
    by (elim disjE exE conjE) (simp_all add: clean_char_def)
qed

lemma quote_chars: "list_all (\<lambda>x. \<not> line_end x) (json_quote v)" "clean v \<Longrightarrow> clean (json_quote v)"
proof -
  show "list_all (\<lambda>x. \<not> line_end x) (json_quote v)"
    using esc_chars(1) by (induction v) (simp_all add: json_quote_def line_end_def)
  show "clean v \<Longrightarrow> clean (json_quote v)"
    using esc_chars(2) by (induction v) (simp_all add: json_quote_def clean_char_def)
qed

lemma num_char: "is_num_char x \<Longrightarrow> \<not> line_end x \<and> \<not> js_ws x \<and> clean_char x \<and> x \<noteq> CHR ''?'' \<and> x \<noteq> CHR 0x22"
proof -
  assume "is_num_char x"
  then have "x \<in> set ''0123456789.eE+-''" by (auto simp: is_num_char_def is_digit_def)
  moreover have "list_all (\<lambda>x. \<not> line_end x \<and> \<not> js_ws x \<and> clean_char x \<and> x \<noteq> CHR ''?'' \<and> x \<noteq> CHR 0x22) ''0123456789.eE+-''"
    by (simp add: line_end_def js_ws_def clean_char_def)
  ultimately show ?thesis unfolding list_all_iff by blast
qed

lemma num_chars: "list_all is_num_char s \<Longrightarrow> x \<in> set s \<Longrightarrow> \<not> line_end x \<and> \<not> js_ws x \<and> clean_char x \<and> x \<noteq> CHR ''?'' \<and> x \<noteq> CHR 0x22"
  using num_char by (simp only: list_all_iff) blast

lemma numeric_trimmed: "numeric s \<Longrightarrow> trimmed s"
  using numeric_chars [of s] num_chars [of s] by (intro trimmed_no_ws) blast

lemma quote_trimmed: "trimmed (json_quote v)"
  by (simp add: trimmed_def json_quote_def js_ws_def)

lemma literal_cases:
  assumes "js_trim v = ''true'' \<Longrightarrow> P (js_trim v)" "js_trim v = ''false'' \<Longrightarrow> P (js_trim v)"
    "numeric (js_trim v) \<Longrightarrow> P (js_trim v)" "P (json_quote (js_trim v))"
  shows "P (buildExprLiteral MATCH_EQ v)"
  using assms by (simp add: buildExprLiteral_def match_consts Let_def)

lemma literal_chars: "list_all (\<lambda>x. \<not> line_end x) (buildExprLiteral MATCH_EQ v)"
proof (rule literal_cases)
  show "list_all (\<lambda>x. \<not> line_end x) (json_quote (js_trim v))" by (rule quote_chars)
  assume "numeric (js_trim v)"
  then show "list_all (\<lambda>x. \<not> line_end x) (js_trim v)"
    using numeric_chars num_chars unfolding list_all_iff by blast
qed (simp_all add: line_end_def)

lemma literal_clean: "clean v \<Longrightarrow> clean (buildExprLiteral MATCH_EQ v)"
proof -
  assume "clean v"
  then have "clean (js_trim v)" using set_js_trim [of v] unfolding list_all_iff by blast
  then show ?thesis using quote_chars(2) by (intro literal_cases [where P = clean])
qed

lemma quote_not_numeric: "\<not> js_test NUMERIC_LITERAL_REGEX (json_quote v)"
  using numeric_chars [of "json_quote v"] num_chars [of "json_quote v" "CHR 0x22"]
  by (auto simp: numeric_def json_quote_def)

lemma literal_read:
  assumes "trimmed v"
  shows "parseExprLiteral (buildExprLiteral MATCH_EQ v) = Some (JStr v)" "buildExprLiteral MATCH_EQ v \<noteq> []"
proof -
  have v: "js_trim v = v" by (rule js_trim_id [OF assms])
  have q: "json_parse (json_quote v) = Some (JStr v)" using json_roundtrip [of "JStr v"] by simp
  have t: "js_trim (json_quote v) = json_quote v" by (rule js_trim_id [OF quote_trimmed])
  have n: "json_quote v \<noteq> ''true''" "json_quote v \<noteq> ''false''" by (simp_all add: json_quote_def)
  show "parseExprLiteral (buildExprLiteral MATCH_EQ v) = Some (JStr v)"
    using q t n quote_not_numeric [of v]
    by (simp add: parseExprLiteral_def buildExprLiteral_def Let_def v numeric_def match_consts)
  show "buildExprLiteral MATCH_EQ v \<noteq> []"
    using numeric_chars [of v] by (auto simp: buildExprLiteral_def Let_def v json_quote_def match_consts)
qed

lemma parse_equals:
  assumes "s \<in> {''header'', ''param''}" "safe_text t" "trimmed v"
  shows "tryParseRequestCondition (source_text s t @ '' == '' @ buildExprLiteral MATCH_EQ v) =
    found (ParamHeaderCondition s t MATCH_EQ v)"
proof -
  let ?l = "buildExprLiteral MATCH_EQ v"
  let ?e = "source_text s t @ '' == '' @ ?l"
  have l: "list_all (\<lambda>c. \<not> line_end c) (?l)" by (rule literal_chars)
  have alt: "RAlt (rx_lit ''param'') (rx_lit ''header'') = rx_alt (map rx_lit [''param'', ''header''])" by simp
  have f: "filter (js_startsWith (s @ ''('' @ json_quote t @ '')'' @ '' == '' @ ?l)) [''param'', ''header''] = [s]"
    using assms(1) by auto
  have last: "rx_match (RSeq (RGrp 3 (rx_plus (RCls (\<lambda>c. \<not> line_end c)))) REol) (p, ?l, cs) = [(prev_of p ?l, [], (3, ?l) # cs)]" for p cs
    using match_grp_plus_then [OF stops_eol l literal_read(2) [OF assms(3)], of "[]" 3 p cs] by simp
  have "js_match equals_rx ?e = Some (map_of [(3, ?l), (2, t), (1, s)])"
    unfolding equals_rx_def alt source_text_def append_assoc
    by (rule match_some) (simp only: match_grp_lits [OF f] match_quoted [OF assms(2)] rx_seq.simps match_lit_then last)
  moreover have "js_match header_exists_rx ?e = None"
  proof (cases "s = ''header''")
    case True
    have "\<not> js_startsWith ('' == '' @ ?l) ('' != '' @ [CHR 0x22, CHR 0x22])" by simp
    then show ?thesis unfolding header_exists_rx_def True by (intro match_none match_source_fails [OF assms(2)])
  next
    case False
    then show ?thesis using assms(1) by (intro header_fails) (auto simp: starts_source)
  qed
  moreover have "js_match header_has_rx ?e = None" using assms(1) by (intro has_fails) (auto simp: starts_source)
  moreover have "js_match param_exists_rx ?e = None \<and> js_match param_has_rx ?e = None \<and> js_match param_compare_rx ?e = None"
  proof (cases "s = ''param''")
    case True
    have "\<not> js_startsWith ('' == '' @ ?l) '' != nil''" by simp
    then show ?thesis unfolding True by (simp only: param_source_fails [OF assms(2)] simp_thms)
  next
    case False
    then have "\<not> js_startsWith ?e ''param''" using assms(1) starts_source(1) by blast
    then show ?thesis by (simp only: param_fails simp_thms)
  qed
  moreover have "tryParseTimeCondition ?e = None" using assms(1) by (intro time_fails_source) auto
  ultimately show ?thesis using literal_read(1) [OF assms(3)]
    by (simp only: tryParseRequestCondition_def option.case) (simp add: grp_def)
qed

subsection \<open>Conditions the parser covers\<close>

text \<open>
  The splitters count parentheses inside string literals too and split at \<open>&&\<close> there, a condition
  with a bar in it may be wrapped, and the patterns of names allow no escapes; the texts below avoid
  all of this. The guarded conditions on parameters are left out: they are never parsed back.
\<close>

definition plain_value :: "jsstr \<Rightarrow> bool" where
  "plain_value v \<longleftrightarrow> trimmed v \<and> clean v"

fun covered :: "RequestCondition \<Rightarrow> bool" where
  "covered (ParamHeaderCondition s p m v) \<longleftrightarrow>
     s \<in> {''header'', ''param''} \<and> safe_text p \<and> trimmed p \<and> plain_value v \<and>
     (m = MATCH_EXISTS \<and> v = [] \<or> m = MATCH_CONTAINS \<and> s = ''header'' \<or> m = MATCH_EQ)"
| "covered (TimeCondition f tz m v a b) \<longleftrightarrow>
     f \<in> set TIME_FUNCS \<and> safe_text tz \<and>
     (m = MATCH_RANGE \<and> v = [] \<and> numeric a \<and> numeric b \<or>
      m \<in> {MATCH_EQ, MATCH_GTE, MATCH_LT} \<and> numeric v \<and> a = [] \<and> b = [])"

fun cond_text :: "RequestCondition \<Rightarrow> jsstr" where
  "cond_text (ParamHeaderCondition s p m v) =
     (if m = MATCH_EXISTS then source_text s p @ (if s = ''header'' then '' != '' @ [CHR 0x22, CHR 0x22] else '' != nil'')
      else if m = MATCH_CONTAINS then ''has('' @ source_text s p @ '', '' @ json_quote v @ '')''
      else source_text s p @ '' == '' @ buildExprLiteral MATCH_EQ v)"
| "cond_text (TimeCondition f tz m v a b) =
     (if m = MATCH_RANGE then range_text f tz a b else compare_text f tz (time_op m) v)"

lemma known_mode_ph:
  "s \<in> {''header'', ''param''} \<Longrightarrow> m = MATCH_EXISTS \<or> m = MATCH_CONTAINS \<or> m = MATCH_EQ \<Longrightarrow> known_mode s (Some m) d = m"
  by (auto simp: known_mode_def getRequestRuleMatchOptions_def Let_def match_consts)

lemma normalize_ph:
  "s \<in> {''header'', ''param''} \<Longrightarrow> m = MATCH_EXISTS \<or> m = MATCH_CONTAINS \<or> m = MATCH_EQ \<Longrightarrow>
    normalizeCondition (Some (as_partial (ParamHeaderCondition s p m v))) = ParamHeaderCondition s p m v"
  using known_mode_ph [of s m MATCH_EQ] by (auto simp: normalizeCondition_def Let_def str_or_empty_def)

lemma normalize_time:
  "f \<in> set TIME_FUNCS \<Longrightarrow> tz \<noteq> [] \<Longrightarrow> m \<in> {MATCH_EQ, MATCH_GTE, MATCH_LT, MATCH_RANGE} \<Longrightarrow>
    normalizeCondition (Some (as_partial (TimeCondition f tz m v a b))) = TimeCondition f tz m v a b"
  by (auto simp: normalizeCondition_def Let_def str_or_empty_def str_or_def isTimeFunc_def known_mode_def
      getRequestRuleMatchOptions_def match_consts)

lemma build_ph:
  assumes "covered (ParamHeaderCondition s p m v)"
  shows "buildRequestConditionExpr (ParamHeaderCondition s p m v) = cond_text (ParamHeaderCondition s p m v)"
proof -
  have m: "m = MATCH_EXISTS \<or> m = MATCH_CONTAINS \<or> m = MATCH_EQ" and s: "s \<in> {''header'', ''param''}"
    and p: "p \<noteq> []" "js_trim p = p" and v: "js_trim v = v" and h: "m = MATCH_CONTAINS \<Longrightarrow> s = ''header''"
    using assms by (auto simp: safe_text_def plain_value_def js_trim_id match_consts)
  have src: "(if s = ''header'' then ''header('' else ''param('') @ json_quote p @ '')'' = source_text s p"
    using s by (auto simp: source_text_def)
  have lit: "buildExprLiteral MATCH_CONTAINS v = json_quote v" by (simp add: buildExprLiteral_def v)
  from m show ?thesis
  proof (elim disjE)
    assume "m = MATCH_EXISTS"
    then show ?thesis unfolding buildRequestConditionExpr_def RequestCondition.case normalize_ph [OF s m] Let_def
        RequestCondition.sel p src by (simp add: p)
  next
    assume "m = MATCH_CONTAINS"
    then show ?thesis unfolding buildRequestConditionExpr_def RequestCondition.case normalize_ph [OF s m] Let_def
        RequestCondition.sel p src using h by (simp add: p lit)
  next
    assume "m = MATCH_EQ"
    then show ?thesis unfolding buildRequestConditionExpr_def RequestCondition.case normalize_ph [OF s m] Let_def
        RequestCondition.sel p src by (simp add: p match_consts)
  qed
qed

lemma build_time:
  assumes "covered (TimeCondition f tz m v a b)"
  shows "buildRequestConditionExpr (TimeCondition f tz m v a b) = cond_text (TimeCondition f tz m v a b)"
proof -
  have "m \<in> {MATCH_EQ, MATCH_GTE, MATCH_LT, MATCH_RANGE}" "f \<in> set TIME_FUNCS" "tz \<noteq> []"
    using assms by (auto simp: safe_text_def)
  note n = normalize_time [OF this(2,3,1)]
  show ?thesis
  proof (cases "m = MATCH_RANGE")
    case True
    then have "numeric a" "numeric b" using assms by (auto simp: match_consts)
    then show ?thesis using True unfolding buildRequestConditionExpr_def RequestCondition.case buildTimeConditionExpr_def n
      by (simp add: js_trim_id numeric_trimmed range_text_def time_fn_def Let_def)
  next
    case False
    then have "numeric v" using assms by auto
    then show ?thesis using False unfolding buildRequestConditionExpr_def RequestCondition.case buildTimeConditionExpr_def n
      by (simp add: js_trim_id numeric_trimmed compare_text_def time_fn_def Let_def)
  qed
qed

lemma build_covered: "covered c \<Longrightarrow> buildRequestConditionExpr c = cond_text c"
  using build_ph build_time by (cases c) blast+

lemma time_op_mode: "m \<in> {MATCH_EQ, MATCH_GTE, MATCH_LT} \<Longrightarrow> time_op m \<in> set [''=='', ''>='', ''<''] \<and> time_mode_of_op (time_op m) = m"
  by (auto simp: time_op_def time_mode_of_op_def match_consts)

lemma parse_time_cond: "tryParseTimeCondition e = Some c \<Longrightarrow> tryParseRequestCondition e = found c"
  by (simp add: tryParseRequestCondition_def)

lemma parse_cond_text: "covered c \<Longrightarrow> tryParseRequestCondition (cond_text c) = found c"
proof (cases c)
  case (ParamHeaderCondition s p m v)
  assume "covered c"
  then show ?thesis using parse_header_exists [of p] parse_param_exists [of p] parse_header_contains [of p v] parse_equals [of s p v]
    by (auto simp: ParamHeaderCondition plain_value_def match_consts)
next
  case (TimeCondition f tz m v a b)
  assume "covered c"
  then show ?thesis
    using parse_time_cond [OF parse_time_range [of f tz a b]] parse_time_cond [OF parse_time_compare [of f tz "time_op m" v]]
      time_op_mode [of m]
    by (auto simp: TimeCondition match_consts)
qed

subsection \<open>The texts of covered conditions\<close>

definition bars :: "jsstr \<Rightarrow> bool" where
  "bars u \<longleftrightarrow> CHR ''&'' \<in> set u \<or> CHR ''|'' \<in> set u"

lemma bars_simps [simp]: "bars (u @ v) \<longleftrightarrow> bars u \<or> bars v" "bars (c # u) \<longleftrightarrow> c = CHR ''&'' \<or> c = CHR ''|'' \<or> bars u" "\<not> bars []"
  by (auto simp: bars_def)

lemma clean_bars: "clean u \<Longrightarrow> \<not> bars u"
  by (auto simp: bars_def clean_char_def list_all_iff)

lemma balanced_clean: "clean u \<Longrightarrow> balanced u"
  by (intro balanced_no_paren clean_no_paren)

lemma safe_clean: "safe_text t \<Longrightarrow> clean (json_quote t)"
  by (rule quote_chars) (auto simp: safe_text_def safe_char_def list_all_iff)

lemma numeric_clean: "numeric s \<Longrightarrow> clean s"
  using numeric_chars num_chars unfolding list_all_iff by blast

lemma source_balanced: "safe_text t \<Longrightarrow> clean s \<Longrightarrow> balanced (source_text s t) \<and> \<not> bars (source_text s t)"
  unfolding source_text_def
  by (rule conjI, rule balanced_append [OF balanced_clean balanced_paren [OF balanced_clean [OF safe_clean]]])
    (simp_all add: clean_bars safe_clean)

lemma time_func_chars: "f \<in> set TIME_FUNCS \<Longrightarrow> clean f \<and> f \<noteq> [] \<and> \<not> js_ws (hd f)"
  by (auto simp: TIME_FUNCS_def clean_char_def js_ws_def)

lemma time_fn_source: "time_fn f tz = source_text f tz"
  by (simp add: time_fn_def source_text_def)

lemma has_balanced: "balanced u \<Longrightarrow> balanced (''has('' @ u @ '')'')"
proof -
  assume "balanced u"
  then have "balanced (''has'' @ ''('' @ u @ '')'')"
    by (intro balanced_append [OF balanced_clean balanced_paren]) (simp_all add: clean_char_def)
  then show ?thesis by simp
qed

lemma ph_text_shape:
  assumes "covered (ParamHeaderCondition s p m v)"
  shows "balanced (cond_text (ParamHeaderCondition s p m v)) \<and> \<not> bars (cond_text (ParamHeaderCondition s p m v))"
proof -
  have s: "clean s" "safe_text p" "plain_value v" using assms by (auto simp: clean_char_def)
  note src = source_balanced [OF s(2,1)]
  have v: "clean (json_quote v)" "clean (buildExprLiteral MATCH_EQ v)"
    using s(3) quote_chars literal_clean by (auto simp: plain_value_def)
  have lits: "clean '' == ''" "clean '', ''" "clean ('' != '' @ [CHR 0x22, CHR 0x22])" "clean '' != nil''"
    by (simp_all add: clean_char_def)
  have "balanced (source_text s p @ w) \<and> \<not> bars (source_text s p @ w)" if "clean w" for w
    using src that balanced_clean [OF that] clean_bars [OF that] by auto
  moreover have "clean ('' == '' @ buildExprLiteral MATCH_EQ v)" "clean ('', '' @ json_quote v)"
    using lits v by (simp_all del: append.simps)
  moreover from this(2) calculation(1) have "balanced (''has('' @ (source_text s p @ '', '' @ json_quote v) @ '')'')"
    by (blast intro: has_balanced)
  ultimately show ?thesis using lits src by (simp add: clean_bars [OF v(1)])
qed

lemma time_text_shape:
  assumes "covered (TimeCondition f tz m v a b)"
  shows "balanced (cond_text (TimeCondition f tz m v a b)) \<and> CHR ''&'' \<notin> set (cond_text (TimeCondition f tz m v a b)) \<and>
    (m = MATCH_RANGE \<or> \<not> bars (cond_text (TimeCondition f tz m v a b)))"
proof -
  have f: "clean f" "safe_text tz" using assms time_func_chars by auto
  note src = source_balanced [OF f(2,1)]
  have lits: "balanced '' >= ''" "balanced '' || ''" "balanced '' < ''" "balanced '' ''" "balanced (time_op m)" "\<not> bars (time_op m)"
    by (auto intro!: balanced_no_paren simp: no_paren_def time_op_def)
  show ?thesis
  proof (cases "m = MATCH_RANGE")
    case True
    then have "numeric a" "numeric b" using assms by (auto simp: match_consts)
    note num = numeric_clean [OF this(1)] numeric_clean [OF this(2)]
    have "balanced (range_text f tz a b)" unfolding range_text_def time_fn_source
      by (intro balanced_append lits num [THEN balanced_clean] src [THEN conjunct1])
    moreover have "CHR ''&'' \<notin> set (range_text f tz a b)" unfolding range_text_def time_fn_source
      using src clean_bars [OF num(1)] clean_bars [OF num(2)] by (auto simp: bars_def)
    ultimately show ?thesis using True by simp
  next
    case False
    then have num: "clean v" using assms numeric_clean by auto
    have "balanced (compare_text f tz (time_op m) v)" unfolding compare_text_def time_fn_source
      by (intro balanced_append lits num [THEN balanced_clean] src [THEN conjunct1])
    moreover have "\<not> bars (compare_text f tz (time_op m) v)" unfolding compare_text_def time_fn_source
      using src clean_bars [OF num] lits(6) by simp
    ultimately show ?thesis using False by (simp add: bars_def)
  qed
qed

lemma trimmed_append: "u \<noteq> [] \<Longrightarrow> v \<noteq> [] \<Longrightarrow> \<not> js_ws (hd u) \<Longrightarrow> \<not> js_ws (last v) \<Longrightarrow> trimmed (u @ v)"
  by (simp add: trimmed_def)

lemma source_hd: "s \<noteq> [] \<Longrightarrow> source_text s t \<noteq> [] \<and> hd (source_text s t) = hd s"
  by (simp add: source_text_def)

lemma literal_last: "trimmed v \<Longrightarrow> \<not> js_ws (last (buildExprLiteral MATCH_EQ v))"
proof -
  assume "trimmed v"
  have "trimmed (buildExprLiteral MATCH_EQ v)"
    using js_trim_trimmed quote_trimmed by (intro literal_cases [where P = trimmed])
  with literal_read(2) [OF \<open>trimmed v\<close>] show ?thesis by (simp add: trimmed_def)
qed

lemma numeric_last: "numeric v \<Longrightarrow> v \<noteq> [] \<and> \<not> js_ws (last v)"
  using numeric_trimmed [of v] numeric_chars [of v] by (auto simp: trimmed_def)

lemma cond_text_trimmed: "covered c \<Longrightarrow> cond_text c \<noteq> [] \<and> trimmed (cond_text c)"
proof (cases c)
  case (ParamHeaderCondition s p m v)
  assume "covered c"
  then have s: "s \<noteq> []" "\<not> js_ws (hd s)" and v: "trimmed v" by (auto simp: ParamHeaderCondition js_ws_def plain_value_def)
  have src: "trimmed (source_text s p @ w)" if "w \<noteq> []" "\<not> js_ws (last w)" for w
    using source_hd [OF s(1), of p] s(2) that by (intro trimmed_append) auto
  have "trimmed (source_text s p @ '' == '' @ buildExprLiteral MATCH_EQ v)"
    using literal_last [OF v] literal_read(2) [OF v] by (intro src) auto
  moreover have "trimmed (''has('' @ source_text s p @ '', '' @ json_quote v @ '')'')" by (simp add: trimmed_def js_ws_def)
  ultimately show ?thesis using src [of "'' != '' @ [CHR 0x22, CHR 0x22]"] src [of "'' != nil''"] source_hd [OF s(1), of p]
    by (auto simp: ParamHeaderCondition js_ws_def)
next
  case (TimeCondition f tz m v a b)
  assume "covered c"
  then have f: "f \<noteq> []" "\<not> js_ws (hd f)" and n: "m = MATCH_RANGE \<and> numeric b \<or> m \<noteq> MATCH_RANGE \<and> numeric v"
    using time_func_chars [of f] by (auto simp: TimeCondition match_consts)
  have "trimmed (source_text f tz @ w @ x)" if "numeric x" for w x
    using source_hd [OF f(1), of tz] f(2) numeric_last [OF that] by (intro trimmed_append) auto
  from this [of b "'' >= '' @ a @ '' || '' @ source_text f tz @ '' < ''"] this [of v "'' '' @ time_op m @ '' ''"]
  show ?thesis using n source_hd [OF f(1), of tz]
    by (auto simp: TimeCondition range_text_def compare_text_def time_fn_source)
qed

lemma cond_text_shape: "covered c \<Longrightarrow> balanced (cond_text c) \<and> CHR ''&'' \<notin> set (cond_text c)"
proof (cases c)
  case (ParamHeaderCondition s p m v)
  assume "covered c"
  then show ?thesis using ph_text_shape [of s p m v] unfolding ParamHeaderCondition bars_def by blast
next
  case (TimeCondition f tz m v a b)
  assume "covered c"
  then show ?thesis using time_text_shape [of f tz m v a b] unfolding TimeCondition by blast
qed

lemma cond_text_part: "covered c \<Longrightarrow> top_part CHR ''&'' (cond_text c)"
  using cond_text_trimmed [of c] cond_text_shape [of c] quiet_no_sep [of "CHR ''&''" "cond_text c" "[]" 0]
  by (simp add: top_part_def balanced_def)

lemma no_bar_wrap: "\<not> bars u \<Longrightarrow> wrap_or u = u"
  by (auto simp: wrap_or_def js_includes_iff bars_def)

lemma wrap_part:
  assumes "covered c"
  shows "top_part CHR ''&'' (wrap_or (cond_text c)) \<and> balanced (wrap_or (cond_text c)) \<and>
    tryParseRequestCondition (wrap_or (cond_text c)) = found c"
proof (cases "\<exists>f tz v a b. c = TimeCondition f tz MATCH_RANGE v a b")
  case True
  then obtain f tz v a b where c: "c = TimeCondition f tz MATCH_RANGE v a b" by blast
  have cv: "f \<in> set TIME_FUNCS" "safe_text tz" "numeric a" "numeric b" "v = []"
    using assms unfolding c by (auto simp: match_consts)
  have "range_text f tz a b = (time_fn f tz @ '' >= '' @ a) @ '' || '' @ (time_fn f tz @ '' < '' @ b)"
    by (simp add: range_text_def)
  then have "js_includes (range_text f tz a b) '' || ''" unfolding js_includes_iff by metis
  then have w: "wrap_or (cond_text c) = ''('' @ range_text f tz a b @ '')''" by (simp add: c wrap_or_def)
  have bal: "balanced (range_text f tz a b)" using cond_text_shape [OF assms] by (simp add: c)
  show ?thesis unfolding w using parse_time_cond [OF parse_paren_time_range [OF cv(1-4)]]
      top_part_paren [OF bal] balanced_paren [OF bal] by (simp only: c cv(5) simp_thms)
next
  case False
  have "\<not> bars (cond_text c)"
  proof (cases c)
    case (ParamHeaderCondition s p m v)
    then show ?thesis using ph_text_shape [of s p m v] assms by blast
  next
    case (TimeCondition f tz m v a b)
    then show ?thesis using time_text_shape [of f tz m v a b] assms False by blast
  qed
  then show ?thesis unfolding no_bar_wrap [OF \<open>\<not> bars (cond_text c)\<close>]
    using cond_text_part [OF assms] cond_text_shape [OF assms] parse_cond_text [OF assms] by blast
qed

subsection \<open>Rule groups\<close>

text \<open>The factor pattern takes everything up to the last question mark as the condition.\<close>

lemma match_factor:
  assumes "u \<noteq> []" "numeric n"
  shows "js_match rule_factor_rx (''('' @ u @ '' ? '' @ n @ '' : 1)'') = Some (map_of [(2, n), (1, u)])"
proof -
  let ?t = "'' ? '' @ n @ '' : 1)''"
  let ?any = "\<lambda>c::char. True"
  let ?k = "RSeq (rx_lit '' ? '') (RSeq (num_rx 2) (RSeq (rx_lit '' : 1)'') REol))"
  let ?f = "\<lambda>i. rx_match ?k (prev_of (Some CHR ''('') (take (Suc i) (u @ ?t)), drop (Suc i) (u @ ?t), [(1, take (Suc i) (u @ ?t))])"
  obtain m where m: "length u = Suc m" using assms(1) by (cases u) auto
  have "CHR ''?'' \<notin> set n" using numeric_chars [OF assms(2)] num_chars by blast
  then have q: "CHR ''?'' \<notin> set (drop 2 ?t)" by simp
  have fails: "?f i = []" if "m < i" "i < length (u @ ?t)" for i
  proof (rule match_lit_fails)
    have i: "drop (Suc i) (u @ ?t) = drop (i - m) ?t" "0 < i - m" using that m by simp_all
    show "\<not> js_startsWith (drop (Suc i) (u @ ?t)) '' ? ''"
    proof
      assume "js_startsWith (drop (Suc i) (u @ ?t)) '' ? ''"
      then obtain x where "drop (i - m) ?t = '' ? '' @ x" unfolding i(1) js_startsWith_iff by blast
      then have "drop 1 (drop (i - m) ?t) = ''? '' @ x" by simp
      then have "CHR ''?'' \<in> set (drop (Suc (i - m)) ?t)" by simp
      moreover have "set (drop (Suc (i - m)) ?t) \<subseteq> set (drop 2 ?t)"
        using i(2) by (intro set_drop_subset_set_drop) simp
      ultimately show False using q by blast
    qed
  qed
  have "?f m = rx_match ?k (prev_of (Some CHR ''('') u, ?t, [(1, u)])" using m by simp
  also have "\<dots> = rx_match REol (prev_of (prev_of (prev_of (prev_of (Some CHR ''('') u) '' ? '') n) '' : 1)'', [], [(2, n), (1, u)])"
    using match_num_lit [OF assms(2) not_num_char(1), of 2 "'': 1)''" REol _ "[]"]
    by (simp only: match_lit_then append_Nil2)
  finally have hit: "?f m = [(prev_of (prev_of (prev_of (prev_of (Some CHR ''('') u) '' ? '') n) '' : 1)'', [], [(2, n), (1, u)])]"
    by simp
  have "rx_match (RSeq (RGrp 1 (rx_plus (RCls ?any))) ?k) (Some CHR ''('', (u @ ?t) @ [], []) = concat (map ?f (rev [0..<length (u @ ?t)]))"
    unfolding match_seq [of "RGrp _ _"]
    by (subst match_grp_plus) (simp_all only: map_map comp_def append_Nil2, simp_all add: list_all_iff)
  also have "\<dots> = ?f m @ concat (map ?f (rev [0..<m]))"
    by (rule concat_rev_first) (use fails m in auto)
  finally have "\<exists>xs. rx_match (RSeq (RGrp 1 (rx_plus (RCls ?any))) ?k) (Some CHR ''('', u @ ?t, []) =
      (prev_of (prev_of (prev_of (prev_of (Some CHR ''('') u) '' ? '') n) '' : 1)'', [], [(2, n), (1, u)]) # xs"
    unfolding hit by simp
  then obtain xs where "rx_match (RSeq (rx_lit ''('') (RSeq (RGrp 1 (rx_plus (RCls ?any))) ?k)) (None, ''('' @ u @ ?t, []) =
      (prev_of (prev_of (prev_of (prev_of (Some CHR ''('') u) '' ? '') n) '' : 1)'', [], [(2, n), (1, u)]) # xs"
    unfolding match_lit_then by (auto simp: prev_of_def)
  then show ?thesis unfolding rule_factor_rx_def by (rule match_some)
qed

lemma parse_all_conditions:
  assumes "\<forall>c \<in> set cs. tryParseRequestCondition (t c) = found c \<and> trimmed (t c)"
  shows "parse_conditions (map t cs) = Inr (Some cs)"
  using assms by (induction cs) (simp_all add: js_trim_id found_def)

definition covered_group :: "RequestRuleGroup \<Rightarrow> bool" where
  "covered_group g \<longleftrightarrow> g_conditions g \<noteq> [] \<and> list_all covered (g_conditions g) \<and> numeric (g_multiplier g)"

definition group_body :: "RequestRuleGroup \<Rightarrow> jsstr" where
  "group_body g = (case g_conditions g of [c] \<Rightarrow> cond_text c
     | cs \<Rightarrow> js_join '' && '' (map (\<lambda>c. wrap_or (cond_text c)) cs))"

lemma group_body_parsed:
  assumes "covered_group g"
  shows "parse_conditions (splitTopLevelAnd (group_body g)) = Inr (Some (g_conditions g)) \<and> balanced (group_body g) \<and> group_body g \<noteq> []"
proof (cases "\<exists>c. g_conditions g = [c]")
  case True
  then obtain c where c: "g_conditions g = [c]" by blast
  then have cov: "covered c" using assms by (simp add: covered_group_def)
  have "splitTopLevelAnd (js_join '' && '' [cond_text c]) = [cond_text c]"
    by (rule split_and_join) (simp_all add: cond_text_part [OF cov])
  then show ?thesis using parse_cond_text [OF cov] cond_text_trimmed [OF cov] cond_text_shape [OF cov]
    by (simp add: group_body_def c js_trim_id found_def)
next
  case False
  let ?cs = "g_conditions g" let ?w = "\<lambda>c. wrap_or (cond_text c)"
  have body: "group_body g = js_join '' && '' (map ?w ?cs)"
    using False by (auto simp: group_body_def split: list.splits)
  have cov: "\<forall>c \<in> set ?cs. covered c" and ne: "?cs \<noteq> []" using assms by (auto simp: covered_group_def list_all_iff)
  then have parts: "\<forall>p \<in> set (map ?w ?cs). top_part CHR ''&'' p" "\<forall>p \<in> set (map ?w ?cs). balanced p"
    using wrap_part by auto
  have "splitTopLevelAnd (group_body g) = map ?w ?cs" unfolding body using ne parts(1) by (intro split_and_join) auto
  moreover have "parse_conditions (map ?w ?cs) = Inr (Some ?cs)"
    using cov wrap_part by (intro parse_all_conditions) (auto simp: top_part_def)
  moreover have "balanced (group_body g)" unfolding body by (rule balanced_join [OF _ parts(2)]) (simp add: no_paren_def)
  moreover have "group_body g \<noteq> []"
    using ne cov wrap_part [of "hd ?cs"] unfolding body top_part_def by (cases ?cs) (auto simp: js_join_hd)
  ultimately show ?thesis by simp
qed

subsection \<open>Whole rule texts\<close>

definition factor_text :: "jsstr \<Rightarrow> jsstr \<Rightarrow> jsstr" where
  "factor_text u n = ''('' @ (u @ '' ? '' @ n @ '' : 1'') @ '')''"

lemma factor_text_part:
  assumes "balanced u" "numeric n"
  shows "top_part CHR ''*'' (factor_text u n)" "balanced (factor_text u n)"
proof -
  have "clean '' ? ''" "clean '' : 1''" by (simp_all add: clean_char_def)
  then have "balanced (u @ '' ? '' @ n @ '' : 1'')"
    using assms numeric_clean by (intro balanced_append) (blast intro: balanced_clean)+
  then show "top_part CHR ''*'' (factor_text u n)" "balanced (factor_text u n)"
    unfolding factor_text_def by (rule top_part_paren, rule balanced_paren)
qed

lemma parse_factor_text:
  assumes "u \<noteq> []" "numeric n"
  shows "tryParseRuleGroupFactor (factor_text u n) =
    (case parse_conditions (splitTopLevelAnd u) of Inl e \<Rightarrow> Inl e | Inr None \<Rightarrow> Inr None
     | Inr (Some cs) \<Rightarrow> if cs = [] then Inr None else Inr (Some \<lparr>g_conditions = cs, g_multiplier = n\<rparr>))"
proof -
  have "factor_text u n = ''('' @ u @ '' ? '' @ n @ '' : 1)''" by (simp add: factor_text_def)
  then show ?thesis using match_factor [OF assms]
    by (simp add: tryParseRuleGroupFactor_def grp_def split: sum.split option.split)
qed

lemma parse_factor_group: "covered_group g \<Longrightarrow> tryParseRuleGroupFactor (factor_text (group_body g) (g_multiplier g)) = Inr (Some g)"
  using group_body_parsed [of g] parse_factor_text [of "group_body g" "g_multiplier g"]
  by (simp add: covered_group_def)

lemma build_factor:
  assumes "covered_group g"
  shows "buildRuleGroupFactor g = factor_text (group_body g) (g_multiplier g)"
proof -
  have n: "numeric (g_multiplier g)" "js_trim (g_multiplier g) = g_multiplier g"
    using assms numeric_trimmed js_trim_id by (auto simp: covered_group_def)
  have cov: "\<forall>c \<in> set (g_conditions g). covered c" using assms by (simp add: covered_group_def list_all_iff)
  have texts: "map buildRequestConditionExpr (g_conditions g) = map cond_text (g_conditions g)"
    using cov build_covered by simp
  have flt: "filter (\<lambda>e. e \<noteq> []) (map cond_text (g_conditions g)) = map cond_text (g_conditions g)"
    using cov cond_text_trimmed by (auto simp: filter_id_conv)
  have "group_body g = (if length (g_conditions g) = 1 then map cond_text (g_conditions g) ! 0
      else js_join '' && '' (map wrap_or (map cond_text (g_conditions g))))"
    by (cases "g_conditions g" rule: remdups_adj.cases) (auto simp: group_body_def comp_def)
  moreover have "g_conditions g \<noteq> []" using assms by (simp add: covered_group_def)
  ultimately show ?thesis unfolding buildRuleGroupFactor_def n(2) texts flt Let_def
    using n(1) by (simp add: factor_text_def)
qed

lemma build_rules:
  assumes "list_all covered_group gs"
  shows "buildRequestRuleExpr gs = js_join '' * '' (map (\<lambda>g. factor_text (group_body g) (g_multiplier g)) gs)"
proof -
  have "map buildRuleGroupFactor gs = map (\<lambda>g. factor_text (group_body g) (g_multiplier g)) gs"
    using assms build_factor by (auto simp: list_all_iff)
  moreover have "filter (\<lambda>f. f \<noteq> []) (map (\<lambda>g. factor_text (group_body g) (g_multiplier g)) gs) = map (\<lambda>g. factor_text (group_body g) (g_multiplier g)) gs"
    by (simp add: filter_id_conv factor_text_def)
  ultimately show ?thesis unfolding buildRequestRuleExpr_def by (simp only:)
qed

lemma group_factor_part:
  "covered_group g \<Longrightarrow> top_part CHR ''*'' (factor_text (group_body g) (g_multiplier g))"
  using group_body_parsed [of g] factor_text_part [of "group_body g" "g_multiplier g"] by (simp add: covered_group_def)

lemma parse_factor_list:
  "list_all covered_group gs \<Longrightarrow> parse_factors (map (\<lambda>g. factor_text (group_body g) (g_multiplier g)) gs) = Inr (Some gs)"
  by (induction gs) (simp_all add: parse_factor_group)

lemma join_top_trimmed:
  assumes "ps \<noteq> []" "\<forall>p \<in> set ps. top_part q p"
  shows "js_join sep ps \<noteq> [] \<and> trimmed (js_join sep ps)"
proof -
  have "js_join sep ps \<noteq> [] \<and> hd (js_join sep ps) = hd (hd ps)"
    using assms by (cases ps) (auto simp: js_join_hd top_part_def)
  moreover have "last (js_join sep ps) = last (last ps)" using assms
  proof (induction sep ps rule: js_join.induct)
    case (3 sep x y ys)
    then have "js_join sep (y # ys) \<noteq> []" using js_join_hd [of y sep ys] by (auto simp: top_part_def)
    with 3 show ?case by auto
  qed auto
  moreover have "hd ps \<in> set ps" "last ps \<in> set ps" using assms(1) by auto
  ultimately show ?thesis using assms(2) by (auto simp: top_part_def trimmed_def)
qed

subsection \<open>Unwrapping parentheses\<close>

lemma outer_scan_above: "above 1 d u \<Longrightarrow> w \<noteq> [] \<Longrightarrow> outer_scan d (u @ w) = outer_scan (depth d u) w"
  by (induction u arbitrary: d) (auto simp: Let_def)

lemma full_outer_paren: "balanced u \<Longrightarrow> hasFullOuterParens (''('' @ u @ '')'')"
  using outer_scan_above [of 1 u "'')''"]
  by (auto simp: hasFullOuterParens_def balanced_iff depth_step_def)

lemma unwrap_paren: "balanced u \<Longrightarrow> unwrap_loop (''('' @ u @ '')'') = unwrap_loop (js_trim u)"
  using full_outer_paren [of u] by (subst unwrap_loop.simps) (simp add: slice_inner_def)

lemma unwrap_loop_result: "trimmed e \<Longrightarrow> \<not> hasFullOuterParens (unwrap_loop e) \<and> trimmed (unwrap_loop e)"
proof (induction e rule: unwrap_loop.induct)
  case (1 e)
  show ?case
  proof (cases "hasFullOuterParens e")
    case True
    then show ?thesis using 1 js_trim_trimmed by (subst (1 2) unwrap_loop.simps) simp
  qed (use 1 in \<open>simp add: unwrap_loop.simps\<close>)
qed

text \<open>C38. Unwrapping ends for every expression: what is left has no parentheses around the whole and no
  outer blanks, unwrapping it again changes nothing, and parentheses put around an expression with
  matching parentheses are removed again.\<close>

theorem unwrap_outer_parens_normal:
  assumes "balanced u"
  shows "\<not> hasFullOuterParens (unwrapOuterParens e) \<and> trimmed (unwrapOuterParens e) \<and>
    unwrapOuterParens (unwrapOuterParens e) = unwrapOuterParens e \<and>
    unwrapOuterParens (''('' @ u @ '')'') = unwrapOuterParens u"
proof -
  have r: "\<not> hasFullOuterParens (unwrapOuterParens e) \<and> trimmed (unwrapOuterParens e)"
    unfolding unwrapOuterParens_def using unwrap_loop_result js_trim_trimmed by blast
  then have "unwrapOuterParens (unwrapOuterParens e) = unwrapOuterParens e"
    unfolding unwrapOuterParens_def [of "unwrapOuterParens e"] using js_trim_id by (simp add: unwrap_loop.simps)
  moreover have "js_trim (''('' @ u @ '')'') = ''('' @ u @ '')''"
    by (rule js_trim_id) (simp add: trimmed_def js_ws_def)
  ultimately show ?thesis using r unwrap_paren [OF assms] by (simp add: unwrapOuterParens_def)
qed

theorem unwrap_outer_parens_normal_witness:
  "unwrapOuterParens (''('' @ '' (p * 2) '' @ '')'') = unwrapOuterParens '' (p * 2) '' \<and>
   \<not> hasFullOuterParens (unwrapOuterParens ''((c))'')"
  using unwrap_outer_parens_normal [of "'' (p * 2) ''" "''((c))''"] by (simp add: balanced_def depth_step_def)

subsection \<open>The round trips\<close>

lemma rules_parsed:
  assumes "list_all covered_group gs"
  shows "tryParseRequestRuleExpr (buildRequestRuleExpr gs) = Inr (Some gs)"
proof (cases "gs = []")
  case False
  let ?ps = "map (\<lambda>g. factor_text (group_body g) (g_multiplier g)) gs"
  have parts: "?ps \<noteq> []" "\<forall>p \<in> set ?ps. top_part CHR ''*'' p"
    using False assms group_factor_part by (auto simp: list_all_iff)
  have "js_trim (js_join '' * '' ?ps) = js_join '' * '' ?ps" "js_join '' * '' ?ps \<noteq> []"
    using join_top_trimmed [OF parts] js_trim_id by auto
  then show ?thesis unfolding build_rules [OF assms] tryParseRequestRuleExpr_def
    using split_multiply_join [OF parts] parse_factor_list [OF assms] by simp
qed (simp add: buildRequestRuleExpr_def tryParseRequestRuleExpr_def)

text \<open>C33. The rule text built from groups of conditions the parser covers is parsed into exactly these
  groups: the time, header and parameter conditions in their order with their values, and the
  multipliers.\<close>

theorem request_rules_roundtrip:
  assumes "list_all covered_group gs"
  shows "tryParseRequestRuleExpr (buildRequestRuleExpr gs) = Inr (Some gs)"
  by (rule rules_parsed [OF assms])

definition sample_group :: RequestRuleGroup where
  "sample_group = \<lparr>g_conditions = [TimeCondition ''hour'' ''UTC'' MATCH_RANGE [] ''22'' ''6'',
     ParamHeaderCondition ''header'' ''x-tier'' MATCH_CONTAINS (''a ? b'' @ [CHR 0x22])], g_multiplier = ''0.5''\<rparr>"

lemma sample_covered: "covered_group sample_group"
proof -
  have "numeric ''22''" "numeric ''6''" "numeric ''0.5''" by code_simp+
  then show ?thesis
    by (simp add: covered_group_def sample_group_def TIME_FUNCS_def safe_text_def safe_char_def clean_char_def
        is_ctrl_def plain_value_def trimmed_def js_ws_def match_consts)
qed

theorem request_rules_roundtrip_witness:
  "tryParseRequestRuleExpr (buildRequestRuleExpr [sample_group, sample_group]) = Inr (Some [sample_group, sample_group])"
  by (rule request_rules_roundtrip) (simp add: sample_covered)

lemma sort_rule_parts:
  assumes "list_all covered_group gs"
  shows "sort_parts (map (\<lambda>g. factor_text (group_body g) (g_multiplier g)) gs) =
    Inr (map (\<lambda>g. factor_text (group_body g) (g_multiplier g)) gs, [])"
  using assms
proof (induction gs)
  case (Cons g gs)
  have "tryParseRequestRuleExpr (buildRequestRuleExpr [g]) = Inr (Some [g])"
    by (rule rules_parsed) (use Cons in simp)
  moreover have "buildRequestRuleExpr [g] = factor_text (group_body g) (g_multiplier g)"
    using build_rules [of "[g]"] Cons by simp
  ultimately show ?case using Cons by simp
qed simp

lemma split_result_known:
  assumes "js_trim e = e" "e \<noteq> []" "splitTopLevelMultiply e = ps" "length ps > 1"
    "sort_parts ps = Inr (rs, [b])" "rs \<noteq> []" "unwrapOuterParens b = u" "js_join '' * '' rs = r"
  shows "splitBillingExprAndRequestRules e = Inr \<lparr>billingExpr = u, requestRuleExpr = r\<rparr>"
  using assms by (simp add: splitBillingExprAndRequestRules_def)

lemma combine_split:
  assumes "base \<noteq> []" "trimmed base" "balanced base"
    "tryParseRuleGroupFactor (''('' @ base @ '')'') = Inr None"
    "list_all covered_group gs" "gs \<noteq> []"
  shows "splitBillingExprAndRequestRules (combineBillingExpr base (buildRequestRuleExpr gs)) =
    Inr \<lparr>billingExpr = unwrapOuterParens base, requestRuleExpr = buildRequestRuleExpr gs\<rparr>"
proof -
  let ?fs = "map (\<lambda>g. factor_text (group_body g) (g_multiplier g)) gs"
  let ?b = "''('' @ base @ '')''"
  have rules: "buildRequestRuleExpr gs = js_join '' * '' ?fs" by (rule build_rules [OF assms(5)])
  have fs: "?fs \<noteq> []" "\<forall>p \<in> set ?fs. top_part CHR ''*'' p"
    using assms(5,6) group_factor_part by (auto simp: list_all_iff)
  have b: "top_part CHR ''*'' ?b" by (rule top_part_paren [OF assms(3)])
  then have parts: "?b # ?fs \<noteq> []" "\<forall>p \<in> set (?b # ?fs). top_part CHR ''*'' p" using fs(2) by auto
  have r: "js_trim (js_join '' * '' ?fs) = js_join '' * '' ?fs" "js_join '' * '' ?fs \<noteq> []"
    using join_top_trimmed [OF fs] js_trim_id by auto
  have "js_join '' * '' (?b # ?fs) = ?b @ '' * '' @ js_join '' * '' ?fs" by (rule js_join_Cons [OF fs(1)])
  then have comb: "combineBillingExpr base (buildRequestRuleExpr gs) = js_join '' * '' (?b # ?fs)"
    unfolding rules combineBillingExpr_def using r assms(1) js_trim_id [OF assms(2)] by (simp add: Let_def)
  have e: "js_trim (js_join '' * '' (?b # ?fs)) = js_join '' * '' (?b # ?fs)" "js_join '' * '' (?b # ?fs) \<noteq> []"
    using join_top_trimmed [OF parts] js_trim_id by blast+
  have "splitTopLevelMultiply (js_join '' * '' [?b]) = [?b]" by (rule split_multiply_join) (use b in auto)
  then have base_part: "tryParseRequestRuleExpr ?b = Inr None"
    using b assms(4) js_trim_id [of ?b] by (simp add: tryParseRequestRuleExpr_def top_part_def Let_def)
  have sorted: "sort_parts (?b # ?fs) = Inr (?fs, [?b])"
    unfolding sort_parts.simps base_part sort_rule_parts [OF assms(5)] by simp
  have unwrap: "unwrapOuterParens ?b = unwrapOuterParens base"
    unfolding unwrapOuterParens_def using b js_trim_id [of ?b] unwrap_paren [OF assms(3)] by (simp add: top_part_def)
  have "length (?b # ?fs) > 1" using assms(6) by simp
  from split_result_known [OF e split_multiply_join [OF parts] this sorted fs(1) unwrap rules [symmetric]]
  show ?thesis unfolding comb .
qed

text \<open>Combining a base expression with a rule text and splitting the result gives back the rule text and
  the base expression, without parentheses around its whole. The base has matching parentheses, is
  no rule factor itself, and the rules are covered.\<close>

theorem combine_split_roundtrip:
  assumes "base \<noteq> []" "trimmed base" "balanced base"
    "tryParseRuleGroupFactor (''('' @ base @ '')'') = Inr None"
    "list_all covered_group gs" "gs \<noteq> []"
  shows "splitBillingExprAndRequestRules (combineBillingExpr base (buildRequestRuleExpr gs)) =
    Inr \<lparr>billingExpr = unwrapOuterParens base, requestRuleExpr = buildRequestRuleExpr gs\<rparr>"
  by (rule combine_split [OF assms])

theorem combine_split_roundtrip_witness:
  "splitBillingExprAndRequestRules (combineBillingExpr ''p * 2 + c * (1 + 1)'' (buildRequestRuleExpr [sample_group])) =
    Inr \<lparr>billingExpr = unwrapOuterParens ''p * 2 + c * (1 + 1)'', requestRuleExpr = buildRequestRuleExpr [sample_group]\<rparr>"
proof (rule combine_split_roundtrip)
  show "tryParseRuleGroupFactor (''('' @ ''p * 2 + c * (1 + 1)'' @ '')'') = Inr None" by code_simp
qed (simp_all add: balanced_def depth_step_def trimmed_def js_ws_def sample_covered)

subsection \<open>What is not read back\<close>

lemma guard_split:
  assumes "safe_text p" "top_part CHR ''&'' x" "tryParseRequestCondition x = Inr None"
  shows "parse_conditions (splitTopLevelAnd (source_text ''param'' p @ '' != nil && '' @ x)) = Inr None"
proof -
  let ?e = "source_text ''param'' p @ '' != nil''"
  have "\<not> bars ?e \<and> balanced ?e"
    using source_balanced [OF assms(1), of "''param''"] balanced_clean [of "'' != nil''"] by (auto simp: clean_char_def)
  moreover have tr: "?e \<noteq> [] \<and> trimmed ?e" by (simp add: source_text_def trimmed_def js_ws_def)
  ultimately have "top_part CHR ''&'' ?e"
    using quiet_no_sep [of "CHR ''&''" ?e "[]" 0] by (simp add: top_part_def balanced_def bars_def)
  then have "splitTopLevelAnd (js_join '' && '' [?e, x]) = [?e, x]"
    by (intro split_and_join) (auto simp: assms(2))
  moreover have "parse_conditions [?e, x] = Inr None"
    using parse_param_exists [OF assms(1)] tr js_trim_id [of ?e] js_trim_id [of x] assms(2,3)
    by (simp add: found_def top_part_def)
  ultimately show ?thesis by simp
qed

lemma equals_fails_word:
  "\<not> js_startsWith s ''param'' \<Longrightarrow> \<not> js_startsWith s ''header'' \<Longrightarrow> js_match equals_rx s = None"
proof -
  assume a: "\<not> js_startsWith s ''param''" "\<not> js_startsWith s ''header''"
  have alt: "RAlt (rx_lit ''param'') (rx_lit ''header'') = rx_alt (map rx_lit [''param'', ''header''])" by simp
  show ?thesis unfolding equals_rx_def alt by (intro match_none match_grp_lits_fails) (simp add: a)
qed

lemma equals_fails_op:
  assumes "safe_text t" "\<not> js_startsWith v '' == ''"
  shows "js_match equals_rx (source_text ''param'' t @ v) = None"
proof -
  have alt: "RAlt (rx_lit ''param'') (rx_lit ''header'') = rx_alt (map rx_lit [''param'', ''header''])" by simp
  have f: "filter (js_startsWith (''param'' @ ''('' @ json_quote t @ '')'' @ v)) [''param'', ''header''] = [''param'']" by simp
  show ?thesis unfolding equals_rx_def alt source_text_def append_assoc
    by (rule match_none) (simp only: match_grp_lits [OF f] match_quoted [OF assms(1)] rx_seq.simps match_lit_fails [OF assms(2)])
qed

lemma has_param_unknown: "tryParseRequestCondition (''has('' @ source_text ''param'' p @ w) = Inr None"
proof -
  let ?s = "''has('' @ source_text ''param'' p @ w"
  have "tryParseTimeCondition ?s = None" by (rule time_fails) (simp_all add: TIME_FUNCS_def)
  moreover have "js_match header_has_rx ?s = None" by (rule has_fails) (simp add: source_text_def)
  ultimately show ?thesis
    by (simp add: tryParseRequestCondition_def header_fails param_fails equals_fails_word)
qed

lemma compare_param_unknown:
  assumes "safe_text p" "\<not> js_startsWith w '' != nil''" "\<not> js_startsWith w '' == ''"
  shows "tryParseRequestCondition (source_text ''param'' p @ w) = Inr None"
  using param_source_fails [OF assms(1,2)] equals_fails_op [OF assms(1,3)]
  by (simp add: tryParseRequestCondition_def time_fails_source header_fails has_fails starts_source)

definition guarded :: "jsstr \<Rightarrow> jsstr \<Rightarrow> bool" where
  "guarded m v \<longleftrightarrow> m = MATCH_CONTAINS \<and> plain_value v \<or>
     m \<in> {MATCH_GT, MATCH_GTE, MATCH_LT, MATCH_LTE} \<and> numeric v"

definition guarded_text :: "jsstr \<Rightarrow> jsstr \<Rightarrow> jsstr \<Rightarrow> jsstr" where
  "guarded_text p m v = (if m = MATCH_CONTAINS then ''has('' @ source_text ''param'' p @ '', '' @ json_quote v @ '')''
     else source_text ''param'' p @ '' '' @ compare_op m @ '' '' @ v)"

lemma guarded_build:
  assumes "safe_text p" "trimmed p" "guarded m v"
  shows "buildRequestConditionExpr (ParamHeaderCondition ''param'' p m v) = source_text ''param'' p @ '' != nil && '' @ guarded_text p m v"
proof -
  have p: "p \<noteq> []" "js_trim p = p" using assms js_trim_id by (auto simp: safe_text_def)
  have v: "js_trim v = v" using assms(3) numeric_trimmed js_trim_id by (auto simp: guarded_def plain_value_def)
  have n: "normalizeCondition (Some (as_partial (ParamHeaderCondition ''param'' p m v))) = ParamHeaderCondition ''param'' p m v"
    using assms(3) by (auto simp: guarded_def normalizeCondition_def Let_def str_or_empty_def known_mode_def getRequestRuleMatchOptions_def match_consts)
  have lit: "buildExprLiteral MATCH_CONTAINS v = json_quote v" by (simp add: buildExprLiteral_def v)
  have src: "(if ''param'' = ''header'' then ''header('' else ''param('') @ json_quote p @ '')'' = source_text ''param'' p"
    by (simp add: source_text_def)
  show ?thesis unfolding buildRequestConditionExpr_def RequestCondition.case n Let_def RequestCondition.sel p src guarded_text_def v
    using assms(3) lit p(1) by (auto simp: guarded_def match_consts)
qed

lemma guarded_part:
  assumes "safe_text p" "guarded m v"
  shows "top_part CHR ''&'' (guarded_text p m v)" "tryParseRequestCondition (guarded_text p m v) = Inr None"
    "balanced (guarded_text p m v)"
proof -
  note src = source_balanced [OF assms(1), of "''param''"]
  have c: "clean ''param''" by (simp add: clean_char_def)
  have op: "clean (compare_op m)" by (simp add: compare_op_def clean_char_def)
  have shape: "balanced (guarded_text p m v) \<and> \<not> bars (guarded_text p m v)"
  proof (cases "m = MATCH_CONTAINS")
    case True
    then have "clean (json_quote v)" using assms(2) by (intro quote_chars) (auto simp: guarded_def plain_value_def match_consts)
    then have w: "clean ('', '' @ json_quote v)" by (simp add: clean_char_def)
    have "balanced (''has('' @ (source_text ''param'' p @ '', '' @ json_quote v) @ '')'')"
      using src [OF c] by (intro has_balanced balanced_append [OF _ balanced_clean [OF w]]) simp
    then show ?thesis using True src [OF c] clean_bars [OF w] by (simp add: guarded_text_def)
  next
    case False
    then have "clean v" using assms(2) numeric_clean by (auto simp: guarded_def)
    then have w: "clean ('' '' @ compare_op m @ '' '' @ v)" using op by (simp add: clean_char_def)
    show ?thesis using False src [OF c] balanced_append [OF _ balanced_clean [OF w]] clean_bars [OF w]
      by (simp add: guarded_text_def)
  qed
  then show "balanced (guarded_text p m v)" by blast
  have "guarded_text p m v \<noteq> [] \<and> trimmed (guarded_text p m v)"
  proof (cases "m = MATCH_CONTAINS")
    case False
    then have "v \<noteq> [] \<and> \<not> js_ws (last v)" using assms(2) numeric_last by (auto simp: guarded_def)
    then show ?thesis using False by (simp add: guarded_text_def source_text_def trimmed_def js_ws_def)
  qed (simp add: guarded_text_def trimmed_def js_ws_def)
  then show "top_part CHR ''&'' (guarded_text p m v)"
    using shape quiet_no_sep [of "CHR ''&''" "guarded_text p m v" "[]" 0] by (simp add: top_part_def balanced_def bars_def)
  have "\<not> js_startsWith ('' '' @ compare_op m @ '' '' @ v) '' != nil''" "\<not> js_startsWith ('' '' @ compare_op m @ '' '' @ v) '' == ''"
    by (simp_all add: compare_op_def)
  then show "tryParseRequestCondition (guarded_text p m v) = Inr None"
    unfolding guarded_text_def using compare_param_unknown [OF assms(1)] has_param_unknown by presburger
qed

text \<open>A condition on a parameter that carries a guard, \<open>contains\<close> or a comparison, is written into the
  rule text and never read back: the guard \<open>param(...) != nil &&\<close> is split off as a condition of its own and
  what remains of the condition is not recognised.\<close>

theorem guarded_param_not_read_back:
  assumes "safe_text p" "trimmed p" "guarded m v" "numeric n"
  shows "buildRequestRuleExpr [\<lparr>g_conditions = [ParamHeaderCondition ''param'' p m v], g_multiplier = n\<rparr>] \<noteq> [] \<and>
    tryParseRequestRuleExpr (buildRequestRuleExpr [\<lparr>g_conditions = [ParamHeaderCondition ''param'' p m v], g_multiplier = n\<rparr>]) = Inr None"
proof -
  let ?u = "source_text ''param'' p @ '' != nil && '' @ guarded_text p m v"
  have u: "?u \<noteq> []" by simp
  have bal: "balanced ?u"
    using source_balanced [OF assms(1), of "''param''"] guarded_part(3) [OF assms(1,3)]
    by (intro balanced_append balanced_no_paren [of "'' != nil && ''"]) (auto simp: clean_char_def no_paren_def)
  have f: "buildRuleGroupFactor \<lparr>g_conditions = [ParamHeaderCondition ''param'' p m v], g_multiplier = n\<rparr> = factor_text ?u n"
    using assms(4) js_trim_id [OF numeric_trimmed [OF assms(4)]]
    by (simp add: buildRuleGroupFactor_def guarded_build [OF assms(1-3)] factor_text_def)
  then have b: "buildRequestRuleExpr [\<lparr>g_conditions = [ParamHeaderCondition ''param'' p m v], g_multiplier = n\<rparr>] = factor_text ?u n"
    by (simp add: buildRequestRuleExpr_def factor_text_def)
  have part: "top_part CHR ''*'' (factor_text ?u n)" by (rule factor_text_part [OF bal assms(4)])
  then have "splitTopLevelMultiply (js_join '' * '' [factor_text ?u n]) = [factor_text ?u n]"
    by (intro split_multiply_join) auto
  moreover have "tryParseRuleGroupFactor (factor_text ?u n) = Inr None"
    unfolding parse_factor_text [OF u assms(4)] guard_split [OF assms(1) guarded_part(1,2) [OF assms(1,3)]] by simp
  ultimately have "tryParseRequestRuleExpr (factor_text ?u n) = Inr None"
    using part js_trim_id [of "factor_text ?u n"] by (simp add: tryParseRequestRuleExpr_def top_part_def Let_def)
  then show ?thesis unfolding b using part by (simp add: top_part_def)
qed

theorem guarded_param_not_read_back_witness:
  "tryParseRequestRuleExpr (buildRequestRuleExpr [\<lparr>g_conditions = [ParamHeaderCondition ''param'' ''n'' MATCH_GT ''5''], g_multiplier = ''2''\<rparr>]) = Inr None"
proof -
  have n: "numeric ''5''" "numeric ''2''" by code_simp+
  show ?thesis
    using guarded_param_not_read_back [of "''n''" MATCH_GT "''5''" "''2''"] n
    by (simp add: safe_text_def safe_char_def clean_char_def is_ctrl_def trimmed_def js_ws_def guarded_def)
qed

text \<open>A rule factor that tests whether a header contains a text throws exactly when the text, which the pattern
  accepts with any escape, is no JSON string; otherwise it is parsed.\<close>

theorem bad_escape_throws:
  assumes "safe_text t" "str_body e" "clean e" "numeric n"
  shows "tryParseRequestRuleExpr (''(has('' @ source_text ''header'' t @ '', '' @ (CHR 0x22 # e @ [CHR 0x22]) @ '') ? '' @ n @ '' : 1)'') =
    (case json_parse (CHR 0x22 # e @ [CHR 0x22]) of None \<Rightarrow> Inl SyntaxError
     | Some v \<Rightarrow> Inr (Some [\<lparr>g_conditions = [ParamHeaderCondition ''header'' t MATCH_CONTAINS (js_String v)], g_multiplier = n\<rparr>]))"
proof -
  let ?q = "CHR 0x22 # e @ [CHR 0x22]"
  let ?u = "''has('' @ (source_text ''header'' t @ '', '' @ ?q) @ '')''"
  have q: "clean ('', '' @ ?q)" using assms(3) by (simp add: clean_char_def)
  have src: "balanced (source_text ''header'' t) \<and> \<not> bars (source_text ''header'' t)"
    by (rule source_balanced [OF assms(1)]) (simp add: clean_char_def)
  have bal: "balanced ?u" using src by (intro has_balanced balanced_append [OF _ balanced_clean [OF q]]) simp
  have tr: "?u \<noteq> [] \<and> trimmed ?u" by (simp add: trimmed_def js_ws_def)
  have "CHR ''&'' \<notin> set ?u" using src clean_bars [OF q] by (auto simp: bars_def)
  then have "top_part CHR ''&'' ?u"
    using bal tr quiet_no_sep [of "CHR ''&''" ?u "[]" 0] by (simp add: top_part_def balanced_def)
  then have sp: "splitTopLevelAnd (js_join '' && '' [?u]) = [?u]" by (intro split_and_join) auto
  have pu: "tryParseRequestCondition (js_trim ?u) = (case parse_string_literal ?q of Inl x \<Rightarrow> Inl x
     | Inr v \<Rightarrow> found (ParamHeaderCondition ''header'' t MATCH_CONTAINS v))"
    using parse_header_has [OF assms(1,2)] js_trim_id [of ?u] tr by simp
  have part: "top_part CHR ''*'' (factor_text ?u n)" by (rule factor_text_part [OF bal assms(4)])
  then have "splitTopLevelMultiply (js_join '' * '' [factor_text ?u n]) = [factor_text ?u n]"
    by (intro split_multiply_join) auto
  moreover have "tryParseRuleGroupFactor (factor_text ?u n) =
    (case json_parse ?q of None \<Rightarrow> Inl SyntaxError
     | Some v \<Rightarrow> Inr (Some \<lparr>g_conditions = [ParamHeaderCondition ''header'' t MATCH_CONTAINS (js_String v)], g_multiplier = n\<rparr>))"
    using sp pu parse_factor_text [OF tr [THEN conjunct1] assms(4)]
    by (simp add: parse_string_literal_def found_def split: option.splits)
  ultimately have "tryParseRequestRuleExpr (factor_text ?u n) = (case json_parse ?q of None \<Rightarrow> Inl SyntaxError
     | Some v \<Rightarrow> Inr (Some [\<lparr>g_conditions = [ParamHeaderCondition ''header'' t MATCH_CONTAINS (js_String v)], g_multiplier = n\<rparr>]))"
    using part js_trim_id [of "factor_text ?u n"] by (simp add: tryParseRequestRuleExpr_def top_part_def Let_def split: option.splits)
  moreover have "factor_text ?u n = ''(has('' @ source_text ''header'' t @ '', '' @ ?q @ '') ? '' @ n @ '' : 1)''"
    by (simp add: factor_text_def)
  ultimately show ?thesis by (simp only:)
qed

theorem bad_escape_throws_witness:
  "tryParseRequestRuleExpr (''(has('' @ source_text ''header'' ''x'' @ '', '' @ (CHR 0x22 # [CHR 0x5C, CHR ''q''] @ [CHR 0x22]) @ '') ? '' @ ''2'' @ '' : 1)'') = Inl SyntaxError"
proof -
  have n: "numeric ''2''" by code_simp
  have j: "json_parse (CHR 0x22 # [CHR 0x5C, CHR ''q''] @ [CHR 0x22]) = None" by code_simp
  have b: "str_body [CHR 0x5C, CHR ''q'']" by (intro str_body.intros) (simp add: line_end_def)
  show ?thesis
    using bad_escape_throws [OF _ b _ n, of "''x''"] j
    by (simp add: safe_text_def safe_char_def clean_char_def is_ctrl_def)
qed

end
