(* ===== verification/Billing_Tiers.thy ===== *)
theory Billing_Tiers
  imports Billing_Rules Pricing
begin

section \<open>Price tiers of billing expressions\<close>

text \<open>
  The tier parser of \<^verbatim>\<open>features/pricing/lib/billing-expr.ts\<close>, the visual tier editor of
  \<^verbatim>\<open>features/pricing/lib/tier-expr.ts\<close> and the prices \<^verbatim>\<open>features/pricing/lib/dynamic-price.ts\<close> shows
  for an expression. A tiered expression is a chain
  \<open>condition ? tier("label", p * 1 + c * 2) : tier("other", ...)\<close>.

  A visual tier is a record whose fields are \<open>None\<close> when the property is missing; the seven optional
  prices are an object. The evaluator of the estimator calls \<open>new Function\<close>, which is a parameter of
  \<open>evalExprLocally\<close>.

  Shown: the expression generated from a visual configuration is parsed into its tiers, labels,
  conditions and prices; the order of the price entries; what the summary says of an expression;
  that a price written without blanks is lost.
\<close>

subsection \<open>Patterns\<close>

definition is_val_char :: "char \<Rightarrow> bool" where
  \<comment> \<open>\<open>[\d.eE+]\<close>\<close>
  "is_val_char c \<longleftrightarrow> is_digit c \<or> c \<in> set ''.eE+''"

definition cond_vars :: "jsstr list" where "cond_vars = [''p'', ''c'', ''len'']"
definition cond_ops :: "jsstr list" where "cond_ops = [''<'', ''<='', ''>'', ''>='']"

definition cond_rx :: rx where
  "cond_rx = RSeq (rx_alt (map rx_lit cond_vars)) (RSeq rx_spaces (RSeq (rx_alt (map rx_lit cond_ops))
     (RSeq rx_spaces (rx_plus (RCls is_val_char)))))"

definition and_rx :: rx where
  "and_rx = RSeq rx_spaces (RSeq (rx_lit ''&&'') rx_spaces)"

definition condGroup :: rx where
  "condGroup = RGrp 1 (RSeq cond_rx (RStar (RSeq and_rx cond_rx)))"

definition tier_head_rx :: "rx \<Rightarrow> rx" where
  "tier_head_rx rest = RSeq (ROpt (RSeq condGroup (RSeq rx_spaces (RSeq (rx_lit ''?'') rx_spaces))))
     (RSeq (rx_lit (''tier('' @ [CHR 0x22])) (RSeq (RGrp 2 (RStar (RCls not_quote))) (RSeq (rx_lit [CHR 0x22, CHR '','']) (RSeq rx_spaces rest))))"

definition tierRe :: rx where
  "tierRe = tier_head_rx (RSeq (RGrp 3 (rx_plus (RCls (\<lambda>c. c \<noteq> CHR '')'')))) (rx_lit '')''))"

definition one_cond_rx :: rx where
  "one_cond_rx = RSeq RBol (RSeq (RGrp 1 (rx_alt (map rx_lit cond_vars))) (RSeq rx_spaces (RSeq (RGrp 2 (rx_alt (map rx_lit cond_ops)))
     (RSeq rx_spaces (RSeq (RGrp 3 (rx_plus (RCls is_val_char))) REol)))))"

definition BILLING_VAR_REGEX :: rx where
  "BILLING_VAR_REGEX = RSeq RWordB (RSeq (RGrp 1 (rx_alt (map (\<lambda>v. rx_lit (v_key v)) BILLING_PRICING_VARS)))
     (RSeq rx_spaces (RSeq (rx_lit ''*'') (RSeq rx_spaces (num_rx 2)))))"

text \<open>\<open>split\<close> with a pattern that matches no empty text.\<close>

function rx_split :: "rx \<Rightarrow> char option \<Rightarrow> jsstr \<Rightarrow> jsstr \<Rightarrow> jsstr list" where
  "rx_split r p part [] = [part]"
| "rx_split r p part (c # cs) =
     (case rx_match r (p, c # cs, []) of
        (p', s', _) # _ \<Rightarrow> if length s' < length (c # cs) then part # rx_split r p' [] s' else rx_split r (Some c) (part @ [c]) cs
      | [] \<Rightarrow> rx_split r (Some c) (part @ [c]) cs)"
  by pat_completeness auto
termination by (relation "measure (\<lambda>(_, _, _, s). length s)") auto

subsection \<open>The tier parser\<close>

record TierCondition =
  tc_var :: jsstr
  tc_op :: jsstr
  tc_value :: jsnum

record ParsedTier =
  pt_label :: jsstr
  pt_conditions :: "TierCondition list"
  pt_fields :: "jsnum obj"

record expr_body =
  version :: jsnum
  body :: jsstr

definition version_rx :: rx where
  "version_rx = RSeq RBol (RSeq (rx_lit ''v'') (RSeq (RGrp 1 (rx_plus (RCls is_digit))) (RSeq (rx_lit '':'') (RSeq (RGrp 2 (RStar (RCls (\<lambda>c. True)))) REol))))"

definition stripExprVersion :: "jsstr \<Rightarrow> expr_body" where
  "stripExprVersion exprStr =
     (if exprStr = [] then \<lparr>version = num 1, body = []\<rparr>
      else (case js_match version_rx exprStr of
          Some m \<Rightarrow> \<lparr>version = js_Number_str (grp m 1), body = grp m 2\<rparr>
        | None \<Rightarrow> \<lparr>version = num 1, body = exprStr\<rparr>))"

definition add_coeff :: "(nat \<Rightarrow> jsstr option) \<Rightarrow> jsnum obj \<Rightarrow> jsnum obj" where
  "add_coeff m coeffs = (if obj_has (grp m 1) coeffs then coeffs else obj_set (grp m 1) (js_Number_str (grp m 2)) coeffs)"

definition num_or_zero :: "jsnum option \<Rightarrow> jsnum" where
  "num_or_zero x = (case x of Some v \<Rightarrow> num_or v (num 0) | None \<Rightarrow> num 0)"

definition parseTierBody :: "jsstr \<Rightarrow> jsnum obj" where
  "parseTierBody bodyStr =
     (let coeffs = fold add_coeff (js_exec_all BILLING_VAR_REGEX bodyStr) [] in
      map (\<lambda>(varName, field). (field, num_or_zero (obj_get varName coeffs))) BILLING_VAR_KEY_TO_FIELD)"

definition parse_one_cond :: "jsstr \<Rightarrow> TierCondition option" where
  "parse_one_cond cp = map_option (\<lambda>m. \<lparr>tc_var = grp m 1, tc_op = grp m 2, tc_value = js_Number_str (grp m 3)\<rparr>)
     (js_match one_cond_rx (js_trim cp))"

definition parse_cond_str :: "jsstr \<Rightarrow> TierCondition list" where
  "parse_cond_str condStr = (if condStr = [] then [] else List.map_filter parse_one_cond (rx_split and_rx None [] condStr))"

definition parsed_tier :: "(nat \<Rightarrow> jsstr option) \<Rightarrow> ParsedTier" where
  "parsed_tier m = \<lparr>pt_label = grp m 2, pt_conditions = parse_cond_str (grp m 1), pt_fields = parseTierBody (grp m 3)\<rparr>"

definition parseTiersFromExpr :: "jsstr \<Rightarrow> ParsedTier list" where
  "parseTiersFromExpr exprStr =
     (if exprStr = [] then [] else map parsed_tier (js_exec_all tierRe (body (stripExprVersion exprStr))))"

subsection \<open>The visual tier editor\<close>

definition CACHE_MODE_TIMED :: jsstr where "CACHE_MODE_TIMED = ''timed''"
definition CACHE_MODE_GENERIC :: jsstr where "CACHE_MODE_GENERIC = ''generic''"

datatype CondValue = NumValue jsnum | StrValue jsstr | NullValue

record TierConditionInput =
  ci_var :: jsstr
  ci_op :: jsstr
  ci_value :: CondValue

record VisualTier =
  vt_label :: "jsstr option"
  vt_conditions :: "TierConditionInput list option"
  vt_input_unit_cost :: "jsnum option"
  vt_output_unit_cost :: "jsnum option"
  vt_cache_mode :: "jsstr option"
  vt_costs :: "jsnum obj"

type_synonym VisualConfig = "VisualTier list option"
  \<comment> \<open>the \<open>tiers\<close> of a configuration, if it is an object with an array of tiers\<close>

definition EXTRA_COST_FIELDS :: "jsstr list" where
  "EXTRA_COST_FIELDS = [''cache_read_unit_cost'', ''cache_create_unit_cost'', ''cache_create_1h_unit_cost'', ''image_unit_cost'',
     ''image_output_unit_cost'', ''audio_input_unit_cost'', ''audio_output_unit_cost'']"

definition getTierCacheMode :: "VisualTier option \<Rightarrow> jsstr" where
  "getTierCacheMode tier =
     (case tier of None \<Rightarrow> CACHE_MODE_GENERIC
      | Some t \<Rightarrow>
          if vt_cache_mode t = Some CACHE_MODE_TIMED then CACHE_MODE_TIMED
          else if vt_cache_mode t = Some CACHE_MODE_GENERIC then CACHE_MODE_GENERIC
          else (case obj_get ''cache_create_1h_unit_cost'' (vt_costs t) of
              Some x \<Rightarrow> if js_gt x (num 0) then CACHE_MODE_TIMED else CACHE_MODE_GENERIC
            | None \<Rightarrow> CACHE_MODE_GENERIC))"

definition some_or :: "'a option \<Rightarrow> 'a \<Rightarrow> 'a option" where
  \<comment> \<open>a property the spread of the tier overwrites if the tier has it\<close>
  "some_or x d = (case x of Some v \<Rightarrow> Some v | None \<Rightarrow> Some d)"

definition normalizeVisualTier :: "VisualTier \<Rightarrow> VisualTier" where
  "normalizeVisualTier tier =
     \<lparr>vt_label = some_or (vt_label tier) [],
      vt_conditions = some_or (vt_conditions tier) [],
      vt_input_unit_cost = some_or (vt_input_unit_cost tier) (num 0),
      vt_output_unit_cost = some_or (vt_output_unit_cost tier) (num 0),
      vt_cache_mode = some_or (vt_cache_mode tier) (getTierCacheMode (Some tier)),
      vt_costs = map (\<lambda>f. (f, num_or_zero (obj_get f (vt_costs tier)))) EXTRA_COST_FIELDS\<rparr>"

definition createDefaultVisualConfig :: VisualConfig where
  "createDefaultVisualConfig = Some [normalizeVisualTier
     \<lparr>vt_label = Some ''base'', vt_conditions = Some [], vt_input_unit_cost = Some (num 0), vt_output_unit_cost = Some (num 0),
      vt_cache_mode = Some CACHE_MODE_GENERIC, vt_costs = []\<rparr>]"

definition normalizeVisualConfig :: "VisualConfig \<Rightarrow> VisualConfig" where
  "normalizeVisualConfig cfg =
     (case cfg of None \<Rightarrow> createDefaultVisualConfig
      | Some tiers \<Rightarrow> if length tiers = 0 then createDefaultVisualConfig else Some (map normalizeVisualTier tiers))"

definition cond_complete :: "TierConditionInput \<Rightarrow> bool" where
  "cond_complete c \<longleftrightarrow> ci_var c \<noteq> [] \<and> ci_op c \<noteq> [] \<and> ci_value c \<noteq> NullValue \<and> ci_value c \<noteq> StrValue []"

fun cond_value_str :: "CondValue \<Rightarrow> jsstr" where
  "cond_value_str (NumValue x) = js_num_str x"
| "cond_value_str (StrValue s) = s"
| "cond_value_str NullValue = ''null''"

definition buildConditionStr :: "TierConditionInput list option \<Rightarrow> jsstr" where
  "buildConditionStr conditions =
     (case conditions of None \<Rightarrow> []
      | Some cs \<Rightarrow> js_join '' && '' (map (\<lambda>c. ci_var c @ '' '' @ ci_op c @ '' '' @ cond_value_str (ci_value c)) (filter cond_complete cs)))"

definition extra_terms :: "VisualTier \<Rightarrow> jsstr list" where
  "extra_terms tier = List.map_filter (\<lambda>(field, exprVar).
     let v = num_or_zero (obj_get field (vt_costs tier)) in
     if v \<noteq> num 0 then Some (exprVar @ '' * '' @ js_num_str v) else None) BILLING_CACHE_VAR_MAP"

definition buildTierBodyExpr :: "VisualTier \<Rightarrow> jsstr" where
  "buildTierBodyExpr tier =
     (let ic = num_or_zero (vt_input_unit_cost tier); oc = num_or_zero (vt_output_unit_cost tier) in
      js_join '' + '' ([''p * '' @ js_num_str ic, ''c * '' @ js_num_str oc] @ extra_terms tier))"

definition tier_call :: "jsstr \<Rightarrow> VisualTier \<Rightarrow> jsstr" where
  "tier_call lbl tier = ''tier('' @ [CHR 0x22] @ lbl @ [CHR 0x22] @ '', '' @ buildTierBodyExpr tier @ '')''"

definition label_or :: "jsstr option \<Rightarrow> jsstr \<Rightarrow> jsstr" where
  "label_or l d = (case l of Some s \<Rightarrow> if s = [] then d else s | None \<Rightarrow> d)"

fun tier_parts :: "nat \<Rightarrow> nat \<Rightarrow> VisualTier list \<Rightarrow> jsstr list" where
  \<comment> \<open>the loop over the tiers: index, number of tiers, the rest\<close>
  "tier_parts i n [] = []"
| "tier_parts i n (tier # tiers) =
     (let lbl = label_or (vt_label tier) (''tier_'' @ dec_str (int i + 1));
          bd = tier_call lbl tier; cond = buildConditionStr (vt_conditions tier) in
      (if i < n - 1 \<and> cond \<noteq> [] then cond @ '' ? '' @ bd else bd) # tier_parts (Suc i) n tiers)"

definition generateExprFromVisualConfig :: "VisualConfig \<Rightarrow> jsstr" where
  "generateExprFromVisualConfig cfg =
     (case cfg of None \<Rightarrow> ''p * 0 + c * 0''
      | Some [] \<Rightarrow> ''p * 0 + c * 0''
      | Some [tier] \<Rightarrow>
          (let bd = tier_call (label_or (vt_label tier) ''default'') tier; cond = buildConditionStr (vt_conditions tier) in
           if cond \<noteq> [] then cond @ '' ? '' @ bd @ '' : p * 0 + c * 0'' else bd)
      | Some tiers \<Rightarrow> js_join '' : '' (tier_parts 0 (length tiers) tiers))"

definition term_rx :: "jsstr \<Rightarrow> nat \<Rightarrow> rx" where
  "term_rx v n = RSeq (rx_lit v) (RSeq rx_spaces (RSeq (rx_lit ''*'') (RSeq rx_spaces (num_rx n))))"

definition plus_rx :: rx where
  "plus_rx = RSeq rx_spaces (RSeq (rx_lit ''+'') rx_spaces)"

fun optCacheStr :: "nat \<Rightarrow> jsstr list \<Rightarrow> rx \<Rightarrow> rx" where
  "optCacheStr n [] rest = rest"
| "optCacheStr n (v # vs) rest = RSeq (ROpt (RSeq plus_rx (term_rx v n))) (optCacheStr (Suc n) vs rest)"

definition bodyPat :: "nat \<Rightarrow> rx \<Rightarrow> rx" where
  \<comment> \<open>the groups are numbered from the given one on\<close>
  "bodyPat n rest = RSeq (term_rx ''p'' n) (RSeq plus_rx (RSeq (term_rx ''c'' (n + 1)) (optCacheStr (n + 2) (map snd BILLING_CACHE_VAR_MAP) rest)))"

definition singleRe :: rx where
  "singleRe = RSeq RBol (RSeq (rx_lit (''tier('' @ [CHR 0x22])) (RSeq (RGrp 1 (RStar (RCls not_quote)))
     (RSeq (rx_lit [CHR 0x22, CHR '','']) (RSeq rx_spaces (bodyPat 2 (RSeq (rx_lit '')'') REol))))))"

definition visualTierRe :: rx where
  "visualTierRe = tier_head_rx (bodyPat 3 (rx_lit '')''))"

text \<open>The partial tier a match describes: \<open>n\<close> is the group of the input price.\<close>

definition matched_tier :: "nat \<Rightarrow> jsstr \<Rightarrow> TierConditionInput list \<Rightarrow> (nat \<Rightarrow> jsstr option) \<Rightarrow> VisualTier" where
  "matched_tier n lbl conditions m =
     \<lparr>vt_label = Some lbl, vt_conditions = Some conditions, vt_input_unit_cost = Some (js_Number_str (grp m n)),
      vt_output_unit_cost = Some (js_Number_str (grp m (n + 1))), vt_cache_mode = None,
      vt_costs = List.map_filter (\<lambda>(i, field, _). map_option (\<lambda>v. (field, js_Number_str v)) (m (n + 2 + i)))
        (enumerate 0 BILLING_CACHE_VAR_MAP)\<rparr>"

definition cond_input :: "TierCondition \<Rightarrow> TierConditionInput" where
  "cond_input c = \<lparr>ci_var = tc_var c, ci_op = tc_op c, ci_value = NumValue (tc_value c)\<rparr>"

definition drop_version :: "jsstr \<Rightarrow> jsstr" where
  "drop_version exprStr = (case js_match version_rx exprStr of Some m \<Rightarrow> grp m 2 | None \<Rightarrow> exprStr)"

definition strip_ws :: "jsstr \<Rightarrow> jsstr" where
  \<comment> \<open>\<open>replace(/\s+/g, '')\<close>\<close>
  "strip_ws s = filter (\<lambda>c. \<not> js_ws c) s"

definition tryParseVisualConfig :: "jsstr option \<Rightarrow> VisualConfig option" where
  \<comment> \<open>\<open>None\<close> is \<open>null\<close>\<close>
  "tryParseVisualConfig exprStr =
     (case exprStr of None \<Rightarrow> None
      | Some [] \<Rightarrow> None
      | Some s \<Rightarrow>
         (let bd = drop_version s in
          case js_match singleRe bd of
            Some m \<Rightarrow> Some (normalizeVisualConfig (Some [normalizeVisualTier (matched_tier 2 (grp m 1) [] m)]))
          | None \<Rightarrow>
             (let tiers = map (\<lambda>m. normalizeVisualTier (matched_tier 3 (grp m 2) (map cond_input (parse_cond_str (grp m 1))) m))
                    (js_exec_all visualTierRe bd) in
              if length tiers = 0 then None
              else (let cfg = normalizeVisualConfig (Some tiers) in
                if strip_ws (generateExprFromVisualConfig cfg) \<noteq> strip_ws bd then None else Some cfg))))"

subsection \<open>The estimator\<close>

definition ESTIMATOR_VARS :: "(jsstr \<times> jsstr) list" where
  "ESTIMATOR_VARS = [(''cr'', ''cacheReadTokens''), (''cc'', ''cacheCreateTokens''), (''cc1h'', ''cacheCreate1hTokens''),
     (''img'', ''imageTokens''), (''img_o'', ''imageOutputTokens''), (''ai'', ''audioInputTokens''), (''ao'', ''audioOutputTokens'')]"

record EvalResult =
  cost :: jsnum
  matchedTier :: jsstr
  eval_error :: "jsstr option"

text \<open>
  \<open>run\<close> stands for the function made from the expression: it is given the numeric variables and
  returns the message of an exception, or the numeric value of the expression and the name of the
  last call of \<open>tier\<close>, if there was one.
\<close>

definition evalExprLocally ::
  "(jsstr \<Rightarrow> jsnum obj \<Rightarrow> jsstr + (jsnum \<times> jsstr option)) \<Rightarrow> jsstr \<Rightarrow> jsnum \<Rightarrow> jsnum \<Rightarrow> jsnum obj \<Rightarrow> EvalResult" where
  "evalExprLocally run exprStr promptTokens completionTokens extraTokenValues =
     (if exprStr = [] \<or> js_trim exprStr = [] then \<lparr>cost = num 0, matchedTier = [], eval_error = None\<rparr>
      else (let extra = (\<lambda>k. num_or_zero (obj_get k extraTokenValues));
                len = js_add (js_add (js_add promptTokens (extra ''cacheReadTokens'')) (extra ''cacheCreateTokens'')) (extra ''cacheCreate1hTokens'');
                env = [(''p'', promptTokens), (''c'', completionTokens), (''len'', len)] @ map (\<lambda>(v, k). (v, extra k)) ESTIMATOR_VARS in
        case run exprStr env of
          Inl message \<Rightarrow> \<lparr>cost = num 0, matchedTier = [], eval_error = Some message\<rparr>
        | Inr (value, name) \<Rightarrow> \<lparr>cost = num_or value (num 0), matchedTier = str_or_empty name, eval_error = None\<rparr>))"

definition extra_vars_rx :: rx where
  "extra_vars_rx = RSeq RWordB (RSeq (RGrp 1 (rx_alt (map (\<lambda>(v, _). rx_lit v) ESTIMATOR_VARS))) RWordB)"

definition exprUsesExtraVars :: "jsstr \<Rightarrow> bool" where
  "exprUsesExtraVars exprStr = (exprStr \<noteq> [] \<and> js_test extra_vars_rx exprStr)"

subsection \<open>Matching a tier\<close>

lemma spaces_then:
  assumes "stops js_ws b" "v = [] \<or> \<not> js_ws (hd v)"
  shows "rx_match (RSeq rx_spaces b) (p, '' '' @ v, cs) = rx_match b (Some CHR '' '', v, cs)"
    "rx_match (RSeq rx_spaces b) (p, v, cs) = rx_match b (p, v, cs)"
  using match_star_then [OF assms(1), of "'' ''" v p cs] match_star_then [OF assms(1), of "[]" v p cs] assms(2)
  by (simp_all add: rx_spaces_def js_ws_def prev_of_def del: rx_match.simps)

lemma spaces_first: "\<not> js_ws c \<Longrightarrow> rx_match rx_spaces (p, '' '' @ c # v, cs) = [(Some CHR '' '', c # v, cs), (p, '' '' @ c # v, cs)]"
  using match_star_class [of js_ws "'' ''" "c # v" p cs] by (simp add: rx_spaces_def js_ws_def prev_of_def)

lemma plus_class_first:
  assumes "list_all P u" "u \<noteq> []" "v = [] \<or> \<not> P (hd v)"
  shows "\<exists>xs. rx_match (rx_plus (RCls P)) (p, u @ v, cs) = (Some (last u), v, cs) # xs"
proof -
  obtain n where n: "length u = Suc n" using assms(2) by (cases u) auto
  show ?thesis unfolding match_plus_class [OF assms] n by (simp add: n prev_of_def assms(2))
qed

lemma star_class_first:
  assumes "list_all P u" "v = [] \<or> \<not> P (hd v)"
  shows "\<exists>xs. rx_match (RStar (RCls P)) (p, u @ v, cs) = (prev_of p u, v, cs) # xs"
  unfolding match_star_class [OF assms] by simp

lemma grp_first: "rx_match a (p, u @ v, cs) = (p', v, cs') # xs \<Longrightarrow> \<exists>ys. rx_match (RGrp n a) (p, u @ v, cs) = (p', v, (n, u) # cs') # ys"
  by (simp add: match_grp)

definition cond_text1 :: "jsstr \<Rightarrow> jsstr \<Rightarrow> jsstr \<Rightarrow> jsstr" where
  "cond_text1 var op val = var @ '' '' @ op @ '' '' @ val"

definition val_ok :: "jsstr \<Rightarrow> bool" where
  "val_ok val \<longleftrightarrow> val \<noteq> [] \<and> list_all is_val_char val"

lemma val_char_ws: "js_ws c \<Longrightarrow> \<not> is_val_char c"
  by (auto simp: js_ws_def is_val_char_def is_digit_def)

lemma stops_ws_ops: "stops js_ws (rx_alt (map rx_lit cond_ops))"
  by (simp add: cond_ops_def stops_def match_lit js_ws_def)

lemma stops_ws_val: "stops js_ws (rx_plus (RCls is_val_char))"
  unfolding rx_plus_def by (intro stops_seq stops_class) (simp add: val_char_ws)

lemma ops_then:
  assumes "op \<in> set cond_ops" "stops js_ws b" "\<And>q s cs. rx_match b (q, CHR ''='' # s, cs) = []" "v \<noteq> []" "\<not> js_ws (hd v)"
  shows "rx_match (RSeq (rx_alt (map rx_lit cond_ops)) (RSeq rx_spaces b)) (p, op @ '' '' @ v, cs) = rx_match b (Some CHR '' '', v, cs)"
proof -
  have eq: "rx_match (RSeq rx_spaces b) (q, CHR ''='' # s, cs) = []" for q s
    using spaces_then(2) [OF assms(2), of "CHR ''='' # s" q cs] assms(3) by (simp add: js_ws_def del: rx_match.simps)
  have sp: "rx_match (RSeq rx_spaces b) (q, '' '' @ v, cs) = rx_match b (Some CHR '' '', v, cs)" for q
    using spaces_then(1) [OF assms(2)] assms(5) by blast
  have "rx_match (RSeq (rx_alt (map rx_lit cond_ops)) (RSeq rx_spaces b)) (p, op @ '' '' @ v, cs) =
    concat (map (\<lambda>w. rx_match (RSeq rx_spaces b) (prev_of p w, drop (length w) (op @ '' '' @ v), cs)) (filter (js_startsWith (op @ '' '' @ v)) cond_ops))"
    unfolding match_seq [of "rx_alt _"] match_alt_lits by (simp only: map_map comp_def)
  also have "\<dots> = rx_match b (Some CHR '' '', v, cs)"
    using assms(1) eq sp unfolding cond_ops_def by (auto simp del: rx_match.simps)
  finally show ?thesis .
qed

lemma cond_first:
  assumes "var \<in> set cond_vars" "op \<in> set cond_ops" "val_ok val" "w = [] \<or> \<not> is_val_char (hd w)"
  shows "\<exists>xs. rx_match cond_rx (p, cond_text1 var op val @ w, cs) = (Some (last val), w, cs) # xs"
proof -
  have v: "val @ w \<noteq> []" "\<not> js_ws (hd (val @ w))" using assms(3) val_char_ws by (cases val; auto simp: val_ok_def)+
  have fails: "rx_match (rx_plus (RCls is_val_char)) (q, CHR ''='' # s, cs) = []" for q s cs
    by (simp add: rx_plus_def is_val_char_def is_digit_def)
  have "filter (js_startsWith (var @ '' '' @ op @ '' '' @ val @ w)) cond_vars = [var]"
    using assms(1) by (auto simp: cond_vars_def)
  then have "rx_match cond_rx (p, cond_text1 var op val @ w, cs) =
    rx_match (RSeq rx_spaces (RSeq (rx_alt (map rx_lit cond_ops)) (RSeq rx_spaces (rx_plus (RCls is_val_char)))))
      (prev_of p var, '' '' @ op @ '' '' @ val @ w, cs)"
    unfolding cond_rx_def cond_text1_def append_assoc match_seq [of "rx_alt _"] match_alt_lits by simp
  also have "\<dots> = rx_match (RSeq (rx_alt (map rx_lit cond_ops)) (RSeq rx_spaces (rx_plus (RCls is_val_char)))) (Some CHR '' '', op @ '' '' @ val @ w, cs)"
    by (rule spaces_then(1)) (intro stops_seq stops_ws_ops, use assms(2) in \<open>auto simp: cond_ops_def js_ws_def\<close>)
  also have "\<dots> = rx_match (rx_plus (RCls is_val_char)) (Some CHR '' '', val @ w, cs)"
    by (rule ops_then [OF assms(2) stops_ws_val fails v])
  finally show ?thesis using plus_class_first [of is_val_char val w] assms(3,4) by (simp add: val_ok_def)
qed

lemma cond_fails:
  assumes "filter (js_startsWith s) cond_vars = []"
  shows "rx_match cond_rx (p, s, cs) = []" "rx_match (RSeq condGroup b) (p, s, cs) = []"
  using assms unfolding cond_rx_def condGroup_def by (simp_all add: match_alt_lits)

text \<open>A chain of conditions, each a variable, an operator and a value.\<close>

type_synonym cond_part = "jsstr \<times> jsstr \<times> jsstr"

definition cond_ok :: "cond_part \<Rightarrow> bool" where
  "cond_ok = (\<lambda>(var, op, val). var \<in> set cond_vars \<and> op \<in> set cond_ops \<and> val_ok val)"

definition part_text :: "cond_part \<Rightarrow> jsstr" where
  "part_text = (\<lambda>(var, op, val). cond_text1 var op val)"

lemma part_first:
  "cond_ok c \<Longrightarrow> w = [] \<or> \<not> is_val_char (hd w) \<Longrightarrow> \<exists>q xs. rx_match cond_rx (p, part_text c @ w, cs) = (q, w, cs) # xs"
  using cond_first by (cases c) (fastforce simp: cond_ok_def part_text_def)

lemma part_hd: "cond_ok c \<Longrightarrow> part_text c \<noteq> [] \<and> \<not> js_ws (hd (part_text c)) \<and> hd (part_text c) \<noteq> CHR ''&''"
  by (cases c) (auto simp: cond_ok_def part_text_def cond_text1_def cond_vars_def js_ws_def)

lemma and_first:
  assumes "w \<noteq> []" "\<not> js_ws (hd w)"
  shows "\<exists>xs. rx_match and_rx (p, '' && '' @ w, cs) = (Some CHR '' '', w, cs) # xs"
proof -
  obtain c v where w: "w = c # v" "\<not> js_ws c" using assms by (cases w) auto
  have s: "stops js_ws (RSeq (rx_lit ''&&'') rx_spaces)" by (intro stops_seq stops_lit) (simp add: js_ws_def)
  have "rx_match and_rx (p, '' '' @ ''&& '' @ w, cs) = rx_match (RSeq (rx_lit ''&&'') rx_spaces) (Some CHR '' '', ''&& '' @ w, cs)"
    unfolding and_rx_def by (rule spaces_then(1) [OF s]) (simp add: js_ws_def)
  also have "\<dots> = rx_match rx_spaces (prev_of (Some CHR '' '') ''&&'', '' '' @ c # v, cs)"
    using match_lit_then [of "''&&''" rx_spaces "Some CHR '' ''" "'' '' @ c # v" cs] w by simp
  finally show ?thesis using spaces_first [OF w(2), of _ v cs] by (simp add: w)
qed

lemma and_fails:
  assumes "\<not> js_startsWith (dropWhile js_ws s) ''&&''"
  shows "rx_match and_rx (p, s, cs) = []"
proof -
  have st: "stops js_ws (RSeq (rx_lit ''&&'') rx_spaces)" by (intro stops_seq stops_lit) (simp add: js_ws_def)
  have d: "dropWhile js_ws s = [] \<or> \<not> js_ws (hd (dropWhile js_ws s))" using hd_dropWhile by blast
  have t: "list_all js_ws (takeWhile js_ws s)" by (auto simp: list_all_iff dest: set_takeWhileD)
  have "rx_match and_rx (p, takeWhile js_ws s @ dropWhile js_ws s, cs) = []"
    unfolding and_rx_def rx_spaces_def
    by (subst match_star_then [OF _ t d]) (use st in \<open>simp add: rx_spaces_def\<close>, rule match_lit_fails [OF assms])
  then show ?thesis by simp
qed

definition more_conds :: "cond_part list \<Rightarrow> jsstr" where
  "more_conds cs = concat (map (\<lambda>c. '' && '' @ part_text c) cs)"

lemma more_conds_hd: "w \<noteq> [] \<and> \<not> is_val_char (hd w) \<Longrightarrow> more_conds cs @ w \<noteq> [] \<and> \<not> is_val_char (hd (more_conds cs @ w))"
  by (cases cs) (auto simp: more_conds_def is_val_char_def is_digit_def)

lemma conds_star:
  assumes "\<forall>c \<in> set cs. cond_ok c" "w \<noteq> []" "\<not> is_val_char (hd w)" "\<not> js_startsWith (dropWhile js_ws w) ''&&''"
    "length (more_conds cs) \<le> k"
  shows "\<exists>q xs. star_loop (rx_match (RSeq and_rx cond_rx)) k (p, more_conds cs @ w, cps) = (q, w, cps) # xs"
  using assms(1,5)
proof (induction cs arbitrary: p k)
  case Nil
  have "rx_match (RSeq and_rx cond_rx) (p, w, cps) = []" using and_fails [OF assms(4)] by simp
  then show ?case by (cases k) (simp_all add: more_conds_def del: rx_match.simps)
next
  case (Cons c cs)
  then have ok: "cond_ok c" by simp
  obtain j where k: "k = Suc j" "length (more_conds cs) \<le> j" using Cons.prems(2) by (cases k) (auto simp: more_conds_def)
  have tail: "more_conds cs @ w \<noteq> [] \<and> \<not> is_val_char (hd (more_conds cs @ w))" by (rule more_conds_hd) (use assms(2,3) in simp)
  have joined: "more_conds (c # cs) @ w = '' && '' @ part_text c @ more_conds cs @ w" by (simp add: more_conds_def)
  have ne: "part_text c @ more_conds cs @ w \<noteq> []" "\<not> js_ws (hd (part_text c @ more_conds cs @ w))" using part_hd [OF ok] by auto
  obtain xs where a: "rx_match and_rx (p, '' && '' @ part_text c @ more_conds cs @ w, cps) = (Some CHR '' '', part_text c @ more_conds cs @ w, cps) # xs"
    using and_first [OF ne] by blast
  obtain q ys where b: "rx_match cond_rx (Some CHR '' '', part_text c @ more_conds cs @ w, cps) = (q, more_conds cs @ w, cps) # ys"
    using part_first [OF ok] tail by blast
  obtain zs where m: "rx_match (RSeq and_rx cond_rx) (p, '' && '' @ part_text c @ more_conds cs @ w, cps) = (q, more_conds cs @ w, cps) # zs"
    using first_seq [OF a b] by blast
  obtain q' us where "star_loop (rx_match (RSeq and_rx cond_rx)) j (q, more_conds cs @ w, cps) = (q', w, cps) # us"
    using Cons.IH [of j q] Cons.prems k by auto
  then show ?case unfolding k(1) joined star_loop.simps m by simp
qed

lemma cond_group_first:
  assumes "cond_ok c" "\<forall>c \<in> set cs. cond_ok c"
  shows "\<exists>q xs. rx_match condGroup (p, (part_text c @ more_conds cs) @ '' ? '' @ w, []) = (q, '' ? '' @ w, [(1, part_text c @ more_conds cs)]) # xs"
proof -
  let ?w = "'' ? '' @ w"
  have w: "?w \<noteq> []" "\<not> is_val_char (hd ?w)" "\<not> js_startsWith (dropWhile js_ws ?w) ''&&''"
    by (simp_all add: is_val_char_def is_digit_def js_ws_def)
  obtain q xs where a: "rx_match cond_rx (p, part_text c @ more_conds cs @ ?w, []) = (q, more_conds cs @ ?w, []) # xs"
    using part_first [OF assms(1)] more_conds_hd w(1,2) by blast
  obtain q' ys where b: "rx_match (RStar (RSeq and_rx cond_rx)) (q, more_conds cs @ ?w, []) = (q', ?w, []) # ys"
    using conds_star [OF assms(2) w, of "length (more_conds cs @ ?w)" q "[]"] by auto
  obtain zs where "rx_match (RSeq cond_rx (RStar (RSeq and_rx cond_rx))) (p, (part_text c @ more_conds cs) @ ?w, []) = (q', ?w, []) # zs"
    using first_seq [OF a b] by auto
  from grp_first [OF this] show ?thesis unfolding condGroup_def by blast
qed

definition conds_text :: "cond_part list \<Rightarrow> jsstr" where
  "conds_text cs = js_join '' && '' (map part_text cs)"

lemma conds_text_Cons: "conds_text (c # cs) = part_text c @ more_conds cs"
  unfolding conds_text_def
proof (induction cs arbitrary: c)
  case (Cons d cs)
  then show ?case by (simp add: more_conds_def)
qed (simp add: more_conds_def)

definition call_text :: "jsstr \<Rightarrow> jsstr \<Rightarrow> jsstr" where
  "call_text l b = (''tier('' @ [CHR 0x22]) @ l @ [CHR 0x22, CHR '',''] @ '' '' @ b @ '')''"

definition label_ok :: "jsstr \<Rightarrow> bool" where
  "label_ok l \<longleftrightarrow> list_all not_quote l"

definition body_ok :: "jsstr \<Rightarrow> bool" where
  "body_ok b \<longleftrightarrow> b \<noteq> [] \<and> list_all (\<lambda>c. c \<noteq> CHR '')'') b \<and> \<not> js_ws (hd b)"

lemma call_first:
  assumes "label_ok l" "body_ok b"
  shows "\<exists>q xs. rx_match (RSeq (rx_lit (''tier('' @ [CHR 0x22])) (RSeq (RGrp 2 (RStar (RCls not_quote))) (RSeq (rx_lit [CHR 0x22, CHR '','']) (RSeq rx_spaces
      (RSeq (RGrp 3 (rx_plus (RCls (\<lambda>c. c \<noteq> CHR '')'')))) (rx_lit '')'')))))) (p, call_text l b @ w, cs) = (q, w, (3, b) # (2, l) # cs) # xs"
proof -
  let ?nc = "\<lambda>c. c \<noteq> CHR '')''"
  let ?bd = "RSeq (RGrp 3 (rx_plus (RCls ?nc))) (rx_lit '')'')"
  let ?rest = "RSeq (rx_lit [CHR 0x22, CHR '','']) (RSeq rx_spaces ?bd)"
  have b: "b \<noteq> []" "list_all ?nc b" "\<not> js_ws (hd b)" using assms(2) by (auto simp: body_ok_def)
  have st: "stops ?nc (rx_lit '')'')" by (rule stops_lit) simp
  have bd: "rx_match ?bd (q, b @ '')'' @ w, c) = [(prev_of (prev_of q b) '')'', w, (3, b) # c)]" for q c
    using match_grp_plus_then [OF st b(2,1), of "'')'' @ w" 3 q c] match_lit_append [of "'')''" "prev_of q b" w "(3, b) # c"]
    by (simp del: rx_match.simps rx_lit.simps)
  obtain c v where cv: "b @ '')'' @ w = c # v" "\<not> js_ws c" using b(1,3) by (cases b) auto
  have sp: "rx_match rx_spaces (q, '' '' @ b @ '')'' @ w, x) = (Some CHR '' '', b @ '')'' @ w, x) # [(q, '' '' @ b @ '')'' @ w, x)]" for q x
    unfolding cv(1) using spaces_first [OF cv(2)] by simp
  have s1: "\<exists>r zs. rx_match (RSeq rx_spaces ?bd) (q, '' '' @ b @ '')'' @ w, x) = (r, w, (3, b) # x) # zs" for q x
    using first_seq [OF sp bd] by blast
  have quote: "[CHR 0x22, CHR '',''] @ y \<noteq> [] \<and> \<not> not_quote (hd ([CHR 0x22, CHR '',''] @ y))" for y
    by (simp add: not_quote_def)
  have g2: "\<exists>ys. rx_match (RGrp 2 (RStar (RCls not_quote))) (r, l @ [CHR 0x22, CHR '',''] @ '' '' @ b @ '')'' @ w, cs) =
      (prev_of r l, [CHR 0x22, CHR '',''] @ '' '' @ b @ '')'' @ w, (2, l) # cs) # ys" for r
  proof -
    obtain xs where "rx_match (RStar (RCls not_quote)) (r, l @ [CHR 0x22, CHR '',''] @ '' '' @ b @ '')'' @ w, cs) =
      (prev_of r l, [CHR 0x22, CHR '',''] @ '' '' @ b @ '')'' @ w, cs) # xs"
      using star_class_first [OF _ disjI2, of not_quote l] assms(1) quote unfolding label_ok_def by blast
    then show ?thesis by (rule grp_first)
  qed
  have rest: "\<exists>q zs. rx_match ?rest (r, [CHR 0x22, CHR '',''] @ '' '' @ b @ '')'' @ w, (2, l) # cs) = (q, w, (3, b) # (2, l) # cs) # zs" for r
    unfolding match_lit_then by (rule s1)
  have "\<exists>q zs. rx_match (RSeq (RGrp 2 (RStar (RCls not_quote))) ?rest) (r, l @ [CHR 0x22, CHR '',''] @ '' '' @ b @ '')'' @ w, cs) =
      (q, w, (3, b) # (2, l) # cs) # zs" for r
    using g2 rest first_seq by blast
  then show ?thesis unfolding call_text_def append_assoc match_lit_then [of "''tier('' @ [CHR 0x22]", unfolded append_assoc] .
qed

definition head_text :: "cond_part list \<Rightarrow> jsstr" where
  "head_text cs = (if cs = [] then [] else conds_text cs @ '' ? '')"

definition tier_caps :: "cond_part list \<Rightarrow> jsstr \<Rightarrow> jsstr \<Rightarrow> (nat \<times> jsstr) list" where
  "tier_caps cs l b = (3, b) # (2, l) # (if cs = [] then [] else [(1, conds_text cs)])"

lemma tier_first:
  assumes "\<forall>c \<in> set cs. cond_ok c" "label_ok l" "body_ok b"
  shows "\<exists>q xs. rx_match tierRe (p, head_text cs @ call_text l b @ w, []) = (q, w, tier_caps cs l b) # xs"
proof (cases cs)
  case Nil
  have "filter (js_startsWith (call_text l b @ w)) cond_vars = []" by (simp add: call_text_def cond_vars_def)
  then have "rx_match (ROpt (RSeq condGroup x)) (p, call_text l b @ w, []) = [(p, call_text l b @ w, [])]" for x
    using cond_fails(2) by simp
  then show ?thesis unfolding tierRe_def tier_head_rx_def match_seq [of "ROpt _"]
    using call_first [OF assms(2,3), of p w "[]"] by (simp add: Nil head_text_def tier_caps_def del: rx_match.simps)
next
  case (Cons c ds)
  let ?cond = "part_text c @ more_conds ds" let ?call = "call_text l b @ w"
  have ct: "conds_text cs = ?cond" by (simp add: Cons conds_text_Cons)
  obtain q xs where g: "rx_match condGroup (p, ?cond @ '' ? '' @ ?call, []) = (q, '' ? '' @ ?call, [(1, ?cond)]) # xs"
    using cond_group_first [of c ds p ?call] assms(1) Cons by auto
  obtain v where v: "?call = CHR ''t'' # v" by (simp add: call_text_def)
  have "stops js_ws (RSeq (rx_lit ''?'') rx_spaces)" by (intro stops_seq stops_lit) (simp add: js_ws_def)
  then have "rx_match (RSeq rx_spaces (RSeq (rx_lit ''?'') rx_spaces)) (q, '' '' @ ''? '' @ ?call, [(1, ?cond)]) =
      rx_match (RSeq (rx_lit ''?'') rx_spaces) (Some CHR '' '', ''? '' @ ?call, [(1, ?cond)])"
    by (rule spaces_then(1)) (simp add: js_ws_def)
  also have "\<dots> = rx_match rx_spaces (prev_of (Some CHR '' '') ''?'', '' '' @ CHR ''t'' # v, [(1, ?cond)])"
    using match_lit_then [of "''?''" rx_spaces "Some CHR '' ''" "'' '' @ ?call" "[(1, ?cond)]"] by (simp add: v)
  finally have "\<exists>ys. rx_match (RSeq rx_spaces (RSeq (rx_lit ''?'') rx_spaces)) (q, '' ? '' @ ?call, [(1, ?cond)]) = (Some CHR '' '', ?call, [(1, ?cond)]) # ys"
    using spaces_first [of "CHR ''t''"] by (simp add: v js_ws_def)
  then obtain zs where "rx_match (RSeq condGroup (RSeq rx_spaces (RSeq (rx_lit ''?'') rx_spaces))) (p, ?cond @ '' ? '' @ ?call, []) =
      (Some CHR '' '', ?call, [(1, ?cond)]) # zs" using first_seq [OF g] by blast
  then have o: "\<exists>us. rx_match (ROpt (RSeq condGroup (RSeq rx_spaces (RSeq (rx_lit ''?'') rx_spaces)))) (p, ?cond @ '' ? '' @ ?call, []) =
      (Some CHR '' '', ?call, [(1, ?cond)]) # us" by simp
  obtain r us where "rx_match tierRe (p, ?cond @ '' ? '' @ ?call, []) = (r, w, (3, b) # (2, l) # [(1, ?cond)]) # us"
    unfolding tierRe_def tier_head_rx_def using o call_first [OF assms(2,3)] first_seq by blast
  moreover have "head_text cs @ ?call = ?cond @ '' ? '' @ ?call" using ct Cons by (simp add: head_text_def)
  moreover have "tier_caps cs l b = (3, b) # (2, l) # [(1, ?cond)]" using ct Cons by (simp add: tier_caps_def)
  ultimately show ?thesis by metis
qed

subsection \<open>All tiers of an expression\<close>

lemma tier_fails:
  assumes "rx_match cond_rx (p, s, []) = []" "\<not> js_startsWith s (''tier('' @ [CHR 0x22])"
  shows "rx_match tierRe (p, s, []) = []"
proof -
  have "rx_match (ROpt (RSeq condGroup x)) (p, s, []) = [(p, s, [])]" for x
    using assms(1) by (simp add: condGroup_def)
  then show ?thesis unfolding tierRe_def tier_head_rx_def match_seq [of "ROpt _"]
    using match_lit_fails [OF assms(2)] by (simp del: rx_match.simps)
qed

lemma cond_fails_times: "var \<in> {''p'', ''c''} \<Longrightarrow> rx_match cond_rx (p, var @ '' * '' @ s, cs) = []"
proof -
  assume v: "var \<in> {''p'', ''c''}"
  have "filter (js_startsWith (var @ '' * '' @ s)) cond_vars = [var]" using v by (auto simp: cond_vars_def)
  then have "rx_match cond_rx (p, var @ '' * '' @ s, cs) =
    rx_match (RSeq rx_spaces (RSeq (rx_alt (map rx_lit cond_ops)) (RSeq rx_spaces (rx_plus (RCls is_val_char))))) (prev_of p var, '' '' @ ''* '' @ s, cs)"
    unfolding cond_rx_def append_assoc match_seq [of "rx_alt _"] match_alt_lits by simp
  also have "\<dots> = rx_match (RSeq (rx_alt (map rx_lit cond_ops)) (RSeq rx_spaces (rx_plus (RCls is_val_char)))) (Some CHR '' '', ''* '' @ s, cs)"
    by (rule spaces_then(1)) (intro stops_seq stops_ws_ops, simp add: js_ws_def)
  also have "\<dots> = []" unfolding match_seq [of "rx_alt _"] match_alt_lits by (simp add: cond_ops_def)
  finally show ?thesis .
qed

lemma search_hit: "rx_match r (p, s, []) = st # xs \<Longrightarrow> rx_search r p s = Some st"
  by (subst rx_search.simps) simp

lemma search_skip: "rx_match r (p, c # s, []) = [] \<Longrightarrow> rx_search r p (c # s) = rx_search r (Some c) s"
  by (subst rx_search.simps) simp

lemma tier_skip: "c \<notin> set ''pclt'' \<Longrightarrow> rx_search tierRe p (c # s) = rx_search tierRe (Some c) s"
  by (intro search_skip tier_fails cond_fails(1)) (auto simp: cond_vars_def)

lemma tier_search_sep: "rx_search tierRe p ('' : '' @ s) = rx_search tierRe (Some CHR '' '') s"
  by (simp add: tier_skip)

lemma tier_search_Nil: "rx_search tierRe p [] = None"
proof -
  have "rx_match tierRe (p, [], []) = []" by (intro tier_fails cond_fails(1)) (simp_all add: cond_vars_def)
  then show ?thesis by (subst rx_search.simps) simp
qed

lemma tier_search_zero: "rx_search tierRe p '' : p * 0 + c * 0'' = None"
proof -
  have "rx_search tierRe q (var @ '' * '' @ s) = rx_search tierRe (Some (hd var)) ('' * '' @ s)" if "var \<in> {''p'', ''c''}" for q var s
  proof -
    have "rx_match tierRe (q, var @ '' * '' @ s, []) = []"
      using that by (intro tier_fails cond_fails_times) auto
    then show ?thesis using that search_skip by fastforce
  qed
  from this [of "''p''"] this [of "''c''"]
  show ?thesis by (simp add: tier_skip tier_search_Nil)
qed

definition tier_ok :: "cond_part list \<times> jsstr \<times> jsstr \<Rightarrow> bool" where
  "tier_ok = (\<lambda>(cs, l, b). (\<forall>c \<in> set cs. cond_ok c) \<and> label_ok l \<and> body_ok b)"

definition tier_text :: "cond_part list \<times> jsstr \<times> jsstr \<Rightarrow> jsstr" where
  "tier_text = (\<lambda>(cs, l, b). head_text cs @ call_text l b)"

definition tier_match :: "cond_part list \<times> jsstr \<times> jsstr \<Rightarrow> nat \<Rightarrow> jsstr option" where
  "tier_match = (\<lambda>(cs, l, b). map_of (tier_caps cs l b))"

lemma tier_search: "tier_ok t \<Longrightarrow> \<exists>q. rx_search tierRe p (tier_text t @ w) = Some (q, w, tier_caps (fst t) (fst (snd t)) (snd (snd t)))"
  using tier_first search_hit by (cases t) (fastforce simp: tier_ok_def tier_text_def)

lemma rx_all_hit: "rx_search r p s = Some (q, w, cs) \<Longrightarrow> rx_all (Suc k) r p s = map_of cs # rx_all k r q w"
  by (simp add: caps_grp)

lemma tier_all:
  assumes "\<And>p. rx_search tierRe p w = None"
  shows "\<forall>t \<in> set ts. tier_ok t \<Longrightarrow> ts \<noteq> [] \<Longrightarrow> length ts < k \<Longrightarrow>
    rx_all k tierRe p (js_join '' : '' (map tier_text ts) @ w) = map tier_match ts"
proof (induction ts arbitrary: k p rule: induct_list012)
  case (2 t)
  then obtain q where q: "rx_search tierRe p (tier_text t @ w) = Some (q, w, tier_caps (fst t) (fst (snd t)) (snd (snd t)))"
    using tier_search by fastforce
  obtain j where "k = Suc (Suc j)" using 2(3) by (cases k; cases "k - 1") auto
  then show ?case using rx_all_hit [OF q] assms by (simp add: tier_match_def split: prod.splits)
next
  case (3 t u ts)
  obtain j where k: "k = Suc j" "length (u # ts) < j" using 3(5) by (cases k) auto
  have "j > 0" using k(2) by simp
  then obtain i where i: "j = Suc i" by (cases j) auto
  let ?rest = "js_join '' : '' (map tier_text (u # ts)) @ w"
  obtain q where q: "rx_search tierRe p (tier_text t @ '' : '' @ ?rest) = Some (q, '' : '' @ ?rest, tier_caps (fst t) (fst (snd t)) (snd (snd t)))"
    using tier_search [of t] 3(3) by fastforce
  have "rx_all k tierRe p (tier_text t @ '' : '' @ ?rest) = tier_match t # rx_all j tierRe q ('' : '' @ ?rest)"
    using rx_all_hit [OF q, of j] k(1) by (simp add: tier_match_def split: prod.splits)
  also have "rx_all j tierRe q ('' : '' @ ?rest) = rx_all j tierRe (Some CHR '' '') ?rest"
    unfolding i rx_all.simps tier_search_sep ..
  also have "\<dots> = map tier_match (u # ts)" using 3(2) [of j] 3(3) k(2) by simp
  finally show ?case by simp
qed simp

subsection \<open>Reading conditions\<close>

lemma val_clean: "is_val_char c \<Longrightarrow> c \<noteq> CHR ''&'' \<and> \<not> js_ws c"
  by (auto simp: is_val_char_def is_digit_def js_ws_def)

lemma part_text_chars:
  assumes "cond_ok c"
  shows "CHR ''&'' \<notin> set (part_text c)" "\<not> js_ws (last (part_text c))" "trimmed (part_text c)"
proof -
  obtain var op val where c: "c = (var, op, val)" by (cases c)
  have o: "var \<in> set cond_vars" "op \<in> set cond_ops" and v: "val \<noteq> []" "list_all is_val_char val"
    using assms by (simp_all add: c cond_ok_def val_ok_def)
  have "CHR ''&'' \<notin> set var" "CHR ''&'' \<notin> set op" using o by (auto simp: cond_vars_def cond_ops_def)
  moreover have "CHR ''&'' \<notin> set val" using v(2) val_clean unfolding list_all_iff by blast
  ultimately show "CHR ''&'' \<notin> set (part_text c)" by (simp add: c part_text_def cond_text1_def)
  have "is_val_char (last val)" using v unfolding list_all_iff by simp
  then show l: "\<not> js_ws (last (part_text c))" using v(1) val_clean by (simp add: c part_text_def cond_text1_def)
  show "trimmed (part_text c)" using l part_hd [OF assms] by (simp add: trimmed_def)
qed

lemma and_fails_run:
  assumes "CHR ''&'' \<notin> set u" "u \<noteq> []" "\<not> js_ws (last u)"
  shows "rx_match and_rx (p, u @ w, cs) = []"
proof (rule and_fails)
  have "dropWhile js_ws u \<noteq> []" using assms(2,3) last_in_set by (auto simp: dropWhile_eq_Nil_conv)
  moreover from this have "dropWhile js_ws (u @ w) = dropWhile js_ws u @ w" by (auto simp: dropWhile_append dropWhile_eq_Nil_conv)
  moreover have "hd (dropWhile js_ws u) \<noteq> CHR ''&''"
    using calculation(1) assms(1) hd_in_set set_dropWhileD by metis
  ultimately show "\<not> js_startsWith (dropWhile js_ws (u @ w)) ''&&''"
    by (cases "dropWhile js_ws u") auto
qed

lemma split_and_run:
  "CHR ''&'' \<notin> set u \<Longrightarrow> u = [] \<or> \<not> js_ws (last u) \<Longrightarrow> \<exists>q. rx_split and_rx p part (u @ w) = rx_split and_rx q (part @ u) w"
proof (induction u arbitrary: p part)
  case (Cons c u)
  have "rx_match and_rx (p, (c # u) @ w, []) = []" using Cons.prems by (intro and_fails_run) auto
  then have "rx_split and_rx p part ((c # u) @ w) = rx_split and_rx (Some c) (part @ [c]) (u @ w)" by simp
  then show ?case using Cons.IH [of "Some c" "part @ [c]"] Cons.prems by (auto split: if_splits)
qed auto

lemma split_and_sep:
  assumes "w \<noteq> []" "\<not> js_ws (hd w)"
  shows "rx_split and_rx q part ('' && '' @ w) = part # rx_split and_rx (Some CHR '' '') [] w"
proof -
  obtain xs where "rx_match and_rx (q, CHR '' '' # ''&& '' @ w, []) = (Some CHR '' '', w, []) # xs"
    using and_first [OF assms, of q "[]"] by auto
  then show ?thesis by simp
qed

lemma split_conds:
  "\<forall>c \<in> set cs. cond_ok c \<Longrightarrow> cs \<noteq> [] \<Longrightarrow> rx_split and_rx p [] (conds_text cs) = map part_text cs"
  unfolding conds_text_def
proof (induction cs arbitrary: p rule: induct_list012)
  case (2 c)
  then have "cond_ok c" by simp
  from split_and_run [of "part_text c" p "[]" "[]"] part_text_chars [OF this] show ?case by auto
next
  case (3 c d cs)
  then have ok: "cond_ok c" "cond_ok d" by simp_all
  let ?rest = "js_join '' && '' (map part_text (d # cs))"
  have d: "part_text d \<noteq> [] \<and> \<not> js_ws (hd (part_text d))" using part_hd [OF ok(2)] by simp
  then have rest: "?rest \<noteq> []" "\<not> js_ws (hd ?rest)" using js_join_hd [of "part_text d" "'' && ''"] by auto
  obtain q where "rx_split and_rx p [] (part_text c @ '' && '' @ ?rest) = rx_split and_rx q (part_text c) ('' && '' @ ?rest)"
    using split_and_run [of "part_text c" p "[]", OF part_text_chars(1) [OF ok(1)] disjI2 [OF part_text_chars(2) [OF ok(1)]]]
    unfolding append_Nil by blast
  also have "\<dots> = part_text c # rx_split and_rx (Some CHR '' '') [] ?rest" by (rule split_and_sep [OF rest])
  also have "\<dots> = map part_text (c # d # cs)" using 3(2) 3(3) by simp
  finally show ?case by simp
qed simp

lemma match_grp_alt:
  "rx_match (RSeq (RGrp n (rx_alt (map rx_lit ws))) b) (p, s, cs) =
    concat (map (\<lambda>w. rx_match b (prev_of p w, drop (length w) s, (n, w) # cs)) (filter (js_startsWith s) ws))"
proof -
  have "take (length s - length (drop (length w) s)) s = w" if "js_startsWith s w" for w
    using that by (auto simp: js_startsWith_iff)
  then have "map (\<lambda>w. (prev_of p w, drop (length w) s, (n, take (length s - length (drop (length w) s)) s) # cs)) (filter (js_startsWith s) ws) =
      map (\<lambda>w. (prev_of p w, drop (length w) s, (n, w) # cs)) (filter (js_startsWith s) ws)"
    by simp
  then show ?thesis unfolding match_seq [of "RGrp _ _"] match_grp match_alt_lits
    by (simp only: map_map comp_def prod.case)
qed

lemma parse_part:
  assumes "cond_ok (var, op, val)"
  shows "parse_one_cond (part_text (var, op, val)) = Some \<lparr>tc_var = var, tc_op = op, tc_value = js_Number_str val\<rparr>"
proof -
  have c: "var \<in> set cond_vars" "op \<in> set cond_ops" "val \<noteq> []" "list_all is_val_char val"
    using assms by (auto simp: cond_ok_def val_ok_def)
  let ?fin = "RSeq (RGrp 3 (rx_plus (RCls is_val_char))) REol"
  have hv: "\<not> js_ws (hd val)" using c(3,4) val_clean by (cases val) auto
  have st: "stops js_ws ?fin" unfolding rx_plus_def by (intro stops_seq stops_grp stops_class) (simp add: val_char_ws)
  have e: "rx_match ?fin (p, val, cs) = [(prev_of p val, [], (3, val) # cs)]" for p cs
    using match_grp_plus_then [OF stops_eol c(4,3), of "[]" 3 p cs] by simp
  have bad: "rx_match (RSeq rx_spaces ?fin) (p, CHR ''='' # s, cs) = []" for p s cs
    using spaces_then(2) [OF st, of "CHR ''='' # s" p cs]
    by (simp add: js_ws_def rx_plus_def is_val_char_def is_digit_def)
  have good: "rx_match (RSeq rx_spaces ?fin) (p, '' '' @ val, cs) = [(prev_of (Some CHR '' '') val, [], (3, val) # cs)]" for p cs
    using spaces_then(1) [OF st] hv e by simp
  have ops: "rx_match (RSeq (RGrp 2 (rx_alt (map rx_lit cond_ops))) (RSeq rx_spaces ?fin)) (p, op @ '' '' @ val, cs) =
      [(prev_of (Some CHR '' '') val, [], (3, val) # (2, op) # cs)]" for p cs
    using c(2) bad good unfolding match_grp_alt cond_ops_def by (auto simp del: rx_match.simps)
  have st2: "stops js_ws (RSeq (RGrp 2 (rx_alt (map rx_lit cond_ops))) (RSeq rx_spaces ?fin))"
    by (intro stops_seq stops_grp stops_ws_ops)
  have ho: "op @ '' '' @ val = [] \<or> \<not> js_ws (hd (op @ '' '' @ val))" using c(2) by (auto simp: cond_ops_def js_ws_def)
  have f: "filter (js_startsWith (var @ '' '' @ op @ '' '' @ val)) cond_vars = [var]" using c(1) by (auto simp: cond_vars_def)
  have "js_match one_cond_rx (var @ '' '' @ op @ '' '' @ val) = Some (map_of [(3, val), (2, op), (1, var)])"
    unfolding one_cond_rx_def
    by (rule match_some) (simp only: match_grp_lits [OF f] spaces_then(1) [OF st2 ho] ops)
  moreover have "js_trim (part_text (var, op, val)) = var @ '' '' @ op @ '' '' @ val"
    using part_text_chars(3) [OF assms] js_trim_id by (simp add: part_text_def cond_text1_def)
  ultimately show ?thesis by (simp add: parse_one_cond_def grp_def)
qed

definition read_cond :: "cond_part \<Rightarrow> TierCondition" where
  "read_cond = (\<lambda>(var, op, val). \<lparr>tc_var = var, tc_op = op, tc_value = js_Number_str val\<rparr>)"

lemma parse_conds: "\<forall>c \<in> set cs. cond_ok c \<Longrightarrow> parse_cond_str (conds_text cs) = map read_cond cs"
proof (cases "cs = []")
  case False
  assume ok: "\<forall>c \<in> set cs. cond_ok c"
  then have "\<forall>c \<in> set cs. parse_one_cond (part_text c) = Some (read_cond c)"
    using parse_part by (auto simp: read_cond_def)
  then have "List.map_filter parse_one_cond (map part_text cs) = map read_cond cs"
    by (induction cs) (simp_all add: List.map_filter_simps)
  moreover have "conds_text cs \<noteq> []" using False ok part_hd js_join_hd by (cases cs) (auto simp: conds_text_def)
  ultimately show ?thesis using split_conds [OF ok False] by (simp add: parse_cond_str_def)
qed (simp add: conds_text_def parse_cond_str_def)

subsection \<open>Reading prices\<close>

definition price_keys :: "jsstr list" where
  "price_keys = [''p'', ''c'', ''cr'', ''cc'', ''cc1h'', ''img'', ''img_o'', ''ai'', ''ao'']"

lemma billing_vars:
  "map v_key BILLING_PRICING_VARS = price_keys"
  "map fst BILLING_VAR_KEY_TO_FIELD = price_keys"
  "map snd BILLING_CACHE_VAR_MAP = drop 2 price_keys"
  "map fst BILLING_CACHE_VAR_MAP = EXTRA_COST_FIELDS"
  by (simp_all add: BILLING_PRICING_VARS_def BILLING_VARS_def price_keys_def BILLING_VAR_KEY_TO_FIELD_def
      BILLING_CACHE_VAR_MAP_def BILLING_EXTRA_VARS_def EXTRA_COST_FIELDS_def)

definition price_tail_rx :: rx where
  "price_tail_rx = RSeq rx_spaces (RSeq (rx_lit ''*'') (RSeq rx_spaces (num_rx 2)))"

lemma price_rx: "BILLING_VAR_REGEX = RSeq RWordB (RSeq (RGrp 1 (rx_alt (map rx_lit price_keys))) price_tail_rx)"
proof -
  have "map (\<lambda>v. rx_lit (v_key v)) BILLING_PRICING_VARS = map rx_lit (map v_key BILLING_PRICING_VARS)" by simp
  then show ?thesis unfolding BILLING_VAR_REGEX_def billing_vars price_tail_rx_def by (simp only:)
qed

definition num_ok :: "jsstr \<Rightarrow> bool" where
  "num_ok n \<longleftrightarrow> n \<noteq> [] \<and> list_all is_num_char n"

lemma num_hd: "num_ok n \<Longrightarrow> \<not> js_ws (hd n)"
  using num_char by (cases n) (auto simp: num_ok_def)

lemma stops_ws_times: "stops js_ws (RSeq (rx_lit ''*'') b)"
  by (intro stops_seq stops_lit) (simp add: js_ws_def)

lemma price_tail_fails: "\<not> js_ws c \<Longrightarrow> c \<noteq> CHR ''*'' \<Longrightarrow> rx_match price_tail_rx (p, c # s, cs) = []"
  unfolding price_tail_rx_def using spaces_then(2) [OF stops_ws_times, of "c # s"] match_lit_fails [of "c # s" "''*''"]
  by (simp del: rx_match.simps)

lemma price_tail_first:
  assumes "num_ok n" "w = [] \<or> \<not> is_num_char (hd w)"
  shows "\<exists>q xs. rx_match price_tail_rx (p, '' * '' @ n @ w, cs) = (q, w, (2, n) # cs) # xs"
proof -
  have st: "stops js_ws (num_rx 2)" unfolding num_rx_def rx_plus_def
    by (intro stops_grp stops_seq stops_class) (use num_char in blast)
  have h: "n @ w = [] \<or> \<not> js_ws (hd (n @ w))" using num_hd [OF assms(1)] assms(1) by (auto simp: num_ok_def)
  have "rx_match price_tail_rx (p, '' '' @ ''* '' @ n @ w, cs) =
      rx_match (RSeq (rx_lit ''*'') (RSeq rx_spaces (num_rx 2))) (Some CHR '' '', ''* '' @ n @ w, cs)"
    unfolding price_tail_rx_def by (rule spaces_then(1) [OF stops_ws_times]) (simp add: js_ws_def)
  also have "\<dots> = rx_match (RSeq rx_spaces (num_rx 2)) (prev_of (Some CHR '' '') ''*'', '' '' @ n @ w, cs)"
    using match_lit_then [of "''*''" "RSeq rx_spaces (num_rx 2)" "Some CHR '' ''" "'' '' @ n @ w" cs] by simp
  also have "\<dots> = rx_match (num_rx 2) (Some CHR '' '', n @ w, cs)" by (rule spaces_then(1) [OF st h])
  finally have e: "rx_match price_tail_rx (p, '' * '' @ n @ w, cs) = rx_match (num_rx 2) (Some CHR '' '', n @ w, cs)" by simp
  obtain xs where "rx_match (rx_plus (RCls is_num_char)) (Some CHR '' '', n @ w, cs) = (Some (last n), w, cs) # xs"
    using plus_class_first [of is_num_char n w] assms by (auto simp: num_ok_def)
  from grp_first [OF this] show ?thesis unfolding e num_rx_def by blast
qed

lemma key_first:
  assumes "k \<in> set price_keys" "num_ok n" "w = [] \<or> \<not> is_num_char (hd w)"
  shows "\<exists>q xs. rx_match (RSeq (RGrp 1 (rx_alt (map rx_lit price_keys))) price_tail_rx) (p, k @ '' * '' @ n @ w, []) = (q, w, [(2, n), (1, k)]) # xs"
proof -
  let ?t = "'' * '' @ n @ w"
  obtain q xs where hit: "rx_match price_tail_rx (prev_of p k, ?t, [(1, k)]) = (q, w, [(2, n), (1, k)]) # xs"
    using price_tail_first [OF assms(2,3)] by blast
  have miss: "rx_match price_tail_rx (q, c # s, cs) = []" if "c \<in> set ''rc1_m''" for q c s cs
    using that by (intro price_tail_fails) (auto simp: js_ws_def)
  have "concat (map (\<lambda>u. rx_match price_tail_rx (prev_of p u, drop (length u) (k @ ?t), [(1, u)])) (filter (js_startsWith (k @ ?t)) price_keys))
      = rx_match price_tail_rx (prev_of p k, ?t, [(1, k)])"
    using assms(1) unfolding price_keys_def by (elim set_ConsD [elim_format] disjE) (simp_all add: miss del: rx_match.simps)
  then show ?thesis unfolding match_grp_alt using hit by simp
qed

lemma price_first:
  assumes "k \<in> set price_keys" "num_ok n" "w = [] \<or> \<not> is_num_char (hd w)" "p = None \<or> p = Some CHR '' ''"
  shows "\<exists>q xs. rx_match BILLING_VAR_REGEX (p, k @ '' * '' @ n @ w, []) = (q, w, [(2, n), (1, k)]) # xs"
proof -
  have "k \<noteq> [] \<and> is_word (hd k)" using assms(1) by (auto simp: price_keys_def is_word_def)
  then have "rx_match RWordB (p, k @ '' * '' @ n @ w, []) = [(p, k @ '' * '' @ n @ w, [])]"
    using assms(4) by (auto simp: is_word_def)
  then show ?thesis unfolding price_rx match_seq [of RWordB] using key_first [OF assms(1-3)] by (simp del: rx_match.simps)
qed

lemma price_skip:
  assumes "c = CHR '' '' \<or> c = CHR ''+''"
  shows "rx_search BILLING_VAR_REGEX p (c # s) = rx_search BILLING_VAR_REGEX (Some c) s"
proof (rule search_skip)
  have "filter (js_startsWith (c # s)) price_keys = []" using assms by (auto simp: price_keys_def)
  then have "rx_match (RSeq (RGrp 1 (rx_alt (map rx_lit price_keys))) price_tail_rx) (p, c # s, []) = []"
    unfolding match_grp_alt by simp
  then show "rx_match BILLING_VAR_REGEX (p, c # s, []) = []" unfolding price_rx by (simp del: rx_match.simps(2,6) add: match_seq)
qed

lemma price_search_Nil: "rx_search BILLING_VAR_REGEX p [] = None"
proof -
  have "rx_match BILLING_VAR_REGEX (p, [], []) = []" unfolding price_rx by (simp add: price_keys_def)
  then show ?thesis by (subst rx_search.simps) simp
qed

definition term_text :: "jsstr \<times> jsstr \<Rightarrow> jsstr" where
  "term_text = (\<lambda>(k, n). k @ '' * '' @ n)"

definition terms_ok :: "(jsstr \<times> jsstr) list \<Rightarrow> bool" where
  "terms_ok ts \<longleftrightarrow> distinct (map fst ts) \<and> (\<forall>(k, n) \<in> set ts. k \<in> set price_keys \<and> num_ok n)"

lemma term_search:
  assumes "k \<in> set price_keys" "num_ok n" "w = [] \<or> \<not> is_num_char (hd w)" "p = None \<or> p = Some CHR '' ''"
  shows "\<exists>q. rx_search BILLING_VAR_REGEX p (term_text (k, n) @ w) = Some (q, w, [(2, n), (1, k)])"
  using price_first [OF assms] search_hit by (fastforce simp: term_text_def)

definition price_caps :: "jsstr \<times> jsstr \<Rightarrow> nat \<Rightarrow> jsstr option" where
  "price_caps = (\<lambda>(k, n). map_of [(2, n), (1, k)])"

lemma grp_price_caps: "grp (price_caps (k, n)) 1 = k" "grp (price_caps (k, n)) 2 = n"
  by (simp_all add: price_caps_def grp_def)

lemma price_hit:
  assumes "rx_search BILLING_VAR_REGEX p s = Some (q, w, [(2, n), (1, k)])"
  shows "rx_all (Suc (Suc j)) BILLING_VAR_REGEX p s = price_caps (k, n) # rx_all (Suc j) BILLING_VAR_REGEX q w"
  unfolding price_caps_def prod.case by (rule rx_all_hit [OF assms])

lemma price_all:
  "\<forall>(k, n) \<in> set ts. k \<in> set price_keys \<and> num_ok n \<Longrightarrow> length ts < m \<Longrightarrow> p = None \<or> p = Some CHR '' '' \<Longrightarrow>
    rx_all m BILLING_VAR_REGEX p (js_join '' + '' (map term_text ts)) = map price_caps ts"
proof (induction ts arbitrary: m p rule: induct_list012)
  case 1
  then obtain j where "m = Suc j" by (cases m) auto
  then show ?case by (simp add: price_search_Nil)
next
  case (2 t)
  obtain k n where t: "t = (k, n)" by (cases t)
  then obtain q where q: "rx_search BILLING_VAR_REGEX p (term_text t @ []) = Some (q, [], [(2, n), (1, k)])"
    using 2 term_search [of k n "[]" p] by auto
  obtain j where "m = Suc (Suc j)" using 2(2) by (cases m; cases "m - 1") auto
  then show ?case using price_hit [OF q] price_search_Nil by (simp add: t)
next
  case (3 t u ts)
  obtain k n where t: "t = (k, n)" by (cases t)
  obtain i where m: "m = Suc (Suc i)" "length (u # ts) < Suc i" using 3(4) by (cases m; cases "m - 1") auto
  let ?rest = "js_join '' + '' (map term_text (u # ts))"
  have "'' + '' @ ?rest = [] \<or> \<not> is_num_char (hd ('' + '' @ ?rest))" using not_num_char by simp
  then obtain q where q: "rx_search BILLING_VAR_REGEX p (term_text t @ '' + '' @ ?rest) = Some (q, '' + '' @ ?rest, [(2, n), (1, k)])"
    using 3(3,5) term_search [of k n _ p] unfolding t by fastforce
  have "rx_all m BILLING_VAR_REGEX p (term_text t @ '' + '' @ ?rest) = price_caps (k, n) # rx_all (Suc i) BILLING_VAR_REGEX q ('' + '' @ ?rest)"
    unfolding m by (rule price_hit [OF q])
  also have "rx_all (Suc i) BILLING_VAR_REGEX q ('' + '' @ ?rest) = rx_all (Suc i) BILLING_VAR_REGEX (Some CHR '' '') ?rest"
    unfolding rx_all.simps by (simp add: price_skip)
  also have "\<dots> = map price_caps (u # ts)" using 3(2) [of "Suc i" "Some CHR '' ''"] 3(3) m(2) by simp
  finally show ?case by (simp add: t)
qed

lemma coeff_lookup:
  "obj_get v (fold add_coeff (map price_caps ts) ob) =
    (case obj_get v ob of Some x \<Rightarrow> Some x | None \<Rightarrow> map_option js_Number_str (map_of ts v))"
proof (induction ts arbitrary: ob)
  case (Cons t ts)
  obtain k n where t: "t = (k, n)" by (cases t)
  have "obj_get v (add_coeff (price_caps (k, n)) ob) =
      (case obj_get v ob of Some x \<Rightarrow> Some x | None \<Rightarrow> if v = k then Some (js_Number_str n) else None)"
    unfolding add_coeff_def grp_price_caps by (auto simp: obj_has_get obj_get_set split: option.splits)
  then show ?case using Cons.IH by (auto simp: t split: option.splits)
qed (simp split: option.splits)

lemma term_length: "length ts \<le> length (js_join '' + '' (map term_text ts))"
  by (induction ts rule: induct_list012) (auto simp: term_text_def split: prod.splits)

lemma parse_body:
  assumes "terms_ok ts"
  shows "parseTierBody (js_join '' + '' (map term_text ts)) =
    map (\<lambda>(v, field). (field, num_or_zero (map_option js_Number_str (map_of ts v)))) BILLING_VAR_KEY_TO_FIELD"
proof -
  have "js_exec_all BILLING_VAR_REGEX (js_join '' + '' (map term_text ts)) = map price_caps ts"
    unfolding js_exec_all_def using assms term_length [of ts] by (intro price_all) (auto simp: terms_ok_def)
  then show ?thesis unfolding parseTierBody_def Let_def by (simp add: coeff_lookup js_obj.get_empty)
qed

subsection \<open>The generated expression\<close>

definition tier_cost :: "VisualTier \<Rightarrow> jsstr \<Rightarrow> jsnum" where
  "tier_cost tier v = (if v = ''p'' then num_or_zero (vt_input_unit_cost tier)
     else if v = ''c'' then num_or_zero (vt_output_unit_cost tier)
     else (case map_of (map (\<lambda>(f, k). (k, f)) BILLING_CACHE_VAR_MAP) v of
         Some f \<Rightarrow> num_or_zero (obj_get f (vt_costs tier)) | None \<Rightarrow> num 0))"

definition printable :: "jsnum \<Rightarrow> bool" where
  "printable x \<longleftrightarrow> num_ok (js_num_str x) \<and> js_Number_str (js_num_str x) = x"

definition body_terms :: "VisualTier \<Rightarrow> (jsstr \<times> jsstr) list" where
  "body_terms tier = map (\<lambda>v. (v, js_num_str (tier_cost tier v))) (''p'' # ''c'' # filter (\<lambda>v. tier_cost tier v \<noteq> num 0) (drop 2 price_keys))"

lemma map_filter_pairs:
  assumes "\<And>f v. (f, v) \<in> set fs \<Longrightarrow> g f = h v"
  shows "List.map_filter (\<lambda>(f, v). let x = g f in if x \<noteq> z then Some (t v x) else None) fs = map (\<lambda>v. t v (h v)) (filter (\<lambda>v. h v \<noteq> z) (map snd fs))"
  using assms
proof (induction fs)
  case (Cons a fs)
  have "g (fst a) = h (snd a)" using Cons.prems [of "fst a" "snd a"] by simp
  moreover note Cons.IH [OF Cons.prems]
  ultimately show ?case by (cases a) (simp add: List.map_filter_simps Let_def)
qed (simp add: List.map_filter_simps)

lemma body_text: "buildTierBodyExpr tier = js_join '' + '' (map term_text (body_terms tier))"
proof -
  have "extra_terms tier = map (\<lambda>v. v @ '' * '' @ js_num_str (tier_cost tier v)) (filter (\<lambda>v. tier_cost tier v \<noteq> num 0) (map snd BILLING_CACHE_VAR_MAP))"
    unfolding extra_terms_def
  proof (rule map_filter_pairs)
    fix f v assume "(f, v) \<in> set BILLING_CACHE_VAR_MAP"
    then show "num_or_zero (obj_get f (vt_costs tier)) = tier_cost tier v"
      by (auto simp: tier_cost_def BILLING_CACHE_VAR_MAP_def BILLING_EXTRA_VARS_def BILLING_VARS_def)
  qed
  then show ?thesis unfolding buildTierBodyExpr_def Let_def body_terms_def billing_vars
    by (simp add: term_text_def tier_cost_def [of _ "''p''"] tier_cost_def [of _ "''c''"] comp_def)
qed

lemma cost_normal: "num_or_zero (Some (tier_cost tier v)) = tier_cost tier v"
  by (auto simp: tier_cost_def num_or_zero_def num_or_def js_truthy_num_def js_isNaN_def split: option.splits)

lemma body_terms_ok:
  assumes "\<forall>v \<in> set price_keys. printable (tier_cost tier v)"
  shows "terms_ok (body_terms tier)"
    "v \<in> set price_keys \<Longrightarrow> num_or_zero (map_option js_Number_str (map_of (body_terms tier) v)) = tier_cost tier v"
proof -
  have sub: "set (filter Q (drop 2 price_keys)) \<subseteq> set price_keys" "''p'' \<in> set price_keys" "''c'' \<in> set price_keys" for Q
    by (auto simp: price_keys_def)
  have "distinct (''p'' # ''c'' # filter Q (drop 2 price_keys))" for Q
    by (simp add: price_keys_def)
  then show "terms_ok (body_terms tier)"
    using assms sub by (auto simp: terms_ok_def body_terms_def comp_def printable_def)
  assume v: "v \<in> set price_keys"
  have m: "map_of (map (\<lambda>v. (v, g v)) xs) v = (if v \<in> set xs then Some (g v) else None)" for g :: "jsstr \<Rightarrow> jsstr" and xs
    by (induction xs) auto
  have "v = ''p'' \<or> v = ''c'' \<or> v \<in> set (drop 2 price_keys)" using v by (auto simp: price_keys_def)
  then show "num_or_zero (map_option js_Number_str (map_of (body_terms tier) v)) = tier_cost tier v"
    unfolding body_terms_def m using assms v cost_normal [of tier v] by (auto simp: printable_def num_or_zero_def)
qed

definition conds_of :: "VisualTier \<Rightarrow> cond_part list" where
  "conds_of tier = map (\<lambda>c. (ci_var c, ci_op c, cond_value_str (ci_value c)))
     (filter cond_complete (case vt_conditions tier of Some cs \<Rightarrow> cs | None \<Rightarrow> []))"

definition visual_ok :: "VisualTier \<Rightarrow> bool" where
  "visual_ok tier \<longleftrightarrow> label_ok (label_or (vt_label tier) []) \<and> (\<forall>c \<in> set (conds_of tier). cond_ok c) \<and>
     (\<forall>v \<in> set price_keys. printable (tier_cost tier v))"

definition read_tier :: "jsstr \<Rightarrow> cond_part list \<Rightarrow> VisualTier \<Rightarrow> ParsedTier" where
  "read_tier lbl cs tier = \<lparr>pt_label = lbl, pt_conditions = map read_cond cs,
     pt_fields = map (\<lambda>(v, field). (field, tier_cost tier v)) BILLING_VAR_KEY_TO_FIELD\<rparr>"

text \<open>
  The tiers a configuration stands for: missing labels are filled in, the incomplete conditions and
  those of the last of several tiers are dropped.
\<close>

definition config_tiers :: "VisualTier list \<Rightarrow> ParsedTier list" where
  "config_tiers tiers = (case tiers of
       [tier] \<Rightarrow> [read_tier (label_or (vt_label tier) ''default'') (conds_of tier) tier]
     | _ \<Rightarrow> map (\<lambda>(i, tier). read_tier (label_or (vt_label tier) (''tier_'' @ dec_str (int i + 1)))
          (if i < length tiers - 1 then conds_of tier else []) tier) (enumerate 0 tiers))"

lemma condition_text: "buildConditionStr (vt_conditions tier) = conds_text (conds_of tier)"
  unfolding buildConditionStr_def conds_text_def conds_of_def
  by (simp add: part_text_def cond_text1_def comp_def split: option.splits)

lemma conds_text_Nil_iff: "\<forall>c \<in> set cs. cond_ok c \<Longrightarrow> conds_text cs = [] \<longleftrightarrow> cs = []"
  using part_hd by (cases cs) (auto simp: conds_text_Cons, simp add: conds_text_def)

lemma call_text_call: "tier_call lbl tier = call_text lbl (buildTierBodyExpr tier)"
  by (simp add: tier_call_def call_text_def)

lemma term_chars: "terms_ok ts \<Longrightarrow> t \<in> set ts \<Longrightarrow> c \<in> set (term_text t) \<Longrightarrow> c \<notin> set ''():''"
proof -
  assume a: "terms_ok ts" "t \<in> set ts" "c \<in> set (term_text t)"
  obtain k n where t: "t = (k, n)" by (cases t)
  have k: "k \<in> set price_keys" and n: "list_all is_num_char n" using a(1,2) by (auto simp: t terms_ok_def num_ok_def)
  have "\<not> is_num_char d" if "d \<in> set ''():''" for d using that by (auto simp: is_num_char_def is_digit_def)
  then have "c \<notin> set ''():''" if "c \<in> set n" using that n unfolding list_all_iff by blast
  moreover have "c \<notin> set ''():''" if "c \<in> set k" using that k by (auto simp: price_keys_def)
  ultimately show ?thesis using a(3) by (auto simp: t term_text_def)
qed

lemma js_join_set: "c \<in> set (js_join sep xs) \<Longrightarrow> c \<in> set sep \<or> (\<exists>x \<in> set xs. c \<in> set x)"
  by (induction sep xs rule: js_join.induct) auto

lemma body_chars: "terms_ok (body_terms tier) \<Longrightarrow> c \<in> set (buildTierBodyExpr tier) \<Longrightarrow> c \<notin> set ''():''"
  unfolding body_text using js_join_set [of c "'' + ''"] term_chars by fastforce

lemma body_ok_terms: "terms_ok (body_terms tier) \<Longrightarrow> body_ok (buildTierBodyExpr tier)"
proof -
  assume ok: "terms_ok (body_terms tier)"
  have "c \<noteq> CHR '')''" if "c \<in> set (buildTierBodyExpr tier)" for c using body_chars [OF ok that] by auto
  moreover have "\<exists>s. buildTierBodyExpr tier = CHR ''p'' # s" by (auto simp: buildTierBodyExpr_def Let_def)
  ultimately show ?thesis unfolding body_ok_def list_all_iff by (auto simp: js_ws_def)
qed

lemma no_version: "s \<noteq> [] \<Longrightarrow> hd s \<noteq> CHR ''v'' \<Longrightarrow> body (stripExprVersion s) = s"
proof -
  assume s: "s \<noteq> []" "hd s \<noteq> CHR ''v''"
  then have "js_match version_rx s = None" unfolding version_rx_def by (cases s) (auto intro!: match_none match_lit_fails)
  then show ?thesis using s(1) by (simp add: stripExprVersion_def)
qed

lemma parsed_match:
  assumes "visual_ok tier" "\<forall>c \<in> set cs. cond_ok c"
  shows "parsed_tier (tier_match (cs, lbl, buildTierBodyExpr tier)) = read_tier lbl cs tier"
proof -
  have t: "terms_ok (body_terms tier)"
    "v \<in> set price_keys \<Longrightarrow> num_or_zero (map_option js_Number_str (map_of (body_terms tier) v)) = tier_cost tier v" for v
    using assms(1) body_terms_ok(2) [of tier v] body_terms_ok(1) [of tier] by (auto simp: visual_ok_def)
  have k: "v \<in> set price_keys" if "(v, f) \<in> set BILLING_VAR_KEY_TO_FIELD" for v f
    unfolding billing_vars(2) [symmetric] using that by force
  have b: "parseTierBody (buildTierBodyExpr tier) = map (\<lambda>(v, field). (field, tier_cost tier v)) BILLING_VAR_KEY_TO_FIELD"
    unfolding body_text parse_body [OF t(1)] by (rule map_cong [OF refl]) (auto dest!: k simp: t(2))
  have m: "tier_match (cs, lbl, bd) 2 = Some lbl" "tier_match (cs, lbl, bd) 3 = Some bd"
    "tier_match (cs, lbl, bd) 1 = (if cs = [] then None else Some (conds_text cs))" for bd
    by (simp_all add: tier_match_def tier_caps_def)
  show ?thesis using parse_conds [OF assms(2)] unfolding parsed_tier_def read_tier_def grp_def m
    by (auto simp: parse_cond_str_def b)
qed

lemma label_default: "label_ok (label_or l []) \<Longrightarrow> label_ok d \<Longrightarrow> label_ok (label_or l d)"
  by (auto simp: label_or_def split: option.splits)

lemma tier_label_ok: "label_ok (''tier_'' @ dec_str (int i + 1))"
proof -
  have "not_quote c" if "c \<in> set (dec_str (int i + 1))" for c
    using dec_str_digits [OF _ that] by (auto simp: not_quote_def is_digit_def)
  then show ?thesis by (simp add: label_ok_def list_all_iff not_quote_def)
qed

text \<open>The parts of an expression, as the tier pattern sees them.\<close>

definition part_of :: "nat \<Rightarrow> nat \<times> VisualTier \<Rightarrow> cond_part list \<times> jsstr \<times> jsstr" where
  "part_of n = (\<lambda>(i, tier). (if i < n - 1 then conds_of tier else [],
     label_or (vt_label tier) (''tier_'' @ dec_str (int i + 1)), buildTierBodyExpr tier))"

lemma part_ok:
  assumes "visual_ok tier" "\<forall>c \<in> set cs. cond_ok c" "label_ok d"
  shows "tier_ok (cs, label_or (vt_label tier) d, buildTierBodyExpr tier)"
  using assms body_terms_ok(1) body_ok_terms label_default by (auto simp: visual_ok_def tier_ok_def)

lemma parts_text:
  "\<forall>tier \<in> set tiers. visual_ok tier \<Longrightarrow> tier_parts i n tiers = map (tier_text \<circ> part_of n) (enumerate i tiers)"
proof (induction tiers arbitrary: i)
  case (Cons tier tiers)
  have "\<forall>c \<in> set (conds_of tier). cond_ok c" using Cons.prems by (simp add: visual_ok_def)
  from conds_text_Nil_iff [OF this] show ?case using Cons
    by (auto simp: Let_def part_of_def tier_text_def head_text_def condition_text call_text_call)
qed simp

lemma in_set_enumerate_tier: "(i, x) \<in> set (enumerate n xs) \<Longrightarrow> x \<in> set xs"
  by (induction xs arbitrary: n) auto

lemma part_ok_all:
  assumes "\<forall>tier \<in> set tiers. visual_ok tier" "p \<in> set (enumerate i tiers)"
  shows "tier_ok (part_of n p)" "parsed_tier (tier_match (part_of n p)) =
    (\<lambda>(i, tier). read_tier (label_or (vt_label tier) (''tier_'' @ dec_str (int i + 1))) (if i < n - 1 then conds_of tier else []) tier) p"
proof -
  obtain j tier where p: "p = (j, tier)" by (cases p)
  have "snd p \<in> set tiers" using assms(2) by (metis imageI list.set_map map_snd_enumerate)
  then have ok: "visual_ok tier" using assms(1) by (simp add: p)
  then have c: "\<forall>c \<in> set (if j < n - 1 then conds_of tier else []). cond_ok c" by (simp add: visual_ok_def)
  show "tier_ok (part_of n p)" unfolding p part_of_def prod.case by (rule part_ok [OF ok c tier_label_ok])
  show "parsed_tier (tier_match (part_of n p)) =
    (\<lambda>(i, tier). read_tier (label_or (vt_label tier) (''tier_'' @ dec_str (int i + 1))) (if i < n - 1 then conds_of tier else []) tier) p"
    unfolding p part_of_def prod.case by (rule parsed_match [OF ok c])
qed

lemma tier_text_hd: "tier_ok t \<Longrightarrow> tier_text t \<noteq> [] \<and> hd (tier_text t) \<noteq> CHR ''v''"
proof -
  assume a: "tier_ok t"
  obtain cs l b where t: "t = (cs, l, b)" by (cases t)
  show ?thesis
  proof (cases cs)
    case (Cons c ds)
    then have "cond_ok c" using a by (simp add: t tier_ok_def)
    then have "part_text c \<noteq> [] \<and> hd (part_text c) \<noteq> CHR ''v''"
      by (cases c) (auto simp: cond_ok_def part_text_def cond_text1_def cond_vars_def)
    then show ?thesis by (auto simp: t tier_text_def head_text_def Cons conds_text_Cons)
  qed (simp add: t tier_text_def head_text_def call_text_def)
qed

lemma join_ends: "xs \<noteq> [] \<Longrightarrow> \<exists>u. js_join sep xs = u @ last xs"
proof (induction sep xs rule: js_join.induct)
  case (3 sep x y ys)
  then obtain u where "js_join sep (y # ys) = u @ last (y # ys)" by auto
  then have "js_join sep (x # y # ys) = (x @ sep @ u) @ last (x # y # ys)" by simp
  then show ?case ..
qed auto

lemma join_length: "\<forall>x \<in> set xs. x \<noteq> [] \<Longrightarrow> length xs \<le> length (js_join sep xs)"
proof (induction sep xs rule: js_join.induct)
  case (2 sep x)
  then show ?case by (cases x) auto
next
  case (3 sep x y ys)
  then show ?case by (cases x) auto
qed simp

lemma parse_parts:
  assumes "\<And>p. rx_search tierRe p w = None" "\<forall>t \<in> set ts. tier_ok t" "ts \<noteq> []"
  shows "parseTiersFromExpr (js_join '' : '' (map tier_text ts) @ w) = map (parsed_tier \<circ> tier_match) ts"
proof -
  let ?s = "js_join '' : '' (map tier_text ts)"
  have "length ts \<le> length ?s" using join_length [of "map tier_text ts" "'' : ''"] assms(2) tier_text_hd by auto
  then have all: "js_exec_all tierRe (?s @ w) = map tier_match ts"
    unfolding js_exec_all_def by (intro tier_all [OF assms(1,2,3)]) simp
  obtain t us where ts: "ts = t # us" using assms(3) by (cases ts) auto
  have t: "tier_text t \<noteq> [] \<and> hd (tier_text t) \<noteq> CHR ''v''" using tier_text_hd assms(2) ts by simp
  have "?s \<noteq> [] \<and> hd ?s = hd (tier_text t)" using t js_join_hd [of "tier_text t" "'' : ''"] by (auto simp: ts)
  then have "body (stripExprVersion (?s @ w)) = ?s @ w" "?s \<noteq> []" using t by (auto intro!: no_version)
  then show ?thesis by (simp add: parseTiersFromExpr_def all)
qed

lemma config_tiers_many:
  "length tiers \<noteq> 1 \<Longrightarrow> config_tiers tiers =
     map (\<lambda>(i, tier). read_tier (label_or (vt_label tier) (''tier_'' @ dec_str (int i + 1)))
       (if i < length tiers - 1 then conds_of tier else []) tier) (enumerate 0 tiers)"
  unfolding config_tiers_def by (cases tiers; cases "tl tiers") auto

lemma generated_one:
  assumes "\<forall>c \<in> set (conds_of tier). cond_ok c"
  shows "generateExprFromVisualConfig (Some [tier]) =
    tier_text (conds_of tier, label_or (vt_label tier) ''default'', buildTierBodyExpr tier) @
      (if conds_of tier = [] then [] else '' : p * 0 + c * 0'')"
  using conds_text_Nil_iff [OF assms]
  by (simp add: generateExprFromVisualConfig_def Let_def condition_text call_text_call tier_text_def head_text_def)

lemma generated_many:
  assumes "\<forall>tier \<in> set tiers. visual_ok tier" "length tiers \<noteq> 1" "tiers \<noteq> []"
  shows "generateExprFromVisualConfig (Some tiers) = js_join '' : '' (map (tier_text \<circ> part_of (length tiers)) (enumerate 0 tiers))"
proof -
  obtain t u us where tiers: "tiers = t # u # us" using assms(2,3) by (cases tiers; cases "tl tiers") auto
  show ?thesis unfolding tiers generateExprFromVisualConfig_def using parts_text [of tiers 0 "length tiers"] assms(1) by (simp add: tiers)
qed

lemma parse_generated:
  assumes "\<forall>tier \<in> set tiers. visual_ok tier" "tiers \<noteq> []"
  shows "parseTiersFromExpr (generateExprFromVisualConfig (Some tiers)) = config_tiers tiers"
proof (cases "length tiers = 1")
  case True
  then obtain tier where t: "tiers = [tier]" by (auto simp: length_Suc_conv)
  then have ok: "visual_ok tier" and c: "\<forall>c \<in> set (conds_of tier). cond_ok c" using assms(1) by (auto simp: visual_ok_def)
  let ?part = "(conds_of tier, label_or (vt_label tier) ''default'', buildTierBodyExpr tier)"
  have p: "tier_ok ?part" by (rule part_ok [OF ok c]) (simp add: label_ok_def not_quote_def)
  show ?thesis
    using generated_one [OF c] parse_parts [of "if conds_of tier = [] then [] else '' : p * 0 + c * 0''" "[?part]"] p tier_search_zero
      tier_search_Nil parsed_match [OF ok c] by (auto simp: t config_tiers_def split: if_splits)
next
  case False
  let ?ps = "map (part_of (length tiers)) (enumerate 0 tiers)"
  have "\<forall>p \<in> set ?ps. tier_ok p" "?ps \<noteq> []" using part_ok_all(1) [OF assms(1)] assms(2) by (auto, cases tiers, auto)
  then have "parseTiersFromExpr (js_join '' : '' (map tier_text ?ps) @ []) = map (parsed_tier \<circ> tier_match) ?ps"
    by (rule parse_parts [OF tier_search_Nil])
  moreover have "config_tiers tiers = map (parsed_tier \<circ> tier_match) ?ps"
    unfolding config_tiers_many [OF False] map_map comp_def
    by (rule map_cong [OF refl]) (rule part_ok_all(2) [OF assms(1), symmetric])
  ultimately show ?thesis using generated_many [OF assms(1) False assms(2)] by simp
qed

text \<open>C32. The tier editor and the price page agree: the expression generated from a visual configuration
  is parsed into exactly its tiers, with their labels, conditions and prices, where a missing label is
  filled in and the conditions of the last of several tiers are dropped. The labels have no quote, the
  complete conditions have a known variable and operator and an unsigned number, and the prices are
  read back by \<open>Number\<close> as they were printed.
\<close>

theorem visual_config_roundtrip:
  assumes "\<forall>tier \<in> set tiers. visual_ok tier" "tiers \<noteq> []"
  shows "parseTiersFromExpr (generateExprFromVisualConfig (Some tiers)) = config_tiers tiers"
  by (rule parse_generated [OF assms])

definition sample_tiers :: "VisualTier list" where
  "sample_tiers = [
     \<lparr>vt_label = Some ''small'', vt_conditions = Some [\<lparr>ci_var = ''len'', ci_op = ''<='', ci_value = NumValue (num 200000)\<rparr>],
      vt_input_unit_cost = Some (Fin (5/2)), vt_output_unit_cost = Some (num 15), vt_cache_mode = None,
      vt_costs = [(''cache_read_unit_cost'', Fin (1/4))]\<rparr>,
     \<lparr>vt_label = None, vt_conditions = None, vt_input_unit_cost = Some (num 5), vt_output_unit_cost = None, vt_cache_mode = None, vt_costs = []\<rparr>]"

theorem visual_config_roundtrip_witness:
  "generateExprFromVisualConfig (Some sample_tiers) =
     ''len <= 200000 ? tier('' @ [CHR 0x22] @ ''small'' @ [CHR 0x22] @ '', p * 2.5 + c * 15 + cr * 0.25) : tier('' @ [CHR 0x22] @ ''tier_2'' @ [CHR 0x22] @ '', p * 5 + c * 0)''
   \<and> parseTiersFromExpr (generateExprFromVisualConfig (Some sample_tiers)) = config_tiers sample_tiers"
proof
  show "generateExprFromVisualConfig (Some sample_tiers) =
     ''len <= 200000 ? tier('' @ [CHR 0x22] @ ''small'' @ [CHR 0x22] @ '', p * 2.5 + c * 15 + cr * 0.25) : tier('' @ [CHR 0x22] @ ''tier_2'' @ [CHR 0x22] @ '', p * 5 + c * 0)''"
    by code_simp
  have "\<forall>tier \<in> set sample_tiers. visual_ok tier" "sample_tiers \<noteq> []" by code_simp+
  then show "parseTiersFromExpr (generateExprFromVisualConfig (Some sample_tiers)) = config_tiers sample_tiers"
    by (rule visual_config_roundtrip)
qed

text \<open>A price written without blanks is lost: the number pattern takes the plus sign with it, \<open>Number\<close>
  of that text is not a number, and the tier shows an input price of zero.
\<close>

theorem blankless_price_lost:
  "map pt_fields (parseTiersFromExpr (''tier('' @ [CHR 0x22] @ ''b'' @ [CHR 0x22] @ '',p*2+c*3)'')) =
     [map (\<lambda>(v, field). (field, if v = ''c'' then num 3 else num 0)) BILLING_VAR_KEY_TO_FIELD]"
  by code_simp

text \<open>The visual editor accepts an expression with a single tier without comparing it with what it would
  write: a price that is no number is taken as one, and saving the editor's configuration writes zero
  in its place.
\<close>

theorem single_tier_price_lost:
  "map_option generateExprFromVisualConfig (tryParseVisualConfig (Some (''tier('' @ [CHR 0x22] @ ''a'' @ [CHR 0x22] @ '', p * 3-1 + c * 2)''))) =
     Some (''tier('' @ [CHR 0x22] @ ''a'' @ [CHR 0x22] @ '', p * 0 + c * 2)'')"
  by code_simp

lemma multi_parse_inv:
  assumes "tryParseVisualConfig (Some s) = Some cfg" "js_match singleRe (drop_version s) = None"
  shows "strip_ws (generateExprFromVisualConfig cfg) = strip_ws (drop_version s)"
  using assms by (auto simp: tryParseVisualConfig_def Let_def split: list.splits if_splits)

end
