(* ===== verification/Dynamic_Price.thy ===== *)
theory Dynamic_Price
  imports Billing_Tiers Http_Status_Rules
begin

section \<open>Prices of tiered models\<close>

text \<open>
  Model of \<^verbatim>\<open>features/pricing/lib/dynamic-price.ts\<close>: what the price page shows for a model whose price
  is a billing expression. \<open>splitBillingExprAndRequestRules\<close> may throw, and the functions that call it
  pass the exception on.

  Shown: an expression saved by the two editors (tiers and request rules) is shown with exactly its
  tiers; the price entries are the positive finite prices in the order of the table of variables; the
  display ratio agrees with the one of \<^verbatim>\<open>price.ts\<close>.
\<close>

subsection \<open>Definitions\<close>

record DynamicPriceOptions =
  dp_tokenUnit :: TokenUnit
  dp_showRechargePrice :: "bool option"
  dp_priceRate :: "jsnum option"
  dp_usdExchangeRate :: "jsnum option"
  dp_groupRatioMultiplier :: "jsnum option"

record DynamicPriceEntry =
  de_key :: jsstr
  de_field :: jsstr
  de_label :: jsstr
  de_shortLabel :: jsstr
  de_value :: jsnum
  de_formatted :: jsstr
  de_variable :: BillingVar

record DynamicPricingSummary =
  ds_tiers :: "ParsedTier list"
  ds_tier :: "ParsedTier option"
  ds_tierCount :: int
  ds_hasRequestRules :: bool
  ds_isSpecialExpression :: bool
  ds_rawExpression :: jsstr
  ds_entries :: "DynamicPriceEntry list"
  ds_primaryEntries :: "DynamicPriceEntry list"
  ds_secondaryEntries :: "DynamicPriceEntry list"

definition PRIMARY_DYNAMIC_FIELDS :: "jsstr list" where
  "PRIMARY_DYNAMIC_FIELDS = [''inputPrice'', ''outputPrice'']"

definition isDynamicPricingModel :: "PricingModel \<Rightarrow> bool" where
  "isDynamicPricingModel model \<longleftrightarrow> billing_mode model = Some ''tiered_expr'' \<and> str_or_empty (billing_expr model) \<noteq> []"

definition getDynamicDisplayGroupRatio :: "PricingModel \<Rightarrow> jsnum" where
  "getDynamicDisplayGroupRatio model =
     (let groups = enable_groups model; ratios = ratios_of model in
      if length groups = 0 then num 1
      else (let minRatio = fold (\<lambda>grp minRatio.
                  let ratio = obj_get grp ratios in
                  if ratio \<noteq> None \<and> js_lt (the ratio) minRatio then the ratio else minRatio) groups PInf in
            if minRatio = PInf then num 1 else minRatio))"

definition opt_or :: "'a option \<Rightarrow> 'a \<Rightarrow> 'a" where
  \<comment> \<open>the operator \<open>??\<close>\<close>
  "opt_or x d = (case x of Some v \<Rightarrow> v | None \<Rightarrow> d)"

definition formatDynamicUnitPrice :: "Intl \<Rightarrow> SystemConfigState \<Rightarrow> jsnum \<Rightarrow> DynamicPriceOptions \<Rightarrow> jsstr" where
  "formatDynamicUnitPrice intl st valuePerMillionTokens options =
     (let groupRatio = opt_or (dp_groupRatioMultiplier options) (num 1);
          priceRate = opt_or (dp_priceRate options) (num 1);
          exchangeRate = opt_or (dp_usdExchangeRate options) (num 1);
          priceUSD = js_div (js_mul valuePerMillionTokens groupRatio) (TOKEN_UNIT_DIVISORS (dp_tokenUnit options));
          displayPrice = applyRechargeRate priceUSD (opt_or (dp_showRechargePrice options) False) priceRate exchangeRate
      in formatBillingCurrencyFromUSD intl st (Some displayPrice) (Some (opts3 4 6 False)))"

definition getDynamicPricingTiers :: "PricingModel \<Rightarrow> js_error + ParsedTier list" where
  "getDynamicPricingTiers model =
     (if \<not> isDynamicPricingModel model then Inr []
      else (case splitBillingExprAndRequestRules (str_or_empty (billing_expr model)) of
          Inl e \<Rightarrow> Inl e
        | Inr r \<Rightarrow> Inr (parseTiersFromExpr (billingExpr r))))"

definition hasDynamicRequestRules :: "PricingModel \<Rightarrow> js_error + bool" where
  "hasDynamicRequestRules model =
     (if \<not> isDynamicPricingModel model then Inr False
      else (case splitBillingExprAndRequestRules (str_or_empty (billing_expr model)) of
          Inl e \<Rightarrow> Inl e
        | Inr r \<Rightarrow> (case tryParseRequestRuleExpr (requestRuleExpr r) of
            Inl e \<Rightarrow> Inl e
          | Inr gs \<Rightarrow> Inr (case gs of Some l \<Rightarrow> length l \<noteq> 0 | None \<Rightarrow> False))))"

definition tier_price :: "ParsedTier \<Rightarrow> jsstr \<Rightarrow> jsnum" where
  \<comment> \<open>\<open>Number(tier[field])\<close>\<close>
  "tier_price tier field = opt_or (obj_get field (pt_fields tier)) NaN"

definition price_entry :: "Intl \<Rightarrow> SystemConfigState \<Rightarrow> DynamicPriceOptions \<Rightarrow> ParsedTier \<Rightarrow> BillingVar \<Rightarrow> DynamicPriceEntry list" where
  "price_entry intl st options tier variable =
     (case v_field variable of
        None \<Rightarrow> []
      | Some field \<Rightarrow>
          (let value = tier_price tier field in
           if field = [] \<or> \<not> js_isFinite value \<or> js_le value (num 0) then []
           else [\<lparr>de_key = v_key variable, de_field = field, de_label = v_label variable, de_shortLabel = v_shortLabel variable,
                  de_value = value, de_formatted = formatDynamicUnitPrice intl st value options, de_variable = variable\<rparr>]))"

definition is_primary :: "DynamicPriceEntry \<Rightarrow> bool" where
  "is_primary entry \<longleftrightarrow> de_field entry \<in> set PRIMARY_DYNAMIC_FIELDS"

definition primary_le :: "DynamicPriceEntry \<Rightarrow> DynamicPriceEntry \<Rightarrow> bool" where
  \<comment> \<open>the comparator is at most 0\<close>
  "primary_le a b \<longleftrightarrow> (if is_primary a \<noteq> is_primary b then is_primary a else True)"

definition getDynamicPriceEntries ::
  "Intl \<Rightarrow> SystemConfigState \<Rightarrow> ParsedTier option \<Rightarrow> DynamicPriceOptions \<Rightarrow> DynamicPriceEntry list" where
  "getDynamicPriceEntries intl st tier options =
     (case tier of None \<Rightarrow> []
      | Some t \<Rightarrow> sort_by primary_le (concat (map (price_entry intl st options t) BILLING_PRICING_VARS)))"

definition getDynamicPricingSummary ::
  "Intl \<Rightarrow> SystemConfigState \<Rightarrow> PricingModel \<Rightarrow> DynamicPriceOptions \<Rightarrow> js_error + DynamicPricingSummary option" where
  "getDynamicPricingSummary intl st model options =
     (if \<not> isDynamicPricingModel model then Inr None
      else (case getDynamicPricingTiers model of
          Inl e \<Rightarrow> Inl e
        | Inr tiers \<Rightarrow>
            (let tier = (case tiers of [] \<Rightarrow> None | t # _ \<Rightarrow> Some t);
                 entries = getDynamicPriceEntries intl st tier options;
                 rawExpression = str_or_empty (billing_expr model) in
             (case hasDynamicRequestRules model of
                Inl e \<Rightarrow> Inl e
              | Inr rules \<Rightarrow> Inr (Some \<lparr>ds_tiers = tiers, ds_tier = tier, ds_tierCount = int (length tiers),
                  ds_hasRequestRules = rules,
                  ds_isSpecialExpression = (length (js_trim rawExpression) > 0 \<and> length tiers = 0),
                  ds_rawExpression = rawExpression, ds_entries = entries,
                  ds_primaryEntries = filter is_primary entries,
                  ds_secondaryEntries = filter (\<lambda>e. \<not> is_primary e) entries\<rparr>)))))"

subsection \<open>The display ratio\<close>

lemma min_ratio_fold:
  "fold (\<lambda>grp minRatio. let ratio = obj_get grp rs in if ratio \<noteq> None \<and> js_lt (the ratio) minRatio then the ratio else minRatio) gs acc =
     min_ratio_loop gs rs acc"
  by (induction gs arbitrary: acc) (auto simp: Let_def split: option.splits)

text \<open>The two implementations of the displayed group ratio agree: the one of the tiered prices and the
  one of the ratio prices give the same number for every model.
\<close>

theorem display_ratio_agrees:
  "getDynamicDisplayGroupRatio model = getMinGroupRatio (enable_groups model) (ratios_of model)"
  unfolding getDynamicDisplayGroupRatio_def getMinGroupRatio_def min_ratio_fold by (simp add: Let_def)

subsection \<open>The price entries\<close>

interpretation primary_first: total_comparator primary_le
  by unfold_locales (auto simp: primary_le_def split: if_splits)

definition shown_entry :: "Intl \<Rightarrow> SystemConfigState \<Rightarrow> DynamicPriceOptions \<Rightarrow> ParsedTier \<Rightarrow> BillingVar \<Rightarrow> DynamicPriceEntry" where
  "shown_entry intl st options tier v =
     \<lparr>de_key = v_key v, de_field = the (v_field v), de_label = v_label v, de_shortLabel = v_shortLabel v,
      de_value = tier_price tier (the (v_field v)),
      de_formatted = formatDynamicUnitPrice intl st (tier_price tier (the (v_field v))) options, de_variable = v\<rparr>"

definition positive_price :: "ParsedTier \<Rightarrow> BillingVar \<Rightarrow> bool" where
  "positive_price tier v \<longleftrightarrow> js_isFinite (tier_price tier (the (v_field v))) \<and> js_gt (tier_price tier (the (v_field v))) (num 0)"

lemma finite_gt: "js_isFinite x \<Longrightarrow> js_gt x (num 0) \<longleftrightarrow> \<not> js_le x (num 0)"
  by (cases x) (auto simp: js_isFinite_def js_le_def js_eq_def)

lemma price_entry_filter:
  assumes "v_field v \<noteq> None \<and> v_field v \<noteq> Some []"
  shows "price_entry intl st options tier v = (if positive_price tier v then [shown_entry intl st options tier v] else [])"
  using assms finite_gt by (auto simp: price_entry_def positive_price_def shown_entry_def Let_def split: option.splits)

lemma pricing_vars_fields: "\<forall>v \<in> set BILLING_PRICING_VARS. v_field v \<noteq> None \<and> v_field v \<noteq> Some []"
  by (simp add: BILLING_PRICING_VARS_def BILLING_VARS_def)

lemma entries_raw:
  "concat (map (price_entry intl st options tier) BILLING_PRICING_VARS) =
     map (shown_entry intl st options tier) (filter (positive_price tier) BILLING_PRICING_VARS)"
proof -
  have "concat (map (price_entry intl st options tier) vs) = map (shown_entry intl st options tier) (filter (positive_price tier) vs)"
    if "\<forall>v \<in> set vs. v_field v \<noteq> None \<and> v_field v \<noteq> Some []" for vs
    using that price_entry_filter by (induction vs) auto
  from this [OF pricing_vars_fields] show ?thesis .
qed

lemma table_primary_first:
  "sorted_wrt (\<lambda>a b. the (v_field b) \<in> set PRIMARY_DYNAMIC_FIELDS \<longrightarrow> the (v_field a) \<in> set PRIMARY_DYNAMIC_FIELDS) BILLING_PRICING_VARS"
  by (simp add: BILLING_PRICING_VARS_def BILLING_VARS_def PRIMARY_DYNAMIC_FIELDS_def)

text \<open>The price entries of a tier are exactly the variables with a positive finite price, in the order
  of the table of variables: the input and output prices come first there, so the sort leaves them.
\<close>

theorem price_entries_exact:
  "getDynamicPriceEntries intl st (Some tier) options =
     map (shown_entry intl st options tier) (filter (positive_price tier) BILLING_PRICING_VARS)"
proof -
  have "sorted_wrt (\<lambda>a b. primary_le (shown_entry intl st options tier a) (shown_entry intl st options tier b)) BILLING_PRICING_VARS"
    using table_primary_first by (rule sorted_wrt_mono_rel [rotated]) (auto simp: primary_le_def is_primary_def shown_entry_def)
  then have "sorted_wrt primary_le (map (shown_entry intl st options tier) (filter (positive_price tier) BILLING_PRICING_VARS))"
    unfolding sorted_wrt_map by (rule sorted_wrt_filter)
  then show ?thesis unfolding getDynamicPriceEntries_def option.case entries_raw by (rule primary_first.sort_by_id)
qed

subsection \<open>Saved expressions\<close>

lemma star_loop_suffix:
  assumes "\<And>st st'. st' \<in> set (m st) \<Longrightarrow> \<exists>u. fst (snd st) = u @ fst (snd st')"
  shows "st' \<in> set (star_loop m k st) \<Longrightarrow> \<exists>u. fst (snd st) = u @ fst (snd st')"
proof (induction k arbitrary: st)
  case (Suc k)
  show ?case
  proof (cases "st' = st")
    case False
    then obtain mid where "mid \<in> set (m st)" "st' \<in> set (star_loop m k mid)" using Suc.prems by auto
    then show ?thesis using assms [of mid st] Suc.IH [of mid] by auto
  qed simp
qed simp

lemma rx_match_suffix: "st' \<in> set (rx_match r st) \<Longrightarrow> \<exists>u. fst (snd st) = u @ fst (snd st')"
proof (induction r arbitrary: st st')
  case (RCls P)
  then show ?case by (cases st) (auto split: list.splits if_splits)
next
  case (RSeq a b)
  then obtain mid where "mid \<in> set (rx_match a st)" "st' \<in> set (rx_match b mid)" by auto
  then show ?case using RSeq.IH(1) [of mid st] RSeq.IH(2) [of st' mid] by auto
next
  case (RStar a)
  then show ?case using star_loop_suffix [of "rx_match a"] by simp
next
  case (RGrp n a)
  then show ?case by (cases st) fastforce
next
  case (RBack n)
  then show ?case by (cases st) (auto simp: js_startsWith_iff split: option.splits if_splits)
qed (auto split: if_splits prod.splits)

lemma match_lit_rest: "st' \<in> set (rx_match (rx_lit w) (p, s, cs)) \<Longrightarrow> s = w @ fst (snd st')"
  by (auto simp: match_lit js_startsWith_iff split: if_splits)

lemma factor_suffix:
  assumes "js_match rule_factor_rx s \<noteq> None"
  shows "\<exists>u. s = u @ '' : 1)''"
proof -
  define tl where "tl = RSeq (rx_lit '' : 1)'') REol"
  obtain st' where "st' \<in> set (rx_match (RSeq (rx_lit ''('') (RSeq (RGrp 1 (rx_plus (RCls (\<lambda>c. True))))
     (RSeq (rx_lit '' ? '') (RSeq (num_rx 2) tl)))) (None, s, []))"
    using assms unfolding rule_factor_rx_def tl_def [symmetric] match_anchored by (auto simp del: rx_match.simps split: list.splits)
  then obtain st1 st2 st3 st4 where m: "st1 \<in> set (rx_match (rx_lit ''('') (None, s, []))"
    "st2 \<in> set (rx_match (RGrp 1 (rx_plus (RCls (\<lambda>c. True)))) st1)" "st3 \<in> set (rx_match (rx_lit '' ? '') st2)"
    "st4 \<in> set (rx_match (num_rx 2) st3)" "st' \<in> set (rx_match tl st4)"
    by (elim match_seqE) blast
  obtain u where u: "s = u @ fst (snd st4)"
    using m(1-4) [THEN rx_match_suffix] by auto
  obtain q w cs where st4: "st4 = (q, w, cs)" by (cases st4)
  then have "js_startsWith w '' : 1)'' \<and> drop (length '' : 1)'') w = []"
    using m(5) unfolding tl_def match_seq match_lit st4 by (auto split: if_splits)
  then have "w = '' : 1)''" by (auto simp: js_startsWith_iff)
  then show ?thesis using u st4 by auto
qed

lemma no_factor: "\<nexists>u. s = u @ '' : 1)'' \<Longrightarrow> tryParseRuleGroupFactor s = Inr None"
  using factor_suffix [of s] by (auto simp: tryParseRuleGroupFactor_def split: option.splits)

definition plain_part :: "jsstr \<Rightarrow> bool" where
  "plain_part p \<longleftrightarrow> top_part CHR ''*'' p \<and> (\<nexists>u. p = u @ '' : 1)'')"

lemma plain_part_parse:
  assumes "plain_part p"
  shows "tryParseRequestRuleExpr p = Inr None"
proof -
  have "splitTopLevelMultiply (js_join '' * '' [p]) = [p]" using assms by (intro split_multiply_join) (auto simp: plain_part_def)
  then show ?thesis using assms no_factor js_trim_id [of p]
    by (simp add: tryParseRequestRuleExpr_def plain_part_def top_part_def Let_def)
qed

lemma sort_plain: "\<forall>p \<in> set ps. plain_part p \<Longrightarrow> sort_parts ps = Inr ([], ps)"
  using plain_part_parse by (induction ps) auto

lemma split_plain:
  assumes "\<forall>p \<in> set ps. plain_part p" "ps \<noteq> []"
  shows "splitBillingExprAndRequestRules (js_join '' * '' ps) = Inr \<lparr>billingExpr = js_join '' * '' ps, requestRuleExpr = []\<rparr>"
proof -
  have top: "\<forall>p \<in> set ps. top_part CHR ''*'' p" using assms(1) by (simp add: plain_part_def)
  have "js_trim (js_join '' * '' ps) = js_join '' * '' ps" using join_top_trimmed [OF assms(2) top] js_trim_id by blast
  then show ?thesis unfolding splitBillingExprAndRequestRules_def
    using split_multiply_join [OF assms(2) top] sort_plain [OF assms(1)] by (simp add: Let_def)
qed

text \<open>The labels of an expression that is combined with rules have no parentheses.\<close>

definition plain_label :: "VisualTier \<Rightarrow> bool" where
  "plain_label tier \<longleftrightarrow> no_paren (label_or (vt_label tier) [])"

lemma conds_chars:
  assumes "\<forall>c \<in> set cs. cond_ok c"
  shows "no_paren (conds_text cs)" "CHR ''*'' \<notin> set (conds_text cs)"
proof -
  have part: "c \<notin> {CHR ''('', CHR '')'', CHR ''*''}" if p_in: "p \<in> set cs" and c_in: "c \<in> set (part_text p)" for c p
  proof -
    obtain var op val where p: "p = (var, op, val)" by (cases p)
    have o: "var \<in> set cond_vars" "op \<in> set cond_ops" "list_all is_val_char val"
      using assms p_in by (auto simp: p cond_ok_def val_ok_def)
    consider "c \<in> set var" | "c \<in> set op" | "c = CHR '' ''" | "c \<in> set val"
      using c_in by (auto simp: p part_text_def cond_text1_def)
    then show ?thesis
    proof cases
      case 4
      then have "is_val_char c" using o(3) by (simp add: list_all_iff)
      then show ?thesis by (auto simp: is_val_char_def is_digit_def)
    qed (use o in \<open>auto simp: cond_vars_def cond_ops_def\<close>)
  qed
  have "c \<notin> {CHR ''('', CHR '')'', CHR ''*''}" if c: "c \<in> set (conds_text cs)" for c
    using js_join_set [OF c [unfolded conds_text_def]] part by auto
  then show "no_paren (conds_text cs)" "CHR ''*'' \<notin> set (conds_text cs)" unfolding no_paren_def by blast+
qed

lemma call_top:
  assumes "no_paren l" "no_paren b"
  shows "balanced (call_text l b)" "quiet CHR ''*'' 0 (call_text l b) w" "last (call_text l b) = CHR '')''"
proof -
  let ?in = "[CHR 0x22] @ l @ [CHR 0x22, CHR '',''] @ '' '' @ b"
  have e: "call_text l b = ''tier'' @ ''('' @ ?in @ '')''" by (simp add: call_text_def)
  have i: "no_paren ?in" using assms by (auto simp: no_paren_def)
  have "balanced ''tier''" by (rule balanced_no_paren) (simp add: no_paren_def)
  then show "balanced (call_text l b)" unfolding e by (rule balanced_append [OF _ balanced_paren [OF balanced_no_paren [OF i]]])
  have d: "depth 1 ?in = 1" by (rule depth_no_paren [OF i])
  have "quiet CHR ''*'' 1 ?in ('')'' @ w)" by (rule quiet_deep [OF i]) simp
  then show "quiet CHR ''*'' 0 (call_text l b) w" unfolding e quiet_append using d by (simp add: depth_step_def)
  show "last (call_text l b) = CHR '')''" by (simp add: call_text_def)
qed

text \<open>A piece of an expression in which no factor ends at the top level.\<close>

definition quiet_part :: "jsstr \<Rightarrow> bool" where
  "quiet_part p \<longleftrightarrow> p \<noteq> [] \<and> trimmed p \<and> hd p \<noteq> CHR ''*'' \<and> hd p \<noteq> CHR ''('' \<and> balanced p \<and> (\<forall>w. quiet CHR ''*'' 0 p w)"

lemma quiet_part_top: "quiet_part p \<Longrightarrow> top_part CHR ''*'' p"
  by (simp add: quiet_part_def top_part_def balanced_def)

lemma quiet_part_join2:
  assumes "quiet_part p" "quiet_part r"
  shows "quiet_part (p @ '' : '' @ r)"
proof -
  have "balanced '' : ''" by (rule balanced_no_paren) (simp add: no_paren_def)
  then have "balanced ('' : '' @ r)" using assms(2) balanced_append by (simp only: quiet_part_def)
  then have "balanced (p @ '' : '' @ r)" using assms(1) by (auto simp: quiet_part_def)
  moreover have "quiet CHR ''*'' 0 (p @ '' : '' @ r) w" for w
    using assms by (simp add: quiet_part_def balanced_def depth_step_def)
  ultimately show ?thesis using assms by (auto simp: quiet_part_def trimmed_def)
qed

lemma quiet_part_join: "\<forall>p \<in> set ps. quiet_part p \<Longrightarrow> ps \<noteq> [] \<Longrightarrow> quiet_part (js_join '' : '' ps)"
proof (induction ps rule: induct_list012)
  case (3 p r ps)
  then show ?case using quiet_part_join2 [of p "js_join '' : '' (r # ps)"] by simp
qed simp_all

lemma tier_text_quiet:
  assumes "tier_ok (cs, l, b)" "no_paren l" "no_paren b"
  shows "quiet_part (tier_text (cs, l, b))"
proof -
  have c: "\<forall>c \<in> set cs. cond_ok c" using assms(1) by (simp add: tier_ok_def)
  have h: "no_paren (head_text cs)" "CHR ''*'' \<notin> set (head_text cs)"
    using conds_chars [OF c] by (auto simp: head_text_def no_paren_def)
  obtain x where call: "call_text l b = CHR ''t'' # x" by (simp add: call_text_def)
  have q: "quiet CHR ''*'' 0 (head_text cs @ call_text l b) w" for w
    using quiet_no_sep [OF h(2), of "call_text l b @ w" 0] call_top(2) [OF assms(2,3), of w] h(1) call by simp
  have hd: "head_text cs @ call_text l b \<noteq> [] \<and> hd (head_text cs @ call_text l b) \<in> set ''pclt''"
  proof (cases cs)
    case (Cons a ds)
    obtain var op val where a: "a = (var, op, val)" by (cases a)
    have "var \<in> set cond_vars" using c by (simp add: Cons a cond_ok_def)
    then have "var \<noteq> [] \<and> hd var \<in> set ''pclt''" by (auto simp: cond_vars_def)
    then show ?thesis by (auto simp: Cons a head_text_def conds_text_Cons part_text_def cond_text1_def)
  qed (simp add: head_text_def call)
  have t: "trimmed (head_text cs @ call_text l b)"
    using hd call_top(3) [OF assms(2,3)] call by (auto simp: trimmed_def js_ws_def)
  show ?thesis unfolding quiet_part_def tier_text_def prod.case
    using q hd t balanced_append [OF balanced_no_paren [OF h(1)] call_top(1) [OF assms(2,3)]] by auto
qed

lemma append_suffix_set:
  assumes "pre @ b = u @ w" "length w \<le> length b"
  shows "set w \<subseteq> set b"
proof -
  have "drop (length (pre @ b) - length w) (pre @ b) = drop (length (u @ w) - length w) (u @ w)" by (simp only: assms(1))
  then have "w = drop (length b - length w) b" using assms(2) by simp
  then show ?thesis using set_drop_subset by metis
qed

lemma call_no_factor:
  assumes "CHR '':'' \<notin> set b" "length b \<ge> 4"
  shows "x @ call_text l b \<noteq> u @ '' : 1)''"
proof
  assume "x @ call_text l b = u @ '' : 1)''"
  then have "butlast (x @ call_text l b) = butlast (u @ '' : 1)'')" by simp
  then have "(x @ (''tier('' @ [CHR 0x22]) @ l @ [CHR 0x22, CHR '',''] @ '' '') @ b = u @ '' : 1''"
    by (simp add: call_text_def butlast_append)
  from append_suffix_set [OF this] show False using assms by simp
qed

subsection \<open>Saved expressions\<close>

lemma labels_plain: "plain_label tier \<Longrightarrow> no_paren d \<Longrightarrow> no_paren (label_or (vt_label tier) d)"
  by (auto simp: plain_label_def label_or_def split: option.splits)

lemma tier_label_plain: "no_paren (''tier_'' @ dec_str (int i + 1))"
  using dec_str_no_char [of "int i + 1"] by (auto simp: no_paren_def is_digit_def)

lemma body_facts:
  assumes "visual_ok tier"
  shows "no_paren (buildTierBodyExpr tier)" "CHR '':'' \<notin> set (buildTierBodyExpr tier)" "length (buildTierBodyExpr tier) \<ge> 4"
proof -
  have ok: "terms_ok (body_terms tier)" using assms body_terms_ok(1) by (simp add: visual_ok_def)
  show "no_paren (buildTierBodyExpr tier)" "CHR '':'' \<notin> set (buildTierBodyExpr tier)"
    using body_chars [OF ok] by (auto simp: no_paren_def)
  show "length (buildTierBodyExpr tier) \<ge> 4" by (simp add: buildTierBodyExpr_def Let_def)
qed

text \<open>What a generated expression is at its top level: parts between factors, none of which is a rule.\<close>

definition saved_parts :: "jsstr \<Rightarrow> jsstr list \<Rightarrow> bool" where
  "saved_parts e ps \<longleftrightarrow> e = js_join '' * '' ps \<and> ps \<noteq> [] \<and> (\<forall>p \<in> set ps. plain_part p) \<and>
     balanced e \<and> e \<noteq> [] \<and> hd e \<noteq> CHR ''('' \<and> last e \<noteq> CHR ''1''"

lemma quiet_saved: "quiet_part e \<Longrightarrow> last e \<noteq> CHR ''1'' \<Longrightarrow> \<nexists>u. e = u @ '' : 1)'' \<Longrightarrow> saved_parts e [e]"
  using quiet_part_top by (auto simp: saved_parts_def plain_part_def quiet_part_def)

lemma zero_tail_saved:
  assumes "quiet_part e"
  shows "saved_parts (e @ '' : p * 0 + c * 0'') [e @ '' : p'', ''0 + c'', ''0'']"
proof -
  have small: "quiet_part ''p''" "plain_part ''0 + c''" "plain_part ''0''"
    by (simp_all add: quiet_part_def plain_part_def top_part_def trimmed_def js_ws_def balanced_def depth_step_def append_eq_Cons_conv)
  have q: "quiet_part (e @ '' : '' @ ''p'')" by (rule quiet_part_join2 [OF assms small(1)])
  have "plain_part (e @ '' : p'')" using quiet_part_top [OF q] by (auto simp: plain_part_def dest: arg_cong [of _ _ last])
  moreover have "balanced (e @ '' : p * 0 + c * 0'')"
  proof (rule balanced_append)
    show "balanced '' : p * 0 + c * 0''" by (rule balanced_no_paren) (simp add: no_paren_def)
  qed (use assms in \<open>simp add: quiet_part_def\<close>)
  ultimately show ?thesis using assms small by (auto simp: saved_parts_def quiet_part_def)
qed

lemma part_text_quiet:
  assumes "visual_ok tier" "plain_label tier" "\<forall>c \<in> set cs. cond_ok c" "label_ok d" "no_paren d"
  shows "quiet_part (tier_text (cs, label_or (vt_label tier) d, buildTierBodyExpr tier))"
    "\<nexists>u. x @ tier_text (cs, label_or (vt_label tier) d, buildTierBodyExpr tier) = u @ '' : 1)''"
    "last (tier_text (cs, label_or (vt_label tier) d, buildTierBodyExpr tier)) = CHR '')''"
proof -
  show "quiet_part (tier_text (cs, label_or (vt_label tier) d, buildTierBodyExpr tier))"
    by (intro tier_text_quiet part_ok labels_plain body_facts assms)
  show "\<nexists>u. x @ tier_text (cs, label_or (vt_label tier) d, buildTierBodyExpr tier) = u @ '' : 1)''"
    using call_no_factor [OF body_facts(2,3) [OF assms(1)], of "x @ head_text cs"] by (simp add: tier_text_def)
  show "last (tier_text (cs, label_or (vt_label tier) d, buildTierBodyExpr tier)) = CHR '')''"
    by (simp add: tier_text_def call_text_def)
qed

lemma generated_saved:
  assumes "\<forall>tier \<in> set tiers. visual_ok tier \<and> plain_label tier" "tiers \<noteq> []"
  shows "\<exists>ps. saved_parts (generateExprFromVisualConfig (Some tiers)) ps"
proof (cases "length tiers = 1")
  case True
  then obtain tier where t: "tiers = [tier]" by (auto simp: length_Suc_conv)
  then have ok: "visual_ok tier" "plain_label tier" and c: "\<forall>c \<in> set (conds_of tier). cond_ok c"
    using assms(1) by (auto simp: visual_ok_def)
  let ?e = "tier_text (conds_of tier, label_or (vt_label tier) ''default'', buildTierBodyExpr tier)"
  have d: "label_ok ''default''" "no_paren ''default''" by (simp_all add: label_ok_def not_quote_def no_paren_def)
  have "generateExprFromVisualConfig (Some tiers) = ?e @ (if conds_of tier = [] then [] else '' : p * 0 + c * 0'')"
    unfolding t by (rule generated_one [OF c])
  then show ?thesis using quiet_saved [of ?e] zero_tail_saved [of ?e] part_text_quiet(1,3) [OF ok c d]
      part_text_quiet(2) [OF ok c d, of "[]"] by auto
next
  case False
  let ?ps = "map (tier_text \<circ> part_of (length tiers)) (enumerate 0 tiers)"
  let ?e = "js_join '' : '' ?ps"
  have gen: "generateExprFromVisualConfig (Some tiers) = ?e" by (rule generated_many) (use assms False in auto)
  have part: "quiet_part p \<and> last p = CHR '')'' \<and> (\<forall>x u. x @ p \<noteq> u @ '' : 1)'')" if p_in: "p \<in> set ?ps" for p
  proof -
    obtain i tier where p: "p = tier_text (part_of (length tiers) (i, tier))" "tier \<in> set tiers"
      using p_in by (auto dest: in_set_enumerate_tier)
    have c: "\<forall>c \<in> set (if i < length tiers - 1 then conds_of tier else []). cond_ok c" using assms(1) p(2) by (simp add: visual_ok_def)
    show ?thesis unfolding p(1) part_of_def prod.case
      using part_text_quiet [OF _ _ c tier_label_ok tier_label_plain] assms(1) p(2) by blast
  qed
  have ne: "?ps \<noteq> []" using assms(2) by (cases tiers) auto
  have q: "quiet_part ?e" using part ne by (intro quiet_part_join) auto
  obtain x where "?e = x @ last ?ps" using join_ends [OF ne] by blast
  then have "last ?e = CHR '')''" "\<nexists>u. ?e = u @ '' : 1)''"
    using part [OF last_in_set [OF ne]] by (auto simp: quiet_part_def)
  then show ?thesis using quiet_saved [OF q] gen by auto
qed

lemma split_saved:
  assumes "saved_parts base ps" "list_all covered_group gs"
  shows "splitBillingExprAndRequestRules (combineBillingExpr base (buildRequestRuleExpr gs)) =
    Inr \<lparr>billingExpr = base, requestRuleExpr = buildRequestRuleExpr gs\<rparr>"
proof -
  have s: "base = js_join '' * '' ps" "ps \<noteq> []" "\<forall>p \<in> set ps. plain_part p" "balanced base" "base \<noteq> []"
    "hd base \<noteq> CHR ''(''" "last base \<noteq> CHR ''1''" using assms(1) by (auto simp: saved_parts_def)
  have tr: "trimmed base" using join_top_trimmed [of ps "CHR ''*''" "'' * ''"] s(1-3) by (simp add: plain_part_def)
  have u: "unwrapOuterParens base = base"
    unfolding unwrapOuterParens_def js_trim_id [OF tr] by (subst unwrap_loop.simps) (simp add: hasFullOuterParens_def s(6))
  show ?thesis
  proof (cases "gs = []")
    case True
    then have "combineBillingExpr base (buildRequestRuleExpr gs) = base"
      by (simp add: combineBillingExpr_def buildRequestRuleExpr_def js_trim_id [OF tr] s(5))
    then show ?thesis using split_plain [OF s(3,2)] True by (simp add: s(1) buildRequestRuleExpr_def)
  next
    case False
    have "tryParseRuleGroupFactor (''('' @ base @ '')'') = Inr None"
    proof (rule no_factor, rule notI, elim exE)
      fix v assume "''('' @ base @ '')'' = v @ '' : 1)''"
      then have "(''('' @ base) @ '')'' = (v @ '' : 1'') @ '')''" by simp
      then have "''('' @ base = v @ '' : 1''" by (simp only: append_same_eq)
      from arg_cong [OF this, of last] show False using s(5,7) by simp
    qed
    from combine_split [OF s(5) tr s(4) this assms(2) False] show ?thesis unfolding u .
  qed
qed

lemma saved_shown:
  assumes "\<forall>tier \<in> set tiers. visual_ok tier \<and> plain_label tier" "tiers \<noteq> []" "list_all covered_group gs"
    "billing_mode model = Some ''tiered_expr''"
    "billing_expr model = Some (combineBillingExpr (generateExprFromVisualConfig (Some tiers)) (buildRequestRuleExpr gs))"
  shows "getDynamicPricingTiers model = Inr (config_tiers tiers) \<and> hasDynamicRequestRules model = Inr (gs \<noteq> [])"
proof -
  obtain ps where ps: "saved_parts (generateExprFromVisualConfig (Some tiers)) ps" using generated_saved [OF assms(1,2)] by blast
  let ?e = "combineBillingExpr (generateExprFromVisualConfig (Some tiers)) (buildRequestRuleExpr gs)"
  have sp: "splitBillingExprAndRequestRules ?e = Inr \<lparr>billingExpr = generateExprFromVisualConfig (Some tiers), requestRuleExpr = buildRequestRuleExpr gs\<rparr>"
    by (rule split_saved [OF ps assms(3)])
  then have "?e \<noteq> []" using ps by (auto simp: splitBillingExprAndRequestRules_def saved_parts_def)
  then have d: "isDynamicPricingModel model" using assms(4,5) by (simp add: isDynamicPricingModel_def str_or_empty_def)
  have "parseTiersFromExpr (generateExprFromVisualConfig (Some tiers)) = config_tiers tiers"
    by (rule parse_generated) (use assms(1,2) in auto)
  then show ?thesis using d sp assms(5) rules_parsed [OF assms(3)]
    by (simp add: getDynamicPricingTiers_def hasDynamicRequestRules_def str_or_empty_def)
qed

text \<open>C31. What the editors save is what the price page shows, on the rules that the parser covers: for a tiered model whose expression was
  generated from a visual configuration with plain labels (no quotes or parentheses) and combined with the text of covered rule
  groups, the tiers shown are exactly the tiers of the configuration and the page announces request rules exactly when there are
  some. Rules that compare a body parameter with contains, gt or lt are not covered, since the parser does not read them back.\<close>

theorem saved_prices_shown:
  assumes "\<forall>tier \<in> set tiers. visual_ok tier \<and> plain_label tier" "tiers \<noteq> []" "list_all covered_group gs"
    "billing_mode model = Some ''tiered_expr''"
    "billing_expr model = Some (combineBillingExpr (generateExprFromVisualConfig (Some tiers)) (buildRequestRuleExpr gs))"
  shows "getDynamicPricingTiers model = Inr (config_tiers tiers) \<and> hasDynamicRequestRules model = Inr (gs \<noteq> [])"
  by (rule saved_shown [OF assms])

definition sample_model :: PricingModel where
  "sample_model = \<lparr>pm_id = num 1, model_name = ''m'', pm_description = None, vendor_id = None, vendor_name = None, vendor_icon = None,
     vendor_description = None, quota_type = 0, model_ratio = num 1, completion_ratio = num 1, model_price = None, cache_ratio = None,
     create_cache_ratio = None, image_ratio = None, audio_ratio = None, audio_completion_ratio = None, enable_groups = [''default''],
     pm_tags = None, supported_endpoint_types = None, pm_key = None, group_ratio = None, billing_mode = Some ''tiered_expr'',
     billing_expr = Some (combineBillingExpr (generateExprFromVisualConfig (Some sample_tiers)) (buildRequestRuleExpr [sample_group])),
     video_billing = None, pricing_version = None\<rparr>"

lemma sample_ok: "\<forall>tier \<in> set sample_tiers. visual_ok tier \<and> plain_label tier" "sample_tiers \<noteq> []" "list_all covered_group [sample_group]"
  by (code_simp, code_simp, simp add: sample_covered)

theorem saved_prices_shown_witness:
  "getDynamicPricingTiers sample_model = Inr (config_tiers sample_tiers) \<and> hasDynamicRequestRules sample_model = Inr True"
  using saved_prices_shown [OF sample_ok, of sample_model] by (simp add: sample_model_def)

lemma summary_inv:
  assumes "getDynamicPricingSummary intl st model options = Inr (Some s)"
  shows "isDynamicPricingModel model" "getDynamicPricingTiers model = Inr (ds_tiers s)" "hasDynamicRequestRules model = Inr (ds_hasRequestRules s)"
    "ds_entries s = getDynamicPriceEntries intl st (ds_tier s) options"
    "ds_primaryEntries s = filter is_primary (ds_entries s)" "ds_secondaryEntries s = filter (\<lambda>e. \<not> is_primary e) (ds_entries s)"
    "ds_tier s = (case ds_tiers s of [] \<Rightarrow> None | t # _ \<Rightarrow> Some t)"
  using assms by (auto simp: getDynamicPricingSummary_def Let_def split: if_splits sum.splits)

lemma primary_split: "sorted_wrt primary_le es \<Longrightarrow> es = filter is_primary es @ filter (\<lambda>e. \<not> is_primary e) es"
proof (induction es)
  case (Cons e es)
  show ?case
  proof (cases "is_primary e")
    case False
    then have "\<forall>x \<in> set es. \<not> is_primary x" using Cons.prems by (auto simp: primary_le_def split: if_splits)
    then show ?thesis using False by (simp add: filter_id_conv filter_empty_conv)
  qed (use Cons in simp)
qed simp

text \<open>A summary lists every price entry of the first tier once: the entries are the primary entries
  (input and output price) followed by the secondary ones, and each has a positive value.
\<close>

theorem summary_entries_split:
  assumes "getDynamicPricingSummary intl st model options = Inr (Some s)"
  shows "ds_entries s = ds_primaryEntries s @ ds_secondaryEntries s \<and>
    list_all (\<lambda>e. js_gt (de_value e) (num 0)) (ds_entries s) \<and> (ds_tiers s = [] \<longleftrightarrow> ds_tier s = None)"
proof -
  note s = summary_inv [OF assms]
  have "sorted_wrt primary_le (ds_entries s)" unfolding s(4) getDynamicPriceEntries_def
    by (simp add: primary_first.sorted_sort_by split: option.splits)
  then have "ds_entries s = ds_primaryEntries s @ ds_secondaryEntries s" using primary_split s(5,6) by simp
  moreover have "list_all (\<lambda>e. js_gt (de_value e) (num 0)) (ds_entries s)"
    unfolding s(4) getDynamicPriceEntries_def by (auto simp: list_all_iff entries_raw shown_entry_def positive_price_def split: option.splits)
  ultimately show ?thesis using s(7) by (simp split: list.splits)
qed

definition million_options :: DynamicPriceOptions where
  "million_options = \<lparr>dp_tokenUnit = UnitM, dp_showRechargePrice = None, dp_priceRate = None, dp_usdExchangeRate = None, dp_groupRatioMultiplier = None\<rparr>"

theorem summary_entries_split_witness:
  "\<exists>s. getDynamicPricingSummary en_intl tokens_state sample_model million_options = Inr (Some s) \<and>
     ds_entries s = ds_primaryEntries s @ ds_secondaryEntries s"
proof -
  have "getDynamicPricingTiers sample_model = Inr (config_tiers sample_tiers) \<and> hasDynamicRequestRules sample_model = Inr True"
    using saved_shown [OF sample_ok, of sample_model] by (simp add: sample_model_def)
  moreover from this have "isDynamicPricingModel sample_model" by (auto simp: hasDynamicRequestRules_def split: if_splits)
  ultimately obtain s where "getDynamicPricingSummary en_intl tokens_state sample_model million_options = Inr (Some s)"
    by (simp add: getDynamicPricingSummary_def Let_def)
  with summary_entries_split [OF this] show ?thesis by blast
qed

end
