(* ===== verification/Js_Pretty.thy ===== *)
theory Js_Pretty
  imports Js_Json
begin

section \<open>Indented JSON\<close>

text \<open>
  \<open>JSON.stringify(v, null, 2)\<close>, the form in which the editors of the console save JSON texts, and the
  conversions of JSON values the editors use. \<open>json_pretty_roundtrip\<close> shows that parsing undoes the
  indented printing.
\<close>

definition json_nl :: "nat \<Rightarrow> jsstr" where
  "json_nl k = CHR 0x0A # replicate k CHR '' ''"

fun json_pretty :: "nat \<Rightarrow> json \<Rightarrow> jsstr" where
  "json_pretty ind (JArr vs) = (if vs = [] then ''[]'' else
     ''['' @ json_nl (ind + 2) @ js_join ('','' @ json_nl (ind + 2)) (map (json_pretty (ind + 2)) vs) @ json_nl ind @ '']'')"
| "json_pretty ind (JObj kvs) = (if kvs = [] then ''{}'' else
     ''{'' @ json_nl (ind + 2) @ js_join ('','' @ json_nl (ind + 2))
       (map (\<lambda>(k, v). json_quote k @ '': '' @ json_pretty (ind + 2) v) kvs) @ json_nl ind @ ''}'')"
| "json_pretty ind v = json_stringify v"

definition stringify2 :: "json \<Rightarrow> jsstr" where
  \<comment> \<open>\<open>JSON.stringify(v, null, 2)\<close>\<close>
  "stringify2 v = json_pretty 0 v"

subsection \<open>Conversions\<close>

text \<open>
  Upper case of the Latin-1 letters. The capitals of the micro sign and of y with diaeresis are
  outside of the model and are left as they are; the sources compare the result with ASCII words only.
\<close>

definition js_upper_char :: "char \<Rightarrow> jsstr" where
  "js_upper_char c = (let n = (of_char c :: nat) in
     if 97 \<le> n \<and> n \<le> 122 then [char_of (n - 32)]
     else if n = 223 then ''SS''
     else if 224 \<le> n \<and> n \<le> 254 \<and> n \<noteq> 247 then [char_of (n - 32)] else [c])"

definition js_toUpperCase :: "jsstr \<Rightarrow> jsstr" where
  "js_toUpperCase s = concat (map js_upper_char s)"

fun js_Number :: "json option \<Rightarrow> jsnum" where
  \<comment> \<open>\<open>Number(v)\<close>\<close>
  "js_Number None = NaN"
| "js_Number (Some JNull) = num 0"
| "js_Number (Some (JBool b)) = (if b then num 1 else num 0)"
| "js_Number (Some (JNum x)) = x"
| "js_Number (Some (JStr s)) = js_Number_str s"
| "js_Number (Some (JArr vs)) = js_Number_str (js_String (JArr vs))"
| "js_Number (Some (JObj kvs)) = NaN"

definition js_isInteger :: "jsnum \<Rightarrow> bool" where
  "js_isInteger x = (case x of Fin q \<Rightarrow> q = of_int \<lfloor>q\<rfloor> | _ \<Rightarrow> False)"

text \<open>The own properties of a value that is spread into an object.\<close>

fun spread_props :: "json \<Rightarrow> json obj" where
  "spread_props (JObj kvs) = kvs"
| "spread_props (JArr vs) = map (\<lambda>(i, v). (dec_str (int i), v)) (enumerate 0 vs)"
| "spread_props (JStr s) = map (\<lambda>(i, c). (dec_str (int i), JStr [c])) (enumerate 0 s)"
| "spread_props _ = []"

subsection \<open>Parsing undoes indented printing\<close>

lemma skip_ws_append: "list_all json_ws w \<Longrightarrow> skip_ws (w @ s) = skip_ws s"
  by (induction w) auto

lemma nl_ws: "list_all json_ws (json_nl k)"
  by (simp add: json_nl_def json_ws_def list_all_iff)

lemma json_val_ws: "list_all json_ws w \<Longrightarrow> json_val f (w @ s) = json_val f s"
  by (cases f) (simp_all add: json_val.simps(2) skip_ws_append)

lemma json_elems_ws: "list_all json_ws w \<Longrightarrow> json_elems f (w @ s) = json_elems f s"
  by (cases f) (simp_all add: json_elems.simps(2) json_val_ws)

lemma json_members_ws: "list_all json_ws w \<Longrightarrow> json_members f (w @ s) = json_members f s"
  by (cases f) (simp_all add: json_members.simps(2) skip_ws_append)

definition reads_as :: "jsstr \<Rightarrow> json \<Rightarrow> bool" where
  "reads_as t v \<longleftrightarrow> (\<exists>f0. \<forall>f \<ge> f0. \<forall>r. num_end r \<longrightarrow> json_val f (t @ r) = Some (v, r))"

lemma num_end_nl: "num_end (json_nl k @ r)" "num_end ('','' @ r)"
  by (simp_all add: json_nl_def num_end_def json_ws_def)

lemma elems_read:
  assumes "vs \<noteq> []" "\<forall>v \<in> set vs. reads_as (pr v) v" "list_all json_ws w" "list_all json_ws z" "z \<noteq> []"
  shows "\<exists>f0. \<forall>f \<ge> f0. \<forall>r. json_elems f (js_join ('','' @ w) (map pr vs) @ z @ '']'' @ r) = Some (vs, r)"
  using assms(1,2)
proof (induction vs rule: list_nonempty_induct)
  case (single v)
  then obtain f0 where f0: "\<forall>f \<ge> f0. \<forall>r. num_end r \<longrightarrow> json_val f (pr v @ r) = Some (v, r)" by (auto simp: reads_as_def)
  have z: "num_end (z @ '']'' @ r)" for r using assms(4,5) by (cases z) (auto simp: num_end_def)
  have "json_elems f (pr v @ z @ '']'' @ r) = Some ([v], r)" if "f \<ge> Suc f0" for f r
    using f0 [rule_format, OF _ z, of "f - 1" r] that skip_ws_append [OF assms(4), of "'']'' @ r"]
    by (cases f) (simp_all add: json_elems.simps(2) json_ws_def)
  then show ?case by auto
next
  case (cons v vs)
  then obtain f0 where f0: "\<forall>f \<ge> f0. \<forall>r. num_end r \<longrightarrow> json_val f (pr v @ r) = Some (v, r)" by (auto simp: reads_as_def)
  from cons obtain f1 where f1: "\<forall>f \<ge> f1. \<forall>r. json_elems f (js_join ('','' @ w) (map pr vs) @ z @ '']'' @ r) = Some (vs, r)" by auto
  have "json_elems f (js_join ('','' @ w) (map pr (v # vs)) @ z @ '']'' @ r) = Some (v # vs, r)" if f: "f \<ge> Suc (max f0 f1)" for f r
  proof -
    obtain g where g: "f = Suc g" "f0 \<le> g" "f1 \<le> g" using f by (cases f) simp_all
    let ?t = "w @ js_join ('','' @ w) (map pr vs) @ z @ '']'' @ r"
    have "json_val g (pr v @ '','' @ ?t) = Some (v, '','' @ ?t)" using f0 g(2) num_end_nl(2) by blast
    moreover have "json_elems g ?t = Some (vs, r)" using f1 g(3) json_elems_ws [OF assms(3)] by simp
    ultimately show ?thesis using cons(1) by (simp add: g(1) json_elems.simps(2) js_join_Cons json_ws_def)
  qed
  then show ?case by blast
qed

lemma members_read_one:
  assumes "\<forall>g \<ge> f0. \<forall>r. num_end r \<longrightarrow> json_val g (t @ r) = Some (v, r)" "f0 \<le> f" "num_end r" "skip_ws r = d # ds"
  shows "json_members (Suc f) (json_quote k @ '': '' @ t @ r) =
    (if d = CHR '','' then map_option (\<lambda>(kvs, w). ((k, v) # kvs, w)) (json_members f ds)
     else if d = CHR ''}'' then Some ([(k, v)], ds) else None)"
proof -
  have "json_val f ('' '' @ t @ r) = Some (v, r)" using assms(1-3) json_val_ws [of "'' ''"] by (simp add: json_ws_def)
  then show ?thesis using assms(4) by (simp add: json_members.simps(2) json_quote_def json_str_quote json_ws_def)
qed

lemma members_read:
  assumes "kvs \<noteq> []" "\<forall>p \<in> set kvs. reads_as (pr (snd p)) (snd p)" "list_all json_ws w" "list_all json_ws z" "z \<noteq> []"
  shows "\<exists>f0. \<forall>f \<ge> f0. \<forall>r. json_members f (js_join ('','' @ w) (map (\<lambda>(k, v). json_quote k @ '': '' @ pr v) kvs) @ z @ ''}'' @ r) = Some (kvs, r)"
  using assms(1,2)
proof (induction kvs rule: list_nonempty_induct)
  case (single p)
  obtain k v where p: "p = (k, v)" by (cases p)
  then obtain f0 where f0: "\<forall>f \<ge> f0. \<forall>r. num_end r \<longrightarrow> json_val f (pr v @ r) = Some (v, r)"
    using single by (auto simp: reads_as_def)
  have z: "num_end (z @ ''}'' @ r)" "skip_ws (z @ ''}'' @ r) = CHR ''}'' # r" for r
    using assms(4,5) skip_ws_append [OF assms(4), of "''}'' @ r"] by (cases z; auto simp: num_end_def json_ws_def)+
  have "json_members f (json_quote k @ '': '' @ pr v @ z @ ''}'' @ r) = Some ([p], r)" if "f \<ge> Suc f0" for f r
    using members_read_one [OF f0 _ z, of "f - 1" k r] that p by (cases f) auto
  then show ?case by (auto simp: p)
next
  case (cons p kvs)
  let ?m = "\<lambda>(k, v). json_quote k @ '': '' @ pr v"
  obtain k v where p: "p = (k, v)" by (cases p)
  then obtain f0 where f0: "\<forall>f \<ge> f0. \<forall>r. num_end r \<longrightarrow> json_val f (pr v @ r) = Some (v, r)"
    using cons by (auto simp: reads_as_def)
  from cons obtain f1 where f1: "\<forall>f \<ge> f1. \<forall>r. json_members f (js_join ('','' @ w) (map ?m kvs) @ z @ ''}'' @ r) = Some (kvs, r)" by auto
  have "json_members f (js_join ('','' @ w) (map ?m (p # kvs)) @ z @ ''}'' @ r) = Some (p # kvs, r)" if f: "f \<ge> Suc (max f0 f1)" for f r
  proof -
    obtain g where g: "f = Suc g" "f0 \<le> g" "f1 \<le> g" using f by (cases f) simp_all
    let ?t = "w @ js_join ('','' @ w) (map ?m kvs) @ z @ ''}'' @ r"
    have "json_members g ?t = Some (kvs, r)" using f1 g(3) json_members_ws [OF assms(3)] by simp
    then show ?thesis
      using members_read_one [OF f0 g(2), of "'','' @ ?t" "CHR '',''" ?t k] num_end_nl(2) cons(1)
      by (simp add: g(1) p js_join_Cons json_ws_def)
  qed
  then show ?case by blast
qed

lemma reads_as_simple: "json_plain v \<Longrightarrow> reads_as (json_stringify v) v"
  using reads_plain by (auto simp: reads_def reads_as_def)

lemma pretty_hd: "json_plain v \<Longrightarrow> \<exists>c cs. json_pretty ind v = c # cs \<and> \<not> json_ws c \<and> c \<noteq> CHR '']''"
  using stringify_hd [of v] by (cases v) (auto simp: json_ws_def)

lemma join_starts:
  assumes "xs \<noteq> []" "\<exists>c cs. hd xs = c # cs \<and> P c"
  shows "\<exists>c cs. js_join sep xs @ r = c # cs \<and> P c"
  using assms by (cases xs; cases "tl xs") auto

lemma pretty_arr:
  assumes "vs \<noteq> []" "\<forall>v \<in> set vs. reads_as (json_pretty (ind + 2) v) v" "\<forall>v \<in> set vs. json_plain v"
  shows "reads_as (json_pretty ind (JArr vs)) (JArr vs)"
proof -
  let ?body = "\<lambda>r. js_join ('','' @ json_nl (ind + 2)) (map (json_pretty (ind + 2)) vs) @ json_nl ind @ '']'' @ r"
  from elems_read [OF assms(1,2) nl_ws nl_ws, of ind "ind + 2"]
  obtain f0 where f0: "\<forall>f \<ge> f0. \<forall>r. json_elems f (?body r) = Some (vs, r)" by (auto simp: json_nl_def)
  have "json_val f (json_pretty ind (JArr vs) @ r) = Some (JArr vs, r)" if f: "f \<ge> Suc f0" for f r
  proof -
    obtain g where g: "f = Suc g" "f0 \<le> g" using f by (cases f) simp_all
    have "\<exists>c cs. hd (map (json_pretty (ind + 2)) vs) = c # cs \<and> \<not> json_ws c \<and> c \<noteq> CHR '']''"
      using pretty_hd [of "hd vs" "ind + 2"] assms(1,3) by (simp add: hd_map)
    then obtain c cs where c: "?body r = c # cs" "\<not> json_ws c" "c \<noteq> CHR '']''"
      using join_starts [of "map (json_pretty (ind + 2)) vs" "\<lambda>c. \<not> json_ws c \<and> c \<noteq> CHR '']''"] assms(1) by blast
    have e: "json_pretty ind (JArr vs) @ r = ''['' @ json_nl (ind + 2) @ ?body r" using assms(1) by simp
    have "skip_ws (json_nl (ind + 2) @ ?body r) = c # cs" unfolding skip_ws_append [OF nl_ws] c(1) using c(2) by simp
    then show ?thesis using f0 [rule_format, OF g(2), of r] c unfolding e g(1) by (simp add: json_val.simps(2) json_ws_def)
  qed
  then show ?thesis unfolding reads_as_def by blast
qed

lemma pretty_obj:
  assumes "kvs \<noteq> []" "\<forall>p \<in> set kvs. reads_as (json_pretty (ind + 2) (snd p)) (snd p)" "build_obj kvs = kvs"
  shows "reads_as (json_pretty ind (JObj kvs)) (JObj kvs)"
proof -
  let ?m = "\<lambda>(k, v). json_quote k @ '': '' @ json_pretty (ind + 2) v"
  let ?body = "\<lambda>r. js_join ('','' @ json_nl (ind + 2)) (map ?m kvs) @ json_nl ind @ ''}'' @ r"
  from members_read [OF assms(1,2) nl_ws nl_ws, of ind "ind + 2"]
  obtain f0 where f0: "\<forall>f \<ge> f0. \<forall>r. json_members f (?body r) = Some (kvs, r)" by (auto simp: json_nl_def)
  have "json_val f (json_pretty ind (JObj kvs) @ r) = Some (JObj kvs, r)" if f: "f \<ge> Suc f0" for f r
  proof -
    obtain g where g: "f = Suc g" "f0 \<le> g" using f by (cases f) simp_all
    have "\<exists>c cs. hd (map ?m kvs) = c # cs \<and> \<not> json_ws c \<and> c \<noteq> CHR ''}''"
      using assms(1) by (cases kvs) (auto simp: json_quote_def json_ws_def)
    then obtain c cs where c: "?body r = c # cs" "\<not> json_ws c" "c \<noteq> CHR ''}''"
      using join_starts [of "map ?m kvs" "\<lambda>c. \<not> json_ws c \<and> c \<noteq> CHR ''}''"] assms(1) by blast
    have e: "json_pretty ind (JObj kvs) @ r = ''{'' @ json_nl (ind + 2) @ ?body r" using assms(1) by simp
    have "skip_ws (json_nl (ind + 2) @ ?body r) = c # cs" unfolding skip_ws_append [OF nl_ws] c(1) using c(2) by simp
    then show ?thesis using f0 [rule_format, OF g(2), of r] c assms(3) unfolding e g(1) by (simp add: json_val.simps(2) json_ws_def)
  qed
  then show ?thesis unfolding reads_as_def by blast
qed

lemma pretty_reads: "json_plain v \<Longrightarrow> reads_as (json_pretty ind v) v"
proof (induction v arbitrary: ind)
  case (JArr vs)
  then show ?case using reads_as_simple [of "JArr []"] pretty_arr [of vs ind] by (cases "vs = []") auto
next
  case (JObj kvs)
  have "\<forall>p \<in> set kvs. reads_as (json_pretty (ind + 2) (snd p)) (snd p)" using JObj by (auto simp: snds.simps)
  then show ?case using JObj.prems reads_as_simple [of "JObj []"] pretty_obj [of kvs ind] by (cases "kvs = []") auto
qed (use reads_as_simple in \<open>auto simp del: json_stringify.simps\<close>)

lemma reads_as_parse:
  assumes "reads_as s v"
  shows "json_parse s = Some v"
proof -
  obtain f0 where "\<forall>f \<ge> f0. \<forall>r. num_end r \<longrightarrow> json_val f (s @ r) = Some (v, r)" using assms by (auto simp: reads_as_def)
  then have "json_val (max f0 (2 * length s + 1)) (s @ []) = Some (v, [])" by (simp add: num_end_def)
  then have "json_val (2 * length s + 2) s = Some (v, [])"
    using json_fuel [of s "max f0 (2 * length s + 1)"] json_fuel [of s "2 * length s + 2"] by simp
  then show ?thesis by (simp add: json_parse_def)
qed

lemma json_pretty_roundtrip: "json_plain v \<Longrightarrow> json_parse (stringify2 v) = Some v"
  unfolding stringify2_def by (intro reads_as_parse pretty_reads)

lemma pretty_trimmed: "json_plain v \<Longrightarrow> stringify2 v \<noteq> []"
  using pretty_hd [of v 0] unfolding stringify2_def by auto

subsection \<open>Printed texts are trimmed, objects of named fields\<close>

definition num_chr :: "char \<Rightarrow> bool" where
  "num_chr c \<longleftrightarrow> is_digit c \<or> c = CHR ''.'' \<or> c = CHR ''e'' \<or> c = CHR ''+'' \<or> c = CHR ''-''"

lemma num_chrs: "num_chr CHR ''.''" "num_chr CHR ''e''" "num_chr CHR ''+''" "num_chr CHR ''-''" "num_chr CHR ''0''"
  by (simp_all add: num_chr_def is_digit_def)

lemma num_chr_ws: "num_chr c \<Longrightarrow> \<not> js_ws c"
proof -
  assume "num_chr c"
  then have "c \<in> set ''0123456789.e+-''" by (auto simp: num_chr_def is_digit_def)
  then show ?thesis by (auto simp: js_ws_def)
qed

lemma num_chr_parts:
  "list_all num_chr (dec_str n)" "list_all num_chr (replicate k CHR ''0'')"
  "list_all num_chr a \<Longrightarrow> list_all num_chr (take k a)" "list_all num_chr a \<Longrightarrow> list_all num_chr (drop k a)"
proof -
  have "dec_str n = ''0''" if "n < 0" using that by (subst dec_str.simps) (simp add: digit_char_def)
  then show "list_all num_chr (dec_str n)" using dec_str_digits [of n]
    by (cases "n < 0") (auto simp: list_all_iff num_chr_def is_digit_def)
qed (auto simp: list_all_iff num_chrs dest: in_set_takeD in_set_dropD)

lemma show_pos_text: "list_all num_chr (show_pos x)"
  by (simp add: show_pos_def Let_def num_chr_parts num_chrs split: prod.split)

lemma num_str_text: "js_isFinite x \<Longrightarrow> list_all num_chr (js_num_str x)"
  by (auto simp: js_num_str_def js_isFinite_def int_to_str_def num_chr_parts num_chrs show_pos_text split: jsnum.splits)

lemma num_text_trimmed: "list_all num_chr s \<Longrightarrow> trimmed s"
  by (rule trimmed_no_ws) (use num_chr_ws in \<open>auto simp: list_all_iff\<close>)

lemma stringify_trimmed: "trimmed (json_stringify v)"
proof (cases v)
  case (JNum x)
  then show ?thesis using num_text_trimmed [OF num_str_text, of x] by (cases "js_isFinite x") (simp_all add: trimmed_def js_ws_def)
qed (simp_all add: trimmed_def js_ws_def json_quote_def)

lemma stringify2_trimmed: "trimmed (stringify2 v)"
  using stringify_trimmed [of v] by (cases v) (simp_all add: stringify2_def trimmed_def js_ws_def)

definition word_keys :: "'v obj \<Rightarrow> bool" where
  "word_keys ob \<longleftrightarrow> distinct (map fst ob) \<and> (\<forall>p \<in> set ob. \<not> is_array_index (fst p))"

lemma obj_set_new: "\<not> obj_has k ob \<Longrightarrow> \<not> is_array_index k \<Longrightarrow> obj_set k v ob = ob @ [(k, v)]"
  by (simp add: obj_set_def)

lemma word_keys_set: "word_keys ob \<Longrightarrow> \<not> is_array_index k \<Longrightarrow> word_keys (obj_set k v ob)"
proof (cases "obj_has k ob")
  case True
  assume w: "word_keys ob"
  have k: "map fst (obj_set k v ob) = map fst ob" using True by (simp only: obj_set_def if_True fst_replace)
  have "word_keys x \<longleftrightarrow> word_keys ob" if "map fst x = map fst ob" for x
    using that unfolding word_keys_def by (metis (no_types, lifting) image_iff list.set_map)
  then show ?thesis using k w by blast
qed (auto simp: word_keys_def obj_set_new obj_has_def)

lemma build_obj_words: "word_keys ob \<Longrightarrow> build_obj ob = ob"
proof (induction ob rule: rev_induct)
  case (snoc p ob)
  then show ?case by (cases p) (auto simp: word_keys_def build_obj_def obj_set_new obj_has_def)
qed (simp add: build_obj_def)

definition plain_obj :: "json obj \<Rightarrow> bool" where
  "plain_obj ob \<longleftrightarrow> word_keys ob \<and> (\<forall>p \<in> set ob. json_plain (snd p))"

lemma plain_obj_json: "plain_obj ob \<Longrightarrow> json_plain (JObj ob)"
  by (simp add: plain_obj_def build_obj_words)

lemma plain_obj_set: "plain_obj ob \<Longrightarrow> \<not> is_array_index k \<Longrightarrow> json_plain v \<Longrightarrow> plain_obj (obj_set k v ob)"
  using word_keys_set [of ob k v] by (auto simp: plain_obj_def obj_set_def split: if_splits)

lemma get_app: "obj_get k (a @ b) = (case obj_get k a of Some v \<Rightarrow> Some v | None \<Rightarrow> obj_get k b)" "obj_get k [] = None"
  "obj_get k ((j, v) # b) = (if k = j then Some v else obj_get k b)"
  by (auto simp: obj_get_def map_add_def split: option.splits)

end
