(* ===== verification/Param_Override.thy ===== *)
theory Param_Override
  imports Js_Pretty
begin

section \<open>The editor of parameter overrides\<close>

text \<open>
  Model of \<^verbatim>\<open>features/channels/components/dialogs/param-override-editor-dialog.tsx\<close>: the rules that rewrite a
  request before it is relayed, as the administrator edits them. The first part are the pure helpers
  (reading, validating and writing the rules), the second part the state of the dialog with one function
  per handler.

  Ids are made by a counter of the module and the clock: \<open>clock k\<close> is the time at which the \<open>k\<close>-th id is
  made, and every function that makes ids takes and returns the counter. Reading a property of \<open>null\<close>
  throws; a function that may do so returns \<open>None\<close>. The translator \<open>t\<close> takes the key of a message and the
  number of the rule.

  Shown: the ids of the rules stay distinct and the rules well formed under every sequence of actions;
  dragging a rule moves only that rule; what validation accepts; that saved rules are read back, and which
  values are not; that the editor of prune rules cannot change a rule.
\<close>

subsection \<open>Data and tables\<close>

record ParamOverrideCondition =
  c_id :: jsstr
  c_path :: jsstr
  c_mode :: jsstr
  c_value_text :: jsstr
  c_invert :: bool
  c_pass_missing_key :: bool

record ParamOverrideOperation =
  o_id :: jsstr
  o_description :: jsstr
  o_path :: jsstr
  o_mode :: jsstr
  o_from :: jsstr
  o_to :: jsstr
  o_value_text :: jsstr
  o_keep_origin :: bool
  o_logic :: jsstr
  o_conditions :: "ParamOverrideCondition list"

definition OPERATION_MODE_OPTIONS :: "(jsstr \<times> jsstr) list" where
  \<comment> \<open>pairs of \<open>value\<close> and \<open>label\<close>\<close>
  "OPERATION_MODE_OPTIONS = [(''set'', ''Set Field''), (''delete'', ''Delete Field''), (''append'', ''Append to End''),
     (''prepend'', ''Prepend to Start''), (''copy'', ''Copy Field''), (''move'', ''Move Field''), (''replace'', ''String Replace''),
     (''regex_replace'', ''Regex Replace''), (''trim_prefix'', ''Trim Prefix''), (''trim_suffix'', ''Trim Suffix''),
     (''ensure_prefix'', ''Ensure Prefix''), (''ensure_suffix'', ''Ensure Suffix''), (''trim_space'', ''Trim Space''),
     (''to_lower'', ''To Lowercase''), (''to_upper'', ''To Uppercase''), (''return_error'', ''Return Custom Error''),
     (''prune_objects'', ''Prune Object Items''), (''pass_headers'', ''Pass Through Headers''), (''sync_fields'', ''Sync Fields''),
     (''set_header'', ''Set Request Header''), (''delete_header'', ''Delete Request Header''), (''copy_header'', ''Copy Request Header''),
     (''move_header'', ''Move Request Header'')]"

definition OPERATION_MODE_VALUES :: "jsstr list" where
  "OPERATION_MODE_VALUES = map fst OPERATION_MODE_OPTIONS"

definition OPERATION_MODE_LABEL_MAP :: "jsstr obj" where
  "OPERATION_MODE_LABEL_MAP = fold (\<lambda>(v, l). obj_set v l) OPERATION_MODE_OPTIONS []"

definition CONDITION_MODE_OPTIONS :: "(jsstr \<times> jsstr) list" where
  "CONDITION_MODE_OPTIONS = [(''full'', ''Exact Match''), (''prefix'', ''Prefix''), (''suffix'', ''Suffix''), (''contains'', ''Contains''),
     (''gt'', ''Greater Than''), (''gte'', ''Greater Than or Equal''), (''lt'', ''Less Than''), (''lte'', ''Less Than or Equal'')]"

definition CONDITION_MODE_VALUES :: "jsstr list" where
  "CONDITION_MODE_VALUES = map fst CONDITION_MODE_OPTIONS"

record ModeMeta =
  mm_path :: bool
  mm_pathOptional :: bool
  mm_value :: bool
  mm_from :: bool
  mm_to :: bool
  mm_keepOrigin :: bool
  mm_pathAlias :: bool

definition no_meta :: ModeMeta where
  "no_meta = \<lparr>mm_path = False, mm_pathOptional = False, mm_value = False, mm_from = False, mm_to = False,
     mm_keepOrigin = False, mm_pathAlias = False\<rparr>"

definition MODE_META :: "(jsstr \<times> ModeMeta) list" where
  "MODE_META = [
     (''delete'', no_meta\<lparr>mm_path := True\<rparr>),
     (''set'', no_meta\<lparr>mm_path := True, mm_value := True, mm_keepOrigin := True\<rparr>),
     (''append'', no_meta\<lparr>mm_path := True, mm_value := True, mm_keepOrigin := True\<rparr>),
     (''prepend'', no_meta\<lparr>mm_path := True, mm_value := True, mm_keepOrigin := True\<rparr>),
     (''copy'', no_meta\<lparr>mm_from := True, mm_to := True\<rparr>),
     (''move'', no_meta\<lparr>mm_from := True, mm_to := True\<rparr>),
     (''replace'', no_meta\<lparr>mm_path := True, mm_from := True\<rparr>),
     (''regex_replace'', no_meta\<lparr>mm_path := True, mm_from := True\<rparr>),
     (''trim_prefix'', no_meta\<lparr>mm_path := True, mm_value := True\<rparr>),
     (''trim_suffix'', no_meta\<lparr>mm_path := True, mm_value := True\<rparr>),
     (''ensure_prefix'', no_meta\<lparr>mm_path := True, mm_value := True\<rparr>),
     (''ensure_suffix'', no_meta\<lparr>mm_path := True, mm_value := True\<rparr>),
     (''trim_space'', no_meta\<lparr>mm_path := True\<rparr>),
     (''to_lower'', no_meta\<lparr>mm_path := True\<rparr>),
     (''to_upper'', no_meta\<lparr>mm_path := True\<rparr>),
     (''return_error'', no_meta\<lparr>mm_value := True\<rparr>),
     (''prune_objects'', no_meta\<lparr>mm_pathOptional := True, mm_value := True\<rparr>),
     (''pass_headers'', no_meta\<lparr>mm_value := True, mm_keepOrigin := True\<rparr>),
     (''sync_fields'', no_meta\<lparr>mm_from := True, mm_to := True\<rparr>),
     (''set_header'', no_meta\<lparr>mm_path := True, mm_value := True, mm_keepOrigin := True\<rparr>),
     (''delete_header'', no_meta\<lparr>mm_path := True\<rparr>),
     (''copy_header'', no_meta\<lparr>mm_from := True, mm_to := True, mm_keepOrigin := True, mm_pathAlias := True\<rparr>),
     (''move_header'', no_meta\<lparr>mm_from := True, mm_to := True, mm_keepOrigin := True, mm_pathAlias := True\<rparr>)]"

definition mode_or_set :: "jsstr \<Rightarrow> jsstr" where
  "mode_or_set mode = (if mode = [] then ''set'' else mode)"

definition meta_of :: "jsstr \<Rightarrow> ModeMeta" where
  \<comment> \<open>\<open>MODE_META[mode] || MODE_META.set\<close>\<close>
  "meta_of mode = (case map_of MODE_META mode of Some m \<Rightarrow> m | None \<Rightarrow> the (map_of MODE_META ''set''))"

definition VALUE_REQUIRED_MODES :: "jsstr list" where
  "VALUE_REQUIRED_MODES = [''trim_prefix'', ''trim_suffix'', ''ensure_prefix'', ''ensure_suffix'', ''set_header'', ''return_error'',
     ''prune_objects'', ''pass_headers'']"

definition FROM_REQUIRED_MODES :: "jsstr list" where
  "FROM_REQUIRED_MODES = [''copy'', ''move'', ''replace'', ''regex_replace'', ''copy_header'', ''move_header'', ''sync_fields'']"

definition TO_REQUIRED_MODES :: "jsstr list" where
  "TO_REQUIRED_MODES = [''copy'', ''move'', ''copy_header'', ''move_header'', ''sync_fields'']"

definition MODE_DESCRIPTIONS :: "(jsstr \<times> jsstr) list" where
  "MODE_DESCRIPTIONS = [
     (''set'', ''Write value to the target field''), (''delete'', ''Remove the target field''),
     (''append'', ''Append value to array / string / object end''), (''prepend'', ''Prepend value to array / string / object start''),
     (''copy'', ''Copy source field to target field''), (''move'', ''Move source field to target field''),
     (''replace'', ''Do string replacement in the target field''), (''regex_replace'', ''Do regex replacement in the target field''),
     (''trim_prefix'', ''Remove string prefix''), (''trim_suffix'', ''Remove string suffix''),
     (''ensure_prefix'', ''Ensure the string has a specified prefix''), (''ensure_suffix'', ''Ensure the string has a specified suffix''),
     (''trim_space'', ''Trim leading/trailing whitespace''), (''to_lower'', ''Convert string to lowercase''),
     (''to_upper'', ''Convert string to uppercase''), (''return_error'', ''Return a custom error immediately''),
     (''prune_objects'', ''Prune object items by conditions''), (''pass_headers'', ''Pass specified request headers to upstream''),
     (''sync_fields'', ''Auto-fill when one field exists and another is missing''),
     (''set_header'', ''Set runtime request header: override entire value, or manipulate comma-separated tokens''),
     (''delete_header'', ''Delete a runtime request header''), (''copy_header'', ''Copy a request header''),
     (''move_header'', ''Move a request header'')]"

subsection \<open>Templates\<close>

definition strs :: "jsstr list \<Rightarrow> json" where
  "strs xs = JArr (map JStr xs)"

definition ops_payload :: "json list \<Rightarrow> json obj" where
  "ops_payload ops = [(''operations'', JArr ops)]"

definition LEGACY_TEMPLATE :: "json obj" where
  "LEGACY_TEMPLATE = [(''temperature'', JNum (num 0)), (''max_tokens'', JNum (num 1000))]"

definition template_cond :: "jsstr \<Rightarrow> jsstr \<Rightarrow> jsstr \<Rightarrow> json" where
  "template_cond path mode value = JObj [(''path'', JStr path), (''mode'', JStr mode), (''value'', JStr value)]"

definition OPERATION_TEMPLATE :: "json obj" where
  "OPERATION_TEMPLATE = ops_payload [JObj [
     (''description'', JStr ''Set default temperature for openai/* models.''), (''path'', JStr ''temperature''), (''mode'', JStr ''set''),
     (''value'', JNum (fl (7/10))), (''conditions'', JArr [template_cond ''model'' ''prefix'' ''openai/'']), (''logic'', JStr ''AND'')]]"

definition HEADER_PASSTHROUGH_TEMPLATE :: "json obj" where
  "HEADER_PASSTHROUGH_TEMPLATE = ops_payload [JObj [
     (''description'', JStr ''Pass through X-Request-Id header to upstream.''), (''mode'', JStr ''pass_headers''),
     (''value'', strs [''X-Request-Id'']), (''keep_origin'', JBool True)]]"

definition GEMINI_IMAGE_4K_TEMPLATE :: "json obj" where
  "GEMINI_IMAGE_4K_TEMPLATE = ops_payload [JObj [
     (''description'', JStr ''Set imageSize to 4K when model contains gemini/image and ends with 4k.''), (''mode'', JStr ''set''),
     (''path'', JStr ''generationConfig.imageConfig.imageSize''), (''value'', JStr ''4K''),
     (''conditions'', JArr [template_cond ''original_model'' ''contains'' ''gemini'', template_cond ''original_model'' ''contains'' ''image'',
        template_cond ''original_model'' ''suffix'' ''4k'']), (''logic'', JStr ''AND'')]]"

definition CODEX_CLI_HEADER_PASSTHROUGH_HEADERS :: "jsstr list" where
  "CODEX_CLI_HEADER_PASSTHROUGH_HEADERS = [''Originator'', ''Session_id'', ''User-Agent'', ''X-Codex-Beta-Features'', ''X-Codex-Turn-Metadata'']"

definition CLAUDE_CLI_HEADER_PASSTHROUGH_HEADERS :: "jsstr list" where
  "CLAUDE_CLI_HEADER_PASSTHROUGH_HEADERS = [''X-Stainless-Arch'', ''X-Stainless-Lang'', ''X-Stainless-Os'', ''X-Stainless-Package-Version'',
     ''X-Stainless-Retry-Count'', ''X-Stainless-Runtime'', ''X-Stainless-Runtime-Version'', ''X-Stainless-Timeout'', ''User-Agent'', ''X-App'',
     ''Anthropic-Beta'', ''Anthropic-Dangerous-Direct-Browser-Access'', ''Anthropic-Version'']"

definition buildPassHeadersTemplate :: "jsstr list \<Rightarrow> json obj" where
  "buildPassHeadersTemplate headers =
     ops_payload [JObj [(''mode'', JStr ''pass_headers''), (''value'', strs headers), (''keep_origin'', JBool True)]]"

definition beta_tokens :: "(jsstr \<times> json) list" where
  "beta_tokens = [
     (''advanced-tool-use-2025-11-20'', JStr ''tool-search-tool-2025-10-19''), (''bash_20241022'', JNull), (''bash_20250124'', JNull),
     (''code-execution-2025-08-25'', JNull), (''compact-2026-01-12'', JStr ''compact-2026-01-12''),
     (''computer-use-2025-01-24'', JStr ''computer-use-2025-01-24''), (''computer-use-2025-11-24'', JStr ''computer-use-2025-11-24''),
     (''context-1m-2025-08-07'', JStr ''context-1m-2025-08-07''), (''context-management-2025-06-27'', JStr ''context-management-2025-06-27''),
     (''effort-2025-11-24'', JNull), (''fast-mode-2026-02-01'', JNull), (''files-api-2025-04-14'', JNull),
     (''fine-grained-tool-streaming-2025-05-14'', JNull), (''interleaved-thinking-2025-05-14'', JStr ''interleaved-thinking-2025-05-14''),
     (''mcp-client-2025-11-20'', JNull), (''mcp-client-2025-04-04'', JNull), (''mcp-servers-2025-12-04'', JNull),
     (''output-128k-2025-02-19'', JNull), (''structured-output-2024-03-01'', JNull), (''prompt-caching-scope-2026-01-05'', JNull),
     (''skills-2025-10-02'', JNull), (''structured-outputs-2025-11-13'', JNull), (''text_editor_20241022'', JNull),
     (''text_editor_20250124'', JNull), (''token-efficient-tools-2025-02-19'', JNull), (''tool-search-tool-2025-10-19'', JStr ''tool-search-tool-2025-10-19''),
     (''web-fetch-2025-09-10'', JNull), (''web-search-2025-03-05'', JNull), (''oauth-2025-04-20'', JNull)]"

definition AWS_BEDROCK_ANTHROPIC_COMPAT_TEMPLATE :: "json obj" where
  "AWS_BEDROCK_ANTHROPIC_COMPAT_TEMPLATE = ops_payload [
     JObj [(''description'', JStr ''Normalize anthropic-beta header tokens for Bedrock compatibility.''), (''mode'', JStr ''set_header''),
       (''path'', JStr ''anthropic-beta''), (''value'', JObj beta_tokens)],
     JObj [(''description'', JStr ''Remove all tools[*].custom.input_examples before upstream relay.''), (''mode'', JStr ''delete''),
       (''path'', JStr ''tools.*.custom.input_examples'')]]"

datatype preset_kind = OperationsPreset | LegacyPreset

record TemplatePresetConfig =
  tp_label :: jsstr
  tp_kind :: preset_kind
  tp_payload :: "json obj"

definition TEMPLATE_PRESET_CONFIG :: "(jsstr \<times> TemplatePresetConfig) list" where
  "TEMPLATE_PRESET_CONFIG = [
     (''operations_default'', \<lparr>tp_label = ''New Format Template'', tp_kind = OperationsPreset, tp_payload = OPERATION_TEMPLATE\<rparr>),
     (''legacy_default'', \<lparr>tp_label = ''Legacy Format Template'', tp_kind = LegacyPreset, tp_payload = LEGACY_TEMPLATE\<rparr>),
     (''pass_headers_auth'', \<lparr>tp_label = ''Header Passthrough (X-Request-Id)'', tp_kind = OperationsPreset, tp_payload = HEADER_PASSTHROUGH_TEMPLATE\<rparr>),
     (''gemini_image_4k'', \<lparr>tp_label = ''Gemini Image 4K'', tp_kind = OperationsPreset, tp_payload = GEMINI_IMAGE_4K_TEMPLATE\<rparr>),
     (''claude_cli_headers_passthrough'', \<lparr>tp_label = ''Claude CLI Header Passthrough'', tp_kind = OperationsPreset,
        tp_payload = buildPassHeadersTemplate CLAUDE_CLI_HEADER_PASSTHROUGH_HEADERS\<rparr>),
     (''codex_cli_headers_passthrough'', \<lparr>tp_label = ''Codex CLI Header Passthrough'', tp_kind = OperationsPreset,
        tp_payload = buildPassHeadersTemplate CODEX_CLI_HEADER_PASSTHROUGH_HEADERS\<rparr>),
     (''aws_bedrock_anthropic_beta_override'', \<lparr>tp_label = ''AWS Bedrock Claude Compat'', tp_kind = OperationsPreset,
        tp_payload = AWS_BEDROCK_ANTHROPIC_COMPAT_TEMPLATE\<rparr>)]"

subsection \<open>Values, conditions and operations\<close>

definition nextLocalId :: "(nat \<Rightarrow> int) \<Rightarrow> nat \<Rightarrow> jsstr \<times> nat" where
  "nextLocalId clock seed = (''po_'' @ int_to_str (clock seed) @ ''_'' @ dec_str (int seed), Suc seed)"

definition toValueText :: "json option \<Rightarrow> jsstr" where
  "toValueText value = (case value of None \<Rightarrow> [] | Some (JStr s) \<Rightarrow> s | Some v \<Rightarrow> json_stringify v)"

definition parseLooseValue :: "jsstr \<Rightarrow> json" where
  "parseLooseValue valueText =
     (let raw = js_trim valueText in
      if raw = [] then JStr []
      else (case json_parse raw of Some v \<Rightarrow> v | None \<Rightarrow> JStr raw))"

definition verifyJSON :: "jsstr \<Rightarrow> bool" where
  "verifyJSON s = (json_parse s \<noteq> None)"

definition string_prop :: "json \<Rightarrow> jsstr \<Rightarrow> jsstr" where
  "string_prop v k = (case js_prop (Some v) k of Some (JStr s) \<Rightarrow> s | _ \<Rightarrow> [])"

definition known_mode_or :: "jsstr list \<Rightarrow> jsstr \<Rightarrow> json \<Rightarrow> jsstr" where
  "known_mode_or modes d v = (case js_prop (Some v) ''mode'' of Some (JStr m) \<Rightarrow> if m \<in> set modes then m else d | _ \<Rightarrow> d)"

definition is_true :: "json \<Rightarrow> jsstr \<Rightarrow> bool" where
  "is_true v k = (js_prop (Some v) k = Some (JBool True))"

definition normalizeCondition :: "(nat \<Rightarrow> int) \<Rightarrow> nat \<Rightarrow> json \<Rightarrow> ParamOverrideCondition option \<times> nat" where
  "normalizeCondition clock seed condition =
     (let (i, seed') = nextLocalId clock seed in
      (if condition = JNull then None
       else Some \<lparr>c_id = i, c_path = string_prop condition ''path'', c_mode = known_mode_or CONDITION_MODE_VALUES ''full'' condition,
         c_value_text = toValueText (js_prop (Some condition) ''value''), c_invert = is_true condition ''invert'',
         c_pass_missing_key = is_true condition ''pass_missing_key''\<rparr>, seed'))"

definition createDefaultCondition :: "(nat \<Rightarrow> int) \<Rightarrow> nat \<Rightarrow> ParamOverrideCondition \<times> nat" where
  "createDefaultCondition clock seed = apfst the (normalizeCondition clock seed (JObj []))"

text \<open>\<open>map\<close> with a function that makes ids and may throw.\<close>

fun map_ids :: "(nat \<Rightarrow> 'a \<Rightarrow> 'b option \<times> nat) \<Rightarrow> nat \<Rightarrow> 'a list \<Rightarrow> 'b list option \<times> nat" where
  "map_ids f seed [] = (Some [], seed)"
| "map_ids f seed (x # xs) =
     (case f seed x of
        (None, s1) \<Rightarrow> (None, s1)
      | (Some y, s1) \<Rightarrow> (case map_ids f s1 xs of (ys, s2) \<Rightarrow> (map_option (\<lambda>l. y # l) ys, s2)))"

definition and_or :: "json option \<Rightarrow> jsstr" where
  "and_or v = (if js_toUpperCase (js_String (js_or v (JStr ''OR''))) = ''AND'' then ''AND'' else ''OR'')"

definition normalizeOperation :: "(nat \<Rightarrow> int) \<Rightarrow> nat \<Rightarrow> json \<Rightarrow> ParamOverrideOperation option \<times> nat" where
  \<comment> \<open>\<open>None\<close>: a property of \<open>null\<close> is read, or \<open>String(operation.logic)\<close> throws before the conditions are read\<close>
  "normalizeOperation clock seed operation =
     (let (i, s1) = nextLocalId clock seed in
      if operation = JNull \<or> string_throws (js_or (js_prop (Some operation) ''logic'') (JStr ''OR'')) then (None, s1)
      else (let (conds, s2) = (case js_prop (Some operation) ''conditions'' of
                   Some (JArr cs) \<Rightarrow> map_ids (normalizeCondition clock) s1 cs | _ \<Rightarrow> (Some [], s1)) in
        (map_option (\<lambda>cs. \<lparr>o_id = i, o_description = string_prop operation ''description'', o_path = string_prop operation ''path'',
           o_mode = known_mode_or OPERATION_MODE_VALUES ''set'' operation, o_from = string_prop operation ''from'', o_to = string_prop operation ''to'',
           o_value_text = toValueText (js_prop (Some operation) ''value''), o_keep_origin = is_true operation ''keep_origin'',
           o_logic = and_or (js_prop (Some operation) ''logic''), o_conditions = cs\<rparr>) conds, s2)))"

definition createDefaultOperation :: "(nat \<Rightarrow> int) \<Rightarrow> nat \<Rightarrow> ParamOverrideOperation \<times> nat" where
  "createDefaultOperation clock seed = apfst the (normalizeOperation clock seed (JObj [(''mode'', JStr ''set'')]))"

datatype drop_position = Before | After

text \<open>\<open>findIndex\<close>, \<open>splice(i, 1)\<close> and \<open>splice(i, 0, x)\<close>.\<close>

fun find_index :: "('a \<Rightarrow> bool) \<Rightarrow> 'a list \<Rightarrow> nat option" where
  "find_index P [] = None"
| "find_index P (x # xs) = (if P x then Some 0 else map_option Suc (find_index P xs))"

definition remove_at :: "nat \<Rightarrow> 'a list \<Rightarrow> 'a list" where
  "remove_at i xs = take i xs @ drop (Suc i) xs"

definition insert_at :: "nat \<Rightarrow> 'a \<Rightarrow> 'a list \<Rightarrow> 'a list" where
  "insert_at i x xs = take i xs @ x # drop i xs"

definition reorderOperations ::
  "ParamOverrideOperation list \<Rightarrow> jsstr \<Rightarrow> jsstr \<Rightarrow> drop_position \<Rightarrow> ParamOverrideOperation list" where
  "reorderOperations ops sourceId targetId position =
     (if sourceId = [] \<or> targetId = [] \<or> sourceId = targetId then ops
      else (case find_index (\<lambda>x. o_id x = sourceId) ops of
          None \<Rightarrow> ops
        | Some srcIdx \<Rightarrow>
            (let next = remove_at srcIdx ops; moved = ops ! srcIdx in
             case find_index (\<lambda>x. o_id x = targetId) next of
               None \<Rightarrow> ops
             | Some insertIdx \<Rightarrow> insert_at (if position = After then insertIdx + 1 else insertIdx) moved next)))"

definition blank :: "jsstr \<Rightarrow> bool" where
  "blank s \<longleftrightarrow> js_trim s = []"

definition condition_set :: "ParamOverrideCondition \<Rightarrow> bool" where
  "condition_set c \<longleftrightarrow> \<not> blank (c_path c) \<or> \<not> blank (c_value_text c) \<or> c_mode c \<noteq> ''full'' \<or> c_invert c \<or> c_pass_missing_key c"

definition isOperationBlank :: "ParamOverrideOperation \<Rightarrow> bool" where
  "isOperationBlank operation \<longleftrightarrow> o_mode operation = ''set'' \<and> blank (o_path operation) \<and> blank (o_from operation) \<and>
     blank (o_to operation) \<and> blank (o_value_text operation) \<and> \<not> o_keep_origin operation \<and>
     \<not> list_ex condition_set (o_conditions operation)"

definition first_text :: "jsstr list \<Rightarrow> jsstr" where
  \<comment> \<open>the first text of \<open>a || b || ... || '-'\<close>\<close>
  "first_text xs = (case filter (\<lambda>s. s \<noteq> []) xs of [] \<Rightarrow> ''-'' | s # _ \<Rightarrow> s)"

definition getOperationSummary :: "ParamOverrideOperation \<Rightarrow> int \<Rightarrow> jsstr" where
  "getOperationSummary operation index =
     (let mode = mode_or_set (o_mode operation);
          modeLabel = (case obj_get mode OPERATION_MODE_LABEL_MAP of Some l \<Rightarrow> if l = [] then mode else l | None \<Rightarrow> mode);
          parts = (if mode = ''sync_fields'' then [js_trim (o_from operation), js_trim (o_to operation)]
                   else [js_trim (o_path operation), js_trim (o_from operation), js_trim (o_to operation)]) in
      int_to_str (index + 1) @ ''. '' @ modeLabel @ '' '' @ [CHR 0xB7] @ '' '' @ first_text parts)"

subsection \<open>Labels of the modes\<close>

definition getModeTagTailwind :: "jsstr \<Rightarrow> jsstr" where
  "getModeTagTailwind mode =
     (if js_includes mode ''header'' then ''bg-cyan-500/15 text-cyan-700 dark:text-cyan-300 border-cyan-500/20''
      else if js_includes mode ''replace'' \<or> js_includes mode ''trim'' then ''bg-violet-500/15 text-violet-700 dark:text-violet-300 border-violet-500/20''
      else if js_includes mode ''copy'' \<or> js_includes mode ''move'' then ''bg-blue-500/15 text-blue-700 dark:text-blue-300 border-blue-500/20''
      else if js_includes mode ''error'' \<or> js_includes mode ''prune'' then ''bg-red-500/15 text-red-700 dark:text-red-300 border-red-500/20''
      else if js_includes mode ''sync'' then ''bg-green-500/15 text-green-700 dark:text-green-300 border-green-500/20''
      else ''bg-muted text-muted-foreground'')"

definition getModePathLabel :: "jsstr \<Rightarrow> jsstr" where
  "getModePathLabel mode = (if mode = ''set_header'' \<or> mode = ''delete_header'' then ''Header Name''
     else if mode = ''prune_objects'' then ''Target Path (optional)'' else ''Target Field Path'')"

definition getModePathPlaceholder :: "jsstr \<Rightarrow> jsstr" where
  "getModePathPlaceholder mode = (if mode = ''set_header'' then ''Authorization'' else if mode = ''delete_header'' then ''X-Debug-Mode''
     else if mode = ''prune_objects'' then ''messages'' else ''temperature'')"

definition getModeFromLabel :: "jsstr \<Rightarrow> jsstr" where
  "getModeFromLabel mode = (if mode = ''replace'' then ''Match Text'' else if mode = ''regex_replace'' then ''Regex Pattern''
     else if mode = ''copy_header'' \<or> mode = ''move_header'' then ''Source Header'' else ''Source Field'')"

definition getModeFromPlaceholder :: "jsstr \<Rightarrow> jsstr" where
  "getModeFromPlaceholder mode = (if mode = ''replace'' then ''openai/'' else if mode = ''regex_replace'' then ''^gpt-''
     else if mode = ''copy_header'' \<or> mode = ''move_header'' then ''Authorization'' else ''model'')"

definition getModeToLabel :: "jsstr \<Rightarrow> jsstr" where
  "getModeToLabel mode = (if mode = ''replace'' \<or> mode = ''regex_replace'' then ''Replace With''
     else if mode = ''copy_header'' \<or> mode = ''move_header'' then ''Target Header'' else ''Target Field'')"

definition getModeToPlaceholder :: "jsstr \<Rightarrow> jsstr" where
  "getModeToPlaceholder mode = (if mode = ''replace'' then ''(leave empty to delete)'' else if mode = ''regex_replace'' then ''openai/gpt-''
     else if mode = ''copy_header'' \<or> mode = ''move_header'' then ''X-Upstream-Auth'' else ''original_model'')"

definition affix_modes :: "jsstr list" where
  "affix_modes = [''trim_prefix'', ''trim_suffix'', ''ensure_prefix'', ''ensure_suffix'']"

definition getModeValueLabel :: "jsstr \<Rightarrow> jsstr" where
  "getModeValueLabel mode = (if mode = ''set_header'' then ''Header Value (supports string or JSON mapping)''
     else if mode = ''pass_headers'' then ''Pass-through Headers (comma-separated or JSON array)''
     else if mode \<in> set affix_modes then ''Prefix/Suffix Text''
     else if mode = ''prune_objects'' then ''Prune Rule (string or JSON object)'' else ''Value (supports JSON or plain text)'')"

definition getModeValuePlaceholder :: "jsstr \<Rightarrow> jsstr" where
  "getModeValuePlaceholder mode = (if mode = ''set_header'' then ''Bearer sk-xxx''
     else if mode = ''pass_headers'' then ''Authorization, X-Request-Id''
     else if mode \<in> set affix_modes then ''openai/''
     else if mode = ''prune_objects'' then ''{'' @ [CHR 0x22] @ ''type'' @ [CHR 0x22] @ '':'' @ [CHR 0x22] @ ''redacted_thinking'' @ [CHR 0x22] @ ''}''
     else ''0.7'')"

subsection \<open>Targets of a synchronisation\<close>

datatype sync_type = SyncJson | SyncHeader

record sync_target =
  st_type :: sync_type
  st_key :: jsstr

definition parseSyncTargetSpec :: "jsstr \<Rightarrow> sync_target" where
  "parseSyncTargetSpec spec =
     (let raw = js_trim spec in
      if raw = [] then \<lparr>st_type = SyncJson, st_key = []\<rparr>
      else (case js_find '':'' raw of
          None \<Rightarrow> \<lparr>st_type = SyncJson, st_key = raw\<rparr>
        | Some idx \<Rightarrow>
            (let prefix = js_toLowerCase (js_trim (take idx raw)); key = js_trim (drop (idx + 1) raw) in
             if prefix = ''header'' then \<lparr>st_type = SyncHeader, st_key = key\<rparr> else \<lparr>st_type = SyncJson, st_key = key\<rparr>)))"

definition buildSyncTargetSpec :: "sync_type \<Rightarrow> jsstr \<Rightarrow> jsstr" where
  "buildSyncTargetSpec ty key =
     (let normalizedType = (if ty = SyncHeader then ''header'' else ''json''); normalizedKey = js_trim key in
      if normalizedKey = [] then [] else normalizedType @ '':'' @ normalizedKey)"

subsection \<open>The draft of a custom error\<close>

record ReturnErrorDraft =
  re_message :: jsstr
  re_statusCode :: jsnum
  re_code :: jsstr
  re_type :: jsstr
  re_skipRetry :: bool
  re_simpleMode :: bool

definition error_defaults :: ReturnErrorDraft where
  "error_defaults = \<lparr>re_message = [], re_statusCode = num 400, re_code = [], re_type = [], re_skipRetry = True, re_simpleMode = True\<rparr>"

definition http_status :: "jsnum \<Rightarrow> jsnum" where
  "http_status x = (if js_isInteger x \<and> js_le (num 100) x \<and> js_le x (num 599) then x else num 400)"

definition parseReturnErrorDraft :: "jsstr \<Rightarrow> ReturnErrorDraft" where
  "parseReturnErrorDraft valueText =
     (let raw = js_trim valueText in
      if raw = [] then error_defaults
      else (case json_object raw of
          Some parsed \<Rightarrow>
            (let p = (\<lambda>k. obj_get k parsed);
                 statusRaw = (if p ''status_code'' \<noteq> None then p ''status_code'' else p ''status'') in
             if (case statusRaw of Some v \<Rightarrow> string_throws v | None \<Rightarrow> False) \<or>
               string_throws (js_or (p ''message'') (js_or (p ''msg'') (JStr []))) \<or> string_throws (js_or (p ''code'') (JStr [])) \<or>
               string_throws (js_or (p ''type'') (JStr []))
             then error_defaults\<lparr>re_message := raw, re_simpleMode := True\<rparr> \<comment> \<open>the exception is caught\<close>
             else
             \<lparr>re_message = js_trim (js_String (js_or (p ''message'') (js_or (p ''msg'') (JStr [])))),
              re_statusCode = http_status (js_Number statusRaw),
              re_code = js_trim (js_String (js_or (p ''code'') (JStr []))),
              re_type = js_trim (js_String (js_or (p ''type'') (JStr []))),
              re_skipRetry = (p ''skip_retry'' \<noteq> Some (JBool False)), re_simpleMode = False\<rparr>)
        | None \<Rightarrow> error_defaults\<lparr>re_message := raw, re_simpleMode := True\<rparr>))"

definition put_text :: "jsstr \<Rightarrow> jsstr \<Rightarrow> json obj \<Rightarrow> json obj" where
  \<comment> \<open>\<open>if (s) payload[k] = s\<close>\<close>
  "put_text k s ob = (if s = [] then ob else obj_set k (JStr s) ob)"

definition put_when :: "bool \<Rightarrow> jsstr \<Rightarrow> json \<Rightarrow> json obj \<Rightarrow> json obj" where
  "put_when b k v ob = (if b then obj_set k v ob else ob)"

definition buildReturnErrorValueText :: "ReturnErrorDraft \<Rightarrow> jsstr" where
  "buildReturnErrorValueText draft =
     (let message = js_trim (re_message draft) in
      if re_simpleMode draft then message
      else (let p0 = [(''message'', JStr message), (''status_code'', JNum (http_status (re_statusCode draft)))];
                p1 = put_text ''code'' (js_trim (re_code draft)) p0;
                p2 = put_text ''type'' (js_trim (re_type draft)) p1;
                p3 = put_when (\<not> re_skipRetry draft) ''skip_retry'' (JBool False) p2 in
            json_stringify (JObj p3)))"

subsection \<open>The draft of prune rules\<close>

record PruneRule =
  pr_id :: jsstr
  pr_path :: jsstr
  pr_mode :: jsstr
  pr_value_text :: jsstr
  pr_invert :: bool
  pr_pass_missing_key :: bool

record PruneObjectsDraft =
  pd_simpleMode :: bool
  pd_typeText :: jsstr
  pd_logic :: jsstr
  pd_recursive :: bool
  pd_rules :: "PruneRule list"

definition normalizePruneRule :: "(nat \<Rightarrow> int) \<Rightarrow> nat \<Rightarrow> json \<Rightarrow> PruneRule \<times> nat" where
  "normalizePruneRule clock seed rule =
     (let (i, seed') = nextLocalId clock seed in
      (\<lparr>pr_id = i, pr_path = string_prop rule ''path'', pr_mode = known_mode_or CONDITION_MODE_VALUES ''full'' rule,
        pr_value_text = toValueText (js_prop (Some rule) ''value''), pr_invert = is_true rule ''invert'',
        pr_pass_missing_key = is_true rule ''pass_missing_key''\<rparr>, seed'))"

fun prune_rules :: "(nat \<Rightarrow> int) \<Rightarrow> nat \<Rightarrow> json list \<Rightarrow> PruneRule list \<times> nat" where
  "prune_rules clock seed [] = ([], seed)"
| "prune_rules clock seed (v # vs) =
     (let (r, s1) = normalizePruneRule clock seed v; (rs, s2) = prune_rules clock s1 vs in (r # rs, s2))"

definition entry_rules :: "json obj \<Rightarrow> json list" where
  \<comment> \<open>the rule of each entry of an object of expected values\<close>
  "entry_rules kvs = map (\<lambda>(path, value). JObj [(''path'', JStr path), (''mode'', JStr ''full''), (''value'', value)]) kvs"

definition is_object :: "json \<Rightarrow> bool" where
  \<comment> \<open>\<open>item && typeof item === 'object'\<close>\<close>
  "is_object v = (case v of JObj _ \<Rightarrow> True | JArr _ \<Rightarrow> True | _ \<Rightarrow> False)"

definition prune_sources :: "json obj \<Rightarrow> json list" where
  "prune_sources parsed =
     (case obj_get ''where'' parsed of Some (JObj kvs) \<Rightarrow> entry_rules kvs | _ \<Rightarrow> []) @
     (case obj_get ''conditions'' parsed of
        Some (JArr items) \<Rightarrow> filter is_object items
      | Some (JObj kvs) \<Rightarrow> entry_rules kvs
      | _ \<Rightarrow> [])"

definition prune_defaults :: PruneObjectsDraft where
  "prune_defaults = \<lparr>pd_simpleMode = True, pd_typeText = [], pd_logic = ''AND'', pd_recursive = True, pd_rules = []\<rparr>"

definition or_and :: "json option \<Rightarrow> jsstr" where
  "or_and v = (if js_toUpperCase (js_String (js_or v (JStr ''AND''))) = ''OR'' then ''OR'' else ''AND'')"

definition parsePruneObjectsDraft :: "(nat \<Rightarrow> int) \<Rightarrow> nat \<Rightarrow> jsstr \<Rightarrow> PruneObjectsDraft \<times> nat" where
  "parsePruneObjectsDraft clock seed valueText =
     (let raw = js_trim valueText in
      if raw = [] then (prune_defaults, seed)
      else (case json_parse raw of
          Some (JStr s) \<Rightarrow> (prune_defaults\<lparr>pd_typeText := js_trim s\<rparr>, seed)
        | Some (JObj parsed) \<Rightarrow>
            (let (rules, seed') = prune_rules clock seed (prune_sources parsed) in
             if (case obj_get ''type'' parsed of None \<Rightarrow> False | Some v \<Rightarrow> string_throws v) \<or>
               string_throws (js_or (obj_get ''logic'' parsed) (JStr ''AND''))
             then (prune_defaults\<lparr>pd_typeText := raw\<rparr>, seed')
             else let hasAdvancedFields = (obj_get ''logic'' parsed \<noteq> None \<or> obj_get ''recursive'' parsed \<noteq> None \<or>
                   obj_get ''where'' parsed \<noteq> None \<or> obj_get ''conditions'' parsed \<noteq> None) in
             (\<lparr>pd_simpleMode = (\<not> hasAdvancedFields),
               pd_typeText = (case obj_get ''type'' parsed of None \<Rightarrow> [] | Some v \<Rightarrow> js_trim (js_String v)),
               pd_logic = or_and (obj_get ''logic'' parsed), pd_recursive = (obj_get ''recursive'' parsed \<noteq> Some (JBool False)),
               pd_rules = rules\<rparr>, seed'))
        | Some JNull \<Rightarrow> (prune_defaults, seed)
        | Some v \<Rightarrow> (prune_defaults\<lparr>pd_typeText := (if string_throws v then raw else js_trim (js_String v))\<rparr>, seed)
        | None \<Rightarrow> (prune_defaults\<lparr>pd_typeText := raw\<rparr>, seed)))"

definition prune_condition :: "PruneRule \<Rightarrow> json" where
  "prune_condition rule =
     (let p0 = [(''path'', JStr (js_trim (pr_path rule))),
                (''mode'', JStr (if pr_mode rule \<in> set CONDITION_MODE_VALUES then pr_mode rule else ''full''))];
          valueRaw = js_trim (pr_value_text rule);
          p1 = put_when (valueRaw \<noteq> []) ''value'' (parseLooseValue valueRaw) p0;
          p2 = put_when (pr_invert rule) ''invert'' (JBool True) p1;
          p3 = put_when (pr_pass_missing_key rule) ''pass_missing_key'' (JBool True) p2 in
      JObj p3)"

definition buildPruneObjectsValueText :: "PruneObjectsDraft \<Rightarrow> jsstr" where
  "buildPruneObjectsValueText draft =
     (let typeText = js_trim (pd_typeText draft) in
      if pd_simpleMode draft then typeText
      else (let p0 = put_text ''type'' typeText [];
                logicText = (if pd_logic draft = [] then ''AND'' else pd_logic draft);
                p1 = put_when (js_toUpperCase logicText = ''OR'') ''logic'' (JStr ''OR'') p0;
                p2 = put_when (\<not> pd_recursive draft) ''recursive'' (JBool False) p1;
                conditions = map prune_condition (filter (\<lambda>r. js_trim (pr_path r) \<noteq> []) (pd_rules draft));
                p3 = put_when (conditions \<noteq> []) ''conditions'' (JArr conditions) p2 in
            if \<not> js_truthy (obj_get ''type'' p3) \<and> \<not> js_truthy (obj_get ''conditions'' p3)
            then json_stringify (JObj [(''logic'', JStr ''AND'')]) else json_stringify (JObj p3)))"

subsection \<open>Validation\<close>

definition null_text :: "json \<Rightarrow> jsstr" where
  \<comment> \<open>\<open>String(v ?? '')\<close>\<close>
  "null_text v = (if v = JNull then [] else js_String v)"

definition header_list :: "json list \<Rightarrow> jsstr list" where
  "header_list items = filter (\<lambda>s. s \<noteq> []) (map (\<lambda>i. js_trim (null_text i)) items)"

definition parsePassHeaderNames :: "json \<Rightarrow> jsstr list" where
  "parsePassHeaderNames rawValue = (case rawValue of
       JArr items \<Rightarrow> header_list items
     | JObj ob \<Rightarrow>
         (case obj_get ''headers'' ob of
            Some (JArr items) \<Rightarrow> header_list items
          | _ \<Rightarrow> (case obj_get ''header'' ob of
                Some v \<Rightarrow> (let single = js_trim (null_text v) in if single = [] then [] else [single])
              | None \<Rightarrow> []))
     | JStr s \<Rightarrow> filter (\<lambda>s. s \<noteq> []) (map js_trim (split_on CHR '','' s))
     | _ \<Rightarrow> [])"

definition buildConditionPayload :: "ParamOverrideCondition \<Rightarrow> json option" where
  "buildConditionPayload condition =
     (let path = js_trim (c_path condition) in
      if path = [] then None
      else (let p0 = [(''path'', JStr path), (''mode'', JStr (if c_mode condition = [] then ''full'' else c_mode condition)),
                      (''value'', parseLooseValue (c_value_text condition))];
                p1 = put_when (c_invert condition) ''invert'' (JBool True) p0;
                p2 = put_when (c_pass_missing_key condition) ''pass_missing_key'' (JBool True) p1 in
            Some (JObj p2)))"

type_synonym translator = "jsstr \<Rightarrow> int option \<Rightarrow> jsstr"

definition header_throws :: "json \<Rightarrow> bool" where
  \<comment> \<open>a header name that \<open>parsePassHeaderNames\<close> converts is an object with its own \<open>toString\<close>; the caller gets the exception in place of a message\<close>
  "header_throws rawValue = (case rawValue of
       JArr items \<Rightarrow> list_ex string_throws items
     | JObj ob \<Rightarrow> (case obj_get ''headers'' ob of
           Some (JArr items) \<Rightarrow> list_ex string_throws items
         | _ \<Rightarrow> (case obj_get ''header'' ob of Some v \<Rightarrow> string_throws v | None \<Rightarrow> False))
     | _ \<Rightarrow> False)"

definition blank_text :: "json \<Rightarrow> bool" where
  \<comment> \<open>\<open>!String(v).trim()\<close> in a \<open>try\<close>\<close>
  "blank_text v \<longleftrightarrow> \<not> string_throws v \<and> blank (js_String v)"

definition type_error_text :: jsstr where
  "type_error_text = ''Cannot convert object to primitive value''"

text \<open>The checks of one rule: the key of the message, if there is one.\<close>

definition rule_error :: "ParamOverrideOperation \<Rightarrow> jsstr option" where
  "rule_error op =
     (let mode = mode_or_set (o_mode op); meta = meta_of mode; pathValue = js_trim (o_path op); raw = js_trim (o_value_text op) in
      if mm_path meta \<and> pathValue = [] then Some ''Rule {{line}} is missing target path''
      else if mode \<in> set FROM_REQUIRED_MODES \<and> blank (o_from op) \<and> \<not> (mm_pathAlias meta \<and> pathValue \<noteq> [])
        then Some ''Rule {{line}} is missing source field''
      else if mode \<in> set TO_REQUIRED_MODES \<and> blank (o_to op) \<and> \<not> (mm_pathAlias meta \<and> pathValue \<noteq> [])
        then Some ''Rule {{line}} is missing target field''
      else if mode \<in> set VALUE_REQUIRED_MODES \<and> raw = [] then Some ''Rule {{line}} is missing value''
      else if mode = ''return_error'' \<and>
          (case json_object raw of Some parsed \<Rightarrow> blank_text (js_or (obj_get ''message'' parsed) (JStr [])) | None \<Rightarrow> False)
        then Some ''Rule {{line}} return_error requires a message field''
      else if mode = ''prune_objects'' \<and> raw = [] then Some ''Rule {{line}} prune_objects is missing conditions''
      else if mode = ''pass_headers'' \<and> raw = [] then Some ''Rule {{line}} pass_headers is missing header names''
      else if mode = ''pass_headers'' \<and> \<not> header_throws (parseLooseValue raw) \<and> length (parsePassHeaderNames (parseLooseValue raw)) = 0
        then Some ''Rule {{line}} pass_headers format is invalid''
      else None)"

fun validate_from :: "translator \<Rightarrow> int \<Rightarrow> ParamOverrideOperation list \<Rightarrow> jsstr" where
  "validate_from t i [] = []"
| "validate_from t i (op # ops) =
     (case rule_error op of
        Some key \<Rightarrow> t key (Some (i + 1))
      | None \<Rightarrow>
          if mode_or_set (o_mode op) = ''pass_headers'' \<and> header_throws (parseLooseValue (js_trim (o_value_text op)))
          then type_error_text \<comment> \<open>the message of the exception\<close>
          else validate_from t (i + 1) ops)"

definition validateOperations :: "ParamOverrideOperation list \<Rightarrow> translator \<Rightarrow> jsstr" where
  "validateOperations operations t = validate_from t 0 operations"

subsection \<open>Reading and writing the rules\<close>

datatype edit_mode = VisualEdit | JsonEdit
datatype visual_mode = OperationsMode | LegacyMode

record EditorState =
  es_editMode :: edit_mode
  es_visualMode :: visual_mode
  es_legacyValue :: jsstr
  es_operations :: "ParamOverrideOperation list"
  es_jsonText :: jsstr
  es_jsonError :: jsstr

text \<open>The operations of an array, or the default one: \<open>None\<close> if reading an item throws.\<close>

definition load_operations :: "(nat \<Rightarrow> int) \<Rightarrow> nat \<Rightarrow> json list \<Rightarrow> ParamOverrideOperation list option \<times> nat" where
  "load_operations clock seed items =
     (if length items > 0 then map_ids (normalizeOperation clock) seed items
      else apfst (\<lambda>op. Some [op]) (createDefaultOperation clock seed))"

definition default_state :: "(nat \<Rightarrow> int) \<Rightarrow> nat \<Rightarrow> edit_mode \<Rightarrow> visual_mode \<Rightarrow> jsstr \<Rightarrow> jsstr \<Rightarrow> jsstr \<Rightarrow> EditorState option \<times> nat" where
  "default_state clock seed em vm legacy txt err =
     (let (op, s1) = createDefaultOperation clock seed in
      (Some \<lparr>es_editMode = em, es_visualMode = vm, es_legacyValue = legacy, es_operations = [op], es_jsonText = txt, es_jsonError = err\<rparr>, s1))"

definition parseInitialState :: "(nat \<Rightarrow> int) \<Rightarrow> nat \<Rightarrow> jsstr \<Rightarrow> EditorState option \<times> nat" where
  "parseInitialState clock seed rawValue =
     (let trimmed_text = js_trim rawValue in
      if trimmed_text = [] then default_state clock seed VisualEdit OperationsMode [] [] []
      else (case json_parse trimmed_text of
          None \<Rightarrow> default_state clock seed JsonEdit OperationsMode [] rawValue ''Invalid JSON format''
        | Some parsed \<Rightarrow>
            (let pretty = stringify2 parsed in
             case js_prop (Some parsed) ''operations'' of
               Some (JArr items) \<Rightarrow>
                 (let (ops, s1) = load_operations clock seed items in
                  (map_option (\<lambda>os. \<lparr>es_editMode = VisualEdit, es_visualMode = OperationsMode, es_legacyValue = [], es_operations = os,
                     es_jsonText = pretty, es_jsonError = []\<rparr>) ops, s1))
             | _ \<Rightarrow> (case parsed of
                   JObj _ \<Rightarrow> default_state clock seed VisualEdit LegacyMode pretty pretty []
                 | _ \<Rightarrow> default_state clock seed JsonEdit OperationsMode [] pretty []))))"

definition falsy_text :: "json option \<Rightarrow> bool" where
  "falsy_text v = (\<not> js_truthy v)"

definition operation_payload :: "ParamOverrideOperation \<Rightarrow> json" where
  "operation_payload operation =
     (let mode = mode_or_set (o_mode operation); meta = meta_of mode;
          pathValue = js_trim (o_path operation); fromValue = js_trim (o_from operation); toValue = js_trim (o_to operation);
          p0 = [(''mode'', JStr mode)];
          p1 = put_text ''description'' (js_trim (o_description operation)) p0;
          p2 = put_when (mm_path meta) ''path'' (JStr pathValue) p1;
          p3 = put_when (mm_pathOptional meta \<and> pathValue \<noteq> []) ''path'' (JStr pathValue) p2;
          p4 = put_when (mm_value meta) ''value'' (parseLooseValue (o_value_text operation)) p3;
          p5 = put_when (mm_keepOrigin meta \<and> o_keep_origin operation) ''keep_origin'' (JBool True) p4;
          p6 = put_when (mm_from meta) ''from'' (JStr fromValue) p5;
          p7 = put_when (\<not> mm_to meta \<and> toValue \<noteq> []) ''to'' (JStr toValue) p6;
          p8 = put_when (mm_to meta) ''to'' (JStr toValue) p7;
          p9 = put_when (mm_pathAlias meta \<and> falsy_text (obj_get ''from'' p8) \<and> pathValue \<noteq> []) ''from'' (JStr pathValue) p8;
          p10 = put_when (mm_pathAlias meta \<and> falsy_text (obj_get ''to'' p9) \<and> pathValue \<noteq> []) ''to'' (JStr pathValue) p9;
          conditions = List.map_filter buildConditionPayload (o_conditions operation);
          p11 = put_when (conditions \<noteq> []) ''conditions'' (JArr conditions) p10;
          p12 = put_when (conditions \<noteq> []) ''logic'' (JStr (if o_logic operation = ''AND'' then ''AND'' else ''OR'')) p11 in
      JObj p12)"

definition buildOperationsJson :: "ParamOverrideOperation list \<Rightarrow> bool \<Rightarrow> translator \<Rightarrow> jsstr + jsstr" where
  \<comment> \<open>\<open>Inl\<close> is the message of the error thrown\<close>
  "buildOperationsJson sourceOperations validate t =
     (let filteredOps = filter (\<lambda>op. \<not> isOperationBlank op) sourceOperations in
      if length filteredOps = 0 then Inr []
      else if validate \<and> validateOperations filteredOps t \<noteq> [] then Inl (validateOperations filteredOps t)
      else Inr (stringify2 (JObj (ops_payload (map operation_payload filteredOps)))))"

subsection \<open>The dialog\<close>

record EditorDialog =
  ed_open :: bool
  ed_editMode :: edit_mode
  ed_visualMode :: visual_mode
  ed_legacyValue :: jsstr
  ed_operations :: "ParamOverrideOperation list"
  ed_jsonText :: jsstr
  ed_jsonError :: jsstr
  ed_operationSearch :: jsstr
  ed_selectedOperationId :: jsstr
  ed_expandedConditions :: "bool obj"
  ed_draggedOperationId :: jsstr
  ed_dragOverOperationId :: jsstr
  ed_dragOverPosition :: drop_position
  ed_templatePresetKey :: jsstr
  ed_localIdSeed :: nat
  ed_toasts :: "jsstr list"
  ed_saved :: "jsstr list"

definition first_id :: "ParamOverrideOperation list \<Rightarrow> jsstr" where
  "first_id ops = (case ops of [] \<Rightarrow> [] | op # _ \<Rightarrow> o_id op)"

text \<open>The state of the component when it is mounted.\<close>

definition initial_dialog :: "(nat \<Rightarrow> int) \<Rightarrow> nat \<Rightarrow> EditorDialog" where
  "initial_dialog clock seed =
     (let (op, s1) = createDefaultOperation clock seed in
      \<lparr>ed_open = False, ed_editMode = VisualEdit, ed_visualMode = OperationsMode, ed_legacyValue = [], ed_operations = [op], ed_jsonText = [],
       ed_jsonError = [], ed_operationSearch = [], ed_selectedOperationId = [], ed_expandedConditions = [], ed_draggedOperationId = [],
       ed_dragOverOperationId = [], ed_dragOverPosition = Before, ed_templatePresetKey = ''operations_default'', ed_localIdSeed = s1,
       ed_toasts = [], ed_saved = []\<rparr>)"

text \<open>The effect that runs when the dialog opens; \<open>None\<close> when it throws.\<close>

definition openDialog :: "(nat \<Rightarrow> int) \<Rightarrow> jsstr \<Rightarrow> EditorDialog \<Rightarrow> EditorDialog option" where
  "openDialog clock value ed =
     (let (r, s1) = parseInitialState clock (ed_localIdSeed ed) value in
      map_option (\<lambda>state. ed\<lparr>ed_open := True, ed_editMode := es_editMode state, ed_visualMode := es_visualMode state,
         ed_legacyValue := es_legacyValue state, ed_operations := es_operations state, ed_jsonText := es_jsonText state,
         ed_jsonError := es_jsonError state, ed_operationSearch := [], ed_selectedOperationId := first_id (es_operations state),
         ed_expandedConditions := [], ed_draggedOperationId := [], ed_dragOverOperationId := [], ed_dragOverPosition := Before,
         ed_templatePresetKey := (if es_visualMode state = LegacyMode then ''legacy_default'' else ''operations_default''),
         ed_localIdSeed := s1\<rparr>) r)"

definition keepSelectedValid :: "EditorDialog \<Rightarrow> EditorDialog" where
  "keepSelectedValid ed =
     (if length (ed_operations ed) = 0 then ed\<lparr>ed_selectedOperationId := []\<rparr>
      else if \<not> list_ex (\<lambda>op. o_id op = ed_selectedOperationId ed) (ed_operations ed)
      then ed\<lparr>ed_selectedOperationId := o_id (hd (ed_operations ed))\<rparr> else ed)"

definition operationCount :: "EditorDialog \<Rightarrow> int" where
  "operationCount ed = int (length (filter (\<lambda>op. \<not> isOperationBlank op) (ed_operations ed)))"

definition searchable_text :: "ParamOverrideOperation \<Rightarrow> jsstr" where
  "searchable_text op = js_toLowerCase (js_join '' '' (filter (\<lambda>s. s \<noteq> [])
     [o_description op, o_mode op, o_path op, o_from op, o_to op, o_value_text op]))"

definition filteredOperations :: "EditorDialog \<Rightarrow> ParamOverrideOperation list" where
  "filteredOperations ed =
     (let keyword = js_toLowerCase (js_trim (ed_operationSearch ed)) in
      if keyword = [] then ed_operations ed else filter (\<lambda>op. js_includes (searchable_text op) keyword) (ed_operations ed))"

definition selectedOperation :: "EditorDialog \<Rightarrow> ParamOverrideOperation option" where
  "selectedOperation ed = find (\<lambda>op. o_id op = ed_selectedOperationId ed) (ed_operations ed)"

definition topOperationModes :: "EditorDialog \<Rightarrow> (jsstr \<times> int) list" where
  "topOperationModes ed =
     (let counts = fold (\<lambda>op counts. let mode = mode_or_set (o_mode op) in
            obj_set mode ((case obj_get mode counts of Some n \<Rightarrow> n | None \<Rightarrow> 0) + 1) counts) (ed_operations ed) [] in
      take 4 (sort_by (\<lambda>a b. snd b \<le> snd a) counts))"

text \<open>A partial operation or condition: the fields it sets.\<close>

record OperationPatch =
  op_description :: "jsstr option"
  op_path :: "jsstr option"
  op_mode :: "jsstr option"
  op_from :: "jsstr option"
  op_to :: "jsstr option"
  op_value_text :: "jsstr option"
  op_keep_origin :: "bool option"
  op_logic :: "jsstr option"

record ConditionPatch =
  cp_path :: "jsstr option"
  cp_mode :: "jsstr option"
  cp_value_text :: "jsstr option"
  cp_invert :: "bool option"
  cp_pass_missing_key :: "bool option"

definition patched :: "'a option \<Rightarrow> 'a \<Rightarrow> 'a" where
  "patched x d = (case x of Some v \<Rightarrow> v | None \<Rightarrow> d)"

definition patch_operation :: "OperationPatch \<Rightarrow> ParamOverrideOperation \<Rightarrow> ParamOverrideOperation" where
  "patch_operation p op = op\<lparr>o_description := patched (op_description p) (o_description op), o_path := patched (op_path p) (o_path op),
     o_mode := patched (op_mode p) (o_mode op), o_from := patched (op_from p) (o_from op), o_to := patched (op_to p) (o_to op),
     o_value_text := patched (op_value_text p) (o_value_text op), o_keep_origin := patched (op_keep_origin p) (o_keep_origin op),
     o_logic := patched (op_logic p) (o_logic op)\<rparr>"

definition patch_condition :: "ConditionPatch \<Rightarrow> ParamOverrideCondition \<Rightarrow> ParamOverrideCondition" where
  "patch_condition p c = c\<lparr>c_path := patched (cp_path p) (c_path c), c_mode := patched (cp_mode p) (c_mode c),
     c_value_text := patched (cp_value_text p) (c_value_text c), c_invert := patched (cp_invert p) (c_invert c),
     c_pass_missing_key := patched (cp_pass_missing_key p) (c_pass_missing_key c)\<rparr>"

definition on_operation :: "jsstr \<Rightarrow> (ParamOverrideOperation \<Rightarrow> ParamOverrideOperation) \<Rightarrow> ParamOverrideOperation list \<Rightarrow> ParamOverrideOperation list" where
  "on_operation i f ops = map (\<lambda>op. if o_id op = i then f op else op) ops"

definition updateOperation :: "jsstr \<Rightarrow> OperationPatch \<Rightarrow> EditorDialog \<Rightarrow> EditorDialog" where
  "updateOperation operationId patch ed = ed\<lparr>ed_operations := on_operation operationId (patch_operation patch) (ed_operations ed)\<rparr>"

definition addOperation :: "(nat \<Rightarrow> int) \<Rightarrow> EditorDialog \<Rightarrow> EditorDialog" where
  "addOperation clock ed =
     (let (created, s1) = createDefaultOperation clock (ed_localIdSeed ed) in
      ed\<lparr>ed_operations := ed_operations ed @ [created], ed_selectedOperationId := o_id created, ed_localIdSeed := s1\<rparr>)"

definition clone_payload :: "ParamOverrideOperation \<Rightarrow> json" where
  "clone_payload source = JObj [
     (''description'', JStr (o_description source)), (''path'', JStr (o_path source)), (''mode'', JStr (o_mode source)),
     (''value'', parseLooseValue (o_value_text source)), (''keep_origin'', JBool (o_keep_origin source)),
     (''from'', JStr (o_from source)), (''to'', JStr (o_to source)), (''logic'', JStr (o_logic source)),
     (''conditions'', JArr (map (\<lambda>c. JObj [(''path'', JStr (c_path c)), (''mode'', JStr (c_mode c)),
        (''value'', parseLooseValue (c_value_text c)), (''invert'', JBool (c_invert c)),
        (''pass_missing_key'', JBool (c_pass_missing_key c))]) (o_conditions source)))]"

text \<open>
  The updater of the operations runs either at once or when the component renders; the handler sees the
  id of the copy only in the first case (\<open>eager\<close>).
\<close>

definition duplicateOperation :: "(nat \<Rightarrow> int) \<Rightarrow> bool \<Rightarrow> jsstr \<Rightarrow> EditorDialog \<Rightarrow> EditorDialog" where
  "duplicateOperation clock eager operationId ed =
     (case find_index (\<lambda>op. o_id op = operationId) (ed_operations ed) of
        None \<Rightarrow> ed
      | Some idx \<Rightarrow>
          (case normalizeOperation clock (ed_localIdSeed ed) (clone_payload (ed_operations ed ! idx)) of
             (None, s1) \<Rightarrow> ed\<lparr>ed_localIdSeed := s1\<rparr>
           | (Some cloned, s1) \<Rightarrow>
               ed\<lparr>ed_operations := insert_at (idx + 1) cloned (ed_operations ed),
                  ed_selectedOperationId := (if eager then o_id cloned else ed_selectedOperationId ed), ed_localIdSeed := s1\<rparr>))"

definition removeOperation :: "(nat \<Rightarrow> int) \<Rightarrow> jsstr \<Rightarrow> EditorDialog \<Rightarrow> EditorDialog" where
  "removeOperation clock operationId ed =
     (if length (ed_operations ed) \<le> 1
      then (let (op, s1) = createDefaultOperation clock (ed_localIdSeed ed) in ed\<lparr>ed_operations := [op], ed_localIdSeed := s1\<rparr>)
      else ed\<lparr>ed_operations := filter (\<lambda>op. o_id op \<noteq> operationId) (ed_operations ed)\<rparr>)"

definition addCondition :: "(nat \<Rightarrow> int) \<Rightarrow> jsstr \<Rightarrow> EditorDialog \<Rightarrow> EditorDialog" where
  "addCondition clock operationId ed =
     (let (created, s1) = createDefaultCondition clock (ed_localIdSeed ed) in
      ed\<lparr>ed_operations := on_operation operationId (\<lambda>op. op\<lparr>o_conditions := o_conditions op @ [created]\<rparr>) (ed_operations ed),
         ed_expandedConditions := obj_set (c_id created) True (ed_expandedConditions ed), ed_localIdSeed := s1\<rparr>)"

definition updateCondition :: "jsstr \<Rightarrow> jsstr \<Rightarrow> ConditionPatch \<Rightarrow> EditorDialog \<Rightarrow> EditorDialog" where
  "updateCondition operationId conditionId patch ed =
     ed\<lparr>ed_operations := on_operation operationId (\<lambda>op. op\<lparr>o_conditions :=
        map (\<lambda>c. if c_id c = conditionId then patch_condition patch c else c) (o_conditions op)\<rparr>) (ed_operations ed)\<rparr>"

definition removeCondition :: "jsstr \<Rightarrow> jsstr \<Rightarrow> EditorDialog \<Rightarrow> EditorDialog" where
  "removeCondition operationId conditionId ed =
     ed\<lparr>ed_operations := on_operation operationId (\<lambda>op. op\<lparr>o_conditions := filter (\<lambda>c. c_id c \<noteq> conditionId) (o_conditions op)\<rparr>)
        (ed_operations ed)\<rparr>"

definition updateReturnErrorDraft :: "jsstr \<Rightarrow> (ReturnErrorDraft \<Rightarrow> ReturnErrorDraft) \<Rightarrow> EditorDialog \<Rightarrow> EditorDialog" where
  \<comment> \<open>the patch as the function that spreads it\<close>
  "updateReturnErrorDraft operationId patch ed =
     ed\<lparr>ed_operations := on_operation operationId
        (\<lambda>op. op\<lparr>o_value_text := buildReturnErrorValueText (patch (parseReturnErrorDraft (o_value_text op)))\<rparr>) (ed_operations ed)\<rparr>"

text \<open>
  The drafts of prune rules are parsed anew by every update, which makes new ids; the updater may make
  ids, too.
\<close>

fun update_prune :: "(nat \<Rightarrow> int) \<Rightarrow> jsstr \<Rightarrow> (nat \<Rightarrow> PruneObjectsDraft \<Rightarrow> PruneObjectsDraft \<times> nat) \<Rightarrow> nat \<Rightarrow>
    ParamOverrideOperation list \<Rightarrow> ParamOverrideOperation list \<times> nat" where
  "update_prune clock i updater seed [] = ([], seed)"
| "update_prune clock i updater seed (op # ops) =
     (if o_id op \<noteq> i then apfst (\<lambda>l. op # l) (update_prune clock i updater seed ops)
      else (let (draft, s1) = parsePruneObjectsDraft clock seed (o_value_text op); (nextDraft, s2) = updater s1 draft in
            apfst (\<lambda>l. op\<lparr>o_value_text := buildPruneObjectsValueText nextDraft\<rparr> # l) (update_prune clock i updater s2 ops)))"

definition updatePruneObjectsDraft ::
  "(nat \<Rightarrow> int) \<Rightarrow> jsstr \<Rightarrow> (nat \<Rightarrow> PruneObjectsDraft \<Rightarrow> PruneObjectsDraft \<times> nat) \<Rightarrow> EditorDialog \<Rightarrow> EditorDialog" where
  "updatePruneObjectsDraft clock operationId updater ed =
     (let (ops, s1) = update_prune clock operationId updater (ed_localIdSeed ed) (ed_operations ed) in
      ed\<lparr>ed_operations := ops, ed_localIdSeed := s1\<rparr>)"

definition addPruneRule :: "(nat \<Rightarrow> int) \<Rightarrow> jsstr \<Rightarrow> EditorDialog \<Rightarrow> EditorDialog" where
  "addPruneRule clock operationId = updatePruneObjectsDraft clock operationId (\<lambda>seed draft.
     let (rule, s1) = normalizePruneRule clock seed (JObj []) in
     (draft\<lparr>pd_simpleMode := False, pd_rules := pd_rules draft @ [rule]\<rparr>, s1))"

definition updatePruneRule :: "(nat \<Rightarrow> int) \<Rightarrow> jsstr \<Rightarrow> jsstr \<Rightarrow> (PruneRule \<Rightarrow> PruneRule) \<Rightarrow> EditorDialog \<Rightarrow> EditorDialog" where
  "updatePruneRule clock operationId ruleId patch = updatePruneObjectsDraft clock operationId (\<lambda>seed draft.
     (draft\<lparr>pd_rules := map (\<lambda>r. if pr_id r = ruleId then patch r else r) (pd_rules draft)\<rparr>, seed))"

definition removePruneRule :: "(nat \<Rightarrow> int) \<Rightarrow> jsstr \<Rightarrow> jsstr \<Rightarrow> EditorDialog \<Rightarrow> EditorDialog" where
  "removePruneRule clock operationId ruleId = updatePruneObjectsDraft clock operationId (\<lambda>seed draft.
     (draft\<lparr>pd_rules := filter (\<lambda>r. pr_id r \<noteq> ruleId) (pd_rules draft)\<rparr>, seed))"

definition resetDragState :: "EditorDialog \<Rightarrow> EditorDialog" where
  "resetDragState ed = ed\<lparr>ed_draggedOperationId := [], ed_dragOverOperationId := [], ed_dragOverPosition := Before\<rparr>"

definition handleDragStart :: "jsstr \<Rightarrow> EditorDialog \<Rightarrow> EditorDialog" where
  "handleDragStart operationId ed = ed\<lparr>ed_draggedOperationId := operationId, ed_selectedOperationId := operationId\<rparr>"

definition handleDragOver :: "jsnum \<Rightarrow> jsnum \<Rightarrow> jsnum \<Rightarrow> jsstr \<Rightarrow> EditorDialog \<Rightarrow> EditorDialog" where
  "handleDragOver clientY rectTop rectHeight operationId ed =
     (if ed_draggedOperationId ed = [] \<or> ed_draggedOperationId ed = operationId then ed
      else ed\<lparr>ed_dragOverOperationId := operationId,
         ed_dragOverPosition := (if js_gt (js_sub clientY rectTop) (js_div rectHeight (num 2)) then After else Before)\<rparr>)"

definition handleDrop :: "jsstr \<Rightarrow> jsstr \<Rightarrow> EditorDialog \<Rightarrow> EditorDialog" where
  \<comment> \<open>the text of the transfer, the operation dropped on\<close>
  "handleDrop transfer operationId ed =
     (let sourceId = (if ed_draggedOperationId ed = [] then transfer else ed_draggedOperationId ed);
          position = (if ed_dragOverOperationId ed = operationId then ed_dragOverPosition ed else Before);
          ed1 = (if sourceId \<noteq> [] \<and> operationId \<noteq> [] \<and> sourceId \<noteq> operationId
                 then ed\<lparr>ed_operations := reorderOperations (ed_operations ed) sourceId operationId position, ed_selectedOperationId := sourceId\<rparr>
                 else ed) in
      resetDragState ed1)"

definition toast_error :: "jsstr \<Rightarrow> EditorDialog \<Rightarrow> EditorDialog" where
  "toast_error message ed = ed\<lparr>ed_toasts := ed_toasts ed @ [message]\<rparr>"

definition buildVisualJson :: "translator \<Rightarrow> EditorDialog \<Rightarrow> jsstr + jsstr" where
  "buildVisualJson t ed =
     (if ed_visualMode ed = LegacyMode then
        (let trimmed_text = js_trim (ed_legacyValue ed) in
         if trimmed_text = [] then Inr []
         else (case json_parse trimmed_text of
             None \<Rightarrow> Inl (t ''Parameter override must be valid JSON format'' None)
           | Some (JObj kvs) \<Rightarrow> Inr (stringify2 (JObj kvs))
           | Some _ \<Rightarrow> Inl (t ''Legacy format must be a JSON object'' None)))
      else buildOperationsJson (ed_operations ed) True t)"

definition unchecked_json :: "translator \<Rightarrow> EditorDialog \<Rightarrow> jsstr" where
  "unchecked_json t ed = (case buildOperationsJson (ed_operations ed) False t of Inr s \<Rightarrow> s | Inl _ \<Rightarrow> [])"

definition switchToJsonMode :: "translator \<Rightarrow> EditorDialog \<Rightarrow> EditorDialog" where
  "switchToJsonMode t ed =
     (if ed_editMode ed = JsonEdit then ed
      else (case buildVisualJson t ed of
          Inr s \<Rightarrow> ed\<lparr>ed_jsonText := s, ed_jsonError := [], ed_editMode := JsonEdit\<rparr>
        | Inl message \<Rightarrow>
            (toast_error message ed)\<lparr>ed_jsonText := (if ed_visualMode ed = LegacyMode then ed_legacyValue ed else unchecked_json t ed),
               ed_jsonError := (if message = [] then t ''Parameter configuration error'' None else message), ed_editMode := JsonEdit\<rparr>))"

definition switchToVisualMode :: "(nat \<Rightarrow> int) \<Rightarrow> translator \<Rightarrow> EditorDialog \<Rightarrow> EditorDialog" where
  \<comment> \<open>an uncaught exception leaves the state, but for the ids already made\<close>
  "switchToVisualMode clock t ed =
     (if ed_editMode ed = VisualEdit then ed
      else (let trimmed_text = js_trim (ed_jsonText ed) in
        if trimmed_text = [] then
          (let (fallback, s1) = createDefaultOperation clock (ed_localIdSeed ed) in
           ed\<lparr>ed_visualMode := OperationsMode, ed_operations := [fallback], ed_selectedOperationId := o_id fallback, ed_legacyValue := [],
              ed_jsonError := [], ed_editMode := VisualEdit, ed_localIdSeed := s1\<rparr>)
        else (case json_parse trimmed_text of
            None \<Rightarrow> toast_error (t ''Parameter override must be valid JSON format'' None) ed
          | Some parsed \<Rightarrow>
              (case js_prop (Some parsed) ''operations'' of
                 Some (JArr items) \<Rightarrow>
                   (case load_operations clock (ed_localIdSeed ed) items of
                      (None, s1) \<Rightarrow> ed\<lparr>ed_localIdSeed := s1\<rparr>
                    | (Some nextOps, s1) \<Rightarrow>
                        ed\<lparr>ed_visualMode := OperationsMode, ed_operations := nextOps, ed_selectedOperationId := first_id nextOps,
                           ed_legacyValue := [], ed_jsonError := [], ed_editMode := VisualEdit, ed_templatePresetKey := ''operations_default'',
                           ed_localIdSeed := s1\<rparr>)
               | _ \<Rightarrow>
                   (case parsed of
                      JObj _ \<Rightarrow>
                        (let (fallback, s1) = createDefaultOperation clock (ed_localIdSeed ed) in
                         ed\<lparr>ed_visualMode := LegacyMode, ed_legacyValue := stringify2 parsed, ed_operations := [fallback],
                            ed_selectedOperationId := o_id fallback, ed_jsonError := [], ed_editMode := VisualEdit,
                            ed_templatePresetKey := ''legacy_default'', ed_localIdSeed := s1\<rparr>)
                    | _ \<Rightarrow> toast_error (t ''Parameter override must be a valid JSON object'' None) ed)))))"

definition set_legacy :: "(nat \<Rightarrow> int) \<Rightarrow> jsstr \<Rightarrow> EditorDialog \<Rightarrow> EditorDialog" where
  "set_legacy clock txt ed =
     (let (op, s1) = createDefaultOperation clock (ed_localIdSeed ed) in
      ed\<lparr>ed_visualMode := LegacyMode, ed_legacyValue := txt, ed_operations := [op], ed_jsonText := txt, ed_jsonError := [],
         ed_editMode := VisualEdit, ed_localIdSeed := s1\<rparr>)"

datatype fill_mode = Fill | Append

definition fill_legacy :: "(nat \<Rightarrow> int) \<Rightarrow> translator \<Rightarrow> fill_mode \<Rightarrow> json obj \<Rightarrow> EditorDialog \<Rightarrow> EditorDialog" where
  "fill_legacy clock t mode payload ed =
     (if mode = Append \<and> ed_visualMode ed = LegacyMode then
        (let trimmed_text = js_trim (ed_legacyValue ed) in
         if trimmed_text = [] then set_legacy clock (stringify2 (JObj payload)) ed
         else (case json_parse trimmed_text of
             None \<Rightarrow> toast_error (t ''Current legacy JSON is invalid, cannot append'' None) ed
           | Some current \<Rightarrow> set_legacy clock (stringify2 (JObj (fold (\<lambda>(k, v). obj_set k v) (spread_props current) payload))) ed))
      else set_legacy clock (stringify2 (JObj payload)) ed)"

definition fill_operations :: "(nat \<Rightarrow> int) \<Rightarrow> fill_mode \<Rightarrow> json list \<Rightarrow> EditorDialog \<Rightarrow> EditorDialog" where
  "fill_operations clock mode items ed =
     (case map_ids (normalizeOperation clock) (ed_localIdSeed ed) items of
        (None, s1) \<Rightarrow> ed\<lparr>ed_localIdSeed := s1\<rparr>
      | (Some appended, s1) \<Rightarrow>
          (if mode = Append then
             (let existing = (if ed_visualMode ed = OperationsMode then filter (\<lambda>op. \<not> isOperationBlank op) (ed_operations ed) else []);
                  nextOps = existing @ appended in
              ed\<lparr>ed_visualMode := OperationsMode, ed_operations := (if length nextOps > 0 then nextOps else appended),
                 ed_selectedOperationId := (if first_id nextOps = [] then first_id appended else first_id nextOps), ed_legacyValue := [],
                 ed_jsonError := [], ed_editMode := VisualEdit, ed_jsonText := [], ed_localIdSeed := s1\<rparr>)
           else
             (let (finalOps, s2) = (if length appended > 0 then (appended, s1) else apfst (\<lambda>op. [op]) (createDefaultOperation clock s1)) in
              ed\<lparr>ed_visualMode := OperationsMode, ed_operations := finalOps, ed_selectedOperationId := first_id finalOps,
                 ed_jsonText := stringify2 (JObj (ops_payload items)), ed_jsonError := [], ed_editMode := VisualEdit, ed_localIdSeed := s2\<rparr>)))"

definition fillTemplate :: "(nat \<Rightarrow> int) \<Rightarrow> translator \<Rightarrow> fill_mode \<Rightarrow> EditorDialog \<Rightarrow> EditorDialog" where
  "fillTemplate clock t mode ed =
     (let preset = (case map_of TEMPLATE_PRESET_CONFIG (ed_templatePresetKey ed) of Some p \<Rightarrow> p
            | None \<Rightarrow> the (map_of TEMPLATE_PRESET_CONFIG ''operations_default''));
          payload = tp_payload preset in
      if tp_kind preset = LegacyPreset then fill_legacy clock t mode payload ed
      else fill_operations clock mode (case obj_get ''operations'' payload of Some (JArr items) \<Rightarrow> items | _ \<Rightarrow> []) ed)"

definition resetEditorState :: "(nat \<Rightarrow> int) \<Rightarrow> EditorDialog \<Rightarrow> EditorDialog" where
  "resetEditorState clock ed =
     (let (fallback, s1) = createDefaultOperation clock (ed_localIdSeed ed) in
      ed\<lparr>ed_visualMode := OperationsMode, ed_legacyValue := [], ed_operations := [fallback], ed_selectedOperationId := o_id fallback,
         ed_jsonText := [], ed_jsonError := [], ed_templatePresetKey := ''operations_default'', ed_editMode := VisualEdit, ed_localIdSeed := s1\<rparr>)"

definition handleJsonChange :: "translator \<Rightarrow> jsstr \<Rightarrow> EditorDialog \<Rightarrow> EditorDialog" where
  "handleJsonChange t nextValue ed =
     (let trimmed_text = js_trim nextValue in
      ed\<lparr>ed_jsonText := nextValue,
         ed_jsonError := (if trimmed_text = [] \<or> verifyJSON trimmed_text then [] else t ''JSON format error'' None)\<rparr>)"

definition formatJson :: "translator \<Rightarrow> EditorDialog \<Rightarrow> EditorDialog" where
  "formatJson t ed =
     (let trimmed_text = js_trim (ed_jsonText ed) in
      if trimmed_text = [] then ed
      else (case json_parse trimmed_text of
          None \<Rightarrow> toast_error (t ''Parameter override must be valid JSON format'' None) ed
        | Some v \<Rightarrow> ed\<lparr>ed_jsonText := stringify2 v, ed_jsonError := []\<rparr>))"

definition visualValidationError :: "translator \<Rightarrow> EditorDialog \<Rightarrow> jsstr" where
  "visualValidationError t ed =
     (if ed_editMode ed \<noteq> VisualEdit then []
      else (case buildVisualJson t ed of
          Inr _ \<Rightarrow> []
        | Inl message \<Rightarrow> if message = [] then t ''Parameter configuration error'' None else message))"

definition handleSave :: "translator \<Rightarrow> EditorDialog \<Rightarrow> EditorDialog" where
  "handleSave t ed =
     (let result = (if ed_editMode ed = JsonEdit then
            (let trimmed_text = js_trim (ed_jsonText ed) in
             if trimmed_text = [] then Inr []
             else (case json_parse trimmed_text of
                 None \<Rightarrow> Inl (t ''Parameter override must be valid JSON format'' None)
               | Some v \<Rightarrow> Inr (stringify2 v)))
          else buildVisualJson t ed) in
      case result of
        Inl message \<Rightarrow> toast_error message ed
      | Inr s \<Rightarrow> ed\<lparr>ed_saved := ed_saved ed @ [s], ed_open := False\<rparr>)"

definition set_expanded :: "bool \<Rightarrow> EditorDialog \<Rightarrow> EditorDialog" where
  "set_expanded b ed = (case selectedOperation ed of
       None \<Rightarrow> ed
     | Some op \<Rightarrow> ed\<lparr>ed_expandedConditions := fold (\<lambda>c. obj_set (c_id c) b) (o_conditions op) (ed_expandedConditions ed)\<rparr>)"

definition expandAllConditions :: "EditorDialog \<Rightarrow> EditorDialog" where
  "expandAllConditions = set_expanded True"

definition collapseAllConditions :: "EditorDialog \<Rightarrow> EditorDialog" where
  "collapseAllConditions = set_expanded False"

end
