(* ===== verification/Param_Editor.thy ===== *)
theory Param_Editor
  imports Param_Override "HOL-Library.Multiset"
begin

section \<open>Properties of the parameter override editor\<close>

text \<open>
  The lemmas on \<^verbatim>\<open>Param_Override\<close> that concern the state of the dialog: ids, well-formed rules, the actions
  of the dialog as a machine whose events are guarded by what the selects of the form offer, reordering.
\<close>

subsection \<open>Ids\<close>

definition id_of :: "(nat \<Rightarrow> int) \<Rightarrow> nat \<Rightarrow> jsstr" where
  "id_of clock k = fst (nextLocalId clock k)"

lemma nextLocalId_id: "nextLocalId clock k = (id_of clock k, Suc k)"
  by (simp add: id_of_def nextLocalId_def)

lemma split_at_first: "c \<notin> set a \<Longrightarrow> c \<notin> set b \<Longrightarrow> a @ c # x = b @ c # y \<longleftrightarrow> a = b \<and> x = y"
proof (induction a arbitrary: b)
  case Nil
  then show ?case by (cases b) auto
next
  case (Cons d a)
  then show ?case by (cases b) auto
qed

lemma int_str_chars: "c \<in> set (int_to_str n) \<Longrightarrow> c = CHR ''-'' \<or> is_digit c"
  using dec_str_digits [of n c] dec_str_digits [of "- n" c] by (auto simp: int_to_str_def split: if_splits)

lemma int_str_no_bar: "CHR ''_'' \<notin> set (int_to_str n)"
  using int_str_chars [of "CHR ''_''" n] by (auto simp: is_digit_def)

lemma id_of_inj: "id_of clock j = id_of clock k \<longleftrightarrow> j = k"
proof
  assume "id_of clock j = id_of clock k"
  then have "int_to_str (clock j) @ CHR ''_'' # dec_str (int j) = int_to_str (clock k) @ CHR ''_'' # dec_str (int k)"
    by (simp add: id_of_def nextLocalId_def)
  then have "dec_str (int j) = dec_str (int k)" unfolding split_at_first [OF int_str_no_bar int_str_no_bar] ..
  then show "j = k" using dec_str_inj [of "int j" "int k"] by simp
qed simp

lemma id_of_nonempty: "id_of clock k \<noteq> []"
  by (simp add: id_of_def nextLocalId_def)

definition made :: "(nat \<Rightarrow> int) \<Rightarrow> nat \<Rightarrow> nat \<Rightarrow> jsstr \<Rightarrow> bool" where
  \<comment> \<open>the id was made while the counter went from \<open>lo\<close> to \<open>hi\<close>\<close>
  "made clock lo hi s \<longleftrightarrow> (\<exists>k. lo \<le> k \<and> k < hi \<and> s = id_of clock k)"

lemma made_mono:
  assumes "made clock lo hi s" "lo' \<le> lo" "hi \<le> hi'"
  shows "made clock lo' hi' s"
proof -
  obtain k where "lo \<le> k" "k < hi" "s = id_of clock k" using assms(1) by (auto simp: made_def)
  then have "lo' \<le> k \<and> k < hi' \<and> s = id_of clock k" using assms(2,3) by simp
  then show ?thesis unfolding made_def by blast
qed

lemma made_distinct: "made clock lo hi s \<Longrightarrow> made clock hi hi' s' \<Longrightarrow> s \<noteq> s'"
  by (auto simp: made_def id_of_inj)

lemma made_id: "made clock k (Suc k) (id_of clock k)"
  by (auto simp: made_def)

subsection \<open>Well-formed conditions and operations\<close>

definition cond_wf :: "(nat \<Rightarrow> int) \<Rightarrow> nat \<Rightarrow> nat \<Rightarrow> ParamOverrideCondition \<Rightarrow> bool" where
  "cond_wf clock lo hi c \<longleftrightarrow> made clock lo hi (c_id c) \<and> c_mode c \<in> set CONDITION_MODE_VALUES"

definition op_wf :: "(nat \<Rightarrow> int) \<Rightarrow> nat \<Rightarrow> nat \<Rightarrow> ParamOverrideOperation \<Rightarrow> bool" where
  "op_wf clock lo hi op \<longleftrightarrow> made clock lo hi (o_id op) \<and> o_mode op \<in> set OPERATION_MODE_VALUES \<and> o_logic op \<in> {''AND'', ''OR''} \<and>
     distinct (map c_id (o_conditions op)) \<and> (\<forall>c \<in> set (o_conditions op). cond_wf clock lo hi c)"

definition ops_wf :: "(nat \<Rightarrow> int) \<Rightarrow> nat \<Rightarrow> nat \<Rightarrow> ParamOverrideOperation list \<Rightarrow> bool" where
  "ops_wf clock lo hi ops \<longleftrightarrow> distinct (map o_id ops) \<and> (\<forall>op \<in> set ops. op_wf clock lo hi op)"

lemma cond_wf_mono: "cond_wf clock lo hi c \<Longrightarrow> lo' \<le> lo \<Longrightarrow> hi \<le> hi' \<Longrightarrow> cond_wf clock lo' hi' c"
  unfolding cond_wf_def using made_mono by blast

lemma op_wf_mono: "op_wf clock lo hi op \<Longrightarrow> lo' \<le> lo \<Longrightarrow> hi \<le> hi' \<Longrightarrow> op_wf clock lo' hi' op"
  unfolding op_wf_def using made_mono cond_wf_mono by blast

lemma ops_wf_mono: "ops_wf clock lo hi ops \<Longrightarrow> lo' \<le> lo \<Longrightarrow> hi \<le> hi' \<Longrightarrow> ops_wf clock lo' hi' ops"
  unfolding ops_wf_def using op_wf_mono by blast

lemma ops_wf_append:
  assumes "ops_wf clock lo mid xs" "ops_wf clock mid hi ys" "lo \<le> mid" "mid \<le> hi"
  shows "ops_wf clock lo hi (xs @ ys)"
proof -
  have "o_id x \<noteq> o_id y" if "x \<in> set xs" "y \<in> set ys" for x y
    using that assms(1,2) made_distinct unfolding ops_wf_def op_wf_def by blast
  then have "distinct (map o_id (xs @ ys))" using assms(1,2) unfolding ops_wf_def by fastforce
  moreover have "op_wf clock lo hi op" if "op \<in> set (xs @ ys)" for op
    using that assms op_wf_mono [of clock lo mid op lo hi] op_wf_mono [of clock mid hi op lo hi] by (auto simp: ops_wf_def)
  ultimately show ?thesis by (simp add: ops_wf_def)
qed

lemma known_mode: "d \<in> set modes \<Longrightarrow> known_mode_or modes d v \<in> set modes"
  by (auto simp: known_mode_or_def split: option.splits json.splits)

lemma default_modes: "''set'' \<in> set OPERATION_MODE_VALUES" "''full'' \<in> set CONDITION_MODE_VALUES"
  by (simp_all add: OPERATION_MODE_VALUES_def OPERATION_MODE_OPTIONS_def CONDITION_MODE_VALUES_def CONDITION_MODE_OPTIONS_def)

lemma normalizeCondition_wf:
  assumes "normalizeCondition clock s v = (r, s')"
  shows "s' = Suc s" "r = Some c \<Longrightarrow> cond_wf clock s s' c" "r = None \<longleftrightarrow> v = JNull"
  using assms known_mode [OF default_modes(2)] made_id
  by (auto simp: normalizeCondition_def nextLocalId_id cond_wf_def split: if_splits)

text \<open>What a sequence of fallible calls that make ids gives.\<close>

lemma map_ids_wf:
  assumes step: "\<And>s v r s'. f s v = (r, s') \<Longrightarrow> s \<le> s' \<and> (\<forall>y. r = Some y \<longrightarrow> Q s s' y)"
    and mono: "\<And>lo hi lo' hi' y. Q lo hi y \<Longrightarrow> lo' \<le> lo \<Longrightarrow> hi \<le> hi' \<Longrightarrow> Q lo' hi' y"
    and key: "\<And>lo hi y. Q lo hi y \<Longrightarrow> made clock lo hi (g y)"
  shows "map_ids f s vs = (r, s') \<Longrightarrow> s \<le> s' \<and> (\<forall>ys. r = Some ys \<longrightarrow> length ys = length vs \<and> distinct (map g ys) \<and> (\<forall>y \<in> set ys. Q s s' y))"
proof (induction vs arbitrary: s r s')
  case (Cons v vs)
  obtain r1 s1 where 1: "f s v = (r1, s1)" by fastforce
  show ?case
  proof (cases r1)
    case None
    then show ?thesis using Cons.prems 1 step by auto
  next
    case (Some y)
    obtain r2 s2 where 2: "map_ids f s1 vs = (r2, s2)" by fastforce
    have y: "s \<le> s1" "Q s s1 y" using step [OF 1] Some by auto
    have s': "s' = s2" "r = map_option (\<lambda>l. y # l) r2" using Cons.prems 1 2 Some by auto
    note IH = Cons.IH [OF 2]
    have "distinct (map g (y # ys)) \<and> (\<forall>x \<in> set (y # ys). Q s s2 x)" if ys: "r2 = Some ys" for ys
    proof -
      have rest: "distinct (map g ys)" "\<forall>x \<in> set ys. Q s1 s2 x" using IH ys by auto
      have "g y \<noteq> g x" if "x \<in> set ys" for x using made_distinct key y(2) rest(2) that by blast
      moreover have "Q s s2 y" using mono [OF y(2)] IH by blast
      moreover have "Q s s2 x" if "x \<in> set ys" for x using mono [of s1 s2 x s s2] rest(2) that y(1) by blast
      ultimately show ?thesis using rest(1) by auto
    qed
    then show ?thesis using IH y(1) s' by auto
  qed
qed simp

lemma conditions_wf:
  assumes "map_ids (normalizeCondition clock) s vs = (r, s')"
  shows "s \<le> s'" "r = Some cs \<Longrightarrow> distinct (map c_id cs) \<and> (\<forall>c \<in> set cs. cond_wf clock s s' c)"
proof -
  have st: "a \<le> b \<and> (\<forall>y. q = Some y \<longrightarrow> cond_wf clock a b y)" if "normalizeCondition clock a v = (q, b)" for a v q b
    using normalizeCondition_wf [OF that] by auto
  have m: "cond_wf clock lo hi y \<Longrightarrow> made clock lo hi (c_id y)" for lo hi y by (simp add: cond_wf_def)
  from map_ids_wf [of "normalizeCondition clock" "cond_wf clock" clock c_id, OF st cond_wf_mono m assms]
  show "s \<le> s'" "r = Some cs \<Longrightarrow> distinct (map c_id cs) \<and> (\<forall>c \<in> set cs. cond_wf clock s s' c)" by auto
qed

lemma normalizeOperation_wf:
  assumes "normalizeOperation clock s v = (r, s')"
  shows "s \<le> s' \<and> (\<forall>op. r = Some op \<longrightarrow> op_wf clock s s' op)"
proof (cases "v = JNull \<or> string_throws (js_or (js_prop (Some v) ''logic'') (JStr ''OR''))")
  case True
  then show ?thesis using assms by (auto simp: normalizeOperation_def nextLocalId_id)
next
  case False
  obtain conds s2 where c: "(case js_prop (Some v) ''conditions'' of
      Some (JArr cs) \<Rightarrow> map_ids (normalizeCondition clock) (Suc s) cs | _ \<Rightarrow> (Some [], Suc s)) = (conds, s2)" by fastforce
  have cw: "Suc s \<le> s2" "conds = Some cs \<Longrightarrow> distinct (map c_id cs) \<and> (\<forall>x \<in> set cs. cond_wf clock (Suc s) s2 x)" for cs
    using c conditions_wf [of clock "Suc s"] by (auto split: option.splits json.splits)
  have r: "s' = s2" "r = map_option (\<lambda>cs. \<lparr>o_id = id_of clock s, o_description = string_prop v ''description'', o_path = string_prop v ''path'',
           o_mode = known_mode_or OPERATION_MODE_VALUES ''set'' v, o_from = string_prop v ''from'', o_to = string_prop v ''to'',
           o_value_text = toValueText (js_prop (Some v) ''value''), o_keep_origin = is_true v ''keep_origin'',
           o_logic = and_or (js_prop (Some v) ''logic''), o_conditions = cs\<rparr>) conds"
    using assms False c by (auto simp: normalizeOperation_def nextLocalId_id)
  have "op_wf clock s s2 op" if r_op: "r = Some op" for op
  proof -
    obtain cs where cs: "conds = Some cs" "o_conditions op = cs" "o_id op = id_of clock s"
      "o_mode op = known_mode_or OPERATION_MODE_VALUES ''set'' v" "o_logic op = and_or (js_prop (Some v) ''logic'')"
      using r_op r(2) by auto
    have "\<forall>x \<in> set cs. cond_wf clock s s2 x" using cw(2) [OF cs(1)] cond_wf_mono [of clock "Suc s" s2 _ s s2] by auto
    then show ?thesis
      using cw(1) cw(2) [OF cs(1)] cs(2-5) made_mono [OF made_id [of clock s], of s s2] known_mode [OF default_modes(1)]
      by (simp add: op_wf_def and_or_def)
  qed
  then show ?thesis using cw(1) r(1) by auto
qed

lemma operations_wf:
  assumes "map_ids (normalizeOperation clock) s vs = (r, s')"
  shows "s \<le> s'" "r = Some ops \<Longrightarrow> ops_wf clock s s' ops \<and> length ops = length vs"
proof -
  have m: "op_wf clock lo hi y \<Longrightarrow> made clock lo hi (o_id y)" for lo hi y by (simp add: op_wf_def)
  from map_ids_wf [of "normalizeOperation clock" "op_wf clock" clock o_id, OF normalizeOperation_wf op_wf_mono m assms]
  show "s \<le> s'" "r = Some ops \<Longrightarrow> ops_wf clock s s' ops \<and> length ops = length vs" by (auto simp: ops_wf_def)
qed

lemma createDefault_wf:
  assumes "createDefaultOperation clock s = (op, s')"
  shows "s' = Suc s" "op_wf clock s (Suc s) op"
proof -
  obtain r where r: "normalizeOperation clock s (JObj [(''mode'', JStr ''set'')]) = (r, s')" "op = the r"
    using assms by (auto simp: createDefaultOperation_def apfst_def map_prod_def split: prod.splits)
  have "js_prop (Some (JObj [(''mode'', JStr ''set'')])) ''conditions'' = None" "js_prop (Some (JObj [(''mode'', JStr ''set'')])) ''logic'' = None"
    by (simp_all add: obj_get_def)
  then show "s' = Suc s" and "op_wf clock s (Suc s) op" using r normalizeOperation_wf [OF r(1)]
    by (auto simp: normalizeOperation_def nextLocalId_id js_or_def)
qed

lemma createDefault_ops:
  assumes "createDefaultOperation clock s = (op, s')"
  shows "s \<le> s' \<and> ops_wf clock s s' [op]"
  using createDefault_wf [OF assms] by (simp add: ops_wf_def)

subsection \<open>Sequences of actions\<close>

datatype editor_action = OpenDialog jsstr | KeepSelected | Search jsstr | Select jsstr | Patch jsstr OperationPatch | AddOp | DuplicateOp bool jsstr
  | RemoveOp jsstr | AddCond jsstr | PatchCond jsstr jsstr ConditionPatch | RemoveCond jsstr jsstr
  | PatchError jsstr "ReturnErrorDraft \<Rightarrow> ReturnErrorDraft" | PatchPrune jsstr "PruneObjectsDraft \<Rightarrow> PruneObjectsDraft"
  | AddPrune jsstr | PatchPruneRule jsstr jsstr "PruneRule \<Rightarrow> PruneRule" | RemovePrune jsstr jsstr
  | DragStart jsstr | DragOver jsnum jsnum jsnum jsstr | Drop jsstr jsstr | ToJson | ToVisual | Template jsstr | FillTemplate fill_mode
  | ResetEditor | LegacyText jsstr | JsonChange jsstr | FormatJson | Save | Expand | Collapse | Render nat

text \<open>
  One action of the user or of React. \<open>Render\<close> is a render that parses drafts and so makes ids that
  are not kept.
\<close>

fun editor_step :: "(nat \<Rightarrow> int) \<Rightarrow> translator \<Rightarrow> editor_action \<Rightarrow> EditorDialog \<Rightarrow> EditorDialog" where
  "editor_step clock t (OpenDialog v) ed = (case openDialog clock v ed of Some ed' \<Rightarrow> ed' | None \<Rightarrow> ed)"
| "editor_step clock t KeepSelected ed = keepSelectedValid ed"
| "editor_step clock t (Search s) ed = ed\<lparr>ed_operationSearch := s\<rparr>"
| "editor_step clock t (Select i) ed = ed\<lparr>ed_selectedOperationId := i\<rparr>"
| "editor_step clock t (Patch i p) ed = updateOperation i p ed"
| "editor_step clock t AddOp ed = addOperation clock ed"
| "editor_step clock t (DuplicateOp b i) ed = duplicateOperation clock b i ed"
| "editor_step clock t (RemoveOp i) ed = removeOperation clock i ed"
| "editor_step clock t (AddCond i) ed = addCondition clock i ed"
| "editor_step clock t (PatchCond i j p) ed = updateCondition i j p ed"
| "editor_step clock t (RemoveCond i j) ed = removeCondition i j ed"
| "editor_step clock t (PatchError i f) ed = updateReturnErrorDraft i f ed"
| "editor_step clock t (PatchPrune i f) ed = updatePruneObjectsDraft clock i (\<lambda>s d. (f d, s)) ed"
| "editor_step clock t (AddPrune i) ed = addPruneRule clock i ed"
| "editor_step clock t (PatchPruneRule i r f) ed = updatePruneRule clock i r f ed"
| "editor_step clock t (RemovePrune i r) ed = removePruneRule clock i r ed"
| "editor_step clock t (DragStart i) ed = handleDragStart i ed"
| "editor_step clock t (DragOver y u h i) ed = handleDragOver y u h i ed"
| "editor_step clock t (Drop x i) ed = handleDrop x i ed"
| "editor_step clock t ToJson ed = switchToJsonMode t ed"
| "editor_step clock t ToVisual ed = switchToVisualMode clock t ed"
| "editor_step clock t (Template k) ed = ed\<lparr>ed_templatePresetKey := k\<rparr>"
| "editor_step clock t (FillTemplate m) ed = fillTemplate clock t m ed"
| "editor_step clock t ResetEditor ed = resetEditorState clock ed"
| "editor_step clock t (LegacyText s) ed = ed\<lparr>ed_legacyValue := s\<rparr>"
| "editor_step clock t (JsonChange s) ed = handleJsonChange t s ed"
| "editor_step clock t FormatJson ed = formatJson t ed"
| "editor_step clock t Save ed = handleSave t ed"
| "editor_step clock t Expand ed = expandAllConditions ed"
| "editor_step clock t Collapse ed = collapseAllConditions ed"
| "editor_step clock t (Render n) ed = ed\<lparr>ed_localIdSeed := ed_localIdSeed ed + n\<rparr>"

text \<open>The selects of the form offer only the known modes and both logics.\<close>

fun typed_action :: "editor_action \<Rightarrow> bool" where
  "typed_action (Patch i p) = ((\<forall>m \<in> set_option (op_mode p). m \<in> set OPERATION_MODE_VALUES) \<and> (\<forall>l \<in> set_option (op_logic p). l \<in> {''AND'', ''OR''}))"
| "typed_action (PatchCond i j p) = (\<forall>m \<in> set_option (cp_mode p). m \<in> set CONDITION_MODE_VALUES)"
| "typed_action _ = True"

definition editor_wf :: "(nat \<Rightarrow> int) \<Rightarrow> EditorDialog \<Rightarrow> bool" where
  "editor_wf clock ed \<longleftrightarrow> ed_operations ed \<noteq> [] \<and> ops_wf clock 0 (ed_localIdSeed ed) (ed_operations ed)"

lemma on_operation_wf:
  assumes "ops_wf clock 0 s ops" "s \<le> s'" "\<And>op. op_wf clock 0 s op \<Longrightarrow> op_wf clock 0 s' (f op) \<and> o_id (f op) = o_id op"
  shows "ops_wf clock 0 s' (on_operation i f ops)"
proof -
  have ids: "map o_id (on_operation i f ops) = map o_id ops"
    using assms(1,3) by (auto simp: on_operation_def ops_wf_def)
  have "op_wf clock 0 s' op" if "op \<in> set (on_operation i f ops)" for op
    using that assms op_wf_mono [of clock 0 s _ 0 s'] by (auto simp: on_operation_def ops_wf_def)
  then show ?thesis using assms(1) by (simp add: ops_wf_def ids)
qed

lemma editor_wf_same: "editor_wf clock ed \<Longrightarrow> ed_operations ed' = ed_operations ed \<Longrightarrow> ed_localIdSeed ed \<le> ed_localIdSeed ed' \<Longrightarrow> editor_wf clock ed'"
  using ops_wf_mono [of clock 0 "ed_localIdSeed ed" "ed_operations ed" 0 "ed_localIdSeed ed'"] by (simp add: editor_wf_def)

lemma editor_wf_new: "ops_wf clock lo hi ops \<Longrightarrow> ops \<noteq> [] \<Longrightarrow> ed_operations ed = ops \<Longrightarrow> hi \<le> ed_localIdSeed ed \<Longrightarrow> editor_wf clock ed"
  using ops_wf_mono [of clock lo hi ops 0 "ed_localIdSeed ed"] by (simp add: editor_wf_def)

lemma editor_wf_on:
  assumes "editor_wf clock ed" "ed_operations ed' = on_operation i f (ed_operations ed)" "ed_localIdSeed ed \<le> ed_localIdSeed ed'"
    "\<And>op. op_wf clock 0 (ed_localIdSeed ed) op \<Longrightarrow> op_wf clock 0 (ed_localIdSeed ed') (f op) \<and> o_id (f op) = o_id op"
  shows "editor_wf clock ed'"
  using assms on_operation_wf [of clock "ed_localIdSeed ed" "ed_operations ed" "ed_localIdSeed ed'" f i]
  by (auto simp: editor_wf_def on_operation_def)

lemma patch_wf:
  assumes "typed_action (Patch i p)" "op_wf clock 0 s op"
  shows "op_wf clock 0 s (patch_operation p op) \<and> o_id (patch_operation p op) = o_id op"
  using assms by (auto simp: op_wf_def patch_operation_def patched_def split: option.splits)

lemma op_wf_conds:
  "op_wf clock 0 s op \<Longrightarrow> distinct (map c_id cs) \<Longrightarrow> \<forall>c \<in> set cs. cond_wf clock 0 s c \<Longrightarrow> op_wf clock 0 s (op\<lparr>o_conditions := cs\<rparr>)"
  by (simp add: op_wf_def)

lemma patch_cond_wf:
  assumes "typed_action (PatchCond i j p)" "op_wf clock 0 s op"
  shows "op_wf clock 0 s (op\<lparr>o_conditions := map (\<lambda>c. if c_id c = j then patch_condition p c else c) (o_conditions op)\<rparr>)"
proof -
  let ?f = "\<lambda>c. if c_id c = j then patch_condition p c else c"
  have ids: "map c_id (map ?f (o_conditions op)) = map c_id (o_conditions op)" by (simp add: patch_condition_def)
  have "cond_wf clock 0 s (?f c)" if "c \<in> set (o_conditions op)" for c
    using that assms by (auto simp: op_wf_def cond_wf_def patch_condition_def patched_def split: option.splits)
  then have c: "\<forall>x \<in> set (map ?f (o_conditions op)). cond_wf clock 0 s x" by (simp only: set_map ball_simps) blast
  have "distinct (map c_id (map ?f (o_conditions op)))" unfolding ids using assms(2) by (simp add: op_wf_def)
  from op_wf_conds [OF assms(2) this c] show ?thesis .
qed

lemma cond_removed_wf: "op_wf clock 0 s op \<Longrightarrow> op_wf clock 0 s (op\<lparr>o_conditions := filter P (o_conditions op)\<rparr>)"
  by (auto simp: op_wf_def distinct_map_filter)

lemma text_wf: "op_wf clock 0 s op \<Longrightarrow> op_wf clock 0 s (op\<lparr>o_value_text := x\<rparr>) \<and> o_id (op\<lparr>o_value_text := x\<rparr>) = o_id op"
  by (simp add: op_wf_def)

lemma cond_added_wf:
  assumes "op_wf clock 0 s op" "cond_wf clock s s' c" "s \<le> s'"
  shows "op_wf clock 0 s' (op\<lparr>o_conditions := o_conditions op @ [c]\<rparr>)"
proof -
  have "c_id x \<noteq> c_id c" if "x \<in> set (o_conditions op)" for x
    using that assms(1,2) made_distinct unfolding op_wf_def cond_wf_def by blast
  then have "distinct (map c_id (o_conditions op @ [c]))" using assms(1) by (force simp: op_wf_def)
  moreover have "cond_wf clock 0 s' x" if "x \<in> set (o_conditions op @ [c])" for x
    using that assms cond_wf_mono [of clock 0 s x 0 s'] cond_wf_mono [of clock s s' x 0 s'] by (auto simp: op_wf_def)
  ultimately show ?thesis using assms made_mono [of clock 0 s "o_id op" 0 s'] by (simp add: op_wf_def)
qed

lemma defaultCondition_wf: "createDefaultCondition clock s = (c, s') \<Longrightarrow> s' = Suc s \<and> cond_wf clock s s' c"
proof -
  assume a: "createDefaultCondition clock s = (c, s')"
  obtain r where r: "normalizeCondition clock s (JObj []) = (r, s')" "c = the r"
    using a by (auto simp: createDefaultCondition_def apfst_def map_prod_def split: prod.splits)
  then obtain d where "r = Some d" using normalizeCondition_wf(3) [OF r(1)] by auto
  then show ?thesis using normalizeCondition_wf(1,2) [OF r(1)] r(2) by auto
qed

lemma prune_seed: "prune_rules clock s vs = (rs, s') \<Longrightarrow> s \<le> s' \<and> (\<forall>r \<in> set rs. made clock s s' (pr_id r))"
proof (induction vs arbitrary: s rs)
  case (Cons v vs)
  obtain rs2 where 2: "prune_rules clock (Suc s) vs = (rs2, s')" "rs = fst (normalizePruneRule clock s v) # rs2"
    using Cons.prems by (auto simp: normalizePruneRule_def nextLocalId_id split: prod.splits)
  have "pr_id (fst (normalizePruneRule clock s v)) = id_of clock s" by (simp add: normalizePruneRule_def nextLocalId_id)
  then show ?case using Cons.IH [OF 2(1)] 2(2) made_mono [OF made_id [of clock s], of s s'] made_mono [of clock "Suc s" s' _ s s'] by auto
qed simp

lemma prune_draft_seed:
  assumes "parsePruneObjectsDraft clock s txt = (d, s')"
  shows "s \<le> s' \<and> (\<forall>r \<in> set (pd_rules d). made clock s s' (pr_id r))"
proof -
  show ?thesis using assms prune_seed [of clock s "prune_sources kvs" for kvs]
    by (auto simp: parsePruneObjectsDraft_def prune_defaults_def Let_def split: if_splits option.splits json.splits prod.splits)
qed

definition retext :: "ParamOverrideOperation \<Rightarrow> ParamOverrideOperation \<Rightarrow> bool" where
  "retext op op' \<longleftrightarrow> (\<exists>x. op' = op\<lparr>o_value_text := x\<rparr>)"

lemma retextD: "retext op op' \<Longrightarrow> o_id op' = o_id op \<and> (op_wf clock 0 s op \<longrightarrow> op_wf clock 0 s op')"
  by (auto simp: retext_def op_wf_def)

lemma update_prune_texts:
  assumes "\<And>s d d' s'. updater s d = (d', s') \<Longrightarrow> s \<le> s'"
  shows "update_prune clock i updater s ops = (ops', s') \<Longrightarrow> s \<le> s' \<and> list_all2 retext ops ops'"
proof (induction ops arbitrary: s ops')
  case (Cons op ops)
  have same: "retext op op" unfolding retext_def by (rule exI [of _ "o_value_text op"]) simp
  show ?case
  proof (cases "o_id op = i")
    case False
    then obtain l where "update_prune clock i updater s ops = (l, s')" "ops' = op # l"
      using Cons.prems by (auto simp: apfst_def map_prod_def split: prod.splits)
    then show ?thesis using Cons.IH same by auto
  next
    case True
    obtain d s1 where 1: "parsePruneObjectsDraft clock s (o_value_text op) = (d, s1)" by fastforce
    obtain d2 s2 where 2: "updater s1 d = (d2, s2)" by fastforce
    obtain l where 3: "update_prune clock i updater s2 ops = (l, s')" "ops' = op\<lparr>o_value_text := buildPruneObjectsValueText d2\<rparr> # l"
      using Cons.prems True 1 2 by (auto simp: apfst_def map_prod_def split: prod.splits)
    have "s \<le> s2" using prune_draft_seed [OF 1] assms [OF 2] by linarith
    moreover have "retext op (op\<lparr>o_value_text := buildPruneObjectsValueText d2\<rparr>)" by (auto simp: retext_def)
    ultimately show ?thesis using Cons.IH [OF 3(1)] 3(2) by auto
  qed
qed simp

lemma texts_wf:
  assumes "list_all2 retext ops ops'" "ops_wf clock 0 s ops"
  shows "ops_wf clock 0 s ops'"
proof -
  have "map o_id ops' = map o_id ops" using assms(1) retextD by (induction rule: list_all2_induct) auto
  moreover have "(\<forall>op \<in> set ops. op_wf clock 0 s op) \<longrightarrow> (\<forall>op \<in> set ops'. op_wf clock 0 s op)"
    using assms(1) by (induction rule: list_all2_induct) (simp_all, metis retextD)
  ultimately show ?thesis using assms(2) by (simp add: ops_wf_def)
qed

lemma updatePrune_wf:
  assumes "editor_wf clock ed" "\<And>s d d' s'. updater s d = (d', s') \<Longrightarrow> s \<le> s'"
  shows "editor_wf clock (updatePruneObjectsDraft clock i updater ed)"
proof -
  obtain ops s' where u: "update_prune clock i updater (ed_localIdSeed ed) (ed_operations ed) = (ops, s')" by fastforce
  have "ed_localIdSeed ed \<le> s' \<and> list_all2 retext (ed_operations ed) ops"
    by (rule update_prune_texts [OF _ u]) (rule assms(2))
  note p = this
  have "ops_wf clock 0 (ed_localIdSeed ed) ops" using texts_wf assms(1) p by (auto simp: editor_wf_def)
  moreover have "ops \<noteq> []" using p assms(1) by (auto simp: editor_wf_def)
  ultimately show ?thesis using p u by (intro editor_wf_new) (auto simp: updatePruneObjectsDraft_def)
qed

lemma find_index_Some:
  "find_index P xs = Some i \<Longrightarrow> i < length xs \<and> P (xs ! i) \<and> (\<forall>j < i. \<not> P (xs ! j))"
proof (induction xs arbitrary: i)
  case (Cons x xs)
  then show ?case by (cases i) (auto simp: nth_Cons' less_Suc_eq_0_disj split: if_splits)
qed simp

lemma find_index_None: "find_index P xs = None \<longleftrightarrow> (\<forall>x \<in> set xs. \<not> P x)"
  by (induction xs) auto

lemma mset_remove_insert: "i < length xs \<Longrightarrow> mset (insert_at k (xs ! i) (remove_at i xs)) = mset xs"
proof -
  assume i: "i < length xs"
  have "mset (insert_at k x ys) = add_mset x (mset ys)" for x :: 'a and ys
    using append_take_drop_id [of k ys] by (metis insert_at_def mset.simps(2) mset_append union_mset_add_mset_right)
  moreover have "add_mset (xs ! i) (mset (remove_at i xs)) = mset xs"
    using id_take_nth_drop [OF i] by (metis mset.simps(2) mset_append remove_at_def union_mset_add_mset_right)
  ultimately show ?thesis by simp
qed

lemma reorder_mset: "mset (reorderOperations ops a b position) = mset ops"
  by (auto simp: reorderOperations_def Let_def mset_remove_insert dest: find_index_Some split: option.splits)

lemma mset_wf: "mset ops' = mset ops \<Longrightarrow> ops_wf clock lo hi ops \<Longrightarrow> ops_wf clock lo hi ops'"
  unfolding ops_wf_def by (metis mset_eq_imp_distinct_iff mset_eq_setD mset_map)

lemma load_wf:
  assumes "load_operations clock s items = (r, s')"
  shows "s \<le> s' \<and> (\<forall>ops. r = Some ops \<longrightarrow> ops_wf clock s s' ops \<and> ops \<noteq> [])"
proof (cases "items = []")
  case True
  then obtain op where "createDefaultOperation clock s = (op, s')" "r = Some [op]"
    using assms by (auto simp: load_operations_def apfst_def map_prod_def split: prod.splits)
  then show ?thesis using createDefault_ops by auto
next
  case False
  then have m: "map_ids (normalizeOperation clock) s items = (r, s')" using assms by (simp add: load_operations_def)
  show ?thesis using operations_wf [OF m] False by auto
qed

lemma default_state_wf:
  assumes "default_state clock s em vm legacy x err = (r, s')"
  shows "s \<le> s' \<and> (\<forall>st. r = Some st \<longrightarrow> ops_wf clock s s' (es_operations st) \<and> es_operations st \<noteq> [])"
proof -
  obtain op s1 where d: "createDefaultOperation clock s = (op, s1)" by fastforce
  show ?thesis using assms createDefault_ops [OF d] by (auto simp: default_state_def d)
qed

lemma parseInitial_wf:
  assumes "parseInitialState clock s v = (r, s')"
  shows "s \<le> s' \<and> (\<forall>st. r = Some st \<longrightarrow> ops_wf clock s s' (es_operations st) \<and> es_operations st \<noteq> [])"
  using assms default_state_wf [of clock s] load_wf [of clock s]
  by (fastforce simp: parseInitialState_def Let_def split: if_splits option.splits json.splits prod.splits)

lemma open_wf: "editor_wf clock ed \<Longrightarrow> openDialog clock v ed = Some ed' \<Longrightarrow> editor_wf clock ed'"
proof -
  assume a: "openDialog clock v ed = Some ed'"
  obtain r s1 where p: "parseInitialState clock (ed_localIdSeed ed) v = (r, s1)" by fastforce
  then obtain st where st: "r = Some st" "ed_operations ed' = es_operations st" "ed_localIdSeed ed' = s1"
    using a by (auto simp: openDialog_def)
  show ?thesis using parseInitial_wf [OF p] st by (intro editor_wf_new [of clock "ed_localIdSeed ed" s1]) auto
qed

lemma default_new_wf:
  assumes "createDefaultOperation clock s = (op, s1)" "ed_operations ed = [op]" "ed_localIdSeed ed = s1"
  shows "editor_wf clock ed"
  using createDefault_ops [OF assms(1)] assms(2,3) by (intro editor_wf_new [of clock s s1]) auto

lemma default_pair: obtains op s1 where "createDefaultOperation clock s = (op, s1)"
  by fastforce

lemma add_wf: "editor_wf clock ed \<Longrightarrow> editor_wf clock (addOperation clock ed)"
proof -
  assume w: "editor_wf clock ed"
  obtain op s1 where d: "createDefaultOperation clock (ed_localIdSeed ed) = (op, s1)" by fastforce
  have "ops_wf clock 0 s1 (ed_operations ed @ [op])"
    using w createDefault_ops [OF d] by (intro ops_wf_append [of clock 0 "ed_localIdSeed ed"]) (auto simp: editor_wf_def)
  then show ?thesis by (intro editor_wf_new [of clock 0 s1]) (auto simp: addOperation_def d)
qed

lemma insert_mset: "mset (insert_at k x ys) = mset (ys @ [x])"
  using append_take_drop_id [of k ys] by (metis insert_at_def mset.simps mset_append union_mset_add_mset_right add_0_right)

lemma duplicate_wf: "editor_wf clock ed \<Longrightarrow> editor_wf clock (duplicateOperation clock b i ed)"
proof (cases "find_index (\<lambda>op. o_id op = i) (ed_operations ed)")
  case (Some idx)
  assume w: "editor_wf clock ed"
  obtain r s1 where n: "normalizeOperation clock (ed_localIdSeed ed) (clone_payload (ed_operations ed ! idx)) = (r, s1)" by fastforce
  note nw = normalizeOperation_wf [OF n]
  show ?thesis
  proof (cases r)
    case None
    then show ?thesis using w nw Some n by (intro editor_wf_same [OF w]) (auto simp: duplicateOperation_def)
  next
    case (Some c)
    have "ops_wf clock 0 s1 (ed_operations ed @ [c])"
      using w nw Some by (intro ops_wf_append [of clock 0 "ed_localIdSeed ed"]) (auto simp: editor_wf_def ops_wf_def)
    from mset_wf [OF insert_mset this] have "ops_wf clock 0 s1 (insert_at (idx + 1) c (ed_operations ed))" .
    then show ?thesis using \<open>find_index _ _ = Some idx\<close> n Some
      by (intro editor_wf_new [of clock 0 s1]) (auto simp: duplicateOperation_def insert_at_def)
  qed
qed (simp add: duplicateOperation_def)

lemma filter_wf: "ops_wf clock lo hi ops \<Longrightarrow> ops_wf clock lo hi (filter P ops)"
  by (auto simp: ops_wf_def distinct_map_filter)

lemma remove_wf: "editor_wf clock ed \<Longrightarrow> editor_wf clock (removeOperation clock i ed)"
proof (cases "length (ed_operations ed) \<le> 1")
  case True
  obtain op s1 where "createDefaultOperation clock (ed_localIdSeed ed) = (op, s1)" by fastforce
  then show ?thesis using True by (intro default_new_wf) (auto simp: removeOperation_def)
next
  case False
  assume w: "editor_wf clock ed"
  let ?ops = "filter (\<lambda>op. o_id op \<noteq> i) (ed_operations ed)"
  have "?ops \<noteq> []"
  proof
    assume "?ops = []"
    then have "\<forall>x \<in> set (map o_id (ed_operations ed)). x = i" by (auto simp: filter_empty_conv)
    then have "set (map o_id (ed_operations ed)) \<subseteq> {i}" by blast
    then have "card (set (map o_id (ed_operations ed))) \<le> 1" using card_mono [of "{i}"] by fastforce
    then show False using w False distinct_card [of "map o_id (ed_operations ed)"] by (simp add: editor_wf_def ops_wf_def)
  qed
  then show ?thesis using w False filter_wf
    by (intro editor_wf_new [of clock 0 "ed_localIdSeed ed" ?ops]) (auto simp: removeOperation_def editor_wf_def)
qed

lemma add_cond_wf: "editor_wf clock ed \<Longrightarrow> editor_wf clock (addCondition clock i ed)"
proof -
  assume w: "editor_wf clock ed"
  obtain c s1 where d: "createDefaultCondition clock (ed_localIdSeed ed) = (c, s1)" by fastforce
  note cw = defaultCondition_wf [OF d]
  show ?thesis
    by (rule editor_wf_on [OF w, of _ i "\<lambda>op. op\<lparr>o_conditions := o_conditions op @ [c]\<rparr>"])
      (use cw cond_added_wf in \<open>auto simp: addCondition_def d\<close>)
qed

lemma drop_wf: "editor_wf clock ed \<Longrightarrow> editor_wf clock (handleDrop x i ed)"
proof -
  assume w: "editor_wf clock ed"
  have r: "ops_wf clock 0 (ed_localIdSeed ed) (reorderOperations (ed_operations ed) a b p)"
    "reorderOperations (ed_operations ed) a b p \<noteq> []" for a b p
    using w mset_wf [OF reorder_mset] reorder_mset [of "ed_operations ed" a b p] by (auto simp: editor_wf_def)
  have "editor_wf clock (if c then ed\<lparr>ed_operations := reorderOperations (ed_operations ed) a b p, ed_selectedOperationId := a\<rparr> else ed)" for c a b p
    using w r [of a b p] by (simp add: editor_wf_def)
  moreover have "editor_wf clock (resetDragState e)" if e: "editor_wf clock e" for e
    by (rule editor_wf_same [OF e]) (simp_all add: resetDragState_def)
  ultimately show ?thesis unfolding handleDrop_def Let_def by blast
qed

lemma to_visual_wf: "editor_wf clock ed \<Longrightarrow> editor_wf clock (switchToVisualMode clock t ed)"
proof -
  assume w: "editor_wf clock ed"
  obtain op s1 where d: "createDefaultOperation clock (ed_localIdSeed ed) = (op, s1)" by fastforce
  note new = default_new_wf [OF d]
  have toast: "editor_wf clock (toast_error m ed)" for m by (rule editor_wf_same [OF w]) (simp_all add: toast_error_def)
  have legacy: "editor_wf clock (case v of
      JObj _ \<Rightarrow> (let (fallback, s1) = createDefaultOperation clock (ed_localIdSeed ed) in
         ed\<lparr>ed_visualMode := LegacyMode, ed_legacyValue := stringify2 v, ed_operations := [fallback],
            ed_selectedOperationId := o_id fallback, ed_jsonError := [], ed_editMode := VisualEdit,
            ed_templatePresetKey := ''legacy_default'', ed_localIdSeed := s1\<rparr>)
    | _ \<Rightarrow> toast_error m ed)" for v m
    using toast by (cases v) (auto simp: d intro: new)
  have loaded: "editor_wf clock (case load_operations clock (ed_localIdSeed ed) items of
      (None, s1) \<Rightarrow> ed\<lparr>ed_localIdSeed := s1\<rparr>
    | (Some nextOps, s1) \<Rightarrow> ed\<lparr>ed_visualMode := OperationsMode, ed_operations := nextOps, ed_selectedOperationId := first_id nextOps,
         ed_legacyValue := [], ed_jsonError := [], ed_editMode := VisualEdit, ed_templatePresetKey := ''operations_default'',
         ed_localIdSeed := s1\<rparr>)" for items
  proof -
    obtain r s where l: "load_operations clock (ed_localIdSeed ed) items = (r, s)" by fastforce
    show ?thesis
    proof (cases r)
      case None
      then show ?thesis using load_wf [OF l] l by (intro editor_wf_same [OF w]) auto
    next
      case (Some ops)
      then show ?thesis using load_wf [OF l] l by (intro editor_wf_new [of clock "ed_localIdSeed ed" s ops]) auto
    qed
  qed
  have empty: "editor_wf clock (let (fallback, s1) = createDefaultOperation clock (ed_localIdSeed ed) in
     ed\<lparr>ed_visualMode := OperationsMode, ed_operations := [fallback], ed_selectedOperationId := o_id fallback, ed_legacyValue := [],
        ed_jsonError := [], ed_editMode := VisualEdit, ed_localIdSeed := s1\<rparr>)"
    by (auto simp: d intro: new)
  have read: "editor_wf clock (case js_prop (Some v) ''operations'' of
      Some (JArr items) \<Rightarrow> (case load_operations clock (ed_localIdSeed ed) items of
          (None, s1) \<Rightarrow> ed\<lparr>ed_localIdSeed := s1\<rparr>
        | (Some nextOps, s1) \<Rightarrow> ed\<lparr>ed_visualMode := OperationsMode, ed_operations := nextOps, ed_selectedOperationId := first_id nextOps,
             ed_legacyValue := [], ed_jsonError := [], ed_editMode := VisualEdit, ed_templatePresetKey := ''operations_default'',
             ed_localIdSeed := s1\<rparr>)
    | _ \<Rightarrow> (case v of
      JObj _ \<Rightarrow> (let (fallback, s1) = createDefaultOperation clock (ed_localIdSeed ed) in
         ed\<lparr>ed_visualMode := LegacyMode, ed_legacyValue := stringify2 v, ed_operations := [fallback],
            ed_selectedOperationId := o_id fallback, ed_jsonError := [], ed_editMode := VisualEdit,
            ed_templatePresetKey := ''legacy_default'', ed_localIdSeed := s1\<rparr>)
    | _ \<Rightarrow> toast_error m ed))" for v m
  proof (cases "js_prop (Some v) ''operations''")
    case None
    then show ?thesis using legacy [of m v] by (simp only: option.case)
  next
    case (Some w)
    then show ?thesis using legacy [of m v] loaded by (cases w) (simp_all only: option.case json.case)
  qed
  show ?thesis unfolding switchToVisualMode_def Let_def [of "js_trim _"]
    using w toast empty read by (cases "json_parse (js_trim (ed_jsonText ed))") (simp_all only: option.case if_splits, auto)
qed

lemma set_legacy_wf: "editor_wf clock (set_legacy clock x ed)"
proof -
  obtain op s1 where "createDefaultOperation clock (ed_localIdSeed ed) = (op, s1)" by fastforce
  then show ?thesis by (intro default_new_wf) (auto simp: set_legacy_def)
qed

lemma fill_legacy_wf: "editor_wf clock ed \<Longrightarrow> editor_wf clock (fill_legacy clock t mode payload ed)"
proof -
  assume w: "editor_wf clock ed"
  have "editor_wf clock (toast_error m ed)" for m by (rule editor_wf_same [OF w]) (simp_all add: toast_error_def)
  then show ?thesis using set_legacy_wf by (auto simp: fill_legacy_def Let_def split: option.splits)
qed

lemma fill_operations_wf:
  assumes w: "editor_wf clock ed" and ne: "items \<noteq> []"
  shows "editor_wf clock (fill_operations clock mode items ed)"
proof -
  obtain r s1 where m: "map_ids (normalizeOperation clock) (ed_localIdSeed ed) items = (r, s1)" by fastforce
  note mw = operations_wf [OF m]
  show ?thesis
  proof (cases r)
    case None
    then show ?thesis using m mw by (intro editor_wf_same [OF w]) (auto simp: fill_operations_def)
  next
    case (Some ops)
    then have o: "ops_wf clock (ed_localIdSeed ed) s1 ops" "ops \<noteq> []" using mw ne by auto
    have "ops_wf clock 0 s1 (filter P (ed_operations ed) @ ops)" for P
      using w o mw(1) filter_wf by (intro ops_wf_append [of clock 0 "ed_localIdSeed ed"]) (auto simp: editor_wf_def)
    note both = this
    have new: "editor_wf clock e" if "ed_operations e = ops" "ed_localIdSeed e = s1" for e
      using o that by (intro editor_wf_new [of clock "ed_localIdSeed ed" s1 ops]) auto
    have old: "editor_wf clock e" if "ed_operations e = filter P (ed_operations ed) @ ops" "ed_localIdSeed e = s1" for e P
      using both [of P] o that by (intro editor_wf_new [of clock 0 s1]) auto
    show ?thesis
    proof (cases "mode = Append \<and> ed_visualMode ed = OperationsMode")
      case True
      then show ?thesis using m Some o by (intro old) (auto simp: fill_operations_def Let_def)
    next
      case False
      then show ?thesis using m Some o by (intro new) (cases mode; auto simp: fill_operations_def Let_def)+
    qed
  qed
qed

lemma templates_nonempty:
  "(k, p) \<in> set TEMPLATE_PRESET_CONFIG \<Longrightarrow> tp_kind p = OperationsPreset \<Longrightarrow>
     \<exists>items. obj_get ''operations'' (tp_payload p) = Some (JArr items) \<and> items \<noteq> []"
  by (auto simp: TEMPLATE_PRESET_CONFIG_def OPERATION_TEMPLATE_def HEADER_PASSTHROUGH_TEMPLATE_def GEMINI_IMAGE_4K_TEMPLATE_def
      buildPassHeadersTemplate_def AWS_BEDROCK_ANTHROPIC_COMPAT_TEMPLATE_def ops_payload_def obj_get_def)

lemma fill_wf: "editor_wf clock ed \<Longrightarrow> editor_wf clock (fillTemplate clock t mode ed)"
proof -
  assume w: "editor_wf clock ed"
  define p where "p = (case map_of TEMPLATE_PRESET_CONFIG (ed_templatePresetKey ed) of Some p \<Rightarrow> p
            | None \<Rightarrow> the (map_of TEMPLATE_PRESET_CONFIG ''operations_default''))"
  have "map_of TEMPLATE_PRESET_CONFIG ''operations_default'' \<noteq> None" by (simp add: TEMPLATE_PRESET_CONFIG_def)
  then obtain k where "map_of TEMPLATE_PRESET_CONFIG k = Some p"
    unfolding p_def by (cases "map_of TEMPLATE_PRESET_CONFIG (ed_templatePresetKey ed)") auto
  then have p_in: "\<exists>k. (k, p) \<in> set TEMPLATE_PRESET_CONFIG" by (blast dest: map_of_SomeD)
  show ?thesis
  proof (cases "tp_kind p")
    case OperationsPreset
    then obtain items where "obj_get ''operations'' (tp_payload p) = Some (JArr items)" "items \<noteq> []"
      using templates_nonempty p_in by blast
    then show ?thesis using OperationsPreset fill_operations_wf [OF w] unfolding fillTemplate_def p_def [symmetric] by (simp add: Let_def)
  next
    case LegacyPreset
    then show ?thesis using fill_legacy_wf [OF w] unfolding fillTemplate_def p_def [symmetric] by (simp add: Let_def)
  qed
qed

lemma editor_wf_upd:
  assumes "editor_wf clock ed" "\<And>op. op_wf clock 0 (ed_localIdSeed ed) op \<Longrightarrow> op_wf clock 0 (ed_localIdSeed ed) (f op) \<and> o_id (f op) = o_id op"
  shows "editor_wf clock (ed\<lparr>ed_operations := on_operation i f (ed_operations ed)\<rparr>)"
  by (rule editor_wf_on [OF assms(1), of _ i f]) (simp_all add: assms(2))

lemma editor_step_wf:
  assumes w: "editor_wf clock ed" and a: "typed_action a"
  shows "editor_wf clock (editor_step clock t a ed)"
proof (cases a)
  case (OpenDialog v)
  then show ?thesis using w open_wf by (auto split: option.splits)
next
  case (Patch i p)
  then have "typed_action (Patch i p)" using a by simp
  from patch_wf [OF this] show ?thesis unfolding Patch
    unfolding editor_step.simps updateOperation_def
    by (intro editor_wf_upd [OF w])
next
  case (PatchCond i j p)
  then have "typed_action (PatchCond i j p)" using a by simp
  from patch_cond_wf [OF this] show ?thesis unfolding PatchCond
    unfolding editor_step.simps updateCondition_def
    by (intro editor_wf_upd [OF w]) simp_all
next
  case (RemoveCond i j)
  then show ?thesis unfolding RemoveCond editor_step.simps removeCondition_def
    using cond_removed_wf by (intro editor_wf_upd [OF w]) simp_all
next
  case (PatchError i f)
  then show ?thesis unfolding PatchError editor_step.simps updateReturnErrorDraft_def
    by (intro editor_wf_upd [OF w] text_wf)
next
  case (AddPrune i)
  then show ?thesis unfolding AddPrune editor_step.simps addPruneRule_def
    by (intro updatePrune_wf [OF w]) (auto simp: normalizePruneRule_def nextLocalId_id)
next
  case (KeepSelected)
  then show ?thesis by (intro editor_wf_same [OF w]) (simp_all add: keepSelectedValid_def)
next
  case (DragOver y u h i)
  then show ?thesis by (intro editor_wf_same [OF w]) (simp_all add: handleDragOver_def)
next
  case ToJson
  then show ?thesis by (intro editor_wf_same [OF w]) (simp_all add: switchToJsonMode_def toast_error_def split: sum.splits)
next
  case (JsonChange s)
  then show ?thesis by (intro editor_wf_same [OF w]) (simp_all add: handleJsonChange_def Let_def)
next
  case FormatJson
  then show ?thesis by (intro editor_wf_same [OF w]) (simp_all add: formatJson_def toast_error_def Let_def split: option.splits)
next
  case Save
  then show ?thesis by (intro editor_wf_same [OF w]) (simp_all add: handleSave_def toast_error_def Let_def split: sum.splits)
next
  case Expand
  then show ?thesis by (intro editor_wf_same [OF w]) (simp_all add: expandAllConditions_def set_expanded_def split: option.splits)
next
  case Collapse
  then show ?thesis by (intro editor_wf_same [OF w]) (simp_all add: collapseAllConditions_def set_expanded_def split: option.splits)
next
  case ResetEditor
  obtain op s1 where "createDefaultOperation clock (ed_localIdSeed ed) = (op, s1)" by fastforce
  then show ?thesis using ResetEditor by (intro default_new_wf) (auto simp: resetEditorState_def)
qed (use w in \<open>auto intro: add_wf duplicate_wf remove_wf add_cond_wf drop_wf to_visual_wf fill_wf updatePrune_wf editor_wf_same
      simp: updatePruneRule_def removePruneRule_def handleDragStart_def\<close>)

interpretation editor: guarded_machine "editor_step clock t" typed_action "editor_wf clock" for clock t
  by unfold_locales (rule editor_step_wf)

subsection \<open>The rules of the editor under every sequence of actions\<close>

lemma initial_wf: "editor_wf clock (initial_dialog clock seed)"
proof -
  obtain op s1 where "createDefaultOperation clock seed = (op, s1)" by fastforce
  then show ?thesis by (intro default_new_wf) (simp_all add: initial_dialog_def)
qed

lemma editor_run_wf: "list_all typed_action as \<Longrightarrow> editor_wf clock (fold (editor_step clock t) as (initial_dialog clock seed))"
  using editor.guarded_run [OF initial_wf] .

text \<open>C10. Whatever the administrator does in the dialog, through the selects of the form or by opening,
  pasting or filling in any JSON text, every rule keeps one of the known modes, its logic is AND or OR, and every
  condition has one of the known comparison modes.\<close>

theorem editor_rules_typed:
  assumes "list_all typed_action as" "op \<in> set (ed_operations (fold (editor_step clock t) as (initial_dialog clock seed)))"
  shows "o_mode op \<in> set OPERATION_MODE_VALUES \<and> o_logic op \<in> {''AND'', ''OR''} \<and> c_mode ` set (o_conditions op) \<subseteq> set CONDITION_MODE_VALUES"
  using editor_run_wf [OF assms(1), of clock t seed] assms(2) by (auto simp: editor_wf_def ops_wf_def op_wf_def cond_wf_def)

text \<open>C13. The dialog always has a rule, and the ids of the rules, and of the conditions of a rule, are
  distinct, so that an action on an id changes at most one of them; after the effect that keeps the selection valid
  there is a selected rule.\<close>

theorem editor_ids_unique:
  assumes "list_all typed_action as" "ed = fold (editor_step clock t) as (initial_dialog clock seed)"
  shows "ed_operations ed \<noteq> [] \<and> distinct (map o_id (ed_operations ed)) \<and> selectedOperation (keepSelectedValid ed) \<noteq> None \<and>
    list_all (\<lambda>op. distinct (map c_id (o_conditions op))) (ed_operations ed)"
proof -
  have w: "editor_wf clock ed" unfolding assms(2) by (rule editor_run_wf [OF assms(1)])
  have "hd (ed_operations ed) \<in> set (ed_operations ed)" using w by (simp add: editor_wf_def)
  then have "selectedOperation (keepSelectedValid ed) \<noteq> None" using w
    by (simp add: selectedOperation_def keepSelectedValid_def editor_wf_def find_None_iff list_ex_iff) (metis hd_in_set)
  then show ?thesis using w by (simp add: editor_wf_def ops_wf_def op_wf_def list_all_iff)
qed

subsection \<open>Reordering\<close>

lemma index_split:
  assumes "find_index P xs = Some i"
  shows "xs = take i xs @ xs ! i # drop (Suc i) xs" "P (xs ! i)"
  using find_index_Some [OF assms] id_take_nth_drop by blast+

lemma filter_other:
  assumes d: "distinct (map o_id (a @ x # b))"
  shows "filter (\<lambda>op. o_id op \<noteq> o_id x) (a @ x # b) = a @ b"
proof -
  have "o_id x \<notin> o_id ` set (a @ b)" using d by (simp add: image_Un)
  then have "\<forall>y \<in> set (a @ b). o_id y \<noteq> o_id x" by (metis imageI)
  then show ?thesis by (simp add: filter_id_conv)
qed

lemma reorder_split:
  assumes d: "distinct (map o_id ops)" and s: "src \<in> o_id ` set ops" and g: "tgt \<in> o_id ` set ops" and ne: "src \<noteq> []" "tgt \<noteq> []" "src \<noteq> tgt"
  shows "\<exists>pre post moved target. o_id moved = src \<and> o_id target = tgt \<and> moved \<in> set ops \<and> filter (\<lambda>op. o_id op \<noteq> src) ops = pre @ target # post \<and>
    reorderOperations ops src tgt position = pre @ (if position = After then [target, moved] else [moved, target]) @ post"
proof -
  have "find_index (\<lambda>x. o_id x = src) ops \<noteq> None" unfolding find_index_None using s by auto
  then obtain i where i: "find_index (\<lambda>x. o_id x = src) ops = Some i" by blast
  note isp = index_split [OF i]
  have il: "i < length ops" using find_index_Some [OF i] by blast
  have f: "filter (\<lambda>op. o_id op \<noteq> src) ops = remove_at i ops"
    using filter_other [of "take i ops" "ops ! i" "drop (Suc i) ops"] d isp unfolding remove_at_def by metis
  have "\<exists>x \<in> set (remove_at i ops). o_id x = tgt" unfolding f [symmetric] using g ne(3) by auto
  then have "find_index (\<lambda>x. o_id x = tgt) (remove_at i ops) \<noteq> None" unfolding find_index_None by blast
  then obtain j where j: "find_index (\<lambda>x. o_id x = tgt) (remove_at i ops) = Some j" by blast
  define pre post target where "pre = take j (remove_at i ops)" and "post = drop (Suc j) (remove_at i ops)" and "target = remove_at i ops ! j"
  have js: "remove_at i ops = pre @ target # post" "o_id target = tgt" unfolding pre_def post_def target_def by (rule index_split [OF j])+
  have "length pre = j" unfolding pre_def using find_index_Some [OF j] by simp
  then have "insert_at (if position = After then j + 1 else j) (ops ! i) (remove_at i ops) =
      pre @ (if position = After then [target, ops ! i] else [ops ! i, target]) @ post"
    unfolding js(1) by (auto simp: insert_at_def)
  then have "reorderOperations ops src tgt position = pre @ (if position = After then [target, ops ! i] else [ops ! i, target]) @ post"
    unfolding reorderOperations_def using ne i j by (simp add: Let_def)
  moreover have "ops ! i \<in> set ops" using il by simp
  ultimately show ?thesis using isp(2) js f by metis
qed

definition no_patch :: OperationPatch where
  "no_patch = \<lparr>op_description = None, op_path = None, op_mode = None, op_from = None, op_to = None, op_value_text = None, op_keep_origin = None,
     op_logic = None\<rparr>"

definition plain_t :: translator where
  \<comment> \<open>the translator of the language of the keys\<close>
  "plain_t key n = key @ (case n of Some i \<Rightarrow> int_to_str i | None \<Rightarrow> '' '')"

definition sample_actions :: "editor_action list" where
  "sample_actions = [AddOp, Patch ''po_0_1'' (no_patch\<lparr>op_mode := Some ''copy'', op_from := Some ''a'', op_to := Some ''b''\<rparr>), AddCond ''po_0_1'', Drop ''po_0_1'' ''po_0_0'']"

theorem editor_rules_typed_witness:
  "map o_mode (ed_operations (fold (editor_step (\<lambda>_. 0) plain_t) sample_actions (initial_dialog (\<lambda>_. 0) 0))) = [''copy'', ''set''] \<and>
   ''copy'' \<in> set OPERATION_MODE_VALUES"
proof -
  let ?ed = "fold (editor_step (\<lambda>_. 0) plain_t) sample_actions (initial_dialog (\<lambda>_. 0) 0)"
  have m: "map o_mode (ed_operations ?ed) = [''copy'', ''set'']" by code_simp
  then obtain op where "op \<in> set (ed_operations ?ed)" "o_mode op = ''copy''" by (cases "ed_operations ?ed") auto
  moreover have "list_all typed_action sample_actions" by code_simp
  ultimately show ?thesis using editor_rules_typed [of sample_actions op "\<lambda>_. 0" plain_t 0] m by simp
qed

theorem editor_ids_unique_witness:
  "map o_id (ed_operations (fold (editor_step (\<lambda>_. 0) plain_t) sample_actions (initial_dialog (\<lambda>_. 0) 0))) = [''po_0_1'', ''po_0_0''] \<and>
   distinct [''po_0_1'', ''po_0_0'']"
proof -
  have m: "map o_id (ed_operations (fold (editor_step (\<lambda>_. 0) plain_t) sample_actions (initial_dialog (\<lambda>_. 0) 0))) = [''po_0_1'', ''po_0_0'']"
    by code_simp
  have "list_all typed_action sample_actions" by code_simp
  then show ?thesis using editor_ids_unique [OF _ refl, of sample_actions "\<lambda>_. 0" plain_t 0] unfolding m by simp
qed

text \<open>Dropping a rule next to another one moves that rule only: the other rules keep their order,
  and the rule comes to stand directly before or after the one it was dropped on.\<close>

theorem reorder_moves_one:
  assumes "distinct (map o_id ops)" "src \<in> o_id ` set ops" "tgt \<in> o_id ` set ops" "src \<noteq> []" "tgt \<noteq> []" "src \<noteq> tgt"
  shows "filter (\<lambda>op. o_id op \<noteq> src) (reorderOperations ops src tgt position) = filter (\<lambda>op. o_id op \<noteq> src) ops \<and>
    mset (reorderOperations ops src tgt position) = mset ops \<and>
    (\<exists>pre post moved target. o_id moved = src \<and> o_id target = tgt \<and>
       reorderOperations ops src tgt position = pre @ (if position = After then [target, moved] else [moved, target]) @ post)"
proof -
  obtain pre post moved target where r: "o_id moved = src" "o_id target = tgt" "filter (\<lambda>op. o_id op \<noteq> src) ops = pre @ target # post"
    "reorderOperations ops src tgt position = pre @ (if position = After then [target, moved] else [moved, target]) @ post"
    using reorder_split [OF assms] by blast
  have "\<forall>x \<in> set (pre @ target # post). o_id x \<noteq> src" unfolding r(3) [symmetric] by simp
  then have "filter (\<lambda>op. o_id op \<noteq> src) (reorderOperations ops src tgt position) = pre @ target # post"
    unfolding r(4) using r(1) by (simp add: filter_id_conv)
  then show ?thesis using r reorder_mset by metis
qed

definition three_rules :: "ParamOverrideOperation list" where
  "three_rules = map (\<lambda>i. \<lparr>o_id = i, o_description = [], o_path = i, o_mode = ''delete'', o_from = [], o_to = [], o_value_text = [],
     o_keep_origin = False, o_logic = ''OR'', o_conditions = []\<rparr>) [''x'', ''y'', ''z'']"

theorem reorder_moves_one_witness:
  "map o_id (reorderOperations three_rules ''x'' ''y'' After) = [''y'', ''x'', ''z''] \<and>
   filter (\<lambda>op. o_id op \<noteq> ''x'') (reorderOperations three_rules ''x'' ''y'' After) = filter (\<lambda>op. o_id op \<noteq> ''x'') three_rules"
proof -
  have "map o_id three_rules = [''x'', ''y'', ''z'']" by code_simp
  then have "distinct (map o_id three_rules)" "o_id ` set three_rules = {''x'', ''y'', ''z''}" by (simp_all flip: set_map)
  then have "filter (\<lambda>op. o_id op \<noteq> ''x'') (reorderOperations three_rules ''x'' ''y'' After) = filter (\<lambda>op. o_id op \<noteq> ''x'') three_rules"
    using reorder_moves_one [of three_rules "''x''" "''y''" After] by simp
  moreover have "map o_id (reorderOperations three_rules ''x'' ''y'' After) = [''y'', ''x'', ''z'']" by code_simp
  ultimately show ?thesis by blast
qed

end
