(* ===== verification/Param_Saving.thy ===== *)
theory Param_Saving
  imports Param_Editor
begin

section \<open>Saving and reopening parameter overrides\<close>

text \<open>
  What the editor of \<^verbatim>\<open>Param_Override\<close> writes and reads: the fields of a saved rule in closed form, what
  validation accepts, that saved rules are complete and are read back, which texts cannot be opened, and the drafts
  of custom errors, prune rules and synchronisation targets.
\<close>

subsection \<open>What is saved\<close>

lemma put_when_get: "obj_get j (put_when b k v ob) = (if b \<and> j = k then Some v else obj_get j ob)"
  by (simp add: put_when_def obj_get_set)

lemma put_text_get: "obj_get j (put_text k s ob) = (if s \<noteq> [] \<and> j = k then Some (JStr s) else obj_get j ob)"
  by (simp add: put_text_def obj_get_set)

lemma get_one: "obj_get j [(k, v)] = (if j = k then Some v else None)"
  by (simp add: obj_get_def)

lemma put_when_new: "\<not> obj_has k ob \<Longrightarrow> \<not> is_array_index k \<Longrightarrow> put_when b k v ob = ob @ (if b then [(k, v)] else [])"
  by (simp add: put_when_def obj_set_new)

lemma put_text_new: "\<not> obj_has k ob \<Longrightarrow> \<not> is_array_index k \<Longrightarrow> put_text k s ob = ob @ (if s \<noteq> [] then [(k, JStr s)] else [])"
  by (simp add: put_text_def obj_set_new)

lemma plain_put_when: "plain_obj ob \<Longrightarrow> \<not> is_array_index k \<Longrightarrow> (b \<Longrightarrow> json_plain v) \<Longrightarrow> plain_obj (put_when b k v ob)"
  by (simp add: put_when_def plain_obj_set)

lemma plain_put_text: "plain_obj ob \<Longrightarrow> \<not> is_array_index k \<Longrightarrow> plain_obj (put_text k s ob)"
  by (simp add: put_text_def plain_obj_set)

lemma field_names:
  "\<not> is_array_index ''mode''" "\<not> is_array_index ''description''" "\<not> is_array_index ''path''" "\<not> is_array_index ''value''"
  "\<not> is_array_index ''keep_origin''" "\<not> is_array_index ''from''" "\<not> is_array_index ''to''" "\<not> is_array_index ''conditions''"
  "\<not> is_array_index ''logic''" "\<not> is_array_index ''invert''" "\<not> is_array_index ''pass_missing_key''" "\<not> is_array_index ''operations''"
  by (simp_all add: is_array_index_def is_digit_def)

lemma meta_shape: "(mm_pathAlias (meta_of m) \<longrightarrow> mm_from (meta_of m) \<and> mm_to (meta_of m)) \<and> \<not> (mm_path (meta_of m) \<and> mm_pathOptional (meta_of m))"
proof -
  have "meta_of m \<in> snd ` set MODE_META"
  proof (cases "map_of MODE_META m")
    case None
    then show ?thesis by (simp add: meta_of_def MODE_META_def)
  next
    case (Some x)
    then show ?thesis by (force simp: meta_of_def dest: map_of_SomeD)
  qed
  moreover have "\<forall>x \<in> snd ` set MODE_META. (mm_pathAlias x \<longrightarrow> mm_from x \<and> mm_to x) \<and> \<not> (mm_path x \<and> mm_pathOptional x)"
    by (simp add: MODE_META_def no_meta_def)
  ultimately show ?thesis by blast
qed

definition path_value :: "ParamOverrideOperation \<Rightarrow> jsstr" where
  "path_value op = js_trim (o_path op)"

definition aliased :: "ParamOverrideOperation \<Rightarrow> jsstr \<Rightarrow> jsstr" where
  \<comment> \<open>a source or target, which the path replaces if it is empty and the mode allows that\<close>
  "aliased op s = (if mm_pathAlias (meta_of (mode_or_set (o_mode op))) \<and> js_trim s = [] \<and> path_value op \<noteq> [] then path_value op else js_trim s)"

definition saved_conditions :: "ParamOverrideOperation \<Rightarrow> json list" where
  "saved_conditions op = List.map_filter buildConditionPayload (o_conditions op)"

definition op_head :: "ParamOverrideOperation \<Rightarrow> json obj" where
  "op_head op = (let mode = mode_or_set (o_mode op); meta = meta_of mode; d = js_trim (o_description op) in
     [(''mode'', JStr mode)] @ (if d \<noteq> [] then [(''description'', JStr d)] else []) @
     (if mm_path meta \<or> mm_pathOptional meta \<and> path_value op \<noteq> [] then [(''path'', JStr (path_value op))] else []) @
     (if mm_value meta then [(''value'', parseLooseValue (o_value_text op))] else []) @
     (if mm_keepOrigin meta \<and> o_keep_origin op then [(''keep_origin'', JBool True)] else []))"

definition op_ends :: "ParamOverrideOperation \<Rightarrow> json obj" where
  "op_ends op = (let meta = meta_of (mode_or_set (o_mode op)) in
     (if mm_from meta then [(''from'', JStr (aliased op (o_from op)))] else []) @
     (if mm_to meta \<or> js_trim (o_to op) \<noteq> [] then [(''to'', JStr (aliased op (o_to op)))] else []))"

definition op_fields :: "ParamOverrideOperation \<Rightarrow> json obj" where
  \<comment> \<open>the fields of a saved rule, in their order\<close>
  "op_fields op = op_head op @ op_ends op @
     (if saved_conditions op \<noteq> [] then [(''conditions'', JArr (saved_conditions op)),
        (''logic'', JStr (if o_logic op = ''AND'' then ''AND'' else ''OR''))] else [])"

lemma has_append: "obj_has k (a @ b) \<longleftrightarrow> obj_has k a \<or> obj_has k b" "obj_has k ((j, v) # a) \<longleftrightarrow> k = j \<or> obj_has k a" "\<not> obj_has k []"
  "obj_has k (if c then x else y) \<longleftrightarrow> c \<and> obj_has k x \<or> \<not> c \<and> obj_has k y"
  by (auto simp: obj_has_def)

lemma set_mid: "\<not> obj_has k a \<Longrightarrow> \<not> obj_has k b \<Longrightarrow> obj_set k v (a @ [(k, w)] @ b) = a @ [(k, v)] @ b"
  by (induction a; induction b) (auto simp: obj_set_def obj_has_def)

lemma ends_put:
  fixes t f p :: jsstr
  assumes n: "\<not> obj_has ''from'' a" "\<not> obj_has ''to'' a" and shape: "al \<longrightarrow> mf \<and> mt"
  defines "p8 \<equiv> put_when mt ''to'' (JStr t) (put_when (\<not> mt \<and> t \<noteq> []) ''to'' (JStr t) (put_when mf ''from'' (JStr f) a))"
  defines "p9 \<equiv> put_when (al \<and> falsy_text (obj_get ''from'' p8) \<and> p \<noteq> []) ''from'' (JStr p) p8"
  shows "put_when (al \<and> falsy_text (obj_get ''to'' p9) \<and> p \<noteq> []) ''to'' (JStr p) p9 =
    a @ (if mf then [(''from'', JStr (if al \<and> f = [] \<and> p \<noteq> [] then p else f))] else []) @
      (if mt \<or> t \<noteq> [] then [(''to'', JStr (if al \<and> t = [] \<and> p \<noteq> [] then p else t))] else [])"
proof -
  have 8: "p8 = a @ (if mf then [(''from'', JStr f)] else []) @ (if mt \<or> t \<noteq> [] then [(''to'', JStr t)] else [])"
    unfolding p8_def by (cases mt; cases mf) (simp_all add: put_when_def obj_set_new n has_append field_names)
  have g: "obj_get k (a @ b) = obj_get k b" if "\<not> obj_has k a" for k and b :: "json obj"
    using that unfolding obj_has_get obj_get_def by (simp add: map_add_def)
  show ?thesis
  proof (cases al)
    case False
    then show ?thesis by (simp add: p9_def 8 put_when_def)
  next
    case True
    have 9: "p9 = a @ [(''from'', JStr (if f = [] \<and> p \<noteq> [] then p else f))] @ [(''to'', JStr t)]"
      using set_mid [of "''from''" a "[(''to'', JStr t)]" "JStr p" "JStr f"] True shape n
      by (simp add: p9_def 8 put_when_def falsy_text_def g has_append) (simp add: obj_get_def)
    define u where "u = (''from'', JStr (if f = [] \<and> p \<noteq> [] then p else f))"
    have "put_when (falsy_text (obj_get ''to'' p9) \<and> p \<noteq> []) ''to'' (JStr p) p9 = a @ [u] @ [(''to'', JStr (if t = [] \<and> p \<noteq> [] then p else t))]"
      using set_mid [of "''to''" "a @ [u]" "[]" "JStr p" "JStr []"] n unfolding 9 u_def [symmetric]
      by (simp add: put_when_def falsy_text_def g has_append) (auto simp: obj_get_def u_def has_append)
    note this [unfolded u_def]
    then show ?thesis using True shape by simp
  qed
qed

lemma head_put:
  assumes meta: "m = meta_of (mode_or_set (o_mode op))"
  shows "put_when (mm_keepOrigin m \<and> o_keep_origin op) ''keep_origin'' (JBool True)
      (put_when (mm_value m) ''value'' (parseLooseValue (o_value_text op))
      (put_when (mm_pathOptional m \<and> path_value op \<noteq> []) ''path'' (JStr (path_value op))
      (put_when (mm_path m) ''path'' (JStr (path_value op))
      (put_text ''description'' (js_trim (o_description op)) [(''mode'', JStr (mode_or_set (o_mode op)))])))) = op_head op"
proof -
  have path: "put_when (mm_pathOptional m \<and> path_value op \<noteq> []) ''path'' v (put_when (mm_path m) ''path'' v ob) =
      put_when (mm_path m \<or> mm_pathOptional m \<and> path_value op \<noteq> []) ''path'' v ob" for v ob
    using meta_shape [of "mode_or_set (o_mode op)", folded meta] by (auto simp: put_when_def)
  show ?thesis unfolding path op_head_def Let_def meta [symmetric]
    by (simp add: put_text_new put_when_new has_append field_names split del: if_split)
qed

lemma head_names: "obj_has k (op_head op) \<Longrightarrow> k \<in> {''mode'', ''description'', ''path'', ''value'', ''keep_origin''}"
  by (auto simp: op_head_def Let_def obj_has_def split: if_splits)

lemma ends_names: "obj_has k (op_ends op) \<Longrightarrow> k \<in> {''from'', ''to''}"
  by (auto simp: op_ends_def Let_def obj_has_def split: if_splits)

lemma payload_fields: "operation_payload op = JObj (op_fields op)"
proof -
  let ?meta = "meta_of (mode_or_set (o_mode op))"
  have n: "\<not> obj_has ''from'' (op_head op)" "\<not> obj_has ''to'' (op_head op)" using head_names by fastforce+
  have m: "\<not> obj_has ''conditions'' (op_head op @ op_ends op)" "\<not> obj_has ''logic'' (op_head op @ op_ends op)"
    using head_names [of _ op] ends_names [of _ op] by (auto simp: has_append)
  have e: "op_ends op = (if mm_from ?meta then [(''from'', JStr (if mm_pathAlias ?meta \<and> js_trim (o_from op) = [] \<and> path_value op \<noteq> [] then path_value op
        else js_trim (o_from op)))] else []) @ (if mm_to ?meta \<or> js_trim (o_to op) \<noteq> [] then
        [(''to'', JStr (if mm_pathAlias ?meta \<and> js_trim (o_to op) = [] \<and> path_value op \<noteq> [] then path_value op else js_trim (o_to op)))] else [])"
    by (simp add: op_ends_def aliased_def Let_def)
  show ?thesis unfolding operation_payload_def Let_def path_value_def [symmetric] head_put [OF refl] saved_conditions_def [symmetric]
    ends_put [OF n meta_shape [THEN conjunct1]] e [symmetric] op_fields_def
    using m by (simp add: put_when_def obj_set_new field_names has_append)
qed

subsection \<open>Reading back what was saved\<close>

definition readable_value :: "jsstr \<Rightarrow> bool" where
  \<comment> \<open>not the JSON text of a string that is empty, has blanks around it or is JSON itself\<close>
  "readable_value s \<longleftrightarrow> json_plain (parseLooseValue s) \<and>
     (case json_parse (js_trim s) of Some (JStr w) \<Rightarrow> w \<noteq> [] \<and> trimmed w \<and> json_parse w = None | _ \<Rightarrow> True)"

lemma parse_text_trimmed:
  assumes "json_plain v"
  shows "json_parse (js_trim (json_stringify v)) = Some v" "js_trim (json_stringify v) \<noteq> []"
proof -
  have t: "js_trim (json_stringify v) = json_stringify v" by (rule js_trim_id [OF stringify_trimmed])
  show "json_parse (js_trim (json_stringify v)) = Some v" unfolding t by (rule json_roundtrip [OF assms])
  show "js_trim (json_stringify v) \<noteq> []" unfolding t using stringify_hd [OF assms] by auto
qed

lemma loose_plain: "json_parse (js_trim s) = Some v \<Longrightarrow> js_trim s \<noteq> [] \<Longrightarrow> parseLooseValue s = v"
  by (simp add: parseLooseValue_def)

lemma loose_text: "trimmed w \<Longrightarrow> json_parse w = None \<Longrightarrow> parseLooseValue w = JStr w"
  by (simp add: parseLooseValue_def js_trim_id)

definition value_text :: "jsstr \<Rightarrow> jsstr" where
  \<comment> \<open>the text of a value after saving and reading back\<close>
  "value_text s = toValueText (Some (parseLooseValue s))"

lemma value_stable:
  assumes "readable_value s"
  shows "parseLooseValue (value_text s) = parseLooseValue s \<and> (js_trim (value_text s) = [] \<longleftrightarrow> js_trim s = [])"
proof (cases "js_trim s = []")
  case True
  then have "parseLooseValue s = JStr []" by (simp add: parseLooseValue_def)
  then show ?thesis using True by (simp add: value_text_def toValueText_def parseLooseValue_def)
next
  case False
  show ?thesis
  proof (cases "json_parse (js_trim s)")
    case None
    then have v: "parseLooseValue s = JStr (js_trim s)" using False by (simp add: parseLooseValue_def)
    have "parseLooseValue (js_trim s) = JStr (js_trim s)" by (rule loose_text [OF js_trim_trimmed None])
    then show ?thesis using False v by (simp add: value_text_def toValueText_def)
  next
    case (Some v)
    then have s: "parseLooseValue s = v" using False by (rule loose_plain)
    show ?thesis
    proof (cases "\<exists>w. v = JStr w")
      case True
      then obtain w where "v = JStr w" "w \<noteq> []" "trimmed w" "json_parse w = None" using assms Some by (auto simp: readable_value_def)
      then show ?thesis using False loose_text [of w] by (simp add: value_text_def toValueText_def s js_trim_id)
    next
      case other: False
      then have t: "value_text s = json_stringify v" by (cases v) (simp_all add: value_text_def toValueText_def s)
      have "json_plain v" using assms s by (simp add: readable_value_def)
      then show ?thesis using False loose_plain parse_text_trimmed [of v] unfolding t s by blast
    qed
  qed
qed

lemma readable_plain: "readable_value s \<Longrightarrow> json_plain (parseLooseValue s)"
  by (simp add: readable_value_def)

lemma field_names_mode: "[] \<notin> set OPERATION_MODE_VALUES" "[] \<notin> set CONDITION_MODE_VALUES"
  by (simp_all add: OPERATION_MODE_VALUES_def OPERATION_MODE_OPTIONS_def CONDITION_MODE_VALUES_def CONDITION_MODE_OPTIONS_def)

definition cond_fields :: "ParamOverrideCondition \<Rightarrow> json obj" where
  "cond_fields c = [(''path'', JStr (js_trim (c_path c))), (''mode'', JStr (c_mode c)), (''value'', parseLooseValue (c_value_text c))] @
     (if c_invert c then [(''invert'', JBool True)] else []) @ (if c_pass_missing_key c then [(''pass_missing_key'', JBool True)] else [])"

lemma cond_payload:
  "c_mode c \<noteq> [] \<Longrightarrow> buildConditionPayload c = (if js_trim (c_path c) = [] then None else Some (JObj (cond_fields c)))"
  by (simp add: buildConditionPayload_def cond_fields_def put_when_def obj_set_new has_append field_names)

lemma cond_plain: "json_plain (parseLooseValue (c_value_text c)) \<Longrightarrow> plain_obj (cond_fields c)"
  by (simp add: plain_obj_def word_keys_def cond_fields_def field_names)

lemma cond_reread:
  assumes "c_mode c \<in> set CONDITION_MODE_VALUES" "readable_value (c_value_text c)" "js_trim (c_path c) \<noteq> []"
  obtains c' where "normalizeCondition clock s (JObj (cond_fields c)) = (Some c', Suc s)" "buildConditionPayload c' = Some (JObj (cond_fields c))"
proof -
  let ?c = "\<lparr>c_id = id_of clock s, c_path = js_trim (c_path c), c_mode = c_mode c, c_value_text = value_text (c_value_text c),
     c_invert = c_invert c, c_pass_missing_key = c_pass_missing_key c\<rparr>"
  have m: "c_mode c \<noteq> []" using assms(1) field_names_mode by metis
  have 1: "normalizeCondition clock s (JObj (cond_fields c)) = (Some ?c, Suc s)" using assms(1)
    by (simp add: normalizeCondition_def nextLocalId_id cond_fields_def string_prop_def known_mode_or_def is_true_def obj_get_def value_text_def)
  have "cond_fields ?c = cond_fields c" using value_stable [OF assms(2)] by (simp add: cond_fields_def)
  then have "buildConditionPayload ?c = Some (JObj (cond_fields c))" using m assms(3) by (simp add: cond_payload)
  with 1 show thesis by (rule that)
qed

definition typed_rule :: "ParamOverrideOperation \<Rightarrow> bool" where
  "typed_rule op \<longleftrightarrow> o_mode op \<in> set OPERATION_MODE_VALUES \<and> (\<forall>c \<in> set (o_conditions op). c_mode c \<in> set CONDITION_MODE_VALUES)"

definition readable_rule :: "ParamOverrideOperation \<Rightarrow> bool" where
  "readable_rule op \<longleftrightarrow> (mm_value (meta_of (o_mode op)) \<longrightarrow> readable_value (o_value_text op)) \<and>
     (\<forall>c \<in> set (o_conditions op). js_trim (c_path c) \<noteq> [] \<longrightarrow> readable_value (c_value_text c))"

lemma typed_mode: "typed_rule op \<Longrightarrow> mode_or_set (o_mode op) = o_mode op"
  using field_names_mode(1) by (metis mode_or_set_def typed_rule_def)

lemma op_wf_typed: "op_wf clock lo hi op \<Longrightarrow> typed_rule op"
  by (simp add: op_wf_def typed_rule_def cond_wf_def)

lemma map_filter_conds:
  "\<forall>c \<in> set cs. c_mode c \<noteq> [] \<Longrightarrow>
   List.map_filter buildConditionPayload cs = map (\<lambda>c. JObj (cond_fields c)) (filter (\<lambda>c. js_trim (c_path c) \<noteq> []) cs)"
  by (induction cs) (auto simp: List.map_filter_def cond_payload)

lemma saved_conds:
  assumes "typed_rule op"
  shows "saved_conditions op = map (\<lambda>c. JObj (cond_fields c)) (filter (\<lambda>c. js_trim (c_path c) \<noteq> []) (o_conditions op))"
  unfolding saved_conditions_def using assms field_names_mode(2) by (intro map_filter_conds) (metis typed_rule_def)

lemma map_ids_all:
  assumes "\<And>x s. x \<in> set xs \<Longrightarrow> \<exists>y s'. f s x = (Some y, s') \<and> P x y"
  shows "\<exists>ys s'. map_ids f s xs = (Some ys, s') \<and> list_all2 P xs ys"
  using assms
proof (induction xs arbitrary: s)
  case (Cons x xs)
  obtain y s1 where 1: "f s x = (Some y, s1)" "P x y" using Cons.prems [of x s] by auto
  obtain ys s2 where 2: "map_ids f s1 xs = (Some ys, s2)" "list_all2 P xs ys" using Cons.IH [of s1] Cons.prems by auto
  then show ?case using 1 by auto
qed simp

lemma map_filter_reread:
  "list_all2 (\<lambda>v c'. buildConditionPayload c' = Some v) vs cs \<Longrightarrow> List.map_filter buildConditionPayload cs = vs"
  by (induction rule: list_all2_induct) (simp_all add: List.map_filter_simps)

lemma conditions_reread:
  assumes t: "typed_rule op" and r: "readable_rule op"
  shows "\<exists>cs s'. map_ids (normalizeCondition clock) s (saved_conditions op) = (Some cs, s') \<and> List.map_filter buildConditionPayload cs = saved_conditions op"
proof -
  have "\<exists>c' s'. normalizeCondition clock s v = (Some c', s') \<and> buildConditionPayload c' = Some v" if v: "v \<in> set (saved_conditions op)" for v s
  proof -
    obtain c where c: "c \<in> set (o_conditions op)" "js_trim (c_path c) \<noteq> []" "v = JObj (cond_fields c)" using v t by (auto simp: saved_conds)
    have "c_mode c \<in> set CONDITION_MODE_VALUES" "readable_value (c_value_text c)" using c t r by (auto simp: typed_rule_def readable_rule_def)
    from cond_reread [OF this c(2)] show ?thesis using c(3) by metis
  qed
  from map_ids_all [of "saved_conditions op" "normalizeCondition clock" "\<lambda>v c'. buildConditionPayload c' = Some v" s, OF this]
  show ?thesis using map_filter_reread by blast
qed

lemma fields_get:
  assumes "mode_or_set (o_mode op) = o_mode op"
  defines "m \<equiv> meta_of (o_mode op)"
  shows "obj_get ''mode'' (op_fields op) = Some (JStr (o_mode op))"
    "obj_get ''description'' (op_fields op) = (if js_trim (o_description op) = [] then None else Some (JStr (js_trim (o_description op))))"
    "obj_get ''path'' (op_fields op) = (if mm_path m \<or> mm_pathOptional m \<and> path_value op \<noteq> [] then Some (JStr (path_value op)) else None)"
    "obj_get ''value'' (op_fields op) = (if mm_value m then Some (parseLooseValue (o_value_text op)) else None)"
    "obj_get ''keep_origin'' (op_fields op) = (if mm_keepOrigin m \<and> o_keep_origin op then Some (JBool True) else None)"
    "obj_get ''from'' (op_fields op) = (if mm_from m then Some (JStr (aliased op (o_from op))) else None)"
    "obj_get ''to'' (op_fields op) = (if mm_to m \<or> js_trim (o_to op) \<noteq> [] then Some (JStr (aliased op (o_to op))) else None)"
    "obj_get ''conditions'' (op_fields op) = (if saved_conditions op = [] then None else Some (JArr (saved_conditions op)))"
    "obj_get ''logic'' (op_fields op) = (if saved_conditions op = [] then None else Some (JStr (if o_logic op = ''AND'' then ''AND'' else ''OR'')))"
  unfolding op_fields_def op_head_def op_ends_def Let_def assms(1) m_def by (simp_all add: get_app)

definition reread :: "jsstr \<Rightarrow> ParamOverrideCondition list \<Rightarrow> ParamOverrideOperation \<Rightarrow> ParamOverrideOperation" where
  \<comment> \<open>a rule as it is after saving and reading back\<close>
  "reread i cs op = (let m = meta_of (o_mode op) in
     \<lparr>o_id = i, o_description = js_trim (o_description op), o_path = (if mm_path m \<or> mm_pathOptional m then path_value op else []),
      o_mode = o_mode op, o_from = (if mm_from m then aliased op (o_from op) else []), o_to = aliased op (o_to op),
      o_value_text = (if mm_value m then value_text (o_value_text op) else []), o_keep_origin = (mm_keepOrigin m \<and> o_keep_origin op),
      o_logic = (if o_logic op = ''AND'' \<and> saved_conditions op \<noteq> [] then ''AND'' else ''OR''), o_conditions = cs\<rparr>)"

lemma reread_sel:
  "o_conditions (reread i cs op) = cs" "o_mode (reread i cs op) = o_mode op" "o_description (reread i cs op) = js_trim (o_description op)"
  "o_path (reread i cs op) = (if mm_path (meta_of (o_mode op)) \<or> mm_pathOptional (meta_of (o_mode op)) then path_value op else [])"
  "o_from (reread i cs op) = (if mm_from (meta_of (o_mode op)) then aliased op (o_from op) else [])" "o_to (reread i cs op) = aliased op (o_to op)"
  "o_value_text (reread i cs op) = (if mm_value (meta_of (o_mode op)) then value_text (o_value_text op) else [])"
  "o_keep_origin (reread i cs op) = (mm_keepOrigin (meta_of (o_mode op)) \<and> o_keep_origin op)"
  "o_logic (reread i cs op) = (if o_logic op = ''AND'' \<and> saved_conditions op \<noteq> [] then ''AND'' else ''OR'')"
  by (simp_all add: reread_def Let_def)

lemma and_or_texts: "and_or (Some (JStr ''AND'')) = ''AND''" "and_or (Some (JStr ''OR'')) = ''OR''" "and_or None = ''OR''"
  by (simp_all add: and_or_def js_or_def js_toUpperCase_def js_upper_char_def)

lemma aliased_to: "typed_rule op \<Longrightarrow> \<not> mm_to (meta_of (o_mode op)) \<Longrightarrow> js_trim (o_to op) = [] \<Longrightarrow> aliased op (o_to op) = []"
  using meta_shape [of "o_mode op"] by (simp add: aliased_def typed_mode)

lemma operation_reread:
  assumes t: "typed_rule op" and r: "readable_rule op"
  shows "\<exists>cs s'. normalizeOperation clock s (operation_payload op) = (Some (reread (id_of clock s) cs op), s') \<and>
    saved_conditions (reread (id_of clock s) cs op) = saved_conditions op"
proof -
  obtain cs s' where cs: "map_ids (normalizeCondition clock) (Suc s) (saved_conditions op) = (Some cs, s')"
    "List.map_filter buildConditionPayload cs = saved_conditions op" using conditions_reread [OF t r] by blast
  have c: "(case js_prop (Some (JObj (op_fields op))) ''conditions'' of Some (JArr cs) \<Rightarrow> map_ids (normalizeCondition clock) (Suc s) cs
      | _ \<Rightarrow> (Some [], Suc s)) = (Some cs, s')"
    using cs(1) by (auto simp: fields_get(8) [OF typed_mode [OF t]])
  note get = fields_get [OF typed_mode [OF t]]
  have l: "\<not> string_throws (js_or (js_prop (Some (JObj (op_fields op))) ''logic'') (JStr ''OR''))" by (simp add: get js_or_def)
  have "o_mode op \<in> set OPERATION_MODE_VALUES" using t by (simp add: typed_rule_def)
  then have "normalizeOperation clock s (operation_payload op) = (Some (reread (id_of clock s) cs op), s')"
    unfolding payload_fields normalizeOperation_def nextLocalId_id Let_def prod.case c
    using aliased_to [OF t] l
    by (simp add: reread_def Let_def string_prop_def known_mode_or_def is_true_def get toValueText_def [of None] value_text_def and_or_texts)
  moreover have "saved_conditions (reread (id_of clock s) cs op) = saved_conditions op"
    unfolding saved_conditions_def [of "reread _ _ _"] reread_sel using cs(2) .
  ultimately show ?thesis by blast
qed

lemma aliased_trim: "js_trim (aliased op s) = aliased op s"
  by (simp add: aliased_def path_value_def)

lemma aliased_reread:
  assumes "typed_rule op"
  shows "aliased (reread i cs op) (aliased op s) = aliased op s"
proof (cases "mm_pathAlias (meta_of (o_mode op))")
  case True
  then have "mm_path (meta_of (o_mode op)) \<or> mm_pathOptional (meta_of (o_mode op)) \<Longrightarrow> path_value (reread i cs op) = path_value op"
    by (simp add: path_value_def reread_sel)
  then show ?thesis using True assms
    by (cases "path_value op = []") (auto simp: aliased_def reread_sel typed_mode path_value_def)
next
  case False
  then show ?thesis using assms by (simp add: aliased_def reread_sel typed_mode)
qed

lemma reread_fields:
  assumes t: "typed_rule op" and r: "readable_rule op" and c: "saved_conditions (reread i cs op) = saved_conditions op"
  shows "op_fields (reread i cs op) = op_fields op"
proof -
  let ?m = "meta_of (o_mode op)" and ?o = "reread i cs op"
  have p: "path_value ?o = (if mm_path ?m \<or> mm_pathOptional ?m then path_value op else [])" by (simp add: path_value_def reread_sel)
  have m: "mode_or_set (o_mode op) = o_mode op" using t by (rule typed_mode)
  have v: "mm_value ?m \<Longrightarrow> parseLooseValue (value_text (o_value_text op)) = parseLooseValue (o_value_text op)"
    using r value_stable by (simp add: readable_rule_def)
  have "op_head ?o = op_head op"
    unfolding op_head_def Let_def reread_sel p m using v by (simp add: reread_sel)
  moreover have "op_ends ?o = op_ends op"
    unfolding op_ends_def Let_def reread_sel m using aliased_reread [OF t] aliased_to [OF t] by (auto simp: aliased_trim aliased_def)
  ultimately show ?thesis unfolding op_fields_def c by (simp add: reread_sel)
qed

lemma required_modes:
  "\<forall>m \<in> set VALUE_REQUIRED_MODES. mm_value (meta_of m)" "\<forall>m \<in> set FROM_REQUIRED_MODES. mm_from (meta_of m)"
  "\<forall>m \<in> set TO_REQUIRED_MODES. mm_to (meta_of m)" "mm_path (meta_of ''set'')"
  by code_simp+

definition sound_headers :: "ParamOverrideOperation \<Rightarrow> bool" where
  "sound_headers op \<longleftrightarrow> \<not> (mode_or_set (o_mode op) = ''pass_headers'' \<and> header_throws (parseLooseValue (js_trim (o_value_text op))))"

lemma sound_iff:
  "mode_or_set (o_mode op) = o_mode op \<Longrightarrow>
   sound_headers op \<longleftrightarrow> (o_mode op = ''pass_headers'' \<longrightarrow> \<not> header_throws (parseLooseValue (o_value_text op)))"
  by (auto simp: sound_headers_def parseLooseValue_def)

lemma rule_ok_iff:
  assumes m: "mode_or_set (o_mode op) = o_mode op"
  shows "rule_error op = None \<longleftrightarrow> (mm_path (meta_of (o_mode op)) \<longrightarrow> path_value op \<noteq> []) \<and>
     (o_mode op \<in> set FROM_REQUIRED_MODES \<longrightarrow> aliased op (o_from op) \<noteq> []) \<and> (o_mode op \<in> set TO_REQUIRED_MODES \<longrightarrow> aliased op (o_to op) \<noteq> []) \<and>
     (o_mode op \<in> set VALUE_REQUIRED_MODES \<longrightarrow> js_trim (o_value_text op) \<noteq> []) \<and>
     (o_mode op = ''return_error'' \<longrightarrow> (case parseLooseValue (o_value_text op) of
        JObj kvs \<Rightarrow> \<not> blank_text (js_or (obj_get ''message'' kvs) (JStr [])) | _ \<Rightarrow> True)) \<and>
     (o_mode op = ''pass_headers'' \<longrightarrow> header_throws (parseLooseValue (o_value_text op)) \<or> parsePassHeaderNames (parseLooseValue (o_value_text op)) \<noteq> [])"
proof -
  have v: "''return_error'' \<in> set VALUE_REQUIRED_MODES" "''prune_objects'' \<in> set VALUE_REQUIRED_MODES" "''pass_headers'' \<in> set VALUE_REQUIRED_MODES"
    by (simp_all add: VALUE_REQUIRED_MODES_def)
  have tr: "parseLooseValue (js_trim s) = parseLooseValue s" for s by (simp add: parseLooseValue_def)
  have e: "(case json_object (js_trim s) of Some kvs \<Rightarrow> P kvs | None \<Rightarrow> False) \<longleftrightarrow>
      \<not> (case parseLooseValue s of JObj kvs \<Rightarrow> \<not> P kvs | _ \<Rightarrow> True)" if "js_trim s \<noteq> []" for s P
    using that by (cases "json_parse (js_trim s)") (auto simp: json_object_def parseLooseValue_def Let_def as_object_def split: json.splits)
  have al: "aliased op s = [] \<longleftrightarrow> js_trim s = [] \<and> \<not> (mm_pathAlias (meta_of (o_mode op)) \<and> path_value op \<noteq> [])" for s
    by (auto simp: aliased_def m)
  have if_None: "(if c then Some x else y) = None \<longleftrightarrow> \<not> c \<and> y = None" for c and x :: jsstr and y by simp
  let ?E = "case json_object (js_trim (o_value_text op)) of Some parsed \<Rightarrow> blank_text (js_or (obj_get ''message'' parsed) (JStr [])) | None \<Rightarrow> False"
  have 1: "rule_error op = None \<longleftrightarrow> \<not> (mm_path (meta_of (o_mode op)) \<and> path_value op = []) \<and>
      \<not> (o_mode op \<in> set FROM_REQUIRED_MODES \<and> aliased op (o_from op) = []) \<and> \<not> (o_mode op \<in> set TO_REQUIRED_MODES \<and> aliased op (o_to op) = []) \<and>
      \<not> (o_mode op \<in> set VALUE_REQUIRED_MODES \<and> js_trim (o_value_text op) = []) \<and> \<not> (o_mode op = ''return_error'' \<and> ?E) \<and>
      \<not> (o_mode op = ''prune_objects'' \<and> js_trim (o_value_text op) = []) \<and> \<not> (o_mode op = ''pass_headers'' \<and> js_trim (o_value_text op) = []) \<and>
      \<not> (o_mode op = ''pass_headers'' \<and> \<not> header_throws (parseLooseValue (o_value_text op)) \<and> parsePassHeaderNames (parseLooseValue (o_value_text op)) = [])"
    unfolding rule_error_def Let_def m al if_None tr blank_def path_value_def by (simp only: length_0_conv simp_thms)
  show ?thesis
  proof (cases "js_trim (o_value_text op) = []")
    case True
    then show ?thesis unfolding 1 using v by metis
  next
    case False
    from e [OF this, of "\<lambda>kvs. blank_text (js_or (obj_get ''message'' kvs) (JStr []))"] show ?thesis
      unfolding 1 using False by metis
  qed
qed

lemma reread_ok:
  assumes t: "typed_rule op" and r: "readable_rule op" and ok: "rule_error op = None" "sound_headers op"
  shows "rule_error (reread i cs op) = None \<and> sound_headers (reread i cs op)"
proof -
  let ?m = "meta_of (o_mode op)" and ?o = "reread i cs op"
  note m = typed_mode [OF t]
  have m': "mode_or_set (o_mode ?o) = o_mode ?o" using m by (simp add: reread_sel)
  have v: "mm_value ?m \<Longrightarrow> parseLooseValue (value_text (o_value_text op)) = parseLooseValue (o_value_text op) \<and>
      (js_trim (value_text (o_value_text op)) = [] \<longleftrightarrow> js_trim (o_value_text op) = [])"
    using r value_stable by (simp add: readable_rule_def)
  have rm: "''return_error'' \<in> set VALUE_REQUIRED_MODES" "''pass_headers'' \<in> set VALUE_REQUIRED_MODES"
    by (simp_all add: VALUE_REQUIRED_MODES_def)
  show ?thesis using ok v rm required_modes(1-3) aliased_reread [OF t]
    unfolding rule_ok_iff [OF m] rule_ok_iff [OF m'] sound_iff [OF m] sound_iff [OF m'] by (auto simp: reread_sel path_value_def)
qed

lemma ok_not_blank: "typed_rule op \<Longrightarrow> rule_error op = None \<Longrightarrow> \<not> isOperationBlank op"
  using required_modes(4) by (auto simp: rule_ok_iff typed_mode isOperationBlank_def blank_def path_value_def)

lemma validate_none:
  assumes "\<And>k n. t k n \<noteq> []"
  shows "validate_from t i ops = [] \<longleftrightarrow> (\<forall>op \<in> set ops. rule_error op = None \<and> sound_headers op)"
  using assms by (induction ops arbitrary: i) (auto simp: sound_headers_def type_error_text_def split: option.splits)

lemma payload_plain:
  assumes t: "typed_rule op" and r: "readable_rule op"
  shows "json_plain (operation_payload op)"
proof -
  have "json_plain v" if v: "v \<in> set (saved_conditions op)" for v
  proof -
    obtain c where "v = JObj (cond_fields c)" "readable_value (c_value_text c)"
      using v r by (auto simp: saved_conds [OF t] readable_rule_def)
    then show ?thesis using plain_obj_json [OF cond_plain] readable_plain by blast
  qed
  then have c: "json_plain (JArr (saved_conditions op))" by simp
  have v: "mm_value (meta_of (mode_or_set (o_mode op))) \<Longrightarrow> json_plain (parseLooseValue (o_value_text op))"
    using r readable_plain by (simp add: typed_mode [OF t] readable_rule_def)
  have one: "plain_obj [(''mode'', JStr x)]" for x by (simp add: plain_obj_def word_keys_def field_names)
  show ?thesis unfolding operation_payload_def Let_def saved_conditions_def [symmetric]
    by (intro plain_obj_json plain_put_when plain_put_text field_names one v c) simp_all
qed

lemma operations_reread:
  assumes "\<forall>op \<in> set ops. typed_rule op \<and> readable_rule op \<and> rule_error op = None \<and> sound_headers op"
  shows "\<exists>ops' s'. map_ids (normalizeOperation clock) s (map operation_payload ops) = (Some ops', s') \<and>
    map operation_payload ops' = map operation_payload ops \<and> (\<forall>op \<in> set ops'. rule_error op = None \<and> sound_headers op \<and> \<not> isOperationBlank op)"
proof -
  define P where "P v op' \<longleftrightarrow> operation_payload op' = v \<and> rule_error op' = None \<and> sound_headers op' \<and> \<not> isOperationBlank op'" for v op'
  have "\<exists>y s'. normalizeOperation clock s v = (Some y, s') \<and> P v y" if v: "v \<in> set (map operation_payload ops)" for v s
  proof -
    obtain op where op: "op \<in> set ops" "v = operation_payload op" using v by auto
    then have r: "typed_rule op" "readable_rule op" "rule_error op = None" "sound_headers op" using assms by auto
    obtain cs s' where o: "normalizeOperation clock s v = (Some (reread (id_of clock s) cs op), s')"
      "saved_conditions (reread (id_of clock s) cs op) = saved_conditions op"
      using operation_reread [OF r(1,2)] op(2) by blast
    have "typed_rule (reread (id_of clock s) cs op)" using normalizeOperation_wf [OF o(1)] op_wf_typed by blast
    then show ?thesis
      using o reread_fields [OF r(1,2) o(2)] reread_ok [OF r] ok_not_blank op(2) by (auto simp: P_def payload_fields)
  qed
  from map_ids_all [of "map operation_payload ops" "normalizeOperation clock" P s, OF this]
  obtain ops' s' where m: "map_ids (normalizeOperation clock) s (map operation_payload ops) = (Some ops', s')"
    "list_all2 P (map operation_payload ops) ops'" by blast
  have "map operation_payload ops' = vs \<and> (\<forall>op \<in> set ops'. rule_error op = None \<and> sound_headers op \<and> \<not> isOperationBlank op)" if "list_all2 P vs ops'" for vs
    using that by (induction rule: list_all2_induct) (auto simp: P_def)
  then show ?thesis using m by blast
qed

lemma saved_text:
  assumes t: "\<And>k n. t k n \<noteq> []" and b: "buildOperationsJson ops True t = Inr s" "s \<noteq> []"
  defines "kept \<equiv> filter (\<lambda>op. \<not> isOperationBlank op) ops"
  shows "kept \<noteq> []" "\<forall>op \<in> set kept. rule_error op = None \<and> sound_headers op" "s = stringify2 (JObj (ops_payload (map operation_payload kept)))"
  using b validate_none [OF t] unfolding buildOperationsJson_def kept_def validateOperations_def
  by (auto simp: Let_def split: if_splits)

lemma reopen_build:
  assumes t: "\<And>k n. t k n \<noteq> []" and b: "buildOperationsJson ops True t = Inr s" "s \<noteq> []"
    and r: "\<forall>op \<in> set ops. typed_rule op \<and> (isOperationBlank op \<or> readable_rule op)"
  shows "\<exists>st k'. parseInitialState clock k s = (Some st, k') \<and> es_editMode st = VisualEdit \<and> es_visualMode st = OperationsMode \<and>
    es_jsonText st = s \<and> buildOperationsJson (es_operations st) True t = Inr s"
proof -
  define kept where "kept = filter (\<lambda>op. \<not> isOperationBlank op) ops"
  note k = saved_text [OF t b, folded kept_def]
  have all: "\<forall>op \<in> set kept. typed_rule op \<and> readable_rule op \<and> rule_error op = None \<and> sound_headers op" using k(2) r by (auto simp: kept_def)
  obtain ops' k' where o: "map_ids (normalizeOperation clock) k (map operation_payload kept) = (Some ops', k')"
    "map operation_payload ops' = map operation_payload kept" "\<forall>op \<in> set ops'. rule_error op = None \<and> sound_headers op \<and> \<not> isOperationBlank op"
    using operations_reread [OF all] by blast
  have "plain_obj (ops_payload (map operation_payload kept))"
    using all payload_plain by (auto simp: ops_payload_def plain_obj_def word_keys_def field_names)
  then have p: "json_plain (JObj (ops_payload (map operation_payload kept)))" by (rule plain_obj_json)
  have parse: "json_parse (js_trim s) = Some (JObj (ops_payload (map operation_payload kept)))"
    unfolding k(3) js_trim_id [OF stringify2_trimmed] by (rule json_pretty_roundtrip [OF p])
  have tr: "js_trim s = s" unfolding k(3) by (rule js_trim_id [OF stringify2_trimmed])
  have f: "filter (\<lambda>op. \<not> isOperationBlank op) ops' = ops'" "ops' \<noteq> []" using o k(1) by auto
  have "buildOperationsJson ops' True t = Inr s"
    unfolding buildOperationsJson_def f(1) validateOperations_def Let_def using f(2) o validate_none [OF t] k(3) by auto
  moreover have "parseInitialState clock k s = (Some \<lparr>es_editMode = VisualEdit, es_visualMode = OperationsMode, es_legacyValue = [],
      es_operations = ops', es_jsonText = s, es_jsonError = []\<rparr>, k')"
    using parse b(2) o(1) k(1,3) unfolding parseInitialState_def tr
    by (simp add: Let_def ops_payload_def get_one load_operations_def)
  ultimately show ?thesis by auto
qed

subsection \<open>Saving\<close>

definition field_text :: "json \<Rightarrow> jsstr \<Rightarrow> jsstr" where
  \<comment> \<open>a field of a saved rule, empty if it is missing\<close>
  "field_text v k = (case js_prop (Some v) k of Some (JStr s) \<Rightarrow> s | _ \<Rightarrow> [])"

definition complete_rule :: "json \<Rightarrow> bool" where
  \<comment> \<open>a saved rule has the fields its mode needs\<close>
  "complete_rule v = (let mode = field_text v ''mode'' in
     mode \<in> set OPERATION_MODE_VALUES \<and> (\<not> mm_path (meta_of mode) \<or> field_text v ''path'' \<noteq> []) \<and>
     (mode \<notin> set FROM_REQUIRED_MODES \<or> field_text v ''from'' \<noteq> []) \<and> (mode \<notin> set TO_REQUIRED_MODES \<or> field_text v ''to'' \<noteq> []) \<and>
     (mode \<noteq> ''pass_headers'' \<or> parsePassHeaderNames (case js_prop (Some v) ''value'' of Some w \<Rightarrow> w | None \<Rightarrow> JNull) \<noteq> []))"

definition saved_whole :: "ParamOverrideOperation \<Rightarrow> bool" where
  \<comment> \<open>a rule of the editor is saved with all that its mode needs; a value that it needs was entered and is saved as it was entered\<close>
  "saved_whole op = (complete_rule (operation_payload op) \<and>
     (o_mode op \<notin> set VALUE_REQUIRED_MODES \<or>
        \<not> blank (o_value_text op) \<and> js_prop (Some (operation_payload op)) ''value'' = Some (parseLooseValue (o_value_text op))))"

lemma payload_complete:
  assumes t: "typed_rule op" and ok: "rule_error op = None" "sound_headers op"
  shows "saved_whole op"
proof -
  note get = fields_get [OF typed_mode [OF t]] and req = required_modes
  have m: "field_text (JObj (op_fields op)) ''mode'' = o_mode op" by (simp add: field_text_def get)
  have v: "''pass_headers'' \<in> set VALUE_REQUIRED_MODES" by (simp add: VALUE_REQUIRED_MODES_def)
  have "o_mode op \<in> set OPERATION_MODE_VALUES" using t by (simp add: typed_rule_def)
  then show ?thesis using ok req v
    unfolding saved_whole_def payload_fields complete_rule_def m Let_def rule_ok_iff [OF typed_mode [OF t]] sound_iff [OF typed_mode [OF t]] blank_def
    by (auto simp: field_text_def get)
qed

definition kept_rules :: "EditorDialog \<Rightarrow> ParamOverrideOperation list" where
  "kept_rules ed = filter (\<lambda>op. \<not> isOperationBlank op) (ed_operations ed)"

lemma saved_complete:
  assumes t: "\<And>k n. t k n \<noteq> []" and w: "editor_wf clock ed" and b: "buildOperationsJson (ed_operations ed) True t = Inr s"
  shows "s = (if kept_rules ed = [] then [] else stringify2 (JObj (ops_payload (map operation_payload (kept_rules ed))))) \<and>
     list_all saved_whole (kept_rules ed)"
proof (cases "kept_rules ed = []")
  case True
  then show ?thesis using b by (simp add: buildOperationsJson_def kept_rules_def)
next
  case False
  then have s: "s = stringify2 (JObj (ops_payload (map operation_payload (kept_rules ed))))"
    "\<forall>op \<in> set (kept_rules ed). rule_error op = None \<and> sound_headers op"
    using b validate_none [OF t] unfolding buildOperationsJson_def kept_rules_def validateOperations_def
    by (auto simp: Let_def split: if_splits)
  moreover have "typed_rule op" if "op \<in> set (kept_rules ed)" for op
    using that w op_wf_typed by (auto simp: kept_rules_def editor_wf_def ops_wf_def)
  ultimately show ?thesis using False payload_complete by (simp add: list_all_iff)
qed

text \<open>C11. What the visual editor saves, after any sequence of actions. In the mode with rules it is the list of the rules
  that are not blank (the empty text if there is none), and each of them has a known mode, the path, source and target that its mode
  needs, header names if it passes headers, and, if its mode needs a value, the value that was entered, which is not blank: an incomplete
  rule is never saved. In the legacy mode it is the empty text for a blank text and otherwise the JSON object that the text
  denotes. (The messages of the translator are not empty.)\<close>

theorem saved_rules_complete:
  assumes "\<And>k n. t k n \<noteq> []" "list_all typed_action as" "ed = fold (editor_step clock t) as (initial_dialog clock seed)"
    "ed_editMode ed = VisualEdit" "ed_saved (handleSave t ed) = ed_saved ed @ [s]"
  shows "case ed_visualMode ed of
      OperationsMode \<Rightarrow> s = (if kept_rules ed = [] then [] else stringify2 (JObj (ops_payload (map operation_payload (kept_rules ed))))) \<and>
        list_all saved_whole (kept_rules ed)
    | LegacyMode \<Rightarrow> if blank (ed_legacyValue ed) then s = []
        else (\<exists>kvs. json_parse (js_trim (ed_legacyValue ed)) = Some (JObj kvs) \<and> s = stringify2 (JObj kvs))"
proof -
  have w: "editor_wf clock ed" unfolding assms(3) by (rule editor_run_wf [OF assms(2)])
  have b: "buildVisualJson t ed = Inr s"
    using assms(4,5) by (auto simp: handleSave_def toast_error_def split: sum.splits)
  show ?thesis
  proof (cases "ed_visualMode ed")
    case OperationsMode
    then show ?thesis using b saved_complete [OF _ w, of t s] assms(1) by (simp add: buildVisualJson_def)
  next
    case LegacyMode
    then show ?thesis using b by (auto simp: buildVisualJson_def blank_def Let_def split: if_splits option.splits json.splits)
  qed
qed

theorem saved_rules_complete_witness:
  "let ed = fold (editor_step (\<lambda>_. 0) plain_t) sample_actions (initial_dialog (\<lambda>_. 0) 0) in
   ed_saved (handleSave plain_t ed) =
     [stringify2 (JObj (ops_payload [JObj [(''mode'', JStr ''copy''), (''from'', JStr ''a''), (''to'', JStr ''b'')]]))] \<and>
   length (kept_rules ed) = 1 \<and> list_all saved_whole (kept_rules ed)"
proof -
  let ?ed = "fold (editor_step (\<lambda>_. 0) plain_t) sample_actions (initial_dialog (\<lambda>_. 0) 0)"
  let ?s = "stringify2 (JObj (ops_payload [JObj [(''mode'', JStr ''copy''), (''from'', JStr ''a''), (''to'', JStr ''b'')]]))"
  have e: "ed_editMode ?ed = VisualEdit" "ed_visualMode ?ed = OperationsMode" "ed_saved ?ed = []" "list_all typed_action sample_actions"
    "ed_saved (handleSave plain_t ?ed) = [?s]" "length (kept_rules ?ed) = 1" by code_simp+
  moreover have "plain_t k n \<noteq> []" for k n by (simp add: plain_t_def int_to_str_def split: option.split)
  ultimately show ?thesis using saved_rules_complete [of plain_t sample_actions ?ed "\<lambda>_. 0" 0 ?s] by (simp add: Let_def)
qed

text \<open>C12. The rules that the visual editor saved (its mode with rules) are read back when the dialog is opened again: it shows the same
  JSON text, in the visual mode, and saving writes the same text, if no value is the JSON text of a string that is
  empty, has blanks around it or is JSON text itself. (A text that was saved in the JSON mode may hold more than rules, which the
  visual editor drops.)\<close>

theorem reopen_saves_same:
  assumes "\<And>k n. t k n \<noteq> []" "editor_wf clock ed" "ed_visualMode ed = OperationsMode" "buildVisualJson t ed = Inr s" "s \<noteq> []"
    "list_all (\<lambda>op. isOperationBlank op \<or> readable_rule op) (ed_operations ed)"
  shows "\<exists>ed'. openDialog clock s ed = Some ed' \<and> ed_editMode ed' = VisualEdit \<and> ed_visualMode ed' = OperationsMode \<and> ed_jsonText ed' = s \<and>
    buildVisualJson t ed' = Inr s"
proof -
  have r: "\<forall>op \<in> set (ed_operations ed). typed_rule op \<and> (isOperationBlank op \<or> readable_rule op)"
    using assms(2,6) op_wf_typed by (auto simp: editor_wf_def ops_wf_def list_all_iff)
  have b: "buildOperationsJson (ed_operations ed) True t = Inr s" using assms(3,4) by (simp add: buildVisualJson_def)
  obtain st k' where "parseInitialState clock (ed_localIdSeed ed) s = (Some st, k')" "es_editMode st = VisualEdit" "es_visualMode st = OperationsMode"
    "es_jsonText st = s" "buildOperationsJson (es_operations st) True t = Inr s"
    using reopen_build [OF assms(1) b assms(5) r] by blast
  then show ?thesis by (auto simp: openDialog_def buildVisualJson_def)
qed

theorem reopen_saves_same_witness:
  "\<exists>ed'. openDialog (\<lambda>_. 0) (stringify2 (JObj (ops_payload [JObj [(''mode'', JStr ''copy''), (''from'', JStr ''a''), (''to'', JStr ''b'')]])))
      (fold (editor_step (\<lambda>_. 0) plain_t) sample_actions (initial_dialog (\<lambda>_. 0) 0)) = Some ed' \<and>
    buildVisualJson plain_t ed' = Inr (stringify2 (JObj (ops_payload [JObj [(''mode'', JStr ''copy''), (''from'', JStr ''a''), (''to'', JStr ''b'')]])))"
proof -
  let ?ed = "fold (editor_step (\<lambda>_. 0) plain_t) sample_actions (initial_dialog (\<lambda>_. 0) 0)"
  let ?s = "stringify2 (JObj (ops_payload [JObj [(''mode'', JStr ''copy''), (''from'', JStr ''a''), (''to'', JStr ''b'')]]))"
  have "list_all typed_action sample_actions" by code_simp
  then have "editor_wf (\<lambda>_. 0) ?ed" by (rule editor_run_wf)
  moreover have "ed_visualMode ?ed = OperationsMode" "buildVisualJson plain_t ?ed = Inr ?s" "?s \<noteq> []"
    "list_all (\<lambda>op. isOperationBlank op \<or> readable_rule op) (ed_operations ?ed)" by code_simp+
  moreover have "plain_t k n \<noteq> []" for k n by (simp add: plain_t_def int_to_str_def split: option.split)
  ultimately show ?thesis using reopen_saves_same [of plain_t "\<lambda>_. 0" ?ed ?s] by blast
qed

definition quoted_number :: jsstr where
  \<comment> \<open>a text field that holds digits in quotes\<close>
  "quoted_number = json_quote ''123''"

lemma quoted_number_lost:
  \<comment> \<open>the string becomes a number when it is read back\<close>
  "parseLooseValue quoted_number = JStr ''123''" "parseLooseValue (value_text quoted_number) = JNum (num 123)"
  by code_simp+

definition mixed_text :: jsstr where
  \<comment> \<open>a text of the JSON mode with a parameter beside the rules\<close>
  "mixed_text = stringify2 (JObj [(''operations'', JArr [JObj [(''mode'', JStr ''delete''), (''path'', JStr ''a'')]]), (''temperature'', JNum (num 0))])"

lemma mixed_text_lost:
  "map_option (\<lambda>ed. (ed_editMode ed, ed_visualMode ed, buildVisualJson plain_t ed)) (openDialog (\<lambda>_. 0) mixed_text (initial_dialog (\<lambda>_. 0) 0)) =
     Some (VisualEdit, OperationsMode, Inr (stringify2 (JObj (ops_payload [JObj [(''mode'', JStr ''delete''), (''path'', JStr ''a'')]]))))"
  by code_simp

subsection \<open>Texts that cannot be opened\<close>

definition unreadable_rule :: "json \<Rightarrow> bool" where
  \<comment> \<open>\<open>null\<close>, or a condition \<open>null\<close>, or a logic without a text: an object with an own \<open>toString\<close>, or an array that holds one\<close>
  "unreadable_rule v = (v = JNull \<or> string_throws (js_or (js_prop (Some v) ''logic'') (JStr ''OR'')) \<or>
     (case js_prop (Some v) ''conditions'' of Some (JArr cs) \<Rightarrow> JNull \<in> set cs | _ \<Rightarrow> False))"

lemma map_ids_None:
  assumes "\<And>s v. fst (f s v) = None \<longleftrightarrow> P v"
  shows "fst (map_ids f s vs) = None \<longleftrightarrow> (\<exists>v \<in> set vs. P v)"
proof (induction vs arbitrary: s)
  case (Cons v vs)
  show ?case using assms [of s v] Cons.IH by (cases "f s v") (auto simp: case_prod_beta split: option.splits)
qed simp

lemma normalize_None: "fst (normalizeOperation clock s v) = None \<longleftrightarrow> unreadable_rule v"
proof -
  have c: "fst (map_ids (normalizeCondition clock) k cs) = None \<longleftrightarrow> JNull \<in> set cs" for k cs
    using map_ids_None [of "normalizeCondition clock" "\<lambda>v. v = JNull" k cs] by (auto simp: normalizeCondition_def nextLocalId_id)
  show ?thesis
  proof (cases "js_prop (Some v) ''conditions''")
    case None
    then show ?thesis by (simp add: normalizeOperation_def nextLocalId_id unreadable_rule_def)
  next
    case (Some w)
    then show ?thesis using c by (cases w) (auto simp: normalizeOperation_def nextLocalId_id unreadable_rule_def case_prod_beta)
  qed
qed

text \<open>C14. The dialog fails to open exactly on the JSON texts whose list of operations holds one that cannot be read: a \<open>null\<close>,
  as an operation or as one of the conditions of an operation (\<open>normalizeOperation\<close> and \<open>normalizeCondition\<close> read a property
  of it), or a logic whose conversion to a text throws (an object with its own \<open>toString\<close>, or an array that holds one). Nothing
  catches the exception. On every other text, JSON or not, the dialog opens.\<close>

theorem open_fails_iff_unreadable:
  "openDialog clock v ed = None \<longleftrightarrow>
     (case js_prop (json_parse (js_trim v)) ''operations'' of Some (JArr items) \<Rightarrow> js_trim v \<noteq> [] \<and> list_ex unreadable_rule items | _ \<Rightarrow> False)"
proof -
  let ?k = "ed_localIdSeed ed"
  have d: "fst (default_state clock ?k a b c x y) \<noteq> None" for a b c x y by (simp add: default_state_def split: prod.split)
  have l: "fst (load_operations clock ?k items) = None \<longleftrightarrow> list_ex unreadable_rule items" for items
    using map_ids_None [of "normalizeOperation clock" unreadable_rule ?k items, OF normalize_None]
    by (cases items) (auto simp: load_operations_def list_ex_iff apfst_def map_prod_def split: prod.splits)
  have "fst (parseInitialState clock ?k v) = None \<longleftrightarrow>
     (case js_prop (json_parse (js_trim v)) ''operations'' of Some (JArr items) \<Rightarrow> js_trim v \<noteq> [] \<and> list_ex unreadable_rule items | _ \<Rightarrow> False)"
  proof (cases "js_trim v = [] \<or> json_parse (js_trim v) = None")
    case True
    then show ?thesis using d by (auto simp: parseInitialState_def Let_def split: option.splits json.splits)
  next
    case False
    then obtain p where p: "json_parse (js_trim v) = Some p" by blast
    have "fst (case p of JObj _ \<Rightarrow> default_state clock ?k VisualEdit LegacyMode x x [] | _ \<Rightarrow> default_state clock ?k JsonEdit OperationsMode [] x []) \<noteq> None" for x
      using d by (cases p) simp_all
    note o = this [of "stringify2 p"]
    show ?thesis
    proof (cases "js_prop (Some p) ''operations''")
      case None
      then show ?thesis using o p False by (simp add: parseInitialState_def Let_def)
    next
      case (Some w)
      then show ?thesis using o p False l by (cases w) (simp_all add: parseInitialState_def Let_def split: prod.split, metis fst_conv)
    qed
  qed
  then show ?thesis by (cases "parseInitialState clock ?k v") (simp add: openDialog_def)
qed

subsection \<open>Drafts of prune rules and errors\<close>

lemma update_prune_cong:
  assumes same: "\<And>s x d s1. n \<le> s \<Longrightarrow> parsePruneObjectsDraft clock s x = (d, s1) \<Longrightarrow> u s1 d = u' s1 d"
    and mono: "\<And>s d d' s'. u' s d = (d', s') \<Longrightarrow> s \<le> s'"
  shows "n \<le> s \<Longrightarrow> update_prune clock i u s ops = update_prune clock i u' s ops"
proof (induction ops arbitrary: s)
  case (Cons op ops)
  obtain d s1 where 1: "parsePruneObjectsDraft clock s (o_value_text op) = (d, s1)" by fastforce
  obtain d2 s2 where 2: "u' s1 d = (d2, s2)" by fastforce
  have "n \<le> s2" using Cons.prems prune_draft_seed [OF 1] mono [OF 2] by linarith
  then show ?case using Cons.IH [of s] Cons.IH [of s2] Cons.prems same [OF Cons.prems 1] 1 2 by simp
qed simp

lemma old_rule_untouched:
  assumes "k < n" "n \<le> s" "parsePruneObjectsDraft clock s x = (d, s1)"
  shows "map (\<lambda>r. if pr_id r = id_of clock k then f r else r) (pd_rules d) = pd_rules d" "filter (\<lambda>r. pr_id r \<noteq> id_of clock k) (pd_rules d) = pd_rules d"
proof -
  have "pr_id r \<noteq> id_of clock k" if r: "r \<in> set (pd_rules d)" for r
  proof -
    obtain j where "s \<le> j" "pr_id r = id_of clock j" using prune_draft_seed [OF assms(3)] r by (auto simp: made_def)
    then show ?thesis using assms(1,2) id_of_inj by auto
  qed
  then show "map (\<lambda>r. if pr_id r = id_of clock k then f r else r) (pd_rules d) = pd_rules d"
    "filter (\<lambda>r. pr_id r \<noteq> id_of clock k) (pd_rules d) = pd_rules d"
    by (auto intro: map_idI simp: filter_id_conv)
qed

text \<open>The prune rules that the dialog shows cannot be changed or removed: every update parses the draft
  anew and gives its rules new ids, so no rule has the id that was shown (made earlier by the counter), and the update
  only writes the draft back as it is.\<close>

theorem prune_rule_edit_ignored:
  assumes "k < ed_localIdSeed ed"
  shows "updatePruneRule clock operationId (id_of clock k) patch ed = updatePruneObjectsDraft clock operationId (\<lambda>seed draft. (draft, seed)) ed \<and>
    removePruneRule clock operationId (id_of clock k) ed = updatePruneObjectsDraft clock operationId (\<lambda>seed draft. (draft, seed)) ed"
proof -
  let ?s = "ed_localIdSeed ed" and ?u = "\<lambda>seed draft. (draft, seed)"
  have "update_prune clock operationId (\<lambda>seed draft. (draft\<lparr>pd_rules := map (\<lambda>r. if pr_id r = id_of clock k then patch r else r) (pd_rules draft)\<rparr>, seed))
      ?s (ed_operations ed) = update_prune clock operationId ?u ?s (ed_operations ed)"
    using old_rule_untouched(1) [OF assms] by (intro update_prune_cong [of ?s]) simp_all
  moreover have "update_prune clock operationId (\<lambda>seed draft. (draft\<lparr>pd_rules := filter (\<lambda>r. pr_id r \<noteq> id_of clock k) (pd_rules draft)\<rparr>, seed))
      ?s (ed_operations ed) = update_prune clock operationId ?u ?s (ed_operations ed)"
    using old_rule_untouched(2) [OF assms] by (intro update_prune_cong [of ?s]) simp_all
  ultimately show ?thesis by (simp add: updatePruneRule_def removePruneRule_def updatePruneObjectsDraft_def)
qed

lemma blank_rule_dropped:
  \<comment> \<open>the rule that \<open>addPruneRule\<close> adds is not written\<close>
  "buildPruneObjectsValueText (d\<lparr>pd_simpleMode := False, pd_rules := pd_rules d @ [fst (normalizePruneRule clock s (JObj []))]\<rparr>) =
   buildPruneObjectsValueText (d\<lparr>pd_simpleMode := False\<rparr>)"
  by (simp add: buildPruneObjectsValueText_def normalizePruneRule_def nextLocalId_id string_prop_def get_app)

lemma sync_target_roundtrip:
  "js_trim key \<noteq> [] \<Longrightarrow> parseSyncTargetSpec (buildSyncTargetSpec ty key) = \<lparr>st_type = ty, st_key = js_trim key\<rparr>"
proof -
  assume k: "js_trim key \<noteq> []"
  define w where "w = (if ty = SyncHeader then ''header'' else ''json'')"
  have low: "js_toLowerCase (js_trim ''json'') = ''json''" "js_toLowerCase (js_trim ''header'') = ''header''" by code_simp+
  have t: "js_trim (w @ '':'' @ js_trim key) = w @ '':'' @ js_trim key"
    using js_trim_trimmed [of key] k by (intro js_trim_id) (auto simp: trimmed_def w_def js_ws_def)
  show ?thesis using k t by (cases ty) (simp_all add: buildSyncTargetSpec_def parseSyncTargetSpec_def w_def Let_def low)
qed

definition error_draft_ok :: "ReturnErrorDraft \<Rightarrow> bool" where
  "error_draft_ok d \<longleftrightarrow> \<not> re_simpleMode d \<and> trimmed (re_message d) \<and> trimmed (re_code d) \<and> trimmed (re_type d) \<and>
     (\<exists>n. 100 \<le> n \<and> n \<le> 599 \<and> re_statusCode d = num n)"

lemma error_draft_roundtrip: "error_draft_ok d \<Longrightarrow> parseReturnErrorDraft (buildReturnErrorValueText d) = d"
proof -
  assume ok: "error_draft_ok d"
  then obtain n where n: "100 \<le> n" "n \<le> 599" "re_statusCode d = num n" by (auto simp: error_draft_ok_def)
  have h: "http_status (num n) = num n" using n by (simp add: http_status_def js_isInteger_def js_le_def js_eq_def)
  define ob where "ob = put_when (\<not> re_skipRetry d) ''skip_retry'' (JBool False) (put_text ''type'' (re_type d) (put_text ''code'' (re_code d)
      [(''message'', JStr (re_message d)), (''status_code'', JNum (num n))]))"
  have b: "buildReturnErrorValueText d = json_stringify (JObj ob)"
    using ok n h by (simp add: buildReturnErrorValueText_def ob_def error_draft_ok_def js_trim_id)
  have k: "\<not> is_array_index ''message''" "\<not> is_array_index ''status_code''" "\<not> is_array_index ''code''" "\<not> is_array_index ''type''"
    "\<not> is_array_index ''skip_retry''" by (simp_all add: is_array_index_def is_digit_def)
  have "plain_obj [(''message'', JStr (re_message d)), (''status_code'', JNum (num n))]"
    using json_plain_int [of n] n by (simp add: plain_obj_def word_keys_def k)
  then have "plain_obj ob" unfolding ob_def by (intro plain_put_when plain_put_text k) simp_all
  then have p: "json_plain (JObj ob)" by (rule plain_obj_json)
  have "json_object (js_trim (json_stringify (JObj ob))) = Some ob" "js_trim (json_stringify (JObj ob)) \<noteq> []"
    using parse_text_trimmed [OF p] by (simp_all add: json_object_def as_object_def)
  moreover have "obj_get ''message'' ob = Some (JStr (re_message d))" "obj_get ''status_code'' ob = Some (JNum (num n))"
    "obj_get ''code'' ob = (if re_code d = [] then None else Some (JStr (re_code d)))" "obj_get ''msg'' ob = None"
    "obj_get ''type'' ob = (if re_type d = [] then None else Some (JStr (re_type d)))"
    "obj_get ''skip_retry'' ob = (if re_skipRetry d then None else Some (JBool False))"
    unfolding ob_def by (simp_all add: put_when_get put_text_get get_app)
  ultimately show ?thesis using ok n h unfolding b parseReturnErrorDraft_def
    by (auto simp: Let_def js_or_def error_draft_ok_def js_trim_id)
qed

definition prune_dialog :: EditorDialog where
  "prune_dialog = (initial_dialog (\<lambda>_. 0) 0)\<lparr>ed_operations := [\<lparr>o_id = ''po_0_0'', o_description = [], o_path = [], o_mode = ''prune_objects'',
     o_from = [], o_to = [], o_value_text = json_stringify (JObj [(''conditions'', JArr [JObj [(''path'', JStr ''a''), (''mode'', JStr ''full'')]])]),
     o_keep_origin = False, o_logic = ''OR'', o_conditions = []\<rparr>], ed_localIdSeed := 5\<rparr>"

theorem prune_rule_edit_ignored_witness:
  "updatePruneRule (\<lambda>_. 0) ''po_0_0'' (id_of (\<lambda>_. 0) 4) (\<lambda>r. r\<lparr>pr_path := ''b''\<rparr>) prune_dialog =
     updatePruneObjectsDraft (\<lambda>_. 0) ''po_0_0'' (\<lambda>seed draft. (draft, seed)) prune_dialog \<and>
   map o_value_text (ed_operations (updatePruneRule (\<lambda>_. 0) ''po_0_0'' (id_of (\<lambda>_. 0) 4) (\<lambda>r. r\<lparr>pr_path := ''b''\<rparr>) prune_dialog)) =
     map o_value_text (ed_operations prune_dialog)"
proof -
  have "4 < ed_localIdSeed prune_dialog" by code_simp
  moreover have "map o_value_text (ed_operations (updatePruneRule (\<lambda>_. 0) ''po_0_0'' (id_of (\<lambda>_. 0) 4) (\<lambda>r. r\<lparr>pr_path := ''b''\<rparr>) prune_dialog)) =
     map o_value_text (ed_operations prune_dialog)" by code_simp
  ultimately show ?thesis using prune_rule_edit_ignored [of 4 prune_dialog "\<lambda>_. 0" "''po_0_0''" "\<lambda>r. r\<lparr>pr_path := ''b''\<rparr>"] by blast
qed

end
