(* ===== verification/Session_Stores.thy ===== *)
theory Session_Stores
  imports Js_Pretty Format_Utils
begin

section \<open>Session and notification stores\<close>

text \<open>
  Model of \<^verbatim>\<open>stores/auth-store.ts\<close>, \<^verbatim>\<open>features/auth/lib/storage.ts\<close>, \<^verbatim>\<open>stores/notification-store.ts\<close> and
  \<^verbatim>\<open>hooks/use-notifications.ts\<close>: who is signed in, kept in the browser's storage, and which announcements were read.

  The storage of the browser maps names to texts. \<open>setItem\<close> throws when the storage is full; the parameter \<open>fits\<close>
  says which contents it accepts. The persistence of the notification store is done by a library and is not
  modelled. The current day is a parameter.

  Shown: after a reload the same user is signed in, and signing out removes exactly the user; what was
  marked as read stays read; the key of an announcement is a bounded 32-bit hash.
\<close>

subsection \<open>The storage of the browser\<close>

type_synonym storage = "jsstr obj"

definition getItem :: "jsstr \<Rightarrow> storage \<Rightarrow> jsstr option" where
  "getItem k st = obj_get k st"

definition setItem :: "(storage \<Rightarrow> bool) \<Rightarrow> jsstr \<Rightarrow> jsstr \<Rightarrow> storage \<Rightarrow> storage option" where
  "setItem fits k v st = (if fits (obj_set k v st) then Some (obj_set k v st) else None)"

definition removeItem :: "jsstr \<Rightarrow> storage \<Rightarrow> storage" where
  "removeItem k st = obj_del k st"

definition set_or_keep :: "(storage \<Rightarrow> bool) \<Rightarrow> jsstr \<Rightarrow> jsstr \<Rightarrow> storage \<Rightarrow> storage" where
  \<comment> \<open>\<open>setItem\<close> whose exception is caught and logged\<close>
  "set_or_keep fits k v st = (case setItem fits k v st of Some st' \<Rightarrow> st' | None \<Rightarrow> st)"

subsection \<open>The signed-in user\<close>

record AuthStore =
  au_user :: json
  au_storage :: storage

definition initUser :: "storage \<Rightarrow> json \<times> storage" where
  "initUser st = (case getItem ''user'' st of
       None \<Rightarrow> (JNull, st)
     | Some saved \<Rightarrow>
         if saved = [] then (JNull, st)
         else (case json_parse saved of Some v \<Rightarrow> (v, st) | None \<Rightarrow> (JNull, removeItem ''user'' st)))"

definition useAuthStore :: "storage \<Rightarrow> AuthStore" where
  "useAuthStore st = (let (u, st') = initUser st in \<lparr>au_user = u, au_storage = st'\<rparr>)"

definition setUser :: "(storage \<Rightarrow> bool) \<Rightarrow> json \<Rightarrow> AuthStore \<Rightarrow> AuthStore" where
  \<comment> \<open>an exception of \<open>setItem\<close> leaves the store as it is\<close>
  "setUser fits user a =
     (if js_truthy (Some user) then
        (case setItem fits ''user'' (json_stringify user) (au_storage a) of
           None \<Rightarrow> a
         | Some st \<Rightarrow> a\<lparr>au_storage := st, au_user := user\<rparr>)
      else a\<lparr>au_storage := removeItem ''user'' (au_storage a), au_user := user\<rparr>)"

definition resetAuth :: "AuthStore \<Rightarrow> AuthStore" where
  "resetAuth a = a\<lparr>au_storage := removeItem ''user'' (au_storage a), au_user := JNull\<rparr>"

definition saveUserId :: "(storage \<Rightarrow> bool) \<Rightarrow> json \<Rightarrow> storage \<Rightarrow> storage" where
  "saveUserId fits userId st = set_or_keep fits ''uid'' (js_String userId) st"

definition getUserId :: "storage \<Rightarrow> jsstr option" where
  "getUserId st = getItem ''uid'' st"

definition removeUserId :: "storage \<Rightarrow> storage" where
  "removeUserId st = removeItem ''uid'' st"

definition getAffiliateCode :: "storage \<Rightarrow> jsstr" where
  "getAffiliateCode st = (case getItem ''aff'' st of Some c \<Rightarrow> c | None \<Rightarrow> [])"

definition saveAffiliateCode :: "(storage \<Rightarrow> bool) \<Rightarrow> jsstr \<Rightarrow> storage \<Rightarrow> storage" where
  "saveAffiliateCode fits code st = set_or_keep fits ''aff'' code st"

text \<open>The actions of the store, and of the sign-in pages on the same storage.\<close>

datatype auth_action = SetUser json | ResetUser | SaveUserId json | RemoveUserId | SaveAffiliate jsstr

fun auth_step :: "(storage \<Rightarrow> bool) \<Rightarrow> auth_action \<Rightarrow> AuthStore \<Rightarrow> AuthStore" where
  "auth_step fits (SetUser u) a = setUser fits u a"
| "auth_step fits ResetUser a = resetAuth a"
| "auth_step fits (SaveUserId u) a = a\<lparr>au_storage := saveUserId fits u (au_storage a)\<rparr>"
| "auth_step fits RemoveUserId a = a\<lparr>au_storage := removeUserId (au_storage a)\<rparr>"
| "auth_step fits (SaveAffiliate c) a = a\<lparr>au_storage := saveAffiliateCode fits c (au_storage a)\<rparr>"

text \<open>The type of a user: an object that JSON can carry, or \<open>null\<close>.\<close>

fun user_action :: "auth_action \<Rightarrow> bool" where
  "user_action (SetUser u) \<longleftrightarrow> u = JNull \<or> (\<exists>kvs. u = JObj kvs \<and> json_plain u)"
| "user_action _ \<longleftrightarrow> True"

definition auth_synced :: "AuthStore \<Rightarrow> bool" where
  \<comment> \<open>a reload of the page gives this store\<close>
  "auth_synced a \<longleftrightarrow> useAuthStore (au_storage a) = a"

lemma get_set_item: "setItem fits k v st = Some st' \<Longrightarrow> getItem j st' = (if j = k then Some v else getItem j st)"
  by (auto simp: setItem_def getItem_def obj_get_set split: if_splits)

lemma get_remove_item: "getItem j (removeItem k st) = (if j = k then None else getItem j st)"
  by (simp add: removeItem_def getItem_def obj_get_del)

lemma get_kept: "j \<noteq> k \<Longrightarrow> getItem j (set_or_keep fits k v st) = getItem j st"
  by (auto simp: set_or_keep_def get_set_item split: option.split)

lemma auth_syncedI: "initUser (au_storage a) = (au_user a, au_storage a) \<Longrightarrow> auth_synced a"
  by (simp add: auth_synced_def useAuthStore_def)

lemma auth_synced_init: "auth_synced a \<longleftrightarrow> initUser (au_storage a) = (au_user a, au_storage a)"
  by (cases a) (auto simp: auth_synced_def useAuthStore_def split: prod.splits)

lemma created_synced: "auth_synced (useAuthStore st)"
  by (rule auth_syncedI) (auto simp: useAuthStore_def initUser_def get_remove_item split: option.split)

lemma other_entry_synced:
  assumes "auth_synced a" "getItem ''user'' st = getItem ''user'' (au_storage a)"
  shows "auth_synced (a\<lparr>au_storage := st\<rparr>)"
proof (rule auth_syncedI)
  have u: "initUser (au_storage a) = (au_user a, au_storage a)" using assms(1) by (simp add: auth_synced_init)
  have "getItem ''user'' (removeItem ''user'' (au_storage a)) = None" by (simp add: get_remove_item)
  then have "(\<exists>s. getItem ''user'' (au_storage a) = Some s \<and> s \<noteq> [] \<and> json_parse s = None) \<Longrightarrow> False"
    using u by (auto simp: initUser_def)
  then show "initUser (au_storage (a\<lparr>au_storage := st\<rparr>)) = (au_user (a\<lparr>au_storage := st\<rparr>), au_storage (a\<lparr>au_storage := st\<rparr>))"
    using u assms(2) by (auto simp: initUser_def split: option.splits if_splits)
qed

lemma removed_synced: "auth_synced (a\<lparr>au_storage := removeItem ''user'' st, au_user := JNull\<rparr>)"
  by (rule auth_syncedI) (simp add: initUser_def get_remove_item)

lemma setUser_synced:
  assumes a: "auth_synced a" and u: "user_action (SetUser u)"
  shows "auth_synced (setUser fits u a)"
proof (cases "u = JNull")
  case True
  then show ?thesis using removed_synced by (simp add: setUser_def)
next
  case False
  then obtain kvs where k: "u = JObj kvs" "json_plain u" using u by auto
  show ?thesis
  proof (cases "setItem fits ''user'' (json_stringify u) (au_storage a)")
    case None
    then show ?thesis using a k(1) by (simp add: setUser_def)
  next
    case (Some st)
    have "json_stringify u \<noteq> []" using k(1) by simp
    then have "initUser st = (u, st)" using get_set_item [OF Some, of "''user''"] json_roundtrip [OF k(2)] by (simp add: initUser_def)
    then show ?thesis using Some k(1) by (intro auth_syncedI) (simp add: setUser_def)
  qed
qed

lemma auth_step_synced: "auth_synced a \<Longrightarrow> user_action e \<Longrightarrow> auth_synced (auth_step fits e a)"
  using removed_synced setUser_synced [of a]
  by (cases e) (auto simp: resetAuth_def saveUserId_def removeUserId_def saveAffiliateCode_def get_kept get_remove_item intro: other_entry_synced)

interpretation auth: guarded_machine "auth_step fits" user_action auth_synced for fits
  by unfold_locales (rule auth_step_synced)

text \<open>C28. Who is signed in survives a reload: whatever the storage held when the page was opened, after any
  sequence of sign-ins with objects that JSON can carry, sign-outs and writes to the other entries, reading the storage
  again gives the same user, even if the storage was full at some point.\<close>

theorem auth_store_synced:
  assumes "list_all user_action as"
  shows "useAuthStore (au_storage (fold (auth_step fits) as (useAuthStore st))) = fold (auth_step fits) as (useAuthStore st)"
  using auth.guarded_run [OF created_synced assms, of fits st] by (simp add: auth_synced_def)

definition sample_user :: json where
  "sample_user = JObj [(''id'', JNum (num 7)), (''username'', JStr ''neko'')]"

theorem auth_store_synced_witness:
  "useAuthStore (au_storage (fold (auth_step (\<lambda>_. True)) [SetUser sample_user, SaveUserId (JNum (num 7))] (useAuthStore [(''user'', ''{broken'')]))) =
     fold (auth_step (\<lambda>_. True)) [SetUser sample_user, SaveUserId (JNum (num 7))] (useAuthStore [(''user'', ''{broken'')]) \<and>
   au_user (fold (auth_step (\<lambda>_. True)) [SetUser sample_user, SaveUserId (JNum (num 7))] (useAuthStore [(''user'', ''{broken'')])) = sample_user"
proof -
  have "json_plain sample_user" by code_simp
  then have "list_all user_action [SetUser sample_user, SaveUserId (JNum (num 7))]" by (simp add: sample_user_def)
  from auth_store_synced [OF this, of "\<lambda>_. True" "[(''user'', ''{broken'')]"] show ?thesis by (rule conjI) code_simp
qed

text \<open>Signing out removes the user from the store and from the storage, and nothing else.\<close>

theorem sign_out_exact:
  "au_user (resetAuth a) = JNull \<and> getItem k (au_storage (resetAuth a)) = (if k = ''user'' then None else getItem k (au_storage a)) \<and>
   au_user (useAuthStore (au_storage (resetAuth a))) = JNull"
  by (simp add: resetAuth_def get_remove_item useAuthStore_def initUser_def)

subsection \<open>The notification store\<close>

record NotificationState =
  ns_lastReadNotice :: jsstr
  ns_readAnnouncementKeys :: "jsstr list"
  ns_closedUntilDate :: "jsstr option"

definition initial_notifications :: NotificationState where
  "initial_notifications = \<lparr>ns_lastReadNotice = [], ns_readAnnouncementKeys = [], ns_closedUntilDate = None\<rparr>"

definition markNoticeRead :: "jsstr \<Rightarrow> NotificationState \<Rightarrow> NotificationState" where
  "markNoticeRead noticeContent n = n\<lparr>ns_lastReadNotice := js_trim noticeContent\<rparr>"

definition markAnnouncementsRead :: "jsstr list \<Rightarrow> NotificationState \<Rightarrow> NotificationState" where
  "markAnnouncementsRead keys n = n\<lparr>ns_readAnnouncementKeys := uniq (ns_readAnnouncementKeys n @ keys)\<rparr>"

definition setClosedUntilDate :: "jsstr option \<Rightarrow> NotificationState \<Rightarrow> NotificationState" where
  "setClosedUntilDate date n = n\<lparr>ns_closedUntilDate := date\<rparr>"

definition isAnnouncementRead :: "jsstr \<Rightarrow> NotificationState \<Rightarrow> bool" where
  "isAnnouncementRead key n \<longleftrightarrow> key \<in> set (ns_readAnnouncementKeys n)"

definition isNoticeClosed :: "jsstr \<Rightarrow> NotificationState \<Rightarrow> bool" where
  "isNoticeClosed today n = (case ns_closedUntilDate n of None \<Rightarrow> False | Some d \<Rightarrow> d \<noteq> [] \<and> d = today)"

subsection \<open>Keys of announcements\<close>

definition notice_hash_step :: "int \<Rightarrow> char \<Rightarrow> int" where
  "notice_hash_step hash chr = to_int32 (to_int32 (hash * 2 ^ 5) - hash + of_char chr)"

definition base36_char :: "int \<Rightarrow> char" where
  "base36_char n = ''0123456789abcdefghijklmnopqrstuvwxyz'' ! nat n"

function base36 :: "int \<Rightarrow> jsstr" where
  "base36 n = (if n < 36 then [base36_char n] else base36 (n div 36) @ [base36_char (n mod 36)])"
  by pat_completeness auto
termination
  by (relation "measure nat") auto

declare base36.simps [simp del]

definition toString36 :: "int \<Rightarrow> jsstr" where
  \<comment> \<open>\<open>n.toString(36)\<close>\<close>
  "toString36 n = (if n < 0 then ''-'' @ base36 (- n) else base36 n)"

definition hashString :: "jsstr \<Rightarrow> jsstr" where
  "hashString input = (if input = [] then ''0'' else toString36 (foldl notice_hash_step 0 input))"

text \<open>
  An announcement is an object, or a missing value. The method \<open>trim\<close> of a value that is no string throws: \<open>None\<close>.
\<close>

definition trimmed_prop :: "json obj \<Rightarrow> jsstr \<Rightarrow> json option" where
  "trimmed_prop item k = (case js_or (obj_get k item) (JStr []) of JStr s \<Rightarrow> Some (JStr (js_trim s)) | _ \<Rightarrow> None)"

definition fingerprint :: "json obj \<Rightarrow> jsstr option" where
  "fingerprint item =
     (case (trimmed_prop item ''content'', trimmed_prop item ''extra'', trimmed_prop item ''title'', trimmed_prop item ''link'') of
        (Some content, Some extra, Some title, Some link) \<Rightarrow>
          Some (json_stringify (JObj [(''publishDate'', js_or (obj_get ''publishDate'' item) (JStr [])), (''content'', content), (''extra'', extra),
            (''type'', js_or (obj_get ''type'' item) (JStr [])), (''title'', title), (''link'', link)]))
      | _ \<Rightarrow> None)"

definition getAnnouncementKey :: "json obj option \<Rightarrow> jsstr option" where
  "getAnnouncementKey item = (case item of
       None \<Rightarrow> Some []
     | Some ob \<Rightarrow>
         (case obj_get ''id'' ob of
            Some i \<Rightarrow> if i \<noteq> JNull then Some (''id:'' @ js_String i) else map_option (\<lambda>f. ''hash:'' @ hashString f) (fingerprint ob)
          | None \<Rightarrow> map_option (\<lambda>f. ''hash:'' @ hashString f) (fingerprint ob)))"

subsection \<open>The hook\<close>

datatype notice_tab = NoticeTab | AnnouncementsTab

record NotificationsHook =
  nh_dialogOpen :: bool
  nh_activeTab :: notice_tab
  nh_store :: NotificationState

definition noticeContent :: "bool \<Rightarrow> jsstr option \<Rightarrow> jsstr" where
  \<comment> \<open>\<open>success\<close> and \<open>data\<close> of the response\<close>
  "noticeContent success data = (if success then js_trim (case data of Some d \<Rightarrow> d | None \<Rightarrow> []) else [])"

definition announcements :: "bool option \<Rightarrow> json obj option list option \<Rightarrow> json obj option list" where
  "announcements announcements_enabled items =
     (if announcements_enabled = Some True then take 20 (case items of Some l \<Rightarrow> l | None \<Rightarrow> []) else [])"

fun announcement_keys :: "json obj option list \<Rightarrow> jsstr list option" where
  \<comment> \<open>\<open>announcements.map(getAnnouncementKey)\<close>\<close>
  "announcement_keys [] = Some []"
| "announcement_keys (i # is) = (case getAnnouncementKey i of None \<Rightarrow> None | Some k \<Rightarrow> map_option (\<lambda>l. k # l) (announcement_keys is))"

record unread_counts =
  uc_notice :: int
  uc_announcements :: int
  uc_total :: int

definition unreadCounts :: "jsstr \<Rightarrow> json obj option list \<Rightarrow> NotificationState \<Rightarrow> unread_counts option" where
  "unreadCounts content items n =
     map_option (\<lambda>keys.
       let noticeUnread = (if content \<noteq> [] \<and> content \<noteq> ns_lastReadNotice n then 1 else 0);
           announcementsUnread = int (length (filter (\<lambda>k. \<not> isAnnouncementRead k n) keys)) in
       \<lparr>uc_notice = noticeUnread, uc_announcements = announcementsUnread, uc_total = noticeUnread + announcementsUnread\<rparr>)
     (announcement_keys items)"

definition handleOpenDialog :: "jsstr \<Rightarrow> notice_tab option \<Rightarrow> NotificationsHook \<Rightarrow> NotificationsHook" where
  "handleOpenDialog content tab h =
     h\<lparr>nh_store := (if content = [] then nh_store h else markNoticeRead content (nh_store h)),
       nh_activeTab := (case tab of Some x \<Rightarrow> x | None \<Rightarrow> NoticeTab), nh_dialogOpen := True\<rparr>"

definition handleTabChange :: "json obj option list \<Rightarrow> notice_tab \<Rightarrow> NotificationsHook \<Rightarrow> NotificationsHook" where
  \<comment> \<open>the tab is set before the keys are made, which may throw\<close>
  "handleTabChange items tab h =
     (let h1 = h\<lparr>nh_activeTab := tab\<rparr> in
      if tab = AnnouncementsTab \<and> length items > 0 then
        (case announcement_keys items of None \<Rightarrow> h1 | Some allKeys \<Rightarrow> h1\<lparr>nh_store := markAnnouncementsRead allKeys (nh_store h1)\<rparr>)
      else h1)"

definition handleCloseToday :: "jsstr \<Rightarrow> NotificationsHook \<Rightarrow> NotificationsHook" where
  "handleCloseToday today h = h\<lparr>nh_store := setClosedUntilDate (Some today) (nh_store h), nh_dialogOpen := False\<rparr>"

definition closeDialog :: "NotificationsHook \<Rightarrow> NotificationsHook" where
  "closeDialog h = h\<lparr>nh_dialogOpen := False\<rparr>"

text \<open>The actions carry what the server reported at that time.\<close>

datatype notice_action = OpenNotices jsstr "notice_tab option" | ChangeTab "json obj option list" notice_tab | CloseToday jsstr | CloseNotices

fun notice_step :: "notice_action \<Rightarrow> NotificationsHook \<Rightarrow> NotificationsHook" where
  "notice_step (OpenNotices content tab) h = handleOpenDialog content tab h"
| "notice_step (ChangeTab items tab) h = handleTabChange items tab h"
| "notice_step (CloseToday today) h = handleCloseToday today h"
| "notice_step CloseNotices h = closeDialog h"

subsection \<open>What was read stays read\<close>

definition read_inv :: "jsstr set \<Rightarrow> NotificationsHook \<Rightarrow> bool" where
  "read_inv ks h \<longleftrightarrow> ks \<subseteq> set (ns_readAnnouncementKeys (nh_store h))"

lemma read_step: "read_inv ks h \<Longrightarrow> read_inv ks (notice_step e h)"
  by (cases e) (auto simp: read_inv_def handleOpenDialog_def markNoticeRead_def handleTabChange_def markAnnouncementsRead_def handleCloseToday_def
      setClosedUntilDate_def closeDialog_def Let_def split: option.splits)

interpretation notices: event_machine notice_step "read_inv ks" for ks
  by unfold_locales (rule read_step)

lemma tab_change_reads:
  "announcement_keys items = Some keys \<Longrightarrow> read_inv (set keys) (handleTabChange items AnnouncementsTab h)"
  by (cases items) (auto simp: read_inv_def handleTabChange_def markAnnouncementsRead_def Let_def split: option.splits)

text \<open>Looking at the announcements marks them all as read, and they stay read: after the switch to their tab and
  any later actions of the dialog, with whatever the server reports in between, none of these announcements counts as
  unread.\<close>

theorem announcements_stay_read:
  assumes "announcement_keys items = Some keys"
  shows "map_option uc_announcements (unreadCounts content items (nh_store (fold notice_step as (notice_step (ChangeTab items AnnouncementsTab) h)))) = Some 0"
proof -
  have "read_inv (set keys) (fold notice_step as (notice_step (ChangeTab items AnnouncementsTab) h))"
    using notices.run_inv [OF tab_change_reads [OF assms]] by simp
  then have "filter (\<lambda>k. \<not> isAnnouncementRead k (nh_store (fold notice_step as (notice_step (ChangeTab items AnnouncementsTab) h)))) keys = []"
    by (auto simp: read_inv_def isAnnouncementRead_def filter_empty_conv)
  then show ?thesis using assms by (simp add: unreadCounts_def Let_def)
qed

definition sample_announcement :: "json obj option" where
  "sample_announcement = Some [(''content'', JStr ''Maintenance ''), (''type'', JStr ''warning'')]"

definition fresh_hook :: NotificationsHook where
  "fresh_hook = \<lparr>nh_dialogOpen = False, nh_activeTab = NoticeTab, nh_store = initial_notifications\<rparr>"

theorem announcements_stay_read_witness:
  "map_option uc_announcements (unreadCounts [] [sample_announcement] initial_notifications) = Some 1 \<and>
   map_option uc_announcements (unreadCounts [] [sample_announcement]
     (nh_store (fold notice_step [CloseToday ''Mon''] (notice_step (ChangeTab [sample_announcement] AnnouncementsTab) fresh_hook)))) = Some 0"
proof -
  obtain keys where "announcement_keys [sample_announcement] = Some keys"
    by (cases "announcement_keys [sample_announcement]") (auto simp: sample_announcement_def getAnnouncementKey_def fingerprint_def trimmed_prop_def obj_get_def js_or_def)
  from announcements_stay_read [OF this, of "[]" "[CloseToday ''Mon'']" fresh_hook] show ?thesis by (intro conjI) code_simp+
qed

subsection \<open>The hash of an announcement\<close>

lemma notice_hash_step: "notice_hash_step = hash_step"
  by (intro ext) (simp add: notice_hash_step_def hash_step_def add.commute add_diff_eq)

lemma base36_length: "0 \<le> n \<Longrightarrow> n < 36 ^ Suc k \<Longrightarrow> length (base36 n) \<le> Suc k"
proof (induction k arbitrary: n)
  case 0
  then show ?case by (simp add: base36.simps [of n])
next
  case (Suc k)
  show ?case
  proof (cases "n < 36")
    case True
    then show ?thesis by (simp add: base36.simps [of n])
  next
    case False
    have "n div 36 < 36 ^ Suc k" using Suc.prems(2) by (simp add: div_less_iff_less_mult)
    then show ?thesis using Suc.IH [of "n div 36"] Suc.prems(1) False by (subst base36.simps) simp
  qed
qed

text \<open>C30. The hash in the key of an announcement without id is the polynomial hash with base 31 of the bytes in
  32-bit words, wrap-around included, printed in base 36 with at most six digits and a sign.\<close>

theorem announcement_hash_exact:
  "hashString input = (if input = [] then ''0'' else toString36 (sint (word_hash input))) \<and> length (hashString input) \<le> 7"
proof -
  have h: "foldl notice_hash_step 0 input = sint (word_hash input)"
    using string_hash_word [of input] by (simp add: string_hash_def notice_hash_step)
  let ?n = "sint (word_hash input)"
  have r: "- (2 ^ 31) \<le> ?n" "?n < 2 ^ 31" using sint_ge [of "word_hash input"] sint_lt [of "word_hash input"] by simp_all
  have b: "length (base36 m) \<le> 6" if "0 \<le> m" "m \<le> 2 ^ 31" for m
    using base36_length [of m 5] that by simp
  have "length (toString36 ?n) \<le> 7" using r b [of "- ?n"] b [of ?n] by (cases "?n < 0") (simp_all add: toString36_def)
  then show ?thesis by (simp add: hashString_def h)
qed

end
