(* ===== verification/Dashboard_Data.thy ===== *)
theory Dashboard_Data
  imports Session_Stores Currency
begin

section \<open>Dashboard: time ranges, preferences, statistics and previews\<close>

text \<open>
  Model of \<^verbatim>\<open>lib/time.ts\<close> and of \<^verbatim>\<open>features/dashboard/lib\<close> without the charts: \<^verbatim>\<open>filters.ts\<close>,
  \<^verbatim>\<open>stats.ts\<close>, \<^verbatim>\<open>text.ts\<close> and \<^verbatim>\<open>api-info.ts\<close>, with the constants of the dashboard.

  A \<open>Date\<close> is the number of its milliseconds. What depends on the time zone of the browser is the parameter
  \<open>cal\<close>: the local start and end of a day, the addition of months, days and hours to the local
  date, and \<open>dayjs(ms).format\<close>. The current time is a parameter. The storage is that of \<open>Session_Stores\<close>;
  a \<open>setItem\<close> that throws is reported together with the storage it leaves. The requests of \<open>testUrlLatency\<close> are
  not modelled, only what becomes of their result.

  Shown: whatever the storage holds, the preferences that are read are valid ones; saved preferences are read back;
  a preview has a bounded length and holds no tag.
\<close>

subsection \<open>Times\<close>

datatype TimeGranularity = Hour | Day | Week

record Calendar =
  cal_startOfDay :: "jsnum \<Rightarrow> jsnum"
  cal_endOfDay :: "jsnum \<Rightarrow> jsnum"
  cal_addMonths :: "jsnum \<Rightarrow> jsnum \<Rightarrow> jsnum"
  cal_addDays :: "jsnum \<Rightarrow> jsnum \<Rightarrow> jsnum"
  cal_addHours :: "jsnum \<Rightarrow> jsnum \<Rightarrow> jsnum"
  cal_format :: dayjs

definition dateToUnixTimestamp :: "jsnum \<Rightarrow> jsnum" where
  "dateToUnixTimestamp date = js_floor (js_div date (num 1000))"

definition toStartOfDay :: "Calendar \<Rightarrow> jsnum \<Rightarrow> jsnum" where
  "toStartOfDay cal tsSec = js_floor (js_div (cal_startOfDay cal (js_mul tsSec (num 1000))) (num 1000))"

definition getStartOfDay :: "Calendar \<Rightarrow> jsnum \<Rightarrow> jsnum" where
  "getStartOfDay cal date = cal_startOfDay cal date"

definition getEndOfDay :: "Calendar \<Rightarrow> jsnum \<Rightarrow> jsnum" where
  "getEndOfDay cal date = cal_endOfDay cal date"

definition getNormalizedDateRange :: "Calendar \<Rightarrow> jsnum \<Rightarrow> jsnum \<Rightarrow> jsnum \<times> jsnum" where
  "getNormalizedDateRange cal days fromDate = (getStartOfDay cal (cal_addDays cal fromDate (js_neg days)), getEndOfDay cal fromDate)"

definition getRollingDateRange :: "jsnum \<Rightarrow> jsnum \<Rightarrow> jsnum \<times> jsnum" where
  "getRollingDateRange days fromDate =
     (js_sub fromDate (js_mul (js_mul (js_mul (js_mul days (num 24)) (num 60)) (num 60)) (num 1000)), fromDate)"

record TimeRange =
  tr_start :: jsnum
  tr_end :: jsnum

definition computeTimeRange :: "Calendar \<Rightarrow> jsnum \<Rightarrow> jsnum \<Rightarrow> jsnum option \<Rightarrow> jsnum option \<Rightarrow> bool \<Rightarrow> TimeRange" where
  "computeTimeRange cal dateNow days startDate endDate useStartOfDay =
     (let now = js_floor (js_div dateNow (num 1000)) in
      if useStartOfDay then
        (let defaultEnd = toStartOfDay cal now;
             e = (case endDate of Some d \<Rightarrow> toStartOfDay cal (dateToUnixTimestamp d) | None \<Rightarrow> defaultEnd);
             s = (case startDate of Some d \<Rightarrow> toStartOfDay cal (dateToUnixTimestamp d)
                  | None \<Rightarrow> js_sub e (js_mul (js_mul days (num 24)) (num 3600))) in
         \<lparr>tr_start = s, tr_end = js_sub (js_add e (num (24 * 3600))) (num 1)\<rparr>)
      else
        (let e = (case endDate of Some d \<Rightarrow> dateToUnixTimestamp d | None \<Rightarrow> js_add now (num 3600));
             s = (case startDate of Some d \<Rightarrow> dateToUnixTimestamp d
                  | None \<Rightarrow> js_sub e (js_mul (js_mul days (num 24)) (num 3600))) in
         \<lparr>tr_start = s, tr_end = e\<rparr>))"

definition formatDate :: "Calendar \<Rightarrow> jsnum \<Rightarrow> jsstr" where
  "formatDate cal tsSec = cal_format cal (js_mul tsSec (num 1000)) ''YYYY-MM-DD''"

definition formatDateTimeObject :: "Calendar \<Rightarrow> jsnum \<Rightarrow> jsstr" where
  "formatDateTimeObject cal date = cal_format cal date ''YYYY-MM-DD HH:mm:ss''"

definition formatChartTime :: "Calendar \<Rightarrow> TimeGranularity \<Rightarrow> jsnum \<Rightarrow> jsstr" where
  "formatChartTime cal granularity timestamp =
     (let d = js_mul timestamp (num 1000); result = cal_format cal d ''MM-DD'' in
      case granularity of
        Hour \<Rightarrow> result @ '' '' @ cal_format cal d ''HH'' @ '':00''
      | Week \<Rightarrow> result @ '' - '' @ cal_format cal (cal_addDays cal d (num 6)) ''MM-DD''
      | Day \<Rightarrow> result)"

definition addTimeToDate :: "Calendar \<Rightarrow> jsnum \<Rightarrow> jsnum \<Rightarrow> jsnum \<Rightarrow> jsnum \<Rightarrow> jsnum option" where
  "addTimeToDate cal months days hours baseDate =
     (if js_eq months (num 0) \<and> js_eq days (num 0) \<and> js_eq hours (num 0) then None
      else Some (cal_addHours cal (cal_addDays cal (cal_addMonths cal baseDate months) days) hours))"

subsection \<open>Chart preferences\<close>

definition TIME_GRANULARITY_STORAGE_KEY :: jsstr where
  "TIME_GRANULARITY_STORAGE_KEY = ''data_export_default_time''"

definition DASHBOARD_CHART_PREFERENCES_STORAGE_KEY :: jsstr where
  "DASHBOARD_CHART_PREFERENCES_STORAGE_KEY = ''dashboard_models_chart_preferences''"

record DashboardChartPreferences =
  consumptionDistributionChart :: jsstr
  modelAnalyticsChart :: jsstr
  defaultTimeRangeDays :: jsnum
  defaultTimeGranularity :: jsstr

definition DEFAULT_TIME_GRANULARITY :: jsstr where
  "DEFAULT_TIME_GRANULARITY = ''hour''"

definition DEFAULT_DASHBOARD_CHART_PREFERENCES :: DashboardChartPreferences where
  "DEFAULT_DASHBOARD_CHART_PREFERENCES = \<lparr>consumptionDistributionChart = ''bar'', modelAnalyticsChart = ''trend'',
     defaultTimeRangeDays = num 1, defaultTimeGranularity = DEFAULT_TIME_GRANULARITY\<rparr>"

definition TIME_RANGE_PRESETS :: "(jsstr \<times> jsnum) list" where
  "TIME_RANGE_PRESETS = [(''1 Day'', num 1), (''7 Days'', num 7), (''14 Days'', num 14), (''29 Days'', num 29)]"

definition TIME_RANGE_BY_GRANULARITY :: "jsstr \<Rightarrow> jsnum option" where
  "TIME_RANGE_BY_GRANULARITY g = obj_get g [(''hour'', num 1), (''day'', num 7), (''week'', num 30)]"

definition isTimeGranularity :: "json option \<Rightarrow> bool" where
  "isTimeGranularity v \<longleftrightarrow> v = Some (JStr ''hour'') \<or> v = Some (JStr ''day'') \<or> v = Some (JStr ''week'')"

definition isConsumptionDistributionChartType :: "json option \<Rightarrow> bool" where
  "isConsumptionDistributionChartType v \<longleftrightarrow> v = Some (JStr ''bar'') \<or> v = Some (JStr ''area'')"

definition isModelAnalyticsChartTab :: "json option \<Rightarrow> bool" where
  "isModelAnalyticsChartTab v \<longleftrightarrow> v = Some (JStr ''trend'') \<or> v = Some (JStr ''proportion'') \<or> v = Some (JStr ''top'')"

definition isTimeRangePresetDays :: "json option \<Rightarrow> bool" where
  "isTimeRangePresetDays v \<longleftrightarrow> list_ex (\<lambda>preset. v = Some (JNum (snd preset))) TIME_RANGE_PRESETS"

definition getLegacySavedGranularity :: "storage \<Rightarrow> jsstr" where
  "getLegacySavedGranularity st = (case getItem TIME_GRANULARITY_STORAGE_KEY st of
       Some saved \<Rightarrow> if isTimeGranularity (Some (JStr saved)) then saved else DEFAULT_TIME_GRANULARITY
     | None \<Rightarrow> DEFAULT_TIME_GRANULARITY)"

fun text_of :: "json option \<Rightarrow> jsstr" where
  "text_of (Some (JStr s)) = s"
| "text_of _ = []"

fun number_of :: "json option \<Rightarrow> jsnum" where
  "number_of (Some (JNum x)) = x"
| "number_of _ = NaN"

definition getSavedChartPreferences :: "storage \<Rightarrow> DashboardChartPreferences" where
  \<comment> \<open>reading a property of \<open>null\<close> throws, which is caught\<close>
  "getSavedChartPreferences st =
     (let fallbackPreferences = DEFAULT_DASHBOARD_CHART_PREFERENCES\<lparr>defaultTimeGranularity := getLegacySavedGranularity st\<rparr> in
      case getItem DASHBOARD_CHART_PREFERENCES_STORAGE_KEY st of
        None \<Rightarrow> fallbackPreferences
      | Some raw \<Rightarrow>
          if raw = [] then fallbackPreferences
          else (case json_parse raw of
              None \<Rightarrow> fallbackPreferences
            | Some parsed \<Rightarrow>
                if parsed = JNull then fallbackPreferences
                else (let p = (\<lambda>k. js_prop (Some parsed) k) in
                  \<lparr>consumptionDistributionChart =
                     (if isConsumptionDistributionChartType (p ''consumptionDistributionChart'') then text_of (p ''consumptionDistributionChart'')
                      else consumptionDistributionChart fallbackPreferences),
                   modelAnalyticsChart =
                     (if isModelAnalyticsChartTab (p ''modelAnalyticsChart'') then text_of (p ''modelAnalyticsChart'')
                      else modelAnalyticsChart fallbackPreferences),
                   defaultTimeRangeDays =
                     (if isTimeRangePresetDays (p ''defaultTimeRangeDays'') then number_of (p ''defaultTimeRangeDays'')
                      else defaultTimeRangeDays fallbackPreferences),
                   defaultTimeGranularity =
                     (if isTimeGranularity (p ''defaultTimeGranularity'') then text_of (p ''defaultTimeGranularity'')
                      else defaultTimeGranularity fallbackPreferences)\<rparr>)))"

definition preferences_json :: "DashboardChartPreferences \<Rightarrow> json" where
  "preferences_json p = JObj [(''consumptionDistributionChart'', JStr (consumptionDistributionChart p)),
     (''modelAnalyticsChart'', JStr (modelAnalyticsChart p)), (''defaultTimeRangeDays'', JNum (defaultTimeRangeDays p)),
     (''defaultTimeGranularity'', JStr (defaultTimeGranularity p))]"

definition saveChartPreferences :: "(storage \<Rightarrow> bool) \<Rightarrow> DashboardChartPreferences \<Rightarrow> storage \<Rightarrow> storage option" where
  \<comment> \<open>None when \<open>setItem\<close> throws: the storage is unchanged then\<close>
  "saveChartPreferences fits preferences st =
     setItem fits DASHBOARD_CHART_PREFERENCES_STORAGE_KEY (json_stringify (preferences_json preferences)) st"

definition saveGranularity :: "(storage \<Rightarrow> bool) \<Rightarrow> jsstr \<Rightarrow> storage \<Rightarrow> storage \<times> bool" where
  \<comment> \<open>the storage afterwards and whether an exception is thrown\<close>
  "saveGranularity fits granularity st =
     (case saveChartPreferences fits ((getSavedChartPreferences st)\<lparr>defaultTimeGranularity := granularity\<rparr>) st of
        None \<Rightarrow> (st, True)
      | Some st1 \<Rightarrow> (case setItem fits TIME_GRANULARITY_STORAGE_KEY granularity st1 of
            None \<Rightarrow> (st1, True)
          | Some st2 \<Rightarrow> (st2, False)))"

definition getSavedGranularity :: "storage \<Rightarrow> jsstr option \<Rightarrow> jsstr" where
  "getSavedGranularity st override = (case override of
       Some g \<Rightarrow> if g \<noteq> [] then g else defaultTimeGranularity (getSavedChartPreferences st)
     | None \<Rightarrow> defaultTimeGranularity (getSavedChartPreferences st))"

definition getDefaultDays :: "storage \<Rightarrow> jsstr option \<Rightarrow> jsnum option" where
  \<comment> \<open>None is \<open>undefined\<close>\<close>
  "getDefaultDays st granularity = (case granularity of
       Some g \<Rightarrow> if g \<noteq> [] then TIME_RANGE_BY_GRANULARITY (getSavedGranularity st (Some g))
                 else Some (defaultTimeRangeDays (getSavedChartPreferences st))
     | None \<Rightarrow> Some (defaultTimeRangeDays (getSavedChartPreferences st)))"

record DashboardFilters =
  df_start_timestamp :: "jsnum option"
  df_end_timestamp :: "jsnum option"
  df_time_granularity :: "jsstr option"
  df_username :: "jsstr option"

definition EMPTY_DASHBOARD_FILTERS :: DashboardFilters where
  "EMPTY_DASHBOARD_FILTERS = \<lparr>df_start_timestamp = None, df_end_timestamp = None, df_time_granularity = Some ''hour'', df_username = Some []\<rparr>"

definition buildDefaultDashboardFilters :: "jsnum \<Rightarrow> DashboardChartPreferences \<Rightarrow> DashboardFilters" where
  "buildDefaultDashboardFilters dateNow preferences =
     (let (s, e) = getRollingDateRange (defaultTimeRangeDays preferences) dateNow in
      EMPTY_DASHBOARD_FILTERS\<lparr>df_start_timestamp := Some s, df_end_timestamp := Some e,
        df_time_granularity := Some (defaultTimeGranularity preferences)\<rparr>)"

definition buildQueryParams :: "storage \<Rightarrow> TimeRange \<Rightarrow> (jsstr option \<times> jsstr option) option \<Rightarrow> json obj" where
  \<comment> \<open>\<open>filters\<close>: granularity and user name\<close>
  "buildQueryParams st timeRange filters =
     [(''start_timestamp'', JNum (tr_start timeRange)), (''end_timestamp'', JNum (tr_end timeRange)),
      (''default_time'', JStr (getSavedGranularity st (Option.bind filters fst)))] @
     (case Option.bind filters snd of Some u \<Rightarrow> if u \<noteq> [] then [(''username'', JStr u)] else [] | None \<Rightarrow> [])"

definition clean_step :: "jsstr \<times> json option \<Rightarrow> json obj \<Rightarrow> json obj" where
  "clean_step kv cleaned = (case snd kv of
       None \<Rightarrow> cleaned
     | Some JNull \<Rightarrow> cleaned
     | Some (JStr s) \<Rightarrow> if js_trim s \<noteq> [] then obj_set (fst kv) (JStr (js_trim s)) cleaned else cleaned
     | Some v \<Rightarrow> obj_set (fst kv) v cleaned)"

definition cleanFilters :: "(jsstr \<times> json option) list \<Rightarrow> json obj" where
  "cleanFilters filters = fold clean_step filters []"

subsection \<open>Statistics\<close>

record QuotaDataItem =
  qi_username :: "jsstr option"
  qi_model_name :: "jsstr option"
  qi_created_at :: jsnum
  qi_token_used :: "jsnum option"
  qi_count :: "jsnum option"
  qi_quota :: "jsnum option"

definition number_or_zero :: "jsnum option \<Rightarrow> jsnum" where
  \<comment> \<open>\<open>Number(v) || 0\<close>; \<open>Number(undefined)\<close> is NaN\<close>
  "number_or_zero v = (case v of Some x \<Rightarrow> num_or x (num 0) | None \<Rightarrow> num 0)"

definition safeDivide :: "jsnum \<Rightarrow> jsnum \<Rightarrow> nat \<Rightarrow> jsnum" where
  "safeDivide value divisor digits =
     (let result = js_div value divisor in
      if js_isNaN result \<or> \<not> js_isFinite result then num 0
      else (let factor = fl (10 ^ digits) in js_div (js_round (js_mul result factor)) factor))"

record Totals =
  t_quota :: jsnum
  t_count :: jsnum
  t_tokens :: jsnum

definition zero_totals :: Totals where
  "zero_totals = \<lparr>t_quota = num 0, t_count = num 0, t_tokens = num 0\<rparr>"

definition add_item :: "Totals \<Rightarrow> QuotaDataItem \<Rightarrow> Totals" where
  "add_item acc item = \<lparr>t_quota = js_add (t_quota acc) (number_or_zero (qi_quota item)),
     t_count = js_add (t_count acc) (number_or_zero (qi_count item)),
     t_tokens = js_add (t_tokens acc) (number_or_zero (qi_token_used item))\<rparr>"

definition calculateDashboardStats :: "QuotaDataItem list \<Rightarrow> Totals" where
  "calculateDashboardStats items = foldl add_item zero_totals items"

subsection \<open>Previews and latencies\<close>

function strip_tags :: "jsstr \<Rightarrow> jsstr" where
  \<comment> \<open>\<open>replace(/<[^>]*>/g, '')\<close>\<close>
  "strip_tags [] = []"
| "strip_tags (c # s) =
     (if c = CHR ''<'' \<and> CHR ''>'' \<in> set s then strip_tags (tl (dropWhile (\<lambda>d. d \<noteq> CHR ''>'') s)) else c # strip_tags s)"
  by pat_completeness auto

termination strip_tags
proof (relation "measure length")
  fix c :: char and s :: jsstr
  have "length (tl (dropWhile (\<lambda>d. d \<noteq> CHR ''>'') s)) \<le> length s"
    using length_dropWhile_le [of "\<lambda>d. d \<noteq> CHR ''>''" s] by (simp add: le_diff_conv)
  then show "(tl (dropWhile (\<lambda>d. d \<noteq> CHR ''>'') s), c # s) \<in> measure length" by simp
qed auto

definition is_markup :: "char \<Rightarrow> bool" where
  "is_markup c \<longleftrightarrow> c \<in> {CHR ''#'', CHR ''*'', CHR ''_''}"

definition getPreviewText :: "jsstr \<Rightarrow> nat \<Rightarrow> jsstr" where
  "getPreviewText content maxLength =
     (if content = [] then []
      else (let plainText = js_trim (filter (\<lambda>c. \<not> is_markup c) (strip_tags content)) in
            if maxLength < length plainText then take maxLength plainText @ ''...'' else plainText))"

definition getLatencyColorClass :: "jsnum \<Rightarrow> jsstr" where
  "getLatencyColorClass latency =
     (if js_lt latency (num 200) then ''text-green-600 dark:text-green-400''
      else if js_lt latency (num 500) then ''text-yellow-600 dark:text-yellow-400''
      else ''text-red-600 dark:text-red-400'')"

record PingStatus =
  ping_latency :: "jsnum option"
  ping_testing :: bool
  ping_error :: bool

definition testUrlLatency :: "(jsnum \<times> jsnum) option \<Rightarrow> PingStatus" where
  \<comment> \<open>the times before and after the request, None when it failed\<close>
  "testUrlLatency probe = (case probe of
       Some (startTime, endTime) \<Rightarrow> \<lparr>ping_latency = Some (js_round (js_sub endTime startTime)), ping_testing = False, ping_error = False\<rparr>
     | None \<Rightarrow> \<lparr>ping_latency = None, ping_testing = False, ping_error = True\<rparr>)"

definition getDefaultPingStatus :: PingStatus where
  "getDefaultPingStatus = \<lparr>ping_latency = None, ping_testing = False, ping_error = False\<rparr>"

subsection \<open>The preferences are always valid\<close>

definition valid_preferences :: "DashboardChartPreferences \<Rightarrow> bool" where
  "valid_preferences p \<longleftrightarrow> consumptionDistributionChart p \<in> {''bar'', ''area''} \<and> modelAnalyticsChart p \<in> {''trend'', ''proportion'', ''top''} \<and>
     defaultTimeRangeDays p \<in> set (map snd TIME_RANGE_PRESETS) \<and> defaultTimeGranularity p \<in> {''hour'', ''day'', ''week''}"

lemmas preference_checks = isTimeGranularity_def isConsumptionDistributionChartType_def isModelAnalyticsChartTab_def isTimeRangePresetDays_def
  TIME_RANGE_PRESETS_def

lemma checked_texts:
  "isConsumptionDistributionChartType v \<Longrightarrow> text_of v \<in> {''bar'', ''area''}"
  "isModelAnalyticsChartTab v \<Longrightarrow> text_of v \<in> {''trend'', ''proportion'', ''top''}"
  "isTimeRangePresetDays v \<Longrightarrow> number_of v \<in> set (map snd TIME_RANGE_PRESETS)"
  "isTimeGranularity v \<Longrightarrow> text_of v \<in> {''hour'', ''day'', ''week''}"
  by (auto simp: preference_checks)

lemma legacy_granularity: "getLegacySavedGranularity st \<in> {''hour'', ''day'', ''week''}"
  by (auto simp: getLegacySavedGranularity_def DEFAULT_TIME_GRANULARITY_def isTimeGranularity_def split: option.split)

lemma read_preferences_valid: "valid_preferences (getSavedChartPreferences st)"
proof -
  have fallback: "valid_preferences (DEFAULT_DASHBOARD_CHART_PREFERENCES\<lparr>defaultTimeGranularity := getLegacySavedGranularity st\<rparr>)"
    using legacy_granularity [of st] by (simp add: valid_preferences_def DEFAULT_DASHBOARD_CHART_PREFERENCES_def TIME_RANGE_PRESETS_def)
  have checked: "valid_preferences \<lparr>consumptionDistributionChart = (if isConsumptionDistributionChartType a then text_of a else consumptionDistributionChart f),
      modelAnalyticsChart = (if isModelAnalyticsChartTab b then text_of b else modelAnalyticsChart f),
      defaultTimeRangeDays = (if isTimeRangePresetDays c then number_of c else defaultTimeRangeDays f),
      defaultTimeGranularity = (if isTimeGranularity d then text_of d else defaultTimeGranularity f)\<rparr>" if "valid_preferences f" for a b c d f
    using that checked_texts [of a] checked_texts [of b] checked_texts [of c] checked_texts [of d] unfolding valid_preferences_def by simp
  show ?thesis
    unfolding getSavedChartPreferences_def Let_def using fallback checked [OF fallback] by (auto split: option.split)
qed

text \<open>Whatever the storage holds, also a text of another program or a damaged one, the preferences that are
  read from it name a known chart, a known tab, one of the offered ranges and a known granularity.\<close>

theorem saved_preferences_valid: "valid_preferences (getSavedChartPreferences st)"
  by (rule read_preferences_valid)

lemma preset_days_plain: "list_all (\<lambda>preset. json_plain (JNum (snd preset))) TIME_RANGE_PRESETS"
  by code_simp

lemma preferences_plain: "valid_preferences p \<Longrightarrow> json_plain (preferences_json p)"
proof -
  assume "valid_preferences p"
  then have "json_plain (JNum (defaultTimeRangeDays p))" using preset_days_plain by (auto simp: valid_preferences_def list_all_iff)
  moreover have "word_keys [(''consumptionDistributionChart'', JStr (consumptionDistributionChart p)),
     (''modelAnalyticsChart'', JStr (modelAnalyticsChart p)), (''defaultTimeRangeDays'', JNum (defaultTimeRangeDays p)),
     (''defaultTimeGranularity'', JStr (defaultTimeGranularity p))]" by (simp add: word_keys_def is_array_index_def is_digit_def)
  ultimately show ?thesis unfolding preferences_json_def by (intro plain_obj_json) (simp add: plain_obj_def)
qed

lemma preferences_read_back:
  assumes "valid_preferences p" "getItem DASHBOARD_CHART_PREFERENCES_STORAGE_KEY st = Some (json_stringify (preferences_json p))"
  shows "getSavedChartPreferences st = p"
proof -
  have "json_stringify (preferences_json p) \<noteq> []" by (simp add: preferences_json_def)
  moreover have "json_parse (json_stringify (preferences_json p)) = Some (preferences_json p)"
    by (rule json_roundtrip) (rule preferences_plain [OF assms(1)])
  moreover have "isConsumptionDistributionChartType (Some (JStr (consumptionDistributionChart p)))"
    "isModelAnalyticsChartTab (Some (JStr (modelAnalyticsChart p)))" "isTimeRangePresetDays (Some (JNum (defaultTimeRangeDays p)))"
    "isTimeGranularity (Some (JStr (defaultTimeGranularity p)))"
    using assms(1) by (auto simp: valid_preferences_def preference_checks)
  moreover have "js_prop (Some (preferences_json p)) ''consumptionDistributionChart'' = Some (JStr (consumptionDistributionChart p))"
    "js_prop (Some (preferences_json p)) ''modelAnalyticsChart'' = Some (JStr (modelAnalyticsChart p))"
    "js_prop (Some (preferences_json p)) ''defaultTimeRangeDays'' = Some (JNum (defaultTimeRangeDays p))"
    "js_prop (Some (preferences_json p)) ''defaultTimeGranularity'' = Some (JStr (defaultTimeGranularity p))" "preferences_json p \<noteq> JNull"
    by (simp_all add: preferences_json_def obj_get_def)
  ultimately show ?thesis by (simp add: getSavedChartPreferences_def Let_def assms(2) del: json_stringify.simps)
qed

text \<open>Saving a granularity that is offered, however full the storage is: either nothing is stored, or the
  preferences are the previous ones with the new granularity, even when the second write fails; without an exception the
  granularity is the new one.\<close>

theorem granularity_saved:
  assumes "g \<in> {''hour'', ''day'', ''week''}" "saveGranularity fits g st = (st', threw)"
  shows "st' = st \<and> threw \<or> getSavedChartPreferences st' = (getSavedChartPreferences st)\<lparr>defaultTimeGranularity := g\<rparr>"
proof -
  let ?p = "(getSavedChartPreferences st)\<lparr>defaultTimeGranularity := g\<rparr>"
  have v: "valid_preferences ?p" using read_preferences_valid [of st] assms(1) by (simp add: valid_preferences_def)
  have keys: "DASHBOARD_CHART_PREFERENCES_STORAGE_KEY \<noteq> TIME_GRANULARITY_STORAGE_KEY"
    by (simp add: DASHBOARD_CHART_PREFERENCES_STORAGE_KEY_def TIME_GRANULARITY_STORAGE_KEY_def)
  show ?thesis
  proof (cases "saveChartPreferences fits ?p st")
    case None
    then show ?thesis using assms(2) by (simp add: saveGranularity_def)
  next
    case (Some st1)
    then have "getItem DASHBOARD_CHART_PREFERENCES_STORAGE_KEY st1 = Some (json_stringify (preferences_json ?p))"
      unfolding saveChartPreferences_def by (simp add: get_set_item del: json_stringify.simps)
    moreover have "getItem DASHBOARD_CHART_PREFERENCES_STORAGE_KEY st' = getItem DASHBOARD_CHART_PREFERENCES_STORAGE_KEY st1"
      using assms(2) Some keys by (auto simp: saveGranularity_def get_set_item split: option.splits)
    ultimately show ?thesis using preferences_read_back [OF v] by simp
  qed
qed

theorem granularity_saved_witness:
  "getSavedChartPreferences (fst (saveGranularity (\<lambda>_. True) ''week'' [(''data_export_default_time'', ''day'')])) =
   DEFAULT_DASHBOARD_CHART_PREFERENCES\<lparr>defaultTimeGranularity := ''week''\<rparr>"
proof -
  let ?st = "[(''data_export_default_time'', ''day'')]"
  have t: "\<not> snd (saveGranularity (\<lambda>_. True) ''week'' ?st)"
    by (simp add: saveGranularity_def saveChartPreferences_def setItem_def del: json_stringify.simps)
  have p: "getSavedChartPreferences ?st = DEFAULT_DASHBOARD_CHART_PREFERENCES\<lparr>defaultTimeGranularity := ''day''\<rparr>"
    by (simp add: getSavedChartPreferences_def getItem_def obj_get_def DASHBOARD_CHART_PREFERENCES_STORAGE_KEY_def getLegacySavedGranularity_def
        TIME_GRANULARITY_STORAGE_KEY_def isTimeGranularity_def Let_def)
  from granularity_saved [of "''week''" "\<lambda>_. True" ?st "fst (saveGranularity (\<lambda>_. True) ''week'' ?st)" "snd (saveGranularity (\<lambda>_. True) ''week'' ?st)"]
  have "getSavedChartPreferences (fst (saveGranularity (\<lambda>_. True) ''week'' ?st)) = (getSavedChartPreferences ?st)\<lparr>defaultTimeGranularity := ''week''\<rparr>"
    using t by (metis insertCI prod.collapse)
  then show ?thesis by (simp add: p)
qed

subsection \<open>Filters, ranges and previews\<close>

fun clean_value :: "json option \<Rightarrow> json option" where
  "clean_value None = None"
| "clean_value (Some JNull) = None"
| "clean_value (Some (JStr s)) = (if js_trim s = [] then None else Some (JStr (js_trim s)))"
| "clean_value (Some v) = Some v"

lemma clean_step_value: "clean_step kv ob = (case clean_value (snd kv) of None \<Rightarrow> ob | Some v \<Rightarrow> obj_set (fst kv) v ob)"
  by (cases "snd kv" rule: clean_value.cases) (simp_all add: clean_step_def)

lemma clean_fold_get:
  "distinct (map fst filters) \<Longrightarrow>
   obj_get k (fold clean_step filters ob) = (case Option.bind (map_of filters k) clean_value of Some v \<Rightarrow> Some v | None \<Rightarrow> obj_get k ob)"
proof (induction filters arbitrary: ob)
  case (Cons f fs)
  then have "fst f \<notin> dom (map_of fs)" by (simp add: dom_map_of_conv_image_fst)
  then have "map_of fs (fst f) = None" by blast
  then show ?case using Cons by (auto simp: clean_step_value obj_get_set split: option.split)
qed simp

text \<open>Cleaning filters keeps exactly the fields that are set: texts are trimmed, blank texts, null and undefined
  fields are left out, every other value is kept.\<close>

theorem clean_filters_exact:
  "distinct (map fst filters) \<Longrightarrow> obj_get k (cleanFilters filters) = Option.bind (map_of filters k) clean_value"
  using clean_fold_get [of filters k "[]"] by (cases "Option.bind (map_of filters k) clean_value") (simp_all add: cleanFilters_def obj_get_def)

theorem clean_filters_exact_witness:
  "obj_get ''username'' (cleanFilters [(''username'', Some (JStr '' neko '')), (''token'', Some (JStr ''  ''))]) = Some (JStr ''neko'')"
proof -
  have "js_trim '' neko '' = ''neko''" by code_simp
  then show ?thesis
    using clean_filters_exact [of "[(''username'', Some (JStr '' neko '')), (''token'', Some (JStr ''  ''))]" "''username''"] by simp
qed

fun holds_tag :: "jsstr \<Rightarrow> bool" where
  "holds_tag [] = False"
| "holds_tag (c # s) \<longleftrightarrow> c = CHR ''<'' \<and> CHR ''>'' \<in> set s \<or> holds_tag s"

lemma strip_tags_subset: "set (strip_tags s) \<subseteq> set s"
proof (induction s rule: strip_tags.induct)
  case (2 c s)
  have "set (tl (dropWhile (\<lambda>d. d \<noteq> CHR ''>'') s)) \<subseteq> set s"
    by (metis list.set_sel(2) set_dropWhileD subsetI tl_Nil)
  then show ?case using 2 by auto
qed simp

lemma strip_tags_clean: "\<not> holds_tag (strip_tags s)"
  using strip_tags_subset by (induction s rule: strip_tags.induct) auto

lemma holds_tag_filter: "holds_tag (filter P s) \<Longrightarrow> holds_tag s"
  by (induction s) (auto split: if_splits)

lemma holds_tag_append: "holds_tag (s @ t) \<longleftrightarrow> holds_tag s \<or> holds_tag t \<or> CHR ''<'' \<in> set s \<and> CHR ''>'' \<in> set t"
  by (induction s) auto

lemma js_trim_part: "\<exists>a b. s = a @ js_trim s @ b"
proof -
  let ?m = "dropWhile js_ws s"
  have "s = takeWhile js_ws s @ ?m" by simp
  moreover have "?m = rev (dropWhile js_ws (rev ?m)) @ rev (takeWhile js_ws (rev ?m))"
    by (metis rev_append rev_rev_ident takeWhile_dropWhile_id)
  ultimately show ?thesis unfolding js_trim_def by metis
qed

text \<open>The preview of a text has no tag and no markup character and at most the given number of
  characters, not counting the dots that mark a cut.\<close>

theorem preview_text_plain:
  "\<not> holds_tag (getPreviewText content maxLength) \<and> length (getPreviewText content maxLength) \<le> maxLength + 3 \<and>
   list_all (\<lambda>c. \<not> is_markup c) (getPreviewText content maxLength)"
proof -
  let ?f = "filter (\<lambda>c. \<not> is_markup c) (strip_tags content)"
  let ?t = "js_trim ?f"
  have "\<not> holds_tag ?f" using holds_tag_filter strip_tags_clean by blast
  then have t: "\<not> holds_tag ?t" using js_trim_part [of ?f] holds_tag_append by metis
  have m: "list_all (\<lambda>c. \<not> is_markup c) ?t" using set_js_trim [of ?f] by (auto simp: list_all_iff)
  have "\<not> holds_tag (take maxLength ?t)" using t holds_tag_append [of "take maxLength ?t" "drop maxLength ?t"] by simp
  then have cut: "\<not> holds_tag (take maxLength ?t @ ''...'')" unfolding holds_tag_append by simp
  have "list_all (\<lambda>c. \<not> is_markup c) (take maxLength ?t)" using m by (metis append_take_drop_id list_all_append)
  then have cut2: "list_all (\<lambda>c. \<not> is_markup c) (take maxLength ?t @ ''...'')" by (simp add: is_markup_def)
  consider "getPreviewText content maxLength = []" | "getPreviewText content maxLength = take maxLength ?t @ ''...''"
    | "getPreviewText content maxLength = ?t" "length ?t \<le> maxLength"
    unfolding getPreviewText_def Let_def by (metis not_less)
  then show ?thesis using t m cut cut2 by cases simp_all
qed

end
