(* ===== verification/Dashboard_Charts.thy ===== *)
theory Dashboard_Charts
  imports Dashboard_Data Js_Map
begin

section \<open>Dashboard: charts\<close>

text \<open>
  Model of \<^verbatim>\<open>features/dashboard/lib/charts.ts\<close>: the rows of the model charts and of the user charts, their totals and
  their tooltips. Of the chart specifications only what depends on the data is kept: rows, colours, totals and the line
  that says that there is no data; the constant layout options are left out.

  The environment of the functions is a record: the calendar, the number formatter, the system configuration, the
  translation, the collation of \<open>localeCompare\<close> (\<open>ce_collate a b\<close> when \<open>a\<close> is not after \<open>b\<close>) and the colour schemes of
  the chart library.

  Shown: the aggregation in mutable maps is the grouping by time and model; the rows of every chart add up to the
  items they cover, with the \<open>Other\<close> bucket; the ranking shows the users with the highest quota and the trend of a user adds up
  to the ranked quota; with fewer than seven points in time, usage before the last seven intervals is not shown.
\<close>

record ChartEnv =
  ce_cal :: Calendar
  ce_intl :: Intl
  ce_state :: SystemConfigState
  ce_t :: "jsstr \<Rightarrow> jsstr"
  ce_collate :: "jsstr \<Rightarrow> jsstr \<Rightarrow> bool"
  ce_schemes :: "(nat option \<times> json list) list"

definition MAX_CHART_TREND_POINTS :: nat where
  "MAX_CHART_TREND_POINTS = 7"

definition getVChartDefaultColors :: "ChartEnv \<Rightarrow> nat \<Rightarrow> json list" where
  \<comment> \<open>the list of schemes of the library is not empty\<close>
  "getVChartDefaultColors env domainLength =
     (case List.find (\<lambda>item. case fst item of Some m \<Rightarrow> m = 0 \<or> domainLength \<le> m | None \<Rightarrow> True) (ce_schemes env) of
        Some scheme \<Rightarrow> snd scheme
      | None \<Rightarrow> if ce_schemes env = [] then [] else snd (last (ce_schemes env)))"

definition renderQuotaCompat :: "ChartEnv \<Rightarrow> jsnum \<Rightarrow> nat \<Rightarrow> jsstr" where
  "renderQuotaCompat env rawQuota digits =
     (let (cfg, meta) = getCurrencyDisplay (ce_state env) in
      case meta of
        TokensMeta _ \<Rightarrow> idecimal (ce_intl env) 3 rawQuota
      | _ \<Rightarrow>
         (let usd = js_div rawQuota (r_quotaPerUnit cfg);
              v = js_mul usd (meta_rate meta);
              fixed = js_toFixed v digits in
          if js_eq (js_Number_str fixed) (num 0) \<and> js_gt rawQuota (num 0) \<and> js_gt v (num 0)
          then meta_symbol meta @ js_toFixed (fl (1 / 10 ^ digits)) digits
          else meta_symbol meta @ fixed))"

definition formatInt :: "ChartEnv \<Rightarrow> jsnum \<Rightarrow> jsstr" where
  "formatInt env v = idecimal (ce_intl env) 0 v"

definition desc_le :: "('a \<Rightarrow> jsnum) \<Rightarrow> 'a \<Rightarrow> 'a \<Rightarrow> bool" where
  \<comment> \<open>the comparator \<open>(a, b) => f(b) - f(a)\<close> does not put \<open>a\<close> after \<open>b\<close>\<close>
  "desc_le f a b \<longleftrightarrow> \<not> js_lt (num 0) (js_sub (f b) (f a))"

subsection \<open>Aggregation\<close>

definition item_time :: "ChartEnv \<Rightarrow> TimeGranularity \<Rightarrow> QuotaDataItem \<Rightarrow> jsstr" where
  "item_time env g item = formatChartTime (ce_cal env) g (qi_created_at item)"

definition item_model :: "QuotaDataItem \<Rightarrow> jsstr" where
  "item_model item = (case qi_model_name item of Some m \<Rightarrow> if m = [] then ''Unknown'' else m | None \<Rightarrow> ''Unknown'')"

definition item_user :: "QuotaDataItem \<Rightarrow> jsstr" where
  "item_user item = (case qi_username item of Some u \<Rightarrow> if u = [] then ''unknown'' else u | None \<Rightarrow> ''unknown'')"

type_synonym model_map = "(jsstr, Totals) js_map"
type_synonym time_map = "(jsstr, model_map) js_map"

definition aggregate_item :: "ChartEnv \<Rightarrow> TimeGranularity \<Rightarrow> QuotaDataItem \<Rightarrow> time_map \<times> model_map \<Rightarrow> time_map \<times> model_map" where
  "aggregate_item env g item = (\<lambda>(timeModelMap, modelTotalsMap).
     (let timeKey = item_time env g item;
          model = item_model item;
          tm = (if map_get timeKey timeModelMap = None then map_set timeKey [] timeModelMap else timeModelMap);
          modelMap = map_get_or [] timeKey tm;
          existing = map_get_or zero_totals model modelMap;
          totalExisting = map_get_or zero_totals model modelTotalsMap in
      (map_set timeKey (map_set model (add_item existing item) modelMap) tm,
       map_set model (add_item totalExisting item) modelTotalsMap)))"

definition aggregate :: "ChartEnv \<Rightarrow> TimeGranularity \<Rightarrow> QuotaDataItem list \<Rightarrow> time_map \<times> model_map" where
  "aggregate env g items = fold (aggregate_item env g) items ([], [])"

definition interval_sec :: "TimeGranularity \<Rightarrow> int" where
  "interval_sec g = (case g of Week \<Rightarrow> 604800 | Day \<Rightarrow> 86400 | Hour \<Rightarrow> 3600)"

definition padded_times :: "ChartEnv \<Rightarrow> TimeGranularity \<Rightarrow> QuotaDataItem list \<Rightarrow> jsstr list" where
  "padded_times env g items =
     (let lastTime = foldl js_max NInf (map (\<lambda>item. num_or (qi_created_at item) (num 0)) items) in
      map (\<lambda>i. formatChartTime (ce_cal env) g
             (js_sub lastTime (js_mul (num (int (MAX_CHART_TREND_POINTS - 1 - i))) (num (interval_sec g)))))
        [0..<MAX_CHART_TREND_POINTS])"

definition fillTimePoints :: "ChartEnv \<Rightarrow> TimeGranularity \<Rightarrow> QuotaDataItem list \<Rightarrow> jsstr list \<Rightarrow> jsstr list" where
  "fillTimePoints env g items timePoints =
     (if MAX_CHART_TREND_POINTS \<le> length timePoints then timePoints else padded_times env g items)"

subsection \<open>Rows\<close>

record ChartPoint =
  cp_Time :: jsstr
  cp_Model :: jsstr
  cp_rawQuota :: jsnum
  cp_Usage :: jsnum
  cp_TimeSum :: jsnum

record TrendPoint =
  tp_Time :: jsstr
  tp_Model :: jsstr
  tp_Count :: jsnum

record CountRow =
  cr_Model :: jsstr
  cr_Count :: jsnum

definition stats_of :: "time_map \<Rightarrow> jsstr \<Rightarrow> jsstr \<Rightarrow> Totals option" where
  \<comment> \<open>\<open>timeModelMap.get(time)?.get(model)\<close>\<close>
  "stats_of tm time model = Option.bind (map_get time tm) (map_get model)"

definition raw_quota :: "time_map \<Rightarrow> jsstr \<Rightarrow> jsstr \<Rightarrow> jsnum" where
  "raw_quota tm time model = number_or_zero (map_option t_quota (stats_of tm time model))"

definition raw_count :: "time_map \<Rightarrow> jsstr \<Rightarrow> jsstr \<Rightarrow> jsnum" where
  "raw_count tm time model = number_or_zero (map_option t_count (stats_of tm time model))"

definition usage_of :: "jsnum \<Rightarrow> jsnum \<Rightarrow> jsnum" where
  "usage_of perUnit rawQuota =
     (let usd = (if js_truthy_num rawQuota then js_div rawQuota perUnit else num 0) in
      if js_truthy_num usd then js_Number_str (js_toFixed usd 4) else num 0)"

definition js_sum :: "jsnum list \<Rightarrow> jsnum" where
  \<comment> \<open>\<open>reduce((sum, x) => sum + x, 0)\<close>\<close>
  "js_sum xs = foldl js_add (num 0) xs"

definition line_block :: "jsnum \<Rightarrow> time_map \<Rightarrow> jsstr list \<Rightarrow> jsstr \<Rightarrow> ChartPoint list" where
  "line_block perUnit tm sortedModels time =
     (let timeData = map (\<lambda>model. \<lparr>cp_Time = time, cp_Model = model, cp_rawQuota = raw_quota tm time model,
            cp_Usage = usage_of perUnit (raw_quota tm time model), cp_TimeSum = num 0\<rparr>) sortedModels;
          timeSum = js_sum (map cp_rawQuota timeData) in
      map (\<lambda>item. item\<lparr>cp_TimeSum := timeSum\<rparr>) (sort_by (desc_le cp_rawQuota) timeData))"

definition time_le :: "ChartEnv \<Rightarrow> ('a \<Rightarrow> jsstr) \<Rightarrow> 'a \<Rightarrow> 'a \<Rightarrow> bool" where
  "time_le env f a b \<longleftrightarrow> ce_collate env (f a) (f b)"

definition line_values :: "ChartEnv \<Rightarrow> jsnum \<Rightarrow> time_map \<Rightarrow> jsstr list \<Rightarrow> jsstr list \<Rightarrow> ChartPoint list" where
  "line_values env perUnit tm sortedModels chartTimes =
     sort_by (time_le env cp_Time) (concat (map (line_block perUnit tm sortedModels) chartTimes))"

definition ranked_by :: "(Totals \<Rightarrow> jsnum) \<Rightarrow> model_map \<Rightarrow> CountRow list" where
  \<comment> \<open>the entries with \<open>Number(stats.x) || 0\<close>, highest first\<close>
  "ranked_by f totals = sort_by (desc_le cr_Count)
     (map (\<lambda>(model, stats). \<lparr>cr_Model = model, cr_Count = num_or (f stats) (num 0)\<rparr>) totals)"

definition MAX_AREA_MODELS :: nat where "MAX_AREA_MODELS = 15"
definition MAX_TREND_MODELS :: nat where "MAX_TREND_MODELS = 20"
definition MAX_RANK_MODELS :: nat where "MAX_RANK_MODELS = 20"

definition area_bucket :: "jsnum \<Rightarrow> time_map \<Rightarrow> jsstr \<Rightarrow> jsnum \<times> jsnum \<Rightarrow> jsstr \<Rightarrow> jsnum \<times> jsnum" where
  "area_bucket perUnit tm time prev model =
     (js_add (fst prev) (raw_quota tm time model),
      js_Number_str (js_toFixed (js_add (snd prev) (usage_of perUnit (raw_quota tm time model))) 4))"

definition area_block :: "jsnum \<Rightarrow> time_map \<Rightarrow> jsstr list \<Rightarrow> jsstr list \<Rightarrow> jsstr \<Rightarrow> jsstr \<Rightarrow> ChartPoint list" where
  "area_block perUnit tm sortedModels topAreaModels otherLabel time =
     (let timeSum = js_sum (map (raw_quota tm time) sortedModels);
          buckets = fold (group_step (\<lambda>model. if model \<in> set topAreaModels then model else otherLabel)
            (area_bucket perUnit tm time) (num 0, num 0)) sortedModels [] in
      map (\<lambda>(model, vals). \<lparr>cp_Time = time, cp_Model = model, cp_rawQuota = fst vals, cp_Usage = snd vals, cp_TimeSum = timeSum\<rparr>) buckets)"

definition area_values :: "ChartEnv \<Rightarrow> jsnum \<Rightarrow> time_map \<Rightarrow> model_map \<Rightarrow> jsstr list \<Rightarrow> jsstr \<Rightarrow> jsstr list \<Rightarrow> ChartPoint list" where
  "area_values env perUnit tm totals sortedModels otherLabel chartTimes =
     (let topAreaModels = map cr_Model (take MAX_AREA_MODELS (ranked_by t_quota totals)) in
      sort_by (time_le env cp_Time) (concat (map (area_block perUnit tm sortedModels topAreaModels otherLabel) chartTimes)))"

definition trend_block :: "time_map \<Rightarrow> jsstr list \<Rightarrow> jsstr list \<Rightarrow> jsstr \<Rightarrow> jsstr \<Rightarrow> TrendPoint list" where
  "trend_block tm topTrendModels otherTrendModels otherLabel time =
     map (\<lambda>model. \<lparr>tp_Time = time, tp_Model = model, tp_Count = raw_count tm time model\<rparr>) topTrendModels @
     (if otherTrendModels \<noteq> [] then [\<lparr>tp_Time = time, tp_Model = otherLabel, tp_Count = js_sum (map (raw_count tm time) otherTrendModels)\<rparr>] else [])"

definition trend_values :: "ChartEnv \<Rightarrow> time_map \<Rightarrow> model_map \<Rightarrow> jsstr \<Rightarrow> jsstr list \<Rightarrow> TrendPoint list" where
  "trend_values env tm totals otherLabel chartTimes =
     (let ranked = map cr_Model (ranked_by t_count totals) in
      sort_by (time_le env tp_Time)
        (concat (map (trend_block tm (take MAX_TREND_MODELS ranked) (drop MAX_TREND_MODELS ranked) otherLabel) chartTimes)))"

definition rank_values :: "model_map \<Rightarrow> jsstr \<Rightarrow> CountRow list" where
  "rank_values totals otherLabel =
     (let allRankValues = ranked_by t_count totals in
      if MAX_RANK_MODELS < length allRankValues then
        take MAX_RANK_MODELS allRankValues @
          [\<lparr>cr_Model = otherLabel, cr_Count = js_sum (map cr_Count (drop MAX_RANK_MODELS allRankValues))\<rparr>]
      else allRankValues)"

record ProcessedChartData =
  pc_noData :: bool
  pc_pie :: "CountRow list"
  pc_line :: "ChartPoint list"
  pc_area :: "ChartPoint list"
  pc_model_line :: "TrendPoint list"
  pc_rank :: "CountRow list"
  pc_colorDomain :: "jsstr list"
  pc_colorRange :: "json list"
  pc_totalQuotaDisplay :: jsstr
  pc_totalCountDisplay :: jsstr

definition total_of :: "(Totals \<Rightarrow> jsnum) \<Rightarrow> model_map \<Rightarrow> jsnum" where
  "total_of f totals = js_sum (map (\<lambda>x. num_or (f (snd x)) (num 0)) totals)"

definition processChartData :: "ChartEnv \<Rightarrow> TimeGranularity \<Rightarrow> QuotaDataItem list \<Rightarrow> ProcessedChartData" where
  "processChartData env g items =
     (if items = [] then
        \<lparr>pc_noData = True, pc_pie = [], pc_line = [], pc_area = [], pc_model_line = [], pc_rank = [], pc_colorDomain = [], pc_colorRange = [],
         pc_totalQuotaDisplay = renderQuotaCompat env (num 0) 2, pc_totalCountDisplay = formatInt env (num 0)\<rparr>
      else
        (let otherLabel = ce_t env ''Other'';
             perUnit = r_quotaPerUnit (fst (getCurrencyDisplay (ce_state env)));
             (tm, totals) = aggregate env g items;
             sortedTimes = sort_by js_str_le (map_keys tm);
             sortedModels = sort_by js_str_le (map_keys totals);
             chartTimes = fillTimePoints env g items sortedTimes;
             modelColorDomain = uniq (sortedModels @ [otherLabel]) in
         \<lparr>pc_noData = False,
          pc_pie = ranked_by t_count totals,
          pc_line = line_values env perUnit tm sortedModels chartTimes,
          pc_area = area_values env perUnit tm totals sortedModels otherLabel chartTimes,
          pc_model_line = trend_values env tm totals otherLabel chartTimes,
          pc_rank = rank_values totals otherLabel,
          pc_colorDomain = modelColorDomain,
          pc_colorRange = getVChartDefaultColors env (length modelColorDomain),
          pc_totalQuotaDisplay = renderQuotaCompat env (total_of t_quota totals) 2,
          pc_totalCountDisplay = formatInt env (total_of t_count totals)\<rparr>))"

subsection \<open>Tooltips\<close>

record TooltipLineItem =
  ti_key :: jsstr
  ti_value :: json
  ti_datum :: "json obj option"
  ti_fill :: "jsstr option"

definition MAX_TOOLTIP_MODELS :: nat where "MAX_TOOLTIP_MODELS = 15"

definition isOtherTooltipKey :: "ChartEnv \<Rightarrow> jsstr \<Rightarrow> bool" where
  "isOtherTooltipKey env key \<longleftrightarrow> key = ''Other'' \<or> key = ce_t env ''Other''"

definition tip_number :: "TooltipLineItem \<Rightarrow> jsnum" where
  "tip_number item = num_or (js_Number (Some (ti_value item))) (num 0)"

definition datum_number :: "jsstr \<Rightarrow> TooltipLineItem \<Rightarrow> jsnum" where
  \<comment> \<open>\<open>datum ? Number(datum.k) || 0 : 0\<close>\<close>
  "datum_number k item = (case ti_datum item of Some d \<Rightarrow> num_or (js_Number (obj_get k d)) (num 0) | None \<Rightarrow> num 0)"

definition time_sum_step :: "jsnum \<Rightarrow> TooltipLineItem \<Rightarrow> jsnum" where
  "time_sum_step tsum item = (case ti_datum item of
       Some d \<Rightarrow> if js_truthy (obj_get ''TimeSum'' d) then num_or (js_Number (obj_get ''TimeSum'' d)) tsum else tsum
     | None \<Rightarrow> tsum)"

definition other_tooltip_color :: "ChartEnv \<Rightarrow> jsstr list \<Rightarrow> jsstr" where
  "other_tooltip_color env sortedModels =
     (let otherLabel = ce_t env ''Other'';
          labels = uniq (sortedModels @ [otherLabel]);
          colors = getVChartDefaultColors env (length labels);
          i = length (takeWhile (\<lambda>m. m \<noteq> otherLabel) labels) in
      if i < length colors then (case colors ! i of JStr c \<Rightarrow> c | _ \<Rightarrow> ''#FF8A00'') else ''#FF8A00'')"

definition plain_tip :: "jsstr \<Rightarrow> jsstr \<Rightarrow> TooltipLineItem" where
  "plain_tip key v = \<lparr>ti_key = key, ti_value = JStr v, ti_datum = None, ti_fill = None\<rparr>"

definition split_other :: "ChartEnv \<Rightarrow> TooltipLineItem list \<Rightarrow> TooltipLineItem list \<times> TooltipLineItem list" where
  "split_other env items =
     (sort_by (desc_le tip_number) (filter (\<lambda>item. \<not> isOtherTooltipKey env (ti_key item)) items),
      filter (\<lambda>item. isOtherTooltipKey env (ti_key item)) items)"

definition tooltipUpdateContent :: "ChartEnv \<Rightarrow> jsstr list \<Rightarrow> bool \<Rightarrow> TooltipLineItem list \<Rightarrow> TooltipLineItem list" where
  \<comment> \<open>the items are formatted in place before the overflow is cut, so the visible ones are formatted\<close>
  "tooltipUpdateContent env sortedModels collapseOverflow items =
     (let (modelItems, otherItems) = split_other env items;
          formatted = (\<lambda>item. item\<lparr>ti_value := JStr (renderQuotaCompat env (tip_number item) 4)\<rparr>);
          tsum = foldl time_sum_step (num 0) (modelItems @ otherItems);
          arr = (if collapseOverflow \<and> MAX_TOOLTIP_MODELS < length (modelItems @ otherItems) then
              map formatted (take MAX_TOOLTIP_MODELS modelItems) @
                [\<lparr>ti_key = ce_t env ''Other'',
                  ti_value = JStr (renderQuotaCompat env (js_sum (map (datum_number ''rawQuota'') (drop MAX_TOOLTIP_MODELS modelItems @ otherItems))) 4),
                  ti_datum = None, ti_fill = Some (other_tooltip_color env sortedModels)\<rparr>]
            else map formatted (modelItems @ otherItems)) in
      plain_tip (ce_t env ''Total:'') (renderQuotaCompat env tsum 4) # arr)"

definition countTooltipUpdateContent :: "ChartEnv \<Rightarrow> TooltipLineItem list \<Rightarrow> TooltipLineItem list" where
  "countTooltipUpdateContent env items =
     (let (modelItems, otherItems) = split_other env items; arr = modelItems @ otherItems in
      plain_tip (ce_t env ''Total:'') (formatInt env (js_sum (map tip_number arr))) #
        map (\<lambda>item. item\<lparr>ti_value := JStr (formatInt env (tip_number item))\<rparr>) arr)"

subsection \<open>User charts\<close>

definition USER_COLORS :: "jsstr list" where
  "USER_COLORS = [''#5B8FF9'', ''#5AD8A6'', ''#F6BD16'', ''#E8684A'', ''#6DC8EC'', ''#9270CA'', ''#FF9D4D'', ''#269A99'', ''#FF99C3'', ''#5D7092'']"

record UserRank =
  ur_User :: jsstr
  ur_rawQuota :: jsnum
  ur_Usage :: jsnum

record UserPoint =
  up_Time :: jsstr
  up_User :: jsstr
  up_rawQuota :: jsnum
  up_Usage :: jsnum

definition add_user_quota :: "jsnum \<Rightarrow> QuotaDataItem \<Rightarrow> jsnum" where
  "add_user_quota prev item = js_add (num_or prev (num 0)) (number_or_zero (qi_quota item))"

definition user_quota_total :: "QuotaDataItem list \<Rightarrow> (jsstr, jsnum) js_map" where
  "user_quota_total items = fold (group_step item_user add_user_quota (num 0)) items []"

type_synonym user_map = "(jsstr, (jsstr, jsnum) js_map) js_map"

definition add_time_user :: "ChartEnv \<Rightarrow> TimeGranularity \<Rightarrow> jsstr list \<Rightarrow> QuotaDataItem \<Rightarrow> user_map \<times> jsstr list \<Rightarrow> user_map \<times> jsstr list" where
  "add_time_user env g topUsers item = (\<lambda>(timeUserMap, allTimePoints).
     (let timeKey = item_time env g item;
          points = (if timeKey \<in> set allTimePoints then allTimePoints else allTimePoints @ [timeKey]);
          user = item_user item in
      if user \<notin> set topUsers then (timeUserMap, points)
      else (let tm = (if map_get timeKey timeUserMap = None then map_set timeKey [] timeUserMap else timeUserMap);
                m = map_get_or [] timeKey tm in
            (map_set timeKey (map_set user (add_user_quota (map_get_or (num 0) user m) item) m) tm, points))))"

definition user_usage :: "jsnum \<Rightarrow> jsnum \<Rightarrow> jsnum" where
  "user_usage perUnit q = js_Number_str (js_toFixed (js_div q perUnit) 4)"

definition user_quota_at :: "user_map \<Rightarrow> jsstr \<Rightarrow> jsstr \<Rightarrow> jsnum" where
  "user_quota_at tm time user = number_or_zero (Option.bind (map_get time tm) (map_get user))"

record ProcessedUserChartData =
  pu_noData :: bool
  pu_rank :: "UserRank list"
  pu_trend :: "UserPoint list"
  pu_colors :: "jsstr obj"
  pu_total :: jsstr

definition processUserChartData :: "ChartEnv \<Rightarrow> TimeGranularity \<Rightarrow> nat \<Rightarrow> QuotaDataItem list \<Rightarrow> ProcessedUserChartData" where
  "processUserChartData env g limit items =
     (if items = [] then \<lparr>pu_noData = True, pu_rank = [], pu_trend = [], pu_colors = [], pu_total = []\<rparr>
      else
        (let perUnit = r_quotaPerUnit (fst (getCurrencyDisplay (ce_state env)));
             ranked = take limit (sort_by (desc_le snd) (user_quota_total items));
             topUsers = map fst ranked;
             (timeUserMap, allTimePoints) = fold (add_time_user env g topUsers) items ([], []);
             sortedTimePoints = sort_by js_str_le allTimePoints in
         \<lparr>pu_noData = False,
          pu_rank = map (\<lambda>(username, quota). \<lparr>ur_User = username, ur_rawQuota = quota, ur_Usage = user_usage perUnit quota\<rparr>) ranked,
          pu_trend = concat (map (\<lambda>time. map (\<lambda>user.
             \<lparr>up_Time = time, up_User = user, up_rawQuota = user_quota_at timeUserMap time user,
              up_Usage = user_usage perUnit (user_quota_at timeUserMap time user)\<rparr>) topUsers) sortedTimePoints),
          pu_colors = fold (\<lambda>(i, user) acc. obj_set user (USER_COLORS ! (i mod length USER_COLORS)) acc) (enumerate 0 topUsers) [],
          pu_total = ce_t env ''Total:'' @ '' '' @ renderQuotaCompat env (js_sum (map snd ranked)) 2\<rparr>))"

definition userRankTooltip :: "ChartEnv \<Rightarrow> TooltipLineItem list \<Rightarrow> TooltipLineItem list" where
  "userRankTooltip env items = map (\<lambda>item.
     (let rawQuota = Option.bind (ti_datum item) (obj_get ''rawQuota'');
          v = (case rawQuota of None \<Rightarrow> js_Number (Some (ti_value item)) | Some r \<Rightarrow> js_Number (Some r)) in
      item\<lparr>ti_value := JStr (renderQuotaCompat env (num_or v (num 0)) 2)\<rparr>)) items"

definition userTrendTooltip :: "ChartEnv \<Rightarrow> TooltipLineItem list \<Rightarrow> TooltipLineItem list" where
  "userTrendTooltip env items =
     (let arr = sort_by (desc_le tip_number) items in
      plain_tip (ce_t env ''Total:'') (renderQuotaCompat env (js_sum (map tip_number arr)) 2) #
        map (\<lambda>item. item\<lparr>ti_value := JStr (renderQuotaCompat env (tip_number item) 2)\<rparr>) arr)"

subsection \<open>The maps are groupings\<close>

lemma set_set: "map_set k w (map_set k v m) = map_set k w m"
  by (induction m) (auto simp: map_set_def)

lemma get_or_set: "map_get_or d k (map_set k v m) = v"
  by (simp add: map_get_or_def map_get_set)

abbreviation model_step :: "QuotaDataItem \<Rightarrow> model_map \<Rightarrow> model_map" where
  "model_step \<equiv> group_step item_model add_item zero_totals"

lemma fresh_entry:
  "map_set k (f (map_get_or [] k (if map_get k m = None then map_set k [] m else m))) (if map_get k m = None then map_set k [] m else m) =
   map_set k (f (map_get_or [] k m)) m"
  by (simp add: set_set get_or_set) (simp add: map_get_or_def)

lemma aggregate_item_groups:
  "aggregate_item env g it (tm, totals) = (group_step (item_time env g) (\<lambda>mm it. model_step it mm) [] it tm, model_step it totals)"
  using fresh_entry [of "item_time env g it" "\<lambda>mm. model_step it mm" tm]
  unfolding aggregate_item_def group_step_def Let_def prod.case by metis

lemma aggregate_fold:
  "fold (aggregate_item env g) items (tm, totals) =
   (fold (group_step (item_time env g) (\<lambda>mm it. model_step it mm) []) items tm, fold model_step items totals)"
  by (induction items arbitrary: tm totals) (simp_all add: aggregate_item_groups)

lemma foldl_fold_flip: "foldl (\<lambda>mm it. f it mm) z xs = fold f xs z"
  by (induction xs arbitrary: z) simp_all

abbreviation at_time :: "ChartEnv \<Rightarrow> TimeGranularity \<Rightarrow> jsstr \<Rightarrow> QuotaDataItem list \<Rightarrow> QuotaDataItem list" where
  "at_time env g t items \<equiv> filter (\<lambda>it. item_time env g it = t) items"

abbreviation of_model :: "jsstr \<Rightarrow> QuotaDataItem list \<Rightarrow> QuotaDataItem list" where
  "of_model m items \<equiv> filter (\<lambda>it. item_model it = m) items"

lemma totals_grouping: "snd (aggregate env g items) = map (\<lambda>m. (m, foldl add_item zero_totals (of_model m items))) (uniq (map item_model items))"
  by (simp add: aggregate_def aggregate_fold group_fold)

lemma times_grouping: "fst (aggregate env g items) =
   map (\<lambda>t. (t, map (\<lambda>m. (m, foldl add_item zero_totals (of_model m (at_time env g t items)))) (uniq (map item_model (at_time env g t items)))))
     (uniq (map (item_time env g) items))"
  by (simp add: aggregate_def aggregate_fold group_fold foldl_fold_flip)

lemma chart_keys:
  "map_keys (fst (aggregate env g items)) = uniq (map (item_time env g) items)"
  "map_keys (snd (aggregate env g items)) = uniq (map item_model items)"
  by (simp_all add: map_keys_def times_grouping totals_grouping comp_def)

lemma stats_grouping:
  "(case stats_of (fst (aggregate env g items)) t m of Some s \<Rightarrow> s | None \<Rightarrow> zero_totals) =
   foldl add_item zero_totals (of_model m (at_time env g t items))"
proof (cases "\<exists>it \<in> set items. item_time env g it = t \<and> item_model it = m")
  case True
  then have "t \<in> item_time env g ` set items" "m \<in> item_model ` set (at_time env g t items)" by auto
  then show ?thesis by (simp add: stats_of_def times_grouping map_get_def map_of_image)
next
  case False
  then have "of_model m (at_time env g t items) = []" "m \<notin> item_model ` set (at_time env g t items)"
    by (auto simp: filter_empty_conv)
  then show ?thesis by (auto simp add: stats_of_def times_grouping map_get_def map_of_image)
qed

subsection \<open>Exact sums of items\<close>

fun int_of :: "jsnum \<Rightarrow> int" where
  "int_of (Fin r) = \<lfloor>r\<rfloor>"
| "int_of _ = 0"

definition amount :: "(QuotaDataItem \<Rightarrow> jsnum option) \<Rightarrow> QuotaDataItem \<Rightarrow> int" where
  "amount f it = int_of (number_or_zero (f it))"

definition exact_amounts :: "(QuotaDataItem \<Rightarrow> jsnum option) \<Rightarrow> QuotaDataItem list \<Rightarrow> bool" where
  \<comment> \<open>whole, non-negative amounts whose sum is exactly representable\<close>
  "exact_amounts f items \<longleftrightarrow> list_all (\<lambda>it. 0 \<le> amount f it \<and> number_or_zero (f it) = num (amount f it)) items \<and> sum_list (map (amount f) items) \<le> 2 ^ 53"

lemma exact_filter: "exact_amounts f items \<Longrightarrow> exact_amounts f (filter P items)"
proof -
  assume a: "exact_amounts f items"
  have "sum_list (map (amount f) (filter P items)) \<le> sum_list (map (amount f) items)"
    using a unfolding exact_amounts_def by (induction items) auto
  then show ?thesis using a by (auto simp: exact_amounts_def list_all_iff)
qed

lemma exact_range: "exact_amounts f items \<Longrightarrow> 0 \<le> sum_list (map (amount f) items) \<and> sum_list (map (amount f) items) \<le> 2 ^ 53"
  by (auto simp: exact_amounts_def list_all_iff intro!: sum_list_nonneg)

lemma exact_fold:
  assumes "exact_amounts f items"
  shows "foldl js_add (num 0) (map (\<lambda>it. number_or_zero (f it)) items) = num (sum_list (map (amount f) items))"
proof -
  have "map (\<lambda>it. number_or_zero (f it)) items = map num (map (amount f) items)"
    using assms by (auto simp: exact_amounts_def list_all_iff)
  moreover have "foldl js_add (num 0) (map num (map (amount f) items)) = num (0 + sum_list (map (amount f) items))"
    using assms by (intro sum_quota_int) (auto simp: exact_amounts_def list_all_iff)
  ultimately show ?thesis by (simp only: add_0)
qed

lemma add_items_fields:
  "t_quota (foldl add_item acc items) = foldl js_add (t_quota acc) (map (\<lambda>it. number_or_zero (qi_quota it)) items)"
  "t_count (foldl add_item acc items) = foldl js_add (t_count acc) (map (\<lambda>it. number_or_zero (qi_count it)) items)"
  by (induction items arbitrary: acc) (simp_all add: add_item_def)

lemma number_or_zero_num: "number_or_zero (Some (num k)) = num k" "num_or (num k) (num 0) = num k"
  by (simp_all add: number_or_zero_def num_or_def js_truthy_num_def)

text \<open>One summary of the items for each figure: the quota and the number of calls.\<close>

locale chart_figure =
  fixes sel :: "Totals \<Rightarrow> jsnum" and field :: "QuotaDataItem \<Rightarrow> jsnum option"
  assumes sel_zero: "sel zero_totals = num 0"
    and sel_fold: "sel (foldl add_item zero_totals items) = foldl js_add (num 0) (map (\<lambda>it. number_or_zero (field it)) items)"
begin

lemma sel_exact: "exact_amounts field items \<Longrightarrow> sel (foldl add_item zero_totals items) = num (sum_list (map (amount field) items))"
  using exact_fold [of field items] by (simp only: sel_fold)

lemma stat_exact:
  assumes "exact_amounts field items"
  shows "number_or_zero (map_option sel (stats_of (fst (aggregate env g items)) t m)) = num (sum_list (map (amount field) (of_model m (at_time env g t items))))"
proof -
  have e: "exact_amounts field (of_model m (at_time env g t items))" using assms by (intro exact_filter)
  have "number_or_zero (map_option sel s) = number_or_zero (Some (sel (case s of Some x \<Rightarrow> x | None \<Rightarrow> zero_totals)))" for s
    using number_or_zero_num [of 0] by (cases s) (simp_all add: sel_zero number_or_zero_def)
  then show ?thesis by (simp only: stats_grouping sel_exact [OF e] number_or_zero_num)
qed

lemma model_exact:
  assumes "exact_amounts field items"
  shows "num_or (sel (foldl add_item zero_totals (of_model m items))) (num 0) = num (sum_list (map (amount field) (of_model m items)))"
  by (simp only: sel_exact [OF exact_filter [OF assms]] number_or_zero_num)

end

interpretation quota: chart_figure t_quota qi_quota
  by unfold_locales (simp_all add: add_items_fields zero_totals_def)

interpretation calls: chart_figure t_count qi_count
  by unfold_locales (simp_all add: add_items_fields zero_totals_def)

subsection \<open>Sums over sorted and bucketed rows\<close>

lemma sum_ins_by: "sum_list (map f (ins_by le x xs)) = (f x + sum_list (map f xs) :: 'n :: comm_monoid_add)"
  by (induction xs) (simp_all add: ac_simps)

lemma sum_sort_by: "sum_list (map f (sort_by le xs)) = (sum_list (map f xs) :: 'n :: comm_monoid_add)"
  by (induction xs) (simp_all add: sum_ins_by)

lemma ins_by_cong: "(\<And>y. y \<in> set xs \<Longrightarrow> le x y = le' x y) \<Longrightarrow> ins_by le x xs = ins_by le' x xs"
  by (induction xs) auto

lemma sort_by_cong: "(\<And>x y. x \<in> set xs \<Longrightarrow> y \<in> set xs \<Longrightarrow> le x y = le' x y) \<Longrightarrow> sort_by le xs = sort_by le' xs"
proof (induction xs)
  case (Cons x xs)
  have "sort_by le xs = sort_by le' xs" using Cons.IH Cons.prems by (meson list.set_intros(2))
  moreover have "ins_by le x (sort_by le' xs) = ins_by le' x (sort_by le' xs)" using Cons.prems by (intro ins_by_cong) simp
  ultimately show ?case by (simp only: sort_by.simps)
qed simp

lemma sum_concat: "sum_list (map f (concat xss)) = (sum_list (map (\<lambda>xs. sum_list (map f xs)) xss) :: 'n :: comm_monoid_add)"
  by (induction xss) simp_all

lemma sum_some_groups:
  assumes "distinct ks"
  shows "sum_list (map (\<lambda>j. sum_list (map w (filter (\<lambda>x. k x = j) xs))) ks) = (sum_list (map w (filter (\<lambda>x. k x \<in> set ks) xs)) :: 'n :: comm_monoid_add)"
proof -
  have "filter (\<lambda>x. k x = j) (filter (\<lambda>x. k x \<in> set ks) xs) = filter (\<lambda>x. k x = j) xs" if "j \<in> set ks" for j
    using that by (auto simp: filter_filter intro!: filter_cong)
  then have "map (\<lambda>j. sum_list (map w (filter (\<lambda>x. k x = j) (filter (\<lambda>x. k x \<in> set ks) xs)))) ks = map (\<lambda>j. sum_list (map w (filter (\<lambda>x. k x = j) xs))) ks"
    by (intro map_cong refl arg_cong [where f = sum_list] arg_cong [where f = "map w"])
  moreover have "sum_list (map (\<lambda>j. sum_list (map w (filter (\<lambda>x. k x = j) (filter (\<lambda>x. k x \<in> set ks) xs)))) ks) = sum_list (map w (filter (\<lambda>x. k x \<in> set ks) xs))"
    by (rule sum_groups [OF assms]) simp
  ultimately show ?thesis by (simp only:)
qed

lemma js_sum_models:
  assumes "exact_amounts f items" "distinct ms"
  shows "js_sum (map (\<lambda>m. num (sum_list (map (amount f) (of_model m items)))) ms) =
    num (sum_list (map (amount f) (filter (\<lambda>it. item_model it \<in> set ms) items)))"
proof -
  let ?qs = "map (\<lambda>m. sum_list (map (amount f) (of_model m items))) ms"
  have s: "sum_list ?qs = sum_list (map (amount f) (filter (\<lambda>it. item_model it \<in> set ms) items))"
    by (rule sum_some_groups [OF assms(2)])
  have "0 \<le> q" if "q \<in> set ?qs" for q using that exact_range [OF exact_filter [OF assms(1)]] by auto
  moreover have "sum_list ?qs \<le> 2 ^ 53" unfolding s using exact_range [OF exact_filter [OF assms(1)]] by auto
  ultimately have "foldl js_add (num 0) (map num ?qs) = num (0 + sum_list ?qs)" by (intro sum_quota_int) auto
  then show ?thesis by (simp only: js_sum_def s add_0 map_map comp_def)
qed

lemma int_of_num: "int_of (num k) = k"
  by simp

abbreviation used :: "(QuotaDataItem \<Rightarrow> jsnum option) \<Rightarrow> QuotaDataItem list \<Rightarrow> int" where
  "used f items \<equiv> sum_list (map (amount f) items)"

lemma used_models: "distinct ms \<Longrightarrow> item_model ` set items \<subseteq> set ms \<Longrightarrow> sum_list (map (\<lambda>m. used f (of_model m items)) ms) = used f items"
  by (rule sum_groups) auto

lemma raw_quota_exact: "exact_amounts qi_quota items \<Longrightarrow> raw_quota (fst (aggregate env g items)) t m = num (used qi_quota (of_model m (at_time env g t items)))"
  unfolding raw_quota_def by (rule quota.stat_exact)

lemma raw_count_exact: "exact_amounts qi_count items \<Longrightarrow> raw_count (fst (aggregate env g items)) t m = num (used qi_count (of_model m (at_time env g t items)))"
  unfolding raw_count_def by (rule calls.stat_exact)

lemma line_block_sum:
  assumes "exact_amounts qi_quota items" "distinct ms" "item_model ` set items \<subseteq> set ms"
  shows "sum_list (map (\<lambda>r. int_of (cp_rawQuota r)) (line_block perUnit (fst (aggregate env g items)) ms t)) = used qi_quota (at_time env g t items)"
proof -
  have "sum_list (map (\<lambda>r. int_of (cp_rawQuota r)) (line_block perUnit (fst (aggregate env g items)) ms t)) =
      sum_list (map (\<lambda>m. int_of (raw_quota (fst (aggregate env g items)) t m)) ms)"
    by (simp add: line_block_def Let_def comp_def sum_sort_by)
  also have "\<dots> = sum_list (map (\<lambda>m. used qi_quota (of_model m (at_time env g t items))) ms)"
    by (simp only: raw_quota_exact [OF assms(1)] int_of_num)
  also have "\<dots> = used qi_quota (at_time env g t items)" using assms(3) by (intro used_models [OF assms(2)]) auto
  finally show ?thesis .
qed

lemma fst_area_fold: "fst (foldl (area_bucket perUnit tm t) z ms) = foldl js_add (fst z) (map (raw_quota tm t) ms)"
  by (induction ms arbitrary: z) (simp_all add: area_bucket_def)

lemma area_block_sum:
  assumes "exact_amounts qi_quota items" "distinct ms" "item_model ` set items \<subseteq> set ms"
  shows "sum_list (map (\<lambda>r. int_of (cp_rawQuota r)) (area_block perUnit (fst (aggregate env g items)) ms tops other t)) = used qi_quota (at_time env g t items)"
proof -
  let ?k = "\<lambda>m. if m \<in> set tops then m else other" and ?tm = "fst (aggregate env g items)" and ?xs = "at_time env g t items"
  have e: "exact_amounts qi_quota ?xs" using assms(1) by (rule exact_filter)
  have bucket: "foldl js_add (num 0) (map (raw_quota ?tm t) (filter (\<lambda>m. ?k m = j) ms)) =
      num (used qi_quota (filter (\<lambda>it. ?k (item_model it) = j) ?xs))" for j
  proof -
    have "foldl js_add (num 0) (map (raw_quota ?tm t) (filter (\<lambda>m. ?k m = j) ms)) =
        num (used qi_quota (filter (\<lambda>it. item_model it \<in> set (filter (\<lambda>m. ?k m = j) ms)) ?xs))"
      using js_sum_models [OF e, of "filter (\<lambda>m. ?k m = j) ms"] assms(2) unfolding js_sum_def raw_quota_exact [OF assms(1)] by simp
    moreover have "filter (\<lambda>it. item_model it \<in> set (filter (\<lambda>m. ?k m = j) ms)) ?xs = filter (\<lambda>it. ?k (item_model it) = j) ?xs"
      using assms(3) by (intro filter_cong) auto
    ultimately show ?thesis by simp
  qed
  have "sum_list (map (\<lambda>r. int_of (cp_rawQuota r)) (area_block perUnit ?tm ms tops other t)) =
      sum_list (map (\<lambda>j. int_of (fst (foldl (area_bucket perUnit ?tm t) (num 0, num 0) (filter (\<lambda>m. ?k m = j) ms)))) (uniq (map ?k ms)))"
    by (simp add: area_block_def Let_def group_fold comp_def)
  also have "\<dots> = sum_list (map (\<lambda>j. used qi_quota (filter (\<lambda>it. ?k (item_model it) = j) ?xs)) (uniq (map ?k ms)))"
    by (simp only: fst_area_fold fst_conv bucket int_of_num)
  also have "\<dots> = used qi_quota ?xs"
    using assms(3) by (intro sum_groups) (auto simp: image_iff)
  finally show ?thesis .
qed

lemma distinct_ins_map: "distinct (map f (ins_by le x xs)) \<longleftrightarrow> f x \<notin> f ` set xs \<and> distinct (map f xs)"
  by (induction xs) auto

lemma distinct_sort_map: "distinct (map f (sort_by le xs)) \<longleftrightarrow> distinct (map f xs)"
  by (induction xs) (simp_all add: distinct_ins_map)

lemma trend_block_sum:
  assumes "exact_amounts qi_count items" "distinct (ms @ ns)" "item_model ` set items \<subseteq> set (ms @ ns)"
  shows "sum_list (map (\<lambda>r. int_of (tp_Count r)) (trend_block (fst (aggregate env g items)) ms ns other t)) = used qi_count (at_time env g t items)"
proof -
  let ?tm = "fst (aggregate env g items)" and ?xs = "at_time env g t items"
  have e: "exact_amounts qi_count ?xs" using assms(1) by (rule exact_filter)
  have "js_sum (map (raw_count ?tm t) ns) = num (used qi_count (filter (\<lambda>it. item_model it \<in> set ns) ?xs))"
    unfolding raw_count_exact [OF assms(1)] using assms(2) by (intro js_sum_models [OF e]) simp
  then have o: "int_of (js_sum (map (raw_count ?tm t) ns)) = sum_list (map (\<lambda>m. used qi_count (of_model m ?xs)) ns)"
    using sum_some_groups [of ns "amount qi_count" item_model ?xs] assms(2) by (simp only: int_of_num distinct_append)
  have r: "sum_list (map (\<lambda>m. int_of (raw_count ?tm t m)) ms) = sum_list (map (\<lambda>m. used qi_count (of_model m ?xs)) ms)"
    by (simp only: raw_count_exact [OF assms(1)] int_of_num)
  have "sum_list (map (\<lambda>r. int_of (tp_Count r)) (trend_block ?tm ms ns other t)) =
      sum_list (map (\<lambda>m. int_of (raw_count ?tm t m)) ms) + (if ns = [] then 0 else int_of (js_sum (map (raw_count ?tm t) ns)))"
    by (simp add: trend_block_def comp_def)
  also have "\<dots> = sum_list (map (\<lambda>m. used qi_count (of_model m ?xs)) (ms @ ns))" unfolding o r by simp
  also have "\<dots> = used qi_count ?xs" using assms(2,3) by (intro used_models) auto
  finally show ?thesis .
qed

lemma ranked_models:
  "distinct (map cr_Model (ranked_by f (snd (aggregate env g items))))"
  "set (map cr_Model (ranked_by f (snd (aggregate env g items)))) = item_model ` set items"
  by (auto simp: ranked_by_def totals_grouping distinct_sort_map comp_def image_iff)

lemma ranked_counts:
  assumes "exact_amounts qi_count items" "R = ranked_by t_count (snd (aggregate env g items))"
  shows "map cr_Count R = map (\<lambda>m. num (used qi_count (of_model m items))) (map cr_Model R)"
proof -
  have "cr_Count r = num (used qi_count (of_model (cr_Model r) items))" if "r \<in> set R" for r
    using that calls.model_exact [OF assms(1)] unfolding assms(2) ranked_by_def totals_grouping by auto
  then show ?thesis by simp
qed

lemma ranked_sum:
  assumes "exact_amounts qi_count items" "R = ranked_by t_count (snd (aggregate env g items))"
  shows "sum_list (map (\<lambda>r. int_of (cr_Count r)) R) = used qi_count items"
proof -
  have "map int_of (map cr_Count R) = map (\<lambda>m. used qi_count (of_model m items)) (map cr_Model R)"
    unfolding ranked_counts [OF assms] by (simp only: map_map comp_def int_of_num)
  then have "sum_list (map (\<lambda>r. int_of (cr_Count r)) R) = sum_list (map (\<lambda>m. used qi_count (of_model m items)) (map cr_Model R))"
    by (simp only: map_map comp_def)
  also have "\<dots> = used qi_count items" using ranked_models [of t_count env g items] unfolding assms(2) by (intro used_models) auto
  finally show ?thesis .
qed

lemma rank_values_sum:
  assumes "exact_amounts qi_count items"
  shows "sum_list (map (\<lambda>r. int_of (cr_Count r)) (rank_values (snd (aggregate env g items)) other)) = used qi_count items"
proof -
  define R where "R = ranked_by t_count (snd (aggregate env g items))"
  note counts = ranked_counts [OF assms R_def] and all = ranked_sum [OF assms R_def]
  let ?d = "drop MAX_RANK_MODELS R" and ?w = "\<lambda>m. used qi_count (of_model m items)"
  have d: "distinct (map cr_Model R)" using ranked_models by (simp add: R_def)
  have c: "map cr_Count ?d = map (\<lambda>m. num (?w m)) (map cr_Model ?d)" by (metis counts drop_map)
  have dd: "distinct (map cr_Model ?d)" using d by (metis distinct_drop drop_map)
  have "js_sum (map cr_Count ?d) = num (used qi_count (filter (\<lambda>it. item_model it \<in> set (map cr_Model ?d)) items))"
    unfolding c by (rule js_sum_models [OF assms dd])
  also have "\<dots> = num (sum_list (map ?w (map cr_Model ?d)))" by (simp only: sum_some_groups [OF dd])
  also have "map ?w (map cr_Model ?d) = map int_of (map cr_Count ?d)" unfolding c by (simp only: map_map comp_def int_of_num)
  finally have o: "int_of (js_sum (map cr_Count ?d)) = sum_list (map (\<lambda>r. int_of (cr_Count r)) ?d)" by (simp only: int_of_num map_map comp_def)
  have "sum_list (map (\<lambda>r. int_of (cr_Count r)) (take MAX_RANK_MODELS R @ ?d)) =
      sum_list (map (\<lambda>r. int_of (cr_Count r)) (take MAX_RANK_MODELS R)) + sum_list (map (\<lambda>r. int_of (cr_Count r)) ?d)"
    by (simp only: map_append sum_list_append)
  then have parts: "sum_list (map (\<lambda>r. int_of (cr_Count r)) (take MAX_RANK_MODELS R)) + int_of (js_sum (map cr_Count ?d)) = used qi_count items"
    by (simp only: append_take_drop_id all o)
  then show ?thesis using all
    unfolding rank_values_def R_def [symmetric] Let_def by (cases "MAX_RANK_MODELS < length R") (simp_all del: take_append drop_append)
qed

lemma total_exact:
  assumes "exact_amounts qi_quota items" shows "total_of t_quota (snd (aggregate env g items)) = num (used qi_quota items)"
proof -
  have "total_of t_quota (snd (aggregate env g items)) = js_sum (map (\<lambda>m. num (used qi_quota (of_model m items))) (uniq (map item_model items)))"
    unfolding total_of_def totals_grouping map_map comp_def snd_conv quota.model_exact [OF assms] ..
  also have "\<dots> = num (used qi_quota (filter (\<lambda>it. item_model it \<in> set (uniq (map item_model items))) items))"
    by (rule js_sum_models [OF assms distinct_uniq])
  finally show ?thesis by simp
qed

lemma stats_exact: "exact_amounts qi_quota items \<Longrightarrow> t_quota (calculateDashboardStats items) = num (used qi_quota items)"
  unfolding calculateDashboardStats_def by (rule quota.sel_exact)

subsection \<open>What the model charts show\<close>

definition chart_times :: "ChartEnv \<Rightarrow> TimeGranularity \<Rightarrow> QuotaDataItem list \<Rightarrow> jsstr list" where
  "chart_times env g items = fillTimePoints env g items (sort_by js_str_le (uniq (map (item_time env g) items)))"

abbreviation per_unit :: "ChartEnv \<Rightarrow> jsnum" where
  "per_unit env \<equiv> r_quotaPerUnit (fst (getCurrencyDisplay (ce_state env)))"

lemma chart_rows:
  assumes "items \<noteq> []" "models = sort_by js_str_le (uniq (map item_model items))"
  shows "pc_line (processChartData env g items) = line_values env (per_unit env) (fst (aggregate env g items)) models (chart_times env g items)"
    "pc_area (processChartData env g items) =
       area_values env (per_unit env) (fst (aggregate env g items)) (snd (aggregate env g items)) models (ce_t env ''Other'') (chart_times env g items)"
    "pc_model_line (processChartData env g items) =
       trend_values env (fst (aggregate env g items)) (snd (aggregate env g items)) (ce_t env ''Other'') (chart_times env g items)"
    "pc_pie (processChartData env g items) = ranked_by t_count (snd (aggregate env g items))"
    "pc_rank (processChartData env g items) = rank_values (snd (aggregate env g items)) (ce_t env ''Other'')"
    "pc_totalQuotaDisplay (processChartData env g items) = renderQuotaCompat env (total_of t_quota (snd (aggregate env g items))) 2"
  using assms(1) by (simp_all add: processChartData_def Let_def case_prod_beta chart_keys chart_times_def assms(2))

lemma model_rows_sum:
  assumes "items \<noteq> []" "exact_amounts qi_quota items" "exact_amounts qi_count items"
  shows "sum_list (map (\<lambda>r. int_of (cp_rawQuota r)) (pc_line (processChartData env g items))) =
      sum_list (map (\<lambda>t. used qi_quota (at_time env g t items)) (chart_times env g items))" (is ?line)
    and "sum_list (map (\<lambda>r. int_of (cp_rawQuota r)) (pc_area (processChartData env g items))) =
      sum_list (map (\<lambda>t. used qi_quota (at_time env g t items)) (chart_times env g items))" (is ?area)
    and "sum_list (map (\<lambda>r. int_of (tp_Count r)) (pc_model_line (processChartData env g items))) =
      sum_list (map (\<lambda>t. used qi_count (at_time env g t items)) (chart_times env g items))" (is ?trend)
proof -
  let ?ms = "sort_by js_str_le (uniq (map item_model items))"
  note rows = chart_rows [OF assms(1) refl]
  have ms: "distinct ?ms" "item_model ` set items \<subseteq> set ?ms" by simp_all
  show ?line unfolding rows line_values_def sum_sort_by sum_concat map_map comp_def line_block_sum [OF assms(2) ms] ..
  show ?area unfolding rows area_values_def Let_def sum_sort_by sum_concat map_map comp_def area_block_sum [OF assms(2) ms] ..
  let ?R = "map cr_Model (ranked_by t_count (snd (aggregate env g items)))"
  have R: "distinct (take MAX_TREND_MODELS ?R @ drop MAX_TREND_MODELS ?R)" "item_model ` set items \<subseteq> set (take MAX_TREND_MODELS ?R @ drop MAX_TREND_MODELS ?R)"
    unfolding append_take_drop_id using ranked_models [of t_count env g items] by simp_all
  show ?trend unfolding rows trend_values_def Let_def sum_sort_by sum_concat map_map comp_def trend_block_sum [OF assms(3) R] ..
qed

lemma full_window:
  assumes "7 \<le> card (item_time env g ` set items)"
  shows "sum_list (map (\<lambda>t. used f (at_time env g t items)) (chart_times env g items)) = used f items"
proof -
  have "length (uniq (map (item_time env g) items)) = card (item_time env g ` set items)"
    using distinct_card [OF distinct_uniq, of "map (item_time env g) items"] by simp
  then have "chart_times env g items = sort_by js_str_le (uniq (map (item_time env g) items))"
    using assms by (simp add: chart_times_def fillTimePoints_def MAX_CHART_TREND_POINTS_def)
  then show ?thesis using sum_groups [of "sort_by js_str_le (uniq (map (item_time env g) items))" items "item_time env g" "amount f"] by simp
qed

text \<open>C19. When the items cover at least seven points in time, every chart accounts for every item: the quotas of the
  bar chart and of the area chart add up to the quota of all items, the calls of the trend, of the proportions and of the
  ranking to all calls, with the models beyond the limits in the \<open>Other\<close> rows; the total shown is that of the
  statistics cards. The amounts are whole numbers whose sum is exact.\<close>

theorem charts_account_for_all:
  assumes "exact_amounts qi_quota items" "exact_amounts qi_count items" "7 \<le> card (item_time env g ` set items)"
    "c = processChartData env g items"
  shows "sum_list (map (\<lambda>r. int_of (cp_rawQuota r)) (pc_line c)) = sum_list (map (amount qi_quota) items) \<and>
    sum_list (map (\<lambda>r. int_of (cp_rawQuota r)) (pc_area c)) = sum_list (map (amount qi_quota) items) \<and>
    sum_list (map (\<lambda>r. int_of (tp_Count r)) (pc_model_line c)) = sum_list (map (amount qi_count) items) \<and>
    sum_list (map (\<lambda>r. int_of (cr_Count r)) (pc_pie c)) = sum_list (map (amount qi_count) items) \<and>
    sum_list (map (\<lambda>r. int_of (cr_Count r)) (pc_rank c)) = sum_list (map (amount qi_count) items) \<and>
    pc_totalQuotaDisplay c = renderQuotaCompat env (t_quota (calculateDashboardStats items)) 2"
proof -
  have ne: "items \<noteq> []" using assms(3) by auto
  show ?thesis unfolding assms(4) model_rows_sum [OF ne assms(1,2)] full_window [OF assms(3)]
    using ranked_sum [OF assms(2) refl] rank_values_sum [OF assms(2)]
    by (simp add: chart_rows(4,5,6) [OF ne refl] total_exact [OF assms(1)] stats_exact [OF assms(1)])
qed

text \<open>Each bar is exact: its quota is the sum of the quotas of the items of its model at its time.\<close>

theorem chart_bars_exact:
  assumes "exact_amounts qi_quota items"
  shows "\<forall>r \<in> set (pc_line (processChartData env g items)).
    cp_rawQuota r = num (sum_list (map (amount qi_quota) (filter (\<lambda>it. item_time env g it = cp_Time r \<and> item_model it = cp_Model r) items)))"
proof (cases "items = []")
  case False
  then show ?thesis
    unfolding chart_rows(1) [OF False refl] line_values_def line_block_def Let_def
    by (auto simp: raw_quota_exact [OF assms] filter_filter conj_commute)
qed (simp add: processChartData_def)

text \<open>With fewer than seven points in time the charts show the last seven intervals and nothing else: usage
  before them has no row, although the total and the ranking count it.\<close>

theorem short_history_window:
  assumes "items \<noteq> []" "card (item_time env g ` set items) < 7"
  shows "cp_Time ` set (pc_line (processChartData env g items)) \<subseteq> set (padded_times env g items) \<and>
    cp_Time ` set (pc_area (processChartData env g items)) \<subseteq> set (padded_times env g items) \<and>
    tp_Time ` set (pc_model_line (processChartData env g items)) \<subseteq> set (padded_times env g items)"
proof -
  have "length (uniq (map (item_time env g) items)) = card (item_time env g ` set items)"
    using distinct_card [OF distinct_uniq, of "map (item_time env g) items"] by simp
  then have "chart_times env g items = padded_times env g items"
    using assms(2) by (simp add: chart_times_def fillTimePoints_def MAX_CHART_TREND_POINTS_def)
  then show ?thesis unfolding chart_rows [OF assms(1) refl]
    by (auto simp: line_values_def line_block_def area_values_def area_block_def trend_values_def trend_block_def Let_def split: if_splits)
qed

subsection \<open>What the user charts show\<close>

abbreviation of_user :: "jsstr \<Rightarrow> QuotaDataItem list \<Rightarrow> QuotaDataItem list" where
  "of_user u items \<equiv> filter (\<lambda>it. item_user it = u) items"

lemma user_fold_exact:
  assumes "0 \<le> a" "list_all (\<lambda>it. 0 \<le> amount qi_quota it \<and> number_or_zero (qi_quota it) = num (amount qi_quota it)) items" "a + used qi_quota items \<le> 2 ^ 53"
  shows "foldl add_user_quota (num a) items = num (a + used qi_quota items)"
  using assms
proof (induction items arbitrary: a)
  case (Cons it items)
  have "0 \<le> used qi_quota items" using Cons.prems(2) by (auto simp: list_all_iff intro!: sum_list_nonneg)
  then have "js_add (num a) (num (amount qi_quota it)) = num (a + amount qi_quota it)" using Cons.prems by (intro js_add_int) auto
  then have "add_user_quota (num a) it = num (a + amount qi_quota it)"
    using Cons.prems(2) unfolding add_user_quota_def number_or_zero_num by simp
  then show ?case using Cons.IH [of "a + amount qi_quota it"] Cons.prems by (simp add: add.assoc)
qed simp

lemma user_total_exact: "exact_amounts qi_quota items \<Longrightarrow> foldl add_user_quota (num 0) items = num (used qi_quota items)"
  using user_fold_exact [of 0 items] by (simp add: exact_amounts_def)

lemma user_totals:
  assumes "exact_amounts qi_quota items"
  shows "user_quota_total items = map (\<lambda>u. (u, num (used qi_quota (of_user u items)))) (uniq (map item_user items))"
  unfolding user_quota_total_def group_fold user_total_exact [OF exact_filter [OF assms]] ..

interpretation by_amount: total_comparator "\<lambda>a b. (h b :: int) \<le> h a" for h
  by unfold_locales auto

lemma desc_le_int: "0 \<le> a \<Longrightarrow> a \<le> 2 ^ 53 \<Longrightarrow> 0 \<le> b \<Longrightarrow> b \<le> 2 ^ 53 \<Longrightarrow> f x = num a \<Longrightarrow> f y = num b \<Longrightarrow> desc_le f x y \<longleftrightarrow> b \<le> a"
  using js_sub_int [of b a] by (simp add: desc_le_def not_less)

abbreviation ranked_users :: "QuotaDataItem list \<Rightarrow> (jsstr \<times> jsnum) list" where
  "ranked_users items \<equiv> sort_by (desc_le snd) (user_quota_total items)"

lemma ranked_users_sorted:
  assumes "exact_amounts qi_quota items"
  shows "sorted_wrt (\<lambda>a b. int_of (snd b) \<le> int_of (snd a)) (ranked_users items)"
proof -
  have "desc_le snd a b \<longleftrightarrow> int_of (snd b) \<le> int_of (snd a)" if ab: "a \<in> set (user_quota_total items)" "b \<in> set (user_quota_total items)" for a b
  proof -
    obtain u v where "snd a = num (used qi_quota (of_user u items))" "snd b = num (used qi_quota (of_user v items))"
      using ab unfolding user_totals [OF assms] by auto
    then show ?thesis using exact_range [OF exact_filter [OF assms]] by (simp only: int_of_num) (intro desc_le_int; simp)
  qed
  then have "ranked_users items = sort_by (\<lambda>a b. int_of (snd b) \<le> int_of (snd a)) (user_quota_total items)" by (rule sort_by_cong)
  then show ?thesis using by_amount.sorted_sort_by [of "\<lambda>a. int_of (snd a)"] by simp
qed

lemma ranked_users_facts:
  assumes "exact_amounts qi_quota items"
  shows "distinct (map fst (ranked_users items))" "fst ` set (ranked_users items) = item_user ` set items"
    "length (ranked_users items) = card (item_user ` set items)"
    "\<forall>p \<in> set (ranked_users items). snd p = num (used qi_quota (of_user (fst p) items))"
proof -
  show "distinct (map fst (ranked_users items))" by (simp add: distinct_sort_map user_totals [OF assms] comp_def)
  show "fst ` set (ranked_users items) = item_user ` set items" by (auto simp: user_totals [OF assms] image_iff)
  show "length (ranked_users items) = card (item_user ` set items)"
    using distinct_card [OF distinct_uniq, of "map item_user items"] by (simp add: user_totals [OF assms])
  show "\<forall>p \<in> set (ranked_users items). snd p = num (used qi_quota (of_user (fst p) items))" by (auto simp: user_totals [OF assms])
qed

lemma user_chart_rank:
  "pu_rank (processUserChartData env g limit items) =
   map (\<lambda>p. \<lparr>ur_User = fst p, ur_rawQuota = snd p, ur_Usage = user_usage (per_unit env) (snd p)\<rparr>) (take limit (ranked_users items))"
  by (cases "items = []") (simp_all add: processUserChartData_def Let_def case_prod_beta user_quota_total_def)

text \<open>The ranking shows the given number of users, or all of them if there are fewer, each once and with the
  exact sum of the quotas of its items, from the highest to the lowest; no user that is left out has used more than one that
  is shown.\<close>

theorem user_ranking_top:
  assumes "exact_amounts qi_quota items" "r = pu_rank (processUserChartData env g limit items)"
  shows "distinct (map ur_User r) \<and> length r = min limit (card (item_user ` set items)) \<and>
    (\<forall>x \<in> set r. ur_rawQuota x = num (sum_list (map (amount qi_quota) (filter (\<lambda>it. item_user it = ur_User x) items)))) \<and>
    sorted_wrt (\<lambda>a b. int_of (ur_rawQuota b) \<le> int_of (ur_rawQuota a)) r \<and>
    (\<forall>u \<in> item_user ` set items. u \<notin> ur_User ` set r \<longrightarrow>
       (\<forall>x \<in> set r. sum_list (map (amount qi_quota) (filter (\<lambda>it. item_user it = u) items)) \<le> int_of (ur_rawQuota x)))"
proof -
  note facts = ranked_users_facts [OF assms(1)]
  let ?L = "ranked_users items"
  let ?row = "\<lambda>p. \<lparr>ur_User = fst p, ur_rawQuota = snd p, ur_Usage = user_usage (per_unit env) (snd p)\<rparr>"
  have r: "r = map ?row (take limit ?L)" unfolding assms(2) user_chart_rank ..
  have "distinct (map fst (take limit ?L))" using facts(1) by (metis distinct_take take_map)
  moreover have exact: "\<forall>x \<in> set r. ur_rawQuota x = num (used qi_quota (of_user (ur_User x) items))"
    using facts(4) in_set_takeD [of _ limit ?L] by (auto simp: r simp del: set_sort_by)
  moreover have s: "sorted_wrt (\<lambda>a b. int_of (snd b) \<le> int_of (snd a)) (take limit ?L @ drop limit ?L)"
    using ranked_users_sorted [OF assms(1)] by simp
  moreover have "used qi_quota (of_user u items) \<le> int_of (ur_rawQuota x)"
    if u: "u \<in> item_user ` set items" "u \<notin> ur_User ` set r" "x \<in> set r" for u x
  proof -
    have "u \<in> fst ` set ?L" using u(1) facts(2) by simp
    then obtain p where p: "p \<in> set ?L" "u = fst p" by (rule imageE)
    have "p \<notin> set (take limit ?L)" using u(2) p(2) by (auto simp: r image_image)
    moreover have "p \<in> set (take limit ?L @ drop limit ?L)" using p(1) by (simp only: append_take_drop_id)
    ultimately have "p \<in> set (drop limit ?L)" unfolding set_append by blast
    moreover obtain q where "q \<in> set (take limit ?L)" "x = ?row q" using u(3) unfolding r by (auto simp del: set_sort_by)
    ultimately have "int_of (snd p) \<le> int_of (ur_rawQuota x)" using s unfolding sorted_wrt_append by simp
    then show ?thesis using facts(4) p by (metis int_of_num)
  qed
  moreover have "sorted_wrt (\<lambda>a b. int_of (snd b) \<le> int_of (snd a)) (take limit ?L)" using s unfolding sorted_wrt_append by simp
  ultimately show ?thesis using facts(3) by (auto simp: r comp_def sorted_wrt_map min_def)
qed

lemma time_user_fold:
  "fold (add_time_user env g tops) items (tm, pts) =
   (fold (group_step (item_time env g) (\<lambda>m it. group_step item_user add_user_quota (num 0) it m) []) (filter (\<lambda>it. item_user it \<in> set tops) items) tm,
    fold (\<lambda>t ps. if t \<in> set ps then ps else ps @ [t]) (map (item_time env g) items) pts)"
proof (induction items arbitrary: tm pts)
  case (Cons it items)
  have "add_time_user env g tops it (tm, pts) =
      (if item_user it \<in> set tops then group_step (item_time env g) (\<lambda>m it. group_step item_user add_user_quota (num 0) it m) [] it tm else tm,
       if item_time env g it \<in> set pts then pts else pts @ [item_time env g it])"
    using fresh_entry [of "item_time env g it" "\<lambda>m. group_step item_user add_user_quota (num 0) it m" tm]
    unfolding add_time_user_def group_step_def Let_def prod.case by (cases "item_user it \<in> set tops") (simp_all only: simp_thms if_True if_False)
  then show ?case by (simp add: Cons.IH)
qed simp

lemma fold_uniq: "fold (\<lambda>t ps. if t \<in> set ps then ps else ps @ [t]) ts [] = uniq ts"
  by (induction ts rule: rev_induct) (simp_all add: uniq_snoc)

lemma user_quota_exact:
  assumes "exact_amounts qi_quota items" "u \<in> set tops"
  shows "user_quota_at (fst (fold (add_time_user env g tops) items ([], []))) t u = num (used qi_quota (of_user u (at_time env g t items)))"
proof -
  let ?xs = "filter (\<lambda>it. item_user it \<in> set tops) items"
  have e: "exact_amounts qi_quota (of_user v (at_time env g s ?xs))" for v s using assms(1) by (intro exact_filter)
  have m: "fst (fold (add_time_user env g tops) items ([], [])) =
      map (\<lambda>s. (s, map (\<lambda>v. (v, num (used qi_quota (of_user v (at_time env g s ?xs))))) (uniq (map item_user (at_time env g s ?xs))))) (uniq (map (item_time env g) ?xs))"
    unfolding time_user_fold fst_conv group_fold foldl_fold_flip [of "group_step item_user add_user_quota (num 0)"] user_total_exact [OF e] ..
  have same: "of_user u (at_time env g t ?xs) = of_user u (at_time env g t items)"
    using assms(2) by (auto simp: filter_filter intro!: filter_cong)
  show ?thesis
  proof (cases "\<exists>it \<in> set ?xs. item_time env g it = t \<and> item_user it = u")
    case True
    then have "t \<in> item_time env g ` set ?xs" "u \<in> item_user ` set (at_time env g t ?xs)" by auto
    then have "Option.bind (map_get t (fst (fold (add_time_user env g tops) items ([], [])))) (map_get u) = Some (num (used qi_quota (of_user u (at_time env g t ?xs))))"
      unfolding m by (simp add: map_get_def map_of_image)
    then show ?thesis unfolding user_quota_at_def same by (simp only: number_or_zero_num)
  next
    case False
    then have "u \<notin> item_user ` set (at_time env g t ?xs)" by auto
    then have "Option.bind (map_get t (fst (fold (add_time_user env g tops) items ([], [])))) (map_get u) = None"
      unfolding m by (auto simp add: map_get_def map_of_image)
    moreover have "of_user u (at_time env g t items) = []" unfolding same [symmetric] using False by (simp add: filter_empty_conv)
    ultimately show ?thesis by (simp add: user_quota_at_def number_or_zero_def)
  qed
qed

lemma filter_one: "distinct xs \<Longrightarrow> u \<in> set xs \<Longrightarrow> filter (\<lambda>x. x = u) xs = [u]"
  by (induction xs) (auto simp: filter_empty_conv)

text \<open>C20. The two charts of a user agree: for every user in the ranking, the points of its trend line add up to
  the quota of its bar.\<close>

theorem user_trend_matches_rank:
  assumes "exact_amounts qi_quota items" "c = processUserChartData env g limit items" "x \<in> set (pu_rank c)"
  shows "sum_list (map (\<lambda>p. int_of (up_rawQuota p)) (filter (\<lambda>p. up_User p = ur_User x) (pu_trend c))) = int_of (ur_rawQuota x)"
proof -
  let ?L = "take limit (ranked_users items)" and ?u = "ur_User x"
  let ?tm = "fst (fold (add_time_user env g (map fst ?L)) items ([], []))" and ?ts = "sort_by js_str_le (uniq (map (item_time env g) items))"
  note facts = ranked_users_facts [OF assms(1)]
  obtain q where q: "q \<in> set ?L" "x = \<lparr>ur_User = fst q, ur_rawQuota = snd q, ur_Usage = user_usage (per_unit env) (snd q)\<rparr>"
    using assms(3) unfolding assms(2) user_chart_rank by (auto simp del: set_sort_by)
  have top: "?u \<in> set (map fst ?L)" using q by (auto simp del: set_sort_by)
  have d: "distinct (map fst ?L)" using facts(1) by (metis distinct_take take_map)
  have ne: "items \<noteq> []" using assms(3) unfolding assms(2) user_chart_rank by (auto simp: user_quota_total_def)
  have "pu_trend c = concat (map (\<lambda>t. map (\<lambda>user. \<lparr>up_Time = t, up_User = user, up_rawQuota = user_quota_at ?tm t user,
      up_Usage = user_usage (per_unit env) (user_quota_at ?tm t user)\<rparr>) (map fst ?L)) ?ts)"
    using ne unfolding assms(2) processUserChartData_def Let_def case_prod_beta by (simp add: time_user_fold fold_uniq)
  then have "sum_list (map (\<lambda>p. int_of (up_rawQuota p)) (filter (\<lambda>p. up_User p = ?u) (pu_trend c))) =
      sum_list (map (\<lambda>t. sum_list (map (\<lambda>user. int_of (user_quota_at ?tm t user)) (filter (\<lambda>user. user = ?u) (map fst ?L)))) ?ts)"
    by (simp only: filter_concat map_map comp_def filter_map sum_concat UserPoint.select_convs)
  also have "\<dots> = sum_list (map (\<lambda>t. used qi_quota (at_time env g t (of_user ?u items))) ?ts)"
    unfolding filter_one [OF d top] list.map user_quota_exact [OF assms(1) top]
    by (simp only: int_of_num sum_list.Cons sum_list.Nil add_0_right filter_filter conj_commute)
  also have "\<dots> = used qi_quota (of_user ?u items)" by (intro sum_groups) auto
  also have "\<dots> = int_of (ur_rawQuota x)" using facts(4) in_set_takeD [OF q(1)] q(2) by (metis UserRank.select_convs(1,2) int_of_num)
  finally show ?thesis .
qed

subsection \<open>Concrete instances\<close>

text \<open>Days are numbered from the epoch in the calendar of the instances.\<close>

definition day_number :: "jsnum \<Rightarrow> jsstr" where
  "day_number ms = int_to_str (int_of ms div 86400000)"

definition sample_env :: ChartEnv where
  "sample_env = \<lparr>ce_cal = \<lparr>cal_startOfDay = (\<lambda>d. d), cal_endOfDay = (\<lambda>d. d), cal_addMonths = (\<lambda>d n. d), cal_addDays = (\<lambda>d n. d),
     cal_addHours = (\<lambda>d n. d), cal_format = (\<lambda>ms f. day_number ms)\<rparr>, ce_intl = en_intl, ce_state = tokens_state, ce_t = (\<lambda>s. s),
     ce_collate = js_str_le, ce_schemes = [(None, [JStr ''#1664FF''])]\<rparr>"

definition sample_item :: "jsstr \<Rightarrow> jsstr \<Rightarrow> int \<Rightarrow> int \<Rightarrow> QuotaDataItem" where
  "sample_item user model day quota = \<lparr>qi_username = Some user, qi_model_name = Some model, qi_created_at = num (day * 86400),
     qi_token_used = None, qi_count = Some (num 1), qi_quota = Some (num quota)\<rparr>"

definition week_items :: "QuotaDataItem list" where
  "week_items = [sample_item ''ann'' ''gpt'' 1 10, sample_item ''bob'' ''claude'' 2 20, sample_item ''ann'' ''gpt'' 3 30, sample_item ''cy'' ''gpt'' 4 40,
     sample_item ''bob'' ''claude'' 5 50, sample_item ''ann'' ''claude'' 6 60, sample_item ''ann'' ''gpt'' 7 70, sample_item ''cy'' [] 7 5]"

lemma week_facts: "exact_amounts qi_quota week_items" "exact_amounts qi_count week_items" "card (item_time sample_env Day ` set week_items) = 7"
  "sum_list (map (amount qi_quota) week_items) = 285" "sum_list (map (amount qi_count) week_items) = 8"
  by code_simp+

theorem charts_account_for_all_witness:
  "sum_list (map (\<lambda>r. int_of (cp_rawQuota r)) (pc_area (processChartData sample_env Day week_items))) = 285 \<and>
   sum_list (map (\<lambda>r. int_of (cr_Count r)) (pc_rank (processChartData sample_env Day week_items))) = 8"
  using charts_account_for_all [OF week_facts(1,2), of sample_env Day "processChartData sample_env Day week_items"] week_facts(3-5) by simp

theorem chart_bars_exact_witness:
  "list_all (\<lambda>r. cp_rawQuota r = num (sum_list (map (amount qi_quota)
     (filter (\<lambda>it. item_time sample_env Day it = cp_Time r \<and> item_model it = cp_Model r) week_items)))) (pc_line (processChartData sample_env Day week_items))"
  unfolding list_all_iff by (rule chart_bars_exact [OF week_facts(1)])

definition month_items :: "QuotaDataItem list" where
  "month_items = [sample_item ''ann'' ''gpt'' 1 10, sample_item ''ann'' ''gpt'' 30 20]"

lemma month_facts: "padded_times sample_env Day month_items = [''24'', ''25'', ''26'', ''27'', ''28'', ''29'', ''30'']"
  "card (item_time sample_env Day ` set month_items) = 2" "map (item_time sample_env Day) month_items = [''1'', ''30'']"
  "total_of t_quota (snd (aggregate sample_env Day month_items)) = num 30"
  by code_simp+

theorem short_history_window_witness:
  "''1'' \<in> set (map (item_time sample_env Day) month_items) \<and> ''1'' \<notin> cp_Time ` set (pc_line (processChartData sample_env Day month_items)) \<and>
   total_of t_quota (snd (aggregate sample_env Day month_items)) = num 30"
proof -
  have "month_items \<noteq> []" by (simp add: month_items_def)
  then have "cp_Time ` set (pc_line (processChartData sample_env Day month_items)) \<subseteq> set (padded_times sample_env Day month_items)"
    using short_history_window [of month_items sample_env Day] month_facts(2) by simp
  then show ?thesis using month_facts by auto
qed

theorem user_ranking_top_witness:
  "length (pu_rank (processUserChartData sample_env Day 2 week_items)) = 2 \<and>
   sorted_wrt (\<lambda>a b. int_of (ur_rawQuota b) \<le> int_of (ur_rawQuota a)) (pu_rank (processUserChartData sample_env Day 2 week_items))"
proof -
  have "card (item_user ` set week_items) = 3" by code_simp
  then show ?thesis using user_ranking_top [OF week_facts(1) refl, of sample_env Day 2] by simp
qed

theorem user_trend_matches_rank_witness:
  "sum_list (map (\<lambda>p. int_of (up_rawQuota p)) (filter (\<lambda>p. up_User p = ''ann'') (pu_trend (processUserChartData sample_env Day 2 week_items)))) = 170"
proof -
  let ?x = "\<lparr>ur_User = ''ann'', ur_rawQuota = num 170, ur_Usage = user_usage (per_unit sample_env) (num 170)\<rparr>"
  have "(''ann'', num 170) \<in> set (take 2 (ranked_users week_items))" by code_simp
  then have "?x \<in> set (pu_rank (processUserChartData sample_env Day 2 week_items))"
    unfolding user_chart_rank by (force simp del: set_sort_by)
  then show ?thesis using user_trend_matches_rank [OF week_facts(1) refl, of ?x sample_env Day 2] by simp
qed

end
