(* ===== verification/Js_Base64.thy ===== *)
theory Js_Base64
  imports Js_Prelude
begin

section \<open>Base64\<close>

text \<open>
  \<open>atob\<close> as the platform specifies it: white space is dropped, a length divisible by four may end in one or two
  padding characters, any other character outside the alphabet or a length of one modulo four is an error (None), and
  the sextets are regrouped into bytes. \<open>btoa\<close> is the encoder; \<open>atob_btoa\<close> is the round trip.
\<close>

definition b64_alphabet :: jsstr where
  "b64_alphabet = ''ABCDEFGHIJKLMNOPQRSTUVWXYZabcdefghijklmnopqrstuvwxyz0123456789+/''"

fun index_of :: "char \<Rightarrow> jsstr \<Rightarrow> nat option" where
  "index_of c [] = None"
| "index_of c (d # s) = (if c = d then Some 0 else map_option Suc (index_of c s))"

definition b64_val :: "char \<Rightarrow> nat option" where
  "b64_val c = index_of c b64_alphabet"

definition b64_char :: "nat \<Rightarrow> char" where
  "b64_char n = b64_alphabet ! n"

definition byte :: "nat \<Rightarrow> char" where
  "byte n = char_of n"

fun b64_bytes :: "nat list \<Rightarrow> jsstr" where
  "b64_bytes (a # b # c # d # s) = byte (a * 4 + b div 16) # byte (b mod 16 * 16 + c div 4) # byte (c mod 4 * 64 + d) # b64_bytes s"
| "b64_bytes [a, b, c] = [byte (a * 4 + b div 16), byte (b mod 16 * 16 + c div 4)]"
| "b64_bytes [a, b] = [byte (a * 4 + b div 16)]"
| "b64_bytes _ = []"

definition ascii_ws :: "char \<Rightarrow> bool" where
  "ascii_ws c \<longleftrightarrow> c \<in> {CHR 0x09, CHR 0x0A, CHR 0x0C, CHR 0x0D, CHR '' ''}"

fun drop_pad :: "nat \<Rightarrow> jsstr \<Rightarrow> jsstr" where
  \<comment> \<open>of the reversed text: at most \<open>n\<close> padding characters\<close>
  "drop_pad (Suc n) (c # s) = (if c = CHR ''='' then drop_pad n s else c # s)"
| "drop_pad _ s = s"

definition unpad :: "jsstr \<Rightarrow> jsstr" where
  "unpad s = (if length s mod 4 = 0 then rev (drop_pad 2 (rev s)) else s)"

definition atob :: "jsstr \<Rightarrow> jsstr option" where
  "atob s = (let t = unpad (filter (\<lambda>c. \<not> ascii_ws c) s) in
     if length t mod 4 = 1 then None else map_option b64_bytes (those (map b64_val t)))"

fun b64_sextets :: "nat list \<Rightarrow> nat list" where
  "b64_sextets (x # y # z # s) = x div 4 # (x mod 4 * 16 + y div 16) # (y mod 16 * 4 + z div 64) # z mod 64 # b64_sextets s"
| "b64_sextets [x, y] = [x div 4, x mod 4 * 16 + y div 16, y mod 16 * 4]"
| "b64_sextets [x] = [x div 4, x mod 4 * 16]"
| "b64_sextets [] = []"

definition btoa :: "jsstr \<Rightarrow> jsstr" where
  "btoa s = map b64_char (b64_sextets (map of_char s)) @ replicate ((3 - length s mod 3) mod 3) CHR ''=''"

lemma alphabet_vals: "list_all (\<lambda>n. b64_val (b64_char n) = Some n \<and> \<not> ascii_ws (b64_char n) \<and> b64_char n \<noteq> CHR ''='') [0..<64]"
  by code_simp

lemma b64_char_val: "n < 64 \<Longrightarrow> b64_val (b64_char n) = Some n \<and> \<not> ascii_ws (b64_char n) \<and> b64_char n \<noteq> CHR ''=''"
  using alphabet_vals by (simp add: list_all_iff)

lemma sextets_small: "\<forall>x \<in> set bs. x < 256 \<Longrightarrow> \<forall>n \<in> set (b64_sextets bs). n < 64"
  by (induction bs rule: b64_sextets.induct) auto

lemma sextets_length: "length (b64_sextets bs) = (length bs * 4 + 2) div 3"
  by (induction bs rule: b64_sextets.induct) auto

lemma regroup:
  fixes x y z :: nat assumes "x < 256" "y < 256" "z < 256"
  shows "x div 4 * 4 + (x mod 4 * 16 + y div 16) div 16 = x"
    "(x mod 4 * 16 + y div 16) mod 16 * 16 + (y mod 16 * 4 + z div 64) div 4 = y"
    "(y mod 16 * 4 + z div 64) mod 4 * 64 + z mod 64 = z"
proof -
  have "y div 16 < 16" "z div 64 < 4" using assms by simp_all
  then show "x div 4 * 4 + (x mod 4 * 16 + y div 16) div 16 = x"
    "(x mod 4 * 16 + y div 16) mod 16 * 16 + (y mod 16 * 4 + z div 64) div 4 = y"
    "(y mod 16 * 4 + z div 64) mod 4 * 64 + z mod 64 = z" by simp_all
qed

lemma bytes_sextets: "\<forall>x \<in> set bs. x < 256 \<Longrightarrow> b64_bytes (b64_sextets bs) = map byte bs"
proof (induction bs rule: b64_sextets.induct)
  case (1 x y z s)
  then show ?case using regroup [of x y z] by simp
next
  case (2 x y)
  then show ?case using regroup [of x y 0] by simp
next
  case (3 x)
  then show ?case using regroup [of x 0 0] by simp
qed simp

lemma those_vals: "\<forall>n \<in> set ns. n < 64 \<Longrightarrow> those (map b64_val (map b64_char ns)) = Some ns"
  by (induction ns) (simp_all add: b64_char_val)

lemma drop_pad_end: "s = [] \<or> hd s \<noteq> CHR ''='' \<Longrightarrow> k \<le> n \<Longrightarrow> drop_pad n (replicate k CHR ''='' @ s) = s"
proof (induction k arbitrary: n)
  case 0
  then show ?case by (cases n; cases s) auto
next
  case (Suc k)
  then show ?case by (cases n) auto
qed

theorem atob_btoa: "atob (btoa s) = Some s"
proof -
  let ?bs = "map of_char s :: nat list"
  let ?e = "map b64_char (b64_sextets ?bs)" and ?k = "(3 - length s mod 3) mod 3"
  have small: "\<forall>x \<in> set ?bs. x < 256" by auto
  have six: "\<forall>n \<in> set (b64_sextets ?bs). n < 64" by (rule sextets_small [OF small])
  then have clean: "\<forall>c \<in> set ?e. \<not> ascii_ws c \<and> c \<noteq> CHR ''=''" by (auto simp: b64_char_val)
  then have f: "filter (\<lambda>c. \<not> ascii_ws c) (btoa s) = btoa s" by (auto simp: btoa_def filter_id_conv ascii_ws_def)
  have len: "length ?e = (length s * 4 + 2) div 3" by (simp add: sextets_length)
  have "\<exists>q r. length s = 3 * q + r \<and> r < 3" by (metis mod_less_divisor mult_div_mod_eq zero_less_numeral)
  then obtain q r where l: "length s = 3 * q + r" "r < 3" by blast
  then have r: "r = 0 \<or> r = 1 \<or> r = 2" by linarith
  then have k: "?k = (if r = 0 then 0 else 3 - r)" "length ?e = 4 * q + (if r = 0 then 0 else r + 1)" using l len by auto
  have four: "length (btoa s) mod 4 = 0" "length ?e mod 4 \<noteq> 1" "?k \<le> 2" using r k by (auto simp: btoa_def)
  have "rev ?e = [] \<or> hd (rev ?e) \<noteq> CHR ''=''" using clean by (metis hd_in_set set_rev)
  then have "drop_pad 2 (rev (btoa s)) = rev ?e" using four(3) unfolding btoa_def rev_append rev_replicate by (rule drop_pad_end)
  then have "unpad (btoa s) = ?e" using four(1) by (simp add: unpad_def)
  moreover have "map byte ?bs = s" by (simp add: byte_def comp_def)
  ultimately show ?thesis using four(2) by (simp add: atob_def Let_def f those_vals [OF six, simplified] bytes_sextets [OF small])
qed

end
