(* ===== verification/Usage_Logs.thy ===== *)
theory Usage_Logs
  imports Dashboard_Data Dynamic_Price Js_Base64 Param_Override
begin

section \<open>Usage logs\<close>

text \<open>
  Model of \<^verbatim>\<open>features/usage-logs/lib\<close>: the requests (\<^verbatim>\<open>utils.ts\<close>, \<^verbatim>\<open>filter.ts\<close>), the presentation of an
  entry (\<^verbatim>\<open>format.ts\<close>, \<^verbatim>\<open>avatar-color.ts\<close>) and the status tables (\<^verbatim>\<open>status.ts\<close>, \<^verbatim>\<open>mappers.ts\<close>), with the constants of the
  feature and \<open>normalizeTierLabel\<close> of \<^verbatim>\<open>features/pricing/lib/billing-expr.ts\<close>.

  Search parameters are an object of JSON values; in the parameters of a request a value may be \<open>undefined\<close> (None), and
  the query string leaves such parameters out. A request is the name of the API function with its parameters. The decoder of
  UTF-8 is a parameter. Strings have the characters of Latin-1, so the full-width comparison signs that
  \<open>normalizeTierLabel\<close> also replaces do not occur. A function that throws a \<open>TypeError\<close> returns None.

  Shown: the log requests of a user never name another user or a channel; what is set in the filter dialog reaches
  the request; a log entry of a tier that the tier editor saved shows exactly the prices of that tier; the hue,
  saturation and lightness of an avatar are within their bounds.
\<close>

subsection \<open>Types and tables\<close>

definition DISPLAYABLE_LOG_TYPES :: "int list" where "DISPLAYABLE_LOG_TYPES = [0, 2, 5, 6]"
definition TIMING_LOG_TYPES :: "int list" where "TIMING_LOG_TYPES = [2, 5]"

record LogType =
  lt_value :: int
  lt_label :: jsstr
  lt_color :: jsstr

definition LOG_TYPES :: "LogType list" where
  "LOG_TYPES = [
     \<lparr>lt_value = 0, lt_label = ''Unknown'', lt_color = ''default''\<rparr>, \<lparr>lt_value = 1, lt_label = ''Top-up'', lt_color = ''cyan''\<rparr>,
     \<lparr>lt_value = 2, lt_label = ''Consume'', lt_color = ''green''\<rparr>, \<lparr>lt_value = 3, lt_label = ''Manage'', lt_color = ''orange''\<rparr>,
     \<lparr>lt_value = 4, lt_label = ''System'', lt_color = ''purple''\<rparr>, \<lparr>lt_value = 5, lt_label = ''Error'', lt_color = ''red''\<rparr>,
     \<lparr>lt_value = 6, lt_label = ''Refund'', lt_color = ''blue''\<rparr>]"

definition LOG_TYPE_FILTERS :: "(jsstr \<times> jsstr) list" where
  "LOG_TYPE_FILTERS = map (\<lambda>type. (lt_label type, int_to_str (lt_value type))) LOG_TYPES"

definition isDisplayableLogType :: "jsnum \<Rightarrow> bool" where
  "isDisplayableLogType type \<longleftrightarrow> list_ex (\<lambda>t. js_eq (num t) type) DISPLAYABLE_LOG_TYPES"

definition isTimingLogType :: "jsnum \<Rightarrow> bool" where
  "isTimingLogType type \<longleftrightarrow> list_ex (\<lambda>t. js_eq (num t) type) TIMING_LOG_TYPES"

definition getLogTypeConfig :: "jsnum \<Rightarrow> LogType" where
  "getLogTypeConfig type = (case List.find (\<lambda>t. js_eq (num (lt_value t)) type) LOG_TYPES of Some t \<Rightarrow> t | None \<Rightarrow> hd LOG_TYPES)"

definition isPerCallBilling :: "jsnum option \<Rightarrow> bool" where
  "isPerCallBilling modelPrice \<longleftrightarrow> js_gt (case modelPrice of Some p \<Rightarrow> p | None \<Rightarrow> num 0) (num 0)"

record StatusMapping =
  sm_label :: jsstr
  sm_variant :: jsstr

abbreviation status_as :: "jsstr \<Rightarrow> jsstr \<Rightarrow> jsstr \<Rightarrow> jsstr \<times> StatusMapping" where
  "status_as k l v \<equiv> (k, \<lparr>sm_label = l, sm_variant = v\<rparr>)"

definition MJ_TASK_TYPE_MAPPINGS :: "StatusMapping obj" where
  "MJ_TASK_TYPE_MAPPINGS = [
     status_as ''IMAGINE'' ''Draw'' ''blue'', status_as ''UPSCALE'' ''Upscale'' ''orange'', status_as ''VIDEO'' ''Video'' ''orange'',
     status_as ''EDITS'' ''Edit'' ''orange'', status_as ''VARIATION'' ''Vary'' ''violet'', status_as ''HIGH_VARIATION'' ''Vary (Strong)'' ''violet'',
     status_as ''LOW_VARIATION'' ''Vary (Subtle)'' ''violet'', status_as ''PAN'' ''Pan'' ''cyan'', status_as ''DESCRIBE'' ''Describe'' ''yellow'',
     status_as ''BLEND'' ''Blend'' ''lime'', status_as ''UPLOAD'' ''Upload'' ''blue'', status_as ''SHORTEN'' ''Shorten'' ''pink'',
     status_as ''REROLL'' ''Reroll'' ''indigo'', status_as ''INPAINT'' ''Inpaint'' ''teal'', status_as ''SWAP_FACE'' ''Swap Face'' ''purple'',
     status_as ''ZOOM'' ''Zoom'' ''green'', status_as ''CUSTOM_ZOOM'' ''Custom Zoom'' ''green'']"

definition MJ_STATUS_MAPPINGS :: "StatusMapping obj" where
  "MJ_STATUS_MAPPINGS = [
     status_as ''SUCCESS'' ''Success'' ''green'', status_as ''NOT_START'' ''Not Started'' ''neutral'', status_as ''SUBMITTED'' ''Queued'' ''yellow'',
     status_as ''IN_PROGRESS'' ''In Progress'' ''blue'', status_as ''FAILURE'' ''Failed'' ''red'', status_as ''MODAL'' ''Waiting'' ''amber'']"

definition MJ_SUBMIT_RESULT_MAPPINGS :: "StatusMapping obj" where
  "MJ_SUBMIT_RESULT_MAPPINGS = [
     status_as ''1'' ''Submitted'' ''green'', status_as ''21'' ''Waiting'' ''lime'', status_as ''22'' ''Duplicate'' ''orange'', status_as ''0'' ''Not Submitted'' ''yellow'']"

definition TASK_ACTION_MAPPINGS :: "StatusMapping obj" where
  "TASK_ACTION_MAPPINGS = [
     status_as ''MUSIC'' ''Generate Music'' ''neutral'', status_as ''LYRICS'' ''Generate Lyrics'' ''pink'', status_as ''generate'' ''Image to Video'' ''blue'',
     status_as ''textGenerate'' ''Text to Video'' ''blue'', status_as ''firstTailGenerate'' ''First/Last Frame to Video'' ''blue'',
     status_as ''referenceGenerate'' ''Reference Video'' ''blue'', status_as ''remixGenerate'' ''Video Remix'' ''blue'']"

definition TASK_STATUS_MAPPINGS :: "StatusMapping obj" where
  "TASK_STATUS_MAPPINGS = [
     status_as ''SUCCESS'' ''Success'' ''green'', status_as ''NOT_START'' ''Not Started'' ''neutral'', status_as ''SUBMITTED'' ''Queued'' ''yellow'',
     status_as ''IN_PROGRESS'' ''In Progress'' ''blue'', status_as ''FAILURE'' ''Failed'' ''red'', status_as ''QUEUED'' ''Queued'' ''orange'',
     status_as ''UNKNOWN'' ''Unknown'' ''neutral'']"

definition TASK_PLATFORM_MAPPINGS :: "StatusMapping obj" where
  "TASK_PLATFORM_MAPPINGS = [
     status_as ''suno'' ''suno'' ''green'', status_as ''kling'' ''kling'' ''blue'', status_as ''runway'' ''runway'' ''violet'',
     status_as ''luma'' ''luma'' ''orange'', status_as ''viggle'' ''viggle'' ''pink'']"

definition mapper_getLabel :: "StatusMapping obj \<Rightarrow> jsstr \<Rightarrow> jsstr \<Rightarrow> jsstr" where
  "mapper_getLabel mapping status defaultLabel = (case obj_get status mapping of Some m \<Rightarrow> sm_label m | None \<Rightarrow> defaultLabel)"

definition mapper_getVariant :: "StatusMapping obj \<Rightarrow> jsstr \<Rightarrow> jsstr \<Rightarrow> jsstr" where
  "mapper_getVariant mapping status defaultVariant = (case obj_get status mapping of Some m \<Rightarrow> sm_variant m | None \<Rightarrow> defaultVariant)"

subsection \<open>Requests\<close>

type_synonym params = "json option obj"


definition getDefaultTimeRange :: "Calendar \<Rightarrow> jsnum \<Rightarrow> jsnum \<times> jsnum" where
  "getDefaultTimeRange cal now = (cal_startOfDay cal now, js_add now (num (3600 * 1000)))"

definition timestampToSeconds :: "jsnum \<Rightarrow> jsnum" where
  "timestampToSeconds ms = js_floor (js_div ms (num 1000))"

definition nullish_or :: "json option \<Rightarrow> json option \<Rightarrow> json option" where
  \<comment> \<open>\<open>a ?? b\<close>\<close>
  "nullish_or a b = (case a of None \<Rightarrow> b | Some JNull \<Rightarrow> b | Some v \<Rightarrow> Some v)"

definition getTimestamp :: "bool \<Rightarrow> json option \<Rightarrow> jsnum option \<Rightarrow> json option" where
  \<comment> \<open>a time that is no number is passed through the arithmetic, or through unchanged in milliseconds\<close>
  "getTimestamp useMilliseconds paramTime defaultTime =
     (let time = (if js_truthy paramTime then paramTime else map_option JNum defaultTime) in
      if js_truthy time then (if useMilliseconds then time else Some (JNum (timestampToSeconds (js_Number time)))) else None)"

definition buildTimeRangeParams :: "Calendar \<Rightarrow> jsnum \<Rightarrow> json obj \<Rightarrow> bool \<Rightarrow> params" where
  "buildTimeRangeParams cal now searchParams useMilliseconds =
     (let hasTimeParams = nullish_or (obj_get ''startTime'' searchParams) (obj_get ''endTime'' searchParams);
          defaultTimeRange = (if js_truthy hasTimeParams then None else Some (getDefaultTimeRange cal now)) in
      [(''start_timestamp'', getTimestamp useMilliseconds (obj_get ''startTime'' searchParams) (map_option fst defaultTimeRange)),
       (''end_timestamp'', getTimestamp useMilliseconds (obj_get ''endTime'' searchParams) (map_option snd defaultTimeRange))])"

definition text_param :: "jsstr \<Rightarrow> jsstr \<Rightarrow> json obj \<Rightarrow> params" where
  \<comment> \<open>\<open>...(searchParams.k ? { key: String(searchParams.k) } : {})\<close>\<close>
  "text_param key k searchParams = (case obj_get k searchParams of
       Some v \<Rightarrow> if js_truthy (Some v) then [(key, Some (JStr (js_String v)))] else []
     | None \<Rightarrow> [])"


fun processType :: "json \<Rightarrow> json option" where
  "processType (JArr [v]) = Some (JNum (js_Number (Some v)))"
| "processType _ = None"

definition channel_number :: "json \<Rightarrow> json" where
  "channel_number v = JNum (num_or (js_Number (Some v)) (num 0))"

definition search_params :: "Calendar \<Rightarrow> jsnum \<Rightarrow> jsnum \<Rightarrow> jsnum \<Rightarrow> json obj \<Rightarrow> bool \<Rightarrow> params" where
  "search_params cal now page pageSize searchParams isAdmin =
     [(''p'', Some (JNum page)), (''page_size'', Some (JNum pageSize))] @
     (case obj_get ''type'' searchParams of Some v \<Rightarrow> if js_truthy (Some v) then [(''type'', processType v)] else [] | None \<Rightarrow> []) @
     text_param ''model_name'' ''model'' searchParams @ text_param ''token_name'' ''token'' searchParams @ text_param ''group'' ''group'' searchParams @
     (case obj_get ''channel'' searchParams of Some v \<Rightarrow> if isAdmin \<and> js_truthy (Some v) then [(''channel'', Some (channel_number v))] else [] | None \<Rightarrow> []) @
     (if isAdmin then text_param ''username'' ''username'' searchParams else []) @
     text_param ''request_id'' ''requestId'' searchParams @ buildTimeRangeParams cal now searchParams False"

definition column_filter :: "bool \<Rightarrow> jsstr \<times> json option \<Rightarrow> params \<Rightarrow> params" where
  "column_filter isAdmin f params = (case snd f of
       None \<Rightarrow> params
     | Some v \<Rightarrow>
         if v = JNull \<or> v = JStr [] then params
         else if fst f = ''type'' then obj_set ''type'' (processType v) params
         else if fst f \<in> {''model_name'', ''token_name'', ''group''} then obj_set (fst f) (Some (JStr (js_String v))) params
         else if fst f = ''channel'' then (if isAdmin then obj_set ''channel'' (Some (channel_number v)) params else params)
         else if fst f = ''username'' then (if isAdmin then obj_set ''username'' (Some (JStr (js_String v))) params else params)
         else params)"

definition buildApiParams :: "Calendar \<Rightarrow> jsnum \<Rightarrow> jsnum \<Rightarrow> jsnum \<Rightarrow> json obj \<Rightarrow> (jsstr \<times> json option) list \<Rightarrow> bool \<Rightarrow> params" where
  "buildApiParams cal now page pageSize searchParams columnFilters isAdmin =
     fold (column_filter isAdmin) columnFilters (search_params cal now page pageSize searchParams isAdmin)"

datatype LogCategory = CommonLogs | DrawingLogs | TaskLogs



record LogFilters =
  lf_startTime :: "jsnum option"
  lf_endTime :: "jsnum option"
  lf_channel :: "jsstr option"
  lf_model :: "jsstr option"
  lf_token :: "jsstr option"
  lf_group :: "jsstr option"
  lf_username :: "jsstr option"
  lf_requestId :: "jsstr option"
  lf_mjId :: "jsstr option"
  lf_taskId :: "jsstr option"

definition when_text :: "jsstr \<Rightarrow> jsstr option \<Rightarrow> json obj" where
  "when_text k v = (case v of Some s \<Rightarrow> if s \<noteq> [] then [(k, JStr s)] else [] | None \<Rightarrow> [])"

definition when_time :: "jsstr \<Rightarrow> jsnum option \<Rightarrow> json obj" where
  "when_time k v = (case v of Some t \<Rightarrow> [(k, JNum t)] | None \<Rightarrow> [])"

definition buildSearchParams :: "LogFilters \<Rightarrow> LogCategory \<Rightarrow> json obj" where
  "buildSearchParams filters logCategory =
     (let baseParams = when_time ''startTime'' (lf_startTime filters) @ when_time ''endTime'' (lf_endTime filters) @ when_text ''channel'' (lf_channel filters) in
      case logCategory of
        CommonLogs \<Rightarrow> baseParams @ when_text ''model'' (lf_model filters) @ when_text ''token'' (lf_token filters) @ when_text ''group'' (lf_group filters) @
          when_text ''username'' (lf_username filters) @ when_text ''requestId'' (lf_requestId filters)
      | DrawingLogs \<Rightarrow> baseParams @ when_text ''filter'' (lf_mjId filters)
      | TaskLogs \<Rightarrow> baseParams @ when_text ''filter'' (lf_taskId filters))"

definition getLogCategoryLabel :: "LogCategory \<Rightarrow> jsstr" where
  "getLogCategoryLabel category = (case category of CommonLogs \<Rightarrow> ''Common'' | DrawingLogs \<Rightarrow> ''Drawing'' | TaskLogs \<Rightarrow> ''Task'')"

subsection \<open>Presentation of an entry\<close>

definition PARAM_OVERRIDE_ACTION_MAP :: "jsstr obj" where
  "PARAM_OVERRIDE_ACTION_MAP = [(''set'', ''Set''), (''delete'', ''Delete''), (''copy'', ''Copy''), (''move'', ''Move''), (''append'', ''Append''),
     (''prepend'', ''Prepend''), (''trim_prefix'', ''Trim Prefix''), (''trim_suffix'', ''Trim Suffix''), (''ensure_prefix'', ''Ensure Prefix''),
     (''ensure_suffix'', ''Ensure Suffix''), (''trim_space'', ''Trim Space''), (''to_lower'', ''To Lower''), (''to_upper'', ''To Upper''),
     (''replace'', ''Replace''), (''regex_replace'', ''Regex Replace''), (''set_header'', ''Set Header''), (''delete_header'', ''Delete Header''),
     (''copy_header'', ''Copy Header''), (''move_header'', ''Move Header''), (''pass_headers'', ''Pass Headers''), (''sync_fields'', ''Sync Fields''),
     (''return_error'', ''Return Error'')]"

definition getParamOverrideActionLabel :: "(jsstr \<Rightarrow> jsstr) \<Rightarrow> jsstr \<Rightarrow> jsstr" where
  "getParamOverrideActionLabel t action = (case obj_get (js_toLowerCase action) PARAM_OVERRIDE_ACTION_MAP of Some key \<Rightarrow> t key | None \<Rightarrow> action)"

definition parseAuditLine :: "json \<Rightarrow> (jsstr \<times> jsstr) option" where
  "parseAuditLine line = (case line of
       JStr s \<Rightarrow> Some (case js_find '' '' s of
           Some i \<Rightarrow> if i = 0 then (s, s) else (take i s, drop (i + 1) s)
         | None \<Rightarrow> (s, s))
     | _ \<Rightarrow> None)"

definition isViolationFeeLog :: "json option \<Rightarrow> bool" where
  "isViolationFeeLog other \<longleftrightarrow> js_truthy other \<and> (js_prop other ''violation_fee'' = Some (JBool True) \<or>
     js_truthy (js_prop other ''violation_fee_code'') \<or> js_truthy (js_prop other ''violation_fee_marker''))"

definition parseLogOther :: "jsstr \<Rightarrow> json" where
  "parseLogOther other = (if other = [] then JNull else (case json_parse other of Some v \<Rightarrow> v | None \<Rightarrow> JNull))"

definition getTimeColor :: "jsnum \<Rightarrow> jsstr" where
  "getTimeColor seconds = (if js_lt seconds (num 10) then ''success'' else if js_lt seconds (num 30) then ''warning'' else ''danger'')"

definition getFirstResponseTimeColor :: "jsnum \<Rightarrow> jsstr" where
  "getFirstResponseTimeColor seconds = (if js_lt seconds (num 5) then ''success'' else if js_lt seconds (num 10) then ''warning'' else ''danger'')"

definition getThroughputColor :: "jsnum \<Rightarrow> jsstr" where
  "getThroughputColor tokensPerSecond =
     (if js_ge tokensPerSecond (num 30) then ''success'' else if js_ge tokensPerSecond (num 15) then ''warning'' else ''danger'')"

definition getResponseTimeColor :: "jsnum \<Rightarrow> jsnum \<Rightarrow> jsstr" where
  "getResponseTimeColor seconds completionTokens =
     (if js_lt completionTokens (num 100) \<or> js_le seconds (num 0) then getTimeColor seconds
      else getThroughputColor (js_div completionTokens seconds))"

record ModelNameInfo =
  mn_name :: jsstr
  mn_isMapped :: bool
  mn_actualModel :: "json option"

definition formatModelName :: "jsstr \<Rightarrow> jsstr \<Rightarrow> ModelNameInfo" where
  \<comment> \<open>\<open>log.model_name\<close> and \<open>log.other\<close>\<close>
  "formatModelName modelName logOther =
     (let other = Some (parseLogOther logOther);
          isMapped = (js_truthy (js_prop other ''is_model_mapped'') \<and> js_truthy (js_prop other ''upstream_model_name'')) in
      \<lparr>mn_name = modelName, mn_isMapped = isMapped, mn_actualModel = (if isMapped then js_prop other ''upstream_model_name'' else None)\<rparr>)"

definition formatDuration :: "jsnum option \<Rightarrow> jsnum option \<Rightarrow> bool \<Rightarrow> (jsnum \<times> jsstr) option" where
  "formatDuration submitTime finishTime milliseconds =
     (case (submitTime, finishTime) of
        (Some s, Some f) \<Rightarrow>
          if js_truthy_num s \<and> js_truthy_num f then
            (let durationSec = (if milliseconds then js_div (js_sub f s) (num 1000) else js_sub f s) in
             Some (durationSec, if js_gt durationSec (num 60) then ''red'' else ''green''))
          else None
      | _ \<Rightarrow> None)"

subsection \<open>Avatar colours\<close>

definition avatar_hash_step :: "int \<Rightarrow> char \<Rightarrow> int" where
  "avatar_hash_step h c = (h * 31 + of_char c) mod 2 ^ 32"

definition avatar_hash :: "jsstr \<Rightarrow> int" where
  "avatar_hash value = foldl avatar_hash_step 0 value"

definition js_rem :: "int \<Rightarrow> int \<Rightarrow> int" where
  \<comment> \<open>\<open>%\<close> has the sign of the dividend\<close>
  "js_rem a b = (if a < 0 then - ((- a) mod b) else a mod b)"

definition avatar_hue :: "jsstr \<Rightarrow> int" where "avatar_hue name = js_rem (avatar_hash name) 360"
definition avatar_saturation :: "jsstr \<Rightarrow> int" where "avatar_saturation name = 54 + js_rem (avatar_hash name) 8"
definition avatar_lightness :: "jsstr \<Rightarrow> int" where
  \<comment> \<open>\<open>>>\<close> shifts the value as a signed 32-bit number\<close>
  "avatar_lightness name = 52 + js_rem (to_int32 (avatar_hash name) div 2 ^ 4) 8"

definition getLogAvatarStyle :: "jsstr \<Rightarrow> jsstr \<times> jsstr" where
  "getLogAvatarStyle name =
     (''hsl('' @ int_to_str (avatar_hue name) @ '' '' @ int_to_str (avatar_saturation name) @ ''% '' @ int_to_str (avatar_lightness name) @ ''% / 0.82)'', ''white'')"

subsection \<open>The tier of an entry\<close>

fun merge_eq :: "char \<Rightarrow> jsstr \<Rightarrow> jsstr" where
  \<comment> \<open>\<open>replace(/c=?/g, 'c')\<close>\<close>
  "merge_eq c [] = []"
| "merge_eq c [d] = [d]"
| "merge_eq c (d # e # s) = (if d = c \<and> e = CHR ''='' then d # merge_eq c s else d # merge_eq c (e # s))"

definition normalizeTierLabel :: "jsstr \<Rightarrow> jsstr" where
  "normalizeTierLabel lab = js_toLowerCase (filter (\<lambda>c. \<not> js_ws c) (merge_eq CHR ''>'' (merge_eq CHR ''<'' lab)))"

definition decodeBillingExprB64 :: "(jsstr \<Rightarrow> jsstr) \<Rightarrow> json option \<Rightarrow> jsstr" where
  "decodeBillingExprB64 utf8 exprB64 = (case exprB64 of
       Some v \<Rightarrow> if js_truthy (Some v) then (case atob (js_String v) of Some bytes \<Rightarrow> utf8 bytes | None \<Rightarrow> []) else []
     | None \<Rightarrow> [])"

definition resolveMatchedTier :: "ParsedTier list \<Rightarrow> json option \<Rightarrow> ParsedTier option option" where
  \<comment> \<open>the outer None when \<open>replace\<close> is called on a label that is no string\<close>
  "resolveMatchedTier tiers matchedLabel =
     (if tiers = [] \<or> \<not> js_truthy matchedLabel then Some None
      else (case matchedLabel of
          Some (JStr l) \<Rightarrow>
            Some (List.find (\<lambda>tier. normalizeTierLabel (pt_label tier) = normalizeTierLabel l \<and> normalizeTierLabel (pt_label tier) \<noteq> []) tiers)
        | _ \<Rightarrow> None))"

definition token_count :: "json option \<Rightarrow> jsstr \<Rightarrow> jsnum" where
  \<comment> \<open>\<open>other.k || 0\<close> as a number\<close>
  "token_count other k = js_Number (Some (js_or (js_prop other k) (JNum (num 0))))"

definition hasAnyCacheTokens :: "json option \<Rightarrow> bool" where
  "hasAnyCacheTokens other \<longleftrightarrow> js_truthy other \<and>
     list_ex (\<lambda>k. js_gt (token_count other k) (num 0)) [''cache_tokens'', ''cache_creation_tokens'', ''cache_creation_tokens_5m'', ''cache_creation_tokens_1h'']"

record PriceEntry =
  pe_field :: jsstr
  pe_shortLabel :: jsstr
  pe_price :: jsnum

record TieredBillingSummary =
  tb_tiers :: "ParsedTier list"
  tb_tier :: ParsedTier
  tb_priceEntries :: "PriceEntry list"

definition log_price :: "bool \<Rightarrow> ParsedTier \<Rightarrow> BillingVar \<Rightarrow> PriceEntry list" where
  "log_price cacheTokensPresent tier v = (case v_field v of
       None \<Rightarrow> []
     | Some field \<Rightarrow>
         if field = [] \<or> v_group v = Some ''cache'' \<and> \<not> cacheTokensPresent then []
         else (let price = tier_price tier field in
               if js_isFinite price \<and> js_gt price (num 0) then [\<lparr>pe_field = field, pe_shortLabel = v_shortLabel v, pe_price = price\<rparr>] else []))"

definition getTieredBillingSummary :: "(jsstr \<Rightarrow> jsstr) \<Rightarrow> json option \<Rightarrow> TieredBillingSummary option option" where
  "getTieredBillingSummary utf8 other =
     (if \<not> js_truthy other \<or> js_prop other ''billing_mode'' \<noteq> Some (JStr ''tiered_expr'') then Some None
      else (let exprStr = decodeBillingExprB64 utf8 (js_prop other ''expr_b64'') in
        if exprStr = [] then Some None
        else (let tiers = parseTiersFromExpr exprStr in
          case resolveMatchedTier tiers (js_prop other ''matched_tier'') of
            None \<Rightarrow> None
          | Some None \<Rightarrow> Some None
          | Some (Some tier) \<Rightarrow> Some (Some \<lparr>tb_tiers = tiers, tb_tier = tier,
              tb_priceEntries = concat (map (log_price (hasAnyCacheTokens other) tier) BILLING_PRICING_VARS)\<rparr>))))"

subsection \<open>Requests of a user\<close>











definition set_text :: "jsstr option \<Rightarrow> json option option" where
  "set_text v = (case v of Some s \<Rightarrow> if s \<noteq> [] then Some (Some (JStr s)) else None | None \<Rightarrow> None)"

definition kept :: "jsstr option \<Rightarrow> json option" where
  "kept v = (if set_text v = None then None else map_option JStr v)"

lemma when_get:
  "obj_get k (when_text j v @ ob) = (if k = j \<and> set_text v \<noteq> None then kept v else obj_get k ob)"
  "obj_get k (when_time j w @ ob) = (if k = j \<and> w \<noteq> None then map_option JNum w else obj_get k ob)"
  "obj_get k (when_text j v) = (if k = j then kept v else None)"
  by (auto simp: when_text_def when_time_def set_text_def kept_def obj_get_def split: option.splits)

lemma kept_none: "(if set_text v \<noteq> None then kept v else None) = kept v" "(if set_text v \<noteq> None then set_text v else None) = set_text v"
  by (auto simp: kept_def)

lemma text_param_get: "obj_get j sp = kept v \<Longrightarrow> obj_get k (text_param key j sp @ ob) = (if k = key \<and> set_text v \<noteq> None then set_text v else obj_get k ob)"
  by (auto simp: text_param_def obj_get_def kept_def set_text_def split: option.splits if_splits)

text \<open>What is set in the filter dialog reaches the request: the model, token, group and request id of the query are
  the ones of the dialog, left out when blank; the user name only for an administrator.\<close>

theorem filters_reach_request:
  "obj_get ''model_name'' (buildApiParams cal now page pageSize (buildSearchParams f CommonLogs) [] isAdmin) = set_text (lf_model f) \<and>
   obj_get ''token_name'' (buildApiParams cal now page pageSize (buildSearchParams f CommonLogs) [] isAdmin) = set_text (lf_token f) \<and>
   obj_get ''group'' (buildApiParams cal now page pageSize (buildSearchParams f CommonLogs) [] isAdmin) = set_text (lf_group f) \<and>
   obj_get ''request_id'' (buildApiParams cal now page pageSize (buildSearchParams f CommonLogs) [] isAdmin) = set_text (lf_requestId f) \<and>
   obj_get ''username'' (buildApiParams cal now page pageSize (buildSearchParams f CommonLogs) [] isAdmin) = (if isAdmin then set_text (lf_username f) else None)"
proof -
  let ?sp = "buildSearchParams f CommonLogs"
  have sp: "obj_get ''model'' ?sp = kept (lf_model f)" "obj_get ''token'' ?sp = kept (lf_token f)" "obj_get ''group'' ?sp = kept (lf_group f)"
    "obj_get ''username'' ?sp = kept (lf_username f)" "obj_get ''requestId'' ?sp = kept (lf_requestId f)" "obj_get ''type'' ?sp = None"
    unfolding buildSearchParams_def Let_def LogCategory.case append_assoc by (simp_all only: when_get kept_none simp_thms if_True if_False list.inject char.inject list.distinct)
  have ts: "obj_get k (buildTimeRangeParams cal now sp b) = None" if "k \<noteq> ''start_timestamp''" "k \<noteq> ''end_timestamp''" for k sp b
    using that by (simp add: buildTimeRangeParams_def Let_def obj_get_def)
  have ch: "obj_get k (case obj_get ''channel'' ?sp of Some v \<Rightarrow> if isAdmin \<and> js_truthy (Some v) then [(''channel'', Some (channel_number v))] else [] | None \<Rightarrow> []) = None"
    if "k \<noteq> ''channel''" for k using that by (auto simp: obj_get_def split: option.split)
  have none: "obj_get k (a @ b) = obj_get k b" if "obj_get k a = None" for k :: jsstr and a b :: params
    using that by (simp add: obj_get_def map_add_def split: option.split)
  have start: "obj_get k ((''p'', x) # (''page_size'', y) # b) = obj_get k b" if "k \<noteq> ''p''" "k \<noteq> ''page_size''" for k x y and b :: params
    using that by (simp add: obj_get_def)
  note rules = start text_param_get [OF sp(1)] text_param_get [OF sp(2)] text_param_get [OF sp(3)] text_param_get [OF sp(4)] text_param_get [OF sp(5)]
    none [OF ch] ts kept_none
  show ?thesis
    unfolding buildApiParams_def fold_Nil id_apply search_params_def sp(6) option.case append_Nil append_Cons
    by (cases isAdmin) (simp_all add: rules)
qed

subsection \<open>The prices of an entry\<close>

definition ascii :: "char \<Rightarrow> bool" where
  \<comment> \<open>the highest bit is not set\<close>
  "ascii c \<longleftrightarrow> \<not> digit7 c"

lemma find_unique:
  "distinct (map h xs) \<Longrightarrow> x \<in> set xs \<Longrightarrow> h x \<noteq> [] \<Longrightarrow> List.find (\<lambda>t. h t = h x \<and> h t \<noteq> []) xs = Some x"
  by (induction xs) (auto simp: image_iff)

lemma log_prices:
  "(f, p) \<in> (\<lambda>e. (pe_field e, pe_price e)) ` set (concat (map (log_price cached tier) BILLING_PRICING_VARS)) \<longleftrightarrow>
   (\<exists>d \<in> set (getDynamicPriceEntries intl st (Some tier) options). de_field d = f \<and> de_value d = p \<and> (cached \<or> v_group (de_variable d) \<noteq> Some ''cache''))"
proof -
  have var: "(f, p) \<in> (\<lambda>e. (pe_field e, pe_price e)) ` set (log_price cached tier v) \<longleftrightarrow>
      (\<exists>d \<in> set (price_entry intl st options tier v). de_field d = f \<and> de_value d = p \<and> (cached \<or> v_group (de_variable d) \<noteq> Some ''cache''))" for v
    by (cases "v_field v") (auto simp: log_price_def price_entry_def Let_def finite_gt [simplified])
  have "(f, p) \<in> (\<lambda>e. (pe_field e, pe_price e)) ` set (concat (map (log_price cached tier) BILLING_PRICING_VARS)) \<longleftrightarrow>
      (\<exists>v \<in> set BILLING_PRICING_VARS. (f, p) \<in> (\<lambda>e. (pe_field e, pe_price e)) ` set (log_price cached tier v))" by auto
  also have "\<dots> \<longleftrightarrow> (\<exists>d \<in> set (concat (map (price_entry intl st options tier) BILLING_PRICING_VARS)).
      de_field d = f \<and> de_value d = p \<and> (cached \<or> v_group (de_variable d) \<noteq> Some ''cache''))" unfolding var by auto
  finally show ?thesis by (simp only: getDynamicPriceEntries_def option.case set_sort_by)
qed

text \<open>C22. A log entry of a tier that the tier editor saved shows the prices that were charged: when the entry holds
  the Base64 text of the generated expression and the label of one of its tiers, and the normalised labels tell the tiers
  apart, the summary is about that tier, and its prices are those the price page shows for the tier, without
  the cache prices when the request used no cache tokens. The decoder of UTF-8 leaves ASCII texts as they are.\<close>

theorem logged_tier_shown:
  assumes "\<forall>tier \<in> set tiers. visual_ok tier" "tiers \<noteq> []" "e = generateExprFromVisualConfig (Some tiers)"
    "list_all ascii e" "\<And>s. list_all ascii s \<Longrightarrow> utf8 s = s"
    "distinct (map (\<lambda>t. normalizeTierLabel (pt_label t)) (config_tiers tiers))" "tier \<in> set (config_tiers tiers)" "normalizeTierLabel (pt_label tier) \<noteq> []"
    "js_prop other ''billing_mode'' = Some (JStr ''tiered_expr'')" "js_prop other ''expr_b64'' = Some (JStr (btoa e))"
    "js_prop other ''matched_tier'' = Some (JStr (pt_label tier))"
  shows "\<exists>s. getTieredBillingSummary utf8 other = Some (Some s) \<and> tb_tiers s = config_tiers tiers \<and> tb_tier s = tier \<and>
    (\<forall>f p. (f, p) \<in> (\<lambda>x. (pe_field x, pe_price x)) ` set (tb_priceEntries s) \<longleftrightarrow>
      (\<exists>d \<in> set (getDynamicPriceEntries intl st (Some tier) options). de_field d = f \<and> de_value d = p \<and>
         (hasAnyCacheTokens other \<or> v_group (de_variable d) \<noteq> Some ''cache'')))"
proof -
  have parsed: "parseTiersFromExpr e = config_tiers tiers" unfolding assms(3) by (rule parse_generated [OF assms(1,2)])
  have ne: "config_tiers tiers \<noteq> []" using assms(7) by auto
  then have "e \<noteq> []" using parsed by (auto simp: parseTiersFromExpr_def)
  moreover have "atob [] = Some []" by (simp add: atob_def unpad_def)
  ultimately have b: "btoa e \<noteq> []" using atob_btoa [of e] by auto
  have truthy: "js_truthy other" using assms(9) by (cases other rule: js_truthy.cases) auto
  have decoded: "decodeBillingExprB64 utf8 (js_prop other ''expr_b64'') = e"
    using b assms(4,5) by (simp add: decodeBillingExprB64_def assms(10) atob_btoa)
  have "pt_label tier \<noteq> []" using assms(8) by (auto simp: normalizeTierLabel_def js_toLowerCase_def)
  then have "resolveMatchedTier (config_tiers tiers) (Some (JStr (pt_label tier))) = Some (Some tier)"
    using find_unique [OF assms(6,7,8)] ne by (simp add: resolveMatchedTier_def)
  then show ?thesis
    using truthy \<open>e \<noteq> []\<close> log_prices [of _ _ "hasAnyCacheTokens other" tier intl st options]
    unfolding getTieredBillingSummary_def assms(9,11) decoded Let_def parsed by simp
qed

definition sample_other :: "json option" where
  "sample_other = Some (JObj [(''billing_mode'', JStr ''tiered_expr''), (''expr_b64'', JStr (btoa (generateExprFromVisualConfig (Some sample_tiers)))),
     (''matched_tier'', JStr ''small''), (''cache_tokens'', JNum (num 0))])"

definition sample_small :: ParsedTier where
  "sample_small = hd (config_tiers sample_tiers)"

lemma sample_log_facts: "list_all ascii (generateExprFromVisualConfig (Some sample_tiers))"
  "distinct (map (\<lambda>t. normalizeTierLabel (pt_label t)) (config_tiers sample_tiers))" "sample_small \<in> set (config_tiers sample_tiers)"
  "normalizeTierLabel (pt_label sample_small) \<noteq> []" "pt_label sample_small = ''small''"
  by code_simp+

theorem logged_tier_shown_witness:
  "\<exists>s. getTieredBillingSummary (\<lambda>s. s) sample_other = Some (Some s) \<and> tb_tier s = sample_small"
proof -
  have "js_prop sample_other ''billing_mode'' = Some (JStr ''tiered_expr'')"
    "js_prop sample_other ''expr_b64'' = Some (JStr (btoa (generateExprFromVisualConfig (Some sample_tiers))))"
    "js_prop sample_other ''matched_tier'' = Some (JStr (pt_label sample_small))"
    by (simp_all add: sample_other_def obj_get_def sample_log_facts(5))
  from logged_tier_shown [OF _ sample_ok(2) refl sample_log_facts(1) refl sample_log_facts(2-4) this] sample_ok(1)
  show ?thesis by blast
qed

subsection \<open>Avatars and audit lines\<close>

lemma avatar_hash_range: "0 \<le> avatar_hash name \<and> avatar_hash name < 2 ^ 32"
  unfolding avatar_hash_def by (induction name rule: rev_induct) (simp_all add: avatar_hash_step_def)

lemma js_rem_range:
  assumes "0 < b" shows "- b < js_rem a b \<and> js_rem a b < b" "0 \<le> a \<Longrightarrow> 0 \<le> js_rem a b"
proof -
  have "0 \<le> x mod b" "x mod b < b" for x using assms by simp_all
  note r = this [of a] this [of "- a"]
  consider "js_rem a b = - (- a mod b)" | "js_rem a b = a mod b" unfolding js_rem_def by metis
  then show "- b < js_rem a b \<and> js_rem a b < b"
  proof cases
    case 1
    show ?thesis unfolding 1 using r assms by (intro conjI) linarith+
  next
    case 2
    show ?thesis unfolding 2 using r assms by (intro conjI) linarith+
  qed
  show "0 \<le> a \<Longrightarrow> 0 \<le> js_rem a b" unfolding js_rem_def using r by simp
qed

text \<open>The colour of an avatar: the hue is an angle and the saturation between 54 and 61 percent; the shift
  by four bits is signed, so the lightness is between 45 and 59 percent and not, as for an unsigned shift, at least 52.\<close>

theorem avatar_color_bounds:
  "0 \<le> avatar_hue name \<and> avatar_hue name < 360 \<and> 54 \<le> avatar_saturation name \<and> avatar_saturation name \<le> 61 \<and>
   45 \<le> avatar_lightness name \<and> avatar_lightness name \<le> 59"
  using avatar_hash_range [of name] js_rem_range [of 360 "avatar_hash name"] js_rem_range [of 8 "avatar_hash name"]
    js_rem_range [of 8 "to_int32 (avatar_hash name) div 2 ^ 4"]
  by (simp add: avatar_hue_def avatar_saturation_def avatar_lightness_def)

lemma audit_line_parts: "a \<noteq> [] \<Longrightarrow> CHR '' '' \<notin> set a \<Longrightarrow> parseAuditLine (JStr (a @ '' '' @ c)) = Some (a, c)"
proof -
  assume a: "a \<noteq> []" "CHR '' '' \<notin> set a"
  have "js_find '' '' (a @ '' '' @ c) = Some (length a)" using a(2) by (induction a) auto
  then show ?thesis using a(1) by (simp add: parseAuditLine_def)
qed

text \<open>The labels of the audit lines know every mode of the override editor but one.\<close>

theorem audit_labels_complete: "filter (\<lambda>m. obj_get m PARAM_OVERRIDE_ACTION_MAP = None) OPERATION_MODE_VALUES = [''prune_objects'']"
  by code_simp

end
