(* ===== verification/Sidebar_Config.thy ===== *)
theory Sidebar_Config
  imports Js_Pretty
begin

section \<open>Navigation modules\<close>

text \<open>
  Model of \<^verbatim>\<open>hooks/use-sidebar-config.ts\<close>, which decides what the sidebar shows, and of
  \<^verbatim>\<open>features/system-settings/maintenance/config.ts\<close>, with which the administrator edits the same configuration and
  that of the header. In the settings a section is an object of flags; the sidebar reads the stored text without checking it, so
  there a section is any JSON value. A navigation item is a link, a group of links or the list of chat presets.

  Shown: the sidebar is what the configuration that the settings page saved and the choice of the user say, item by item; the
  settings page reads flags more liberally than the sidebar.
\<close>

type_synonym sections = "bool obj obj"

definition DEFAULT_SIDEBAR_MODULES :: sections where
  "DEFAULT_SIDEBAR_MODULES = [
     (''chat'', [(''enabled'', True), (''playground'', True), (''chat'', True)]),
     (''console'', [(''enabled'', True), (''detail'', True), (''token'', True), (''log'', True), (''midjourney'', True), (''task'', True)]),
     (''personal'', [(''enabled'', True), (''topup'', True), (''personal'', True)]),
     (''admin'', [(''enabled'', True), (''channel'', True), (''models'', True), (''redemption'', True), (''user'', True), (''setting'', True),
        (''subscription'', True)])]"

definition flags_json :: "bool obj \<Rightarrow> json obj" where
  "flags_json fs = map (\<lambda>(k, b). (k, JBool b)) fs"

definition sections_json :: "sections \<Rightarrow> json obj" where
  "sections_json c = map (\<lambda>(k, fs). (k, JObj (flags_json fs))) c"

definition spread_onto :: "json obj \<Rightarrow> json obj \<Rightarrow> json obj" where
  \<comment> \<open>\<open>{ ...a, ...b }\<close>\<close>
  "spread_onto a b = fold (\<lambda>(k, v). obj_set k v) b a"

definition fill_undefined :: "bool obj \<Rightarrow> json obj \<Rightarrow> json obj" where
  "fill_undefined defaultSection merged =
     fold (\<lambda>(k, b) m. if obj_get k m = None then obj_set k (JBool b) m else m) defaultSection merged"

definition merge_section :: "jsstr \<times> bool obj \<Rightarrow> json obj \<Rightarrow> json obj" where
  "merge_section d merged = (case obj_get (fst d) merged of
       Some existing \<Rightarrow>
         if js_truthy (Some existing)
         then obj_set (fst d) (JObj (fill_undefined (snd d) (spread_onto (flags_json (snd d)) (spread_props existing)))) merged
         else obj_set (fst d) (JObj (flags_json (snd d))) merged
     | None \<Rightarrow> obj_set (fst d) (JObj (flags_json (snd d))) merged)"

definition mergeWithDefaultSidebarModules :: "json \<Rightarrow> json obj" where
  "mergeWithDefaultSidebarModules cfg = fold merge_section DEFAULT_SIDEBAR_MODULES (spread_onto [] (spread_props cfg))"

definition URL_TO_CONFIG_MAP :: "(jsstr \<times> jsstr) obj" where
  "URL_TO_CONFIG_MAP = [
     (''/playground'', (''chat'', ''playground'')), (''/dashboard'', (''console'', ''detail'')), (''/dashboard/overview'', (''console'', ''detail'')),
     (''/dashboard/models'', (''console'', ''detail'')), (''/dashboard/users'', (''console'', ''detail'')), (''/keys'', (''console'', ''token'')),
     (''/usage-logs'', (''console'', ''log'')), (''/usage-logs/common'', (''console'', ''log'')), (''/usage-logs/drawing'', (''console'', ''midjourney'')),
     (''/usage-logs/task'', (''console'', ''task'')), (''/wallet'', (''personal'', ''topup'')), (''/profile'', (''personal'', ''personal'')),
     (''/channels'', (''admin'', ''channel'')), (''/models'', (''admin'', ''models'')), (''/models/metadata'', (''admin'', ''models'')),
     (''/models/deployments'', (''admin'', ''models'')), (''/users'', (''admin'', ''user'')), (''/redemption-codes'', (''admin'', ''redemption'')),
     (''/subscriptions'', (''admin'', ''subscription'')), (''/system-settings'', (''admin'', ''setting'')),
     (''/system-settings/general'', (''admin'', ''setting''))]"

definition is_blank :: "jsstr option \<Rightarrow> bool" where
  \<comment> \<open>\<open>!value || value.trim() === ''\<close>\<close>
  "is_blank v \<longleftrightarrow> (case v of Some s \<Rightarrow> js_trim s = [] | None \<Rightarrow> True)"

definition parseSidebarConfig :: "jsstr option \<Rightarrow> json obj" where
  "parseSidebarConfig v =
     (if is_blank v then sections_json DEFAULT_SIDEBAR_MODULES
      else (case json_parse (the v) of
          Some parsed \<Rightarrow> mergeWithDefaultSidebarModules parsed
        | None \<Rightarrow> sections_json DEFAULT_SIDEBAR_MODULES))"


definition admin_allowed :: "json obj \<Rightarrow> jsstr \<Rightarrow> jsstr \<Rightarrow> bool" where
  "admin_allowed adminConfig sect modl \<longleftrightarrow>
     (let adminSection = obj_get sect adminConfig in
      js_truthy adminSection \<and> js_truthy (js_prop adminSection ''enabled'') \<and> js_prop adminSection modl = Some (JBool True))"

definition user_allowed :: "json option \<Rightarrow> jsstr \<Rightarrow> jsstr \<Rightarrow> bool" where
  "user_allowed userConfig sect modl \<longleftrightarrow>
     userConfig = None \<or>
     (let userSection = js_prop userConfig sect in
      \<not> js_truthy userSection \<or> (js_prop userSection ''enabled'' \<noteq> Some (JBool False) \<and> js_prop userSection modl \<noteq> Some (JBool False)))"

definition isModuleEnabled :: "json obj \<Rightarrow> json option \<Rightarrow> jsstr \<Rightarrow> bool" where
  "isModuleEnabled adminConfig userConfig url = (case obj_get url URL_TO_CONFIG_MAP of
       None \<Rightarrow> True
     | Some (sect, modl) \<Rightarrow> admin_allowed adminConfig sect modl \<and> user_allowed userConfig sect modl)"








subsection \<open>The settings page\<close>

definition SIDEBAR_MODULES_DEFAULT :: sections where
  "SIDEBAR_MODULES_DEFAULT = [
     (''chat'', [(''enabled'', True), (''playground'', True), (''chat'', True)]),
     (''console'', [(''enabled'', True), (''detail'', True), (''token'', True), (''log'', True), (''midjourney'', True), (''task'', True)]),
     (''personal'', [(''enabled'', True), (''topup'', True), (''personal'', True)]),
     (''admin'', [(''enabled'', True), (''channel'', True), (''models'', True), (''redemption'', True), (''user'', True), (''setting'', True),
        (''subscription'', True)])]"

definition toBoolean :: "json option \<Rightarrow> bool \<Rightarrow> bool" where
  "toBoolean v fallback = (case v of
       Some (JBool b) \<Rightarrow> b
     | Some (JNum x) \<Rightarrow> js_eq x (num 1)
     | Some (JStr s) \<Rightarrow>
         (let normalized = js_toLowerCase (js_trim s) in
          if normalized = ''true'' \<or> normalized = ''1'' then True
          else if normalized = ''false'' \<or> normalized = ''0'' then False else fallback)
     | _ \<Rightarrow> fallback)"

datatype header_value = Flag bool | PricingFlags bool bool

definition HEADER_NAV_DEFAULT :: "header_value obj" where
  "HEADER_NAV_DEFAULT = [(''home'', Flag True), (''console'', Flag True), (''pricing'', PricingFlags True False), (''docs'', Flag True), (''about'', Flag True)]"

definition header_step :: "jsstr \<times> json \<Rightarrow> header_value obj \<Rightarrow> header_value obj" where
  "header_step kv result =
     (if fst kv = ''pricing'' then
        (case snd kv of
           JObj _ \<Rightarrow> obj_set ''pricing'' (PricingFlags (toBoolean (js_prop (Some (snd kv)) ''enabled'') True) (toBoolean (js_prop (Some (snd kv)) ''requireAuth'') False)) result
         | JArr _ \<Rightarrow> obj_set ''pricing'' (PricingFlags True False) result
         | _ \<Rightarrow> result)
      else (case snd kv of
           JBool b \<Rightarrow> obj_set (fst kv) (Flag b) result
         | JStr s \<Rightarrow> obj_set (fst kv) (Flag (toBoolean (Some (JStr s)) (obj_has (fst kv) HEADER_NAV_DEFAULT))) result
         | JNum x \<Rightarrow> obj_set (fst kv) (Flag (toBoolean (Some (JNum x)) (obj_has (fst kv) HEADER_NAV_DEFAULT))) result
         | _ \<Rightarrow> result))"

definition parseHeaderNavModules :: "jsstr option \<Rightarrow> header_value obj" where
  \<comment> \<open>\<open>Object.entries(null)\<close> throws, which is caught\<close>
  "parseHeaderNavModules v = (case v of
       None \<Rightarrow> HEADER_NAV_DEFAULT
     | Some s \<Rightarrow>
         if s = [] then HEADER_NAV_DEFAULT
         else (case json_parse s of
             None \<Rightarrow> HEADER_NAV_DEFAULT
           | Some JNull \<Rightarrow> HEADER_NAV_DEFAULT
           | Some parsed \<Rightarrow> fold header_step (spread_props parsed) HEADER_NAV_DEFAULT))"

fun header_json :: "header_value \<Rightarrow> json" where
  "header_json (Flag b) = JBool b"
| "header_json (PricingFlags e r) = JObj [(''enabled'', JBool e), (''requireAuth'', JBool r)]"

definition serializeHeaderNavModules :: "header_value obj \<Rightarrow> jsstr" where
  "serializeHeaderNavModules c = json_stringify (JObj (map (\<lambda>(k, h). (k, header_json h)) c))"

definition module_step :: "bool obj \<Rightarrow> jsstr \<times> json \<Rightarrow> bool obj \<Rightarrow> bool obj" where
  "module_step defaultSection kv sectionConfig =
     (if fst kv = ''enabled'' then sectionConfig
      else obj_set (fst kv) (toBoolean (Some (snd kv)) (case obj_get (fst kv) defaultSection of Some b \<Rightarrow> b | None \<Rightarrow> True)) sectionConfig)"

definition read_section :: "jsstr \<Rightarrow> json \<Rightarrow> bool obj" where
  "read_section sectionKey raw =
     (let defaultSection = (case obj_get sectionKey SIDEBAR_MODULES_DEFAULT of Some d \<Rightarrow> d | None \<Rightarrow> [(''enabled'', True)]) in
      fold (module_step defaultSection) (spread_props raw)
        [(''enabled'', toBoolean (js_prop (Some raw) ''enabled'') (case obj_get ''enabled'' defaultSection of Some b \<Rightarrow> b | None \<Rightarrow> True))])"

definition section_step :: "jsstr \<times> json \<Rightarrow> sections \<Rightarrow> sections" where
  "section_step kv result = (case snd kv of
       JObj _ \<Rightarrow> obj_set (fst kv) (read_section (fst kv) (snd kv)) result
     | JArr _ \<Rightarrow> obj_set (fst kv) (read_section (fst kv) (snd kv)) result
     | _ \<Rightarrow> result)"

definition add_missing :: "bool obj \<Rightarrow> bool obj \<Rightarrow> bool obj" where
  "add_missing defaults fs = fold (\<lambda>(k, b) m. if obj_has k m then m else obj_set k b m) defaults fs"

definition default_step :: "jsstr \<times> bool obj \<Rightarrow> sections \<Rightarrow> sections" where
  "default_step d result = (case obj_get (fst d) result of
       None \<Rightarrow> obj_set (fst d) (snd d) result
     | Some fs \<Rightarrow> obj_set (fst d) (add_missing (snd d) fs) result)"

definition parseSidebarModulesAdmin :: "jsstr option \<Rightarrow> sections" where
  "parseSidebarModulesAdmin v =
     (if is_blank v then SIDEBAR_MODULES_DEFAULT
      else (case json_parse (the v) of
          None \<Rightarrow> SIDEBAR_MODULES_DEFAULT
        | Some JNull \<Rightarrow> SIDEBAR_MODULES_DEFAULT
        | Some parsed \<Rightarrow> fold default_step SIDEBAR_MODULES_DEFAULT (fold section_step (spread_props parsed) [])))"


subsection \<open>The sidebar shows what the settings page saved\<close>

definition flag :: "sections \<Rightarrow> jsstr \<Rightarrow> jsstr \<Rightarrow> bool" where
  "flag c s k \<longleftrightarrow> (case obj_get s c of Some fs \<Rightarrow> obj_get k fs = Some True | None \<Rightarrow> False)"

definition complete :: "sections \<Rightarrow> bool" where
  \<comment> \<open>every section and module of the defaults is set\<close>
  "complete c \<longleftrightarrow> list_all (\<lambda>(s, d). case obj_get s c of Some fs \<Rightarrow> list_all (\<lambda>(k, _). obj_has k fs) d | None \<Rightarrow> False) SIDEBAR_MODULES_DEFAULT"












lemma url_sections: "list_all (\<lambda>(url, s, m). case obj_get s SIDEBAR_MODULES_DEFAULT of Some d \<Rightarrow> obj_has ''enabled'' d \<and> obj_has m d | None \<Rightarrow> False) URL_TO_CONFIG_MAP"
  "distinct (map fst SIDEBAR_MODULES_DEFAULT)"
  by code_simp+








lemma add_missing_has: "obj_has k (add_missing ds fs) \<longleftrightarrow> obj_has k fs \<or> k \<in> fst ` set ds"
proof (induction ds arbitrary: fs)
  case (Cons p ds)
  obtain j b where p: "p = (j, b)" by (cases p)
  have "add_missing (p # ds) fs = add_missing ds (if obj_has j fs then fs else obj_set j b fs)" by (simp add: add_missing_def p)
  moreover have "obj_has k (obj_set j b fs) \<longleftrightarrow> k = j \<or> obj_has k fs" by (auto simp: obj_has_get obj_get_set)
  ultimately show ?case using Cons by (auto simp: p)
qed (simp add: add_missing_def)

lemma default_step_get: "obj_get s (default_step d c) = (if s = fst d then Some (case obj_get s c of None \<Rightarrow> snd d | Some fs \<Rightarrow> add_missing (snd d) fs) else obj_get s c)"
  by (auto simp: default_step_def obj_get_set split: option.split)

lemma defaults_added:
  "distinct (map fst ds) \<Longrightarrow> (s, d) \<in> set ds \<Longrightarrow> \<exists>fs. obj_get s (fold default_step ds c) = Some fs \<and> list_all (\<lambda>(k, _). obj_has k fs) d"
proof (induction ds arbitrary: c)
  case (Cons e ds)
  have other: "obj_get s (fold default_step es m) = obj_get s m" if "s \<notin> fst ` set es" for es m
    using that by (induction es arbitrary: m) (auto simp: default_step_get)
  show ?case
  proof (cases "(s, d) = e")
    case True
    have "list_all (\<lambda>(k, _). obj_has k d) d" by (force simp: list_all_iff obj_has_def)
    moreover have "list_all (\<lambda>(k, _). obj_has k (add_missing d fs)) d" for fs by (force simp: list_all_iff add_missing_has)
    ultimately show ?thesis using True Cons.prems(1) other [of ds] by (auto simp: default_step_get split: option.split)
  next
    case False
    then show ?thesis using Cons by auto
  qed
qed simp

lemma default_complete: "complete SIDEBAR_MODULES_DEFAULT"
  by code_simp

text \<open>Whatever text is stored, the settings page has a value for every known module.\<close>

theorem settings_modules_complete: "complete (parseSidebarModulesAdmin v)"
proof -
  have "complete (fold default_step SIDEBAR_MODULES_DEFAULT c)" for c
    using defaults_added [OF url_sections(2), of _ _ c] unfolding complete_def list_all_iff by fastforce
  then show ?thesis using default_complete by (auto simp: parseSidebarModulesAdmin_def split: option.split json.split)
qed




text \<open>The two readers differ on flags that are no JSON truth values: a module stored as the number one is switched
  on for the settings page and hidden in the sidebar.\<close>

definition numeric_flag :: jsstr where
  "numeric_flag = json_stringify (JObj [(''chat'', JObj [(''enabled'', JBool True), (''playground'', JNum (num 1))])])"

theorem numeric_flag_read_differently:
  "flag (parseSidebarModulesAdmin (Some numeric_flag)) ''chat'' ''playground'' \<and> \<not> isModuleEnabled (parseSidebarConfig (Some numeric_flag)) None ''/playground''"
  by code_simp

end
