(* ===== verification/Console_Forms.thy ===== *)
theory Console_Forms
  imports Dashboard_Data
begin

section \<open>Forms of the console: keys, redemption codes, users, plans and models\<close>

text \<open>
  Model of the modules that turn records into form values and form values into request payloads:
  \<^verbatim>\<open>features/keys/lib/api-key-form.ts\<close>, \<^verbatim>\<open>features/redemption-codes/lib\<close>, \<^verbatim>\<open>features/users/lib\<close>,
  \<^verbatim>\<open>features/subscriptions/lib\<close>, \<^verbatim>\<open>features/models/lib/model-form.ts\<close> and \<^verbatim>\<open>model-utils.ts\<close>, with the submit
  handlers of the drawers and the quota dialog of \<^verbatim>\<open>features/users/components/user-quota-dialog.tsx\<close>.

  A handler is a function from the answers of the server, in their order, to the list of its effects: requests,
  toasts, closing, refreshing, the submitting flag. An answer that has not come yet is the end of the list, a
  rejected promise is \<open>Failed\<close>. The translator takes the key of a message and the count it interpolates. The random
  suffix of a name is a parameter. A record of the server has the fields that its form reads. The zod schemas are
  third-party code and are not modelled.

  Shown: saving an opened record unchanged sends the values it had, through the binary64 conversion of the quota;
  a batch of keys stops at the first failure and sends exactly the requests it counts; an update of a user never
  sends a role or a quota; the balance that the quota dialog shows is the one its request asks for.
\<close>

subsection \<open>Dates, amounts and effects\<close>

text \<open>\<open>new Date(ms)\<close>: milliseconds are truncated, and NaN outside the range of dates.\<close>

definition js_Date :: "jsnum \<Rightarrow> jsnum" where
  "js_Date ms = (case ms of
       Fin x \<Rightarrow> if \<bar>x\<bar> \<le> 8640000000000000 then Fin (of_int (if x < 0 then \<lceil>x\<rceil> else \<lfloor>x\<rfloor>)) else NaN
     | _ \<Rightarrow> NaN)"

text \<open>\<open>parseFloat\<close>: after white space, the longest prefix that is a decimal literal or \<open>Infinity\<close>.\<close>

definition float_sign :: "jsstr \<Rightarrow> bool \<times> jsstr" where
  "float_sign s = (case s of c # u \<Rightarrow> if c = CHR ''-'' then (True, u) else if c = CHR ''+'' then (False, u) else (False, s)
     | [] \<Rightarrow> (False, s))"

definition float_exp :: "jsstr \<Rightarrow> int" where
  "float_exp s = (case json_exp s of Some (e, r) \<Rightarrow> e | None \<Rightarrow> 0)"

definition js_parseFloat :: "jsstr \<Rightarrow> jsnum" where
  "js_parseFloat s =
     (let (neg, s1) = float_sign (dropWhile js_ws s) in
      if js_startsWith s1 ''Infinity'' then (if neg then NInf else PInf)
      else (let (ip, s2) = digits_pre s1;
                (fp, s3) = (case s2 of c # u \<Rightarrow> if c = CHR ''.'' then digits_pre u else ([], s2) | [] \<Rightarrow> ([], s2)) in
            if ip = [] \<and> fp = [] then NaN
            else fl ((if neg then -1 else 1) * decimal_val ip fp (float_exp s3))))"

text \<open>\<open>x || d\<close> on an optional number and on an optional text.\<close>

definition opt_num_or :: "jsnum option \<Rightarrow> jsnum \<Rightarrow> jsnum" where
  "opt_num_or x d = (case x of Some y \<Rightarrow> num_or y d | None \<Rightarrow> d)"

definition opt_str_or :: "jsstr option \<Rightarrow> jsstr \<Rightarrow> jsstr" where
  "opt_str_or x d = (case x of Some s \<Rightarrow> if s = [] then d else s | None \<Rightarrow> d)"

type_synonym tfun = "jsstr \<Rightarrow> int option \<Rightarrow> jsstr"

datatype 'p effect =
  Request 'p
| ToastSuccess jsstr
| ToastError jsstr
| CloseDrawer
| TriggerRefresh
| SetSubmitting bool
| Rethrow

text \<open>An answer has a success flag, a message and data; a rejection has the message of its error, if it is one.\<close>

datatype 'd response = Answer bool "jsstr option" "'d option" | Failed "jsstr option"

definition ok_answer :: "'d response \<Rightarrow> bool" where
  "ok_answer r = (case r of Answer s m d \<Rightarrow> s | Failed e \<Rightarrow> False)"

subsection \<open>API keys\<close>

record ApiKey =
  ak_id :: int
  ak_name :: jsstr
  ak_remain_quota :: jsnum
  ak_unlimited_quota :: bool
  ak_expired_time :: jsnum
  ak_group :: "jsstr option"
  ak_cross_group_retry :: bool
  ak_model_limits_enabled :: bool
  ak_model_limits :: "jsstr option"
  ak_allow_ips :: "jsstr option"

record ApiKeyFormValues =
  kf_name :: jsstr
  kf_remain_quota_dollars :: "jsnum option"
  kf_expired_time :: "jsnum option"
  kf_unlimited_quota :: bool
  kf_model_limits :: "jsstr list"
  kf_allow_ips :: "jsstr option"
  kf_group :: "jsstr option"
  kf_cross_group_retry :: "bool option"
  kf_tokenCount :: "jsnum option"

record ApiKeyFormData =
  kd_name :: jsstr
  kd_remain_quota :: jsnum
  kd_expired_time :: jsnum
  kd_unlimited_quota :: bool
  kd_model_limits_enabled :: bool
  kd_model_limits :: jsstr
  kd_allow_ips :: jsstr
  kd_group :: jsstr
  kd_cross_group_retry :: bool

definition KEY_DEFAULT_GROUP :: jsstr where
  "KEY_DEFAULT_GROUP = ''''"

definition API_KEY_FORM_DEFAULT_VALUES :: ApiKeyFormValues where
  "API_KEY_FORM_DEFAULT_VALUES = \<lparr>kf_name = '''', kf_remain_quota_dollars = Some (num 10), kf_expired_time = None,
     kf_unlimited_quota = True, kf_model_limits = [], kf_allow_ips = Some '''', kf_group = Some KEY_DEFAULT_GROUP,
     kf_cross_group_retry = Some True, kf_tokenCount = Some (num 1)\<rparr>"

definition getApiKeyFormDefaultValues :: "bool \<Rightarrow> ApiKeyFormValues" where
  "getApiKeyFormDefaultValues defaultUseAutoGroup = API_KEY_FORM_DEFAULT_VALUES\<lparr>
     kf_group := Some (if defaultUseAutoGroup then ''auto'' else KEY_DEFAULT_GROUP),
     kf_cross_group_retry := Some defaultUseAutoGroup\<rparr>"

definition key_payload :: "SystemConfigState \<Rightarrow> ApiKeyFormValues \<Rightarrow> ApiKeyFormData" where
  "key_payload st data = \<lparr>
     kd_name = kf_name data,
     kd_remain_quota = (if kf_unlimited_quota data then num 0
        else parseQuotaFromDollars st (opt_num_or (kf_remain_quota_dollars data) (num 0))),
     kd_expired_time = (case kf_expired_time data of Some ms \<Rightarrow> js_floor (js_div ms (num 1000)) | None \<Rightarrow> num (-1)),
     kd_unlimited_quota = kf_unlimited_quota data,
     kd_model_limits_enabled = (length (kf_model_limits data) > 0),
     kd_model_limits = js_join '','' (kf_model_limits data),
     kd_allow_ips = opt_str_or (kf_allow_ips data) '''',
     kd_group = opt_str_or (kf_group data) '''',
     kd_cross_group_retry = (if kf_group data = Some ''auto'' then kf_cross_group_retry data = Some True else False)\<rparr>"


text \<open>The submit handler of the drawer.\<close>

datatype KeyRequest = CreateKey ApiKeyFormData | UpdateKey ApiKeyFormData int

definition key_name_at :: "(nat \<Rightarrow> jsstr) \<Rightarrow> ApiKeyFormValues \<Rightarrow> nat \<Rightarrow> jsstr" where
  "key_name_at rnd data i = (if i = 0 \<and> kf_name data \<noteq> [] then kf_name data
     else (if kf_name data = [] then ''default'' else kf_name data) @ ''-'' @ rnd i)"

definition create_request :: "(nat \<Rightarrow> jsstr) \<Rightarrow> ApiKeyFormValues \<Rightarrow> ApiKeyFormData \<Rightarrow> nat \<Rightarrow> KeyRequest" where
  "create_request rnd data basePayload i = CreateKey (basePayload\<lparr>kd_name := key_name_at rnd data i\<rparr>)"

definition keys_created :: "tfun \<Rightarrow> nat \<Rightarrow> KeyRequest effect list" where
  "keys_created t successCount = (if successCount > 0
     then [ToastSuccess (t ''Successfully created {{count}} API Key(s)'' (Some (int successCount))), CloseDrawer, TriggerRefresh]
     else []) @ [SetSubmitting False]"

fun create_loop ::
  "tfun \<Rightarrow> (nat \<Rightarrow> jsstr) \<Rightarrow> ApiKeyFormValues \<Rightarrow> ApiKeyFormData \<Rightarrow> jsnum \<Rightarrow> nat \<Rightarrow> nat \<Rightarrow> unit response list \<Rightarrow>
    KeyRequest effect list" where
  "create_loop t rnd data basePayload count i successCount rs =
     (if js_lt (num (int i)) count then
        Request (create_request rnd data basePayload i) #
        (case rs of
           [] \<Rightarrow> []
         | Failed e # rest \<Rightarrow> [ToastError (t ''An unexpected error occurred'' None), SetSubmitting False]
         | Answer success message d # rest \<Rightarrow>
             if success then create_loop t rnd data basePayload count (Suc i) (Suc successCount) rest
             else ToastError (opt_str_or message (t ''Failed to create API key'' None)) # keys_created t successCount)
      else keys_created t successCount)"

declare create_loop.simps [simp del]

definition key_onSubmit ::
  "SystemConfigState \<Rightarrow> tfun \<Rightarrow> (nat \<Rightarrow> jsstr) \<Rightarrow> ApiKey option \<Rightarrow> ApiKeyFormValues \<Rightarrow> unit response list \<Rightarrow>
    KeyRequest effect list" where
  "key_onSubmit st t rnd currentRow data rs =
     (let basePayload = key_payload st data in
      SetSubmitting True #
      (case currentRow of
         Some row \<Rightarrow> Request (UpdateKey basePayload (ak_id row)) #
           (case rs of
              [] \<Rightarrow> []
            | Failed e # rest \<Rightarrow> [ToastError (t ''An unexpected error occurred'' None), SetSubmitting False]
            | Answer success message d # rest \<Rightarrow>
                (if success then [ToastSuccess (t ''API Key updated successfully'' None), CloseDrawer, TriggerRefresh]
                 else [ToastError (opt_str_or message (t ''Failed to update API key'' None))]) @ [SetSubmitting False])
       | None \<Rightarrow> create_loop t rnd data basePayload (opt_num_or (kf_tokenCount data) (num 1)) 0 0 rs))"

definition key_handleSetExpiry :: "Calendar \<Rightarrow> jsnum \<Rightarrow> jsnum \<Rightarrow> jsnum \<Rightarrow> jsnum \<Rightarrow> ApiKeyFormValues \<Rightarrow> ApiKeyFormValues" where
  "key_handleSetExpiry cal now months days hours data =
     (if js_eq months (num 0) \<and> js_eq days (num 0) \<and> js_eq hours (num 0) then data\<lparr>kf_expired_time := None\<rparr>
      else data\<lparr>kf_expired_time := Some (cal_addHours cal (cal_addDays cal (cal_addMonths cal now months) days) hours)\<rparr>)"

subsection \<open>Redemption codes\<close>

record Redemption =
  rd_id :: int
  rd_name :: jsstr
  rd_status :: jsnum
  rd_quota :: jsnum
  rd_expired_time :: jsnum

record RedemptionFormValues =
  rf_name :: jsstr
  rf_quota_dollars :: jsnum
  rf_expired_time :: "jsnum option"
  rf_count :: "jsnum option"

record RedemptionFormData =
  rp_name :: jsstr
  rp_quota :: jsnum
  rp_expired_time :: jsnum
  rp_count :: jsnum

definition REDEMPTION_FORM_DEFAULT_VALUES :: RedemptionFormValues where
  "REDEMPTION_FORM_DEFAULT_VALUES = \<lparr>rf_name = '''', rf_quota_dollars = num 10, rf_expired_time = None, rf_count = Some (num 1)\<rparr>"

definition redemption_payload :: "SystemConfigState \<Rightarrow> RedemptionFormValues \<Rightarrow> RedemptionFormData" where
  "redemption_payload st data = \<lparr>
     rp_name = rf_name data,
     rp_quota = parseQuotaFromDollars st (rf_quota_dollars data),
     rp_expired_time = (case rf_expired_time data of Some ms \<Rightarrow> js_floor (js_div ms (num 1000)) | None \<Rightarrow> num 0),
     rp_count = opt_num_or (rf_count data) (num 1)\<rparr>"

definition transformRedemptionToFormDefaults :: "SystemConfigState \<Rightarrow> Redemption \<Rightarrow> RedemptionFormValues" where
  "transformRedemptionToFormDefaults st redemption = \<lparr>
     rf_name = rd_name redemption,
     rf_quota_dollars = quotaUnitsToDollars st (rd_quota redemption),
     rf_expired_time = (if js_gt (rd_expired_time redemption) (num 0)
        then Some (js_Date (js_mul (rd_expired_time redemption) (num 1000))) else None),
     rf_count = Some (num 1)\<rparr>"

definition isTimestampExpired :: "jsnum \<Rightarrow> jsnum \<Rightarrow> bool" where
  "isTimestampExpired dateNow timestamp =
     (if js_eq timestamp (num 0) then False else js_lt timestamp (js_div dateNow (num 1000)))"

definition isRedemptionExpired :: "jsnum \<Rightarrow> jsnum \<Rightarrow> jsnum \<Rightarrow> bool" where
  "isRedemptionExpired dateNow expired_time status = (js_eq status (num 1) \<and> isTimestampExpired dateNow expired_time)"

datatype RedemptionRequest = CreateRedemption RedemptionFormData | UpdateRedemption RedemptionFormData int

definition redemption_onSubmit ::
  "SystemConfigState \<Rightarrow> tfun \<Rightarrow> Redemption option \<Rightarrow> RedemptionFormValues \<Rightarrow> jsstr list response list \<Rightarrow>
    RedemptionRequest effect list" where
  "redemption_onSubmit st t currentRow data rs =
     (let basePayload = redemption_payload st data in
      SetSubmitting True #
      (case currentRow of
         Some row \<Rightarrow> Request (UpdateRedemption basePayload (rd_id row)) #
           (case rs of [] \<Rightarrow> []
            | Failed e # rest \<Rightarrow> [SetSubmitting False, Rethrow]
            | Answer success message d # rest \<Rightarrow>
                (if success then [ToastSuccess (t ''Redemption code updated successfully'' None), CloseDrawer, TriggerRefresh]
                 else []) @ [SetSubmitting False])
       | None \<Rightarrow> Request (CreateRedemption basePayload) #
           (case rs of [] \<Rightarrow> []
            | Failed e # rest \<Rightarrow> [SetSubmitting False, Rethrow]
            | Answer success message d # rest \<Rightarrow>
                (if success then
                   (let count = (case d of Some codes \<Rightarrow> length codes | None \<Rightarrow> 0) in
                    [ToastSuccess (if count > 1 then t ''Successfully created {{count}} redemption codes'' (Some (int count))
                                   else t ''Redemption code(s) created successfully'' None), CloseDrawer, TriggerRefresh])
                 else []) @ [SetSubmitting False])))"

definition redemption_handleSetExpiry ::
  "Calendar \<Rightarrow> jsnum \<Rightarrow> jsnum \<Rightarrow> jsnum \<Rightarrow> jsnum \<Rightarrow> RedemptionFormValues \<Rightarrow> RedemptionFormValues" where
  "redemption_handleSetExpiry cal now months days hours data =
     data\<lparr>rf_expired_time := addTimeToDate cal months days hours now\<rparr>"

subsection \<open>Users\<close>

record ConsoleUser =
  us_id :: int
  us_username :: jsstr
  us_display_name :: jsstr
  us_quota :: jsnum
  us_group :: jsstr
  us_role :: jsnum
  us_remark :: "jsstr option"

record UserFormValues =
  uf_username :: jsstr
  uf_display_name :: "jsstr option"
  uf_password :: "jsstr option"
  uf_role :: "jsnum option"
  uf_quota_dollars :: "jsnum option"
  uf_group :: "jsstr option"
  uf_remark :: "jsstr option"

definition USER_DEFAULT_GROUP :: jsstr where
  "USER_DEFAULT_GROUP = ''default''"

definition USER_FORM_DEFAULT_VALUES :: UserFormValues where
  "USER_FORM_DEFAULT_VALUES = \<lparr>uf_username = '''', uf_display_name = Some '''', uf_password = Some '''',
     uf_role = Some (num 1), uf_quota_dollars = Some (num 0), uf_group = Some USER_DEFAULT_GROUP, uf_remark = Some ''''\<rparr>"

definition or_undefined :: "jsstr option \<Rightarrow> json option" where
  \<comment> \<open>\<open>s || undefined\<close>\<close>
  "or_undefined s = (case s of Some v \<Rightarrow> if v = [] then None else Some (JStr v) | None \<Rightarrow> None)"

definition user_payload :: "UserFormValues \<Rightarrow> int option \<Rightarrow> json obj" where
  "user_payload data userId =
     (let payload = [(''username'', Some (JStr (uf_username data))),
            (''display_name'', Some (JStr (opt_str_or (uf_display_name data) (uf_username data)))),
            (''password'', or_undefined (uf_password data))] in
      defined (payload @ (case userId of
         None \<Rightarrow> [(''role'', Some (JNum (opt_num_or (uf_role data) (num 1))))]
       | Some uid \<Rightarrow> [(''group'', map_option JStr (uf_group data)), (''remark'', or_undefined (uf_remark data)),
            (''id'', Some (JNum (num uid)))])))"

definition transformUserToFormDefaults :: "SystemConfigState \<Rightarrow> ConsoleUser \<Rightarrow> UserFormValues" where
  "transformUserToFormDefaults st user = \<lparr>
     uf_username = us_username user, uf_display_name = Some (us_display_name user), uf_password = Some '''',
     uf_role = Some (us_role user), uf_quota_dollars = Some (quotaUnitsToDollars st (us_quota user)),
     uf_group = Some (if us_group user = [] then USER_DEFAULT_GROUP else us_group user),
     uf_remark = Some (opt_str_or (us_remark user) '''')\<rparr>"

datatype ManageUserAction = Promote | Demote | Enable | Disable | Delete | AddQuota

fun getUserActionMessage :: "ManageUserAction \<Rightarrow> jsstr" where
  "getUserActionMessage Enable = ''User enabled successfully''"
| "getUserActionMessage Disable = ''User disabled successfully''"
| "getUserActionMessage Promote = ''User promoted to admin successfully''"
| "getUserActionMessage Demote = ''User demoted to regular user successfully''"
| "getUserActionMessage Delete = ''User deleted successfully''"
| "getUserActionMessage AddQuota = ''Quota adjusted successfully''"

datatype UserRequest = CreateUser "json obj" | UpdateUser "json obj"

definition user_onSubmit :: "tfun \<Rightarrow> ConsoleUser option \<Rightarrow> UserFormValues \<Rightarrow> unit response list \<Rightarrow> UserRequest effect list" where
  "user_onSubmit t currentRow data rs =
     (let isUpdate = (currentRow \<noteq> None); payload = user_payload data (map_option us_id currentRow) in
      SetSubmitting True # Request (if isUpdate then UpdateUser payload else CreateUser payload) #
      (case rs of [] \<Rightarrow> []
       | Failed e # rest \<Rightarrow> [ToastError (t ''An unexpected error occurred'' None), SetSubmitting False]
       | Answer success message d # rest \<Rightarrow>
           (if success then
              [ToastSuccess (if isUpdate then t ''User updated successfully'' None else t ''User created successfully'' None),
               CloseDrawer, TriggerRefresh]
            else [ToastError (opt_str_or message
               (if isUpdate then t ''Failed to update user'' None else t ''Failed to create user'' None))])
           @ [SetSubmitting False]))"

text \<open>The quota dialog: mode, typed amount, loading flag and whether it is open.\<close>

datatype QuotaAdjustMode = Add | Subtract | Override

record QuotaDialog =
  qd_mode :: QuotaAdjustMode
  qd_amount :: jsstr
  qd_loading :: bool
  qd_open :: bool

record ManageUserQuotaPayload =
  mq_id :: int
  mq_mode :: QuotaAdjustMode
  mq_value :: jsnum

definition amountValue :: "QuotaDialog \<Rightarrow> jsnum" where
  "amountValue d = num_or (js_parseFloat (qd_amount d)) (num 0)"

definition quotaValue :: "SystemConfigState \<Rightarrow> QuotaDialog \<Rightarrow> jsnum" where
  "quotaValue st d = parseQuotaFromDollars st (js_abs (amountValue d))"

text \<open>The arrow U+2192 of the preview is no character of the model and is written \<open>->\<close>.\<close>

definition quota_getPreviewText :: "Intl \<Rightarrow> SystemConfigState \<Rightarrow> tfun \<Rightarrow> jsnum \<Rightarrow> QuotaDialog \<Rightarrow> jsstr" where
  "quota_getPreviewText intl st t currentQuota d =
     (let val = quotaValue st d; shown = formatQuota intl st;
          pre = t ''Current quota'' None @ '': '' @ shown currentQuota in
      case qd_mode d of
        Add \<Rightarrow> pre @ ''  +'' @ shown val @ '' = '' @ shown (js_add currentQuota val)
      | Subtract \<Rightarrow> pre @ ''  -'' @ shown val @ '' = '' @ shown (js_sub currentQuota val)
      | Override \<Rightarrow> pre @ '' -> '' @ shown (parseQuotaFromDollars st (amountValue d)))"

definition quota_reset :: "QuotaDialog \<Rightarrow> QuotaDialog" where
  "quota_reset d = d\<lparr>qd_amount := '''', qd_mode := Add, qd_open := False\<rparr>"

definition quota_request :: "SystemConfigState \<Rightarrow> int \<Rightarrow> QuotaDialog \<Rightarrow> ManageUserQuotaPayload option" where
  "quota_request st userId d =
     (if qd_amount d = [] \<and> qd_mode d \<noteq> Override then None
      else if js_le (quotaValue st d) (num 0) \<and> qd_mode d \<noteq> Override then None
      else (let value = (if qd_mode d = Override then parseQuotaFromDollars st (amountValue d) else quotaValue st d) in
            Some \<lparr>mq_id = userId, mq_mode = qd_mode d, mq_value = (if qd_mode d = Override then value else js_abs value)\<rparr>))"

definition quota_handleConfirm ::
  "SystemConfigState \<Rightarrow> tfun \<Rightarrow> int \<Rightarrow> unit response list \<Rightarrow> QuotaDialog \<Rightarrow> QuotaDialog \<times> ManageUserQuotaPayload effect list" where
  "quota_handleConfirm st t userId rs d = (case quota_request st userId d of
       None \<Rightarrow> (d, [])
     | Some payload \<Rightarrow> (case rs of
          [] \<Rightarrow> (d\<lparr>qd_loading := True\<rparr>, [Request payload])
        | Failed e # rest \<Rightarrow> (d\<lparr>qd_loading := False\<rparr>, [Request payload, ToastError (case e of Some m \<Rightarrow> m | None \<Rightarrow> t ''Failed to adjust quota'' None)])
        | Answer success message v # rest \<Rightarrow>
            if success then (quota_reset (d\<lparr>qd_loading := False\<rparr>),
              [Request payload, ToastSuccess (t ''Quota adjusted successfully'' None), CloseDrawer, TriggerRefresh])
            else (d\<lparr>qd_loading := False\<rparr>,
              [Request payload, ToastError (opt_str_or message (t ''Failed to adjust quota'' None))])))"

definition quota_handleCancel :: "QuotaDialog \<Rightarrow> QuotaDialog" where
  "quota_handleCancel d = quota_reset d"

definition quota_chooseMode :: "QuotaAdjustMode \<Rightarrow> QuotaDialog \<Rightarrow> QuotaDialog" where
  "quota_chooseMode m d = d\<lparr>qd_mode := m, qd_amount := ''''\<rparr>"

subsection \<open>Subscription plans\<close>

record SubscriptionPlan =
  pl_title :: jsstr
  pl_subtitle :: "jsstr option"
  pl_price_amount :: jsnum
  pl_currency :: jsstr
  pl_duration_unit :: jsstr
  pl_duration_value :: jsnum
  pl_custom_seconds :: "jsnum option"
  pl_quota_reset_period :: jsstr
  pl_quota_reset_custom_seconds :: "jsnum option"
  pl_enabled :: bool
  pl_sort_order :: jsnum
  pl_max_purchase_per_user :: jsnum
  pl_total_amount :: jsnum
  pl_upgrade_group :: "jsstr option"
  pl_stripe_price_id :: "jsstr option"
  pl_creem_product_id :: "jsstr option"

record PlanFormValues =
  pf_title :: jsstr
  pf_subtitle :: "jsstr option"
  pf_price_amount :: jsnum
  pf_duration_unit :: jsstr
  pf_duration_value :: jsnum
  pf_custom_seconds :: "jsnum option"
  pf_quota_reset_period :: jsstr
  pf_quota_reset_custom_seconds :: "jsnum option"
  pf_enabled :: bool
  pf_sort_order :: jsnum
  pf_max_purchase_per_user :: jsnum
  pf_total_amount :: jsnum
  pf_upgrade_group :: "jsstr option"
  pf_stripe_price_id :: "jsstr option"
  pf_creem_product_id :: "jsstr option"

definition PLAN_FORM_DEFAULTS :: PlanFormValues where
  "PLAN_FORM_DEFAULTS = \<lparr>pf_title = '''', pf_subtitle = Some '''', pf_price_amount = num 0, pf_duration_unit = ''month'',
     pf_duration_value = num 1, pf_custom_seconds = Some (num 0), pf_quota_reset_period = ''never'',
     pf_quota_reset_custom_seconds = Some (num 0), pf_enabled = True, pf_sort_order = num 0,
     pf_max_purchase_per_user = num 0, pf_total_amount = num 0, pf_upgrade_group = Some '''',
     pf_stripe_price_id = Some '''', pf_creem_product_id = Some ''''\<rparr>"

definition str_or :: "jsstr \<Rightarrow> jsstr \<Rightarrow> jsstr" where
  "str_or s d = (if s = [] then d else s)"

definition planToFormValues :: "SubscriptionPlan \<Rightarrow> PlanFormValues" where
  "planToFormValues plan = \<lparr>
     pf_title = str_or (pl_title plan) '''',
     pf_subtitle = Some (opt_str_or (pl_subtitle plan) ''''),
     pf_price_amount = num_or (pl_price_amount plan) (num 0),
     pf_duration_unit = str_or (pl_duration_unit plan) ''month'',
     pf_duration_value = num_or (pl_duration_value plan) (num 1),
     pf_custom_seconds = Some (opt_num_or (pl_custom_seconds plan) (num 0)),
     pf_quota_reset_period = str_or (pl_quota_reset_period plan) ''never'',
     pf_quota_reset_custom_seconds = Some (opt_num_or (pl_quota_reset_custom_seconds plan) (num 0)),
     pf_enabled = pl_enabled plan,
     pf_sort_order = num_or (pl_sort_order plan) (num 0),
     pf_max_purchase_per_user = num_or (pl_max_purchase_per_user plan) (num 0),
     pf_total_amount = num_or (pl_total_amount plan) (num 0),
     pf_upgrade_group = Some (opt_str_or (pl_upgrade_group plan) ''''),
     pf_stripe_price_id = Some (opt_str_or (pl_stripe_price_id plan) ''''),
     pf_creem_product_id = Some (opt_str_or (pl_creem_product_id plan) '''')\<rparr>"

definition formValuesToPlanPayload :: "PlanFormValues \<Rightarrow> SubscriptionPlan" where
  "formValuesToPlanPayload values = \<lparr>
     pl_title = pf_title values,
     pl_subtitle = pf_subtitle values,
     pl_price_amount = num_or (pf_price_amount values) (num 0),
     pl_currency = ''USD'',
     pl_duration_unit = pf_duration_unit values,
     pl_duration_value = num_or (pf_duration_value values) (num 0),
     pl_custom_seconds = Some (opt_num_or (pf_custom_seconds values) (num 0)),
     pl_quota_reset_period = str_or (pf_quota_reset_period values) ''never'',
     pl_quota_reset_custom_seconds = Some (if pf_quota_reset_period values = ''custom''
        then opt_num_or (pf_quota_reset_custom_seconds values) (num 0) else num 0),
     pl_enabled = pf_enabled values,
     pl_sort_order = num_or (pf_sort_order values) (num 0),
     pl_max_purchase_per_user = num_or (pf_max_purchase_per_user values) (num 0),
     pl_total_amount = num_or (pf_total_amount values) (num 0),
     pl_upgrade_group = Some (opt_str_or (pf_upgrade_group values) ''''),
     pl_stripe_price_id = pf_stripe_price_id values,
     pl_creem_product_id = pf_creem_product_id values\<rparr>"

text \<open>The display of a duration and of a reset period; \<open>js_num_str\<close> interpolates a number.\<close>

definition units_of :: "tfun \<Rightarrow> jsnum \<Rightarrow> int \<Rightarrow> jsstr \<Rightarrow> jsstr" where
  "units_of t seconds unit label_key =
     js_num_str (js_floor (js_div seconds (num unit))) @ '' '' @ t label_key None"

definition formatDuration :: "tfun \<Rightarrow> jsstr option \<Rightarrow> jsnum option \<Rightarrow> jsnum option \<Rightarrow> jsstr" where
  "formatDuration t duration_unit duration_value custom_seconds =
     (let unit = opt_str_or duration_unit ''month''; value = opt_num_or duration_value (num 1);
          unitLabels = [(''year'', t ''years'' None), (''month'', t ''months'' None), (''day'', t ''days'' None),
            (''hour'', t ''hours'' None), (''custom'', t ''Custom (seconds)'' None)] in
      if unit = ''custom'' then
        (let seconds = opt_num_or custom_seconds (num 0) in
         if js_ge seconds (num 86400) then units_of t seconds 86400 ''days''
         else if js_ge seconds (num 3600) then units_of t seconds 3600 ''hours''
         else js_num_str seconds @ '' '' @ t ''seconds'' None)
      else js_num_str value @ '' '' @ opt_str_or (obj_get unit unitLabels) unit)"

definition formatResetPeriod :: "tfun \<Rightarrow> jsstr option \<Rightarrow> jsnum option \<Rightarrow> jsstr" where
  "formatResetPeriod t quota_reset_period custom_seconds =
     (let period = opt_str_or quota_reset_period ''never'' in
      if period = ''daily'' then t ''Daily'' None
      else if period = ''weekly'' then t ''Weekly'' None
      else if period = ''monthly'' then t ''Monthly'' None
      else if period = ''custom'' then
        (let seconds = opt_num_or custom_seconds (num 0) in
         if js_ge seconds (num 86400) then units_of t seconds 86400 ''days''
         else if js_ge seconds (num 3600) then units_of t seconds 3600 ''hours''
         else if js_ge seconds (num 60) then units_of t seconds 60 ''minutes''
         else js_num_str seconds @ '' '' @ t ''seconds'' None)
      else t ''No Reset'' None)"

definition plan_formatTimestamp :: "dayjs \<Rightarrow> jsnum \<Rightarrow> jsstr" where
  "plan_formatTimestamp dj ts = (if \<not> js_truthy_num ts then ''-'' else dj (js_mul ts (num 1000)) ''YYYY-MM-DD HH:mm:ss'')"

datatype PlanRequest = CreatePlan SubscriptionPlan | UpdatePlan jsnum SubscriptionPlan

definition plan_onSubmit :: "tfun \<Rightarrow> jsnum option \<Rightarrow> PlanFormValues \<Rightarrow> unit response list \<Rightarrow> PlanRequest effect list" where
  "plan_onSubmit t currentId values rs =
     (let payload = formValuesToPlanPayload values;
          update = (case currentId of Some i \<Rightarrow> js_truthy_num i | None \<Rightarrow> False) in
      SetSubmitting True # Request (if update then UpdatePlan (the currentId) payload else CreatePlan payload) #
      (case rs of [] \<Rightarrow> []
       | Failed e # rest \<Rightarrow> [ToastError (t ''Request failed'' None), SetSubmitting False]
       | Answer success message d # rest \<Rightarrow>
           (if success then [ToastSuccess (t (if update then ''Update succeeded'' else ''Create succeeded'') None),
              CloseDrawer, TriggerRefresh] else []) @ [SetSubmitting False]))"

subsection \<open>Models\<close>

record ConsoleModel =
  md_id :: "jsnum option"
  md_model_name :: jsstr
  md_description :: "jsstr option"
  md_icon :: "jsstr option"
  md_tags :: "jsstr option"
  md_vendor_id :: "jsnum option"
  md_endpoints :: "jsstr option"
  md_name_rule :: "jsnum option"
  md_status :: jsnum
  md_sync_official :: jsnum
  md_enable_groups :: "jsstr list option"
  md_quota_types :: "jsnum list option"

record ModelFormValues =
  mf_id :: "jsnum option"
  mf_model_name :: jsstr
  mf_description :: jsstr
  mf_icon :: jsstr
  mf_tags :: "jsstr list"
  mf_vendor_id :: "jsnum option"
  mf_endpoints :: jsstr
  mf_name_rule :: jsnum
  mf_status :: bool
  mf_sync_official :: bool
  mf_enable_groups :: "jsstr list"
  mf_quota_types :: "jsnum list"

definition parseModelTags :: "jsstr option \<Rightarrow> jsstr list" where
  "parseModelTags tags = (case tags of None \<Rightarrow> []
     | Some s \<Rightarrow> if s = [] then [] else filter (\<lambda>x. x \<noteq> []) (map js_trim (split_on CHR '','' s)))"

definition formatTagsArray :: "jsstr list \<Rightarrow> jsstr" where
  "formatTagsArray tags = js_join '','' (filter (\<lambda>x. x \<noteq> []) tags)"

definition formatTagsString :: "jsstr list \<Rightarrow> jsstr" where
  "formatTagsString tags = js_join '','' tags"

definition transformModelToFormDefaults :: "ConsoleModel \<Rightarrow> ModelFormValues" where
  "transformModelToFormDefaults model = \<lparr>
     mf_id = md_id model, mf_model_name = md_model_name model,
     mf_description = opt_str_or (md_description model) '''', mf_icon = opt_str_or (md_icon model) '''',
     mf_tags = parseModelTags (md_tags model), mf_vendor_id = md_vendor_id model,
     mf_endpoints = opt_str_or (md_endpoints model) '''', mf_name_rule = opt_num_or (md_name_rule model) (num 0),
     mf_status = js_eq (md_status model) (num 1), mf_sync_official = js_eq (md_sync_official model) (num 1),
     mf_enable_groups = (case md_enable_groups model of Some gs \<Rightarrow> gs | None \<Rightarrow> []),
     mf_quota_types = (case md_quota_types model of Some qs \<Rightarrow> qs | None \<Rightarrow> [])\<rparr>"

definition transformFormDataToModelPayload :: "ModelFormValues \<Rightarrow> ConsoleModel" where
  "transformFormDataToModelPayload formData = \<lparr>
     md_id = mf_id formData, md_model_name = mf_model_name formData,
     md_description = Some (str_or (mf_description formData) ''''), md_icon = Some (str_or (mf_icon formData) ''''),
     md_tags = Some (formatTagsArray (mf_tags formData)), md_vendor_id = mf_vendor_id formData,
     md_endpoints = Some (str_or (mf_endpoints formData) ''''), md_name_rule = Some (mf_name_rule formData),
     md_status = (if mf_status formData then num 1 else num 0),
     md_sync_official = (if mf_sync_official formData then num 1 else num 0),
     md_enable_groups = Some (mf_enable_groups formData), md_quota_types = Some (mf_quota_types formData)\<rparr>"

definition validateJSON :: "jsstr \<Rightarrow> bool" where
  "validateJSON value = (if value = [] \<or> js_trim value = [] then True else json_parse value \<noteq> None)"

definition validateEndpoints :: "jsstr \<Rightarrow> bool" where
  "validateEndpoints endpoints = validateJSON endpoints"

definition parseEndpoints :: "jsstr option \<Rightarrow> json option" where
  \<comment> \<open>\<open>null\<close> is \<open>None\<close>, also the one that the text \<open>null\<close> gives\<close>
  "parseEndpoints endpoints = (case endpoints of None \<Rightarrow> None
     | Some s \<Rightarrow> if s = [] \<or> js_trim s = [] then None
         else (case json_parse s of Some JNull \<Rightarrow> None | r \<Rightarrow> r))"

definition formatEndpointsDisplay :: "jsstr option \<Rightarrow> jsstr list option" where
  \<comment> \<open>\<open>None\<close>: \<open>String\<close> throws on an item\<close>
  "formatEndpointsDisplay endpoints = (let parsed = parseEndpoints endpoints in
     if \<not> js_truthy parsed then Some []
     else (case parsed of
         Some (JObj kvs) \<Rightarrow> Some (map fst kvs)
       | Some (JArr vs) \<Rightarrow> (if list_ex string_throws vs then None else Some (map js_String vs))
       | _ \<Rightarrow> Some []))"

definition validateModelName :: "jsstr \<Rightarrow> bool" where
  "validateModelName name = (length (js_trim name) > 0)"

definition isModelEnabled :: "ConsoleModel \<Rightarrow> bool" where
  "isModelEnabled model = js_eq (md_status model) (num 1)"

definition isModelSyncOfficial :: "ConsoleModel \<Rightarrow> bool" where
  "isModelSyncOfficial model = js_eq (md_sync_official model) (num 1)"

definition plural_ago :: "jsnum \<Rightarrow> bool \<Rightarrow> jsstr \<Rightarrow> jsstr" where
  "plural_ago n plural unit = js_num_str n @ '' '' @ unit @ (if plural then ''s'' else '''') @ '' ago''"

definition model_formatRelativeTime :: "jsnum \<Rightarrow> jsnum \<Rightarrow> jsstr" where
  "model_formatRelativeTime now timestamp =
     (if \<not> js_truthy_num timestamp then ''Never''
      else (let diff = js_sub now (js_mul timestamp (num 1000));
                seconds = js_floor (js_div diff (num 1000));
                minutes = js_floor (js_div seconds (num 60));
                hours = js_floor (js_div minutes (num 60));
                days = js_floor (js_div hours (num 24)) in
            if js_gt days (num 0) then plural_ago days (js_gt days (num 1)) ''day''
            else if js_gt hours (num 0) then plural_ago hours (js_gt hours (num 1)) ''hour''
            else if js_gt minutes (num 0) then plural_ago minutes (js_gt minutes (num 1)) ''minute''
            else plural_ago seconds (\<not> js_eq seconds (num 1)) ''second''))"

definition normalizeDeploymentStatus :: "json option \<Rightarrow> jsstr" where
  "normalizeDeploymentStatus status = (case status of Some (JStr s) \<Rightarrow> js_toLowerCase (js_trim s) | _ \<Rightarrow> '''')"

definition formatRemainingMinutes :: "json option \<Rightarrow> jsstr option" where
  "formatRemainingMinutes mins =
     (let n = (case mins of Some (JStr s) \<Rightarrow> js_Number_str s | Some (JNum x) \<Rightarrow> x | _ \<Rightarrow> NaN) in
      if \<not> js_isFinite n then None
      else (let total_mins = js_max (num 0) (js_round n);
                days = js_floor (js_div total_mins (num 1440));
                hours = js_floor (js_div (js_mod total_mins (num 1440)) (num 60));
                minutes = js_mod total_mins (num 60);
                parts = (if js_gt days (num 0) then [js_num_str days @ ''d''] else []) @
                        (if js_gt hours (num 0) then [js_num_str hours @ ''h''] else []) in
            Some (js_join '' '' (parts @ (if parts = [] \<or> js_gt minutes (num 0) then [js_num_str minutes @ ''m''] else [])))))"

subsection \<open>Opening and saving a record\<close>

text \<open>The two conversions every form shares: seconds through a date, and quota units through the displayed amount.\<close>

lemma seconds_through_date:
  assumes "0 \<le> s" and "s \<le> 8640000000000"
  shows "js_floor (js_div (js_Date (js_mul (num s) (num 1000))) (num 1000)) = num s"
proof -
  have "js_mul (num s) (num 1000) = num (s * 1000)" by (rule js_mul_int) (use assms in simp)
  moreover have "js_Date (num (s * 1000)) = num (s * 1000)"
  proof -
    have "\<bar>of_int (s * 1000) :: rat\<bar> \<le> of_int 8640000000000000"
      using assms by (simp only: of_int_abs [symmetric] of_int_le_iff)
    then show ?thesis by (simp add: js_Date_def)
  qed
  moreover have "js_div (num (s * 1000)) (num 1000) = num s" using fl_int [of s] assms by simp
  ultimately show ?thesis by (simp add: js_floor_def)
qed

lemma parse_quota_zero:
  assumes "sane_rates st"
  shows "parseQuotaFromDollars st (num 0) = num 0"
proof -
  let ?cfg = "getConfig st"
  obtain qc qu x where "r_quotaPerCredit ?cfg = Fin qc" "r_quotaPerUnit ?cfg = Fin qu"
    "meta_exchange (getDisplayMeta ?cfg) = Fin x"
    using assms sane_rates_meta [OF assms] by (auto simp: sane_rates_def elim!: moderateE)
  then show ?thesis
    by (auto simp: parseQuotaFromDollars_def getCurrencyDisplay_def js_isFinite_def fl_def Let_def split: DisplayMeta.splits)
qed


lemma expiry_through_form:
  assumes "e = d \<and> d \<le> 0 \<or> 0 < e \<and> e \<le> 8640000000000"
  shows "(case (if js_gt (num e) (num 0) then Some (js_Date (js_mul (num e) (num 1000))) else None) of
           Some ms \<Rightarrow> js_floor (js_div ms (num 1000)) | None \<Rightarrow> num d) = num e"
  using assms seconds_through_date [of e] by (auto simp del: js_mul.simps js_div.simps)

lemma limits_through_form:
  assumes "list_all (\<lambda>m. m \<noteq> [] \<and> CHR '','' \<notin> set m) ms"
  shows "(if js_join '','' ms = [] then [] else filter (\<lambda>m. m \<noteq> []) (split_on CHR '','' (js_join '','' ms))) = ms"
proof (cases ms)
  case (Cons m rest)
  then have "split_on CHR '','' (js_join '','' ms) = ms" using assms
    by (intro split_on_join) (auto simp: list_all_iff)
  moreover have "js_join '','' ms \<noteq> []" using assms Cons by (cases rest) auto
  moreover have "filter (\<lambda>m. m \<noteq> []) ms = ms" using assms by (simp add: filter_id_conv list_all_iff)
  ultimately show ?thesis by simp
qed simp



lemma sane_initSystemConfig: "sane_rates initSystemConfig"
proof -
  have "bnd 200 5000" "bnd 200 500000" "bnd 200 1" by (simp_all add: bnd_def power_int_minus)
  then show ?thesis
    by (simp add: sane_rates_def getConfig_def initSystemConfig_def DEFAULT_CURRENCY_CONFIG_def
        DEFAULT_CREDIT_DISPLAY_def credit_of_def spread_credit_def pos_or_def js_truthy_num_def moderate_def)
qed


subsection \<open>Creating a batch of keys\<close>

lemma create_loop_run:
  assumes "list_all ok_answer oks" and "i + length oks \<le> n"
  shows "create_loop t rnd data base (num (int n)) i s (oks @ rest) =
     map (\<lambda>j. Request (create_request rnd data base j)) [i..<i + length oks] @
     create_loop t rnd data base (num (int n)) (i + length oks) (s + length oks) rest"
  using assms
proof (induction oks arbitrary: i s)
  case (Cons r oks)
  then obtain m d where r: "r = Answer True m d" by (cases r) (auto simp: ok_answer_def)
  have lt: "js_lt (num (int i)) (num (int n))" using Cons.prems(2) by simp
  have "create_loop t rnd data base (num (int n)) i s ((r # oks) @ rest) =
      Request (create_request rnd data base i) # create_loop t rnd data base (num (int n)) (Suc i) (Suc s) (oks @ rest)"
    using lt by (subst create_loop.simps) (simp add: r)
  moreover have "[i..<i + length (r # oks)] = i # [Suc i..<Suc i + length oks]" by (simp add: upt_conv_Cons del: upt_Suc)
  ultimately show ?case using Cons.IH [of "Suc i" "Suc s"] Cons.prems by (simp del: upt_Suc)
qed simp

text \<open>C16. Creating a batch of keys: after the answered successes the handler has sent one request for each, with
  the typed name first and suffixed names after it. If that was the whole batch it reports the number, closes and
  refreshes; if not, it sends the next request, and a refusal ends the batch with its message and the report of the
  keys that were made. A rejected request ends the batch without that report: the drawer stays open and the list is
  not refreshed, although keys were made.\<close>

theorem key_batch_exact:
  assumes "kf_tokenCount data = Some (num (int n))" and "0 < n"
    and "list_all ok_answer oks" and "length oks \<le> n"
  shows "let sent = (\<lambda>k. SetSubmitting True # map (\<lambda>j. Request (create_request rnd data (key_payload st data) j)) [0..<k]);
            submit = (\<lambda>rest. key_onSubmit st t rnd None data (oks @ rest)) in
     (if length oks = n
      then submit rest = sent n @ [ToastSuccess (t ''Successfully created {{count}} API Key(s)'' (Some (int n))),
             CloseDrawer, TriggerRefresh, SetSubmitting False]
      else submit [] = sent (Suc (length oks)) \<and>
        submit (Answer False m d # rest) = sent (Suc (length oks)) @
          ToastError (opt_str_or m (t ''Failed to create API key'' None)) # keys_created t (length oks) \<and>
        submit (Failed e # rest) = sent (Suc (length oks)) @
          [ToastError (t ''An unexpected error occurred'' None), SetSubmitting False])"
proof -
  have count: "opt_num_or (kf_tokenCount data) (num 1) = num (int n)"
    using assms(1,2) by (simp add: opt_num_or_def num_or_def js_truthy_num_def)
  have run: "key_onSubmit st t rnd None data (oks @ r) =
      SetSubmitting True # map (\<lambda>j. Request (create_request rnd data (key_payload st data) j)) [0..<length oks] @
      create_loop t rnd data (key_payload st data) (num (int n)) (length oks) (length oks) r" for r
    using create_loop_run [of oks 0 n t rnd data "key_payload st data" 0 r] assms(3,4) count
    by (simp add: key_onSubmit_def)
  show ?thesis
    unfolding run Let_def using assms(2,4)
    by (subst (1 2 3 4) create_loop.simps) (auto simp: keys_created_def)
qed

theorem key_batch_exact_witness:
  "let data = API_KEY_FORM_DEFAULT_VALUES\<lparr>kf_name := ''k'', kf_tokenCount := Some (num 3)\<rparr>;
       sent = (\<lambda>j. Request (create_request (\<lambda>i. ''abc'') data (key_payload initSystemConfig data) j)) in
   key_onSubmit initSystemConfig (\<lambda>s c. s) (\<lambda>i. ''abc'') None data [Answer True None None, Failed None] =
     [SetSubmitting True, sent 0, sent 1, ToastError ''An unexpected error occurred'', SetSubmitting False]"
  using key_batch_exact [of "API_KEY_FORM_DEFAULT_VALUES\<lparr>kf_name := ''k'', kf_tokenCount := Some (num 3)\<rparr>" 3
      "[Answer True None None]" "\<lambda>i. ''abc''" initSystemConfig "\<lambda>s c. s" "[]" None None None]
  by (simp add: ok_answer_def Let_def)

definition adjusted :: "QuotaAdjustMode \<Rightarrow> jsnum \<Rightarrow> jsnum \<Rightarrow> jsnum" where
  \<comment> \<open>the balance that a request asks for\<close>
  "adjusted mode current value = (case mode of Add \<Rightarrow> js_add current value | Subtract \<Rightarrow> js_sub current value | Override \<Rightarrow> value)"

text \<open>What the quota dialog sends is what it previews: the preview ends with the balance that the requested
  adjustment gives, an addition or subtraction is only sent with a positive value, and nothing else is sent.\<close>

theorem quota_dialog_faithful:
  assumes "quota_request st uid d = Some p"
  shows "(\<exists>pre. quota_getPreviewText intl st t current d =
       pre @ formatQuota intl st (adjusted (mq_mode p) current (mq_value p))) \<and>
     (mq_mode p = Override \<or> \<not> js_le (mq_value p) (num 0)) \<and> mq_id p = uid"
proof (intro conjI)
  have abs: "js_abs x = x" if "\<not> js_le x (num 0)" for x using that
    by (cases x) (auto simp: js_abs_def js_le_def js_eq_def)
  show "\<exists>pre. quota_getPreviewText intl st t current d = pre @ formatQuota intl st (adjusted (mq_mode p) current (mq_value p))"
    using assms abs [of "quotaValue st d"]
    by (cases "qd_mode d") (auto simp: quota_request_def quota_getPreviewText_def adjusted_def Let_def split: if_splits)
  show "mq_mode p = Override \<or> \<not> js_le (mq_value p) (num 0)" "mq_id p = uid"
    using assms abs [of "quotaValue st d"] by (auto simp: quota_request_def Let_def split: if_splits)
qed

text \<open>Confirming an override without typing an amount asks for the quota 0.\<close>

lemma empty_override_clears:
  assumes "sane_rates st" and "qd_mode d = Override" and "qd_amount d = []"
  shows "quota_request st uid d = Some \<lparr>mq_id = uid, mq_mode = Override, mq_value = num 0\<rparr>"
proof -
  have "js_parseFloat [] = NaN"
    by (simp add: js_parseFloat_def float_sign_def digits_pre_def)
  then have "amountValue d = num 0" using assms(3) by (simp add: amountValue_def num_or_def js_truthy_num_def)
  then show ?thesis using assms parse_quota_zero [of st] by (simp add: quota_request_def)
qed

theorem quota_dialog_faithful_witness:
  "\<exists>pre. quota_getPreviewText en_intl initSystemConfig (\<lambda>s c. s) (num 5)
       \<lparr>qd_mode = Override, qd_amount = '''', qd_loading = False, qd_open = True\<rparr> =
     pre @ formatQuota en_intl initSystemConfig (num 0)"
  using quota_dialog_faithful [OF empty_override_clears [OF sane_initSystemConfig, of
        "\<lparr>qd_mode = Override, qd_amount = '''', qd_loading = False, qd_open = True\<rparr>" 7],
      of en_intl "\<lambda>s c. s" "num 5"]
  by (simp add: adjusted_def)

subsection \<open>Plans and models\<close>

lemma num_or_zero [simp]: "x \<noteq> NaN \<Longrightarrow> num_or x (Fin 0) = x"
  by (auto simp: num_or_def js_truthy_num_def)

lemma num_or_zero_zero [simp]: "num_or x (Fin 0) \<noteq> NaN"
  by (auto simp: num_or_def js_truthy_num_def)

lemma opt_num_or_zero [simp]: "opt_num_or x (Fin 0) \<noteq> NaN"
  by (auto simp: opt_num_or_def split: option.splits)

lemma str_or_empty [simp]: "str_or s '''' = s"
  by (simp add: str_or_def)

lemma opt_str_or_empty [simp]: "opt_str_or (Some s) '''' = s"
  by (simp add: opt_str_or_def)

lemma opt_num_or_Some_zero [simp]: "x \<noteq> NaN \<Longrightarrow> opt_num_or (Some x) (Fin 0) = x"
  by (simp add: opt_num_or_def)

definition filled_plan :: "SubscriptionPlan \<Rightarrow> SubscriptionPlan" where
  \<comment> \<open>the plan in the fixed currency, with the optional fields filled and the reset seconds kept for custom periods only\<close>
  "filled_plan p = p\<lparr>pl_currency := ''USD'', pl_subtitle := Some (opt_str_or (pl_subtitle p) ''''),
     pl_custom_seconds := Some (opt_num_or (pl_custom_seconds p) (num 0)),
     pl_quota_reset_custom_seconds := Some (if pl_quota_reset_period p = ''custom''
        then opt_num_or (pl_quota_reset_custom_seconds p) (num 0) else num 0),
     pl_upgrade_group := Some (opt_str_or (pl_upgrade_group p) ''''),
     pl_stripe_price_id := Some (opt_str_or (pl_stripe_price_id p) ''''),
     pl_creem_product_id := Some (opt_str_or (pl_creem_product_id p) '''')\<rparr>"

text \<open>Opening a plan in the form and saving it unchanged sends the plan with its optional fields filled, the
  currency USD, and the seconds of the quota reset only for a custom period; sending that again changes nothing.\<close>

theorem plan_edit_keeps:
  assumes "pl_duration_unit p \<noteq> []" and "pl_quota_reset_period p \<noteq> []" and "js_truthy_num (pl_duration_value p)"
    and "NaN \<notin> {pl_price_amount p, pl_sort_order p, pl_max_purchase_per_user p, pl_total_amount p}"
  shows "formValuesToPlanPayload (planToFormValues p) = filled_plan p \<and>
     formValuesToPlanPayload (planToFormValues (filled_plan p)) = filled_plan p"
proof -
  have dv: "num_or (pl_duration_value p) d = pl_duration_value p" for d using assms(3) by (simp add: num_or_def)
  have "formValuesToPlanPayload (planToFormValues q) = filled_plan q"
    if "pl_duration_unit q \<noteq> []" "pl_quota_reset_period q \<noteq> []" "\<And>d. num_or (pl_duration_value q) d = pl_duration_value q"
      "NaN \<notin> {pl_price_amount q, pl_sort_order q, pl_max_purchase_per_user q, pl_total_amount q}" for q
    using that by (simp add: formValuesToPlanPayload_def planToFormValues_def filled_plan_def str_or_def eq_commute [of NaN])
  note this [of p] this [of "filled_plan p"]
  moreover have "filled_plan (filled_plan p) = filled_plan p" by (simp add: filled_plan_def)
  ultimately show ?thesis using assms dv by (simp add: filled_plan_def)
qed

theorem plan_edit_keeps_witness:
  "let p = (formValuesToPlanPayload PLAN_FORM_DEFAULTS)\<lparr>pl_title := ''Pro'', pl_currency := ''EUR''\<rparr> in
   formValuesToPlanPayload (planToFormValues p) = p\<lparr>pl_currency := ''USD''\<rparr>"
  using plan_edit_keeps [of "(formValuesToPlanPayload PLAN_FORM_DEFAULTS)\<lparr>pl_title := ''Pro'', pl_currency := ''EUR''\<rparr>"]
  by (simp add: formValuesToPlanPayload_def PLAN_FORM_DEFAULTS_def js_truthy_num_def num_or_def filled_plan_def
      str_or_def opt_num_or_def opt_str_or_def)

text \<open>Opening a model in the form and saving it unchanged sends its fields with the missing ones filled in; its
  tags are those of the stored text, and the two flags are 1 exactly when they were.\<close>

theorem model_edit_keeps:
  assumes "list_all (\<lambda>x. x \<noteq> [] \<and> trimmed x \<and> CHR '','' \<notin> set x) tags" and "md_tags m = Some (js_join '','' tags)"
  shows "transformFormDataToModelPayload (transformModelToFormDefaults m) = m\<lparr>
     md_description := Some (opt_str_or (md_description m) ''''), md_icon := Some (opt_str_or (md_icon m) ''''),
     md_endpoints := Some (opt_str_or (md_endpoints m) ''''), md_name_rule := Some (opt_num_or (md_name_rule m) (num 0)),
     md_status := num (if isModelEnabled m then 1 else 0), md_sync_official := num (if isModelSyncOfficial m then 1 else 0),
     md_enable_groups := Some (case md_enable_groups m of Some gs \<Rightarrow> gs | None \<Rightarrow> []),
     md_quota_types := Some (case md_quota_types m of Some qs \<Rightarrow> qs | None \<Rightarrow> [])\<rparr>"
proof -
  have "list_all (\<lambda>x. x \<noteq> [] \<and> CHR '','' \<notin> set x) tags" using assms(1) by (simp add: list_all_iff)
  note tags = limits_through_form [OF this]
  have "map js_trim (split_on CHR '','' (js_join '','' tags)) = split_on CHR '','' (js_join '','' tags)" if "tags \<noteq> []"
    using assms(1) that by (simp add: split_on_join list_all_iff map_idI trim_nf.canonical_fix)
  then have parse: "parseModelTags (Some (js_join '','' tags)) = tags"
    using tags by (cases "tags = []") (auto simp: parseModelTags_def)
  have "filter (\<lambda>x. x \<noteq> []) tags = tags" using assms(1) by (simp add: filter_id_conv list_all_iff)
  then have "formatTagsArray (parseModelTags (md_tags m)) = js_join '','' tags"
    using parse assms(2) by (simp add: formatTagsArray_def)
  then show ?thesis using assms(2)
    by (simp add: transformFormDataToModelPayload_def transformModelToFormDefaults_def isModelEnabled_def isModelSyncOfficial_def)
qed

theorem model_edit_keeps_witness:
  "let m = \<lparr>md_id = Some (num 3), md_model_name = ''glm-4'', md_description = None, md_icon = None,
       md_tags = Some ''chat,fast'', md_vendor_id = None, md_endpoints = None, md_name_rule = None, md_status = num 2,
       md_sync_official = num 1, md_enable_groups = None, md_quota_types = None\<rparr> in
   md_tags (transformFormDataToModelPayload (transformModelToFormDefaults m)) = Some ''chat,fast'' \<and>
   md_status (transformFormDataToModelPayload (transformModelToFormDefaults m)) = num 0"
  using model_edit_keeps [of "[''chat'', ''fast'']" "\<lparr>md_id = Some (num 3), md_model_name = ''glm-4'', md_description = None,
       md_icon = None, md_tags = Some ''chat,fast'', md_vendor_id = None, md_endpoints = None, md_name_rule = None,
       md_status = num 2, md_sync_official = num 1, md_enable_groups = None, md_quota_types = None\<rparr>"]
  by (simp add: trimmed_def js_ws_def isModelEnabled_def js_eq_def)

text \<open>Opening a redemption code and saving it unchanged sends its name, quota and expiry.\<close>

theorem redemption_edit_keeps:
  assumes "sane_rates st" and "\<bar>q\<bar> \<le> 2 ^ 48" and "rd_quota r = num q"
    and "rd_expired_time r = num e" and "0 \<le> e" and "e \<le> 8640000000000"
  shows "redemption_payload st (transformRedemptionToFormDefaults st r) =
     \<lparr>rp_name = rd_name r, rp_quota = rd_quota r, rp_expired_time = rd_expired_time r, rp_count = num 1\<rparr>"
proof -
  have "e = 0 \<and> (0::int) \<le> 0 \<or> 0 < e \<and> e \<le> 8640000000000" using assms(5,6) by auto
  note expiry = expiry_through_form [OF this]
  show ?thesis
    unfolding redemption_payload_def transformRedemptionToFormDefaults_def RedemptionFormValues.select_convs assms(3,4)
      expiry quota_roundtrip [OF assms(2,1)]
    by (simp add: opt_num_or_def num_or_def js_truthy_num_def)
qed

end
