(* ===== verification/Wallet.thy ===== *)
theory Wallet
  imports Console_Forms Js_Pretty
begin

section \<open>Wallet: top-up configuration, quotes, payments and orders\<close>

text \<open>
  Model of \<^verbatim>\<open>features/wallet/lib\<close> (\<^verbatim>\<open>format.ts\<close>, \<^verbatim>\<open>payment.ts\<close>, \<^verbatim>\<open>billing.ts\<close>, \<^verbatim>\<open>affiliate.ts\<close>), of its hooks
  (\<^verbatim>\<open>use-topup-info.ts\<close>, \<^verbatim>\<open>use-payment.ts\<close>, \<^verbatim>\<open>use-waffo-payment.ts\<close>, \<^verbatim>\<open>use-waffo-pancake-payment.ts\<close>,
  \<^verbatim>\<open>use-creem-payment.ts\<close>, \<^verbatim>\<open>use-redemption.ts\<close>, \<^verbatim>\<open>use-billing-history.ts\<close>) and of the handlers of the page
  \<^verbatim>\<open>features/wallet/index.tsx\<close>.

  The page is a record. A quote is asked for when an amount or a method is chosen and answered later, so the page has
  the list of the quotes under way; an answer may come for any of them, in any order. A payment is modelled together
  with its answer. The answer of the server to a request is a parameter, a rejected request is \<open>None\<close>; \<open>new URL\<close> is a
  parameter that gives the protocol of a text or \<open>None\<close> where it throws. The confirmation is a modal dialog: while it
  is open the card below it takes no input, which is the guard \<open>allowed\<close>.

  Shown: whatever the server sends, the configuration that is used is clean; when quotes are answered in turn, what the
  dialog shows is the quote of exactly the amount and method that confirming requests, and a late answer breaks
  this; only web addresses are opened for the hosted checkout; only an administrator can complete an order.
\<close>

subsection \<open>Constants, prices and labels\<close>

definition DEFAULT_PRESET_MULTIPLIERS :: "int list" where
  "DEFAULT_PRESET_MULTIPLIERS = [1, 5, 10, 30, 50, 100, 300, 500]"

definition PAYMENT_STRIPE :: jsstr where "PAYMENT_STRIPE = ''stripe''"

definition PAYMENT_WAFFO :: jsstr where "PAYMENT_WAFFO = ''waffo''"

definition PAYMENT_WAFFO_PANCAKE :: jsstr where "PAYMENT_WAFFO_PANCAKE = ''waffo_pancake''"

definition DEFAULT_PAYMENT_TYPE :: jsstr where "DEFAULT_PAYMENT_TYPE = ''alipay''"

definition DEFAULT_DISCOUNT_RATE :: jsnum where "DEFAULT_DISCOUNT_RATE = num 1"

definition DEFAULT_MIN_TOPUP :: jsnum where "DEFAULT_MIN_TOPUP = num 1"

definition formatCreemPrice :: "jsstr \<Rightarrow> jsnum \<Rightarrow> jsstr \<Rightarrow> jsstr" where
  \<comment> \<open>the euro sign is no character of the model and is the parameter \<open>euro\<close>\<close>
  "formatCreemPrice euro price cur = (if cur = ''EUR'' then euro else ''$'') @ js_toFixed price 2"

definition formatQuotaShort :: "jsnum \<Rightarrow> jsstr" where
  "formatQuotaShort quota =
     (if js_ge quota (num 1000000) then js_toFixed (js_div quota (num 1000000)) 1 @ ''M''
      else if js_ge quota (num 1000) then js_toFixed (js_div quota (num 1000)) 1 @ ''K''
      else js_num_str quota)"

definition wallet_formatCurrency :: "Intl \<Rightarrow> SystemConfigState \<Rightarrow> jsnum + jsstr \<Rightarrow> jsstr" where
  "wallet_formatCurrency intl st amount =
     (let numeric = (case amount of Inl x \<Rightarrow> x | Inr s \<Rightarrow> js_parseFloat s) in
      formatPaymentGatewayAmount intl st (if js_isFinite numeric then Some numeric else None) (Some (opts3 2 2 False)))"

definition getDiscountLabel :: "jsnum \<Rightarrow> jsstr" where
  "getDiscountLabel discount =
     (if js_ge discount DEFAULT_DISCOUNT_RATE then ''''
      else js_num_str (js_round (js_mul (js_sub (num 1) discount) (num 100))) @ ''% OFF'')"

record PresetPricing =
  originalPrice :: jsnum
  actualPrice :: jsnum
  savedAmount :: jsnum
  hasDiscount :: bool

definition calculatePresetPricing :: "jsnum \<Rightarrow> jsnum \<Rightarrow> jsnum \<Rightarrow> PresetPricing" where
  "calculatePresetPricing presetValue priceRatio discount =
     (let originalPrice = js_mul presetValue priceRatio; actualPrice = js_mul originalPrice discount in
      \<lparr>originalPrice = originalPrice, actualPrice = actualPrice, savedAmount = js_sub originalPrice actualPrice,
       hasDiscount = js_lt discount (num 1)\<rparr>)"

definition topup_status_config :: "jsstr \<Rightarrow> jsstr \<times> jsstr" where
  \<comment> \<open>variant and label; an unknown status is shown as pending\<close>
  "topup_status_config status = (case map_of [(''success'', (''success'', ''Success'')), (''pending'', (''warning'', ''Pending'')),
       (''expired'', (''danger'', ''Expired''))] status of Some c \<Rightarrow> c | None \<Rightarrow> (''warning'', ''Pending''))"

definition getPaymentMethodName :: "jsstr \<Rightarrow> jsstr" where
  "getPaymentMethodName method_name = opt_str_or (map_of [(''stripe'', ''Stripe''), (''alipay'', ''Alipay''),
      (''wxpay'', ''WeChat Pay''), (''waffo'', ''Waffo'')] method_name) method_name"

definition generateAffiliateLink :: "jsstr option \<Rightarrow> jsstr \<Rightarrow> jsstr" where
  \<comment> \<open>\<open>origin\<close> is that of the window, if there is one\<close>
  "generateAffiliateLink origin affCode = (case origin of None \<Rightarrow> '''' | Some window_origin \<Rightarrow> window_origin @ ''/register?aff='' @ affCode)"

subsection \<open>The top-up configuration\<close>

record PaymentMethod =
  pm_name :: jsstr
  pm_type :: jsstr
  pm_color :: "jsstr option"
  pm_min_topup :: "jsnum option"

record WaffoPayMethod =
  wm_name :: jsstr
  wm_icon :: "jsstr option"
  wm_payMethodType :: "jsstr option"
  wm_payMethodName :: "jsstr option"

record CreemProduct =
  cp_name :: jsstr
  cp_productId :: jsstr
  cp_price :: jsnum
  cp_quota :: jsnum
  cp_currency :: jsstr

record PresetAmount =
  pa_value :: jsnum
  pa_discount :: "jsnum option"

record TopupInfo =
  enable_online_topup :: bool
  enable_stripe_topup :: bool
  pay_methods :: "PaymentMethod list"
  min_topup :: jsnum
  stripe_min_topup :: jsnum
  amount_options :: "jsnum list"
  discount :: "jsnum obj"
  creem_products :: "CreemProduct list"
  enable_waffo_topup :: bool
  waffo_pay_methods :: "WaffoPayMethod list"
  waffo_min_topup :: "jsnum option"
  enable_waffo_pancake_topup :: bool
  waffo_pancake_min_topup :: "jsnum option"

definition isStripePayment :: "jsstr \<Rightarrow> bool" where
  "isStripePayment paymentType \<longleftrightarrow> paymentType = PAYMENT_STRIPE"

definition isWaffoPancakePayment :: "jsstr \<Rightarrow> bool" where
  "isWaffoPancakePayment paymentType \<longleftrightarrow> paymentType = PAYMENT_WAFFO_PANCAKE"

definition getDefaultPaymentType :: "TopupInfo option \<Rightarrow> jsstr" where
  "getDefaultPaymentType topupInfo = (case topupInfo of None \<Rightarrow> DEFAULT_PAYMENT_TYPE
     | Some ti \<Rightarrow>
         if length (pay_methods ti) > 0 then pm_type (hd (pay_methods ti))
         else if enable_stripe_topup ti then PAYMENT_STRIPE
         else if enable_waffo_topup ti then PAYMENT_WAFFO
         else if enable_waffo_pancake_topup ti then PAYMENT_WAFFO_PANCAKE
         else DEFAULT_PAYMENT_TYPE)"

definition getMinTopupAmount :: "TopupInfo option \<Rightarrow> jsnum" where
  "getMinTopupAmount topupInfo = (case topupInfo of None \<Rightarrow> DEFAULT_MIN_TOPUP
     | Some ti \<Rightarrow>
         if enable_online_topup ti then min_topup ti
         else if enable_stripe_topup ti then stripe_min_topup ti
         else if enable_waffo_topup ti then opt_num_or (waffo_min_topup ti) DEFAULT_MIN_TOPUP
         else if enable_waffo_pancake_topup ti then opt_num_or (waffo_pancake_min_topup ti) DEFAULT_MIN_TOPUP
         else DEFAULT_MIN_TOPUP)"

definition generatePresetAmounts :: "jsnum \<Rightarrow> PresetAmount list" where
  "generatePresetAmounts minAmount =
     map (\<lambda>multiplier. \<lparr>pa_value = js_mul minAmount (num multiplier), pa_discount = None\<rparr>) DEFAULT_PRESET_MULTIPLIERS"

definition mergePresetAmounts :: "jsnum list \<Rightarrow> jsnum obj \<Rightarrow> PresetAmount list" where
  "mergePresetAmounts amountOptions discounts =
     (if length amountOptions = 0 then []
      else map (\<lambda>amount. \<lparr>pa_value = amount,
             pa_discount = Some (opt_num_or (obj_get (js_num_str amount) discounts) (num 1))\<rparr>) amountOptions)"

definition parseJsonArray :: "json option \<Rightarrow> json list" where
  "parseJsonArray data = (case data of
       Some (JArr vs) \<Rightarrow> vs
     | Some (JStr s) \<Rightarrow> (case json_parse s of Some (JArr vs) \<Rightarrow> vs | _ \<Rightarrow> [])
     | _ \<Rightarrow> [])"

definition is_object :: "json \<Rightarrow> bool" where
  \<comment> \<open>\<open>!!item && typeof item === 'object'\<close>, which arrays are as well\<close>
  "is_object v = (case v of JArr vs \<Rightarrow> True | JObj kvs \<Rightarrow> True | _ \<Rightarrow> False)"

definition text_or :: "json \<Rightarrow> jsstr \<Rightarrow> jsstr \<Rightarrow> jsstr" where
  "text_or item k d = (case js_prop (Some item) k of Some (JStr s) \<Rightarrow> s | _ \<Rightarrow> d)"

definition text_opt :: "json \<Rightarrow> jsstr \<Rightarrow> jsstr option" where
  "text_opt item k = (case js_prop (Some item) k of Some (JStr s) \<Rightarrow> Some s | _ \<Rightarrow> None)"

definition payment_method :: "jsnum \<Rightarrow> json \<Rightarrow> PaymentMethod" where
  "payment_method stripeMinTopup item =
     (let rawMinTopup = js_Number (js_prop (Some item) ''min_topup'');
          normalizedMinTopup = (if js_isFinite rawMinTopup then rawMinTopup else num 0);
          ty = text_or item ''type'' '''' in
      \<lparr>pm_name = text_or item ''name'' '''', pm_type = ty, pm_color = text_opt item ''color'',
       pm_min_topup = Some (if ty = ''stripe'' \<and> js_le normalizedMinTopup (num 0) then stripeMinTopup else normalizedMinTopup)\<rparr>)"

definition parsePaymentMethods :: "json option \<Rightarrow> jsnum \<Rightarrow> PaymentMethod list" where
  "parsePaymentMethods data stripeMinTopup =
     filter (\<lambda>m. pm_name m \<noteq> [] \<and> pm_type m \<noteq> [] \<and> pm_type m \<noteq> ''waffo'')
       (map (payment_method stripeMinTopup) (filter is_object (parseJsonArray data)))"

definition parseWaffoPayMethods :: "json option \<Rightarrow> WaffoPayMethod list" where
  "parseWaffoPayMethods data =
     filter (\<lambda>m. wm_name m \<noteq> [])
       (map (\<lambda>item. \<lparr>wm_name = text_or item ''name'' '''', wm_icon = text_opt item ''icon'',
              wm_payMethodType = text_opt item ''payMethodType'', wm_payMethodName = text_opt item ''payMethodName''\<rparr>)
         (filter is_object (parseJsonArray data)))"

definition parseCreemProducts :: "json option \<Rightarrow> CreemProduct list" where
  "parseCreemProducts data =
     filter (\<lambda>p. cp_name p \<noteq> [] \<and> cp_productId p \<noteq> [])
       (map (\<lambda>item. \<lparr>cp_name = text_or item ''name'' '''', cp_productId = text_or item ''productId'' '''',
              cp_price = num_or (js_Number (js_prop (Some item) ''price'')) (num 0),
              cp_quota = num_or (js_Number (js_prop (Some item) ''quota'')) (num 0),
              cp_currency = (if js_prop (Some item) ''currency'' = Some (JStr ''EUR'') then ''EUR'' else ''USD'')\<rparr>)
         (filter is_object (parseJsonArray data)))"

definition parseAmountOptions :: "json option \<Rightarrow> jsnum list" where
  "parseAmountOptions data =
     filter (\<lambda>x. js_isFinite x \<and> js_gt x (num 0)) (map (\<lambda>item. js_Number (Some item)) (parseJsonArray data))"

definition discount_step :: "jsstr \<times> json \<Rightarrow> jsnum obj \<Rightarrow> jsnum obj" where
  "discount_step = (\<lambda>(k, v) result.
     (let numericKey = js_Number_str k; numericValue = js_Number (Some v) in
      if js_isFinite numericKey \<and> js_isFinite numericValue then obj_set (js_num_str numericKey) numericValue result
      else result))"

definition parseDiscountMap :: "json option \<Rightarrow> jsnum obj" where
  "parseDiscountMap data =
     (if \<not> js_truthy data then []
      else (let parsedData = (case data of Some (JStr s) \<Rightarrow> json_parse s | _ \<Rightarrow> data) in
            case as_object parsedData of None \<Rightarrow> [] | Some kvs \<Rightarrow> fold discount_step kvs []))"

text \<open>The answer of \<open>getTopupInfo\<close>: the flags and limits are used as they come, the rest is read by the parsers.\<close>

record TopupAnswer =
  ta_info :: TopupInfo
  ta_pay_methods :: "json option"
  ta_amount_options :: "json option"
  ta_discount :: "json option"
  ta_creem_products :: "json option"
  ta_waffo_pay_methods :: "json option"

definition processTopupInfo :: "TopupAnswer \<Rightarrow> TopupInfo" where
  "processTopupInfo a = (ta_info a)\<lparr>
     pay_methods := parsePaymentMethods (ta_pay_methods a) (stripe_min_topup (ta_info a)),
     amount_options := parseAmountOptions (ta_amount_options a),
     discount := parseDiscountMap (ta_discount a),
     creem_products := parseCreemProducts (ta_creem_products a),
     waffo_pay_methods := parseWaffoPayMethods (ta_waffo_pay_methods a)\<rparr>"

definition presetsOf :: "TopupInfo \<Rightarrow> PresetAmount list" where
  "presetsOf processedData =
     (if length (amount_options processedData) > 0
      then mergePresetAmounts (amount_options processedData) (discount processedData)
      else generatePresetAmounts (getMinTopupAmount (Some processedData)))"

subsection \<open>Payments\<close>

record WalletResponse =
  wr_success :: bool
  wr_message :: "jsstr option"
  wr_data :: "json option"
  wr_url :: "jsstr option"

datatype wallet_effect =
  RequestPayment jsnum jsstr
| RequestStripe jsnum
| RequestPancake jsnum
| RequestWaffo jsnum nat
| RequestCreem jsstr
| RequestRedeem jsstr
| RequestTransfer jsnum
| RequestComplete jsstr
| OpenWindow jsstr
| SubmitForm jsstr "(jsstr \<times> jsstr) list" bool
| Notice bool jsstr
| FetchUser

definition isApiSuccess :: "WalletResponse \<Rightarrow> bool" where
  "isApiSuccess r \<longleftrightarrow> wr_success r \<or> wr_message r = Some ''success''"

definition isSafariBrowser :: "jsstr \<Rightarrow> bool" where
  \<comment> \<open>\<open>indexOf('Chrome') < 1\<close>: absent, or at the very start\<close>
  "isSafariBrowser userAgent \<longleftrightarrow> js_includes userAgent ''Safari'' \<and>
     (case js_indexOf userAgent ''Chrome'' 0 of None \<Rightarrow> True | Some i \<Rightarrow> i < 1)"

definition submitPaymentForm :: "jsstr \<Rightarrow> jsstr \<Rightarrow> json obj \<Rightarrow> wallet_effect" where
  "submitPaymentForm userAgent url params =
     SubmitForm url (map (\<lambda>(k, v). (k, js_String v)) params) (\<not> isSafariBrowser userAgent)"

definition own_entries :: "json \<Rightarrow> json obj" where
  \<comment> \<open>\<open>Object.entries\<close> of the data, which the types say is an object\<close>
  "own_entries v = (case v of JObj kvs \<Rightarrow> kvs | _ \<Rightarrow> [])"

definition processPayment ::
  "tfun \<Rightarrow> jsstr \<Rightarrow> jsnum \<Rightarrow> jsstr \<Rightarrow> WalletResponse option \<Rightarrow> wallet_effect list \<times> bool" where
  "processPayment t userAgent topupAmount paymentType response =
     (let isStripe = isStripePayment paymentType; amount = js_floor topupAmount;
          req = (if isStripe then RequestStripe amount else RequestPayment amount paymentType) in
      case response of
        None \<Rightarrow> ([req, Notice False (t ''Payment request failed'' None)], False)
      | Some r \<Rightarrow>
          if \<not> isApiSuccess r then ([req, Notice False (opt_str_or (wr_message r) (t ''Payment request failed'' None))], False)
          else (case (isStripe, js_prop (wr_data r) ''pay_link'', wr_data r, wr_url r) of
              (True, Some link, _, _) \<Rightarrow>
                if js_truthy (Some link)
                then ([req, OpenWindow (js_String link), Notice True (t ''Redirecting to payment page...'' None)], True)
                else ([req], False)
            | (False, _, Some data, Some url) \<Rightarrow>
                if js_truthy (Some data) \<and> url \<noteq> []
                then ([req, submitPaymentForm userAgent url (own_entries data), Notice True (t ''Redirecting to payment page...'' None)], True)
                else ([req], False)
            | _ \<Rightarrow> ([req], False)))"

definition url_of :: "jsstr \<Rightarrow> json option \<Rightarrow> jsstr option" where
  \<comment> \<open>\<open>getPaymentUrl\<close> and \<open>getCheckoutUrl\<close>, which differ in the property they read\<close>
  "url_of k data = (case js_prop data k of Some (JStr s) \<Rightarrow> Some s | _ \<Rightarrow> None)"

definition wallet_getErrorMessage :: "tfun \<Rightarrow> jsstr option \<Rightarrow> json option \<Rightarrow> jsstr" where
  "wallet_getErrorMessage t message data = (case data of
       Some (JStr s) \<Rightarrow> if js_trim s \<noteq> [] then s else opt_str_or message (t ''Payment request failed'' None)
     | _ \<Rightarrow> opt_str_or message (t ''Payment request failed'' None))"

definition processWaffoPayment :: "tfun \<Rightarrow> jsnum \<Rightarrow> nat \<Rightarrow> WalletResponse option \<Rightarrow> wallet_effect list \<times> bool" where
  "processWaffoPayment t topupAmount index response =
     (let req = RequestWaffo (js_floor topupAmount) index in
      case response of
        None \<Rightarrow> ([req, Notice False (t ''Payment request failed'' None)], False)
      | Some r \<Rightarrow>
          (case (isApiSuccess r, url_of ''payment_url'' (wr_data r)) of
             (True, Some (c # cs)) \<Rightarrow> ([req, OpenWindow (c # cs), Notice True (t ''Redirecting to payment page...'' None)], True)
           | _ \<Rightarrow> ([req, Notice False (wallet_getErrorMessage t (wr_message r) (wr_data r))], False)))"

definition isSafeHttpCheckoutUrl :: "(jsstr \<Rightarrow> jsstr option) \<Rightarrow> jsstr \<Rightarrow> bool" where
  "isSafeHttpCheckoutUrl protocol value =
     (let tv = js_trim value in
      if tv = [] then False else protocol tv = Some ''http:'' \<or> protocol tv = Some ''https:'')"

definition processWaffoPancakePayment ::
  "(jsstr \<Rightarrow> jsstr option) \<Rightarrow> tfun \<Rightarrow> jsnum \<Rightarrow> WalletResponse option \<Rightarrow> wallet_effect list \<times> bool" where
  "processWaffoPancakePayment protocol t topupAmount response =
     (let req = RequestPancake (js_floor topupAmount) in
      case response of
        None \<Rightarrow> ([req, Notice False (t ''Payment request failed'' None)], False)
      | Some r \<Rightarrow>
          (case (isApiSuccess r, url_of ''checkout_url'' (wr_data r)) of
             (True, Some (c # cs)) \<Rightarrow>
               if \<not> isSafeHttpCheckoutUrl protocol (c # cs) then ([req, Notice False (t ''Invalid payment redirect URL'' None)], False)
               else ([req, OpenWindow (c # cs), Notice True (t ''Redirecting to payment page...'' None)], True)
           | _ \<Rightarrow> ([req, Notice False (wallet_getErrorMessage t (wr_message r) (wr_data r))], False)))"

definition processCreemPayment :: "tfun \<Rightarrow> jsstr \<Rightarrow> WalletResponse option \<Rightarrow> wallet_effect list \<times> bool" where
  "processCreemPayment t productId response =
     (let req = RequestCreem productId in
      case response of
        None \<Rightarrow> ([req, Notice False (t ''Payment request failed'' None)], False)
      | Some r \<Rightarrow>
          (case js_prop (wr_data r) ''checkout_url'' of
             Some link \<Rightarrow> if isApiSuccess r \<and> js_truthy (Some link)
               then ([req, OpenWindow (js_String link), Notice True (t ''Redirecting to Creem checkout...'' None)], True)
               else ([req, Notice False (opt_str_or (wr_message r) (t ''Payment request failed'' None))], False)
           | None \<Rightarrow> ([req, Notice False (opt_str_or (wr_message r) (t ''Payment request failed'' None))], False)))"

definition redeemCode ::
  "Intl \<Rightarrow> SystemConfigState \<Rightarrow> (jsstr \<Rightarrow> jsstr \<Rightarrow> jsstr) \<Rightarrow> jsstr \<Rightarrow> WalletResponse option \<Rightarrow> wallet_effect list \<times> bool" where
  \<comment> \<open>\<open>t key quota\<close> interpolates the quota\<close>
  "redeemCode intl st t code response =
     (if code = [] \<or> js_trim code = [] then ([Notice False (t ''Please enter a redemption code'' [])], False)
      else (let req = RequestRedeem code in
        case response of
          None \<Rightarrow> ([req, Notice False (t ''Redemption failed'' [])], False)
        | Some r \<Rightarrow>
            if wr_success r \<and> js_truthy (wr_data r)
            then ([req, Notice True (t ''Redemption successful! Added: {{quota}}'' (formatQuota intl st (js_Number (wr_data r)))), FetchUser], True)
            else ([req, Notice False (opt_str_or (wr_message r) (t ''Redemption failed'' []))], False)))"

text \<open>The affiliate rewards: the link of the code, and the transfer of rewards to the balance.\<close>

record Affiliate =
  af_code :: jsstr
  af_link :: jsstr

definition fetchAffiliateCode :: "jsstr option \<Rightarrow> WalletResponse option \<Rightarrow> Affiliate \<Rightarrow> Affiliate" where
  "fetchAffiliateCode origin response a = (case response of
       Some r \<Rightarrow> (case (wr_success r, wr_data r) of
           (True, Some (JStr (c # cs))) \<Rightarrow> a\<lparr>af_code := c # cs, af_link := generateAffiliateLink origin (c # cs)\<rparr>
         | _ \<Rightarrow> a)
     | None \<Rightarrow> a)"

definition transferQuota :: "tfun \<Rightarrow> jsnum \<Rightarrow> WalletResponse option \<Rightarrow> wallet_effect list \<times> bool" where
  "transferQuota t quota response =
     (let req = RequestTransfer quota in
      case response of
        None \<Rightarrow> ([req, Notice False (t ''Transfer failed'' None)], False)
      | Some r \<Rightarrow>
          if wr_success r then ([req, Notice True (opt_str_or (wr_message r) (t ''Transfer successful'' None)), FetchUser], True)
          else ([req, Notice False (opt_str_or (wr_message r) (t ''Transfer failed'' None))], False))"

definition handleTransfer :: "tfun \<Rightarrow> jsnum \<Rightarrow> WalletResponse option \<Rightarrow> wallet_effect list \<times> bool" where
  "handleTransfer t amount response =
     (let (effects, success) = transferQuota t amount response in
      if success then (effects @ [FetchUser], success) else (effects, success))"

subsection \<open>The page\<close>

record PendingQuote =
  pq_amount :: jsnum
  pq_type :: jsstr
  pq_opens :: bool

record WalletPage =
  w_topupInfo :: "TopupInfo option"
  w_presetAmounts :: "PresetAmount list"
  w_topupAmount :: jsnum
  w_selectedPreset :: "jsnum option"
  w_selectedPaymentMethod :: "PaymentMethod option"
  w_paymentLoading :: "jsstr option"
  w_confirmDialogOpen :: bool
  w_redemptionCode :: jsstr
  w_creemDialogOpen :: bool
  w_selectedCreemProduct :: "CreemProduct option"
  w_paymentAmount :: jsnum
  w_calculating :: bool
  w_pending :: "PendingQuote list"

definition initial_wallet :: WalletPage where
  "initial_wallet = \<lparr>w_topupInfo = None, w_presetAmounts = [], w_topupAmount = num 0, w_selectedPreset = None,
     w_selectedPaymentMethod = None, w_paymentLoading = None, w_confirmDialogOpen = False, w_redemptionCode = '''',
     w_creemDialogOpen = False, w_selectedCreemProduct = None, w_paymentAmount = num 0, w_calculating = False, w_pending = []\<rparr>"

text \<open>Asking for a quote, and its answer. \<open>opens\<close> says that the confirmation follows.\<close>

definition calculatePaymentAmount :: "jsnum \<Rightarrow> jsstr \<Rightarrow> bool \<Rightarrow> WalletPage \<Rightarrow> WalletPage" where
  "calculatePaymentAmount topupAmount paymentType opens p =
     p\<lparr>w_calculating := True,
       w_pending := w_pending p @ [\<lparr>pq_amount = topupAmount, pq_type = paymentType, pq_opens = opens\<rparr>]\<rparr>"

datatype quote_endpoint = StripeQuote | PancakeQuote | PlainQuote

definition endpoint_of :: "jsstr \<Rightarrow> quote_endpoint" where
  "endpoint_of paymentType = (if isStripePayment paymentType then StripeQuote
     else if isWaffoPancakePayment paymentType then PancakeQuote else PlainQuote)"

definition quoted_amount :: "WalletResponse option \<Rightarrow> jsnum" where
  "quoted_amount response = (case response of None \<Rightarrow> num 0
     | Some r \<Rightarrow> if isApiSuccess r \<and> js_truthy (wr_data r) then js_parseFloat (js_String (the (wr_data r))) else num 0)"

type_synonym quote_server = "quote_endpoint \<Rightarrow> jsnum \<Rightarrow> WalletResponse option"

definition quote :: "quote_server \<Rightarrow> jsstr \<Rightarrow> jsnum \<Rightarrow> jsnum" where
  "quote server paymentType amount = quoted_amount (server (endpoint_of paymentType) amount)"

definition quote_answered :: "quote_server \<Rightarrow> nat \<Rightarrow> WalletPage \<Rightarrow> WalletPage" where
  "quote_answered server i p =
     (if i < length (w_pending p) then
        (let q = w_pending p ! i;
             p1 = p\<lparr>w_paymentAmount := quote server (pq_type q) (pq_amount q), w_calculating := False,
                    w_pending := take i (w_pending p) @ drop (Suc i) (w_pending p)\<rparr> in
         if pq_opens q then p1\<lparr>w_confirmDialogOpen := True, w_paymentLoading := None\<rparr> else p1)
      else p)"

definition getCurrentPaymentType :: "WalletPage \<Rightarrow> jsstr" where
  "getCurrentPaymentType p = (case w_selectedPaymentMethod p of
       Some m \<Rightarrow> if pm_type m = [] then getDefaultPaymentType (w_topupInfo p) else pm_type m
     | None \<Rightarrow> getDefaultPaymentType (w_topupInfo p))"

text \<open>The effect that sets the first amount; it runs when the configuration or the amount has changed.\<close>

definition init_amount :: "WalletPage \<Rightarrow> WalletPage" where
  "init_amount p =
     (if w_topupInfo p \<noteq> None \<and> js_eq (w_topupAmount p) (num 0) then
        (let minTopup = getMinTopupAmount (w_topupInfo p) in
         calculatePaymentAmount minTopup (getDefaultPaymentType (w_topupInfo p)) False (p\<lparr>w_topupAmount := minTopup\<rparr>))
      else p)"

definition with_effect :: "WalletPage \<Rightarrow> WalletPage \<Rightarrow> WalletPage" where
  "with_effect old p = (if w_topupInfo p = w_topupInfo old \<and> w_topupAmount p = w_topupAmount old then p else init_amount p)"

definition topupInfo_loaded :: "TopupAnswer \<Rightarrow> WalletPage \<Rightarrow> WalletPage" where
  "topupInfo_loaded a p = (let processedData = processTopupInfo a in
     p\<lparr>w_topupInfo := Some processedData, w_presetAmounts := presetsOf processedData\<rparr>)"

definition handleSelectPreset :: "PresetAmount \<Rightarrow> WalletPage \<Rightarrow> WalletPage" where
  "handleSelectPreset preset p =
     calculatePaymentAmount (pa_value preset) (getCurrentPaymentType p) False
       (p\<lparr>w_topupAmount := pa_value preset, w_selectedPreset := Some (pa_value preset)\<rparr>)"

definition handleTopupAmountChange :: "jsnum \<Rightarrow> WalletPage \<Rightarrow> WalletPage" where
  "handleTopupAmountChange amount p =
     calculatePaymentAmount amount (getCurrentPaymentType p) False (p\<lparr>w_topupAmount := amount, w_selectedPreset := None\<rparr>)"

definition handlePaymentMethodSelect :: "PaymentMethod \<Rightarrow> WalletPage \<Rightarrow> WalletPage" where
  "handlePaymentMethodSelect m p =
     (let p1 = p\<lparr>w_selectedPaymentMethod := Some m, w_paymentLoading := Some (pm_type m)\<rparr>;
          minTopup = getMinTopupAmount (w_topupInfo p) in
      if js_lt (w_topupAmount p) minTopup then p1\<lparr>w_paymentLoading := None\<rparr>
      else calculatePaymentAmount (w_topupAmount p) (pm_type m) True p1)"

definition handlePaymentConfirm ::
  "(jsstr \<Rightarrow> jsstr option) \<Rightarrow> tfun \<Rightarrow> jsstr \<Rightarrow> WalletResponse option \<Rightarrow> WalletPage \<Rightarrow> WalletPage \<times> wallet_effect list" where
  "handlePaymentConfirm protocol t userAgent response p = (case w_selectedPaymentMethod p of
       None \<Rightarrow> (p, [])
     | Some m \<Rightarrow>
         (let (effects, success) = (if isWaffoPancakePayment (pm_type m)
                then processWaffoPancakePayment protocol t (w_topupAmount p) response
                else processPayment t userAgent (w_topupAmount p) (pm_type m) response) in
          if success then (p\<lparr>w_confirmDialogOpen := False\<rparr>, effects @ [FetchUser]) else (p, effects)))"

definition handleRedeem ::
  "Intl \<Rightarrow> SystemConfigState \<Rightarrow> (jsstr \<Rightarrow> jsstr \<Rightarrow> jsstr) \<Rightarrow> WalletResponse option \<Rightarrow> WalletPage \<Rightarrow> WalletPage \<times> wallet_effect list" where
  "handleRedeem intl st t response p =
     (if w_redemptionCode p = [] then (p, [])
      else (let (effects, success) = redeemCode intl st t (w_redemptionCode p) response in
            if success then (p\<lparr>w_redemptionCode := ''''\<rparr>, effects @ [FetchUser]) else (p, effects)))"

definition handleCreemProductSelect :: "CreemProduct \<Rightarrow> WalletPage \<Rightarrow> WalletPage" where
  "handleCreemProductSelect product p = p\<lparr>w_selectedCreemProduct := Some product, w_creemDialogOpen := True\<rparr>"

definition handleCreemConfirm :: "tfun \<Rightarrow> WalletResponse option \<Rightarrow> WalletPage \<Rightarrow> WalletPage \<times> wallet_effect list" where
  "handleCreemConfirm t response p = (case w_selectedCreemProduct p of
       None \<Rightarrow> (p, [])
     | Some product \<Rightarrow>
         (let (effects, success) = processCreemPayment t (cp_productId product) response in
          if success then (p\<lparr>w_creemDialogOpen := False, w_selectedCreemProduct := None\<rparr>, effects @ [FetchUser])
          else (p, effects)))"

definition handleWaffoMethodSelect :: "tfun \<Rightarrow> nat \<Rightarrow> WalletResponse option \<Rightarrow> WalletPage \<Rightarrow> WalletPage \<times> wallet_effect list" where
  \<comment> \<open>with its answer, after which the loading mark is removed\<close>
  "handleWaffoMethodSelect t index response p =
     (p\<lparr>w_paymentLoading := None\<rparr>, fst (processWaffoPayment t (w_topupAmount p) index response))"

definition getDiscountRate :: "WalletPage \<Rightarrow> jsnum" where
  "getDiscountRate p = (case w_topupInfo p of
       Some ti \<Rightarrow> opt_num_or (obj_get (js_num_str (w_topupAmount p)) (discount ti)) DEFAULT_DISCOUNT_RATE
     | None \<Rightarrow> DEFAULT_DISCOUNT_RATE)"

text \<open>The amount field of the card: \<open>parseInt\<close> reads the digits (or hexadecimal digits after \<open>0x\<close>) at the start.\<close>

definition js_parseInt :: "jsstr \<Rightarrow> jsnum" where
  "js_parseInt s =
     (let (neg, s1) = float_sign (dropWhile js_ws s);
          (ds, radix) = (if js_startsWith s1 ''0x'' \<or> js_startsWith s1 ''0X''
             then (takeWhile (\<lambda>c. hex_val c \<noteq> None) (drop 2 s1), 16) else (takeWhile is_digit s1, 10)) in
      if ds = [] then NaN else (if neg then js_neg (radix_num radix ds) else radix_num radix ds))"

definition handleAmountChange :: "jsstr \<Rightarrow> WalletPage \<Rightarrow> WalletPage" where
  "handleAmountChange value p =
     (let numValue = num_or (js_parseInt value) (num 0) in
      if js_ge numValue (num 0) then handleTopupAmountChange numValue p else p)"

definition method_disabled :: "WalletPage \<Rightarrow> PaymentMethod \<Rightarrow> bool" where
  "method_disabled p m \<longleftrightarrow> js_gt (opt_num_or (pm_min_topup m) (num 0)) (w_topupAmount p) \<or>
     (case w_paymentLoading p of Some s \<Rightarrow> s \<noteq> [] | None \<Rightarrow> False)"

subsection \<open>Runs of the page\<close>

record WalletEnv =
  we_server :: quote_server
  we_protocol :: "jsstr \<Rightarrow> jsstr option"
  we_t :: tfun
  we_userAgent :: jsstr

datatype wallet_action =
  LoadInfo TopupAnswer
| ChoosePreset PresetAmount
| TypeAmount jsstr
| ChooseMethod PaymentMethod
| CloseConfirm
| ConfirmPayment "WalletResponse option"

fun wallet_step :: "WalletEnv \<Rightarrow> wallet_action \<Rightarrow> WalletPage \<Rightarrow> WalletPage" where
  "wallet_step env (LoadInfo a) p = with_effect p (topupInfo_loaded a p)"
| "wallet_step env (ChoosePreset preset) p = with_effect p (handleSelectPreset preset p)"
| "wallet_step env (TypeAmount value) p = with_effect p (handleAmountChange value p)"
| "wallet_step env (ChooseMethod m) p = handlePaymentMethodSelect m p"
| "wallet_step env CloseConfirm p = p\<lparr>w_confirmDialogOpen := False\<rparr>"
| "wallet_step env (ConfirmPayment response) p =
     fst (handlePaymentConfirm (we_protocol env) (we_t env) (we_userAgent env) response p)"

text \<open>What the page lets the user do: the configuration loads once, the card takes input while no confirmation covers it,
  and a method can be chosen when its button is enabled.\<close>

fun allowed :: "wallet_action \<Rightarrow> WalletPage \<Rightarrow> bool" where
  "allowed (LoadInfo a) p = (w_topupInfo p = None)"
| "allowed (ChoosePreset preset) p = (\<not> w_confirmDialogOpen p)"
| "allowed (TypeAmount value) p = (\<not> w_confirmDialogOpen p)"
| "allowed (ChooseMethod m) p = (\<not> w_confirmDialogOpen p \<and> \<not> method_disabled p m \<and>
     (case w_topupInfo p of Some ti \<Rightarrow> m \<in> set (pay_methods ti) | None \<Rightarrow> False))"
| "allowed CloseConfirm p = w_confirmDialogOpen p"
| "allowed (ConfirmPayment response) p = w_confirmDialogOpen p"

inductive wallet_run :: "WalletEnv \<Rightarrow> WalletPage \<Rightarrow> bool" for env where
  start: "wallet_run env initial_wallet"
| act: "wallet_run env p \<Longrightarrow> allowed a p \<Longrightarrow> wallet_run env (wallet_step env a p)"
| answer: "wallet_run env p \<Longrightarrow> wallet_run env (quote_answered (we_server env) i p)"

text \<open>A run is orderly when the quotes of an action are answered, in turn, before the next one.\<close>

definition answer_all :: "quote_server \<Rightarrow> WalletPage \<Rightarrow> WalletPage" where
  "answer_all server p = (quote_answered server 0 ^^ length (w_pending p)) p"

inductive orderly :: "WalletEnv \<Rightarrow> WalletPage \<Rightarrow> bool" for env where
  start: "orderly env initial_wallet"
| act: "orderly env p \<Longrightarrow> allowed a p \<Longrightarrow> orderly env (answer_all (we_server env) (wallet_step env a p))"

lemma orderly_is_run: "orderly env p \<Longrightarrow> wallet_run env p"
proof (induction rule: orderly.induct)
  case (act p a)
  have "wallet_run env q \<Longrightarrow> wallet_run env ((quote_answered (we_server env) 0 ^^ n) q)" for q n
    by (induction n) (auto intro: wallet_run.answer)
  then show ?case using act.IH act.hyps by (simp add: answer_all_def wallet_run.act)
qed (rule wallet_run.start)

definition payment_request :: "jsstr \<Rightarrow> jsnum \<Rightarrow> wallet_effect" where
  "payment_request ty amount = (if isWaffoPancakePayment ty then RequestPancake (js_floor amount)
     else if isStripePayment ty then RequestStripe (js_floor amount) else RequestPayment (js_floor amount) ty)"

definition confirms_quote :: "quote_server \<Rightarrow> WalletPage \<Rightarrow> bool" where
  "confirms_quote server p \<longleftrightarrow> (case w_selectedPaymentMethod p of None \<Rightarrow> False | Some m \<Rightarrow>
     w_paymentAmount p = quote server (pm_type m) (w_topupAmount p) \<and>
     \<not> js_lt (w_topupAmount p) (getMinTopupAmount (w_topupInfo p)) \<and>
     \<not> js_lt (w_topupAmount p) (opt_num_or (pm_min_topup m) (num 0)))"

definition settled :: "quote_server \<Rightarrow> WalletPage \<Rightarrow> bool" where
  "settled server p \<longleftrightarrow> w_pending p = [] \<and>
     (w_confirmDialogOpen p \<longrightarrow> w_topupInfo p \<noteq> None \<and> confirms_quote server p)"

lemma answers_keep_closed:
  assumes "\<not> w_confirmDialogOpen p" and "list_all (\<lambda>q. \<not> pq_opens q) (w_pending p)"
  shows "settled server (answer_all server p)"
  unfolding answer_all_def using assms
proof (induction "length (w_pending p)" arbitrary: p)
  case 0
  then show ?case by (simp add: settled_def)
next
  case (Suc n)
  let ?p = "quote_answered server 0 p"
  obtain q qs where q: "w_pending p = q # qs" using Suc.hyps(2) by (cases "w_pending p") auto
  then have p: "w_pending ?p = qs" "\<not> w_confirmDialogOpen ?p"
    using Suc.prems by (simp_all add: quote_answered_def)
  have "settled server ((quote_answered server 0 ^^ length (w_pending ?p)) ?p)"
    by (rule Suc.hyps(1)) (use p q Suc in auto)
  then show ?case using q p(1) by (simp add: funpow_swap1)
qed

lemma effect_keeps_closed:
  assumes "\<not> w_confirmDialogOpen p" and "list_all (\<lambda>q. \<not> pq_opens q) (w_pending p)"
  shows "\<not> w_confirmDialogOpen (with_effect old p) \<and> list_all (\<lambda>q. \<not> pq_opens q) (w_pending (with_effect old p))"
  using assms by (simp add: with_effect_def init_amount_def calculatePaymentAmount_def Let_def)

lemma settled_step:
  assumes "settled server p" and "allowed a p"
  shows "settled server (answer_all server (wallet_step env a p))"
proof (cases a)
  case (ChooseMethod m)
  then show ?thesis using assms
    by (auto simp: settled_def handlePaymentMethodSelect_def calculatePaymentAmount_def answer_all_def
        quote_answered_def confirms_quote_def method_disabled_def Let_def split: option.splits)
next
  case CloseConfirm
  then show ?thesis using assms by (simp add: settled_def answer_all_def)
next
  case (ConfirmPayment r)
  then show ?thesis using assms
    by (auto simp: settled_def answer_all_def handlePaymentConfirm_def confirms_quote_def split: option.splits prod.splits)
next
  case (LoadInfo x)
  then have "\<not> w_confirmDialogOpen p" using assms by (auto simp: settled_def)
  then show ?thesis using assms LoadInfo
    by (simp, intro answers_keep_closed conjunct1 [OF effect_keeps_closed] conjunct2 [OF effect_keeps_closed])
      (simp_all add: settled_def topupInfo_loaded_def Let_def)
next
  case (ChoosePreset x)
  then show ?thesis using assms
    by (simp, intro answers_keep_closed conjunct1 [OF effect_keeps_closed] conjunct2 [OF effect_keeps_closed])
      (simp_all add: settled_def handleSelectPreset_def calculatePaymentAmount_def)
next
  case (TypeAmount x)
  then show ?thesis using assms
    by (simp, intro answers_keep_closed conjunct1 [OF effect_keeps_closed] conjunct2 [OF effect_keeps_closed])
      (simp_all add: settled_def handleAmountChange_def handleTopupAmountChange_def calculatePaymentAmount_def Let_def)
qed

lemma orderly_settled: "orderly env p \<Longrightarrow> settled (we_server env) p"
proof (induction rule: orderly.induct)
  case start
  show ?case by (simp add: settled_def initial_wallet_def)
next
  case (act p a)
  then show ?case by (rule_tac settled_step)
qed

subsection \<open>What is charged\<close>

lemma confirm_sends:
  "w_selectedPaymentMethod p = Some m \<Longrightarrow>
   \<exists>rest. snd (handlePaymentConfirm protocol t ua r p) = payment_request (pm_type m) (w_topupAmount p) # rest"
  by (auto simp: handlePaymentConfirm_def processWaffoPancakePayment_def processPayment_def payment_request_def
      isWaffoPancakePayment_def isStripePayment_def PAYMENT_STRIPE_def PAYMENT_WAFFO_PANCAKE_def Let_def
      split: option.splits list.splits if_splits bool.splits)

definition requested :: "wallet_effect \<Rightarrow> jsnum option" where
  \<comment> \<open>the amount of a payment request\<close>
  "requested e = (case e of RequestPancake a \<Rightarrow> Some a | RequestStripe a \<Rightarrow> Some a | RequestPayment a ty \<Rightarrow> Some a | _ \<Rightarrow> None)"

lemma requested_payment: "requested (payment_request ty a) = Some (js_floor a)"
  by (simp add: requested_def payment_request_def)

lemma floor_whole: "js_floor (num n) = num n"
  by (simp add: js_floor_def)

lemma floor_below: "x \<notin> \<int> \<Longrightarrow> js_lt (js_floor (Fin x)) (Fin x)"
  by (simp add: js_floor_def) (metis Ints_of_int of_int_floor_le order_le_less)

text \<open>C4. When every quote is answered before the next action, the open confirmation shows the quote of exactly the
  selected amount and method, and that amount is at least the minimum of the configuration and of the method. Confirming
  requests that method with the amount rounded down: for a whole number this is the quoted amount, for any other it is
  less than what was quoted.\<close>

theorem charged_as_quoted:
  assumes "orderly env p" and "w_confirmDialogOpen p"
  shows "\<exists>m. w_selectedPaymentMethod p = Some m \<and>
     w_paymentAmount p = quote (we_server env) (pm_type m) (w_topupAmount p) \<and>
     \<not> js_lt (w_topupAmount p) (getMinTopupAmount (w_topupInfo p)) \<and>
     \<not> js_lt (w_topupAmount p) (opt_num_or (pm_min_topup m) (num 0)) \<and>
     (\<exists>e rest. snd (handlePaymentConfirm (we_protocol env) (we_t env) (we_userAgent env) response p) = e # rest \<and>
        e = payment_request (pm_type m) (w_topupAmount p) \<and>
        (\<forall>n. w_topupAmount p = num n \<longrightarrow> requested e = Some (w_topupAmount p)) \<and>
        (\<forall>x. w_topupAmount p = Fin x \<and> x \<notin> \<int> \<longrightarrow> (\<exists>a. requested e = Some a \<and> js_lt a (w_topupAmount p))))"
proof -
  have "confirms_quote (we_server env) p" using orderly_settled [OF assms(1)] assms(2) by (simp add: settled_def)
  then obtain m where m: "w_selectedPaymentMethod p = Some m" "w_paymentAmount p = quote (we_server env) (pm_type m) (w_topupAmount p)"
    "\<not> js_lt (w_topupAmount p) (getMinTopupAmount (w_topupInfo p))" "\<not> js_lt (w_topupAmount p) (opt_num_or (pm_min_topup m) (num 0))"
    by (auto simp: confirms_quote_def split: option.splits)
  obtain rest where "snd (handlePaymentConfirm (we_protocol env) (we_t env) (we_userAgent env) response p) =
      payment_request (pm_type m) (w_topupAmount p) # rest" using confirm_sends [OF m(1)] by blast
  moreover have "\<forall>n. w_topupAmount p = num n \<longrightarrow> requested (payment_request (pm_type m) (w_topupAmount p)) = Some (w_topupAmount p)"
    unfolding requested_payment using floor_whole by metis
  moreover have "\<forall>x. w_topupAmount p = Fin x \<and> x \<notin> \<int> \<longrightarrow>
      (\<exists>a. requested (payment_request (pm_type m) (w_topupAmount p)) = Some a \<and> js_lt a (w_topupAmount p))"
    unfolding requested_payment using floor_below by auto
  ultimately show ?thesis using m by blast
qed

definition sample_method :: json where
  "sample_method = JObj [(''name'', JStr ''Alipay''), (''type'', JStr ''alipay''), (''min_topup'', JNum (num 1))]"

definition sample_info :: TopupInfo where
  "sample_info = \<lparr>enable_online_topup = True, enable_stripe_topup = False, pay_methods = [], min_topup = num 1,
     stripe_min_topup = num 1, amount_options = [], discount = [], creem_products = [], enable_waffo_topup = False,
     waffo_pay_methods = [], waffo_min_topup = None, enable_waffo_pancake_topup = False, waffo_pancake_min_topup = None\<rparr>"

definition sample_answer :: TopupAnswer where
  "sample_answer = \<lparr>ta_info = sample_info, ta_pay_methods = Some (JArr [sample_method]), ta_amount_options = None,
     ta_discount = None, ta_creem_products = None, ta_waffo_pay_methods = None\<rparr>"

definition alipay :: PaymentMethod where
  "alipay = \<lparr>pm_name = ''Alipay'', pm_type = ''alipay'', pm_color = None, pm_min_topup = Some (num 1)\<rparr>"

lemma sample_processed:
  "processTopupInfo sample_answer = sample_info\<lparr>pay_methods := [alipay]\<rparr>"
  by code_simp

definition loaded_wallet :: WalletPage where
  \<comment> \<open>the page with the sample configuration, the amount 1 and one quote under way\<close>
  "loaded_wallet = initial_wallet\<lparr>w_topupInfo := Some (sample_info\<lparr>pay_methods := [alipay]\<rparr>),
     w_presetAmounts := presetsOf (sample_info\<lparr>pay_methods := [alipay]\<rparr>), w_topupAmount := num 1, w_calculating := True,
     w_pending := [\<lparr>pq_amount = num 1, pq_type = ''alipay'', pq_opens = False\<rparr>]\<rparr>"

lemma load_sample: "wallet_step env (LoadInfo sample_answer) initial_wallet = loaded_wallet"
  by (simp add: loaded_wallet_def topupInfo_loaded_def sample_processed with_effect_def init_amount_def initial_wallet_def
      calculatePaymentAmount_def getMinTopupAmount_def getDefaultPaymentType_def sample_info_def alipay_def js_eq_def Let_def)

theorem charged_as_quoted_witness:
  "let server = (\<lambda>e a. Some \<lparr>wr_success = True, wr_message = None, wr_data = Some (JStr ''7.5''), wr_url = None\<rparr>);
       env = \<lparr>we_server = server, we_protocol = (\<lambda>u. None), we_t = (\<lambda>s c. s), we_userAgent = ''''\<rparr>;
       p = answer_all server (wallet_step env (ChooseMethod alipay) (answer_all server loaded_wallet)) in
   w_confirmDialogOpen p \<and> w_paymentAmount p = quote server ''alipay'' (num 1) \<and>
   (\<exists>rest. snd (handlePaymentConfirm (we_protocol env) (we_t env) (we_userAgent env) None p) = RequestPayment (num 1) ''alipay'' # rest)"
proof -
  let ?server = "\<lambda>(e::quote_endpoint) (a::jsnum). Some \<lparr>wr_success = True, wr_message = None, wr_data = Some (JStr ''7.5''), wr_url = None\<rparr>"
  let ?env = "\<lparr>we_server = ?server, we_protocol = (\<lambda>u. None), we_t = (\<lambda>s c. s), we_userAgent = ''''\<rparr>"
  let ?p1 = "answer_all ?server loaded_wallet"
  let ?p = "answer_all ?server (wallet_step ?env (ChooseMethod alipay) ?p1)"
  have p1: "w_topupInfo ?p1 = Some (sample_info\<lparr>pay_methods := [alipay]\<rparr>)" "w_topupAmount ?p1 = num 1"
    "w_paymentLoading ?p1 = None" "\<not> w_confirmDialogOpen ?p1" "w_pending ?p1 = []"
    by (simp_all add: answer_all_def loaded_wallet_def quote_answered_def initial_wallet_def)
  have "orderly ?env ?p1"
    using orderly.act [OF orderly.start, of "LoadInfo sample_answer" ?env] load_sample [of ?env]
    by (simp add: initial_wallet_def)
  moreover have "allowed (ChooseMethod alipay) ?p1"
    using p1 by (simp add: method_disabled_def alipay_def opt_num_or_def num_or_def js_truthy_num_def)
  ultimately have run: "orderly ?env ?p" using orderly.act [of ?env ?p1 "ChooseMethod alipay"] by simp
  have p: "w_confirmDialogOpen ?p" "w_selectedPaymentMethod ?p = Some alipay" "w_topupAmount ?p = num 1"
    using p1 by (simp_all add: answer_all_def handlePaymentMethodSelect_def calculatePaymentAmount_def quote_answered_def
        getMinTopupAmount_def sample_info_def)
  show ?thesis
    using charged_as_quoted [OF run p(1), of None] p
    by (simp add: alipay_def payment_request_def isWaffoPancakePayment_def isStripePayment_def PAYMENT_STRIPE_def
        PAYMENT_WAFFO_PANCAKE_def js_floor_def Let_def)
qed

text \<open>C5. Answers are not matched with what they answer: whatever the server quotes, there is a run in which the open
  confirmation, with no quote under way, shows the quote for 100 while confirming requests 200.\<close>

theorem late_quote_shown:
  "\<exists>p. wallet_run env p \<and> w_confirmDialogOpen p \<and> w_pending p = [] \<and> \<not> w_calculating p \<and>
     w_selectedPaymentMethod p = Some alipay \<and> w_paymentAmount p = quote (we_server env) ''alipay'' (num 100) \<and>
     (\<exists>rest. snd (handlePaymentConfirm (we_protocol env) (we_t env) (we_userAgent env) response p) =
        RequestPayment (num 200) ''alipay'' # rest)"
proof -
  let ?ans = "quote_answered (we_server env)"
  define p1 where "p1 = ?ans 0 loaded_wallet"
  define p2 where "p2 = wallet_step env (TypeAmount ''100'') p1"
  define p3 where "p3 = wallet_step env (TypeAmount ''200'') p2"
  define p4 where "p4 = wallet_step env (ChooseMethod alipay) p3"
  define p5 where "p5 = ?ans 0 (?ans 1 (?ans 1 p4))"
  have parse: "js_parseInt ''100'' = Fin 100" "js_parseInt ''200'' = Fin 200" by code_simp+
  note defs = loaded_wallet_def initial_wallet_def quote_answered_def
  have p1: "w_topupInfo p1 = Some (sample_info\<lparr>pay_methods := [alipay]\<rparr>)" "w_topupAmount p1 = num 1" "w_pending p1 = []"
    "w_paymentLoading p1 = None" "\<not> w_confirmDialogOpen p1" "w_selectedPaymentMethod p1 = None"
    by (simp_all add: p1_def defs)
  note steps = handleAmountChange_def handleTopupAmountChange_def calculatePaymentAmount_def with_effect_def init_amount_def
    parse num_or_def js_truthy_num_def js_le_def js_eq_def getCurrentPaymentType_def getDefaultPaymentType_def Let_def
  have p2: "w_topupInfo p2 = w_topupInfo p1" "w_topupAmount p2 = Fin 100"
    "w_pending p2 = [\<lparr>pq_amount = Fin 100, pq_type = ''alipay'', pq_opens = False\<rparr>]"
    "w_paymentLoading p2 = None" "\<not> w_confirmDialogOpen p2" "w_selectedPaymentMethod p2 = None"
    using p1 by (simp_all add: p2_def steps) (simp_all add: alipay_def)
  have p3: "w_topupInfo p3 = w_topupInfo p1" "w_topupAmount p3 = Fin 200"
    "w_pending p3 = w_pending p2 @ [\<lparr>pq_amount = Fin 200, pq_type = ''alipay'', pq_opens = False\<rparr>]"
    "w_paymentLoading p3 = None" "\<not> w_confirmDialogOpen p3"
    using p1 p2 by (simp_all add: p3_def steps) (simp_all add: alipay_def)
  have p4: "w_topupAmount p4 = Fin 200" "w_selectedPaymentMethod p4 = Some alipay" "\<not> w_confirmDialogOpen p4"
    "w_pending p4 = w_pending p3 @ [\<lparr>pq_amount = Fin 200, pq_type = ''alipay'', pq_opens = True\<rparr>]"
    using p1 p3 by (simp_all add: p4_def handlePaymentMethodSelect_def calculatePaymentAmount_def getMinTopupAmount_def
        sample_info_def Let_def) (simp_all add: alipay_def)
  have p5: "w_topupAmount p5 = num 200" "w_selectedPaymentMethod p5 = Some alipay" "w_confirmDialogOpen p5" "w_pending p5 = []"
    "\<not> w_calculating p5" "w_paymentAmount p5 = quote (we_server env) ''alipay'' (num 100)"
    using p2(3) p3(3) p4 by (simp_all add: p5_def quote_answered_def)
  have "wallet_run env p1"
    using wallet_run.answer [OF wallet_run.act [OF wallet_run.start, of "LoadInfo sample_answer"], of env 0]
    by (simp only: load_sample p1_def allowed.simps) (simp add: initial_wallet_def)
  then have "wallet_run env p3" unfolding p3_def p2_def
    using p1(5) p2(5) by (intro wallet_run.act) (simp_all add: p2_def)
  then have "wallet_run env p4" unfolding p4_def
    by (rule wallet_run.act) (use p1 p3 in \<open>simp add: method_disabled_def opt_num_or_def num_or_def js_truthy_num_def alipay_def\<close>)
  then have "wallet_run env p5" unfolding p5_def by (intro wallet_run.answer)
  moreover have "payment_request ''alipay'' (num 200) = RequestPayment (num 200) ''alipay''"
    by (simp add: payment_request_def isWaffoPancakePayment_def isStripePayment_def PAYMENT_STRIPE_def
        PAYMENT_WAFFO_PANCAKE_def js_floor_def)
  ultimately show ?thesis using p5 confirm_sends [OF p5(2), of "we_protocol env" "we_t env" "we_userAgent env" response]
    by (auto simp: alipay_def)
qed

subsection \<open>The configuration that is used\<close>

lemma discounts_finite: "list_all (\<lambda>(k, v). js_isFinite v) r \<Longrightarrow> list_all (\<lambda>(k, v). js_isFinite v) (fold discount_step kvs r)"
proof (induction kvs arbitrary: r)
  case (Cons kv kvs)
  have "list_all (\<lambda>(k, v). js_isFinite v) (obj_set k x r)" if "js_isFinite x" for k x
    using Cons.prems that
    by (auto simp: obj_set_def list_all_iff Let_def split: if_splits dest!: set_takeWhileD set_dropWhileD)
  then have "list_all (\<lambda>(k, v). js_isFinite v) (discount_step kv r)"
    using Cons.prems by (auto simp: discount_step_def Let_def split: prod.splits)
  then show ?case using Cons.IH by simp
qed simp

lemma preset_values:
  "map pa_value (presetsOf ti) = (if amount_options ti = []
     then map (\<lambda>k. js_mul (getMinTopupAmount (Some ti)) (num k)) DEFAULT_PRESET_MULTIPLIERS else amount_options ti)"
  by (simp add: presetsOf_def mergePresetAmounts_def generatePresetAmounts_def o_def)

text \<open>Whatever the server sends for the lists of the top-up configuration, the page uses only named payment methods
  with a type that is not the separate Waffo one, positive finite amounts, finite discounts, named products with an
  identifier, a price and a quota that are no NaN; and it always offers preset amounts.\<close>

theorem topup_info_clean:
  "let ti = processTopupInfo a in
   list_all (\<lambda>m. pm_name m \<noteq> [] \<and> pm_type m \<noteq> [] \<and> pm_type m \<noteq> PAYMENT_WAFFO) (pay_methods ti) \<and>
   list_all (\<lambda>x. js_isFinite x \<and> js_gt x (num 0)) (amount_options ti) \<and>
   list_all (\<lambda>(k, v). js_isFinite v) (discount ti) \<and>
   list_all (\<lambda>c. cp_name c \<noteq> [] \<and> cp_productId c \<noteq> [] \<and> cp_price c \<noteq> NaN \<and> cp_quota c \<noteq> NaN \<and>
     cp_currency c \<in> {''USD'', ''EUR''}) (creem_products ti) \<and>
   list_all (\<lambda>w. wm_name w \<noteq> []) (waffo_pay_methods ti) \<and>
   map pa_value (presetsOf ti) = (if amount_options ti = [] then map (\<lambda>k. js_mul (getMinTopupAmount (Some ti)) (num k)) DEFAULT_PRESET_MULTIPLIERS
     else amount_options ti)"
proof -
  have "list_all (\<lambda>(k, v). js_isFinite v) (parseDiscountMap d)" for d
    using discounts_finite [of "[]"] by (auto simp: parseDiscountMap_def Let_def split: option.splits)
  then show ?thesis
    unfolding Let_def preset_values
    by (auto simp: processTopupInfo_def parsePaymentMethods_def parseAmountOptions_def parseCreemProducts_def
        parseWaffoPayMethods_def list_all_iff PAYMENT_WAFFO_def)
qed

text \<open>The hosted checkout opens nothing but the address the server sent, and only if its protocol is http or
  https; every answer, a failure included, ends with a notice.\<close>

theorem pancake_opens_web_only:
  "let (effects, success) = processWaffoPancakePayment protocol t amount response in
   list_all (\<lambda>e. case e of OpenWindow u \<Rightarrow> protocol (js_trim u) \<in> {Some ''http:'', Some ''https:''} \<and>
       (case response of Some r \<Rightarrow> url_of ''checkout_url'' (wr_data r) = Some u | None \<Rightarrow> False)
     | RequestPancake a \<Rightarrow> a = js_floor amount | Notice b s \<Rightarrow> b = success | _ \<Rightarrow> False) effects \<and>
   (case last effects of Notice b s \<Rightarrow> True | _ \<Rightarrow> False)"
  by (auto simp: processWaffoPancakePayment_def isSafeHttpCheckoutUrl_def Let_def
      split: option.splits list.splits bool.splits if_splits)

subsection \<open>Orders\<close>

datatype billing_effect =
  GetUserBillingHistory jsnum jsnum jsstr
| GetAllBillingHistory jsnum jsnum jsstr
| CompleteOrder jsstr
| BillingNotice bool jsstr

record BillingHistory =
  bh_records :: "json list"
  bh_total :: jsnum
  bh_page :: jsnum
  bh_pageSize :: jsnum
  bh_keyword :: jsstr

record BillingAnswer =
  ba_success :: bool
  ba_message :: "jsstr option"
  ba_data :: "(json list option \<times> jsnum option) option"

definition fetchBillingHistory ::
  "tfun \<Rightarrow> bool \<Rightarrow> BillingAnswer option \<Rightarrow> BillingHistory \<Rightarrow> BillingHistory \<times> billing_effect list" where
  "fetchBillingHistory t isAdmin response h =
     (let req = (if isAdmin then GetAllBillingHistory else GetUserBillingHistory) (bh_page h) (bh_pageSize h) (bh_keyword h);
          failed = h\<lparr>bh_records := [], bh_total := num 0\<rparr> in
      case response of
        None \<Rightarrow> (failed, [req, BillingNotice False (t ''Failed to load billing history'' None)])
      | Some r \<Rightarrow>
          (case (ba_success r \<or> ba_message r = Some ''success'', ba_data r) of
             (True, Some (items, tot)) \<Rightarrow>
               (h\<lparr>bh_records := (case items of Some rs \<Rightarrow> rs | None \<Rightarrow> []), bh_total := opt_num_or tot (num 0)\<rparr>, [req])
           | _ \<Rightarrow> (failed, [req, BillingNotice False (opt_str_or (ba_message r) (t ''Failed to load billing history'' None))])))"

definition handlePageChange :: "jsnum \<Rightarrow> BillingHistory \<Rightarrow> BillingHistory" where
  "handlePageChange newPage h = h\<lparr>bh_page := newPage\<rparr>"

definition handlePageSizeChange :: "jsnum \<Rightarrow> BillingHistory \<Rightarrow> BillingHistory" where
  "handlePageSizeChange newPageSize h = h\<lparr>bh_pageSize := newPageSize, bh_page := num 1\<rparr>"

definition billing_handleSearch :: "jsstr \<Rightarrow> BillingHistory \<Rightarrow> BillingHistory" where
  "billing_handleSearch newKeyword h = h\<lparr>bh_keyword := newKeyword, bh_page := num 1\<rparr>"

definition handleCompleteOrder ::
  "tfun \<Rightarrow> bool \<Rightarrow> jsstr \<Rightarrow> WalletResponse option \<Rightarrow> BillingAnswer option \<Rightarrow> BillingHistory \<Rightarrow>
    (BillingHistory \<times> billing_effect list) \<times> bool" where
  "handleCompleteOrder t isAdmin tradeNo response reload h =
     (if \<not> isAdmin then ((h, [BillingNotice False (t ''Admin access required'' None)]), False)
      else (case response of
          None \<Rightarrow> ((h, [CompleteOrder tradeNo, BillingNotice False (t ''Failed to complete order'' None)]), False)
        | Some r \<Rightarrow>
            if isApiSuccess r then
              (let (h', es) = fetchBillingHistory t isAdmin reload h in
               ((h', [CompleteOrder tradeNo, BillingNotice True (t ''Order completed successfully'' None)] @ es), True))
            else ((h, [CompleteOrder tradeNo,
                BillingNotice False (opt_str_or (wr_message r) (t ''Failed to complete order'' None))]), False)))"

datatype billing_action =
  PageTo jsnum "BillingAnswer option"
| SizeTo jsnum "BillingAnswer option"
| SearchFor jsstr "BillingAnswer option"
| Complete jsstr "WalletResponse option" "BillingAnswer option"

text \<open>An action with the reload that the effect of the hook does when page, size or keyword have changed.\<close>

definition reload_if_changed ::
  "tfun \<Rightarrow> bool \<Rightarrow> BillingAnswer option \<Rightarrow> BillingHistory \<Rightarrow> BillingHistory \<Rightarrow> BillingHistory \<times> billing_effect list" where
  "reload_if_changed t isAdmin r old h =
     (if bh_page h = bh_page old \<and> bh_pageSize h = bh_pageSize old \<and> bh_keyword h = bh_keyword old then (h, [])
      else fetchBillingHistory t isAdmin r h)"

fun billing_step :: "tfun \<Rightarrow> bool \<Rightarrow> billing_action \<Rightarrow> BillingHistory \<times> billing_effect list \<Rightarrow> BillingHistory \<times> billing_effect list" where
  "billing_step t isAdmin (PageTo n r) (h, es) = (let (h', e) = reload_if_changed t isAdmin r h (handlePageChange n h) in (h', es @ e))"
| "billing_step t isAdmin (SizeTo n r) (h, es) = (let (h', e) = reload_if_changed t isAdmin r h (handlePageSizeChange n h) in (h', es @ e))"
| "billing_step t isAdmin (SearchFor k r) (h, es) = (let (h', e) = reload_if_changed t isAdmin r h (billing_handleSearch k h) in (h', es @ e))"
| "billing_step t isAdmin (Complete no r reload) (h, es) = (let ((h', e), ok) = handleCompleteOrder t isAdmin no r reload h in (h', es @ e))"

definition within_rights :: "bool \<Rightarrow> billing_effect \<Rightarrow> bool" where
  "within_rights isAdmin e = (case e of GetAllBillingHistory p s k \<Rightarrow> isAdmin | CompleteOrder no \<Rightarrow> isAdmin
     | GetUserBillingHistory p s k \<Rightarrow> \<not> isAdmin | BillingNotice b s \<Rightarrow> True)"

lemma fetch_within_rights: "list_all (within_rights isAdmin) (snd (fetchBillingHistory t isAdmin r h))"
  by (auto simp: fetchBillingHistory_def within_rights_def Let_def split: option.splits prod.splits bool.splits)

lemma billing_step_within:
  assumes "list_all (within_rights isAdmin) (snd s)"
  shows "list_all (within_rights isAdmin) (snd (billing_step t isAdmin a s))"
proof -
  obtain h es where s: "s = (h, es)" by (cases s)
  have "list_all (within_rights isAdmin) (snd (reload_if_changed t isAdmin r old h'))" for r old h'
    using fetch_within_rights by (simp add: reload_if_changed_def)
  moreover have "list_all (within_rights isAdmin) (snd (fst (handleCompleteOrder t isAdmin no r reload h)))" for no r reload
    using fetch_within_rights [of isAdmin t reload h]
    by (auto simp: handleCompleteOrder_def within_rights_def split: option.splits prod.splits)
  ultimately show ?thesis using assms s
    by (cases a) (auto simp: split_def Let_def)
qed

interpretation billing: event_machine "billing_step t isAdmin" "\<lambda>s. list_all (within_rights isAdmin) (snd s)"
  for t isAdmin
  by unfold_locales (rule billing_step_within)

text \<open>C18. Over any sequence of actions on the order history, a user who is no administrator only ever asks for the own
  history and completes no order, and an administrator asks for the history of all users.\<close>

theorem billing_within_rights:
  "list_all (within_rights isAdmin) (snd (fold (billing_step t isAdmin) actions (h, [])))"
  by (rule billing.run_inv) simp

end
