(* ===== verification/Secure_Access.thy ===== *)
theory Secure_Access
  imports Console_Forms Js_Base64 Js_Pretty "HOL-Library.Word"
begin

section \<open>Passkeys, secure verification and signing in\<close>

text \<open>
  Model of \<^verbatim>\<open>lib/passkey.ts\<close> (the conversions between bytes and base64url, the options of the server and the results
  for it), \<^verbatim>\<open>features/auth/secure-verification\<close> (the hook that lets a protected call through after a second factor) with
  \<^verbatim>\<open>lib/secure-verification.ts\<close>, of \<^verbatim>\<open>features/auth/lib/validation.ts\<close>, \<^verbatim>\<open>features/auth/lib/oauth.ts\<close> and of
  \<^verbatim>\<open>features/auth/hooks/use-auth-redirect.ts\<close>.

  An \<open>ArrayBuffer\<close> is a list of 8-bit words. A thrown error is \<open>Inl\<close>. The WebAuthn interface of the browser and the server
  are parameters: the outcome of each call is an argument, and the calls are listed in their order as effects.

  Shown: bytes survive the base64url text, whose characters need no escaping in an address; an attempt to verify makes the
  protected call only after the server has confirmed the second factor of that very attempt; a backup code is brought into its
  form once and for all.
\<close>

subsection \<open>Base64url\<close>

type_synonym bytes = "8 word list"

definition to_url_char :: "char \<Rightarrow> char" where
  \<comment> \<open>\<open>.replace(/\\+/g, '-').replace(/\\//g, '_')\<close>\<close>
  "to_url_char c = (if c = CHR ''+'' then CHR ''-'' else if c = CHR ''/'' then CHR ''_'' else c)"

definition of_url_char :: "char \<Rightarrow> char" where
  \<comment> \<open>\<open>.replace(/-/g, '+').replace(/_/g, '/')\<close>\<close>
  "of_url_char c = (if c = CHR ''-'' then CHR ''+'' else if c = CHR ''_'' then CHR ''/'' else c)"

definition strip_pad :: "jsstr \<Rightarrow> jsstr" where
  \<comment> \<open>\<open>.replace(/=+$/g, '')\<close>\<close>
  "strip_pad s = rev (dropWhile (\<lambda>c. c = CHR ''='') (rev s))"

definition base64UrlToArrayBuffer :: "jsstr option \<Rightarrow> bytes option" where
  \<comment> \<open>\<open>None\<close> is the exception of \<open>atob\<close>\<close>
  "base64UrlToArrayBuffer value = (case value of
       None \<Rightarrow> Some []
     | Some v \<Rightarrow>
         if v = [] then Some []
         else (let padding = replicate ((4 - length v mod 4) mod 4) CHR ''='';
                   base64 = map of_url_char (v @ padding) in
               map_option (map (\<lambda>c. word_of_nat (of_char c))) (atob base64)))"

definition arrayBufferToBase64Url :: "bytes option \<Rightarrow> jsstr" where
  "arrayBufferToBase64Url buffer = (case buffer of
       None \<Rightarrow> ''''
     | Some bs \<Rightarrow> (let binary = map (\<lambda>b. char_of (unat b)) bs in strip_pad (map to_url_char (btoa binary))))"

text \<open>The options of the server, under one of four names, with the texts that become buffers.\<close>

record Credential =
  cr_fields :: "json obj"
  cr_id :: "jsstr option"

record ServerOptions =
  so_fields :: "json obj"
  so_challenge :: "jsstr option"
  so_user :: Credential
  so_credentials :: "Credential list option" \<comment> \<open>\<open>excludeCredentials\<close> when registering, \<open>allowCredentials\<close> when signing in\<close>
  so_attestationFormats :: "jsstr list option"

record OptionsPayload =
  op_publicKey :: "ServerOptions option"
  op_PublicKey :: "ServerOptions option"
  op_response :: "ServerOptions option"
  op_Response :: "ServerOptions option"

record PublicKeyOptions =
  pk_fields :: "json obj"
  pk_challenge :: bytes
  pk_user :: "(json obj \<times> bytes) option"
  pk_credentials :: "(json obj \<times> bytes) list option"
  pk_attestationFormats :: "jsstr list option"

definition first_options :: "OptionsPayload \<Rightarrow> ServerOptions option" where
  "first_options p = (case op_publicKey p of Some x \<Rightarrow> Some x | None \<Rightarrow>
     (case op_PublicKey p of Some x \<Rightarrow> Some x | None \<Rightarrow> (case op_response p of Some x \<Rightarrow> Some x | None \<Rightarrow> op_Response p)))"

definition credential_bytes :: "Credential \<Rightarrow> (json obj \<times> bytes) option" where
  "credential_bytes c = map_option (Pair (cr_fields c)) (base64UrlToArrayBuffer (cr_id c))"

definition all_credentials :: "Credential list option \<Rightarrow> (json obj \<times> bytes) list option option" where
  "all_credentials cs = (case cs of None \<Rightarrow> Some None | Some l \<Rightarrow> map_option Some (those (map credential_bytes l)))"

definition invalid_base64 :: jsstr where
  "invalid_base64 = ''InvalidCharacterError''"

definition prepareCredentialRequestOptions :: "OptionsPayload \<Rightarrow> jsstr + PublicKeyOptions" where
  "prepareCredentialRequestOptions payload = (case first_options payload of
       None \<Rightarrow> Inl ''Unable to parse Passkey login options from response''
     | Some o1 \<Rightarrow> (case (base64UrlToArrayBuffer (so_challenge o1), all_credentials (so_credentials o1)) of
         (Some ch, Some cs) \<Rightarrow> Inr \<lparr>pk_fields = so_fields o1, pk_challenge = ch, pk_user = None, pk_credentials = cs,
            pk_attestationFormats = so_attestationFormats o1\<rparr>
       | _ \<Rightarrow> Inl invalid_base64))"

definition prepareCredentialCreationOptions :: "OptionsPayload \<Rightarrow> jsstr + PublicKeyOptions" where
  "prepareCredentialCreationOptions payload = (case first_options payload of
       None \<Rightarrow> Inl ''Unable to parse Passkey registration options from response''
     | Some o1 \<Rightarrow> (case (base64UrlToArrayBuffer (so_challenge o1), credential_bytes (so_user o1), all_credentials (so_credentials o1)) of
         (Some ch, Some u, Some cs) \<Rightarrow> Inr \<lparr>pk_fields = so_fields o1, pk_challenge = ch, pk_user = Some u, pk_credentials = cs,
            pk_attestationFormats = (if so_attestationFormats o1 = Some [] then None else so_attestationFormats o1)\<rparr>
       | _ \<Rightarrow> Inl invalid_base64))"

record AssertionCredential =
  ac_id :: jsstr
  ac_rawId :: bytes
  ac_type :: jsstr
  ac_attachment :: "jsstr option"
  ac_authenticatorData :: bytes
  ac_clientDataJSON :: bytes
  ac_signature :: bytes
  ac_userHandle :: "bytes option"
  ac_extensions :: "json obj option"

definition buildAssertionResult :: "AssertionCredential option \<Rightarrow> json option" where
  "buildAssertionResult credential = (case credential of None \<Rightarrow> None
     | Some c \<Rightarrow> Some (JObj [(''id'', JStr (ac_id c)), (''rawId'', JStr (arrayBufferToBase64Url (Some (ac_rawId c)))),
         (''type'', JStr (ac_type c)),
         (''authenticatorAttachment'', (case ac_attachment c of Some a \<Rightarrow> JStr a | None \<Rightarrow> JNull)),
         (''response'', JObj [(''authenticatorData'', JStr (arrayBufferToBase64Url (Some (ac_authenticatorData c)))),
            (''clientDataJSON'', JStr (arrayBufferToBase64Url (Some (ac_clientDataJSON c)))),
            (''signature'', JStr (arrayBufferToBase64Url (Some (ac_signature c)))),
            (''userHandle'', (case ac_userHandle c of Some h \<Rightarrow> JStr (arrayBufferToBase64Url (Some h)) | None \<Rightarrow> JNull))]),
         (''clientExtensionResults'', JObj (case ac_extensions c of Some e \<Rightarrow> e | None \<Rightarrow> []))]))"

record AttestationCredential =
  tc_id :: jsstr
  tc_rawId :: bytes
  tc_type :: jsstr
  tc_attachment :: "jsstr option"
  tc_attestationObject :: bytes
  tc_clientDataJSON :: bytes
  tc_transports :: "jsstr list option"
  tc_extensions :: "json obj option"

definition buildRegistrationResult :: "AttestationCredential option \<Rightarrow> json option" where
  "buildRegistrationResult credential = (case credential of None \<Rightarrow> None
     | Some c \<Rightarrow> Some (JObj [(''id'', JStr (tc_id c)), (''rawId'', JStr (arrayBufferToBase64Url (Some (tc_rawId c)))),
         (''type'', JStr (tc_type c)),
         (''authenticatorAttachment'', (case tc_attachment c of Some a \<Rightarrow> JStr a | None \<Rightarrow> JNull)),
         (''response'', JObj (defined [(''attestationObject'', Some (JStr (arrayBufferToBase64Url (Some (tc_attestationObject c))))),
            (''clientDataJSON'', Some (JStr (arrayBufferToBase64Url (Some (tc_clientDataJSON c))))),
            (''transports'', map_option (\<lambda>ts. JArr (map JStr ts)) (tc_transports c))])),
         (''clientExtensionResults'', JObj (case tc_extensions c of Some e \<Rightarrow> e | None \<Rightarrow> []))]))"

lemma url_alphabet:
  "list_all (\<lambda>n. of_url_char (to_url_char (b64_char n)) = b64_char n \<and> to_url_char (b64_char n) \<notin> {CHR ''='', CHR ''+'', CHR ''/''}) [0..<64]"
  by code_simp

lemma url_char: "n < 64 \<Longrightarrow> of_url_char (to_url_char (b64_char n)) = b64_char n \<and> to_url_char (b64_char n) \<notin> {CHR ''='', CHR ''+'', CHR ''/''}"
  using url_alphabet by (simp add: list_all_iff)

lemma strip_pad_end: "list_all (\<lambda>c. c \<noteq> CHR ''='') e \<Longrightarrow> strip_pad (e @ replicate k CHR ''='') = e"
  by (cases e rule: rev_cases) (simp_all add: strip_pad_def dropWhile_append)

definition url_text :: "jsstr \<Rightarrow> jsstr" where
  \<comment> \<open>the sextets of a binary text in the characters of the url alphabet\<close>
  "url_text s = map to_url_char (map b64_char (b64_sextets (map of_char s)))"

lemma sextets_of_text: "list_all (\<lambda>n. n < 64) (b64_sextets (map of_char (s :: jsstr)))"
  using sextets_small [of "map of_char s"] by (auto simp: list_all_iff)

lemma url_text_clean: "list_all (\<lambda>c. c \<noteq> CHR ''='' \<and> c \<noteq> CHR ''+'' \<and> c \<noteq> CHR ''/'') (url_text s)"
  using sextets_of_text [of s] url_char by (auto simp: url_text_def list_all_iff)

lemma encode_url_text: "arrayBufferToBase64Url (Some bs) = url_text (map (\<lambda>b. char_of (unat b)) bs)"
proof -
  let ?s = "map (\<lambda>b. char_of (unat b)) bs :: jsstr"
  have "map to_url_char (btoa ?s) = url_text ?s @ replicate ((3 - length ?s mod 3) mod 3) CHR ''=''"
    by (simp add: btoa_def url_text_def map_replicate_const [symmetric] to_url_char_def)
  then show ?thesis using strip_pad_end [of "url_text ?s"] url_text_clean [of ?s]
    by (simp add: arrayBufferToBase64Url_def list_all_iff)
qed

lemma padding_restored: "(4 - length (url_text s) mod 4) mod 4 = (3 - length s mod 3) mod 3"
proof -
  obtain q r where l: "length s = 3 * q + r" "r < 3" by (metis mod_less_divisor mult_div_mod_eq zero_less_numeral)
  then have r: "r = 0 \<or> r = 1 \<or> r = 2" by linarith
  moreover have "length (url_text s) = (length s * 4 + 2) div 3" by (simp add: url_text_def sextets_length)
  ultimately have "length (url_text s) = 4 * q + (if r = 0 then 0 else r + 1)" using l by auto
  then have "length (url_text s) mod 4 = (if r = 0 then 0 else r + 1)" using l(2) by auto
  moreover have "length s mod 3 = r" using l by simp
  ultimately show ?thesis using r by auto
qed

lemma decode_url_text:
  "base64UrlToArrayBuffer (Some (url_text s)) = Some (map (\<lambda>c. word_of_nat (of_char c)) s)"
proof (cases "url_text s = []")
  case True
  then have "s = []" by (cases s; cases "tl s"; cases "tl (tl s)") (auto simp: url_text_def)
  then show ?thesis using True by (simp add: base64UrlToArrayBuffer_def)
next
  case False
  have "map of_url_char (url_text s) = map b64_char (b64_sextets (map of_char s))"
    using sextets_of_text [of s] url_char by (auto simp: url_text_def list_all_iff)
  then have "map of_url_char (url_text s @ replicate ((4 - length (url_text s) mod 4) mod 4) CHR ''='') = btoa s"
    unfolding padding_restored by (simp add: btoa_def of_url_char_def map_replicate_const [symmetric])
  then show ?thesis using False by (simp add: base64UrlToArrayBuffer_def atob_btoa Let_def del: map_append)
qed

text \<open>C17. Bytes survive the base64url text: what the browser hands over is decoded to the same bytes, and the text has no
  character that an address would need to escape.\<close>

theorem base64url_roundtrip:
  "base64UrlToArrayBuffer (Some (arrayBufferToBase64Url (Some bs))) = Some bs \<and>
   list_all (\<lambda>c. c \<noteq> CHR ''='' \<and> c \<noteq> CHR ''+'' \<and> c \<noteq> CHR ''/'') (arrayBufferToBase64Url (Some bs))"
proof -
  have "word_of_nat (of_char (char_of (unat b) :: char)) = b" for b :: "8 word"
  proof -
    have "unat b < 256" using unsigned_less [of b] by simp
    then show ?thesis by (simp add: of_char_of)
  qed
  then show ?thesis unfolding encode_url_text
    by (simp add: decode_url_text url_text_clean comp_def)
qed

subsection \<open>Secure verification\<close>

datatype VerificationMethod = TwoFA | Passkey

record VerificationMethods =
  has2FA :: bool
  hasPasskey :: bool
  passkeySupported :: bool

datatype thrown = DomException jsstr jsstr | PlainError jsstr | NotAnError \<comment> \<open>a thrown value that is no \<open>Error\<close>\<close>

definition message_of :: "(jsstr \<Rightarrow> jsstr) \<Rightarrow> thrown \<Rightarrow> jsstr" where
  "message_of t e = (case e of DomException name m \<Rightarrow> m | PlainError m \<Rightarrow> m | NotAnError \<Rightarrow> t ''Verification failed'')"

text \<open>An answer of the server: rejected, or its success flag and message.\<close>

datatype reply = Rejects thrown | Replies bool "jsstr option"

datatype 'c secure_effect =
  Verify2FA jsstr
| BeginPasskey
| AskCredential PublicKeyOptions
| FinishPasskey json
| VerifyPasskeyRequest
| ProtectedCall 'c
| ShowError jsstr
| ShowSuccess jsstr
| ShowInfo jsstr
| OnSuccess json VerificationMethod
| OnError thrown

definition checkVerificationMethods :: "((bool \<times> bool) \<times> (bool \<times> bool) \<times> bool) option \<Rightarrow> VerificationMethods" where
  \<comment> \<open>success and enabled flag of both answers and the support of the browser; \<open>None\<close> when one of the calls is rejected\<close>
  "checkVerificationMethods answers = (case answers of
       Some ((s1, e1), (s2, e2), supported) \<Rightarrow> \<lparr>has2FA = s1 \<and> e1, hasPasskey = s2 \<and> e2, passkeySupported = supported\<rparr>
     | None \<Rightarrow> \<lparr>has2FA = False, hasPasskey = False, passkeySupported = False\<rparr>)"

definition check_reply :: "reply \<Rightarrow> jsstr \<Rightarrow> thrown + unit" where
  "check_reply r d = (case r of Rejects e \<Rightarrow> Inl e | Replies ok m \<Rightarrow> if ok then Inr () else Inl (PlainError (opt_str_or m d)))"

definition verifyTwoFA :: "jsstr option \<Rightarrow> reply \<Rightarrow> 'c secure_effect list \<times> (thrown + unit)" where
  "verifyTwoFA code r =
     (let entered = (case code of Some c \<Rightarrow> js_trim c | None \<Rightarrow> '''') in
      if entered = [] then ([], Inl (PlainError ''Please enter the verification code or backup code''))
      else ([Verify2FA entered], check_reply r ''Verification failed''))"

record PasskeyReplies =
  pr_available :: bool
  pr_begin :: reply
  pr_options :: OptionsPayload
  pr_credential :: "thrown + AssertionCredential option"
  pr_finish :: reply
  pr_verify :: reply

definition passkey_steps :: "PasskeyReplies \<Rightarrow> 'c secure_effect list \<times> (thrown + unit)" where
  "passkey_steps r =
     (case check_reply (pr_begin r) ''Failed to start verification'' of
        Inl e \<Rightarrow> ([BeginPasskey], Inl e)
      | Inr _ \<Rightarrow> (case prepareCredentialRequestOptions (pr_options r) of
          Inl m \<Rightarrow> ([BeginPasskey], Inl (if m = invalid_base64 then DomException m m else PlainError m))
        | Inr publicKey \<Rightarrow> (case pr_credential r of
            Inl e \<Rightarrow> ([BeginPasskey, AskCredential publicKey], Inl e)
          | Inr credential \<Rightarrow> (case buildAssertionResult credential of
              None \<Rightarrow> ([BeginPasskey, AskCredential publicKey], Inl (PlainError ''Passkey verification was cancelled''))
            | Some assertion \<Rightarrow> (case check_reply (pr_finish r) ''Passkey verification failed'' of
                Inl e \<Rightarrow> ([BeginPasskey, AskCredential publicKey, FinishPasskey assertion], Inl e)
              | Inr _ \<Rightarrow> ([BeginPasskey, AskCredential publicKey, FinishPasskey assertion, VerifyPasskeyRequest],
                  check_reply (pr_verify r) ''Failed to complete verification''))))))"

definition rename_error :: "thrown \<Rightarrow> thrown" where
  "rename_error e = (case e of
       DomException name m \<Rightarrow>
         if name = ''NotAllowedError'' then PlainError ''Passkey verification was cancelled or timed out''
         else if name = ''InvalidStateError'' then PlainError ''Passkey verification is not available in the current state''
         else e
     | _ \<Rightarrow> e)"

definition verifyPasskey :: "PasskeyReplies \<Rightarrow> 'c secure_effect list \<times> (thrown + unit)" where
  "verifyPasskey r =
     (if \<not> pr_available r then ([], Inl (PlainError ''Passkey verification is not supported in this environment''))
      else (let (es, res) = passkey_steps r in (es, case res of Inl e \<Rightarrow> Inl (rename_error e) | Inr u \<Rightarrow> Inr u)))"

fun verify :: "VerificationMethod \<Rightarrow> jsstr option \<Rightarrow> reply \<Rightarrow> PasskeyReplies \<Rightarrow> 'c secure_effect list \<times> (thrown + unit)" where
  "verify TwoFA code r2 rp = verifyTwoFA code r2"
| "verify Passkey code r2 rp = verifyPasskey rp"

text \<open>The hook: its state with the call that waits for the verification.\<close>

record 'c Verification =
  sv_method :: "VerificationMethod option"
  sv_loading :: bool
  sv_code :: jsstr
  sv_title :: "jsstr option"
  sv_description :: "jsstr option"
  sv_apiCall :: "'c option"
  sv_open :: bool
  sv_methods :: VerificationMethods

text \<open>The options of the caller. A callback is the exception that it throws, if it throws one; what else it does is outside.\<close>

record VerificationOptions =
  vo_onSuccess :: "(json \<Rightarrow> VerificationMethod \<Rightarrow> thrown option) option"
  vo_onError :: "(thrown \<Rightarrow> thrown option) option"
  vo_successMessage :: "jsstr option"
  vo_autoReset :: bool

definition call_onError :: "VerificationOptions \<Rightarrow> thrown \<Rightarrow> 'c secure_effect list \<times> thrown option" where
  "call_onError opts e = (case vo_onError opts of None \<Rightarrow> ([], None) | Some f \<Rightarrow> ([OnError e], f e))"

definition call_onSuccess :: "VerificationOptions \<Rightarrow> json \<Rightarrow> VerificationMethod \<Rightarrow> 'c secure_effect list \<times> thrown option" where
  "call_onSuccess opts result m = (case vo_onSuccess opts of None \<Rightarrow> ([], None) | Some f \<Rightarrow> ([OnSuccess result m], f result m))"

definition sv_reset :: "'c Verification \<Rightarrow> 'c Verification" where
  "sv_reset s = s\<lparr>sv_method := None, sv_loading := False, sv_code := '''', sv_title := None, sv_description := None,
     sv_apiCall := None, sv_open := False\<rparr>"

definition default_method :: "VerificationMethods \<Rightarrow> VerificationMethod option" where
  "default_method ms = (if hasPasskey ms \<and> passkeySupported ms then Some Passkey else if has2FA ms then Some TwoFA else None)"

definition startVerification ::
  "(jsstr \<Rightarrow> jsstr) \<Rightarrow> VerificationOptions \<Rightarrow> VerificationMethods \<Rightarrow> 'c \<Rightarrow> VerificationMethod option \<Rightarrow> jsstr option \<Rightarrow> jsstr option \<Rightarrow>
    'c Verification \<Rightarrow> 'c Verification \<times> 'c secure_effect list \<times> (thrown + bool)" where
  "startVerification t opts availableMethods apiCall preferredMethod title description s =
     (let s1 = s\<lparr>sv_methods := availableMethods\<rparr> in
      if \<not> has2FA availableMethods \<and> \<not> hasPasskey availableMethods
      then (let (es, x) = call_onError opts (PlainError ''No verification methods available. Enable 2FA or Passkey to continue.'') in
            (s1, ShowError (t ''Please enable Two-factor Authentication or Passkey before proceeding'') # es,
             case x of None \<Rightarrow> Inr False | Some e \<Rightarrow> Inl e))
      else (s1\<lparr>sv_apiCall := Some apiCall,
              sv_method := (case preferredMethod of Some m \<Rightarrow> Some m | None \<Rightarrow> default_method availableMethods),
              sv_title := title, sv_description := description, sv_open := True\<rparr>, [], Inr True))"

definition attempt_failed ::
  "(jsstr \<Rightarrow> jsstr) \<Rightarrow> VerificationOptions \<Rightarrow> 'c Verification \<Rightarrow> 'c secure_effect list \<Rightarrow> thrown \<Rightarrow>
    'c Verification \<times> 'c secure_effect list \<times> (thrown + json option)" where
  \<comment> \<open>the \<open>catch\<close> and the \<open>finally\<close>; an exception of \<open>onError\<close> replaces the error\<close>
  "attempt_failed t opts s es e =
     (let (es', x) = call_onError opts e in
      (s\<lparr>sv_loading := False\<rparr>, es @ ShowError (message_of t e) # es', Inl (case x of None \<Rightarrow> e | Some e' \<Rightarrow> e')))"

definition executeVerification ::
  "(jsstr \<Rightarrow> jsstr) \<Rightarrow> VerificationOptions \<Rightarrow> reply \<Rightarrow> PasskeyReplies \<Rightarrow> (thrown + json) \<Rightarrow> VerificationMethod option \<Rightarrow> jsstr option \<Rightarrow>
    'c Verification \<Rightarrow> 'c Verification \<times> 'c secure_effect list \<times> (thrown + json option)" where
  \<comment> \<open>the last component is the value of the promise: rejected, or resolved with the result of the call\<close>
  "executeVerification t opts r2 rp callResult meth code s = (case sv_apiCall s of
       None \<Rightarrow> (s, [ShowError (t ''Verification is not configured properly'')], Inr None)
     | Some apiCall \<Rightarrow>
         (case (case meth of Some m \<Rightarrow> Some m | None \<Rightarrow> sv_method s) of
            None \<Rightarrow> (s, [ShowError (t ''Select a verification method first'')], Inr None)
          | Some actualMethod \<Rightarrow>
              (let (es, res) = verify actualMethod (Some (case code of Some c \<Rightarrow> c | None \<Rightarrow> sv_code s)) r2 rp in
               case res of
                 Inl e \<Rightarrow> attempt_failed t opts s es e
               | Inr _ \<Rightarrow> (case callResult of
                     Inl e \<Rightarrow> attempt_failed t opts s (es @ [ProtectedCall apiCall]) e
                   | Inr result \<Rightarrow>
                       (let (cs, x) = call_onSuccess opts result actualMethod;
                            es' = es @ [ProtectedCall apiCall] @
                              (case vo_successMessage opts of Some m \<Rightarrow> if m = [] then [] else [ShowSuccess m] | None \<Rightarrow> []) @ cs in
                        case x of
                          Some e \<Rightarrow> attempt_failed t opts s es' e \<comment> \<open>the callback is called inside the \<open>try\<close>\<close>
                        | None \<Rightarrow> ((if vo_autoReset opts then sv_reset s else s)\<lparr>sv_loading := False\<rparr>, es', Inr (Some result)))))))"

definition setCode :: "jsstr \<Rightarrow> 'c Verification \<Rightarrow> 'c Verification" where
  "setCode code s = s\<lparr>sv_code := code\<rparr>"

definition switchMethod :: "VerificationMethod \<Rightarrow> 'c Verification \<Rightarrow> 'c Verification" where
  "switchMethod m s = s\<lparr>sv_method := Some m, sv_code := ''''\<rparr>"

definition sv_cancel :: "'c Verification \<Rightarrow> 'c Verification" where
  "sv_cancel s = sv_reset s"

fun canUseMethod :: "'c Verification \<Rightarrow> VerificationMethod \<Rightarrow> bool" where
  "canUseMethod s TwoFA = has2FA (sv_methods s)"
| "canUseMethod s Passkey = (hasPasskey (sv_methods s) \<and> passkeySupported (sv_methods s))"

definition recommendedMethod :: "'c Verification \<Rightarrow> VerificationMethod option" where
  "recommendedMethod s = default_method (sv_methods s)"

text \<open>The errors that ask for a verification: status 403 with one of three codes.\<close>

record ApiError =
  ae_status :: "jsnum option"
  ae_code :: "jsstr option"
  ae_message :: "jsstr option"

definition isVerificationRequiredError :: "ApiError \<Rightarrow> bool" where
  "isVerificationRequiredError e \<longleftrightarrow> ae_status e = Some (num 403) \<and>
     (case ae_code e of Some c \<Rightarrow> c \<in> {''VERIFICATION_REQUIRED'', ''VERIFICATION_EXPIRED'', ''VERIFICATION_INVALID''} | None \<Rightarrow> False)"

definition verification_message :: "ApiError \<Rightarrow> jsstr" where
  "verification_message e = (case ae_message e of Some m \<Rightarrow> m | None \<Rightarrow> ''Secure verification is required'')"

definition withVerification ::
  "(jsstr \<Rightarrow> jsstr) \<Rightarrow> VerificationOptions \<Rightarrow> VerificationMethods \<Rightarrow> 'c \<Rightarrow> (ApiError + json) \<Rightarrow> VerificationMethod option \<Rightarrow> jsstr option \<Rightarrow>
    jsstr option \<Rightarrow> 'c Verification \<Rightarrow> 'c Verification \<times> 'c secure_effect list \<times> ((ApiError + thrown) + json option)" where
  \<comment> \<open>makes the call without verification first: the server decides whether it needs one\<close>
  "withVerification t opts ms apiCall callResult preferredMethod title description s = (case callResult of
       Inr v \<Rightarrow> (s, [ProtectedCall apiCall], Inr (Some v))
     | Inl e \<Rightarrow>
         if isVerificationRequiredError e then
           (let (s', es, ok) = startVerification t opts ms apiCall preferredMethod title description s in
            (s', [ProtectedCall apiCall, ShowInfo (verification_message e)] @ es, case ok of Inl x \<Rightarrow> Inl (Inr x) | Inr _ \<Rightarrow> Inr None))
         else (s, [ProtectedCall apiCall], Inl (Inl e)))"

subsection \<open>The gate\<close>

definition confirmed :: "VerificationMethod \<Rightarrow> jsstr \<Rightarrow> reply \<Rightarrow> PasskeyReplies \<Rightarrow> bool" where
  \<comment> \<open>the server has confirmed the second factor: the code was not blank, or the passkey was asserted, and every answer was a success\<close>
  "confirmed m code r2 rp = (case m of
       TwoFA \<Rightarrow> js_trim code \<noteq> [] \<and> (\<exists>x. r2 = Replies True x)
     | Passkey \<Rightarrow> pr_available rp \<and> (\<exists>x y z c. pr_begin rp = Replies True x \<and> pr_credential rp = Inr (Some c) \<and>
         pr_finish rp = Replies True y \<and> pr_verify rp = Replies True z))"

lemma check_reply_ok: "check_reply r d = Inr u \<longleftrightarrow> (\<exists>x. r = Replies True x)"
  by (auto simp: check_reply_def split: reply.splits if_splits)

lemma verify_confirmed: "snd (verify m (Some code) r2 rp :: 'c secure_effect list \<times> (thrown + unit)) = Inr () \<Longrightarrow> confirmed m code r2 rp"
  by (cases m) (auto simp: verifyTwoFA_def verifyPasskey_def passkey_steps_def confirmed_def check_reply_ok buildAssertionResult_def Let_def
      split: if_splits sum.splits option.splits prod.splits)

definition no_call :: "'c secure_effect \<Rightarrow> bool" where
  "no_call e = (case e of ProtectedCall d \<Rightarrow> False | _ \<Rightarrow> True)"

lemma verify_effects:
  "list_all no_call (fst (verify m code r2 rp))"
  by (cases m) (auto simp: no_call_def verifyTwoFA_def verifyPasskey_def passkey_steps_def Let_def split: sum.splits option.splits)

definition rejected_with :: "VerificationOptions \<Rightarrow> thrown \<Rightarrow> thrown" where
  \<comment> \<open>what a failed attempt is rejected with\<close>
  "rejected_with opts e = (case vo_onError opts of None \<Rightarrow> e | Some f \<Rightarrow> (case f e of Some e' \<Rightarrow> e' | None \<Rightarrow> e))"

definition attempt_outcome :: "VerificationOptions \<Rightarrow> VerificationMethod \<Rightarrow> (thrown + json) \<Rightarrow> thrown + json option" where
  \<comment> \<open>the outcome of the call, unless the callbacks of the caller throw\<close>
  "attempt_outcome opts m callResult = (case callResult of
       Inl e \<Rightarrow> Inl (rejected_with opts e)
     | Inr v \<Rightarrow> (case (case vo_onSuccess opts of Some f \<Rightarrow> f v m | None \<Rightarrow> None) of
           Some e \<Rightarrow> Inl (rejected_with opts e) | None \<Rightarrow> Inr (Some v)))"

definition notice :: "'c secure_effect \<Rightarrow> bool" where
  "notice e = (case e of ShowError x \<Rightarrow> True | ShowSuccess x \<Rightarrow> True | OnSuccess v x \<Rightarrow> True | OnError x \<Rightarrow> True | _ \<Rightarrow> False)"

lemma notice_no_call: "notice e \<Longrightarrow> no_call e" by (cases e) (simp_all add: notice_def no_call_def)

lemma failed_attempt:
  "\<exists>post. attempt_failed t opts s es e = (s\<lparr>sv_loading := False\<rparr>, es @ post, Inl (rejected_with opts e)) \<and> list_all notice post"
  by (auto simp: attempt_failed_def call_onError_def rejected_with_def notice_def split: option.splits)

lemma verified_attempt:
  assumes "sv_apiCall s = Some call" "(case meth of Some x \<Rightarrow> Some x | None \<Rightarrow> sv_method s) = Some m"
    "verify m (Some (case code of Some x \<Rightarrow> x | None \<Rightarrow> sv_code s)) r2 rp = (vs, Inr ())"
  shows "\<exists>s' post. executeVerification t opts r2 rp callResult meth code s = (s', vs @ ProtectedCall call # post, attempt_outcome opts m callResult) \<and>
     list_all notice post \<and> \<not> sv_loading s' \<and> (vo_autoReset opts \<and> \<not> isl (attempt_outcome opts m callResult) \<longrightarrow> sv_apiCall s' = None \<and> \<not> sv_open s')"
proof (cases callResult)
  case (Inl e)
  obtain post where "attempt_failed t opts s (vs @ [ProtectedCall call]) e =
      (s\<lparr>sv_loading := False\<rparr>, (vs @ [ProtectedCall call]) @ post, Inl (rejected_with opts e))" "list_all notice post"
    using failed_attempt by blast
  then show ?thesis using assms Inl by (simp add: executeVerification_def attempt_outcome_def)
next
  case (Inr v)
  define toasts :: "'a secure_effect list" where
    "toasts = (case vo_successMessage opts of Some m \<Rightarrow> if m = [] then [] else [ShowSuccess m] | None \<Rightarrow> [])"
  have n: "list_all notice toasts" by (auto simp: toasts_def notice_def split: option.splits)
  obtain cs x where c: "call_onSuccess opts v m = (cs :: 'a secure_effect list, x)" by fastforce
  then have cs: "list_all notice cs" "x = (case vo_onSuccess opts of Some f \<Rightarrow> f v m | None \<Rightarrow> None)"
    by (auto simp: call_onSuccess_def notice_def split: option.splits)
  have run: "executeVerification t opts r2 rp callResult meth code s = (case x of
      Some e \<Rightarrow> attempt_failed t opts s (vs @ [ProtectedCall call] @ toasts @ cs) e
    | None \<Rightarrow> ((if vo_autoReset opts then sv_reset s else s)\<lparr>sv_loading := False\<rparr>, vs @ [ProtectedCall call] @ toasts @ cs, Inr (Some v)))"
    using assms c Inr by (cases x) (simp_all add: executeVerification_def toasts_def Let_def)
  show ?thesis
  proof (cases x)
    case None
    then show ?thesis unfolding run using n cs Inr by (auto simp: attempt_outcome_def sv_reset_def)
  next
    case (Some e)
    obtain post where "attempt_failed t opts s (vs @ [ProtectedCall call] @ toasts @ cs) e =
        (s\<lparr>sv_loading := False\<rparr>, (vs @ [ProtectedCall call] @ toasts @ cs) @ post, Inl (rejected_with opts e))" "list_all notice post"
      using failed_attempt by blast
    moreover have "attempt_outcome opts m callResult = Inl (rejected_with opts e)" 
      using cs(2) [symmetric] Some Inr by (simp add: attempt_outcome_def)
    ultimately show ?thesis unfolding run Some option.case using n cs(1) by simp
  qed
qed

text \<open>C6. An attempt to verify (executing the verification in the dialog) makes a protected call only if the server confirmed the second
  factor of this attempt: then the call is the one that was registered, it is made once, after all the verification requests,
  and the chosen method was confirmed with the given code or with a passkey. The outcome is that of the call, or the
  exception of a callback of the caller. When the attempt succeeds, the hook is closed and holds no call, unless it is told not to
  reset. (Asking for a call with \<open>withVerification\<close> first makes it directly, and the server decides whether to refuse it.)\<close>

theorem verification_gate:
  assumes "(s', es, out) = executeVerification t opts r2 rp callResult meth code s" and "ProtectedCall c \<in> set es"
  shows "sv_apiCall s = Some c \<and> \<not> sv_loading s' \<and>
     (vo_autoReset opts \<and> \<not> isl out \<longrightarrow> sv_apiCall s' = None \<and> \<not> sv_open s') \<and>
     (\<exists>m pre post. (case meth of Some x \<Rightarrow> Some x | None \<Rightarrow> sv_method s) = Some m \<and>
        confirmed m (case code of Some x \<Rightarrow> x | None \<Rightarrow> sv_code s) r2 rp \<and>
        es = pre @ ProtectedCall c # post \<and> list_all no_call pre \<and> list_all notice post \<and> out = attempt_outcome opts m callResult)"
proof -
  obtain call where call: "sv_apiCall s = Some call"
    using assms by (cases "sv_apiCall s") (auto simp: executeVerification_def)
  obtain m where m: "(case meth of Some x \<Rightarrow> Some x | None \<Rightarrow> sv_method s) = Some m"
    using assms call by (cases "case meth of Some x \<Rightarrow> Some x | None \<Rightarrow> sv_method s") (auto simp: executeVerification_def)
  let ?code = "case code of Some x \<Rightarrow> x | None \<Rightarrow> sv_code s"
  obtain vs res where v: "(verify m (Some ?code) r2 rp :: 'a secure_effect list \<times> (thrown + unit)) = (vs, res)" by fastforce
  have pre: "list_all no_call vs" using verify_effects [of m "Some ?code" r2 rp, where 'a = 'a] by (simp add: v)
  have "res = Inr ()"
  proof (cases res)
    case (Inl e)
    obtain post where "attempt_failed t opts s vs e = (s\<lparr>sv_loading := False\<rparr>, vs @ post, Inl (rejected_with opts e))" "list_all notice post"
      using failed_attempt by blast
    then have "es = vs @ post" using assms(1) call m v Inl by (simp add: executeVerification_def)
    then have "list_all no_call es" using pre \<open>list_all notice post\<close> notice_no_call by (auto simp: list_all_iff)
    then show ?thesis using assms(2) by (auto simp: list_all_iff no_call_def)
  qed simp
  note v = v [unfolded this]
  have conf: "confirmed m ?code r2 rp" by (rule verify_confirmed [where 'c = 'a]) (simp add: v)
  obtain post where e: "es = vs @ ProtectedCall call # post" "out = attempt_outcome opts m callResult" "list_all notice post" "\<not> sv_loading s'"
    "vo_autoReset opts \<and> \<not> isl out \<longrightarrow> sv_apiCall s' = None \<and> \<not> sv_open s'"
    using verified_attempt [OF call m v, of t opts callResult] assms(1) by (metis prod.inject)
  have "list_all no_call post" using e(3) notice_no_call by (auto simp: list_all_iff)
  then have "c = call" using assms(2) e(1) pre by (auto simp: list_all_iff no_call_def)
  then show ?thesis using call m conf pre e by blast
qed

definition idle_verification :: "jsstr Verification" where
  "idle_verification = \<lparr>sv_method = None, sv_loading = False, sv_code = '''', sv_title = None, sv_description = None,
     sv_apiCall = None, sv_open = False, sv_methods = \<lparr>has2FA = False, hasPasskey = False, passkeySupported = False\<rparr>\<rparr>"

definition plain_options :: VerificationOptions where
  "plain_options = \<lparr>vo_onSuccess = Some (\<lambda>_ _. None), vo_onError = None, vo_successMessage = None, vo_autoReset = True\<rparr>"

theorem verification_gate_witness:
  "let s = fst (startVerification (\<lambda>x. x) plain_options \<lparr>has2FA = True, hasPasskey = False, passkeySupported = False\<rparr> ''reveal'' None None None idle_verification);
       rp = \<lparr>pr_available = False, pr_begin = Replies False None, pr_options = \<lparr>op_publicKey = None, op_PublicKey = None,
          op_response = None, op_Response = None\<rparr>, pr_credential = Inr None, pr_finish = Replies False None, pr_verify = Replies False None\<rparr>;
       (s', es, out) = executeVerification (\<lambda>x. x) plain_options (Replies True None) rp (Inr JNull) None
          (Some '' 123456 '') s in
   es = [Verify2FA ''123456'', ProtectedCall ''reveal'', OnSuccess JNull TwoFA] \<and> out = Inr (Some JNull) \<and> confirmed TwoFA '' 123456 '' (Replies True None) rp \<and> \<not> sv_open s'"
proof -
  let ?s = "fst (startVerification (\<lambda>x. x) plain_options \<lparr>has2FA = True, hasPasskey = False, passkeySupported = False\<rparr> ''reveal'' None None None idle_verification)"
  let ?rp = "\<lparr>pr_available = False, pr_begin = Replies False None, pr_options = \<lparr>op_publicKey = None, op_PublicKey = None,
          op_response = None, op_Response = None\<rparr>, pr_credential = Inr None, pr_finish = Replies False None, pr_verify = Replies False None\<rparr>"
  let ?opts = "plain_options"
  let ?e = "executeVerification (\<lambda>x. x) ?opts (Replies True None) ?rp (Inr JNull) None (Some '' 123456 '') ?s"
  have e: "fst (snd ?e) = [Verify2FA ''123456'', ProtectedCall ''reveal'', OnSuccess JNull TwoFA]" "sv_method ?s = Some TwoFA"
    "snd (snd ?e) = Inr (Some JNull)" by code_simp+
  have "(fst ?e, fst (snd ?e), snd (snd ?e)) = ?e" by simp
  from verification_gate [OF this, of "''reveal''"] have "confirmed TwoFA '' 123456 '' (Replies True None) ?rp \<and> \<not> sv_open (fst ?e)"
    by (simp add: e) (auto simp: plain_options_def)
  then show ?thesis using e by (simp add: split_def Let_def)
qed

text \<open>A preferred method is taken without asking whether the user has it, and a passkey on a device that does not support
  passkeys opens the dialog without any method.\<close>

lemma preferred_unchecked:
  "sv_method (fst (startVerification t opts \<lparr>has2FA = False, hasPasskey = True, passkeySupported = True\<rparr> c (Some TwoFA) ti de s)) = Some TwoFA \<and>
   \<not> canUseMethod (fst (startVerification t opts \<lparr>has2FA = False, hasPasskey = True, passkeySupported = True\<rparr> c (Some TwoFA) ti de s)) TwoFA"
  by (simp add: startVerification_def)

lemma unsupported_opens_empty:
  "let s' = fst (startVerification t opts \<lparr>has2FA = False, hasPasskey = True, passkeySupported = False\<rparr> c None ti de s) in
   sv_open s' \<and> sv_method s' = None \<and> \<not> canUseMethod s' TwoFA \<and> \<not> canUseMethod s' Passkey"
  by (simp add: startVerification_def default_method_def)

subsection \<open>Codes\<close>

definition is_upper_alnum :: "char \<Rightarrow> bool" where
  "is_upper_alnum c \<longleftrightarrow> (let n = (of_char c :: nat) in 65 \<le> n \<and> n \<le> 90 \<or> 48 \<le> n \<and> n \<le> 57)"

definition isValidOTP :: "jsstr \<Rightarrow> bool" where
  "isValidOTP code \<longleftrightarrow> length code = 6 \<and> list_all is_digit code"

definition is_alnum_i :: "char \<Rightarrow> bool" where
  \<comment> \<open>\<open>[A-Z0-9]\<close> under the flag \<open>i\<close>\<close>
  "is_alnum_i c \<longleftrightarrow> is_upper_alnum c \<or> (let n = (of_char c :: nat) in 97 \<le> n \<and> n \<le> 122)"

definition isValidBackupCode :: "jsstr \<Rightarrow> bool" where
  "isValidBackupCode code \<longleftrightarrow> length code = 9 \<and> list_all is_alnum_i (take 4 code) \<and> code ! 4 = CHR ''-'' \<and> list_all is_alnum_i (drop 5 code)"

definition formatBackupCode :: "jsstr \<Rightarrow> jsstr" where
  "formatBackupCode value =
     (let cleaned0 = filter is_upper_alnum (js_toUpperCase value);
          cleaned = (if length cleaned0 > 8 then take 8 cleaned0 else cleaned0) in
      if length cleaned > 4 then take 4 cleaned @ ''-'' @ drop 4 cleaned else cleaned)"

definition cleanBackupCode :: "jsstr \<Rightarrow> jsstr" where
  "cleanBackupCode code = filter (\<lambda>c. c \<noteq> CHR ''-'') code"

lemma upper_alnum_fix: "is_upper_alnum c \<Longrightarrow> js_upper_char c = [c]"
  by (auto simp: is_upper_alnum_def js_upper_char_def Let_def)

lemma upper_code: "list_all is_upper_alnum s \<Longrightarrow> js_toUpperCase s = s"
  by (induction s) (auto simp: js_toUpperCase_def upper_alnum_fix)

lemma upper_append: "js_toUpperCase (s @ u) = js_toUpperCase s @ js_toUpperCase u"
  by (simp add: js_toUpperCase_def)

definition code_chars :: "jsstr \<Rightarrow> jsstr" where
  "code_chars value = take 8 (filter is_upper_alnum (js_toUpperCase value))"

lemma format_code: "formatBackupCode value =
   (if length (code_chars value) > 4 then take 4 (code_chars value) @ ''-'' @ drop 4 (code_chars value) else code_chars value)"
  by (auto simp: formatBackupCode_def code_chars_def Let_def)

lemma code_chars_ok: "list_all is_upper_alnum (code_chars value)"
  by (auto simp: code_chars_def list_all_iff dest: in_set_takeD)

lemma dash_upper: "js_toUpperCase ''-'' = ''-''" "\<not> is_upper_alnum CHR ''-''" by code_simp+

lemma format_code_chars: "code_chars (formatBackupCode value) = code_chars value"
proof -
  let ?c = "code_chars value"
  have ok: "list_all is_upper_alnum ?c" "list_all is_upper_alnum (take 4 ?c)" "list_all is_upper_alnum (drop 4 ?c)"
    using code_chars_ok [of "value"] by (auto simp: list_all_iff dest: in_set_takeD in_set_dropD)
  have id: "filter is_upper_alnum x = x" if "list_all is_upper_alnum x" for x using that by (simp add: filter_id_conv list_all_iff)
  have "filter is_upper_alnum (js_toUpperCase (formatBackupCode value)) = ?c"
    unfolding format_code using dash_upper
    by (simp only: upper_append upper_code [OF ok(1)] upper_code [OF ok(2)] upper_code [OF ok(3)] filter_append if_distrib
        id [OF ok(1)] id [OF ok(2)] id [OF ok(3)]) (simp)
  moreover have "length ?c \<le> 8" by (simp add: code_chars_def)
  ultimately show ?thesis by (simp add: code_chars_def [of "formatBackupCode value"])
qed

text \<open>Typing a backup code: the field shows the first eight letters and digits in upper case with a hyphen after the
  fourth, formatting again changes nothing, removing the hyphen gives these characters, and the code is valid exactly
  when there are eight of them.\<close>

theorem backup_code_format:
  "formatBackupCode (formatBackupCode value) = formatBackupCode value \<and>
   cleanBackupCode (formatBackupCode value) = code_chars value \<and>
   (isValidBackupCode (formatBackupCode value) \<longleftrightarrow> length (code_chars value) = 8)"
proof (intro conjI)
  let ?c = "code_chars value"
  show "formatBackupCode (formatBackupCode value) = formatBackupCode value"
    unfolding format_code [of "formatBackupCode value"] format_code_chars by (rule format_code [symmetric])
  have nodash: "filter (\<lambda>c. c \<noteq> CHR ''-'') x = x" if "list_all is_upper_alnum x" for x
    using that dash_upper(2) by (auto simp: filter_id_conv list_all_iff)
  have ok: "list_all is_upper_alnum ?c" "list_all is_upper_alnum (take 4 ?c)" "list_all is_upper_alnum (drop 4 ?c)"
    using code_chars_ok [of "value"] by (auto simp: list_all_iff dest: in_set_takeD in_set_dropD)
  show "cleanBackupCode (formatBackupCode value) = ?c"
    unfolding format_code cleanBackupCode_def by (simp add: nodash ok)
  have len: "length ?c \<le> 8" by (simp add: code_chars_def)
  show "isValidBackupCode (formatBackupCode value) \<longleftrightarrow> length ?c = 8"
    using len ok unfolding format_code isValidBackupCode_def
    by (auto simp: nth_append is_alnum_i_def list_all_iff)
qed

definition isValidEmail :: "jsstr \<Rightarrow> bool" where
  \<comment> \<open>\<open>/^[^\\s@]+@[^\\s@]+\\.[^\\s@]+$/\<close>: one at-sign after a non-empty name, and an inner dot in the rest\<close>
  "isValidEmail email \<longleftrightarrow> list_all (\<lambda>c. \<not> js_ws c) email \<and>
     (case split_on CHR ''@'' email of [n, d] \<Rightarrow> n \<noteq> [] \<and> list_ex (\<lambda>i. d ! i = CHR ''.'') [1..<length d - 1] | _ \<Rightarrow> False)"

subsection \<open>Signing in\<close>

record SystemStatus =
  ss_github :: "bool \<times> jsstr option"
  ss_discord :: "bool \<times> jsstr option"
  ss_oidc :: "bool \<times> jsstr option \<times> jsstr option"
  ss_linuxdo :: "bool \<times> jsstr option"
  ss_telegram :: bool
  ss_wechat_login :: bool

record OAuthProvider =
  oa_name :: jsstr
  oa_type :: jsstr
  oa_enabled :: bool
  oa_clientId :: "jsstr option"
  oa_authEndpoint :: "jsstr option"

definition getAvailableOAuthProviders :: "SystemStatus option \<Rightarrow> OAuthProvider list" where
  "getAvailableOAuthProviders status = (case status of None \<Rightarrow> []
     | Some s \<Rightarrow>
         (if fst (ss_github s) then [\<lparr>oa_name = ''GitHub'', oa_type = ''github'', oa_enabled = True, oa_clientId = snd (ss_github s), oa_authEndpoint = None\<rparr>] else []) @
         (if fst (ss_discord s) then [\<lparr>oa_name = ''Discord'', oa_type = ''discord'', oa_enabled = True, oa_clientId = snd (ss_discord s), oa_authEndpoint = None\<rparr>] else []) @
         (case ss_oidc s of (on, cid, ep) \<Rightarrow>
            if on then [\<lparr>oa_name = ''OIDC'', oa_type = ''oidc'', oa_enabled = True, oa_clientId = cid, oa_authEndpoint = ep\<rparr>] else []) @
         (if fst (ss_linuxdo s) then [\<lparr>oa_name = ''LinuxDO'', oa_type = ''linuxdo'', oa_enabled = True, oa_clientId = snd (ss_linuxdo s), oa_authEndpoint = None\<rparr>] else []) @
         (if ss_telegram s then [\<lparr>oa_name = ''Telegram'', oa_type = ''telegram'', oa_enabled = True, oa_clientId = None, oa_authEndpoint = None\<rparr>] else []))"

definition hasOAuthProviders :: "SystemStatus option \<Rightarrow> bool" where
  "hasOAuthProviders status = (case status of None \<Rightarrow> False
     | Some s \<Rightarrow> fst (ss_github s) \<or> fst (ss_discord s) \<or> fst (ss_oidc s) \<or> fst (ss_linuxdo s) \<or> ss_telegram s \<or> ss_wechat_login s)"

definition getSavedLanguage :: "json \<Rightarrow> jsstr option" where
  "getSavedLanguage user = (case js_prop (Some user) ''language'' of
       Some (JStr l) \<Rightarrow> Some l
     | _ \<Rightarrow> (case js_prop (Some user) ''setting'' of
           Some (JStr setting) \<Rightarrow> (case js_prop (json_parse setting) ''language'' of Some (JStr l) \<Rightarrow> Some l | _ \<Rightarrow> None)
         | _ \<Rightarrow> None))"

datatype login_effect = ChangeLanguage jsstr | NavigateTo jsstr

definition save_id :: "(storage \<Rightarrow> bool) \<Rightarrow> json option \<Rightarrow> AuthStore \<Rightarrow> AuthStore" where
  \<comment> \<open>\<open>if (id) saveUserId(id)\<close>\<close>
  "save_id fits i a = (if js_truthy i then a\<lparr>au_storage := saveUserId fits (the i) (au_storage a)\<rparr> else a)"

definition apply_self :: "(storage \<Rightarrow> bool) \<Rightarrow> jsstr \<Rightarrow> json \<Rightarrow> AuthStore \<Rightarrow> AuthStore \<times> login_effect list" where
  \<comment> \<open>an exception of \<open>setUser\<close> is caught and ends the handling of the answer\<close>
  "apply_self fits language user a =
     (case setItem fits ''user'' (json_stringify user) (au_storage a) of
        None \<Rightarrow> (a, [])
      | Some _ \<Rightarrow>
          (save_id fits (js_prop (Some user) ''id'') (setUser fits user a),
           (case getSavedLanguage user of Some l \<Rightarrow> if l \<noteq> [] \<and> l \<noteq> language then [ChangeLanguage l] else [] | None \<Rightarrow> [])))"

definition handleLoginSuccess ::
  "(storage \<Rightarrow> bool) \<Rightarrow> jsstr \<Rightarrow> json option \<Rightarrow> (bool \<times> json option) option \<Rightarrow> jsstr option \<Rightarrow> AuthStore \<Rightarrow> AuthStore \<times> login_effect list" where
  \<comment> \<open>\<open>self\<close> is the answer of \<open>getSelf\<close>, \<open>None\<close> when it is rejected\<close>
  "handleLoginSuccess fits language userId self redirectTo a =
     (let a1 = save_id fits userId a;
          (a2, es) = (case self of
             Some (True, Some data) \<Rightarrow> if js_truthy (Some data) then apply_self fits language data a1 else (a1, [])
           | _ \<Rightarrow> (a1, [])) in
      (a2, es @ [NavigateTo (opt_str_or redirectTo ''/dashboard'')]))"

lemma save_id_synced: "auth_synced a \<Longrightarrow> auth_synced (save_id fits i a)"
  by (auto simp: save_id_def saveUserId_def get_kept intro: other_entry_synced)

text \<open>C26. Signing in keeps the session and its stored copy together, whatever the server answers and however little room
  the storage has; with room, the user of the answer is the user of the session, of a reload, and the stored id is that of
  the user. The page is left exactly once, for the given address or the dashboard.\<close>

theorem login_synced:
  assumes "auth_synced a" and "list_all (\<lambda>u. json_plain u \<and> (\<exists>kvs. u = JObj kvs)) (case self of Some (True, Some u) \<Rightarrow> [u] | _ \<Rightarrow> [])"
    and "(a', es) = handleLoginSuccess fits language userId self redirectTo a"
  shows "auth_synced a' \<and> filter (\<lambda>e. \<exists>p. e = NavigateTo p) es = [NavigateTo (opt_str_or redirectTo ''/dashboard'')] \<and>
     (self = Some (True, Some u) \<and> (\<forall>st. fits st) \<longrightarrow>
        au_user a' = u \<and> fst (initUser (au_storage a')) = u \<and>
        (js_truthy (js_prop (Some u) ''id'') \<longrightarrow> getUserId (au_storage a') = Some (js_String (the (js_prop (Some u) ''id'')))))"
proof -
  let ?a1 = "save_id fits userId a"
  have a1: "auth_synced ?a1" by (rule save_id_synced [OF assms(1)])
  have app: "auth_synced (fst (apply_self fits language v ?a1))" if "json_plain v" "v = JObj kvs" for v kvs
    using save_id_synced [OF setUser_synced [OF a1, of v]] a1 that by (auto simp: apply_self_def split: option.splits)
  have nav: "filter (\<lambda>e. \<exists>p. e = NavigateTo p) (snd (apply_self fits language v x)) = []" for v x
    by (auto simp: apply_self_def split: option.splits)
  have room: "au_user (fst (apply_self fits language v x)) = v \<and>
      (js_truthy (js_prop (Some v) ''id'') \<longrightarrow> getUserId (au_storage (fst (apply_self fits language v x))) = Some (js_String (the (js_prop (Some v) ''id''))))"
    if "\<forall>st. fits st" "v = JObj kvs" for v x kvs
    using that by (auto simp: apply_self_def setUser_def setItem_def save_id_def saveUserId_def set_or_keep_def getUserId_def getItem_def obj_get_set)
  show ?thesis
  proof (cases "\<exists>v. self = Some (True, Some v)")
    case True
    then obtain v where v: "self = Some (True, Some v)" by blast
    then obtain kvs where k: "v = JObj kvs" "json_plain v" using assms(2) by auto
    have r: "a' = fst (apply_self fits language v ?a1)" "es = snd (apply_self fits language v ?a1) @ [NavigateTo (opt_str_or redirectTo ''/dashboard'')]"
      using assms(3) v k(1) by (simp_all add: handleLoginSuccess_def split_def Let_def)
    have s: "auth_synced a'" using app [OF k(2,1)] r by simp
    then have "fst (initUser (au_storage a')) = au_user a'" by (simp add: auth_synced_init)
    then show ?thesis using s room [OF _ k(1), of ?a1] r nav v by auto
  next
    case False
    then have "a' = ?a1 \<and> es = [NavigateTo (opt_str_or redirectTo ''/dashboard'')]"
      using assms(3) by (auto simp: handleLoginSuccess_def split_def Let_def split: option.splits bool.splits)
    then show ?thesis using a1 False by auto
  qed
qed

theorem login_synced_witness:
  "let u = JObj [(''username'', JStr ''ann'')]; a' = fst (handleLoginSuccess (\<lambda>_. True) ''en'' None (Some (True, Some u)) None (useAuthStore [])) in
   auth_synced a' \<and> au_user a' = u \<and> fst (initUser (au_storage a')) = u"
proof -
  let ?u = "JObj [(''username'', JStr ''ann'')]"
  let ?r = "handleLoginSuccess (\<lambda>_. True) ''en'' None (Some (True, Some ?u)) None (useAuthStore [])"
  have "json_plain ?u" by code_simp
  moreover have "(fst ?r, snd ?r) = ?r" by simp
  ultimately show ?thesis
    using login_synced [OF created_synced [of "[]"], of "Some (True, Some ?u)" "fst ?r" "snd ?r" "\<lambda>_. True" "''en''" None None ?u]
    by (simp add: Let_def)
qed

end
