(* ===== verification/Settings_Form.thy ===== *)
theory Settings_Form
  imports Js_Json "HOL-Library.Sublist"
begin

section \<open>The form behind the settings pages\<close>

text \<open>
  Model of \<^verbatim>\<open>features/system-settings/hooks/use-settings-form.ts\<close>, the hook that the pages of the system settings share.
  The server names an option by a dotted path; the form holds a tree. The hook expands names to trees, flattens trees
  to names, and on submission sends the marked fields that differ from the last saved values.

  Values are JSON values (\<open>undefined\<close> is \<open>None\<close> where it can occur). The form library is outside: the marks of edited fields are
  an argument of the submission, and a reset of the form is an effect. The outcome of \<open>onSubmit\<close> is an argument.

  Shown: expanding and flattening is the identity on the options of the server; a submission sends exactly the marked
  fields that were changed, under the names of the server; and sending the same data again sends nothing.
\<close>

subsection \<open>Names and trees\<close>

definition is_plain_object :: "json \<Rightarrow> bool" where
  "is_plain_object v = (case v of JObj kvs \<Rightarrow> True | _ \<Rightarrow> False)"

definition next_key :: "jsstr option \<Rightarrow> jsstr \<Rightarrow> jsstr" where
  \<comment> \<open>\<open>parentKey ? `${parentKey}.${key}` : key\<close>\<close>
  "next_key parent k = (case parent of Some p \<Rightarrow> if p = [] then k else p @ ''.'' @ k | None \<Rightarrow> k)"

fun flattenValues :: "json \<Rightarrow> jsstr option \<Rightarrow> json obj \<Rightarrow> json obj"
  and flatten_entries :: "(jsstr \<times> json) list \<Rightarrow> jsstr option \<Rightarrow> json obj \<Rightarrow> json obj" where
  "flattenValues (JObj kvs) parent result = flatten_entries kvs parent result"
| "flattenValues v parent result = (case parent of Some p \<Rightarrow> obj_set p v result | None \<Rightarrow> result)"
| "flatten_entries [] parent result = result"
| "flatten_entries ((k, v) # kvs) parent result =
     flatten_entries kvs parent
       (if is_plain_object v then flattenValues v (Some (next_key parent k)) result else obj_set (next_key parent k) v result)"

text \<open>The marks of the form: a flag at a field, a node per object or array (with indices as keys).\<close>

datatype dirty = Dirty bool | DirtyNode "(jsstr \<times> dirty) list"

definition js_member :: "json option \<Rightarrow> jsstr \<Rightarrow> json option" where
  \<comment> \<open>\<open>values[key]\<close> for a plain object or an array, \<open>undefined\<close> otherwise\<close>
  "js_member values k = (case values of
       Some (JObj kvs) \<Rightarrow> obj_get k kvs
     | Some (JArr vs) \<Rightarrow> if is_array_index k \<and> digits_val k < int (length vs) then Some (vs ! nat (digits_val k)) else None
     | _ \<Rightarrow> None)"

fun collectDirtyValues :: "dirty \<Rightarrow> json option \<Rightarrow> jsstr option \<Rightarrow> json option obj \<Rightarrow> json option obj"
  and collect_entries :: "(jsstr \<times> dirty) list \<Rightarrow> json option \<Rightarrow> jsstr option \<Rightarrow> json option obj \<Rightarrow> json option obj" where
  "collectDirtyValues (Dirty b) values parent result =
     (if b then (case parent of Some p \<Rightarrow> obj_set p values result | None \<Rightarrow> result) else result)"
| "collectDirtyValues (DirtyNode ds) values parent result = collect_entries ds values parent result"
| "collect_entries [] values parent result = result"
| "collect_entries ((k, d) # ds) values parent result =
     collect_entries ds values parent
       (case d of
          Dirty b \<Rightarrow> if b then obj_set (next_key parent k) (js_member values k) result else result
        | DirtyNode _ \<Rightarrow> collectDirtyValues d (js_member values k) (Some (next_key parent k)) result)"

fun set_deep :: "jsstr list \<Rightarrow> json \<Rightarrow> json obj \<Rightarrow> json obj" where
  "set_deep [] v target = target"
| "set_deep [segment] v target = obj_set segment v target"
| "set_deep (segment # s2 # segments) v target = (case obj_get segment target of
       Some (JObj sub) \<Rightarrow> obj_set segment (JObj (set_deep (s2 # segments) v sub)) target
     | _ \<Rightarrow> obj_set segment (JObj (set_deep (s2 # segments) v [])) target)"

definition setDeepValue :: "json obj \<Rightarrow> jsstr \<Rightarrow> json \<Rightarrow> json obj" where
  "setDeepValue target path v = set_deep (split_on CHR ''.'' path) v target"

fun expandDotPaths :: "json \<Rightarrow> json" and expand_entries :: "(jsstr \<times> json) list \<Rightarrow> json obj \<Rightarrow> json obj" where
  "expandDotPaths (JObj kvs) = JObj (expand_entries kvs [])"
| "expandDotPaths v = v"
| "expand_entries [] result = result"
| "expand_entries ((k, v) # kvs) result =
     expand_entries kvs
       (if CHR ''.'' \<in> set k then setDeepValue result k v
        else if is_plain_object v then obj_set k (expandDotPaths v) result
        else obj_set k v result)"

subsection \<open>The hook\<close>

record SettingsForm =
  sf_defaults :: json
  sf_baseline :: "json obj"
  sf_serialized :: jsstr

datatype settings_effect =
  FormReset json
| OnSubmit json "json option obj"
| ToastInfo jsstr
| ToastSuccess jsstr

definition settings_state :: "json \<Rightarrow> SettingsForm" where
  \<comment> \<open>the three references for given values\<close>
  "settings_state values = (let flattened = flattenValues values None [] in
     \<lparr>sf_defaults = values, sf_baseline = flattened, sf_serialized = json_stringify (JObj flattened)\<rparr>)"

definition useSettingsForm :: "json option \<Rightarrow> SettingsForm" where
  "useSettingsForm defaultValues = settings_state (case defaultValues of Some d \<Rightarrow> expandDotPaths d | None \<Rightarrow> JObj [])"

definition defaults_effect :: "json option \<Rightarrow> SettingsForm \<Rightarrow> SettingsForm \<times> settings_effect list" where
  "defaults_effect defaultValues s = (case defaultValues of
       None \<Rightarrow> (s, [])
     | Some d \<Rightarrow>
         (let expandedDefaults = expandDotPaths d;
              new = settings_state expandedDefaults in
          if sf_serialized new = sf_serialized s then (s, []) else (new, [FormReset expandedDefaults])))"

definition strict_eq :: "json \<Rightarrow> json \<Rightarrow> bool" where
  \<comment> \<open>\<open>===\<close> on values that are not objects\<close>
  "strict_eq a b = (case (a, b) of
       (JNull, JNull) \<Rightarrow> True
     | (JBool x, JBool y) \<Rightarrow> x = y
     | (JNum x, JNum y) \<Rightarrow> js_eq x y
     | (JStr x, JStr y) \<Rightarrow> x = y
     | _ \<Rightarrow> False)"

definition is_ref :: "json \<Rightarrow> bool" where
  "is_ref a = (case a of JArr vs \<Rightarrow> True | JObj kvs \<Rightarrow> True | _ \<Rightarrow> False)"

definition defaultCompare :: "json option \<Rightarrow> json option \<Rightarrow> bool" where
  \<comment> \<open>two arrays or objects are compared by their JSON texts, which are equal when they are the same object\<close>
  "defaultCompare a b = (case (a, b) of
       (None, None) \<Rightarrow> True
     | (Some x, Some y) \<Rightarrow> strict_eq x y \<or> is_ref x \<and> is_ref y \<and> json_stringify x = json_stringify y
     | _ \<Rightarrow> False)"

definition changed_entries :: "(json option \<Rightarrow> json option \<Rightarrow> bool) \<Rightarrow> dirty \<Rightarrow> json \<Rightarrow> SettingsForm \<Rightarrow> json option obj" where
  "changed_entries cmp dirtyFields data s =
     filter (\<lambda>(k, v). \<not> cmp v (obj_get k (sf_baseline s))) (collectDirtyValues dirtyFields (Some data) None [])"

definition settings_handleSubmit ::
  "(json option \<Rightarrow> json option \<Rightarrow> bool) \<Rightarrow> (jsstr \<Rightarrow> jsstr) \<Rightarrow> dirty \<Rightarrow> json \<Rightarrow> bool \<Rightarrow> SettingsForm \<Rightarrow>
    SettingsForm \<times> settings_effect list" where
  \<comment> \<open>\<open>accepted\<close>: whether the promise of \<open>onSubmit\<close> is fulfilled; a rejection leaves the handler\<close>
  "settings_handleSubmit cmp t dirtyFields data accepted s =
     (let changedEntries = changed_entries cmp dirtyFields data s in
      if changedEntries = [] then (s, [ToastInfo (t ''No changes to save'')])
      else (let changedFields = fold (\<lambda>(k, v). obj_set k v) changedEntries [] in
            if \<not> accepted then (s, [OnSubmit data changedFields])
            else (settings_state data, [OnSubmit data changedFields, FormReset data])))"

definition settings_handleReset :: "(jsstr \<Rightarrow> jsstr) \<Rightarrow> SettingsForm \<Rightarrow> settings_effect list" where
  "settings_handleReset t s = [FormReset (sf_defaults s), ToastSuccess (t ''Form reset to saved values'')]"

subsection \<open>Trees as sets of leaves\<close>

fun leaves :: "json \<Rightarrow> (jsstr list \<times> json) list"
  and leaf_entries :: "(jsstr \<times> json) list \<Rightarrow> (jsstr list \<times> json) list" where
  "leaves (JObj kvs) = leaf_entries kvs"
| "leaves v = [([], v)]"
| "leaf_entries [] = []"
| "leaf_entries ((k, v) # kvs) = map (\<lambda>(q, w). (k # q, w)) (leaves v) @ leaf_entries kvs"

fun dirty_paths :: "dirty \<Rightarrow> jsstr list list" and dirty_entry_paths :: "(jsstr \<times> dirty) list \<Rightarrow> jsstr list list" where
  "dirty_paths (Dirty b) = (if b then [[]] else [])"
| "dirty_paths (DirtyNode ds) = dirty_entry_paths ds"
| "dirty_entry_paths [] = []"
| "dirty_entry_paths ((k, d) # ds) = map (Cons k) (dirty_paths d) @ dirty_entry_paths ds"

definition path_key :: "jsstr option \<Rightarrow> jsstr list \<Rightarrow> jsstr" where
  "path_key p q = js_join ''.'' (case p of None \<Rightarrow> q | Some s \<Rightarrow> s # q)"

fun tree_wf :: "json \<Rightarrow> bool" where
  "tree_wf (JObj kvs) \<longleftrightarrow> distinct (map fst kvs) \<and> (\<forall>kv \<in> set kvs. CHR ''.'' \<notin> set (fst kv) \<and> tree_wf (snd kv))"
| "tree_wf _ \<longleftrightarrow> True"

fun value_at :: "json option \<Rightarrow> jsstr list \<Rightarrow> json option" where
  "value_at v [] = v"
| "value_at v (k # q) = value_at (js_member v k) q"

definition starts_at :: "jsstr option \<Rightarrow> jsstr list \<Rightarrow> bool" where
  \<comment> \<open>no name is lost at the root: there is a non-empty parent, or the keys themselves are not empty\<close>
  "starts_at p ks \<longleftrightarrow> (case p of Some s \<Rightarrow> s \<noteq> [] | None \<Rightarrow> [] \<notin> set ks)"

lemma path_key_next:
  "starts_at p (k # ks) \<Longrightarrow> path_key (Some (next_key p k)) q = path_key p (k # q) \<and> next_key p k \<noteq> []"
  by (cases q) (auto simp: path_key_def next_key_def starts_at_def split: option.splits)

lemma starts_at_tail: "starts_at p (k # ks) \<Longrightarrow> starts_at p ks"
  by (auto simp: starts_at_def split: option.splits)

lemma fold_map_arg: "fold f (map g xs) r = fold (\<lambda>x. f (g x)) xs r"
  by (induction xs arbitrary: r) auto

lemma leaves_no_object: "\<not> is_plain_object v \<Longrightarrow> leaves v = [([], v)]"
  by (cases v) (auto simp: is_plain_object_def)

lemma flatten_as_fold:
  "starts_at p [] \<Longrightarrow> p \<noteq> None \<Longrightarrow> flattenValues v p r = fold (\<lambda>(q, w). obj_set (path_key p q) w) (leaves v) r"
  "starts_at p (map fst kvs) \<Longrightarrow> flatten_entries kvs p r = fold (\<lambda>(q, w). obj_set (path_key p q) w) (leaf_entries kvs) r"
proof (induction v p r and kvs p r rule: flattenValues_flatten_entries.induct)
  case (4 k v kvs p r)
  let ?n = "next_key p k"
  have key: "path_key (Some ?n) q = path_key p (k # q)" "?n \<noteq> []" for q
    using path_key_next [of p k "map fst kvs" q] 4(3) by auto
  have one: "(if is_plain_object v then flattenValues v (Some ?n) r else obj_set ?n v r) =
      fold (\<lambda>(q, w). obj_set (path_key p q) w) (map (\<lambda>(q, w). (k # q, w)) (leaves v)) r"
  proof (cases "is_plain_object v")
    case True
    have "starts_at (Some ?n) []" using key(2) by (simp add: starts_at_def)
    then show ?thesis using 4(1) [OF True] True by (simp add: fold_map_arg split_def key(1))
  next
    case False
    then show ?thesis using key(1) [of "[]"] by (simp add: leaves_no_object path_key_def)
  qed
  show ?case using 4(2) starts_at_tail [of p k "map fst kvs"] 4(3) by (simp add: one)
qed (auto simp: path_key_def starts_at_def)

lemma collect_as_fold:
  "starts_at p [] \<Longrightarrow> p \<noteq> None \<Longrightarrow>
     collectDirtyValues d vs p r = fold (\<lambda>q. obj_set (path_key p q) (value_at vs q)) (dirty_paths d) r"
  "starts_at p (map fst ds) \<Longrightarrow>
     collect_entries ds vs p r = fold (\<lambda>q. obj_set (path_key p q) (value_at vs q)) (dirty_entry_paths ds) r"
proof (induction d vs p r and ds vs p r rule: collectDirtyValues_collect_entries.induct)
  case (4 k d ds vs p r)
  let ?n = "next_key p k"
  have key: "path_key (Some ?n) q = path_key p (k # q)" "?n \<noteq> []" for q
    using path_key_next [of p k "map fst ds" q] 4(3) by auto
  have one: "(case d of Dirty b \<Rightarrow> if b then obj_set ?n (js_member vs k) r else r
       | DirtyNode _ \<Rightarrow> collectDirtyValues d (js_member vs k) (Some ?n) r) =
      fold (\<lambda>q. obj_set (path_key p q) (value_at vs q)) (map (Cons k) (dirty_paths d)) r"
  proof (cases d)
    case (Dirty b)
    then show ?thesis using key(1) [of "[]"] by (simp add: path_key_def)
  next
    case (DirtyNode es)
    have "starts_at (Some ?n) []" using key(2) by (simp add: starts_at_def)
    then show ?thesis using 4(1) [OF DirtyNode] DirtyNode by (simp add: fold_map_arg key(1))
  qed
  show ?case using 4(2) starts_at_tail [of p k "map fst ds"] 4(3) by (simp add: one)
qed (auto simp: path_key_def starts_at_def)

subsection \<open>Reading and writing leaves\<close>

lemma leaf_entries_mem:
  "(q, w) \<in> set (leaf_entries kvs) \<longleftrightarrow> (\<exists>k v q'. (k, v) \<in> set kvs \<and> q = k # q' \<and> (q', w) \<in> set (leaves v))"
  by (induction kvs) (auto, blast+)

lemma leaf_here: "([], w) \<in> set (leaves v) \<longleftrightarrow> v = w \<and> \<not> is_plain_object v"
  by (cases v) (auto simp: is_plain_object_def leaf_entries_mem)

lemma leaf_below:
  "tree_wf v \<Longrightarrow> (k # q, w) \<in> set (leaves v) \<longleftrightarrow> (\<exists>kvs u. v = JObj kvs \<and> obj_get k kvs = Some u \<and> (q, w) \<in> set (leaves u))"
  by (cases v) (auto simp: leaf_entries_mem obj_get_def map_of_eq_Some_iff)

lemma tree_wf_get: "tree_wf (JObj kvs) \<Longrightarrow> obj_get k kvs = Some u \<Longrightarrow> tree_wf u \<and> CHR ''.'' \<notin> set k"
  by (force simp: obj_get_def dest: map_of_SomeD)

lemma leaf_value: "tree_wf v \<Longrightarrow> (q, w) \<in> set (leaves v) \<Longrightarrow> value_at (Some v) q = Some w \<and> list_all (\<lambda>s. CHR ''.'' \<notin> set s) q \<and> \<not> is_plain_object w"
proof (induction q arbitrary: v)
  case (Cons k q)
  then obtain kvs u where "v = JObj kvs" "obj_get k kvs = Some u" "(q, w) \<in> set (leaves u)" by (auto simp: leaf_below)
  then show ?case using Cons.IH [of u] Cons.prems(1) tree_wf_get [of kvs k u] by (auto simp: js_member_def)
qed (auto simp: leaf_here)

lemma path_key_inj:
  assumes "js_join ''.'' q = js_join ''.'' q'" "q \<noteq> []" "q' \<noteq> []"
    "list_all (\<lambda>s. CHR ''.'' \<notin> set s) q" "list_all (\<lambda>s. CHR ''.'' \<notin> set s) q'"
  shows "q = q'"
proof -
  have "split_on CHR ''.'' (js_join ''.'' x) = x" if "x \<noteq> []" "list_all (\<lambda>s. CHR ''.'' \<notin> set s) x" for x
    using that split_on_join [of x "CHR ''.''"] by (simp add: list_all_iff)
  then show ?thesis using assms by metis
qed

lemma leaf_nonempty: "(q, w) \<in> set (leaves (JObj kvs)) \<Longrightarrow> q \<noteq> []"
  by (auto simp: leaf_entries_mem)

lemma flatten_root:
  "[] \<notin> set (map fst kvs) \<Longrightarrow> flattenValues (JObj kvs) None [] = fold (\<lambda>x. obj_set (js_join ''.'' (fst x)) (snd x)) (leaves (JObj kvs)) []"
  using flatten_as_fold(2) [of None kvs "[]"] by (simp add: starts_at_def path_key_def split_def)

lemma flatten_get:
  assumes "tree_wf (JObj kvs)" "[] \<notin> set (map fst kvs)"
  shows "(q, w) \<in> set (leaves (JObj kvs)) \<Longrightarrow> obj_get (js_join ''.'' q) (flattenValues (JObj kvs) None []) = Some w"
    and "obj_get k (flattenValues (JObj kvs) None []) = Some w \<Longrightarrow> \<exists>q. k = js_join ''.'' q \<and> (q, w) \<in> set (leaves (JObj kvs))"
proof -
  show "obj_get (js_join ''.'' q) (flattenValues (JObj kvs) None []) = Some w" if m: "(q, w) \<in> set (leaves (JObj kvs))"
  proof -
    have "snd y = w" if y: "y \<in> set (leaves (JObj kvs))" "js_join ''.'' (fst y) = js_join ''.'' q" for y
    proof -
      have y': "(fst y, snd y) \<in> set (leaves (JObj kvs))" using y by simp
      have "fst y = q" using path_key_inj [OF y(2) leaf_nonempty [OF y'] leaf_nonempty [OF m]]
          leaf_value [OF assms(1) y'] leaf_value [OF assms(1) m] by blast
      then show ?thesis using leaf_value [OF assms(1) y'] leaf_value [OF assms(1) m] by simp
    qed
    then show ?thesis unfolding flatten_root [OF assms(2)]
      using fold_set_in [OF m, of "\<lambda>x. js_join ''.'' (fst x)" snd "[]"] by simp
  qed
  show "\<exists>q. k = js_join ''.'' q \<and> (q, w) \<in> set (leaves (JObj kvs))" if "obj_get k (flattenValues (JObj kvs) None []) = Some w"
    using fold_set_mem [OF that [unfolded flatten_root [OF assms(2)]]] by (force simp: obj_get_def)
qed

lemma set_obj_set: "set (obj_set k v ob) \<subseteq> insert (k, v) (set ob)"
  by (auto simp: obj_set_def Let_def dest: set_takeWhileD set_dropWhileD split: if_splits)

lemma tree_wf_set: "tree_wf (JObj ob) \<Longrightarrow> CHR ''.'' \<notin> set k \<Longrightarrow> tree_wf u \<Longrightarrow> tree_wf (JObj (obj_set k u ob))"
  using set_obj_set [of k u ob] obj_wf_set [of ob k u] by (auto simp: obj_wf_def)

lemma leaf_set:
  assumes "tree_wf (JObj ob)" "CHR ''.'' \<notin> set k" "tree_wf u"
  shows "(x, w) \<in> set (leaves (JObj (obj_set k u ob))) \<longleftrightarrow>
     (\<exists>q. x = k # q \<and> (q, w) \<in> set (leaves u)) \<or> (x, w) \<in> set (leaves (JObj ob)) \<and> hd x \<noteq> k"
proof (cases x)
  case Nil
  then show ?thesis using leaf_nonempty [of "[]" w] by blast
next
  case (Cons j q)
  then show ?thesis
    using leaf_below [OF tree_wf_set [OF assms], of j q w] leaf_below [OF assms(1), of j q w] by (auto simp: obj_get_set)
qed

definition free_of :: "jsstr list \<Rightarrow> json obj \<Rightarrow> bool" where
  \<comment> \<open>no leaf lies above or below the path\<close>
  "free_of p ob \<longleftrightarrow> (\<forall>q w. (q, w) \<in> set (leaves (JObj ob)) \<longrightarrow> \<not> prefix q p \<and> \<not> prefix p q)"

lemma set_deep_leaves:
  "tree_wf (JObj ob) \<Longrightarrow> p \<noteq> [] \<Longrightarrow> list_all (\<lambda>s. CHR ''.'' \<notin> set s) p \<Longrightarrow> \<not> is_plain_object v \<Longrightarrow> free_of p ob \<Longrightarrow>
   tree_wf (JObj (set_deep p v ob)) \<and> set (leaves (JObj (set_deep p v ob))) = insert (p, v) (set (leaves (JObj ob)))"
proof (induction p v ob rule: set_deep.induct)
  case (2 s v ob)
  have tv: "tree_wf v" using 2(4) by (cases v) (auto simp: is_plain_object_def)
  have d: "CHR ''.'' \<notin> set s" using 2(3) by simp
  have "hd x \<noteq> s" if m: "(x, w) \<in> set (leaves (JObj ob))" for x w
    using 2(5) m leaf_nonempty [OF m] by (cases x) (auto simp: free_of_def)
  then have "(x, w) \<in> set (leaves (JObj (obj_set s v ob))) \<longleftrightarrow> (x, w) = ([s], v) \<or> (x, w) \<in> set (leaves (JObj ob))" for x w
    unfolding leaf_set [OF 2(1) d tv] using leaves_no_object [OF 2(4)] by auto
  then show ?case using tree_wf_set [OF 2(1) d tv] by auto
next
  case (3 s s2 ss v ob)
  define sub where "sub = (case obj_get s ob of Some (JObj n) \<Rightarrow> n | _ \<Rightarrow> [])"
  let ?new = "set_deep (s2 # ss) v sub"
  have "\<not> (\<exists>u. obj_get s ob = Some u \<and> \<not> is_plain_object u)"
  proof
    assume "\<exists>u. obj_get s ob = Some u \<and> \<not> is_plain_object u"
    then obtain u where "([s], u) \<in> set (leaves (JObj ob))" using leaf_below [OF "3.prems"(1), of s "[]"] leaf_here by blast
    then show False using "3.prems"(5) by (auto simp: free_of_def)
  qed
  then have get: "obj_get s ob = None \<and> sub = [] \<or> obj_get s ob = Some (JObj sub)"
  proof (cases "obj_get s ob")
    case (Some u)
    with \<open>\<not> (\<exists>u. obj_get s ob = Some u \<and> \<not> is_plain_object u)\<close> have "is_plain_object u" by blast
    then show ?thesis using Some by (cases u) (simp_all add: sub_def is_plain_object_def)
  qed (simp add: sub_def)
  have step: "set_deep (s # s2 # ss) v ob = obj_set s (JObj ?new) ob" using get by auto
  have d: "CHR ''.'' \<notin> set s" using "3.prems"(3) by simp
  have below: "(s # q, w) \<in> set (leaves (JObj ob)) \<longleftrightarrow> (q, w) \<in> set (leaves (JObj sub))" for q w
    using leaf_below [OF "3.prems"(1), of s q w] get by auto
  have wf: "tree_wf (JObj sub)" using get "3.prems"(1) tree_wf_get [of ob s "JObj sub"] by auto
  have free: "free_of (s2 # ss) sub" using "3.prems"(5) below unfolding free_of_def by (metis Cons_prefix_Cons)
  have IH: "tree_wf (JObj ?new) \<and> set (leaves (JObj ?new)) = insert (s2 # ss, v) (set (leaves (JObj sub)))"
    using get
  proof
    assume n: "obj_get s ob = None \<and> sub = []"
    then show ?thesis using "3.IH"(1) wf free "3.prems"(3,4) by simp
  next
    assume o: "obj_get s ob = Some (JObj sub)"
    then show ?thesis using "3.IH"(7) [OF o refl wf] free "3.prems"(3,4) by simp
  qed
  then have "(x, w) \<in> set (leaves (JObj (obj_set s (JObj ?new) ob))) \<longleftrightarrow> (x, w) = (s # s2 # ss, v) \<or> (x, w) \<in> set (leaves (JObj ob))" for x w
    using leaf_set [OF "3.prems"(1) d, of "JObj ?new" x w] below leaf_nonempty [of x w ob] by (cases x) auto
  then have "set (leaves (JObj (obj_set s (JObj ?new) ob))) = insert (s # s2 # ss, v) (set (leaves (JObj ob)))" by auto
  then show ?case unfolding step using tree_wf_set [OF "3.prems"(1) d, of "JObj ?new"] IH by blast
qed simp

subsection \<open>The options of the server\<close>

definition flat_options :: "json obj \<Rightarrow> bool" where
  \<comment> \<open>distinct dotted names, none of which is a path above another, with values that are no objects\<close>
  "flat_options opts \<longleftrightarrow> distinct (map fst opts) \<and>
     list_all (\<lambda>(k, v). k \<noteq> [] \<and> hd k \<noteq> CHR ''.'' \<and> \<not> is_plain_object v) opts \<and>
     list_all (\<lambda>k. list_all (\<lambda>j. k = j \<or> \<not> prefix (split_on CHR ''.'' k) (split_on CHR ''.'' j)) (map fst opts)) (map fst opts)"

lemma expand_flat:
  "list_all (\<lambda>(k, v). \<not> is_plain_object v) opts \<Longrightarrow>
   expand_entries opts r = fold (\<lambda>(k, v). set_deep (split_on CHR ''.'' k) v) opts r"
  by (induction opts arbitrary: r) (auto simp: setDeepValue_def)

lemma set_deep_keys: "fst ` set (set_deep (s # ss) v ob) \<subseteq> insert s (fst ` set ob)"
proof (cases ss)
  case Nil
  then show ?thesis using set_obj_set [of s v ob] by auto
next
  case (Cons s2 ss')
  have "fst ` set (obj_set s u ob) \<subseteq> insert s (fst ` set ob)" for u using set_obj_set [of s u ob] by auto
  then show ?thesis unfolding Cons by (simp split: option.splits json.splits)
qed

lemma head_segment: "k \<noteq> [] \<Longrightarrow> hd k \<noteq> CHR ''.'' \<Longrightarrow> \<exists>s ss. split_on CHR ''.'' k = s # ss \<and> s \<noteq> []"
  by (cases k) (auto split: list.splits)

lemma expand_leaves:
  "flat_options opts \<Longrightarrow>
   (let ob = fold (\<lambda>(k, v). set_deep (split_on CHR ''.'' k) v) opts [] in
    tree_wf (JObj ob) \<and> [] \<notin> set (map fst ob) \<and> set (leaves (JObj ob)) = (\<lambda>(k, v). (split_on CHR ''.'' k, v)) ` set opts)"
proof (induction opts rule: rev_induct)
  case (snoc x xs)
  obtain k v where x: "x = (k, v)" by fastforce
  define ob where "ob = fold (\<lambda>(k, v). set_deep (split_on CHR ''.'' k) v) xs []"
  have "flat_options xs" using snoc.prems by (auto simp: flat_options_def list_all_iff)
  then have IH: "tree_wf (JObj ob)" "[] \<notin> set (map fst ob)" "set (leaves (JObj ob)) = (\<lambda>(k, v). (split_on CHR ''.'' k, v)) ` set xs"
    using snoc.IH by (auto simp: ob_def Let_def)
  have k: "k \<noteq> []" "hd k \<noteq> CHR ''.''" "\<not> is_plain_object v" "k \<notin> fst ` set xs"
    using snoc.prems by (auto simp: flat_options_def x)
  obtain s ss where s: "split_on CHR ''.'' k = s # ss" "s \<noteq> []" using head_segment [OF k(1,2)] by blast
  have dots: "list_all (\<lambda>s. CHR ''.'' \<notin> set s) (split_on CHR ''.'' k)" using split_on_parts by (auto simp: list_all_iff)
  have free: "free_of (split_on CHR ''.'' k) ob"
    unfolding free_of_def IH(3) using snoc.prems k(4) by (force simp: flat_options_def list_all_iff x)
  have "tree_wf (JObj (set_deep (split_on CHR ''.'' k) v ob)) \<and>
      set (leaves (JObj (set_deep (split_on CHR ''.'' k) v ob))) = insert (split_on CHR ''.'' k, v) (set (leaves (JObj ob)))"
    by (rule set_deep_leaves [OF IH(1) _ dots k(3) free]) (simp add: s)
  moreover have "[] \<notin> set (map fst (set_deep (split_on CHR ''.'' k) v ob))"
    using set_deep_keys [of s ss v ob] s IH(2) by auto
  ultimately show ?case unfolding x IH(3) by (auto simp: Let_def ob_def)
qed (simp add: flat_options_def)

text \<open>C25. The names of the server survive the form: flattening the expanded defaults gives every option back under its
  dotted name with its value, and no other name.\<close>

theorem settings_names_roundtrip:
  assumes "flat_options opts"
  shows "obj_get k (flattenValues (expandDotPaths (JObj opts)) None []) = obj_get k opts"
proof -
  let ?ob = "fold (\<lambda>(k, v). set_deep (split_on CHR ''.'' k) v) opts []"
  have e: "expandDotPaths (JObj opts) = JObj ?ob"
    using assms expand_flat [of opts "[]"] by (auto simp: flat_options_def list_all_iff)
  have ob: "tree_wf (JObj ?ob)" "[] \<notin> set (map fst ?ob)" "set (leaves (JObj ?ob)) = (\<lambda>(k, v). (split_on CHR ''.'' k, v)) ` set opts"
    using expand_leaves [OF assms] by (auto simp: Let_def)
  have wf: "obj_wf opts" using assms by (simp add: flat_options_def obj_wf_def)
  have "obj_get k (flattenValues (JObj ?ob) None []) = Some v \<longleftrightarrow> (k, v) \<in> set opts" for v
  proof
    assume "obj_get k (flattenValues (JObj ?ob) None []) = Some v"
    then show "(k, v) \<in> set opts" using flatten_get(2) [OF ob(1,2)] ob(3) by force
  next
    assume "(k, v) \<in> set opts"
    then have "(split_on CHR ''.'' k, v) \<in> set (leaves (JObj ?ob))" unfolding ob(3) by force
    then show "obj_get k (flattenValues (JObj ?ob) None []) = Some v" using flatten_get(1) [OF ob(1,2)] by fastforce
  qed
  then have "obj_get k (flattenValues (JObj ?ob) None []) = Some v \<longleftrightarrow> obj_get k opts = Some v" for v using wf_entry [OF wf] by simp
  then show ?thesis unfolding e by (metis not_None_eq)
qed

theorem settings_names_roundtrip_witness:
  "let opts = [(''QuotaForNewUser'', JNum (num 5)), (''general_setting.docs_link'', JStr ''/docs''), (''general_setting.ping'', JBool True)] in
   expandDotPaths (JObj opts) = JObj [(''QuotaForNewUser'', JNum (num 5)),
      (''general_setting'', JObj [(''docs_link'', JStr ''/docs''), (''ping'', JBool True)])] \<and>
   obj_get ''general_setting.ping'' (flattenValues (expandDotPaths (JObj opts)) None []) = Some (JBool True)"
proof -
  let ?opts = "[(''QuotaForNewUser'', JNum (num 5)), (''general_setting.docs_link'', JStr ''/docs''), (''general_setting.ping'', JBool True)]"
  have "flat_options ?opts" by code_simp
  from settings_names_roundtrip [OF this, of "''general_setting.ping''"]
  have "obj_get ''general_setting.ping'' (flattenValues (expandDotPaths (JObj ?opts)) None []) = Some (JBool True)"
    by (simp add: obj_get_def)
  moreover have "expandDotPaths (JObj ?opts) = JObj [(''QuotaForNewUser'', JNum (num 5)),
      (''general_setting'', JObj [(''docs_link'', JStr ''/docs''), (''ping'', JBool True)])]" by code_simp
  ultimately show ?thesis by simp
qed

subsection \<open>Submitting\<close>

definition marks_leaves :: "dirty \<Rightarrow> json \<Rightarrow> bool" where
  \<comment> \<open>the marks belong to fields of the data that are no objects\<close>
  "marks_leaves d data \<longleftrightarrow> list_all (\<lambda>q. q \<in> set (map fst (leaves data))) (dirty_paths d) \<and>
     (case d of DirtyNode ds \<Rightarrow> [] \<notin> set (map fst ds) | Dirty b \<Rightarrow> True)"

definition settings_tree :: "json \<Rightarrow> bool" where
  "settings_tree data \<longleftrightarrow> tree_wf data \<and> (case data of JObj kvs \<Rightarrow> [] \<notin> set (map fst kvs) | _ \<Rightarrow> False)"

lemma get_none: "obj_get k [] = None"
  by (simp add: obj_get_def)

lemma collect_root:
  assumes "marks_leaves d (JObj kvs)"
  shows "collectDirtyValues d (Some (JObj kvs)) None [] =
     fold (\<lambda>q. obj_set (js_join ''.'' q) (value_at (Some (JObj kvs)) q)) (dirty_paths d) []"
proof (cases d)
  case (Dirty b)
  have "\<not> b"
  proof
    assume b
    then obtain w where "([], w) \<in> set (leaves (JObj kvs))" using assms Dirty by (force simp: marks_leaves_def)
    then show False using leaf_nonempty by blast
  qed
  then show ?thesis using Dirty by simp
next
  case (DirtyNode ds)
  then have "starts_at None (map fst ds)" using assms by (simp add: marks_leaves_def starts_at_def)
  from collect_as_fold(2) [OF this] show ?thesis unfolding DirtyNode by (simp add: path_key_def)
qed

lemma collect_get:
  assumes "settings_tree (JObj kvs)" "marks_leaves d (JObj kvs)"
  shows "obj_get k (collectDirtyValues d (Some (JObj kvs)) None []) = Some v \<longleftrightarrow>
     (\<exists>q w. q \<in> set (dirty_paths d) \<and> (q, w) \<in> set (leaves (JObj kvs)) \<and> k = js_join ''.'' q \<and> v = Some w)"
proof -
  let ?D = "fold (\<lambda>q. obj_set (js_join ''.'' q) (value_at (Some (JObj kvs)) q)) (dirty_paths d) []"
  have wf: "tree_wf (JObj kvs)" using assms(1) by (simp add: settings_tree_def)
  have leaf: "\<exists>w. (q, w) \<in> set (leaves (JObj kvs))" if "q \<in> set (dirty_paths d)" for q
    using assms(2) that by (force simp: marks_leaves_def list_all_iff)
  have "obj_get (js_join ''.'' q) ?D = Some (value_at (Some (JObj kvs)) q)" if q: "q \<in> set (dirty_paths d)" for q
  proof (rule fold_set_in [OF q])
    fix y assume y: "y \<in> set (dirty_paths d)" "js_join ''.'' y = js_join ''.'' q"
    obtain w w' where w: "(q, w) \<in> set (leaves (JObj kvs))" "(y, w') \<in> set (leaves (JObj kvs))" using leaf q y(1) by blast
    have "y = q" using path_key_inj [OF y(2) leaf_nonempty [OF w(2)] leaf_nonempty [OF w(1)]]
        leaf_value [OF wf w(1)] leaf_value [OF wf w(2)] by blast
    then show "value_at (Some (JObj kvs)) y = value_at (Some (JObj kvs)) q" by simp
  qed
  then have "obj_get k ?D = Some v \<longleftrightarrow> (\<exists>q \<in> set (dirty_paths d). k = js_join ''.'' q \<and> v = value_at (Some (JObj kvs)) q)"
    using fold_set_mem [of k "js_join ''.''" "value_at (Some (JObj kvs))" "dirty_paths d" "[]" v] by (auto simp: obj_get_def)
  also have "\<dots> \<longleftrightarrow> (\<exists>q \<in> set (dirty_paths d). k = js_join ''.'' q \<and> (\<exists>w. (q, w) \<in> set (leaves (JObj kvs)) \<and> v = Some w))"
  proof (rule bex_cong [OF refl])
    fix q assume "q \<in> set (dirty_paths d)"
    then obtain w where w: "(q, w) \<in> set (leaves (JObj kvs))" using leaf by blast
    have val: "value_at (Some (JObj kvs)) q = Some w" using leaf_value [OF wf w] by blast
    have uniq: "w' = w" if "(q, w') \<in> set (leaves (JObj kvs))" for w' using leaf_value [OF wf w] leaf_value [OF wf that] by simp
    show "(k = js_join ''.'' q \<and> v = value_at (Some (JObj kvs)) q) \<longleftrightarrow>
        (k = js_join ''.'' q \<and> (\<exists>w. (q, w) \<in> set (leaves (JObj kvs)) \<and> v = Some w))"
      unfolding val using uniq w by blast
  qed
  finally show ?thesis unfolding collect_root [OF assms(2)] by blast
qed

lemma changed_iff:
  assumes "settings_tree data" "marks_leaves d data"
  shows "(k, v) \<in> set (changed_entries cmp d data s) \<longleftrightarrow>
     (\<exists>q w. q \<in> set (dirty_paths d) \<and> (q, w) \<in> set (leaves data) \<and> k = js_join ''.'' q \<and> v = Some w \<and>
        \<not> cmp (Some w) (obj_get k (sf_baseline s)))"
    and "obj_wf (changed_entries cmp d data s)"
proof -
  obtain kvs where data: "data = JObj kvs" using assms(1) by (cases data) (auto simp: settings_tree_def)
  have wf: "obj_wf (collectDirtyValues d (Some data) None [])"
    using assms(2) unfolding data by (simp add: collect_root fold_set_wf obj_wf_Nil)
  show "(k, v) \<in> set (changed_entries cmp d data s) \<longleftrightarrow>
     (\<exists>q w. q \<in> set (dirty_paths d) \<and> (q, w) \<in> set (leaves data) \<and> k = js_join ''.'' q \<and> v = Some w \<and>
        \<not> cmp (Some w) (obj_get k (sf_baseline s)))"
    using collect_get [OF assms [unfolded data], of k v] wf_entry [OF wf, of k v] unfolding changed_entries_def data by auto
  show "obj_wf (changed_entries cmp d data s)"
    using wf by (simp add: changed_entries_def obj_wf_def distinct_map_filter)
qed

lemma compare_refl: "w \<noteq> JNum NaN \<Longrightarrow> defaultCompare (Some w) (Some w)"
  by (cases w) (auto simp: defaultCompare_def strict_eq_def is_ref_def js_eq_def)

lemma baseline_settled:
  assumes "settings_tree data" "marks_leaves d data" "list_all (\<lambda>(q, w). w \<noteq> JNum NaN) (leaves data)"
  shows "changed_entries defaultCompare d data (settings_state data) = []"
proof -
  obtain kvs where data: "data = JObj kvs" using assms(1) by (cases data) (auto simp: settings_tree_def)
  have "defaultCompare (Some w) (obj_get (js_join ''.'' q) (sf_baseline (settings_state data)))" if "(q, w) \<in> set (leaves data)" for q w
  proof -
    have "obj_get (js_join ''.'' q) (sf_baseline (settings_state data)) = Some w"
      using flatten_get(1) [of kvs q w] that assms(1) by (simp add: data settings_state_def settings_tree_def Let_def)
    then show ?thesis using assms(3) that compare_refl by (auto simp: list_all_iff)
  qed
  then have "(k, v) \<notin> set (changed_entries defaultCompare d data (settings_state data))" for k v
    unfolding changed_iff(1) [OF assms(1,2)] by blast
  then show ?thesis by (metis list.set_intros(1) neq_Nil_conv surj_pair)
qed

text \<open>C7. A submission sends exactly the marked fields whose values differ from the saved ones, each under its dotted
  name with its new value, and tells the user when there are none. Once it was accepted, submitting the same data with any
  marks sends nothing.\<close>

theorem settings_submit_exact:
  assumes "settings_tree data" and "marks_leaves d data" and "list_all (\<lambda>(q, w). w \<noteq> JNum NaN) (leaves data)"
    and "(s', es) = settings_handleSubmit defaultCompare t d data accepted s"
  shows "(es = [ToastInfo (t ''No changes to save'')] \<and> s' = s \<and>
        (\<forall>q w. q \<in> set (dirty_paths d) \<and> (q, w) \<in> set (leaves data) \<longrightarrow> defaultCompare (Some w) (obj_get (js_join ''.'' q) (sf_baseline s)))) \<or>
     (\<exists>sent. es = OnSubmit data sent # (if accepted then [FormReset data] else []) \<and> sent \<noteq> [] \<and>
        (\<forall>k v. obj_get k sent = Some v \<longleftrightarrow>
           (\<exists>q w. q \<in> set (dirty_paths d) \<and> (q, w) \<in> set (leaves data) \<and> k = js_join ''.'' q \<and> v = Some w \<and>
              \<not> defaultCompare (Some w) (obj_get k (sf_baseline s)))) \<and>
        (if accepted then (\<forall>d2. marks_leaves d2 data \<longrightarrow>
            snd (settings_handleSubmit defaultCompare t d2 data True s') = [ToastInfo (t ''No changes to save'')])
         else s' = s))"
proof (cases "changed_entries defaultCompare d data s = []")
  case True
  then have "es = [ToastInfo (t ''No changes to save'')] \<and> s' = s" using assms(4) by (simp add: settings_handleSubmit_def)
  moreover have "defaultCompare (Some w) (obj_get (js_join ''.'' q) (sf_baseline s))" if "q \<in> set (dirty_paths d)" "(q, w) \<in> set (leaves data)" for q w
    using changed_iff(1) [OF assms(1,2), of "js_join ''.'' q" "Some w" defaultCompare s] True that by auto
  ultimately show ?thesis by blast
next
  case False
  let ?sent = "fold (\<lambda>(k, v). obj_set k v) (changed_entries defaultCompare d data s) []"
  note get = obj_get_rebuild [OF changed_iff(2) [OF assms(1,2), of defaultCompare s]]
  have "?sent \<noteq> []" using get False by (metis get_none list.set_intros(1) neq_Nil_conv option.distinct(1) surj_pair)
  moreover have "snd (settings_handleSubmit defaultCompare t d2 data True (settings_state data)) = [ToastInfo (t ''No changes to save'')]"
    if "marks_leaves d2 data" for d2
    using baseline_settled [OF assms(1) that assms(3)] by (simp add: settings_handleSubmit_def)
  moreover have "es = OnSubmit data ?sent # (if accepted then [FormReset data] else [])" "s' = (if accepted then settings_state data else s)"
    using assms(4) False by (auto simp: settings_handleSubmit_def Let_def split: if_splits)
  moreover have "\<forall>k v. obj_get k ?sent = Some v \<longleftrightarrow>
      (\<exists>q w. q \<in> set (dirty_paths d) \<and> (q, w) \<in> set (leaves data) \<and> k = js_join ''.'' q \<and> v = Some w \<and>
         \<not> defaultCompare (Some w) (obj_get k (sf_baseline s)))"
    unfolding get changed_iff(1) [OF assms(1,2)] by (rule allI, rule allI, rule refl)
  ultimately show ?thesis by (intro disjI2 exI [of _ ?sent]) auto
qed

theorem settings_submit_exact_witness:
  "let opts = [(''Quota'', JNum (num 5)), (''general.docs'', JStr ''/docs'')];
       data = JObj [(''Quota'', JNum (num 7)), (''general'', JObj [(''docs'', JStr ''/docs'')])];
       d = DirtyNode [(''Quota'', Dirty True), (''general'', DirtyNode [(''docs'', Dirty True)])];
       (s', es) = settings_handleSubmit defaultCompare (\<lambda>x. x) d data True (useSettingsForm (Some (JObj opts))) in
   es = [OnSubmit data [(''Quota'', Some (JNum (num 7)))], FormReset data] \<and>
   snd (settings_handleSubmit defaultCompare (\<lambda>x. x) d data True s') = [ToastInfo ''No changes to save'']"
proof -
  let ?opts = "[(''Quota'', JNum (num 5)), (''general.docs'', JStr ''/docs'')]"
  let ?data = "JObj [(''Quota'', JNum (num 7)), (''general'', JObj [(''docs'', JStr ''/docs'')])]"
  let ?d = "DirtyNode [(''Quota'', Dirty True), (''general'', DirtyNode [(''docs'', Dirty True)])]"
  let ?r = "settings_handleSubmit defaultCompare (\<lambda>x. x) ?d ?data True (useSettingsForm (Some (JObj ?opts)))"
  have w: "settings_tree ?data" "marks_leaves ?d ?data" "list_all (\<lambda>(q, w). w \<noteq> JNum NaN) (leaves ?data)" by code_simp+
  have e: "snd ?r = [OnSubmit ?data [(''Quota'', Some (JNum (num 7)))], FormReset ?data]" by code_simp
  have "(fst ?r, snd ?r) = ?r" by simp
  note settings_submit_exact [OF w this]
  then have "snd (settings_handleSubmit defaultCompare (\<lambda>x. x) ?d ?data True (fst ?r)) = [ToastInfo ''No changes to save'']"
    using w(2) unfolding e by auto
  then show ?thesis using e by (simp only: Let_def split_def)
qed

end
