(* ===== verification/Table_State.thy ===== *)
theory Table_State
  imports Pricing Js_Json
begin

section \<open>Filters and pages\<close>

text \<open>
  Model of \<^verbatim>\<open>hooks/use-table-url-state.ts\<close> (the page, the search text and the column filters of every table, kept in the
  address) and of \<^verbatim>\<open>features/pricing/hooks/use-filters.ts\<close> (the filters of the price page).

  The search parameters of the address are an object whose values may be \<open>undefined\<close>. The router is outside: navigating
  replaces the parameters, and a parameter of the model says whether the hook is then handed the same object as before, which
  decides if the effect on \<open>[search]\<close> runs.

  Shown: what a table is told to filter by and to show is what the address says afterwards; every filter of the price page
  is the last choice of the user, whatever else was chosen.
\<close>

subsection \<open>The state of a table in the address\<close>

type_synonym search = "json option obj"

definition search_get :: "jsstr \<Rightarrow> search \<Rightarrow> json option" where
  "search_get k s = (case obj_get k s of Some v \<Rightarrow> v | None \<Rightarrow> None)"

record ColumnFilter =
  cf_columnId :: jsstr
  cf_searchKey :: jsstr
  cf_string :: bool \<comment> \<open>\<open>type === 'string'\<close>\<close>
  cf_serialize :: "json \<Rightarrow> json"
  cf_deserialize :: "json option \<Rightarrow> json option"

record TableConfig =
  tc_pageKey :: jsstr
  tc_pageSizeKey :: jsstr
  tc_defaultPage :: jsnum
  tc_defaultPageSize :: jsnum
  tc_filterKey :: jsstr
  tc_filterEnabled :: bool
  tc_trim :: bool
  tc_columns :: "ColumnFilter list"
  tc_same :: "search \<Rightarrow> search \<Rightarrow> bool" \<comment> \<open>the router: the object after navigating is the one before\<close>

definition search_same :: "search \<Rightarrow> search \<Rightarrow> bool" where
  \<comment> \<open>a router that keeps its object while no parameter changes\<close>
  "search_same s s' = list_all (\<lambda>k. search_get k s = search_get k s') (map fst s @ map fst s')"

definition table_defaults :: TableConfig where
  "table_defaults = \<lparr>tc_pageKey = ''page'', tc_pageSizeKey = ''pageSize'', tc_defaultPage = num 1, tc_defaultPageSize = num 20,
     tc_filterKey = ''filter'', tc_filterEnabled = True, tc_trim = True, tc_columns = [], tc_same = search_same\<rparr>"

definition shown_filter :: "ColumnFilter \<Rightarrow> json option \<Rightarrow> json option" where
  \<comment> \<open>a text that is not blank or a list that is not empty, by the type of the column\<close>
  "shown_filter c v = (if cf_string c
     then (case v of Some (JStr s) \<Rightarrow> if js_trim s \<noteq> [] then Some (JStr s) else None | _ \<Rightarrow> None)
     else (case v of Some (JArr vs) \<Rightarrow> if vs \<noteq> [] then Some (JArr vs) else None | _ \<Rightarrow> None))"

definition initialColumnFilters :: "TableConfig \<Rightarrow> search \<Rightarrow> (jsstr \<times> json) list" where
  "initialColumnFilters cfg s =
     List.map_filter (\<lambda>c. map_option (Pair (cf_columnId c)) (shown_filter c (cf_deserialize c (search_get (cf_searchKey c) s)))) (tc_columns cfg)"

definition num_param :: "jsstr \<Rightarrow> jsnum \<Rightarrow> search \<Rightarrow> jsnum" where
  "num_param k d s = (case search_get k s of Some (JNum x) \<Rightarrow> x | _ \<Rightarrow> d)"

definition table_pagination :: "TableConfig \<Rightarrow> search \<Rightarrow> jsnum \<times> jsnum" where
  "table_pagination cfg s =
     (js_max (num 0) (js_sub (num_param (tc_pageKey cfg) (tc_defaultPage cfg) s) (num 1)),
      num_param (tc_pageSizeKey cfg) (tc_defaultPageSize cfg) s)"

record Table =
  tb_search :: search
  tb_columnFilters :: "(jsstr \<times> json) list"
  tb_globalFilter :: "jsstr option"

definition initial_table :: "TableConfig \<Rightarrow> search \<Rightarrow> Table" where
  "initial_table cfg s = \<lparr>tb_search = s, tb_columnFilters = initialColumnFilters cfg s,
     tb_globalFilter = (if \<not> tc_filterEnabled cfg then None
       else Some (case search_get (tc_filterKey cfg) s of Some (JStr x) \<Rightarrow> x | _ \<Rightarrow> ''''))\<rparr>"

definition navigated :: "TableConfig \<Rightarrow> search \<Rightarrow> Table \<Rightarrow> Table" where
  \<comment> \<open>new search parameters, with the effect on \<open>[search]\<close>, which does not run when the object is the same\<close>
  "navigated cfg s tb = tb\<lparr>tb_search := s,
     tb_columnFilters := (if tc_same cfg (tb_search tb) s then tb_columnFilters tb else initialColumnFilters cfg s)\<rparr>"

definition onPaginationChange :: "TableConfig \<Rightarrow> (jsnum \<times> jsnum \<Rightarrow> jsnum \<times> jsnum) \<Rightarrow> Table \<Rightarrow> Table" where
  "onPaginationChange cfg updater tb =
     (let (pageIndex, pageSize) = updater (table_pagination cfg (tb_search tb));
          nextPage = js_add pageIndex (num 1) in
      navigated cfg
        (obj_set (tc_pageSizeKey cfg) (if js_eq pageSize (tc_defaultPageSize cfg) then None else Some (JNum pageSize))
          (obj_set (tc_pageKey cfg) (if js_le nextPage (tc_defaultPage cfg) then None else Some (JNum nextPage)) (tb_search tb))) tb)"

definition onGlobalFilterChange :: "TableConfig \<Rightarrow> (jsstr \<Rightarrow> jsstr) \<Rightarrow> Table \<Rightarrow> Table" where
  "onGlobalFilterChange cfg updater tb =
     (if \<not> tc_filterEnabled cfg then tb
      else (let nxt = updater (case tb_globalFilter tb of Some g \<Rightarrow> g | None \<Rightarrow> '''');
                v = (if tc_trim cfg then js_trim nxt else nxt) in
            navigated cfg
              (obj_set (tc_filterKey cfg) (if v \<noteq> [] then Some (JStr v) else None) (obj_set (tc_pageKey cfg) None (tb_search tb)))
              (tb\<lparr>tb_globalFilter := Some v\<rparr>)))"

definition filter_patch :: "ColumnFilter \<Rightarrow> (jsstr \<times> json) list \<Rightarrow> json option" where
  "filter_patch c next = map_option (cf_serialize c) (shown_filter c (map_option snd (find (\<lambda>f. fst f = cf_columnId c) next)))"

definition onColumnFiltersChange :: "TableConfig \<Rightarrow> ((jsstr \<times> json) list \<Rightarrow> (jsstr \<times> json) list) \<Rightarrow> Table \<Rightarrow> Table" where
  "onColumnFiltersChange cfg updater tb =
     (let next = updater (tb_columnFilters tb);
          patch = fold (\<lambda>c. obj_set (cf_searchKey c) (filter_patch c next)) (tc_columns cfg) [] in
      navigated cfg (fold (\<lambda>(k, v). obj_set k v) patch (obj_set (tc_pageKey cfg) None (tb_search tb)))
        (tb\<lparr>tb_columnFilters := next\<rparr>))"

definition ensurePageInRange :: "TableConfig \<Rightarrow> jsnum \<Rightarrow> bool \<Rightarrow> Table \<Rightarrow> Table" where
  "ensurePageInRange cfg pageCount toLast tb =
     (if js_lt (num 0) pageCount \<and> js_lt pageCount (num_param (tc_pageKey cfg) (tc_defaultPage cfg) (tb_search tb))
      then navigated cfg (obj_set (tc_pageKey cfg) (if toLast then Some (JNum pageCount) else None) (tb_search tb)) tb
      else tb)"

lemma search_get_set [simp]: "search_get j (obj_set k v s) = (if j = k then v else search_get j s)"
  by (simp add: search_get_def obj_get_set)

text \<open>A page that was chosen is the page that is shown, and the size too.\<close>

lemma page_shown:
  assumes "tc_defaultPage cfg = num 1" "tc_pageKey cfg \<noteq> tc_pageSizeKey cfg" "0 \<le> n" "n < 2 ^ 53"
  shows "table_pagination cfg (tb_search (onPaginationChange cfg (\<lambda>_. (num n, sz)) tb)) = (num n, sz)"
proof -
  have add: "js_add (num n) (num 1) = num (n + 1)" using js_add_int [of n 1] assms by simp
  have sub: "js_sub (num (n + 1)) (num 1) = num n" using js_add_int [of "n + 1" "-1"] assms by (simp add: js_sub_def)
  have page: "js_max (num 0) (js_sub (if js_le (num (n + 1)) (num 1) then num 1 else num (n + 1)) (num 1)) = num n"
  proof (cases "n = 0")
    case True
    then show ?thesis using js_add_int [of 1 "-1"] by (simp add: js_sub_def js_le_def js_eq_def js_max_def)
  next
    case False
    then have "\<not> js_le (num (n + 1)) (num 1)" using assms(3) by (simp add: js_le_def js_eq_def)
    then show ?thesis using sub assms(3) by (simp add: js_max_def)
  qed
  show ?thesis using assms(1,2) add page
    by (auto simp: table_pagination_def onPaginationChange_def navigated_def num_param_def js_eq_def Let_def split: if_splits)
qed

definition table_ok :: "TableConfig \<Rightarrow> bool" where
  \<comment> \<open>the configurations of the console: page 1 first, one key per purpose, one entry per column\<close>
  "table_ok cfg \<longleftrightarrow> tc_defaultPage cfg = num 1 \<and> distinct (map cf_columnId (tc_columns cfg)) \<and>
     distinct (tc_pageKey cfg # tc_pageSizeKey cfg # tc_filterKey cfg # map cf_searchKey (tc_columns cfg))"

definition router_ok :: "TableConfig \<Rightarrow> bool" where
  \<comment> \<open>objects with different parameters are not the same object\<close>
  "router_ok cfg \<longleftrightarrow> (\<forall>s s' k. tc_same cfg s s' \<longrightarrow> search_get k s = search_get k s')"

definition codec_ok :: "TableConfig \<Rightarrow> bool" where
  "codec_ok cfg \<longleftrightarrow> (\<forall>c \<in> set (tc_columns cfg). cf_deserialize c None = None \<and>
     (\<forall>v. shown_filter c (cf_deserialize c (Some (cf_serialize c v))) = shown_filter c (Some v)))"

definition chosen_filters :: "TableConfig \<Rightarrow> (jsstr \<times> json) list \<Rightarrow> (jsstr \<times> json) list" where
  \<comment> \<open>what a table can show of a list of filters: one per configured column, if it is not blank\<close>
  "chosen_filters cfg next = List.map_filter (\<lambda>c. map_option (Pair (cf_columnId c))
     (shown_filter c (map_option snd (find (\<lambda>f. fst f = cf_columnId c) next)))) (tc_columns cfg)"

lemma shown_twice: "shown_filter c (shown_filter c v) = shown_filter c v"
proof (cases v)
  case (Some w)
  then show ?thesis by (cases w) (simp_all add: shown_filter_def)
qed (simp add: shown_filter_def)

lemma shown_none: "shown_filter c None = None"
  by (simp add: shown_filter_def)

lemma map_filter_cong_list: "(\<And>x. x \<in> set xs \<Longrightarrow> f x = g x) \<Longrightarrow> List.map_filter f xs = List.map_filter g xs"
  by (induction xs) (auto simp: List.map_filter_simps split: option.splits)

lemma fold_entries_get:
  "obj_wf patch \<Longrightarrow> obj_get k (fold (\<lambda>(k, v). obj_set k v) patch r) = (case obj_get k patch of Some v \<Rightarrow> Some v | None \<Rightarrow> obj_get k r)"
proof (induction patch arbitrary: r)
  case (Cons p ps)
  obtain j v where p: "p = (j, v)" by fastforce
  then have "obj_wf ps" "obj_get j ps = None" using Cons.prems by (auto simp: obj_wf_def obj_get_def map_of_eq_None_iff)
  moreover have "obj_get k (p # ps) = (if k = j then Some v else obj_get k ps)" by (simp add: obj_get_def p)
  ultimately show ?case using Cons.IH [of "obj_set j v r"] p by (auto simp: obj_get_set split: option.splits)
qed (simp add: obj_get_def)

lemma patch_get:
  assumes "distinct (map cf_searchKey cs)"
  shows "obj_get k (fold (\<lambda>c. obj_set (cf_searchKey c) (filter_patch c next)) cs []) =
     map_option (\<lambda>c. filter_patch c next) (find (\<lambda>c. cf_searchKey c = k) cs)"
proof (cases "find (\<lambda>c. cf_searchKey c = k) cs")
  case None
  then have n: "\<forall>c \<in> set cs. cf_searchKey c \<noteq> k" by (simp add: find_None_iff)
  have "obj_get k (fold (\<lambda>c. obj_set (cf_searchKey c) (filter_patch c next)) cs []) \<noteq> Some z" for z
  proof
    assume "obj_get k (fold (\<lambda>c. obj_set (cf_searchKey c) (filter_patch c next)) cs []) = Some z"
    from fold_set_mem [OF this] n show False by (auto simp: obj_get_def)
  qed
  then have "obj_get k (fold (\<lambda>c. obj_set (cf_searchKey c) (filter_patch c next)) cs []) = None" by (rule not_Some_eq [THEN iffD1, OF allI])
  then show ?thesis using None by simp
next
  case (Some c)
  then have c: "c \<in> set cs" "cf_searchKey c = k" by (auto simp: find_Some_iff)
  have "obj_get (cf_searchKey c) (fold (\<lambda>c. obj_set (cf_searchKey c) (filter_patch c next)) cs []) = Some (filter_patch c next)"
  proof (rule fold_set_in [OF c(1)])
    fix d assume "d \<in> set cs" "cf_searchKey d = cf_searchKey c"
    then have "d = c" using assms c(1) by (auto simp: distinct_map dest: inj_onD)
    then show "filter_patch d next = filter_patch c next" by simp
  qed
  then show ?thesis using Some c(2) by simp
qed

lemma filters_shown:
  assumes "table_ok cfg" "codec_ok cfg"
  shows "initialColumnFilters cfg (tb_search (onColumnFiltersChange cfg (\<lambda>_. next) tb)) = chosen_filters cfg next"
    and "search_get k (tb_search (onColumnFiltersChange cfg (\<lambda>_. next) tb)) =
       (case find (\<lambda>c. cf_searchKey c = k) (tc_columns cfg) of Some c \<Rightarrow> filter_patch c next
        | None \<Rightarrow> if k = tc_pageKey cfg then None else search_get k (tb_search tb))"
proof -
  have d: "distinct (map cf_searchKey (tc_columns cfg))" using assms(1) by (simp add: table_ok_def)
  define patch where "patch = fold (\<lambda>c. obj_set (cf_searchKey c) (filter_patch c next)) (tc_columns cfg) []"
  have wf: "obj_wf patch" unfolding patch_def by (rule fold_set_wf [OF obj_wf_Nil])
  show get: "search_get k (tb_search (onColumnFiltersChange cfg (\<lambda>_. next) tb)) =
       (case find (\<lambda>c. cf_searchKey c = k) (tc_columns cfg) of Some c \<Rightarrow> filter_patch c next
        | None \<Rightarrow> if k = tc_pageKey cfg then None else search_get k (tb_search tb))" for k
    using fold_entries_get [OF wf, of k] patch_get [OF d, of k "next"]
    by (simp add: onColumnFiltersChange_def navigated_def search_get_def Let_def patch_def [symmetric] obj_get_set split: option.split)
  have "shown_filter c (cf_deserialize c (search_get (cf_searchKey c) (tb_search (onColumnFiltersChange cfg (\<lambda>_. next) tb)))) =
      shown_filter c (map_option snd (find (\<lambda>f. fst f = cf_columnId c) next))" if c: "c \<in> set (tc_columns cfg)" for c
  proof -
    have "find (\<lambda>x. cf_searchKey x = cf_searchKey c) (tc_columns cfg) = Some c"
    proof (cases "find (\<lambda>x. cf_searchKey x = cf_searchKey c) (tc_columns cfg)")
      case (Some b)
      then have "b \<in> set (tc_columns cfg)" "cf_searchKey b = cf_searchKey c" by (auto simp: find_Some_iff)
      then show ?thesis using Some d c by (metis distinct_map inj_onD)
    qed (use c in \<open>auto simp: find_None_iff\<close>)
    then show ?thesis unfolding get using assms(2) c shown_twice [of c "map_option snd (find (\<lambda>f. fst f = cf_columnId c) next)"] shown_none
      by (cases "shown_filter c (map_option snd (find (\<lambda>f. fst f = cf_columnId c) next))") (auto simp: filter_patch_def codec_ok_def)
  qed
  then show "initialColumnFilters cfg (tb_search (onColumnFiltersChange cfg (\<lambda>_. next) tb)) = chosen_filters cfg next"
    unfolding chosen_filters_def initialColumnFilters_def by (intro map_filter_cong_list) simp
qed

datatype table_action = Paginate jsnum jsnum | SearchText jsstr | FilterBy "(jsstr \<times> json) list" | InRange jsnum bool

fun table_act :: "TableConfig \<Rightarrow> table_action \<Rightarrow> Table \<Rightarrow> Table" where
  "table_act cfg (Paginate i z) tb = onPaginationChange cfg (\<lambda>_. (i, z)) tb"
| "table_act cfg (SearchText x) tb = onGlobalFilterChange cfg (\<lambda>_. x) tb"
| "table_act cfg (FilterBy next) tb = onColumnFiltersChange cfg (\<lambda>_. next) tb"
| "table_act cfg (InRange n toLast) tb = ensurePageInRange cfg n toLast tb"

definition search_text :: "TableConfig \<Rightarrow> search \<Rightarrow> jsstr option" where
  "search_text cfg s = (if \<not> tc_filterEnabled cfg then None else Some (case search_get (tc_filterKey cfg) s of Some (JStr x) \<Rightarrow> x | _ \<Rightarrow> ''''))"

definition table_synced :: "TableConfig \<Rightarrow> Table \<Rightarrow> bool" where
  "table_synced cfg tb \<longleftrightarrow> chosen_filters cfg (tb_columnFilters tb) = initialColumnFilters cfg (tb_search tb) \<and>
     tb_globalFilter tb = search_text cfg (tb_search tb)"

lemma synced_reload:
  "table_synced cfg tb \<Longrightarrow> initial_table cfg (tb_search tb) = tb\<lparr>tb_columnFilters := chosen_filters cfg (tb_columnFilters tb)\<rparr>"
  by (cases tb) (auto simp: table_synced_def initial_table_def search_text_def)

lemma find_filter:
  assumes "distinct (map f cs)" "c \<in> set cs"
  shows "map_option snd (find (\<lambda>x. fst x = f c) (List.map_filter (\<lambda>c. map_option (Pair (f c)) (g c)) cs)) = g c"
  using assms
proof (induction cs)
  case (Cons d cs)
  have none: "f c \<notin> f ` set cs \<Longrightarrow> find (\<lambda>x. fst x = f c) (List.map_filter (\<lambda>c. map_option (Pair (f c)) (g c)) cs) = None" for c
    by (induction cs) (auto simp: List.map_filter_simps split: option.splits)
  show ?case
  proof (cases "c = d")
    case True
    then show ?thesis using Cons.prems none [of d] by (cases "g d") (simp_all add: List.map_filter_simps)
  next
    case False
    then have "c \<in> set cs" using Cons.prems(2) by simp
    moreover have "f d \<noteq> f c" using Cons.prems(1) \<open>c \<in> set cs\<close> by force
    ultimately show ?thesis using Cons by (cases "g d") (simp_all add: List.map_filter_simps)
  qed
qed simp

lemma chosen_initial: "table_ok cfg \<Longrightarrow> chosen_filters cfg (initialColumnFilters cfg s) = initialColumnFilters cfg s"
  unfolding chosen_filters_def initialColumnFilters_def table_ok_def
  by (intro map_filter_cong_list, elim conjE, subst find_filter [where f = cf_columnId], assumption, assumption) (simp add: shown_twice)

lemma initial_filters_cong: "(\<And>k. search_get k s = search_get k s') \<Longrightarrow> initialColumnFilters cfg s = initialColumnFilters cfg s'"
  by (simp add: initialColumnFilters_def)

lemma navigated_synced:
  assumes "table_ok cfg" "router_ok cfg" "chosen_filters cfg (tb_columnFilters tb) = initialColumnFilters cfg (tb_search tb)"
    "tb_globalFilter tb = search_text cfg s"
  shows "table_synced cfg (navigated cfg s tb)"
proof (cases "tc_same cfg (tb_search tb) s")
  case True
  then have "initialColumnFilters cfg s = initialColumnFilters cfg (tb_search tb)"
    using assms(2) by (intro initial_filters_cong) (simp add: router_ok_def)
  then show ?thesis using assms(3,4) True by (simp add: table_synced_def navigated_def)
next
  case False
  then show ?thesis using assms(4) chosen_initial [OF assms(1)] by (simp add: table_synced_def navigated_def)
qed

lemma search_text_other: "search_get (tc_filterKey cfg) s = search_get (tc_filterKey cfg) s' \<Longrightarrow> search_text cfg s = search_text cfg s'"
  by (simp add: search_text_def)

lemma filtered_synced:
  assumes "table_ok cfg" "codec_ok cfg" "tb_globalFilter tb = search_text cfg (tb_search tb)"
  shows "table_synced cfg (onColumnFiltersChange cfg (\<lambda>_. fs) tb)"
    "chosen_filters cfg (tb_columnFilters (onColumnFiltersChange cfg (\<lambda>_. fs) tb)) = chosen_filters cfg fs"
proof -
  let ?n = "onColumnFiltersChange cfg (\<lambda>_. fs) tb"
  have "tb_columnFilters ?n = fs \<or> tb_columnFilters ?n = initialColumnFilters cfg (tb_search ?n)" "tb_globalFilter ?n = tb_globalFilter tb"
    by (simp_all add: onColumnFiltersChange_def navigated_def Let_def)
  note n = this and shown = filters_shown [OF assms(1,2), where tb = tb]
  have "tc_filterKey cfg \<noteq> tc_pageKey cfg" "find (\<lambda>c. cf_searchKey c = tc_filterKey cfg) (tc_columns cfg) = None"
    using assms(1) by (force simp: table_ok_def find_None_iff)+
  then have "search_text cfg (tb_search ?n) = search_text cfg (tb_search tb)" using shown(2) by (intro search_text_other) simp
  then have g: "tb_globalFilter ?n = search_text cfg (tb_search ?n)" using n(2) assms(3) by simp
  show "chosen_filters cfg (tb_columnFilters ?n) = chosen_filters cfg fs"
    using n(1) chosen_initial [OF assms(1), of "tb_search ?n"] shown(1) [of fs] by metis
  then show "table_synced cfg ?n" using g shown(1) by (simp add: table_synced_def)
qed

lemma table_act_synced:
  assumes "table_ok cfg" "codec_ok cfg" "router_ok cfg" "table_synced cfg tb"
  shows "table_synced cfg (table_act cfg a tb)"
proof -
  have k: "tc_filterKey cfg \<noteq> tc_pageKey cfg" "tc_filterKey cfg \<noteq> tc_pageSizeKey cfg" using assms(1) by (auto simp: table_ok_def)
  have g: "tb_globalFilter tb = search_text cfg (tb_search tb)" "chosen_filters cfg (tb_columnFilters tb) = initialColumnFilters cfg (tb_search tb)"
    using assms(4) by (simp_all add: table_synced_def)
  note nav = navigated_synced [OF assms(1,3)]
  show ?thesis
  proof (cases a)
    case (Paginate i z)
    then show ?thesis using k g by (simp add: onPaginationChange_def Let_def split del: if_split) (rule nav; simp add: search_text_def)
  next
    case (SearchText x)
    then show ?thesis using assms(4) k(1) g
      by (cases "tc_filterEnabled cfg") (auto simp: onGlobalFilterChange_def Let_def search_text_def intro!: nav)
  next
    case (FilterBy fs)
    then show ?thesis using filtered_synced(1) [OF assms(1,2) g(1)] by simp
  next
    case (InRange n toLast)
    then show ?thesis using assms(4) k g by (auto simp: ensurePageInRange_def search_text_def intro!: nav)
  qed
qed

lemma table_run_synced:
  "table_ok cfg \<Longrightarrow> codec_ok cfg \<Longrightarrow> router_ok cfg \<Longrightarrow> table_synced cfg tb \<Longrightarrow> table_synced cfg (fold (table_act cfg) as tb)"
  by (induction as arbitrary: tb) (auto simp: table_act_synced)

lemma initial_synced: "table_ok cfg \<Longrightarrow> table_synced cfg (initial_table cfg s)"
  using chosen_initial [of cfg s] by (simp add: table_synced_def initial_table_def search_text_def)

lemma page_keeps_filters:
  assumes "table_ok cfg"
  shows "initialColumnFilters cfg (tb_search (onPaginationChange cfg u tb)) = initialColumnFilters cfg (tb_search tb)"
proof -
  have "search_get (cf_searchKey c) (obj_set (tc_pageSizeKey cfg) x (obj_set (tc_pageKey cfg) y s)) = search_get (cf_searchKey c) s"
    if "c \<in> set (tc_columns cfg)" for c x y s
    using that assms by (force simp: table_ok_def)
  then show ?thesis unfolding initialColumnFilters_def
    by (intro map_filter_cong_list) (simp add: onPaginationChange_def navigated_def Let_def split_def)
qed

text \<open>C8. The address says what a table shows: after any sequence of actions, loading the address again gives the same
  search text and the same filters, up to those that a table cannot show (the blank ones and those of columns that are not
  configured, which stay in the state while the address does not change). Choosing column filters shows exactly those of the
  configured columns that are not blank and goes back to the first page; choosing a page and a size shows that page with that
  size and keeps every filter. The router is any that gives a new object when a parameter changes.\<close>

theorem table_address_faithful:
  assumes "table_ok cfg" and "codec_ok cfg" and "router_ok cfg" and "tb = fold (table_act cfg) as (initial_table cfg s)"
  shows "initial_table cfg (tb_search tb) = tb\<lparr>tb_columnFilters := chosen_filters cfg (tb_columnFilters tb)\<rparr> \<and>
     chosen_filters cfg (tb_columnFilters (table_act cfg (FilterBy fs) tb)) = chosen_filters cfg fs \<and>
     fst (table_pagination cfg (tb_search (table_act cfg (FilterBy fs) tb))) = num 0 \<and>
     (0 \<le> n \<and> n < 2 ^ 53 \<longrightarrow>
        table_pagination cfg (tb_search (table_act cfg (Paginate (num n) z) tb)) = (num n, z) \<and>
        tb_globalFilter (table_act cfg (Paginate (num n) z) tb) = tb_globalFilter tb \<and>
        chosen_filters cfg (tb_columnFilters (table_act cfg (Paginate (num n) z) tb)) = chosen_filters cfg (tb_columnFilters tb))"
proof -
  have k: "tc_defaultPage cfg = num 1" "tc_pageKey cfg \<noteq> tc_pageSizeKey cfg" "tc_pageKey cfg \<notin> cf_searchKey ` set (tc_columns cfg)"
    using assms(1) by (auto simp: table_ok_def)
  have sync: "table_synced cfg tb"
    unfolding assms(4) by (rule table_run_synced [OF assms(1-3) initial_synced [OF assms(1)]])
  then have g: "tb_globalFilter tb = search_text cfg (tb_search tb)" by (simp add: table_synced_def)
  have cols: "chosen_filters cfg (tb_columnFilters (table_act cfg (Paginate (num n) z) tb)) = chosen_filters cfg (tb_columnFilters tb)"
    using table_act_synced [OF assms(1-3) sync, of "Paginate (num n) z"] sync page_keeps_filters [OF assms(1)] by (simp add: table_synced_def)
  have "find (\<lambda>c. cf_searchKey c = tc_pageKey cfg) (tc_columns cfg) = None" using k(3) by (force simp: find_None_iff)
  then have first: "fst (table_pagination cfg (tb_search (table_act cfg (FilterBy fs) tb))) = num 0"
    using filters_shown(2) [OF assms(1,2), of "tc_pageKey cfg" fs tb] k(1) js_add_int [of 1 "-1"]
    by (simp add: table_pagination_def num_param_def js_max_def js_sub_def)
  have glob: "tb_globalFilter (table_act cfg (Paginate (num n) z) tb) = tb_globalFilter tb"
    by (simp add: onPaginationChange_def navigated_def Let_def)
  show ?thesis using synced_reload [OF sync] cols first glob page_shown [OF k(1,2)] filtered_synced(2) [OF assms(1,2) g, of fs]
    by simp
qed

text \<open>The text of the search is not read again when the address changes by itself, as it does on going back; and with a
  default page other than the first, the pages before it cannot be chosen.\<close>

lemma stale_search_text: "tb_globalFilter (navigated cfg s tb) = tb_globalFilter tb"
  by (simp add: navigated_def)

lemma default_page_hides:
  "fst (table_pagination (table_defaults\<lparr>tc_defaultPage := num 2\<rparr>)
     (tb_search (onPaginationChange (table_defaults\<lparr>tc_defaultPage := num 2\<rparr>) (\<lambda>_. (num 0, num 20)) (initial_table table_defaults [])))) = num 1"
  by code_simp

lemma unknown_filter_kept:
  \<comment> \<open>a filter that is not in the address stays until something in the address changes\<close>
  "tb_columnFilters (table_act table_defaults (FilterBy [(''x'', JStr ''a'')]) (initial_table table_defaults [])) = [(''x'', JStr ''a'')]"
  "tb_columnFilters (fold (table_act table_defaults) [FilterBy [(''x'', JStr ''a'')], SearchText ''b''] (initial_table table_defaults [])) = []"
  by code_simp+

lemma search_same_get: "search_same s s' \<Longrightarrow> search_get k s = search_get k s'"
proof -
  assume a: "search_same s s'"
  show ?thesis
  proof (cases "k \<in> fst ` set s \<union> fst ` set s'")
    case True
    then show ?thesis using a by (auto simp: search_same_def list_all_iff)
  next
    case False
    then have "obj_get k s = None" "obj_get k s' = None" by (auto simp: obj_get_def map_of_eq_None_iff)
    then show ?thesis by (simp add: search_get_def)
  qed
qed

theorem table_address_faithful_witness:
  "let cfg = table_defaults\<lparr>tc_columns := [\<lparr>cf_columnId = ''model_name'', cf_searchKey = ''model'', cf_string = True, cf_serialize = id,
          cf_deserialize = id\<rparr>]\<rparr>;
       tb = fold (table_act cfg) [SearchText '' a '', FilterBy [(''model_name'', JStr ''gpt'')]] (initial_table cfg []) in
   initial_table cfg (tb_search tb) = tb \<and> tb_columnFilters tb = [(''model_name'', JStr ''gpt'')] \<and> tb_globalFilter tb = Some ''a'' \<and>
   table_pagination cfg (tb_search (table_act cfg (Paginate (num 4) (num 50)) tb)) = (num 4, num 50)"
proof -
  let ?c = "\<lparr>cf_columnId = ''model_name'', cf_searchKey = ''model'', cf_string = True, cf_serialize = id, cf_deserialize = id\<rparr> :: ColumnFilter"
  let ?cfg = "table_defaults\<lparr>tc_columns := [?c]\<rparr>"
  let ?tb = "fold (table_act ?cfg) [SearchText '' a '', FilterBy [(''model_name'', JStr ''gpt'')]] (initial_table ?cfg [])"
  have ok: "table_ok ?cfg" "codec_ok ?cfg" by (simp_all add: table_ok_def codec_ok_def table_defaults_def)
  have router: "router_ok ?cfg" using search_same_get by (simp add: router_ok_def table_defaults_def)
  have tb: "tb_columnFilters ?tb = [(''model_name'', JStr ''gpt'')]" "tb_globalFilter ?tb = Some ''a''"
    "chosen_filters ?cfg (tb_columnFilters ?tb) = [(''model_name'', JStr ''gpt'')]" by code_simp+
  then have "?tb\<lparr>tb_columnFilters := chosen_filters ?cfg (tb_columnFilters ?tb)\<rparr> = ?tb" by (intro Table.equality) simp_all
  then show ?thesis
    using tb table_address_faithful [OF ok router refl, of "[SearchText '' a '', FilterBy [(''model_name'', JStr ''gpt'')]]" "[]" "[]" 4 "num 50"]
    by (simp only: Let_def) auto
qed

subsection \<open>The filters of the price page\<close>

text \<open>
  The hook keeps its own copy of the search parameters of the address. A filter is one of seven slots, each with its key and
  the value that stands for \<open>no filter\<close>; the unit, the view and the recharge price are kept in the same object.
\<close>

definition normalizeViewMode :: "json option \<Rightarrow> jsstr" where
  "normalizeViewMode v = (if v = Some (JStr ''table'') then ''table'' else ''card'')"

definition useFilters :: "search \<Rightarrow> search" where
  \<comment> \<open>the initial state: ten parameters of the address\<close>
  "useFilters s = map (\<lambda>k. (k, search_get k s))
     [''search'', ''sort'', ''vendor'', ''group'', ''quotaType'', ''endpointType'', ''tag'', ''tokenUnit'', ''view'', ''rechargePrice'']"

definition updateFilters :: "search \<Rightarrow> search \<Rightarrow> search" where
  "updateFilters updates prev = filter (\<lambda>(k, v). v \<noteq> None \<and> v \<noteq> Some JNull) (fold (\<lambda>(k, v). obj_set k v) updates prev)"

definition text_param :: "jsstr \<Rightarrow> jsstr \<Rightarrow> search \<Rightarrow> jsstr" where
  \<comment> \<open>\<open>filterState.key || default\<close> for a text\<close>
  "text_param k d s = (case search_get k s of Some (JStr x) \<Rightarrow> if x = [] then d else x | _ \<Rightarrow> d)"

definition searchInput :: "search \<Rightarrow> jsstr" where "searchInput = text_param ''search'' ''''"
definition sortBy :: "search \<Rightarrow> jsstr" where "sortBy = text_param ''sort'' ''name''"
definition vendorFilter :: "search \<Rightarrow> jsstr" where "vendorFilter = text_param ''vendor'' FILTER_ALL"
definition groupFilter :: "search \<Rightarrow> jsstr" where "groupFilter = text_param ''group'' FILTER_ALL"
definition quotaTypeFilter :: "search \<Rightarrow> jsstr" where "quotaTypeFilter = text_param ''quotaType'' ''all''"
definition endpointTypeFilter :: "search \<Rightarrow> jsstr" where "endpointTypeFilter = text_param ''endpointType'' ''all''"
definition tagFilter :: "search \<Rightarrow> jsstr" where "tagFilter = text_param ''tag'' FILTER_ALL"

definition tokenUnit :: "search \<Rightarrow> TokenUnit" where
  "tokenUnit s = (if search_get ''tokenUnit'' s = Some (JStr ''K'') then UnitK else UnitM)"

definition viewMode :: "search \<Rightarrow> jsstr" where "viewMode s = normalizeViewMode (search_get ''view'' s)"
definition showRechargePrice :: "search \<Rightarrow> bool" where "showRechargePrice s \<longleftrightarrow> search_get ''rechargePrice'' s = Some (JBool True)"

definition set_param :: "jsstr \<Rightarrow> jsstr \<Rightarrow> jsstr \<Rightarrow> search \<Rightarrow> search" where
  \<comment> \<open>\<open>updateFilters({ key: v === default ? undefined : v })\<close>\<close>
  "set_param k d v = updateFilters [(k, if v = d then None else Some (JStr v))]"

definition setSearchInput :: "jsstr \<Rightarrow> search \<Rightarrow> search" where "setSearchInput = set_param ''search'' ''''"
definition setSortBy :: "jsstr \<Rightarrow> search \<Rightarrow> search" where "setSortBy = set_param ''sort'' ''name''"
definition setVendorFilter :: "jsstr \<Rightarrow> search \<Rightarrow> search" where "setVendorFilter = set_param ''vendor'' FILTER_ALL"
definition setGroupFilter :: "jsstr \<Rightarrow> search \<Rightarrow> search" where "setGroupFilter = set_param ''group'' FILTER_ALL"
definition setQuotaTypeFilter :: "jsstr \<Rightarrow> search \<Rightarrow> search" where "setQuotaTypeFilter = set_param ''quotaType'' ''all''"
definition setEndpointTypeFilter :: "jsstr \<Rightarrow> search \<Rightarrow> search" where "setEndpointTypeFilter = set_param ''endpointType'' ''all''"
definition setTagFilter :: "jsstr \<Rightarrow> search \<Rightarrow> search" where "setTagFilter = set_param ''tag'' FILTER_ALL"

definition setTokenUnit :: "TokenUnit \<Rightarrow> search \<Rightarrow> search" where
  "setTokenUnit u = updateFilters [(''tokenUnit'', case u of UnitM \<Rightarrow> None | UnitK \<Rightarrow> Some (JStr ''K''))]"

definition setViewMode :: "jsstr \<Rightarrow> search \<Rightarrow> search" where
  "setViewMode v = updateFilters [(''view'', if v = ''card'' then None else Some (JStr v))]"

definition setShowRechargePrice :: "bool \<Rightarrow> search \<Rightarrow> search" where
  "setShowRechargePrice v = updateFilters [(''rechargePrice'', if v then Some (JBool True) else None)]"

definition clearFilters :: "search \<Rightarrow> search" where
  "clearFilters = updateFilters [(''vendor'', None), (''group'', None), (''quotaType'', None), (''endpointType'', None), (''tag'', None)]"

definition clearSearch :: "search \<Rightarrow> search" where
  "clearSearch = updateFilters [(''search'', None)]"

definition availableTags :: "(jsstr \<Rightarrow> jsstr \<Rightarrow> bool) \<Rightarrow> PricingModel list \<Rightarrow> jsstr list" where
  "availableTags collate models = (if models = [] then [] else extractAllTags collate models)"

definition filteredModels :: "(jsstr \<Rightarrow> jsstr \<Rightarrow> bool) \<Rightarrow> PricingModel list \<Rightarrow> search \<Rightarrow> PricingModel list" where
  "filteredModels collate models s =
     (if models = [] then []
      else filterAndSortModels collate models \<lparr>f_search = searchInput s, f_vendor = vendorFilter s, f_group = groupFilter s,
        f_quotaType = quotaTypeFilter s, f_endpointType = endpointTypeFilter s, f_tag = tagFilter s, f_sortBy = sortBy s\<rparr>)"

definition hasActiveFilters :: "search \<Rightarrow> bool" where
  "hasActiveFilters s \<longleftrightarrow> vendorFilter s \<noteq> FILTER_ALL \<or> groupFilter s \<noteq> FILTER_ALL \<or> quotaTypeFilter s \<noteq> ''all'' \<or>
     endpointTypeFilter s \<noteq> ''all'' \<or> tagFilter s \<noteq> FILTER_ALL"

definition activeFilterCount :: "search \<Rightarrow> nat" where
  "activeFilterCount s = (if vendorFilter s \<noteq> FILTER_ALL then 1 else 0) + (if groupFilter s \<noteq> FILTER_ALL then 1 else 0) +
     (if quotaTypeFilter s \<noteq> ''all'' then 1 else 0) + (if endpointTypeFilter s \<noteq> ''all'' then 1 else 0) + (if tagFilter s \<noteq> FILTER_ALL then 1 else 0)"

text \<open>What the page relies on: independent slots, in which the last value counts and an empty one means the default.\<close>

locale filter_slots =
  fixes choice :: "'k \<Rightarrow> 's \<Rightarrow> jsstr"
    and pick :: "'k \<Rightarrow> jsstr \<Rightarrow> 's \<Rightarrow> 's"
    and dflt :: "'k \<Rightarrow> jsstr"
    and inv :: "'s \<Rightarrow> bool"
  assumes read_write: "inv s \<Longrightarrow> choice j (pick k v s) = (if j = k then (if v = [] then dflt k else v) else choice j s)"
    and inv_write: "inv s \<Longrightarrow> inv (pick k v s)"
begin

fun last_choice :: "('k \<times> jsstr) list \<Rightarrow> 'k \<Rightarrow> jsstr \<Rightarrow> jsstr" where
  "last_choice [] j v0 = v0"
| "last_choice ((k, v) # cs) j v0 = last_choice cs j (if j = k then (if v = [] then dflt k else v) else v0)"

lemma read_choices: "inv s \<Longrightarrow> choice j (fold (\<lambda>(k, v). pick k v) cs s) = last_choice cs j (choice j s)"
  by (induction cs arbitrary: s) (auto simp: read_write inv_write)

lemma inv_choices: "inv s \<Longrightarrow> inv (fold (\<lambda>(k, v). pick k v) cs s)"
  by (induction cs arbitrary: s) (auto simp: inv_write)

lemma last_choice_absent: "j \<notin> fst ` set cs \<Longrightarrow> last_choice cs j v0 = v0"
  by (induction cs arbitrary: v0) auto

lemma last_choice_append: "last_choice (cs @ ds) j v0 = last_choice ds j (last_choice cs j v0)"
  by (induction cs arbitrary: v0) auto

lemma read_last:
  assumes "inv s" "j \<notin> fst ` set ds"
  shows "choice j (fold (\<lambda>(k, v). pick k v) (cs @ (j, v) # ds) s) = (if v = [] then dflt j else v)"
  unfolding read_choices [OF assms(1)] last_choice_append by (simp add: last_choice_absent [OF assms(2)])

end

datatype filter_slot = SearchSlot | SortSlot | VendorSlot | GroupSlot | QuotaSlot | EndpointSlot | TagSlot

fun slot_key :: "filter_slot \<Rightarrow> jsstr" where
  "slot_key SearchSlot = ''search''" | "slot_key SortSlot = ''sort''" | "slot_key VendorSlot = ''vendor''"
| "slot_key GroupSlot = ''group''" | "slot_key QuotaSlot = ''quotaType''" | "slot_key EndpointSlot = ''endpointType''"
| "slot_key TagSlot = ''tag''"

fun slot_default :: "filter_slot \<Rightarrow> jsstr" where
  "slot_default SearchSlot = ''''" | "slot_default SortSlot = ''name''" | "slot_default s = ''all''"

fun slot_read :: "filter_slot \<Rightarrow> search \<Rightarrow> jsstr" where
  "slot_read SearchSlot = searchInput" | "slot_read SortSlot = sortBy" | "slot_read VendorSlot = vendorFilter"
| "slot_read GroupSlot = groupFilter" | "slot_read QuotaSlot = quotaTypeFilter" | "slot_read EndpointSlot = endpointTypeFilter"
| "slot_read TagSlot = tagFilter"

fun slot_write :: "filter_slot \<Rightarrow> jsstr \<Rightarrow> search \<Rightarrow> search" where
  "slot_write SearchSlot = setSearchInput" | "slot_write SortSlot = setSortBy" | "slot_write VendorSlot = setVendorFilter"
| "slot_write GroupSlot = setGroupFilter" | "slot_write QuotaSlot = setQuotaTypeFilter" | "slot_write EndpointSlot = setEndpointTypeFilter"
| "slot_write TagSlot = setTagFilter"

lemma slot_read_param: "slot_read j = text_param (slot_key j) (slot_default j)"
  by (cases j) (simp_all add: searchInput_def sortBy_def vendorFilter_def groupFilter_def quotaTypeFilter_def endpointTypeFilter_def
      tagFilter_def FILTER_ALL_def)

lemma slot_write_param: "slot_write k = set_param (slot_key k) (slot_default k)"
  by (cases k) (simp_all add: setSearchInput_def setSortBy_def setVendorFilter_def setGroupFilter_def setQuotaTypeFilter_def
      setEndpointTypeFilter_def setTagFilter_def FILTER_ALL_def)

lemma slot_key_inj: "slot_key j = slot_key k \<longleftrightarrow> j = k"
  by (cases j; cases k) simp_all

lemma map_of_filter_wf:
  "distinct (map fst xs) \<Longrightarrow> map_of (filter (\<lambda>(k, v). P v) xs) k = (case map_of xs k of Some v \<Rightarrow> if P v then Some v else None | None \<Rightarrow> None)"
  by (induction xs) (auto simp: map_of_eq_None_iff split: option.splits)

lemma updateFilters_get:
  assumes "obj_wf prev"
  shows "obj_wf (updateFilters us prev)"
    and "text_param k d (updateFilters us prev) = text_param k d (fold (\<lambda>(k, v). obj_set k v) us prev)"
proof -
  have wf: "obj_wf (fold (\<lambda>(k, v). obj_set k v) us prev)" using fold_set_wf [OF assms, of fst snd us] by (simp add: split_def)
  then show "obj_wf (updateFilters us prev)" by (simp add: updateFilters_def obj_wf_def distinct_map_filter)
  show "text_param k d (updateFilters us prev) = text_param k d (fold (\<lambda>(k, v). obj_set k v) us prev)"
    using map_of_filter_wf [of "fold (\<lambda>(k, v). obj_set k v) us prev" "\<lambda>v. v \<noteq> None \<and> v \<noteq> Some JNull" k] wf
    by (auto simp: text_param_def search_get_def updateFilters_def obj_get_def obj_wf_def split: option.splits json.splits)
qed

lemma text_param_set: "text_param j d (obj_set k v s) = (if j = k then (case v of Some (JStr x) \<Rightarrow> if x = [] then d else x | _ \<Rightarrow> d) else text_param j d s)"
  by (simp add: text_param_def)

interpretation price_filters: filter_slots slot_read slot_write slot_default obj_wf
proof
  fix s :: search and j k v
  assume wf: "obj_wf s"
  show "slot_read j (slot_write k v s) = (if j = k then (if v = [] then slot_default k else v) else slot_read j s)"
    unfolding slot_read_param slot_write_param set_param_def updateFilters_get(2) [OF wf]
    by (simp add: text_param_set slot_key_inj)
  show "obj_wf (slot_write k v s)"
    unfolding slot_write_param set_param_def by (rule updateFilters_get(1) [OF wf])
qed

lemma useFilters_wf: "obj_wf (useFilters s)"
  by (simp add: useFilters_def obj_wf_def)

lemma cleared_params:
  assumes "obj_wf s"
  shows "slot_read j (clearFilters s) = (if j \<in> {SearchSlot, SortSlot} then slot_read j s else slot_default j)"
    and "slot_read j (clearSearch s) = (if j = SearchSlot then '''' else slot_read j s)"
  by (cases j; simp add: slot_read_param clearFilters_def clearSearch_def updateFilters_get(2) [OF assms] text_param_set)+

lemma active_slots:
  "activeFilterCount s = length (filter (\<lambda>j. slot_read j s \<noteq> slot_default j) [VendorSlot, GroupSlot, QuotaSlot, EndpointSlot, TagSlot])"
  by (simp add: activeFilterCount_def FILTER_ALL_def)

lemma all_models_shown:
  assumes "\<And>j. j \<noteq> SortSlot \<Longrightarrow> slot_read j s = slot_default j"
  shows "count_list (filteredModels collate models s) m = count_list models m"
proof -
  have "searchInput s = ''''" "vendorFilter s = FILTER_ALL" "groupFilter s = FILTER_ALL" "quotaTypeFilter s = ''all''"
    "endpointTypeFilter s = ''all''" "tagFilter s = FILTER_ALL"
    using assms [of SearchSlot] assms [of VendorSlot] assms [of GroupSlot] assms [of QuotaSlot] assms [of EndpointSlot] assms [of TagSlot]
    by (simp_all add: FILTER_ALL_def)
  then show ?thesis by (simp add: filteredModels_def filter_sort_chain)
qed

text \<open>C27. On the price page every filter is the last choice made for it, whatever was chosen for the others before or after; the
  counter counts the filters that are set. Clearing the filters keeps the search and the order and leaves none set, and
  clearing the search as well shows every model as often as the server sent it.\<close>

theorem price_filters_last_choice:
  assumes "j \<notin> fst ` set ds" and "st = fold (\<lambda>(k, v). slot_write k v) (cs @ (j, v) # ds) (useFilters address)"
  shows "slot_read j st = (if v = [] then slot_default j else v) \<and>
     activeFilterCount st = length (filter (\<lambda>k. slot_read k st \<noteq> slot_default k) [VendorSlot, GroupSlot, QuotaSlot, EndpointSlot, TagSlot]) \<and>
     (hasActiveFilters st \<longleftrightarrow> 0 < activeFilterCount st) \<and>
     \<not> hasActiveFilters (clearFilters st) \<and> searchInput (clearFilters st) = searchInput st \<and> sortBy (clearFilters st) = sortBy st \<and>
     count_list (filteredModels collate models (clearSearch (clearFilters st))) m = count_list models m"
proof -
  have wf: "obj_wf st" unfolding assms(2) by (rule price_filters.inv_choices [OF useFilters_wf])
  then have wf2: "obj_wf (clearFilters st)" by (simp add: clearFilters_def updateFilters_get(1))
  have act: "hasActiveFilters x \<longleftrightarrow> 0 < activeFilterCount x" for x
    by (simp add: hasActiveFilters_def activeFilterCount_def)
  have "slot_read j st = (if v = [] then slot_default j else v)"
    unfolding assms(2) by (rule price_filters.read_last [OF useFilters_wf assms(1)])
  moreover have "\<not> hasActiveFilters (clearFilters st)" unfolding act active_slots by (simp add: cleared_params [OF wf] del: slot_read.simps)
  moreover have "searchInput (clearFilters st) = searchInput st" "sortBy (clearFilters st) = sortBy st"
    using cleared_params(1) [OF wf, of SearchSlot] cleared_params(1) [OF wf, of SortSlot] by simp_all
  moreover have "count_list (filteredModels collate models (clearSearch (clearFilters st))) m = count_list models m"
    by (rule all_models_shown) (simp add: cleared_params(2) [OF wf2] cleared_params(1) [OF wf] del: slot_read.simps)
  ultimately show ?thesis using act active_slots by blast
qed

theorem price_filters_last_choice_witness:
  "let st = fold (\<lambda>(k, v). slot_write k v) [(TagSlot, ''vision''), (VendorSlot, ''OpenAI''), (TagSlot, ''all'')] (useFilters [(''group'', Some (JStr ''vip''))]) in
   vendorFilter st = ''OpenAI'' \<and> tagFilter st = ''all'' \<and> groupFilter st = ''vip'' \<and> activeFilterCount st = 2 \<and> \<not> hasActiveFilters (clearFilters st)"
proof -
  let ?st = "fold (\<lambda>(k, v). slot_write k v) [(TagSlot, ''vision''), (VendorSlot, ''OpenAI''), (TagSlot, ''all'')] (useFilters [(''group'', Some (JStr ''vip''))])"
  have "tagFilter ?st = ''all''" "groupFilter ?st = ''vip''" "activeFilterCount ?st = 2" by code_simp+
  moreover have "VendorSlot \<notin> fst ` set [(TagSlot, ''all'')]" by simp
  from price_filters_last_choice [OF this refl, of "[(TagSlot, ''vision'')]" "''OpenAI''" "[(''group'', Some (JStr ''vip''))]" "\<lambda>_ _. True" "[]"]
  have "vendorFilter ?st = ''OpenAI'' \<and> \<not> hasActiveFilters (clearFilters ?st)" by simp
  ultimately show ?thesis by (simp only: Let_def) simp
qed

end
