(* ===== verification/Upstream_Updates.thy ===== *)
theory Upstream_Updates
  imports Model_Mapping Console_Forms
begin

section \<open>Changes of upstream models\<close>

text \<open>
  Model of \<^verbatim>\<open>features/channels/hooks/use-channel-upstream-updates.ts\<close>: detecting the models that an upstream account gained or
  lost, and applying the choice of the administrator.

  The hook has four operations, each with a reference that is set while its request is under way (and, except for the detection
  of one channel, a loading flag that is set and cleared with it). Sending a request, its answer and the end of the refresh that
  a successful answer starts are three steps: the hook awaits in between, and other actions can come first. The reference stays
  set until the last of them. The answers of the server and the outcome of the refresh are arguments.

  Shown: an operation starts only when the last one of its kind is over, its refresh included, and a choice about pending models
  covers each of them once.
\<close>

datatype upstream_op = Apply | ApplyAll | Detect | DetectAll

record Upstream =
  us_showModal :: bool
  us_channel :: "jsnum option"
  us_addModels :: "jsstr list"
  us_removeModels :: "jsstr list"
  us_preferredTab :: jsstr
  us_busy :: "upstream_op \<Rightarrow> bool"
  us_ignoring :: "jsstr list" \<comment> \<open>\<open>ignoreModels\<close> of the operation under way\<close>

datatype upstream_effect =
  ApplyRequest jsnum "jsstr list" "jsstr list" "jsstr list"
| ApplyAllRequest
| DetectRequest jsnum
| DetectAllRequest
| UpstreamInfo jsstr
| UpstreamError jsstr
| UpstreamDone jsstr "(jsstr \<times> json) list"
| RefreshList

text \<open>An answer, or a rejection with the message of the response and the message of the error.\<close>

type_synonym rejection = "jsstr option \<times> jsstr option"

datatype upstream_answer = Answered bool "jsstr option" "json option" | Rejected rejection

definition normalize_strings :: "jsstr list \<Rightarrow> jsstr list" where
  "normalize_strings xs = (case normalizeModelList (Some (JArr (map JStr xs))) of Some l \<Rightarrow> l | None \<Rightarrow> [])"

definition getManualIgnoredModelCount :: "json option \<Rightarrow> nat option" where
  \<comment> \<open>\<open>None\<close> when \<open>normalizeModelList\<close> throws\<close>
  "getManualIgnoredModelCount settings =
     (let parsed = (case settings of
            Some (JObj kvs) \<Rightarrow> settings
          | Some (JArr vs) \<Rightarrow> settings
          | Some (JStr s) \<Rightarrow> json_parse s
          | _ \<Rightarrow> None) in
      if \<not> js_truthy parsed then Some 0
      else map_option length (normalizeModelList (Some (js_or (js_prop parsed ''upstream_model_update_ignored_models'') (JArr [])))))"

definition falsy_id :: "jsnum option \<Rightarrow> bool" where
  "falsy_id i \<longleftrightarrow> (case i of Some x \<Rightarrow> \<not> js_truthy_num x | None \<Rightarrow> True)"

definition upstream_openModal ::
  "(jsstr \<Rightarrow> jsstr) \<Rightarrow> jsnum option \<Rightarrow> jsstr list \<Rightarrow> jsstr list \<Rightarrow> jsstr \<Rightarrow> Upstream \<Rightarrow> Upstream \<times> upstream_effect list" where
  "upstream_openModal t record pendingAdd pendingRemove tab s =
     (let normAdd = normalize_strings pendingAdd; normRemove = normalize_strings pendingRemove in
      if falsy_id record \<or> normAdd = [] \<and> normRemove = []
      then (s, [UpstreamInfo (t ''No processable upstream model updates for this channel'')])
      else (s\<lparr>us_channel := record, us_addModels := normAdd, us_removeModels := normRemove, us_preferredTab := tab, us_showModal := True\<rparr>, []))"

definition upstream_closeModal :: "Upstream \<Rightarrow> Upstream" where
  "upstream_closeModal s =
     s\<lparr>us_showModal := False, us_channel := None, us_addModels := [], us_removeModels := [], us_preferredTab := ''add''\<rparr>"

definition applyUpdates :: "jsstr list \<Rightarrow> jsstr list \<Rightarrow> Upstream \<Rightarrow> Upstream \<times> upstream_effect list" where
  "applyUpdates selectedAdd selectedRemove s =
     (if us_busy s Apply then (s, [])
      else if falsy_id (us_channel s) then (upstream_closeModal s, [])
      else (let normSelectedAdd = normalize_strings selectedAdd;
                ignoreModels = filter (\<lambda>m. m \<notin> set normSelectedAdd) (us_addModels s) in
            (s\<lparr>us_busy := (us_busy s)(Apply := True), us_ignoring := ignoreModels\<rparr>,
             [ApplyRequest (the (us_channel s)) normSelectedAdd ignoreModels (normalize_strings selectedRemove)])))"

definition applyAllUpdates :: "Upstream \<Rightarrow> Upstream \<times> upstream_effect list" where
  "applyAllUpdates s = (if us_busy s ApplyAll then (s, []) else (s\<lparr>us_busy := (us_busy s)(ApplyAll := True)\<rparr>, [ApplyAllRequest]))"

definition detectChannelUpdates :: "jsnum option \<Rightarrow> Upstream \<Rightarrow> Upstream \<times> upstream_effect list" where
  "detectChannelUpdates ch s =
     (if us_busy s Detect \<or> falsy_id ch then (s, []) else (s\<lparr>us_busy := (us_busy s)(Detect := True)\<rparr>, [DetectRequest (the ch)]))"

definition detectAllUpdates :: "Upstream \<Rightarrow> Upstream \<times> upstream_effect list" where
  "detectAllUpdates s = (if us_busy s DetectAll then (s, []) else (s\<lparr>us_busy := (us_busy s)(DetectAll := True)\<rparr>, [DetectAllRequest]))"

definition rejection_text :: "(jsstr \<Rightarrow> jsstr) \<Rightarrow> jsstr \<Rightarrow> rejection \<Rightarrow> jsstr" where
  "rejection_text t d r = (case fst r of Some m \<Rightarrow> if m \<noteq> [] then m else opt_str_or (snd r) (t d) | None \<Rightarrow> opt_str_or (snd r) (t d))"

definition data_length :: "json option \<Rightarrow> jsstr \<Rightarrow> json" where
  \<comment> \<open>\<open>data?.key?.length || 0\<close> for a list\<close>
  "data_length data k = (case js_prop data k of Some (JArr vs) \<Rightarrow> JNum (num (int (length vs))) | _ \<Rightarrow> JNum (num 0))"

definition data_count :: "json option \<Rightarrow> jsstr \<Rightarrow> json" where
  "data_count data k = js_or (js_prop data k) (JNum (num 0))"

fun failure_text :: "upstream_op \<Rightarrow> jsstr" where
  "failure_text Apply = ''Operation failed''"
| "failure_text ApplyAll = ''Batch processing failed''"
| "failure_text Detect = ''Detection failed''"
| "failure_text DetectAll = ''Batch detection failed''"

definition success_effect :: "upstream_op \<Rightarrow> json option \<Rightarrow> Upstream \<Rightarrow> upstream_effect option" where
  \<comment> \<open>the message with its numbers; \<open>None\<close> when computing them throws\<close>
  "success_effect op data s = (case op of
       Apply \<Rightarrow> map_option (\<lambda>n. UpstreamDone
           ''Upstream model updates applied: {{added}} added, {{removed}} removed, {{ignored}} ignored this time, {{totalIgnored}} total ignored models''
           [(''added'', data_length data ''added_models''), (''removed'', data_length data ''removed_models''),
            (''ignored'', JNum (num (int (length (normalize_strings (us_ignoring s)))))), (''totalIgnored'', JNum (num (int n)))])
         (getManualIgnoredModelCount (js_prop data ''settings''))
     | ApplyAll \<Rightarrow> Some (UpstreamDone
           ''Batch upstream model updates applied: {{channels}} channels, {{added}} added, {{removed}} removed, {{fails}} failed''
           [(''channels'', data_count data ''processed_channels''), (''added'', data_count data ''added_models''),
            (''removed'', data_count data ''removed_models''), (''fails'', data_length data ''failed_channel_ids'')])
     | Detect \<Rightarrow> Some (UpstreamDone ''Detection complete: {{add}} to add, {{remove}} to remove''
           [(''add'', data_length data ''add_models''), (''remove'', data_length data ''remove_models'')])
     | DetectAll \<Rightarrow> Some (UpstreamDone
           ''Batch detection complete: {{channels}} channels, {{add}} to add, {{remove}} to remove, {{fails}} failed''
           [(''channels'', data_count data ''processed_channels''), (''add'', data_count data ''detected_add_models''),
            (''remove'', data_count data ''detected_remove_models''), (''fails'', data_length data ''failed_channel_ids'')]))"

definition op_over :: "upstream_op \<Rightarrow> Upstream \<Rightarrow> Upstream" where
  \<comment> \<open>the \<open>finally\<close> of an operation\<close>
  "op_over op s = s\<lparr>us_busy := (us_busy s)(op := False)\<rparr>"

definition upstream_answered ::
  "(jsstr \<Rightarrow> jsstr) \<Rightarrow> jsstr \<Rightarrow> upstream_op \<Rightarrow> upstream_answer \<Rightarrow> Upstream \<Rightarrow> Upstream \<times> upstream_effect list" where
  \<comment> \<open>the answer, up to \<open>await refresh()\<close> or the end; \<open>typeError\<close>: the message of the exception of \<open>normalizeModelList\<close>\<close>
  "upstream_answered t typeError op answer s = (case answer of
       Rejected r \<Rightarrow> (op_over op s, [UpstreamError (rejection_text t (failure_text op) r)])
     | Answered ok msg data \<Rightarrow>
         if \<not> ok then (op_over op s, [UpstreamError (opt_str_or msg (t (failure_text op)))])
         else (case success_effect op data s of
             None \<Rightarrow> (op_over op s, [UpstreamError (opt_str_or (Some typeError) (t (failure_text op)))])
           | Some e \<Rightarrow> (if op = Apply then upstream_closeModal s else s, [e, RefreshList])))"

definition upstream_refreshed ::
  "(jsstr \<Rightarrow> jsstr) \<Rightarrow> upstream_op \<Rightarrow> rejection option \<Rightarrow> Upstream \<Rightarrow> Upstream \<times> upstream_effect list" where
  \<comment> \<open>the refresh of the list ends, or is rejected\<close>
  "upstream_refreshed t op failed s =
     (op_over op s, case failed of None \<Rightarrow> [] | Some r \<Rightarrow> [UpstreamError (rejection_text t (failure_text op) r)])"

datatype upstream_action =
  OpenModal "jsnum option" "jsstr list" "jsstr list" jsstr
| CloseModal
| StartApply "jsstr list" "jsstr list"
| StartApplyAll
| StartDetect "jsnum option"
| StartDetectAll

fun request_op :: "upstream_effect \<Rightarrow> upstream_op option" where
  "request_op (ApplyRequest c a i r) = Some Apply"
| "request_op ApplyAllRequest = Some ApplyAll"
| "request_op (DetectRequest c) = Some Detect"
| "request_op DetectAllRequest = Some DetectAll"
| "request_op _ = None"

fun upstream_act :: "(jsstr \<Rightarrow> jsstr) \<Rightarrow> upstream_action \<Rightarrow> Upstream \<Rightarrow> Upstream \<times> upstream_effect list" where
  "upstream_act t (OpenModal c a r tab) s = upstream_openModal t c a r tab s"
| "upstream_act t CloseModal s = (upstream_closeModal s, [])"
| "upstream_act t (StartApply a r) s = applyUpdates a r s"
| "upstream_act t StartApplyAll s = applyAllUpdates s"
| "upstream_act t (StartDetect c) s = detectChannelUpdates c s"
| "upstream_act t StartDetectAll s = detectAllUpdates s"

definition initial_upstream :: Upstream where
  "initial_upstream = \<lparr>us_showModal = False, us_channel = None, us_addModels = [], us_removeModels = [], us_preferredTab = ''add'',
     us_busy = (\<lambda>_. False), us_ignoring = []\<rparr>"

text \<open>The page together with the requests that wait for an answer and the operations whose refresh is under way. Any of them may
  go on at any time, and so may the user.\<close>

inductive upstream_run :: "(jsstr \<Rightarrow> jsstr) \<Rightarrow> jsstr \<Rightarrow> Upstream \<Rightarrow> upstream_op list \<Rightarrow> upstream_op list \<Rightarrow> bool" for t te where
  Start: "upstream_run t te initial_upstream [] []"
| User: "upstream_run t te s out ref \<Longrightarrow> (s', es) = upstream_act t a s \<Longrightarrow>
     upstream_run t te s' (List.map_filter request_op es @ out) ref"
| Server: "upstream_run t te s out ref \<Longrightarrow> op \<in> set out \<Longrightarrow> (s', es) = upstream_answered t te op ans s \<Longrightarrow>
     upstream_run t te s' (remove1 op out) (if RefreshList \<in> set es then op # ref else ref)"
| Refreshed: "upstream_run t te s out ref \<Longrightarrow> op \<in> set ref \<Longrightarrow> (s', es) = upstream_refreshed t op failed s \<Longrightarrow>
     upstream_run t te s' out (remove1 op ref)"

lemma normalize_strings_eq: "normalize_strings xs = uniq (filter (\<lambda>s. s \<noteq> []) (map js_trim xs))"
proof -
  have "model_text (JStr x) = js_trim x" for x by (cases x) (simp_all add: model_text_def)
  then have "map model_text (map JStr xs) = map js_trim xs" by simp
  moreover have "\<not> list_ex string_throws (map JStr xs)" by (induction xs) simp_all
  ultimately show ?thesis unfolding normalize_strings_def normalizeModelList_def
    by (simp only: js_truthy.simps not_True_eq_False if_False option.case json.case)
qed

lemma normalize_strings_set: "set (normalize_strings xs) = js_trim ` set xs - {[]}" "distinct (normalize_strings xs)"
  by (auto simp: normalize_strings_eq)

lemma count_remove1: "x \<in> set xs \<Longrightarrow> count_list (remove1 x xs) y = count_list xs y - (if x = y then 1 else 0)"
  by (induction xs) auto

lemma count_one: "x \<in> set xs \<Longrightarrow> 0 < count_list xs x"
  using count_list_0_iff [of xs x] by auto

lemma answered_busy:
  assumes "(s', es) = upstream_answered t te op ans s"
  shows "us_busy s' = (if RefreshList \<in> set es then us_busy s else (us_busy s)(op := False))"
  using assms by (auto simp: upstream_answered_def op_over_def upstream_closeModal_def success_effect_def split: upstream_answer.splits option.splits if_splits upstream_op.splits)

lemma user_step:
  assumes "(s', es) = upstream_act t a s"
  shows "(us_busy s' = us_busy s \<and> List.map_filter request_op es = []) \<or>
    (\<exists>op. \<not> us_busy s op \<and> us_busy s' = (us_busy s)(op := True) \<and> List.map_filter request_op es = [op])"
  using assms by (cases a) (auto simp: upstream_openModal_def upstream_closeModal_def applyUpdates_def applyAllUpdates_def
      detectChannelUpdates_def detectAllUpdates_def List.map_filter_simps Let_def split: if_splits)

lemma run_busy: "upstream_run t te s out ref \<Longrightarrow> count_list out op + count_list ref op = (if us_busy s op then 1 else 0)"
proof (induction arbitrary: op rule: upstream_run.induct)
  case (User s out ref s' es a)
  from user_step [OF User.hyps(2)] show ?case
  proof (elim disjE exE conjE)
    fix o1 assume "\<not> us_busy s o1" "us_busy s' = (us_busy s)(o1 := True)" "List.map_filter request_op es = [o1]"
    then show ?thesis using User.IH [of op] by (cases "o1 = op") simp_all
  qed (use User.IH [of op] in simp)
next
  case (Server s out ref o1 s' es ans)
  show ?case using Server.IH [of op] Server.IH [of o1] count_remove1 [OF Server.hyps(2), of op] count_one [OF Server.hyps(2)] answered_busy [OF Server.hyps(3)]
    by (cases "op = o1") (auto split: if_splits)
next
  case (Refreshed s out ref o1 s' es failed)
  then have "us_busy s' = (us_busy s)(o1 := False)" by (simp add: upstream_refreshed_def op_over_def)
  then show ?case using Refreshed.IH [of op] Refreshed.IH [of o1] count_remove1 [OF Refreshed.hyps(2), of op] count_one [OF Refreshed.hyps(2)]
    by (cases "op = o1") (auto split: if_splits)
qed (simp add: initial_upstream_def)

lemma run_distinct: "upstream_run t te s out ref \<Longrightarrow> distinct (us_addModels s)"
proof (induction rule: upstream_run.induct)
  case (User s out ref s' es a)
  then show ?case by (cases a) (auto simp: upstream_openModal_def upstream_closeModal_def applyUpdates_def applyAllUpdates_def
      detectChannelUpdates_def detectAllUpdates_def normalize_strings_set Let_def split: if_splits)
next
  case (Server s out ref op s' es ans)
  then show ?case by (auto simp: upstream_answered_def op_over_def upstream_closeModal_def split: upstream_answer.splits option.splits if_splits)
next
  case (Refreshed s out ref op s' es failed)
  then show ?case by (simp add: upstream_refreshed_def op_over_def)
qed (simp add: initial_upstream_def)

lemma split_count:
  assumes "distinct add" "distinct xs" "m \<in> set xs"
  shows "count_list (add @ filter (\<lambda>m. m \<notin> set add) xs) m = 1"
proof -
  have one: "distinct ys \<Longrightarrow> count_list ys m = (if m \<in> set ys then 1 else 0)" for ys by (induction ys) auto
  show ?thesis using one [OF assms(1)] one [OF distinct_filter [OF assms(2)], of "\<lambda>m. m \<notin> set add"] assms(3) by auto
qed

text \<open>C9. At any moment at most one operation of each kind is under way, from its request until the end of the refresh that follows,
  and the reference is set exactly then. A request to apply updates is sent only when no such operation is under way, for the
  channel of the dialog, with the selected models; it names every pending model exactly once, among the models to add when the
  user selected it and among the models to ignore otherwise, and it ignores no other.\<close>

theorem upstream_exclusive:
  assumes "upstream_run t te s out ref"
  shows "count_list (out @ ref) op = (if us_busy s op then 1 else 0) \<and>
    (ApplyRequest c add ign rem \<in> set (snd (upstream_act t (StartApply selAdd selRem) s)) \<longrightarrow>
       Apply \<notin> set (out @ ref) \<and> us_channel s = Some c \<and> set add = js_trim ` set selAdd - {[]} \<and>
       (m \<in> set (us_addModels s) \<longrightarrow> count_list (add @ ign) m = 1) \<and>
       (m \<in> set ign \<longleftrightarrow> m \<in> set (us_addModels s) \<and> m \<notin> set add))"
proof -
  have busy: "count_list (out @ ref) op = (if us_busy s op then 1 else 0)" for op using run_busy [OF assms, of op] by simp
  show ?thesis
  proof (intro conjI impI)
    assume r: "ApplyRequest c add ign rem \<in> set (snd (upstream_act t (StartApply selAdd selRem) s))"
    have e: "\<not> us_busy s Apply" "\<not> falsy_id (us_channel s)" "c = the (us_channel s)" "add = normalize_strings selAdd"
      "ign = filter (\<lambda>m. m \<notin> set add) (us_addModels s)"
      using r by (auto simp: applyUpdates_def Let_def split: if_splits)
    show "Apply \<notin> set (out @ ref)" using e(1) busy [of Apply] count_list_0_iff [of "out @ ref" Apply] by simp
    show "us_channel s = Some c" using e(2,3) by (auto simp: falsy_id_def split: option.splits)
    show "set add = js_trim ` set selAdd - {[]}" unfolding e(4) by (rule normalize_strings_set)
    show "count_list (add @ ign) m = 1" if "m \<in> set (us_addModels s)"
      unfolding e(5) using that run_distinct [OF assms] by (intro split_count) (simp_all add: e(4) normalize_strings_set)
    show "m \<in> set ign \<longleftrightarrow> m \<in> set (us_addModels s) \<and> m \<notin> set add" using e(5) by auto
  qed (rule busy)
qed

theorem upstream_exclusive_witness:
  "let s = fst (upstream_openModal (\<lambda>x. x) (Some (num 7)) ['' a '', ''b''] [] ''add'' initial_upstream) in
   snd (applyUpdates [''a''] [] s) = [ApplyRequest (num 7) [''a''] [''b''] []] \<and> count_list [''a'', ''b''] ''b'' = (1 :: nat) \<and> \<not> us_busy s Apply"
proof -
  let ?a = "OpenModal (Some (num 7)) ['' a '', ''b''] [] ''add''"
  let ?s = "fst (upstream_openModal (\<lambda>x. x) (Some (num 7)) ['' a '', ''b''] [] ''add'' initial_upstream)"
  have e: "snd (upstream_act (\<lambda>x. x) ?a initial_upstream) = []" by code_simp
  have "upstream_run (\<lambda>x. x) [] ?s (List.map_filter request_op (snd (upstream_act (\<lambda>x. x) ?a initial_upstream)) @ []) []"
    by (rule upstream_run.User [OF upstream_run.Start, of _ _ _ ?a]) simp
  then have run: "upstream_run (\<lambda>x. x) [] ?s [] []" unfolding e by (simp add: List.map_filter_simps)
  have "snd (applyUpdates [''a''] [] ?s) = [ApplyRequest (num 7) [''a''] [''b''] []]" "us_addModels ?s = [''a'', ''b'']" by code_simp+
  then show ?thesis using upstream_exclusive [OF run, of Apply "num 7" "[''a'']" "[''b'']" "[]" "[''a'']" "[]" "''b''"]
    by (simp only: Let_def) (simp split: if_splits)
qed

text \<open>The answer to a request closes whatever dialog is open: when the dialog was closed and opened for another channel in the meantime,
  the dialog of that channel is closed and its lists are lost.\<close>

lemma late_answer_closes:
  assumes "success_effect Apply data s \<noteq> None"
  shows "us_showModal (fst (upstream_answered t te Apply (Answered True msg data) s)) = False \<and>
     us_channel (fst (upstream_answered t te Apply (Answered True msg data) s)) = None"
  using assms by (auto simp: upstream_answered_def upstream_closeModal_def split: option.splits)

end
