(* ===== verification/Spec2Isabelle.thy ===== *)
theory Spec2Isabelle
  imports Http_Status_Rules Status_Risk_Guard System_Config Currency Format_Utils
    Billing_Visibility Model_Mapping Playground_Messages Playground_Stream
    Channel_Types Channel_Utils Channel_Form Ollama_Utils Pricing Js_Regex Billing_Expr Billing_Rules
    Billing_Tiers Dynamic_Price Param_Saving Playground_State Dashboard_Charts Usage_Logs
    Sidebar_Config Wallet Secure_Access Settings_Form Table_State Upstream_Updates
begin

text \<open>
  A verification library for the web console of KittyVibe, a gateway for language-model services.
  The console is the TypeScript program under \<^verbatim>\<open>src/web/default/src\<close>; all file names below
  are relative to that directory.

  \<^bold>\<open>The program.\<close> The administrator configures \<^emph>\<open>channels\<close> (upstream accounts) with a
  form; users look at \<^emph>\<open>prices\<close>, talk to models in the \<^emph>\<open>playground\<close> and see their usage
  as money, credits or tokens.  The rendering is React and is not modelled.  What decides what is
  shown, sent and stored are plain modules (\<^verbatim>\<open>lib/\<close>, \<^verbatim>\<open>features/*/lib/\<close>,
  \<^verbatim>\<open>stores/\<close>), and those are translated here, function by function.

  \<^bold>\<open>The language layer.\<close>
  \<^item> \<^verbatim>\<open>Js_Prelude\<close>: strings as lists of characters (code units up to 255) with \<open>split\<close>, \<open>trim\<close>, \<open>indexOf\<close>,
    \<open>slice\<close>, \<open>join\<close>; objects as association lists in the order of their keys (\<open>obj_get\<close>, \<open>obj_set\<close>, \<open>obj_del\<close>; array indices
    first); stable sorting; the locales the components share: \<open>total_comparator\<close>, \<open>dictionary\<close>, \<open>normaliser\<close>,
    \<open>event_machine\<close>, \<open>guarded_machine\<close>.
  \<^item> \<^verbatim>\<open>Js_Number\<close>: binary64 numbers as \<open>NaN\<close>, the two infinities and the finite values as the rationals they
    denote, with one zero; every operation computes exactly and rounds (\<open>round64\<close>, \<open>fl\<close>). \<open>Math.round\<close>, \<open>toFixed\<close>, printing,
    comparison, and bounds on the error of chains of rounded operations.
  \<^item> \<^verbatim>\<open>Js_Json\<close>: JSON values, \<open>JSON.stringify\<close> and \<open>JSON.parse\<close>.  The parser is written with fuel,
    and the fuel it is called with is twice the length of the text plus two: every nested call
    follows the consumption of a character, and each character is charged at most two calls.  That
    this is enough is a lemma (\<open>json_fuel\<close>), and \<open>json_roundtrip\<close> shows that a printed value is read
    back.  \<^verbatim>\<open>Js_Pretty\<close>: the indented form of \<open>JSON.stringify\<close>, with the same round trip, \<open>Number\<close> and spreading.
  \<^item> \<^verbatim>\<open>Js_Regex\<close>: the regular expressions of the sources as a datatype with a backtracking matcher; the repetition
    runs with the length of the text as fuel, since every round consumes a character.  \<^verbatim>\<open>Js_Map\<close>: insertion-ordered
    maps for the chart aggregations.  \<^verbatim>\<open>Js_Base64\<close>: \<open>atob\<close> and \<open>btoa\<close> with their round trip.

  \<^bold>\<open>The components.\<close>
  \<^item> \<^verbatim>\<open>Http_Status_Rules\<close> (\<^verbatim>\<open>lib/http-status-code-rules.ts\<close>): the texts such as \<open>"401,500-599"\<close> that
    say on which upstream codes a channel is disabled or retried.  The accepted ranges are
    canonical, cover exactly what the text says, are printed and read back, and a text is rejected
    exactly when one of its segments is invalid.
  \<^item> \<^verbatim>\<open>Status_Risk_Guard\<close> (\<^verbatim>\<open>features/channels/lib/status-code-risk-guard.ts\<close>): which redirects of
    a status-code mapping need a confirmation.
  \<^item> \<^verbatim>\<open>System_Config\<close> (\<^verbatim>\<open>stores/system-config-store.ts\<close>): the configuration store as a record with
    its setters; every sequence of updates leaves the fields the display reads set.
  \<^item> \<^verbatim>\<open>Currency\<close> (\<^verbatim>\<open>lib/currency.ts\<close>) and \<^verbatim>\<open>Format_Utils\<close> (\<^verbatim>\<open>lib/format.ts\<close>): amounts, quotas,
    credits, times and colours.  The round trip of a quota through its displayed amount is proved
    through the binary64 rounding of both conversions.
  \<^item> \<^verbatim>\<open>Billing_Visibility\<close> (\<^verbatim>\<open>lib/billing-visibility.ts\<close>, \<^verbatim>\<open>lib/roles.ts\<close>): who sees which billing
    detail; nobody below the administrator role is given the internal view.
  \<^item> \<^verbatim>\<open>Model_Mapping\<close> (\<^verbatim>\<open>features/channels/lib/model-mapping-validation.ts\<close> and
    \<^verbatim>\<open>upstream-update-utils.ts\<close>): model lists, redirects, missing and exposed models.
  \<^item> \<^verbatim>\<open>Playground_Messages\<close> and \<^verbatim>\<open>Playground_Stream\<close> (\<^verbatim>\<open>features/playground/lib\<close> and its hooks
    \<^verbatim>\<open>use-stream-request.ts\<close>, \<^verbatim>\<open>use-chat-handler.ts\<close>): the messages with their think blocks, and the
    event handlers of the server-sent event stream as steps on a state record; the invariants are
    proved for every sequence of events.
  \<^item> \<^verbatim>\<open>Channel_Types\<close>, \<^verbatim>\<open>Channel_Utils\<close>, \<^verbatim>\<open>Channel_Form\<close> and \<^verbatim>\<open>Ollama_Utils\<close>
    (\<^verbatim>\<open>features/channels\<close>): the type tables, keys, groups and tag rows of the channel list, the form
    with its schema and both payloads, and the Ollama model list.
  \<^item> \<^verbatim>\<open>Param_Override\<close>, \<^verbatim>\<open>Param_Editor\<close>, \<^verbatim>\<open>Param_Saving\<close>
    (\<^verbatim>\<open>features/channels/components/dialogs/param-override-editor-dialog.tsx\<close>): the editor of the rules that rewrite a
    request. The first holds the definitions, the second the state of the dialog (ids, well-formed rules, reordering) after
    any sequence of actions, the third what is saved and read back, and on which texts the dialog cannot be opened.
  \<^item> \<^verbatim>\<open>Pricing\<close> (\<^verbatim>\<open>features/pricing/lib\<close>): ratios, displayed prices, filters and sorting.
  \<^item> \<^verbatim>\<open>Billing_Expr\<close>, \<^verbatim>\<open>Billing_Rules\<close>, \<^verbatim>\<open>Billing_Tiers\<close>, \<^verbatim>\<open>Dynamic_Price\<close>
    (\<^verbatim>\<open>billing-expr.ts\<close>, \<^verbatim>\<open>tier-expr.ts\<close>, \<^verbatim>\<open>dynamic-price.ts\<close> of \<^verbatim>\<open>features/pricing/lib\<close>): the expressions that price
    a request by tiers and rules. What the visual editors generate is parsed into the tiers and rules it came from (on the
    rules that the parser covers), and the price page shows exactly the saved tiers.
  \<^item> \<^verbatim>\<open>Session_Stores\<close> (\<^verbatim>\<open>stores/auth-store.ts\<close>, \<^verbatim>\<open>stores/notification-store.ts\<close>,
    \<^verbatim>\<open>hooks/use-notifications.ts\<close>): the session and its copy in the local storage, and the read marks of announcements.
    \<^verbatim>\<open>Playground_State\<close>: the playground page over that storage, with its effects and handlers; a reload restores it and settles
    the last answer that was under way.
  \<^item> \<^verbatim>\<open>Dashboard_Data\<close> and \<^verbatim>\<open>Dashboard_Charts\<close> (\<^verbatim>\<open>lib/time.ts\<close>, \<^verbatim>\<open>features/dashboard/lib\<close>): time ranges,
    preferences and the rows of the charts. The locale \<open>chart_figure\<close> states what the aggregation promises of a figure and
    is interpreted for the quota and for the calls; the charts account for every item.
  \<^item> \<^verbatim>\<open>Usage_Logs\<close> (\<^verbatim>\<open>features/usage-logs/lib\<close>): the requests for logs and the billing summary of an entry, which
    composes with the tier editor and the price page.
  \<^item> \<^verbatim>\<open>Sidebar_Config\<close> (\<^verbatim>\<open>hooks/use-sidebar-config.ts\<close>, \<^verbatim>\<open>features/system-settings/maintenance/config.ts\<close>): the
    sidebar shows item by item what the settings page saved and the user chose.
  \<^item> \<^verbatim>\<open>Console_Forms\<close> (\<^verbatim>\<open>lib\<close> and the submit handlers of \<^verbatim>\<open>features/keys\<close>, \<^verbatim>\<open>redemption-codes\<close>, \<^verbatim>\<open>users\<close>,
    \<^verbatim>\<open>subscriptions\<close>, \<^verbatim>\<open>models\<close>): records into forms and back; handlers as functions from the answers of the server
    to the list of their effects.
  \<^item> \<^verbatim>\<open>Wallet\<close> (\<^verbatim>\<open>features/wallet\<close>): the top-up page as a step relation in which quotes are answered in any
    order; in an orderly run the confirmation shows the quote of what is selected (a payment asks for that amount rounded
    down), and a late answer breaks this.
  \<^item> \<^verbatim>\<open>Secure_Access\<close> (\<^verbatim>\<open>lib/passkey.ts\<close>, \<^verbatim>\<open>features/auth/secure-verification\<close>, \<^verbatim>\<open>features/auth/lib\<close>,
    \<^verbatim>\<open>features/auth/hooks/use-auth-redirect.ts\<close>): bytes and base64url, the second factor of an attempt before its protected
    call, with the exceptions of the callbacks of the caller, backup codes, and signing in over the session store.
  \<^item> \<^verbatim>\<open>Settings_Form\<close> (\<^verbatim>\<open>features/system-settings/hooks/use-settings-form.ts\<close>): option names as paths in a tree, seen as
    a set of leaves; what a submission sends.
  \<^item> \<^verbatim>\<open>Table_State\<close> (\<^verbatim>\<open>hooks/use-table-url-state.ts\<close>, \<^verbatim>\<open>features/pricing/hooks/use-filters.ts\<close>): tables whose state is in the
    address (the router decides whether the hook sees a new object), and the price page. The locale \<open>filter_slots\<close> states what independent filters promise; it is interpreted for the
    filters of the price page.
  \<^item> \<^verbatim>\<open>Upstream_Updates\<close> (\<^verbatim>\<open>features/channels/hooks/use-channel-upstream-updates.ts\<close>): requests, answers and refreshes as
    the steps of a relation, with one operation of a kind at a time.

  \<^bold>\<open>Parameters.\<close> Code outside the repository is an argument of the definitions that call it:
  \<open>Intl.NumberFormat\<close> and \<open>localeCompare\<close> (formatting and collation functions), \<open>dayjs\<close> and the calendar of the browser,
  the identifiers made by \<open>nanoid\<close> and \<open>Math.random\<close>, the clock, the quota of the local storage, the \<open>sse.js\<close> event source (its
  identity and whether it was closed), the function made by \<open>new Function\<close> for an expression, the UTF-8 decoder, \<open>new URL\<close>,
  the answers of the server, the router, the WebAuthn
  interface of the browser, the callbacks of the caller and the translator.  A theorem that relies on such a function names what it relies on as
  a hypothesis, and has a witness at a concrete function.

  \<^bold>\<open>Not modelled.\<close> The JSX of components and dialogs, routes, translations and the API wrappers (rendering and
  network traffic); the layout constants of the charts; the zod schemas other than that of the channel form; the
  persistence middleware of the stores; stored playground messages that are no messages; characters beyond Latin-1; the
  fields of the settings pages and the channel drawer; the Go backend, which is another program.
\<close>

end
